(* ===== verification/Prelude.thy ===== *)
theory Prelude
  imports Main "HOL-Library.Word"
begin

text \<open>
  Shared vocabulary of the development: the identifier and time types, results of
  fallible Python code as sums (\<open>Inl\<close> the raised exception, \<open>Inr\<close> the value), the
  sequencing of such results, and the generic list lemmas the components use.

  A \<open>uuid.UUID\<close> is the 128-bit integer Python stores; PostgreSQL and Python both order
  UUIDs by that integer, which is what the keyed pagination relies on. An aware
  \<open>datetime\<close> is its instant in microseconds since the epoch.
\<close>

type_synonym uuid = "128 word"
type_synonym datetime = int

text \<open>Facts that unfold sequenced results, and the laws of evaluated SQL conditions.\<close>

named_theorems result_simps \<open>simplification of sequenced results\<close>
named_theorems sql_laws \<open>evaluation of SQL conditions\<close>

section \<open>Results\<close>

fun bindR :: "'e + 'a \<Rightarrow> ('a \<Rightarrow> 'e + 'b) \<Rightarrow> 'e + 'b" where
  "bindR (Inl e) f = Inl e"
| "bindR (Inr x) f = f x"

lemma bindR_cong [fundef_cong]:
  "m = m' \<Longrightarrow> (\<And>x. m' = Inr x \<Longrightarrow> f x = f' x) \<Longrightarrow> bindR m f = bindR m' f'"
  by (cases m') auto

lemma bindR_Inr_iff [result_simps]: "bindR m f = Inr y \<longleftrightarrow> (\<exists>x. m = Inr x \<and> f x = Inr y)"
  by (cases m) auto

lemma bindR_Inl_iff [result_simps]:
  "bindR m f = Inl e \<longleftrightarrow> m = Inl e \<or> (\<exists>x. m = Inr x \<and> f x = Inl e)"
  by (cases m) auto

lemma bindR_InrE:
  assumes "bindR m f = Inr y"
  obtains x where "m = Inr x" "f x = Inr y"
  using assms by (cases m) auto

lemma bindR_assoc: "bindR (bindR m f) g = bindR m (\<lambda>x. bindR (f x) g)"
  by (cases m) auto

text \<open>
  Python's \<open>all(...)\<close> and \<open>any(...)\<close> over a generator of fallible tests: the first
  result that decides the answer, or the first exception met on the way, wins.
\<close>

fun all_results :: "('e + bool) list \<Rightarrow> 'e + bool" where
  "all_results [] = Inr True"
| "all_results (Inl e # rs) = Inl e"
| "all_results (Inr b # rs) = (if b then all_results rs else Inr False)"

fun any_results :: "('e + bool) list \<Rightarrow> 'e + bool" where
  "any_results [] = Inr False"
| "any_results (Inl e # rs) = Inl e"
| "any_results (Inr b # rs) = (if b then Inr True else any_results rs)"

text \<open>A list comprehension whose element expression may raise.\<close>

fun seq_results :: "('e + 'a) list \<Rightarrow> 'e + 'a list" where
  "seq_results [] = Inr []"
| "seq_results (Inl e # rs) = Inl e"
| "seq_results (Inr x # rs) = bindR (seq_results rs) (\<lambda>xs. Inr (x # xs))"

lemma all_results_map_Inr [simp]: "all_results (map (\<lambda>x. Inr (p x)) xs) = Inr (\<forall>x \<in> set xs. p x)"
  by (induction xs) auto

lemma any_results_map_Inr [simp]: "any_results (map (\<lambda>x. Inr (p x)) xs) = Inr (\<exists>x \<in> set xs. p x)"
  by (induction xs) auto

lemma all_results_Inr:
  assumes "\<And>x. x \<in> set xs \<Longrightarrow> f x = Inr (p x)"
  shows "all_results (map f xs) = Inr (\<forall>x \<in> set xs. p x)"
proof -
  have "map f xs = map (\<lambda>x. Inr (p x)) xs" using assms by simp
  then show ?thesis by (simp only: all_results_map_Inr)
qed

lemma any_results_Inr:
  assumes "\<And>x. x \<in> set xs \<Longrightarrow> f x = Inr (p x)"
  shows "any_results (map f xs) = Inr (\<exists>x \<in> set xs. p x)"
proof -
  have "map f xs = map (\<lambda>x. Inr (p x)) xs" using assms by simp
  then show ?thesis by (simp only: any_results_map_Inr)
qed

lemma seq_results_Inr_iff:
  "seq_results rs = Inr xs \<longleftrightarrow> rs = map Inr xs"
proof (induction rs arbitrary: xs)
  case Nil
  then show ?case by auto
next
  case (Cons r rs)
  show ?case
  proof (cases r)
    case (Inl e)
    then show ?thesis by (auto simp: Cons_eq_map_conv)
  next
    case (Inr x)
    then show ?thesis using Cons by (cases xs) (auto simp: bindR_Inr_iff)
  qed
qed

lemma seq_results_map_Inr:
  assumes "\<And>x. x \<in> set xs \<Longrightarrow> f x = Inr (g x)"
  shows "seq_results (map f xs) = Inr (map g xs)"
  using assms by (induction xs) auto

section \<open>Lists\<close>

text \<open>\<open>dict\<close> comprehension \<open>{k(x): x for x in xs}\<close>: a later element with the same key wins.\<close>

definition dict_by :: "('a \<Rightarrow> 'k) \<Rightarrow> 'a list \<Rightarrow> 'k \<Rightarrow> 'a option" where
  "dict_by k xs = map_of (rev (map (\<lambda>x. (k x, x)) xs))"

lemma dict_by_Some_iff:
  assumes "distinct (map k xs)"
  shows "dict_by k xs i = Some x \<longleftrightarrow> x \<in> set xs \<and> k x = i"
proof -
  have d: "distinct (map fst (rev (map (\<lambda>x. (k x, x)) xs)))"
    using assms by (simp add: rev_map o_def) (simp flip: rev_map)
  show ?thesis
    unfolding dict_by_def map_of_eq_Some_iff [OF d] by auto
qed

lemma dict_by_None_iff: "dict_by k xs i = None \<longleftrightarrow> i \<notin> k ` set xs"
  by (auto simp: dict_by_def map_of_eq_None_iff image_image)

lemma dict_by_SomeD: "dict_by k xs i = Some x \<Longrightarrow> x \<in> set xs \<and> k x = i"
  by (auto simp: dict_by_def dest!: map_of_SomeD)

lemma filter_unique:
  assumes "distinct (map k xs)" "x \<in> set xs" "k x = i" "P x"
  shows "filter (\<lambda>y. k y = i \<and> P y) xs = [x]"
  using assms
proof (induction xs)
  case Nil
  then show ?case by simp
next
  case (Cons y ys)
  show ?case
  proof (cases "k y = i")
    case True
    then have "y = x" using Cons.prems by (metis distinct.simps(2) image_eqI list.set_map list.simps(9) set_ConsD)
    moreover have "filter (\<lambda>y. k y = i \<and> P y) ys = []"
      using Cons.prems True by (auto simp: filter_empty_conv) (metis image_eqI)
    ultimately show ?thesis using Cons.prems True by simp
  next
    case False
    then show ?thesis using Cons by auto
  qed
qed

lemma filter_key_cases:
  assumes "distinct (map k xs)"
  obtains "filter (\<lambda>y. k y = i \<and> P y) xs = []"
    | x where "x \<in> set xs" "k x = i" "P x" "filter (\<lambda>y. k y = i \<and> P y) xs = [x]"
proof (cases "\<exists>x \<in> set xs. k x = i \<and> P x")
  case True
  then obtain x where x: "x \<in> set xs" "k x = i" "P x" by blast
  from x filter_unique [where P = P, OF assms x] show ?thesis by (rule that(2))
next
  case False
  then have "filter (\<lambda>y. k y = i \<and> P y) xs = []" by (auto simp: filter_empty_conv)
  then show ?thesis by (rule that(1))
qed

end
