(* ===== verification/PyVal.thy ===== *)
theory PyVal
  imports Prelude "HOL-Library.Sublist" "HOL-Library.Char_ord" "HOL-Library.List_Lexorder"
begin

text \<open>
  The Python values the program compares: attribute values of ORM rows, filter values and
  token claims, with Python's equality, ordering and membership on them, and the pieces of
  the standard library the source uses on strings and UUIDs. Strings are ASCII text, one
  \<open>char\<close> per character.
\<close>

section \<open>Values\<close>

datatype pyval =
    VNone
  | VStr string
  | VInt int
  | VBool bool
  | VUuid uuid
  | VTime datetime "int option" \<comment> \<open>local time in microseconds, UTC offset (\<open>None\<close>: naive)\<close>
  | VList "pyval list"

datatype pyerr = TypeErr | AttributeErr string | KeyErr string | ArgumentErr | ValueErr | IndexErr | AssertionErr | NotModelled

type_synonym row = "string \<Rightarrow> pyval"

definition instant :: "datetime \<Rightarrow> int option \<Rightarrow> int" where
  "instant t off = t - (case off of None \<Rightarrow> 0 | Some d \<Rightarrow> d)"

text \<open>\<open>bool\<close> is a subclass of \<open>int\<close>: \<open>True == 1\<close>.\<close>

fun as_num :: "pyval \<Rightarrow> int option" where
  "as_num (VInt i) = Some i"
| "as_num (VBool b) = Some (of_bool b)"
| "as_num _ = None"

fun py_eq :: "pyval \<Rightarrow> pyval \<Rightarrow> bool" where
  "py_eq VNone VNone = True"
| "py_eq (VStr s) (VStr t) = (s = t)"
| "py_eq (VUuid u) (VUuid v) = (u = v)"
| "py_eq (VTime t x) (VTime u y) = ((x = None \<longleftrightarrow> y = None) \<and> instant t x = instant u y)"
| "py_eq (VList xs) (VList ys) = list_all2 py_eq xs ys"
| "py_eq a b = (as_num a \<noteq> None \<and> as_num a = as_num b)"

text \<open>
  The ordering operators: numbers, strings, UUIDs and datetimes of the same awareness are
  ordered, every other pair raises \<open>TypeError\<close>. The operator itself is the first argument.
\<close>

datatype ordop = OLt | OLe | OGt | OGe

fun ord_holds :: "ordop \<Rightarrow> 'a::linorder \<Rightarrow> 'a \<Rightarrow> bool" where
  "ord_holds OLt a b = (a < b)"
| "ord_holds OLe a b = (a \<le> b)"
| "ord_holds OGt a b = (a > b)"
| "ord_holds OGe a b = (a \<ge> b)"

fun py_ord :: "ordop \<Rightarrow> pyval \<Rightarrow> pyval \<Rightarrow> pyerr + bool" where
  "py_ord opr (VStr s) (VStr t) = Inr (ord_holds opr s t)"
| "py_ord opr (VUuid u) (VUuid v) = Inr (ord_holds opr u v)"
| "py_ord opr (VTime t x) (VTime u y) =
     (if (x = None) = (y = None) then Inr (ord_holds opr (instant t x) (instant u y)) else Inl TypeErr)"
| "py_ord opr a b =
     (case (as_num a, as_num b) of
        (Some i, Some j) \<Rightarrow> Inr (ord_holds opr i j)
      | _ \<Rightarrow> Inl TypeErr)"

text \<open>The \<open>in\<close> operator: substring on two strings, element of a list, \<open>TypeError\<close> elsewhere.\<close>

fun py_in :: "pyval \<Rightarrow> pyval \<Rightarrow> pyerr + bool" where
  "py_in v (VList xs) = Inr (\<exists>x \<in> set xs. py_eq x v)"
| "py_in (VStr s) (VStr t) = Inr (sublist s t)"
| "py_in _ _ = Inl TypeErr"

lemma py_eq_refl [simp]: "py_eq v v"
proof (induction v)
  case (VList xs)
  then show ?case by (induction xs) auto
qed auto

lemma py_eq_VNone [simp]: "py_eq v VNone \<longleftrightarrow> v = VNone" "py_eq VNone v \<longleftrightarrow> v = VNone"
  by (cases v; simp)+

lemma py_eq_VUuid [simp]: "py_eq v (VUuid u) \<longleftrightarrow> v = VUuid u" "py_eq (VUuid u) v \<longleftrightarrow> v = VUuid u"
  by (cases v; auto)+

lemma py_eq_VStr [simp]: "py_eq v (VStr u) \<longleftrightarrow> v = VStr u" "py_eq (VStr u) v \<longleftrightarrow> v = VStr u"
  by (cases v; auto)+

section \<open>Strings\<close>

text \<open>\<open>str.lower()\<close> on ASCII text.\<close>

definition lower_char :: "char \<Rightarrow> char" where
  "lower_char c =
     (let n = (of_char c :: nat) in if 65 \<le> n \<and> n \<le> 90 then char_of (n + 32) else c)"

definition lower :: "string \<Rightarrow> string" where
  "lower s = map lower_char s"

lemma lower_Nil [simp]: "lower [] = []"
  and lower_Cons [simp]: "lower (c # s) = lower_char c # lower s"
  and lower_append [simp]: "lower (s @ t) = lower s @ lower t"
  and length_lower [simp]: "length (lower s) = length s"
  by (simp_all add: lower_def)

text \<open>\<open>str.startswith\<close> is \<open>prefix\<close>; \<open>str.replace(c, s)\<close> for a one-character pattern.\<close>

definition replace_char :: "char \<Rightarrow> string \<Rightarrow> string \<Rightarrow> string" where
  "replace_char c r s = concat (map (\<lambda>x. if x = c then r else [x]) s)"

lemma replace_char_Nil [simp]: "replace_char c r [] = []"
  and replace_char_Cons [simp]:
    "replace_char c r (x # s) = (if x = c then r else [x]) @ replace_char c r s"
  and replace_char_append [simp]:
    "replace_char c r (s @ t) = replace_char c r s @ replace_char c r t"
  by (simp_all add: replace_char_def)

text \<open>\<open>str.split(c)\<close> with a one-character separator: always at least one part.\<close>

fun split_on :: "char \<Rightarrow> string \<Rightarrow> string list" where
  "split_on c [] = [[]]"
| "split_on c (x # s) =
     (if x = c then [] # split_on c s
      else (case split_on c s of [] \<Rightarrow> [[x]] | p # ps \<Rightarrow> (x # p) # ps))"

lemma split_on_nonempty [simp]: "split_on c s \<noteq> []"
  by (cases s) (auto split: list.splits)

lemma split_on_no_sep: "c \<notin> set s \<Longrightarrow> split_on c s = [s]"
  by (induction s) auto

lemma split_on_parts_no_sep: "p \<in> set (split_on c s) \<Longrightarrow> c \<notin> set p"
proof (induction s arbitrary: p)
  case (Cons x s)
  then show ?case by (cases "split_on c s") (auto split: if_splits)
qed simp

text \<open>\<open>c.join(parts)\<close>.\<close>

fun join_with :: "string \<Rightarrow> string list \<Rightarrow> string" where
  "join_with sep [] = []"
| "join_with sep [p] = p"
| "join_with sep (p # q # ps) = p @ sep @ join_with sep (q # ps)"

lemma join_split_on: "join_with [c] (split_on c s) = s"
proof (induction s)
  case (Cons x s)
  show ?case
  proof (cases "split_on c s")
    case Nil
    then show ?thesis by simp
  next
    case (Cons p ps)
    with \<open>join_with [c] (split_on c s) = s\<close> show ?thesis by (cases ps) auto
  qed
qed simp

text \<open>
  \<open>str.rpartition(sep)\<close>: the text before the last occurrence, whether it occurs, the text
  after it (the whole string when it does not occur).
\<close>

fun rpartition :: "string \<Rightarrow> string \<Rightarrow> string \<times> bool \<times> string" where
  "rpartition sep [] = (if sep = [] then ([], True, []) else ([], False, []))"
| "rpartition sep (x # s) =
     (case rpartition sep s of
        (h, True, t) \<Rightarrow> (x # h, True, t)
      | (h, False, t) \<Rightarrow>
          if prefix sep (x # s) then ([], True, drop (length sep) (x # s)) else ([], False, x # s))"

lemma rpartition_found: "rpartition sep s = (h, True, t) \<Longrightarrow> s = h @ sep @ t"
proof (induction s arbitrary: h)
  case Nil
  then show ?case by (auto split: if_splits)
next
  case (Cons x s)
  obtain h' b t' where r: "rpartition sep s = (h', b, t')" by (cases "rpartition sep s") auto
  show ?case
  proof (cases b)
    case True
    with r Cons show ?thesis by auto
  next
    case False
    with r Cons.prems show ?thesis by (auto split: if_splits simp: prefix_def)
  qed
qed

section \<open>Numbers and identifiers as text\<close>

text \<open>The digits of a number in base 10 or 16, most significant first, as \<open>str\<close> and \<open>hex\<close> print them.\<close>

definition digit_char :: "nat \<Rightarrow> char" where
  "digit_char d = char_of (if d < 10 then 48 + d else 87 + d)"

fun digits_of :: "nat \<Rightarrow> nat \<Rightarrow> nat list" where
  "digits_of b n = (if b < 2 \<or> n < b then [n] else digits_of b (n div b) @ [n mod b])"

declare digits_of.simps [simp del]

definition dec_of_nat :: "nat \<Rightarrow> string" where
  "dec_of_nat n = map digit_char (digits_of 10 n)"

definition dec_of_int :: "int \<Rightarrow> string" where
  "dec_of_int i = (if i < 0 then ''-'' @ dec_of_nat (nat (- i)) else dec_of_nat (nat i))"

text \<open>\<open>str(uuid)\<close>: 32 hexadecimal digits in groups of 8, 4, 4, 4 and 12.\<close>

definition hex_digits :: "nat \<Rightarrow> nat \<Rightarrow> nat list" where
  "hex_digits k n = map (\<lambda>i. n div 16 ^ (k - 1 - i) mod 16) [0..<k]"

definition uuid_hex :: "uuid \<Rightarrow> string" where
  "uuid_hex u = map digit_char (hex_digits 32 (unat u))"

definition uuid_str :: "uuid \<Rightarrow> string" where
  "uuid_str u =
     (let h = uuid_hex u in
      take 8 h @ ''-'' @ take 4 (drop 8 h) @ ''-'' @ take 4 (drop 12 h) @ ''-'' @
      take 4 (drop 16 h) @ ''-'' @ drop 20 h)"

text \<open>
  \<open>uuid.UUID(hex)\<close>: drop the \<open>urn:\<close> and \<open>uuid:\<close> prefixes, surrounding braces and all
  hyphens; exactly 32 hexadecimal digits must remain, otherwise \<open>ValueError\<close> (\<open>None\<close>).
\<close>

definition hex_value :: "char \<Rightarrow> nat option" where
  "hex_value c =
     (let n = (of_char c :: nat) in
      if 48 \<le> n \<and> n \<le> 57 then Some (n - 48)
      else if 97 \<le> n \<and> n \<le> 102 then Some (n - 87)
      else if 65 \<le> n \<and> n \<le> 70 then Some (n - 55)
      else None)"

definition num_of_digits :: "nat \<Rightarrow> nat list \<Rightarrow> nat" where
  "num_of_digits b ds = foldl (\<lambda>a d. a * b + d) 0 ds"

fun drop_all :: "string \<Rightarrow> string \<Rightarrow> string" where
  "drop_all pat [] = []"
| "drop_all pat (c # s) =
     (if pat \<noteq> [] \<and> prefix pat (c # s) then drop_all pat (drop (length pat - 1) s)
      else c # drop_all pat s)"

definition uuid_parse :: "string \<Rightarrow> uuid option" where
  "uuid_parse s =
     (let t = drop_all ''uuid:'' (drop_all ''urn:'' s);
          braces = (\<lambda>c. c = CHR ''{'' \<or> c = CHR ''}'');
          u = rev (dropWhile braces (rev (dropWhile braces t)));
          h = filter (\<lambda>c. c \<noteq> CHR ''-'') u;
          ds = List.map_filter hex_value h
      in if length h = 32 \<and> length ds = 32 then Some (word_of_nat (num_of_digits 16 ds)) else None)"

text \<open>
  \<open>str(value)\<close> for the scalar values; the texts of datetimes and lists are not modelled.
\<close>

fun py_str :: "pyval \<Rightarrow> pyerr + string" where
  "py_str VNone = Inr ''None''"
| "py_str (VStr s) = Inr s"
| "py_str (VInt i) = Inr (dec_of_int i)"
| "py_str (VBool b) = Inr (if b then ''True'' else ''False'')"
| "py_str (VUuid u) = Inr (uuid_str u)"
| "py_str (VTime _ _) = Inl NotModelled"
| "py_str (VList _) = Inl NotModelled"

end
