(* ===== verification/Sql.thy ===== *)
theory Sql
  imports PyVal
begin

text \<open>
  The WHERE conditions the program builds with SQLAlchemy, as syntax, and what it relies on
  when PostgreSQL evaluates them. The evaluator is a parameter of every definition that runs
  a query; the locale \<open>sql_engine\<close> states the documented laws of SQL's three-valued logic
  (\<open>None\<close> is SQL's \<open>NULL\<close>) that the program uses. Comparisons are only specified between
  values of the same SQL type, because PostgreSQL rejects the others. The reference evaluator
  \<open>sql_eval\<close> computes, satisfies the laws, and serves to evaluate concrete instances.
\<close>

section \<open>Conditions\<close>

datatype sqlop = SEq | SNe | SOrd ordop

datatype sqlcond =
    SFalse
  | SCmp sqlop string pyval          \<comment> \<open>\<open>column op value\<close>\<close>
  | SIsNull string
  | SIsNotNull string
  | SILike string string             \<comment> \<open>\<open>column ILIKE pattern ESCAPE '\'\<close>\<close>
  | SIn string "pyval list"
  | SNotIn string "pyval list"
  | SDistinct string pyval           \<comment> \<open>\<open>column IS DISTINCT FROM value\<close>\<close>
  | SNot sqlcond
  | SAnd "sqlcond list"
  | SOr "sqlcond list"
  | SInSelect string string string sqlcond \<comment> \<open>\<open>column IN (SELECT c FROM t WHERE cond)\<close>\<close>

type_synonym db = "string \<Rightarrow> row list"
type_synonym engine = "db \<Rightarrow> sqlcond \<Rightarrow> row \<Rightarrow> bool option"

section \<open>Three-valued connectives\<close>

definition k_not :: "bool option \<Rightarrow> bool option" where
  "k_not a = map_option Not a"

definition k_and :: "bool option list \<Rightarrow> bool option" where
  "k_and bs = (if Some False \<in> set bs then Some False else if None \<in> set bs then None else Some True)"

definition k_or :: "bool option list \<Rightarrow> bool option" where
  "k_or bs = (if Some True \<in> set bs then Some True else if None \<in> set bs then None else Some False)"

lemma k_not_True [simp]: "k_not a = Some True \<longleftrightarrow> a = Some False"
  by (cases a) (auto simp: k_not_def)

lemma k_and_True: "k_and bs = Some True \<longleftrightarrow> (\<forall>b \<in> set bs. b = Some True)"
proof -
  have "b = Some True" if "Some False \<notin> set bs" "None \<notin> set bs" "b \<in> set bs" for b
    using that by (metis (full_types) not_Some_eq)
  then show ?thesis by (auto simp: k_and_def)
qed

lemma k_or_True: "k_or bs = Some True \<longleftrightarrow> Some True \<in> set bs"
  by (auto simp: k_or_def)

text \<open>Values of one SQL type, and those of them whose order does not depend on a collation.\<close>

fun same_kind :: "pyval \<Rightarrow> pyval \<Rightarrow> bool" where
  "same_kind (VStr _) (VStr _) = True"
| "same_kind (VInt _) (VInt _) = True"
| "same_kind (VBool _) (VBool _) = True"
| "same_kind (VUuid _) (VUuid _) = True"
| "same_kind (VTime _ (Some _)) (VTime _ (Some _)) = True"
| "same_kind _ _ = False"

fun sql_ordered :: "pyval \<Rightarrow> pyval \<Rightarrow> bool" where
  "sql_ordered (VInt _) (VInt _) = True"
| "sql_ordered (VUuid _) (VUuid _) = True"
| "sql_ordered (VTime _ (Some _)) (VTime _ (Some _)) = True"
| "sql_ordered _ _ = False"

fun sql_ord :: "ordop \<Rightarrow> pyval \<Rightarrow> pyval \<Rightarrow> bool" where
  "sql_ord opr (VInt i) (VInt j) = ord_holds opr i j"
| "sql_ord opr (VUuid u) (VUuid v) = ord_holds opr u v"
| "sql_ord opr (VTime t x) (VTime u y) = ord_holds opr (instant t x) (instant u y)"
| "sql_ord opr _ _ = False"

text \<open>
  \<open>LIKE\<close> with escape character \<open>\\\<close>: \<open>%\<close> matches any sequence, \<open>_\<close> any one character, an
  escaped character only itself, and every other character itself.
\<close>

function like_match :: "string \<Rightarrow> string \<Rightarrow> bool" where
  "like_match [] s = (s = [])"
| "like_match (p # ps) s =
     (if p = CHR ''%'' then (\<exists>t \<in> set (suffixes s). like_match ps t)
      else if p = CHR 0x5C then
        (case ps of
           [] \<Rightarrow> False
         | q # qs \<Rightarrow> (case s of [] \<Rightarrow> False | x # s' \<Rightarrow> x = q \<and> like_match qs s'))
      else (case s of [] \<Rightarrow> False | x # s' \<Rightarrow> (p = CHR ''_'' \<or> x = p) \<and> like_match ps s'))"
  by pat_completeness auto
termination
  by (relation "measure (\<lambda>(p, s). length p)") auto

definition ilike_match :: "string \<Rightarrow> string \<Rightarrow> bool" where
  "ilike_match p s = like_match (lower p) (lower s)"

section \<open>What the program relies on\<close>

locale sql_engine =
  fixes ev :: "(string \<Rightarrow> (string \<Rightarrow> pyval) list) \<Rightarrow> sqlcond \<Rightarrow> (string \<Rightarrow> pyval) \<Rightarrow> bool option"
  assumes ev_false: "ev D SFalse r = Some False"
    and ev_cmp_null: "r c = VNone \<Longrightarrow> ev D (SCmp opr c v) r = None"
    and ev_eq: "same_kind (r c) v \<Longrightarrow> ev D (SCmp SEq c v) r = Some (py_eq (r c) v)"
    and ev_ne: "same_kind (r c) v \<Longrightarrow> ev D (SCmp SNe c v) r = Some (\<not> py_eq (r c) v)"
    and ev_ord: "sql_ordered (r c) v \<Longrightarrow> ev D (SCmp (SOrd o1) c v) r = Some (sql_ord o1 (r c) v)"
    and ev_is_null: "ev D (SIsNull c) r = Some (r c = VNone)"
    and ev_is_not_null: "ev D (SIsNotNull c) r = Some (r c \<noteq> VNone)"
    and ev_ilike: "r c = VStr s \<Longrightarrow> ev D (SILike c p) r = Some (ilike_match p s)"
    and ev_ilike_null: "r c = VNone \<Longrightarrow> ev D (SILike c p) r = None"
    and ev_in: "(\<And>v. v \<in> set vs \<Longrightarrow> same_kind (r c) v) \<Longrightarrow>
      ev D (SIn c vs) r = Some (\<exists>v \<in> set vs. py_eq (r c) v)"
    and ev_in_null: "r c = VNone \<Longrightarrow> vs \<noteq> [] \<Longrightarrow> ev D (SIn c vs) r = None"
    and ev_not_in: "(\<And>v. v \<in> set vs \<Longrightarrow> same_kind (r c) v) \<Longrightarrow>
      ev D (SNotIn c vs) r = Some (\<not> (\<exists>v \<in> set vs. py_eq (r c) v))"
    and ev_distinct_null: "v \<noteq> VNone \<Longrightarrow> r c = VNone \<Longrightarrow> ev D (SDistinct c v) r = Some True"
    and ev_distinct: "same_kind (r c) v \<Longrightarrow> ev D (SDistinct c v) r = Some (\<not> py_eq (r c) v)"
    and ev_not: "ev D (SNot q) r = k_not (ev D q r)"
    and ev_and: "ev D (SAnd qs) r = k_and (map (\<lambda>q. ev D q r) qs)"
    and ev_or: "ev D (SOr qs) r = k_or (map (\<lambda>q. ev D q r) qs)"
    and ev_in_select: "same_kind (r c) (r c) \<Longrightarrow>
      (\<And>s. s \<in> set (D t) \<Longrightarrow> same_kind (r c) (s c')) \<Longrightarrow>
      ev D (SInSelect c t c' q) r =
        Some (\<exists>s \<in> set (D t). ev D q s = Some True \<and> py_eq (r c) (s c'))"
    and ev_in_select_null: "r c = VNone \<Longrightarrow> ev D (SInSelect c t c' q) r \<noteq> Some True"
begin

lemma ev_and_True: "ev D (SAnd qs) r = Some True \<longleftrightarrow> (\<forall>q \<in> set qs. ev D q r = Some True)"
  by (simp add: ev_and k_and_True)

lemma ev_or_True: "ev D (SOr qs) r = Some True \<longleftrightarrow> (\<exists>q \<in> set qs. ev D q r = Some True)"
  by (auto simp: ev_or k_or_True image_iff) (metis)

lemma ev_not_True: "ev D (SNot q) r = Some True \<longleftrightarrow> ev D q r = Some False"
  by (simp add: ev_not)

lemma ev_eq_True_uuid:
  assumes "r c = VNone \<or> (\<exists>u. r c = VUuid u)"
  shows "ev D (SCmp SEq c (VUuid v)) r = Some True \<longleftrightarrow> r c = VUuid v"
  using assms by (auto simp: ev_cmp_null ev_eq)

lemma ev_distinct_uuid:
  assumes "r c = VNone \<or> (\<exists>u. r c = VUuid u)"
  shows "ev D (SDistinct c (VUuid v)) r = Some (r c \<noteq> VUuid v)"
  using assms by (auto simp: ev_distinct_null ev_distinct)

lemmas laws = ev_false ev_cmp_null ev_eq ev_ne ev_ord ev_is_null ev_is_not_null ev_ilike
  ev_ilike_null ev_in ev_in_null ev_not_in ev_distinct_null ev_distinct ev_not ev_and ev_or

end

section \<open>The reference evaluator\<close>

definition sql_in :: "pyval \<Rightarrow> pyval list \<Rightarrow> bool option" where
  "sql_in v vs =
     (if vs = [] then Some False
      else if v = VNone then None
      else if \<exists>w \<in> set vs. w \<noteq> VNone \<and> py_eq v w then Some True
      else if VNone \<in> set vs then None else Some False)"

definition sql_cmp :: "sqlop \<Rightarrow> pyval \<Rightarrow> pyval \<Rightarrow> bool option" where
  "sql_cmp opr a b =
     (if a = VNone \<or> b = VNone then None
      else (case opr of SEq \<Rightarrow> Some (py_eq a b) | SNe \<Rightarrow> Some (\<not> py_eq a b)
            | SOrd o1 \<Rightarrow> Some (sql_ord o1 a b)))"

primrec sql_eval :: "db \<Rightarrow> sqlcond \<Rightarrow> row \<Rightarrow> bool option" where
  "sql_eval D SFalse r = Some False"
| "sql_eval D (SCmp opr c v) r = sql_cmp opr (r c) v"
| "sql_eval D (SIsNull c) r = Some (r c = VNone)"
| "sql_eval D (SIsNotNull c) r = Some (r c \<noteq> VNone)"
| "sql_eval D (SILike c p) r = (case r c of VStr s \<Rightarrow> Some (ilike_match p s) | _ \<Rightarrow> None)"
| "sql_eval D (SIn c vs) r = sql_in (r c) vs"
| "sql_eval D (SNotIn c vs) r = k_not (sql_in (r c) vs)"
| "sql_eval D (SDistinct c v) r =
     Some (if r c = VNone \<or> v = VNone then r c \<noteq> v else \<not> py_eq (r c) v)"
| "sql_eval D (SNot q) r = k_not (sql_eval D q r)"
| "sql_eval D (SAnd qs) r = k_and (map (\<lambda>q. sql_eval D q r) qs)"
| "sql_eval D (SOr qs) r = k_or (map (\<lambda>q. sql_eval D q r) qs)"
| "sql_eval D (SInSelect c t c' q) r =
     sql_in (r c) (map (\<lambda>s. s c') (filter (\<lambda>s. sql_eval D q s = Some True) (D t)))"

lemma same_kind_not_None: "same_kind a b \<Longrightarrow> a \<noteq> VNone \<and> b \<noteq> VNone"
  by (cases a; cases b) auto

lemma sql_ordered_not_None: "sql_ordered a b \<Longrightarrow> a \<noteq> VNone \<and> b \<noteq> VNone"
  by (cases a; cases b) auto

lemma sql_in_same_kind:
  "(\<And>v. v \<in> set vs \<Longrightarrow> same_kind a v) \<Longrightarrow> sql_in a vs = Some (\<exists>v \<in> set vs. py_eq a v)"
  by (cases vs) (auto simp: sql_in_def dest: same_kind_not_None)

lemma sql_in_null: "sql_in VNone vs \<noteq> Some True"
  by (simp add: sql_in_def)

lemma sql_in_null_nonempty: "vs \<noteq> [] \<Longrightarrow> sql_in VNone vs = None"
  by (simp add: sql_in_def)

interpretation ref: sql_engine sql_eval
proof (unfold_locales, goal_cases)
  case (18 r c D t c' q)
  then have "sql_in (r c) (map (\<lambda>s. s c') (filter (\<lambda>s. sql_eval D q s = Some True) (D t)))
      = Some (\<exists>v \<in> set (map (\<lambda>s. s c') (filter (\<lambda>s. sql_eval D q s = Some True) (D t))). py_eq (r c) v)"
    by (intro sql_in_same_kind) auto
  then show ?case by auto
qed (auto simp: sql_cmp_def sql_in_same_kind sql_in_null sql_in_null_nonempty k_not_def
       dest: same_kind_not_None sql_ordered_not_None)

section \<open>Running a condition over a table\<close>

text \<open>
  \<open>filter_sql\<close> adds the condition as a WHERE clause, or leaves the statement alone when there is
  none; the database keeps the rows on which the clause is true.
\<close>

definition where_holds :: "engine \<Rightarrow> db \<Rightarrow> sqlcond option \<Rightarrow> row \<Rightarrow> bool" where
  "where_holds ev D c r = (case c of None \<Rightarrow> True | Some q \<Rightarrow> ev D q r = Some True)"

lemma where_holds_None [simp]: "where_holds ev D None r"
  and where_holds_Some [simp]: "where_holds ev D (Some q) r \<longleftrightarrow> ev D q r = Some True"
  by (simp_all add: where_holds_def)

end
