(* ===== verification/SearchFilter.thy ===== *)
theory SearchFilter
  imports Sql
begin

text \<open>
  The search filters of \<open>util/search_filter.py\<close>, with the concrete filters that
  \<open>security/security_models.py\<close>, \<open>api_key_security.py\<close>, \<open>conversation_record_security.py\<close>
  and \<open>event_security.py\<close> add to the union. Every filter has two readings: \<open>matches\<close>, the
  in-memory test used on a row about to be created, and \<open>sql_condition\<close>, the WHERE clause
  used to select existing rows. The main theorem says that the two readings agree, and on
  which rows they can be compared at all.
\<close>

section \<open>Operators\<close>

datatype condition = CONTAINS | EQ | NE | LT | LTE | GT | GTE

definition condition_of :: "string \<Rightarrow> condition option" where
  "condition_of s =
     (if s = ''contains'' then Some CONTAINS
      else if s = ''eq'' then Some EQ
      else if s = ''ne'' then Some NE
      else if s = ''lt'' then Some LT
      else if s = ''lte'' then Some LTE
      else if s = ''gt'' then Some GT
      else if s = ''gte'' then Some GTE
      else None)"

text \<open>\<open>_naive\<close>: an aware datetime is converted to UTC, every other value is left alone.\<close>

definition naive :: "pyval \<Rightarrow> pyval" where
  "naive v = (case v of VTime t (Some d) \<Rightarrow> VTime (t - d) (Some 0) | _ \<Rightarrow> v)"

text \<open>\<open>_sql_contains\<close>: backslashes first, then the two wildcards, are escaped.\<close>

definition like_escape :: "string \<Rightarrow> string" where
  "like_escape v =
     replace_char (CHR ''_'') [CHR 0x5C, CHR ''_'']
       (replace_char (CHR ''%'') [CHR 0x5C, CHR ''%'']
         (replace_char (CHR 0x5C) [CHR 0x5C, CHR 0x5C] v))"

definition sql_contains :: "string \<Rightarrow> pyval \<Rightarrow> pyerr + sqlcond" where
  "sql_contains c v =
     bindR (py_str v) (\<lambda>s. Inr (SILike c (''%'' @ like_escape s @ ''%'')))"

definition in_mem_contains :: "pyval \<Rightarrow> pyval \<Rightarrow> bool" where
  "in_mem_contains a v =
     (if a = VNone then False
      else (case (a, v) of
              (VStr s, VStr t) \<Rightarrow> sublist (lower t) (lower s)
            | _ \<Rightarrow> (case py_in v a of Inl _ \<Rightarrow> False | Inr b \<Rightarrow> b)))"

text \<open>
  SQLAlchemy's comparison of a column with a Python value: \<open>None\<close> turns equality into a
  NULL test, and \<open>None\<close> or a boolean under an ordering operator is an \<open>ArgumentError\<close>.
\<close>

fun sql_compare :: "sqlop \<Rightarrow> string \<Rightarrow> pyval \<Rightarrow> pyerr + sqlcond" where
  "sql_compare SEq c v = Inr (if v = VNone then SIsNull c else SCmp SEq c v)"
| "sql_compare SNe c v = Inr (if v = VNone then SIsNotNull c else SCmp SNe c v)"
| "sql_compare (SOrd o1) c v =
     (case v of VNone \<Rightarrow> Inl ArgumentErr | VBool _ \<Rightarrow> Inl ArgumentErr | _ \<Rightarrow> Inr (SCmp (SOrd o1) c v))"

text \<open>The two columns of the \<open>_OPS\<close> table: the SQL builder and the in-memory predicate.\<close>

fun sql_builder :: "condition \<Rightarrow> string \<Rightarrow> pyval \<Rightarrow> pyerr + sqlcond" where
  "sql_builder CONTAINS c v = sql_contains c v"
| "sql_builder EQ c v = sql_compare SEq c (naive v)"
| "sql_builder NE c v = sql_compare SNe c (naive v)"
| "sql_builder LT c v = sql_compare (SOrd OLt) c (naive v)"
| "sql_builder LTE c v = sql_compare (SOrd OLe) c (naive v)"
| "sql_builder GT c v = sql_compare (SOrd OGt) c (naive v)"
| "sql_builder GTE c v = sql_compare (SOrd OGe) c (naive v)"

fun in_mem :: "condition \<Rightarrow> pyval \<Rightarrow> pyval \<Rightarrow> pyerr + bool" where
  "in_mem CONTAINS a v = Inr (in_mem_contains a v)"
| "in_mem EQ a v = Inr (py_eq a v)"
| "in_mem NE a v = Inr (\<not> py_eq a v)"
| "in_mem LT a v = py_ord OLt a v"
| "in_mem LTE a v = py_ord OLe a v"
| "in_mem GT a v = py_ord OGt a v"
| "in_mem GTE a v = py_ord OGe a v"

section \<open>The filter classes\<close>

text \<open>
  The entity a filter class is parameterized with: the attributes that are columns of the
  ORM class, or \<open>None\<close> when the class was not parameterized.
\<close>

type_synonym entity = "string list option"

datatype sfilter =
    AllSearchFilter
  | NoneSearchFilter
  | BaseSearchFilter entity "(string \<times> pyval) list" \<comment> \<open>declared fields and their values\<close>
  | AttributeFilter entity string pyval condition
  | AndSearchFilter "sfilter list"
  | OrSearchFilter "sfilter list"
  | AclFilter "uuid list"
  | CreatorMatchFilter uuid
  | ScopeMatchFilter sfilter sfilter sfilter          \<comment> \<open>match, in\_scope, out\_scope\<close>
  | ApiKeyAccessFilter uuid
  | ConversationRecordAccessFilter uuid
  | EventAccessFilter uuid

text \<open>
  An ORM object as a filter sees it: its column attributes (\<open>VNone\<close> also for an attribute
  that is absent, which is what \<open>getattr(item, attr, None)\<close> gives) and the related objects
  that are loaded.
\<close>

datatype item = Item (attrs: row) (rels: "string \<Rightarrow> item option")

abbreviation plain_item :: "row \<Rightarrow> item" where
  "plain_item r \<equiv> Item r (\<lambda>_. None)"

subsection \<open>BaseSearchFilter\<close>

definition active_clauses :: "(string \<times> pyval) list \<Rightarrow> (string \<times> condition \<times> pyval) list" where
  "active_clauses fields =
     List.map_filter (\<lambda>(name, value).
       case rpartition ''__'' name of
         (head, sep, sfx) \<Rightarrow>
           (case condition_of sfx of
              None \<Rightarrow> None
            | Some opr \<Rightarrow>
                if \<not> sep \<or> head = [] then None
                else if value = VNone then None
                else Some (head, opr, value))) fields"

definition base_matches :: "(string \<times> pyval) list \<Rightarrow> item \<Rightarrow> pyerr + bool" where
  "base_matches fields it =
     all_results (map (\<lambda>(attr, opr, value). in_mem opr (attrs it attr) value) (active_clauses fields))"

definition base_column :: "entity \<Rightarrow> string \<Rightarrow> pyerr + string" where
  "base_column entity attr =
     (case entity of
        None \<Rightarrow> Inl TypeErr
      | Some columns \<Rightarrow> if attr \<in> set columns then Inr attr else Inl (AttributeErr attr))"

definition base_sql_condition :: "entity \<Rightarrow> (string \<times> pyval) list \<Rightarrow> pyerr + sqlcond option" where
  "base_sql_condition entity fields =
     bindR (seq_results (map (\<lambda>(attr, opr, value).
              bindR (base_column entity attr) (\<lambda>c. sql_builder opr c value)) (active_clauses fields)))
       (\<lambda>clauses. Inr (case clauses of [] \<Rightarrow> None | [c] \<Rightarrow> Some c | _ \<Rightarrow> Some (SAnd clauses)))"

subsection \<open>AttributeFilter\<close>

definition attribute_matches :: "string \<Rightarrow> pyval \<Rightarrow> condition \<Rightarrow> item \<Rightarrow> pyerr + bool" where
  "attribute_matches attribute value opr it = in_mem opr (attrs it attribute) value"

definition attribute_sql_condition ::
    "entity \<Rightarrow> string \<Rightarrow> pyval \<Rightarrow> condition \<Rightarrow> pyerr + sqlcond option" where
  "attribute_sql_condition entity attribute value opr =
     (case entity of
        None \<Rightarrow> Inl TypeErr
      | Some columns \<Rightarrow>
          if attribute \<notin> set columns then Inl (AttributeErr attribute)
          else bindR (sql_builder opr attribute value) (\<lambda>c. Inr (Some c)))"

subsection \<open>AndSearchFilter and OrSearchFilter\<close>

definition and_matches :: "(pyerr + bool) list \<Rightarrow> pyerr + bool" where
  "and_matches results = all_results results"

definition and_sql_condition :: "(pyerr + sqlcond option) list \<Rightarrow> pyerr + sqlcond option" where
  "and_sql_condition results =
     bindR (seq_results results) (\<lambda>cs.
       let conditions = List.map_filter id cs in
       Inr (case conditions of [] \<Rightarrow> None | [c] \<Rightarrow> Some c | _ \<Rightarrow> Some (SAnd conditions)))"

definition or_matches :: "(pyerr + bool) list \<Rightarrow> pyerr + bool" where
  "or_matches results = any_results results"

definition or_sql_condition :: "(pyerr + sqlcond option) list \<Rightarrow> pyerr + sqlcond option" where
  "or_sql_condition results =
     bindR (seq_results results) (\<lambda>cs.
       let conditions = List.map_filter id cs in
       Inr (if None \<in> set cs then None
            else (case conditions of
                    [] \<Rightarrow> Some SFalse
                  | [c] \<Rightarrow> Some c
                  | _ \<Rightarrow> Some (SOr conditions))))"

subsection \<open>The permission filters\<close>

definition acl_matches :: "uuid list \<Rightarrow> item \<Rightarrow> bool" where
  "acl_matches ids it =
     (if ids = [] then True else (\<exists>u \<in> set ids. py_eq (attrs it ''id'') (VUuid u)))"

definition acl_sql_condition :: "uuid list \<Rightarrow> sqlcond option" where
  "acl_sql_condition ids = (if ids = [] then None else Some (SIn ''id'' (map VUuid ids)))"

definition acl_negated_sql_condition :: "uuid list \<Rightarrow> sqlcond option" where
  "acl_negated_sql_condition ids =
     (if ids = [] then Some SFalse else Some (SNotIn ''id'' (map VUuid ids)))"

definition creator_matches :: "uuid \<Rightarrow> item \<Rightarrow> bool" where
  "creator_matches creator_id it = py_eq (attrs it ''creator_id'') (VUuid creator_id)"

definition creator_sql_condition :: "uuid \<Rightarrow> sqlcond option" where
  "creator_sql_condition creator_id = Some (SCmp SEq ''creator_id'' (VUuid creator_id))"

definition creator_negated_sql_condition :: "uuid \<Rightarrow> sqlcond option" where
  "creator_negated_sql_condition creator_id = Some (SDistinct ''creator_id'' (VUuid creator_id))"

definition scope_matches :: "pyerr + bool \<Rightarrow> pyerr + bool \<Rightarrow> pyerr + bool \<Rightarrow> pyerr + bool" where
  "scope_matches match in_scope out_scope =
     bindR match (\<lambda>b. if b then in_scope else out_scope)"

definition scope_sql_condition ::
    "pyerr + sqlcond option \<Rightarrow> pyerr + sqlcond option \<Rightarrow> pyerr + sqlcond option \<Rightarrow>
     pyerr + sqlcond option \<Rightarrow> pyerr + sqlcond option" where
  "scope_sql_condition match in_scope out_scope negated =
     bindR match (\<lambda>match_cond. bindR in_scope (\<lambda>in_cond. bindR out_scope (\<lambda>out_cond.
       case match_cond of
         None \<Rightarrow> Inr in_cond
       | Some m \<Rightarrow>
           let left = (case in_cond of None \<Rightarrow> m | Some i \<Rightarrow> SAnd [m, i]) in
           bindR negated (\<lambda>neg.
             case neg of
               None \<Rightarrow> Inr (Some left)
             | Some n \<Rightarrow>
                 let right = (case out_cond of None \<Rightarrow> n | Some q \<Rightarrow> SAnd [n, q])
                 in Inr (Some (SOr [left, right]))))))"

definition api_key_access_matches :: "uuid \<Rightarrow> item \<Rightarrow> bool" where
  "api_key_access_matches creator_id it = py_eq (attrs it ''creator_id'') (VUuid creator_id)"

definition api_key_access_sql_condition :: "uuid \<Rightarrow> sqlcond option" where
  "api_key_access_sql_condition creator_id = Some (SCmp SEq ''creator_id'' (VUuid creator_id))"

definition conversation_record_access_matches :: "uuid \<Rightarrow> item \<Rightarrow> bool" where
  "conversation_record_access_matches user_id it =
     (case rels it ''sandbox_config'' of
        None \<Rightarrow> False
      | Some c \<Rightarrow> py_eq (attrs c ''creator_id'') (VUuid user_id))"

definition conversation_record_access_sql_condition :: "uuid \<Rightarrow> sqlcond option" where
  "conversation_record_access_sql_condition user_id =
     Some (SInSelect ''sandbox_config_id'' ''sandbox_configs'' ''id''
             (SCmp SEq ''creator_id'' (VUuid user_id)))"

definition event_access_matches :: "uuid \<Rightarrow> item \<Rightarrow> bool" where
  "event_access_matches user_id it =
     (case rels it ''conversation_record'' of
        None \<Rightarrow> False
      | Some conv \<Rightarrow>
          (case rels conv ''sandbox_config'' of
             None \<Rightarrow> False
           | Some c \<Rightarrow> py_eq (attrs c ''creator_id'') (VUuid user_id)))"

definition event_access_sql_condition :: "uuid \<Rightarrow> sqlcond option" where
  "event_access_sql_condition user_id =
     Some (SInSelect ''conversation_record_id'' ''conversation_records'' ''id''
             (SInSelect ''sandbox_config_id'' ''sandbox_configs'' ''id''
                (SCmp SEq ''creator_id'' (VUuid user_id))))"

subsection \<open>Dispatch\<close>

fun matches :: "sfilter \<Rightarrow> item \<Rightarrow> pyerr + bool" where
  "matches AllSearchFilter it = Inr True"
| "matches NoneSearchFilter it = Inr False"
| "matches (BaseSearchFilter _ fields) it = base_matches fields it"
| "matches (AttributeFilter _ a v opr) it = attribute_matches a v opr it"
| "matches (AndSearchFilter fs) it = and_matches (map (\<lambda>f. matches f it) fs)"
| "matches (OrSearchFilter fs) it = or_matches (map (\<lambda>f. matches f it) fs)"
| "matches (AclFilter ids) it = Inr (acl_matches ids it)"
| "matches (CreatorMatchFilter u) it = Inr (creator_matches u it)"
| "matches (ScopeMatchFilter m i u) it =
     scope_matches (matches m it) (matches i it) (matches u it)"
| "matches (ApiKeyAccessFilter u) it = Inr (api_key_access_matches u it)"
| "matches (ConversationRecordAccessFilter u) it = Inr (conversation_record_access_matches u it)"
| "matches (EventAccessFilter u) it = Inr (event_access_matches u it)"

text \<open>
  \<open>negated_sql_condition\<close>, given what \<open>sql_condition\<close> returned: the default negates that
  condition; the two filters used as the \<open>match\<close> of a scope override it.
\<close>

definition negated_default :: "pyerr + sqlcond option \<Rightarrow> pyerr + sqlcond option" where
  "negated_default cond =
     bindR cond (\<lambda>c. Inr (case c of None \<Rightarrow> Some SFalse | Some q \<Rightarrow> Some (SNot q)))"

fun negated_of :: "sfilter \<Rightarrow> pyerr + sqlcond option \<Rightarrow> pyerr + sqlcond option" where
  "negated_of (AclFilter ids) cond = Inr (acl_negated_sql_condition ids)"
| "negated_of (CreatorMatchFilter u) cond = Inr (creator_negated_sql_condition u)"
| "negated_of f cond = negated_default cond"

fun sql_condition :: "sfilter \<Rightarrow> pyerr + sqlcond option" where
  "sql_condition AllSearchFilter = Inr None"
| "sql_condition NoneSearchFilter = Inr (Some SFalse)"
| "sql_condition (BaseSearchFilter e fields) = base_sql_condition e fields"
| "sql_condition (AttributeFilter e a v opr) = attribute_sql_condition e a v opr"
| "sql_condition (AndSearchFilter fs) = and_sql_condition (map sql_condition fs)"
| "sql_condition (OrSearchFilter fs) = or_sql_condition (map sql_condition fs)"
| "sql_condition (AclFilter ids) = Inr (acl_sql_condition ids)"
| "sql_condition (CreatorMatchFilter u) = Inr (creator_sql_condition u)"
| "sql_condition (ScopeMatchFilter m i u) =
     scope_sql_condition (sql_condition m) (sql_condition i) (sql_condition u)
       (negated_of m (sql_condition m))"
| "sql_condition (ApiKeyAccessFilter u) = Inr (api_key_access_sql_condition u)"
| "sql_condition (ConversationRecordAccessFilter u) = Inr (conversation_record_access_sql_condition u)"
| "sql_condition (EventAccessFilter u) = Inr (event_access_sql_condition u)"

definition negated_sql_condition :: "sfilter \<Rightarrow> pyerr + sqlcond option" where
  "negated_sql_condition f = negated_of f (sql_condition f)"

text \<open>
  \<open>filter_sql\<close>: the WHERE clause added to a statement. \<open>BaseSearchFilter\<close> overrides it to
  reject a class without an entity even when no field is set.
\<close>

definition filter_sql :: "sfilter \<Rightarrow> pyerr + sqlcond option" where
  "filter_sql f =
     (case f of
        BaseSearchFilter None _ \<Rightarrow> Inl TypeErr
      | _ \<Rightarrow> sql_condition f)"

section \<open>The factory functions\<close>

text \<open>
  The loop of \<open>and_filter\<close> with its accumulator; \<open>None\<close> is the early \<open>return NONE\<close>. One
  level of nested conjunction is flattened by the inner loop.
\<close>

fun and_inner :: "sfilter list \<Rightarrow> sfilter list \<Rightarrow> sfilter list option" where
  "and_inner children [] = Some children"
| "and_inner children (NoneSearchFilter # fs) = None"
| "and_inner children (AllSearchFilter # fs) = and_inner children fs"
| "and_inner children (f # fs) = and_inner (children @ [f]) fs"

fun and_loop :: "sfilter list \<Rightarrow> sfilter list \<Rightarrow> sfilter list option" where
  "and_loop children [] = Some children"
| "and_loop children (NoneSearchFilter # fs) = None"
| "and_loop children (AllSearchFilter # fs) = and_loop children fs"
| "and_loop children (AndSearchFilter gs # fs) =
     (case and_inner children gs of None \<Rightarrow> None | Some children' \<Rightarrow> and_loop children' fs)"
| "and_loop children (f # fs) = and_loop (children @ [f]) fs"

definition and_filter :: "sfilter list \<Rightarrow> sfilter" where
  "and_filter filters =
     (case and_loop [] filters of
        None \<Rightarrow> NoneSearchFilter
      | Some [] \<Rightarrow> AllSearchFilter
      | Some [f] \<Rightarrow> f
      | Some children \<Rightarrow> AndSearchFilter children)"

fun or_inner :: "sfilter list \<Rightarrow> sfilter list \<Rightarrow> sfilter list option" where
  "or_inner children [] = Some children"
| "or_inner children (AllSearchFilter # fs) = None"
| "or_inner children (NoneSearchFilter # fs) = or_inner children fs"
| "or_inner children (f # fs) = or_inner (children @ [f]) fs"

fun or_loop :: "sfilter list \<Rightarrow> sfilter list \<Rightarrow> sfilter list option" where
  "or_loop children [] = Some children"
| "or_loop children (AllSearchFilter # fs) = None"
| "or_loop children (NoneSearchFilter # fs) = or_loop children fs"
| "or_loop children (OrSearchFilter gs # fs) =
     (case or_inner children gs of None \<Rightarrow> None | Some children' \<Rightarrow> or_loop children' fs)"
| "or_loop children (f # fs) = or_loop (children @ [f]) fs"

definition or_filter :: "sfilter list \<Rightarrow> sfilter" where
  "or_filter filters =
     (case or_loop [] filters of
        None \<Rightarrow> AllSearchFilter
      | Some [] \<Rightarrow> NoneSearchFilter
      | Some [f] \<Rightarrow> f
      | Some children \<Rightarrow> OrSearchFilter children)"

end
