(* ===== verification/FilterLaws.thy ===== *)
theory FilterLaws
  imports SearchFilter
begin

text \<open>
  The laws of the search filters: a user's text never acts as a LIKE wildcard, the in-memory
  and the SQL reading of a filter admit the same rows, and the factory functions normalise
  without changing what a filter admits.
\<close>

section \<open>Escaped patterns\<close>

definition esc1 :: "char \<Rightarrow> string" where
  "esc1 c = (if c = CHR ''%'' \<or> c = CHR ''_'' \<or> c = CHR 0x5C then [CHR 0x5C, c] else [c])"

lemma like_escape_Nil [simp]: "like_escape [] = []"
  by (simp add: like_escape_def)

lemma like_escape_Cons [simp]: "like_escape (c # v) = esc1 c @ like_escape v"
  by (simp add: like_escape_def esc1_def)

lemma lower_char_special [simp]:
  "lower_char (CHR ''%'') = CHR ''%''" "lower_char (CHR ''_'') = CHR ''_''"
  "lower_char (CHR 0x5C) = CHR 0x5C"
  by (simp_all add: lower_char_def)

lemma lower_char_idem [simp]: "lower_char (lower_char c) = lower_char c"
  by (auto simp: lower_char_def Let_def)

lemma of_char_lower_char:
  "(of_char (lower_char c) :: nat) =
     (if 65 \<le> (of_char c :: nat) \<and> (of_char c :: nat) \<le> 90 then of_char c + 32 else of_char c)"
  by (auto simp: lower_char_def Let_def)

lemma char_eq_of_char: "c = d \<longleftrightarrow> (of_char c :: nat) = of_char d"
  by (metis char_of_char)

lemma lower_char_eq_special:
  "lower_char c = CHR ''%'' \<longleftrightarrow> c = CHR ''%''"
  "lower_char c = CHR ''_'' \<longleftrightarrow> c = CHR ''_''"
  "lower_char c = CHR 0x5C \<longleftrightarrow> c = CHR 0x5C"
  by (auto simp: char_eq_of_char of_char_lower_char split: if_splits)

lemma lower_like_escape: "lower (like_escape v) = like_escape (lower v)"
proof (induction v)
  case (Cons c v)
  have "lower (esc1 c) = esc1 (lower_char c)"
    by (auto simp: esc1_def lower_char_eq_special)
  with Cons show ?case by simp
qed simp

declare like_match.simps [simp del]

lemma like_match_Nil [simp]: "like_match [] s \<longleftrightarrow> s = []"
  by (simp add: like_match.simps)

lemma like_match_percent: "like_match (CHR ''%'' # ps) s \<longleftrightarrow> (\<exists>t. suffix t s \<and> like_match ps t)"
  by (auto simp: like_match.simps)

lemma like_match_esc1:
  "like_match (esc1 c @ ps) s \<longleftrightarrow> (\<exists>s'. s = c # s' \<and> like_match ps s')"
  by (cases s) (auto simp: esc1_def like_match.simps)

text \<open>An escaped text matches exactly itself, then the rest of the pattern.\<close>

lemma like_match_escaped:
  "like_match (like_escape v @ ps) s \<longleftrightarrow> (\<exists>t. s = v @ t \<and> like_match ps t)"
  by (induction v arbitrary: s) (auto simp: like_match_esc1)

lemma like_match_all [simp]: "like_match ''%'' s"
  by (simp add: like_match_percent)

lemma like_match_infix:
  "like_match (''%'' @ like_escape v @ ''%'') s \<longleftrightarrow> sublist v s"
  by (auto simp: like_match_percent like_match_escaped suffix_def sublist_def)

text \<open>C1. The case-insensitive substring search: whatever characters the user's text holds, the
  pattern built by \<open>_sql_contains\<close> matches exactly the subjects that contain the text up to
  case, which is what the in-memory operator tests.\<close>

theorem contains_pattern_exact:
  "sql_contains c (VStr v) = Inr (SILike c (''%'' @ like_escape v @ ''%'')) \<and>
   ilike_match (''%'' @ like_escape v @ ''%'') s = in_mem_contains (VStr s) (VStr v)"
  by (simp add: sql_contains_def in_mem_contains_def ilike_match_def lower_like_escape
      like_match_infix [simplified])

section \<open>Agreement of the two readings\<close>

definition id_or_null :: "pyval \<Rightarrow> bool" where
  "id_or_null v = (v = VNone \<or> (\<exists>u. v = VUuid u))"

text \<open>
  When one clause has the same meaning in memory and in SQL: the types agree, and a NULL
  attribute is not compared by \<open>ne\<close> (true in memory, unknown in SQL) nor by an ordering
  operator (a \<open>TypeError\<close> in memory).
\<close>

fun op_ok :: "condition \<Rightarrow> pyval \<Rightarrow> pyval \<Rightarrow> bool" where
  "op_ok CONTAINS a v = ((\<exists>t. v = VStr t) \<and> (a = VNone \<or> (\<exists>s. a = VStr s)))"
| "op_ok EQ a v = (v = VNone \<or> a = VNone \<or> same_kind a v)"
| "op_ok NE a v = (v = VNone \<or> same_kind a v)"
| "op_ok _ a v = sql_ordered a v"

definition clause_ok :: "entity \<Rightarrow> row \<Rightarrow> string \<Rightarrow> condition \<Rightarrow> pyval \<Rightarrow> bool" where
  "clause_ok e r a opr v = ((\<exists>cols. e = Some cols \<and> a \<in> set cols) \<and> op_ok opr (r a) v)"

text \<open>
  A loaded relationship agrees with the database: the object is the row its foreign key names,
  keys are unique, and a missing object means that no row has that key.
\<close>

definition fk_loaded :: "db \<Rightarrow> string \<Rightarrow> pyval \<Rightarrow> item option \<Rightarrow> bool" where
  "fk_loaded D t key rel =
     ((\<exists>u. key = VUuid u) \<and> (\<forall>s \<in> set (D t). \<exists>u. s ''id'' = VUuid u) \<and>
      (case rel of
         None \<Rightarrow> (\<forall>s \<in> set (D t). s ''id'' \<noteq> key)
       | Some c \<Rightarrow> attrs c \<in> set (D t) \<and> attrs c ''id'' = key \<and>
                   (\<forall>s \<in> set (D t). s ''id'' = key \<longrightarrow> s = attrs c)))"

definition config_ok :: "db \<Rightarrow> item \<Rightarrow> bool" where
  "config_ok D it =
     (fk_loaded D ''sandbox_configs'' (attrs it ''sandbox_config_id'') (rels it ''sandbox_config'') \<and>
      (\<forall>s \<in> set (D ''sandbox_configs''). id_or_null (s ''creator_id'')))"

definition event_ok :: "db \<Rightarrow> item \<Rightarrow> bool" where
  "event_ok D it =
     (fk_loaded D ''conversation_records'' (attrs it ''conversation_record_id'')
        (rels it ''conversation_record'') \<and>
      (\<forall>conv. rels it ''conversation_record'' = Some conv \<longrightarrow> config_ok D conv))"

fun match_ok :: "sfilter \<Rightarrow> item \<Rightarrow> bool" where
  "match_ok (AclFilter ids) it = (ids = [] \<or> (\<exists>u. attrs it ''id'' = VUuid u))"
| "match_ok (CreatorMatchFilter _) it = id_or_null (attrs it ''creator_id'')"
| "match_ok _ it = False"

fun filter_ok :: "db \<Rightarrow> sfilter \<Rightarrow> item \<Rightarrow> bool" where
  "filter_ok D (BaseSearchFilter e fields) it =
     (\<forall>(a, opr, v) \<in> set (active_clauses fields). clause_ok e (attrs it) a opr v)"
| "filter_ok D (AttributeFilter e a v opr) it = clause_ok e (attrs it) a opr v"
| "filter_ok D (AndSearchFilter fs) it = (\<forall>f \<in> set fs. filter_ok D f it)"
| "filter_ok D (OrSearchFilter fs) it = (\<forall>f \<in> set fs. filter_ok D f it)"
| "filter_ok D (AclFilter ids) it = id_or_null (attrs it ''id'')"
| "filter_ok D (CreatorMatchFilter u) it = id_or_null (attrs it ''creator_id'')"
| "filter_ok D (ScopeMatchFilter m i u) it = (match_ok m it \<and> filter_ok D i it \<and> filter_ok D u it)"
| "filter_ok D (ApiKeyAccessFilter u) it = id_or_null (attrs it ''creator_id'')"
| "filter_ok D (ConversationRecordAccessFilter u) it = config_ok D it"
| "filter_ok D (EventAccessFilter u) it = event_ok D it"
| "filter_ok D AllSearchFilter it = True"
| "filter_ok D NoneSearchFilter it = True"

text \<open>Both readings of a filter are defined on a row and give the same answer \<open>b\<close>.\<close>

definition reads_as :: "engine \<Rightarrow> db \<Rightarrow> sfilter \<Rightarrow> item \<Rightarrow> bool \<Rightarrow> bool" where
  "reads_as ev D f it b =
     (matches f it = Inr b \<and>
      (\<exists>c. sql_condition f = Inr c \<and> where_holds ev D c (attrs it) = b))"

lemma reads_asI:
  "matches f it = Inr b \<Longrightarrow> sql_condition f = Inr c \<Longrightarrow> where_holds ev D c (attrs it) = b \<Longrightarrow>
   reads_as ev D f it b"
  by (auto simp: reads_as_def)

lemma map_filter_id_Some: "List.map_filter id (map Some xs) = xs"
  by (induction xs) (auto simp: List.map_filter_simps)

lemma set_map_filter_id: "set (List.map_filter id cs) = {c. Some c \<in> set cs}"
  by (induction cs) (auto simp: List.map_filter_simps split: option.splits)

lemma naive_VNone [simp]: "naive VNone = VNone"
  by (simp add: naive_def)

lemma naive_not_VNone [simp]: "naive v = VNone \<longleftrightarrow> v = VNone"
  by (auto simp: naive_def split: pyval.splits option.splits)

text \<open>Converting to UTC keeps the type, the order and the equality of a value.\<close>

lemma same_kind_naive [simp]: "same_kind a (naive v) = same_kind a v"
  by (cases "(a, v)" rule: same_kind.cases) (auto simp: naive_def split: option.splits)

lemma sql_ordered_naive [simp]: "sql_ordered a (naive v) = sql_ordered a v"
  by (cases "(a, v)" rule: sql_ordered.cases) (auto simp: naive_def split: option.splits)

lemma py_eq_naive: "same_kind a v \<Longrightarrow> py_eq a (naive v) = py_eq a v"
  by (cases "(a, v)" rule: same_kind.cases) (auto simp: naive_def instant_def)

lemma sql_ord_naive: "sql_ordered a v \<Longrightarrow> sql_ord o1 a (naive v) = sql_ord o1 a v"
  by (cases "(a, v)" rule: sql_ordered.cases) (auto simp: naive_def instant_def)

lemma conditions_iff: "q \<in> set (List.map_filter id (map C fs)) \<longleftrightarrow> (\<exists>f \<in> set fs. C f = Some q)"
  by (auto simp: set_map_filter_id image_iff) (metis)+

lemma where_holds_iff: "where_holds ev D c r \<longleftrightarrow> (\<forall>q. c = Some q \<longrightarrow> ev D q r = Some True)"
  by (simp add: where_holds_def split: option.splits)

context sql_engine
begin

lemma eq_agrees:
  assumes "v = VNone \<or> r a = VNone \<or> same_kind (r a) v"
  shows "\<exists>q. sql_compare SEq a (naive v) = Inr q \<and> (ev D q r = Some True \<longleftrightarrow> py_eq (r a) v)"
proof (cases "v = VNone \<or> r a = VNone")
  case True
  then show ?thesis by (auto simp: naive_VNone naive_not_VNone ev_is_null ev_cmp_null)
next
  case False
  with assms have k: "same_kind (r a) v" by simp
  then have "ev D (SCmp SEq a (naive v)) r = Some (py_eq (r a) v)"
    by (simp add: ev_eq same_kind_naive py_eq_naive)
  with False show ?thesis by (simp add: naive_not_VNone)
qed

lemma ne_agrees:
  assumes "v = VNone \<or> same_kind (r a) v"
  shows "\<exists>q. sql_compare SNe a (naive v) = Inr q \<and> (ev D q r = Some True \<longleftrightarrow> \<not> py_eq (r a) v)"
proof (cases "v = VNone")
  case True
  then show ?thesis by (auto simp: naive_VNone ev_is_not_null)
next
  case False
  with assms have "ev D (SCmp SNe a (naive v)) r = Some (\<not> py_eq (r a) v)"
    by (simp add: ev_ne same_kind_naive py_eq_naive)
  with False show ?thesis by (simp add: naive_not_VNone)
qed

lemma ord_agrees:
  assumes "sql_ordered (r a) v"
  shows "\<exists>b q. py_ord o1 (r a) v = Inr b \<and> sql_compare (SOrd o1) a (naive v) = Inr q \<and>
           (ev D q r = Some True \<longleftrightarrow> b)"
proof -
  have "ev D (SCmp (SOrd o1) a (naive v)) r = Some (sql_ord o1 (r a) v)"
    using assms by (simp add: ev_ord sql_ordered_naive sql_ord_naive)
  moreover have "sql_compare (SOrd o1) a (naive v) = Inr (SCmp (SOrd o1) a (naive v))"
    using assms by (cases "(r a, v)" rule: sql_ordered.cases) (auto simp: naive_def split: option.splits)
  moreover have "py_ord o1 (r a) v = Inr (sql_ord o1 (r a) v)"
    using assms by (cases "(r a, v)" rule: sql_ordered.cases) auto
  ultimately show ?thesis by simp
qed

lemma where_and:
  "where_holds ev D (case cs of [] \<Rightarrow> None | [c] \<Rightarrow> Some c | _ \<Rightarrow> Some (SAnd cs)) r \<longleftrightarrow>
   (\<forall>c \<in> set cs. ev D c r = Some True)"
  by (cases cs rule: remdups_adj.cases) (auto simp: ev_and_True)

lemma where_or:
  "where_holds ev D (case cs of [] \<Rightarrow> Some SFalse | [c] \<Rightarrow> Some c | _ \<Rightarrow> Some (SOr cs)) r \<longleftrightarrow>
   (\<exists>c \<in> set cs. ev D c r = Some True)"
  by (cases cs rule: remdups_adj.cases) (auto simp: ev_or_True ev_false)

lemma op_agrees:
  assumes "op_ok opr (r a) v"
  shows "\<exists>b q. in_mem opr (r a) v = Inr b \<and> sql_builder opr a v = Inr q \<and>
           (ev D q r = Some True \<longleftrightarrow> b)"
proof (cases opr)
  case CONTAINS
  with assms obtain t where t: "v = VStr t" "r a = VNone \<or> (\<exists>s. r a = VStr s)" by auto
  from t(2) show ?thesis
  proof
    assume "r a = VNone"
    with t CONTAINS show ?thesis
      by (intro exI [of _ False]) (auto simp: sql_contains_def in_mem_contains_def ev_ilike_null)
  next
    assume "\<exists>s. r a = VStr s"
    with t CONTAINS show ?thesis
      using like_match_infix by (auto simp: sql_contains_def in_mem_contains_def ev_ilike ilike_match_def
          lower_like_escape)
  qed
next
  case EQ
  with assms have "v = VNone \<or> r a = VNone \<or> same_kind (r a) v" by simp
  from eq_agrees [of v r a, OF this] EQ show ?thesis by auto
next
  case NE
  with assms have "v = VNone \<or> same_kind (r a) v" by simp
  from ne_agrees [of v r a, OF this] NE show ?thesis by auto
qed (use assms ord_agrees in \<open>auto simp del: sql_compare.simps\<close>)

lemma clause_agrees:
  assumes "clause_ok e r a opr v"
  shows "\<exists>b q. in_mem opr (r a) v = Inr b \<and>
           bindR (base_column e a) (\<lambda>c. sql_builder opr c v) = Inr q \<and>
           attribute_sql_condition e a v opr = Inr (Some q) \<and> (ev D q r = Some True \<longleftrightarrow> b)"
proof -
  from assms obtain cols where "e = Some cols" "a \<in> set cols" "op_ok opr (r a) v"
    by (auto simp: clause_ok_def)
  moreover obtain b q where "in_mem opr (r a) v = Inr b" "sql_builder opr a v = Inr q"
      "ev D q r = Some True \<longleftrightarrow> b"
    using op_agrees [of opr r a v D] calculation(3) by auto
  ultimately show ?thesis
    by (simp add: base_column_def attribute_sql_condition_def)
qed

lemma base_agrees:
  assumes "\<forall>(a, opr, v) \<in> set (active_clauses fields). clause_ok e (attrs it) a opr v"
  shows "\<exists>b. reads_as ev D (BaseSearchFilter e fields) it b"
proof -
  let ?cls = "active_clauses fields"
  let ?m = "\<lambda>(a, opr, v). in_mem opr (attrs it a) v"
  let ?s = "\<lambda>(a, opr, v). bindR (base_column e a) (\<lambda>c. sql_builder opr c v)"
  have "\<forall>x. x \<in> set ?cls \<longrightarrow>
      (\<exists>b q. ?m x = Inr b \<and> ?s x = Inr q \<and> (ev D q (attrs it) = Some True \<longleftrightarrow> b))"
    using assms clause_agrees by fast
  then obtain B Q where BQ: "\<And>x. x \<in> set ?cls \<Longrightarrow>
      ?m x = Inr (B x) \<and> ?s x = Inr (Q x) \<and> (ev D (Q x) (attrs it) = Some True \<longleftrightarrow> B x)"
    by metis
  have "base_matches fields it = Inr (\<forall>x \<in> set ?cls. B x)"
    unfolding base_matches_def using BQ by (intro all_results_Inr) simp
  moreover have "seq_results (map ?s ?cls) = Inr (map Q ?cls)"
    using BQ by (intro seq_results_map_Inr) simp
  ultimately show ?thesis
    using BQ by (auto simp: reads_as_def base_sql_condition_def where_and)
qed

lemma list_agrees:
  assumes "\<And>f. f \<in> set fs \<Longrightarrow> \<exists>b. reads_as ev D f it b"
  obtains B C where "\<And>f. f \<in> set fs \<Longrightarrow> matches f it = Inr (B f)"
    and "seq_results (map sql_condition fs) = Inr (map C fs)"
    and "\<And>f. f \<in> set fs \<Longrightarrow> where_holds ev D (C f) (attrs it) = B f"
proof -
  have "\<forall>f. f \<in> set fs \<longrightarrow> (\<exists>b c. matches f it = Inr b \<and> sql_condition f = Inr c \<and>
      where_holds ev D c (attrs it) = b)"
    using assms by (auto simp: reads_as_def)
  then obtain B C where BC: "\<And>f. f \<in> set fs \<Longrightarrow> matches f it = Inr (B f) \<and>
      sql_condition f = Inr (C f) \<and> where_holds ev D (C f) (attrs it) = B f"
    by metis
  show ?thesis
    by (rule that [of B C]) (use BC in \<open>auto intro: seq_results_map_Inr\<close>)
qed

lemma and_agrees:
  assumes "\<And>f. f \<in> set fs \<Longrightarrow> \<exists>b. reads_as ev D f it b"
  shows "\<exists>b. reads_as ev D (AndSearchFilter fs) it b"
proof -
  obtain B C where BC: "\<And>f. f \<in> set fs \<Longrightarrow> matches f it = Inr (B f)"
      "seq_results (map sql_condition fs) = Inr (map C fs)"
      "\<And>f. f \<in> set fs \<Longrightarrow> where_holds ev D (C f) (attrs it) = B f"
    using list_agrees [OF assms] by blast
  let ?qs = "List.map_filter id (map C fs)"
  have "(\<forall>q \<in> set ?qs. ev D q (attrs it) = Some True) \<longleftrightarrow>
        (\<forall>f \<in> set fs. where_holds ev D (C f) (attrs it))"
    by (auto simp: conditions_iff where_holds_iff)
  then have "where_holds ev D (case ?qs of [] \<Rightarrow> None | [c] \<Rightarrow> Some c | _ \<Rightarrow> Some (SAnd ?qs)) (attrs it)
      = (\<forall>f \<in> set fs. B f)"
    using BC(3) by (simp only: where_and) blast
  moreover have "matches (AndSearchFilter fs) it = Inr (\<forall>f \<in> set fs. B f)"
    using BC(1) by (simp add: and_matches_def all_results_Inr del: all_results_map_Inr)
  ultimately show ?thesis using BC(2)
    by (intro exI reads_asI) (simp_all add: and_sql_condition_def Let_def)
qed

lemma or_agrees:
  assumes "\<And>f. f \<in> set fs \<Longrightarrow> \<exists>b. reads_as ev D f it b"
  shows "\<exists>b. reads_as ev D (OrSearchFilter fs) it b"
proof -
  obtain B C where BC: "\<And>f. f \<in> set fs \<Longrightarrow> matches f it = Inr (B f)"
      "seq_results (map sql_condition fs) = Inr (map C fs)"
      "\<And>f. f \<in> set fs \<Longrightarrow> where_holds ev D (C f) (attrs it) = B f"
    using list_agrees [OF assms] by blast
  let ?qs = "List.map_filter id (map C fs)"
  let ?c = "if None \<in> set (map C fs) then None
            else (case ?qs of [] \<Rightarrow> Some SFalse | [c] \<Rightarrow> Some c | _ \<Rightarrow> Some (SOr ?qs))"
  have "where_holds ev D ?c (attrs it) = (\<exists>f \<in> set fs. B f)"
  proof (cases "None \<in> set (map C fs)")
    case True
    then obtain f where "f \<in> set fs" "C f = None" by auto
    with BC(3) [of f] True show ?thesis by auto
  next
    case False
    then have "\<exists>q. C f = Some q" if "f \<in> set fs" for f
      using that by (cases "C f") (force simp: image_iff)+
    then have "(\<exists>q \<in> set ?qs. ev D q (attrs it) = Some True) \<longleftrightarrow>
          (\<exists>f \<in> set fs. where_holds ev D (C f) (attrs it))"
      by (force simp: conditions_iff where_holds_iff)
    then show ?thesis using False BC(3) by (simp only: where_or if_False) blast
  qed
  moreover have "matches (OrSearchFilter fs) it = Inr (\<exists>f \<in> set fs. B f)"
    using BC(1) by (simp add: or_matches_def any_results_Inr del: any_results_map_Inr)
  ultimately show ?thesis using BC(2)
    by (intro exI reads_asI) (simp_all add: or_sql_condition_def Let_def)
qed

lemma match_agrees:
  assumes "match_ok m it"
  shows "(matches m it = Inr True \<and> sql_condition m = Inr None) \<or>
    (\<exists>b c n. matches m it = Inr b \<and> sql_condition m = Inr (Some c) \<and>
       negated_of m (sql_condition m) = Inr (Some n) \<and>
       (ev D c (attrs it) = Some True \<longleftrightarrow> b) \<and> (ev D n (attrs it) = Some True \<longleftrightarrow> \<not> b))"
proof (cases m)
  case (AclFilter ids)
  show ?thesis
  proof (cases "ids = []")
    case True
    with AclFilter show ?thesis by (simp add: acl_matches_def acl_sql_condition_def)
  next
    case False
    with assms AclFilter obtain u where u: "attrs it ''id'' = VUuid u" by auto
    then have "ev D (SIn ''id'' (map VUuid ids)) (attrs it) = Some (u \<in> set ids)"
      and "ev D (SNotIn ''id'' (map VUuid ids)) (attrs it) = Some (u \<notin> set ids)"
      by (subst ev_in ev_not_in; auto)+
    with False AclFilter u show ?thesis
      by (auto simp: acl_matches_def acl_sql_condition_def acl_negated_sql_condition_def)
  qed
next
  case (CreatorMatchFilter v)
  with assms have "attrs it ''creator_id'' = VNone \<or> (\<exists>u. attrs it ''creator_id'' = VUuid u)"
    by (auto simp: id_or_null_def)
  from ev_eq_True_uuid [of "attrs it", OF this] ev_distinct_uuid [of "attrs it", OF this]
    CreatorMatchFilter
  show ?thesis
    by (auto simp: creator_matches_def creator_sql_condition_def creator_negated_sql_condition_def)
qed (use assms in auto)

lemma ev_guarded:
  "ev D (case q of None \<Rightarrow> m | Some i \<Rightarrow> SAnd [m, i]) r = Some True \<longleftrightarrow>
   ev D m r = Some True \<and> where_holds ev D q r"
  by (auto simp: ev_and_True split: option.splits)

lemma scope_agrees:
  assumes m: "match_ok m it" and i: "\<exists>b. reads_as ev D i it b" and u: "\<exists>b. reads_as ev D u it b"
  shows "\<exists>b. reads_as ev D (ScopeMatchFilter m i u) it b"
proof -
  obtain bi ci bu cu where I: "matches i it = Inr bi" "sql_condition i = Inr ci"
      "where_holds ev D ci (attrs it) = bi"
    and U: "matches u it = Inr bu" "sql_condition u = Inr cu" "where_holds ev D cu (attrs it) = bu"
    using i u by (auto simp: reads_as_def)
  from match_agrees [OF m, of D] show ?thesis
  proof (elim disjE exE conjE)
    assume "matches m it = Inr True" "sql_condition m = Inr None"
    with I U show ?thesis
      by (intro exI reads_asI) (simp_all add: scope_matches_def scope_sql_condition_def)
  next
    fix b c n
    assume M: "matches m it = Inr b" "sql_condition m = Inr (Some c)"
        "negated_of m (sql_condition m) = Inr (Some n)"
        "ev D c (attrs it) = Some True \<longleftrightarrow> b" "ev D n (attrs it) = Some True \<longleftrightarrow> \<not> b"
    have "matches (ScopeMatchFilter m i u) it = Inr (if b then bi else bu)"
      using M(1) I(1) U(1) by (simp add: scope_matches_def)
    moreover have "sql_condition (ScopeMatchFilter m i u) =
        Inr (Some (SOr [case ci of None \<Rightarrow> c | Some q \<Rightarrow> SAnd [c, q],
                        case cu of None \<Rightarrow> n | Some q \<Rightarrow> SAnd [n, q]]))"
      using M I U by (simp add: scope_sql_condition_def Let_def)
    moreover have "where_holds ev D (Some (SOr [case ci of None \<Rightarrow> c | Some q \<Rightarrow> SAnd [c, q],
        case cu of None \<Rightarrow> n | Some q \<Rightarrow> SAnd [n, q]])) (attrs it) = (if b then bi else bu)"
      using M I U by (auto simp: ev_or_True ev_guarded)
    ultimately show ?thesis by (blast intro: reads_asI)
  qed
qed

lemma in_select_fk:
  assumes "fk_loaded D t (r c) rel"
  shows "ev D (SInSelect c t ''id'' q) r = Some True \<longleftrightarrow>
    (\<exists>x. rel = Some x \<and> ev D q (attrs x) = Some True)"
proof -
  from assms obtain u where u: "r c = VUuid u" and ids: "\<forall>s \<in> set (D t). \<exists>u. s ''id'' = VUuid u"
    by (auto simp: fk_loaded_def)
  have "ev D (SInSelect c t ''id'' q) r =
      Some (\<exists>s \<in> set (D t). ev D q s = Some True \<and> py_eq (r c) (s ''id''))"
    using u ids by (intro ev_in_select) auto
  also have "\<dots> = Some (\<exists>s \<in> set (D t). ev D q s = Some True \<and> s ''id'' = r c)"
    using u by auto
  finally show ?thesis using assms by (cases rel) (auto simp: fk_loaded_def)
qed

lemma config_agrees:
  assumes "config_ok D it"
  shows "ev D (SInSelect ''sandbox_config_id'' ''sandbox_configs'' ''id''
           (SCmp SEq ''creator_id'' (VUuid u))) (attrs it) = Some True \<longleftrightarrow>
         conversation_record_access_matches u it"
proof (cases "rels it ''sandbox_config''")
  case None
  with assms in_select_fk [of D _ "attrs it" "''sandbox_config_id''" None] show ?thesis
    by (auto simp: config_ok_def conversation_record_access_matches_def)
next
  case (Some c)
  with assms have "attrs c ''creator_id'' = VNone \<or> (\<exists>u. attrs c ''creator_id'' = VUuid u)"
    by (auto simp: config_ok_def fk_loaded_def id_or_null_def)
  from ev_eq_True_uuid [of "attrs c", OF this] Some assms
    in_select_fk [of D _ "attrs it" "''sandbox_config_id''" "Some c"]
  show ?thesis by (auto simp: config_ok_def conversation_record_access_matches_def)
qed

lemma event_agrees:
  assumes "event_ok D it"
  shows "ev D (SInSelect ''conversation_record_id'' ''conversation_records'' ''id''
           (SInSelect ''sandbox_config_id'' ''sandbox_configs'' ''id''
              (SCmp SEq ''creator_id'' (VUuid u)))) (attrs it) = Some True \<longleftrightarrow>
         event_access_matches u it"
proof -
  have fk: "fk_loaded D ''conversation_records'' (attrs it ''conversation_record_id'')
      (rels it ''conversation_record'')" using assms by (simp add: event_ok_def)
  show ?thesis
  proof (cases "rels it ''conversation_record''")
    case None
    with in_select_fk [of D _ "attrs it" "''conversation_record_id''", OF fk] show ?thesis by (simp add: event_access_matches_def)
  next
    case (Some conv)
    with assms have "config_ok D conv" by (simp add: event_ok_def)
    from in_select_fk [of D _ "attrs it" "''conversation_record_id''", OF fk] config_agrees [OF this] Some show ?thesis
      by (simp add: event_access_matches_def conversation_record_access_matches_def)
  qed
qed

text \<open>The two readings of every filter agree on every row where they are comparable.\<close>

lemma filter_agrees: "filter_ok D f it \<Longrightarrow> \<exists>b. reads_as ev D f it b"
proof (induction f)
  case (BaseSearchFilter e fields)
  then show ?case by (intro base_agrees) simp
next
  case (AttributeFilter e a v opr)
  from clause_agrees [of e "attrs it" a opr v D] AttributeFilter obtain b q where
    "in_mem opr (attrs it a) v = Inr b" "attribute_sql_condition e a v opr = Inr (Some q)"
    "ev D q (attrs it) = Some True \<longleftrightarrow> b" by auto
  then show ?case by (intro exI reads_asI) (auto simp: attribute_matches_def)
next
  case (AndSearchFilter fs)
  then show ?case by (intro and_agrees) simp
next
  case (OrSearchFilter fs)
  then show ?case by (intro or_agrees) simp
next
  case (AclFilter ids)
  then have id: "attrs it ''id'' = VNone \<or> (\<exists>u. attrs it ''id'' = VUuid u)"
    by (simp add: id_or_null_def)
  show ?case
  proof (cases "ids = [] \<or> attrs it ''id'' = VNone")
    case True
    then show ?thesis
      by (intro exI reads_asI) (auto simp: acl_matches_def acl_sql_condition_def ev_in_null)
  next
    case False
    with id have "match_ok (AclFilter ids) it" by simp
    from match_agrees [OF this, of D] show ?thesis by (auto simp: reads_as_def)
  qed
next
  case (CreatorMatchFilter u)
  then have "match_ok (CreatorMatchFilter u) it" by simp
  from match_agrees [OF this, of D] show ?case by (auto simp: reads_as_def)
next
  case (ScopeMatchFilter m i u)
  then show ?case by (intro scope_agrees) auto
next
  case (ApiKeyAccessFilter u)
  then have "match_ok (CreatorMatchFilter u) it" by simp
  from match_agrees [OF this, of D] show ?case
    by (auto simp: reads_as_def creator_matches_def creator_sql_condition_def
        api_key_access_matches_def api_key_access_sql_condition_def)
next
  case (ConversationRecordAccessFilter u)
  then show ?case
    by (intro exI reads_asI)
      (auto simp: conversation_record_access_sql_condition_def config_agrees)
next
  case (EventAccessFilter u)
  then show ?case
    by (intro exI reads_asI) (auto simp: event_access_sql_condition_def event_agrees)
qed (auto simp: reads_as_def ev_false)

end

lemma matches_iff_where_lib:
  assumes "sql_engine ev" and "filter_ok D f it"
  shows "\<exists>b c. matches f it = Inr b \<and> sql_condition f = Inr c \<and>
           where_holds ev D c (attrs it) = b"
  using sql_engine.filter_agrees [OF assms] by (auto simp: reads_as_def)

text \<open>C2. On every row where the two readings are comparable, the in-memory test of a search
  filter and its WHERE clause under any database that obeys SQL's three-valued logic are both
  defined and admit the same rows.\<close>

theorem matches_iff_where:
  assumes "sql_engine ev" and "filter_ok D f it"
  shows "\<exists>b c. matches f it = Inr b \<and> sql_condition f = Inr c \<and>
           where_holds ev D c (attrs it) = b"
  by (rule matches_iff_where_lib [OF assms])

theorem matches_iff_where_witness:
  "\<exists>b c. matches (ScopeMatchFilter (CreatorMatchFilter 7) AllSearchFilter (AclFilter [3]))
            (plain_item (\<lambda>a. if a = ''id'' then VUuid 3 else VNone)) = Inr b \<and>
     sql_condition (ScopeMatchFilter (CreatorMatchFilter 7) AllSearchFilter (AclFilter [3])) = Inr c \<and>
     where_holds sql_eval (\<lambda>_. []) c (\<lambda>a. if a = ''id'' then VUuid 3 else VNone) = b"
  using matches_iff_where [OF ref.sql_engine_axioms, of "\<lambda>_. []"
      "ScopeMatchFilter (CreatorMatchFilter 7) AllSearchFilter (AclFilter [3])"
      "plain_item (\<lambda>a. if a = ''id'' then VUuid 3 else VNone)"]
  by (simp add: id_or_null_def)

section \<open>The factory functions\<close>

text \<open>Short-circuiting conjunction and disjunction of two results.\<close>

fun conj_res :: "'e + bool \<Rightarrow> 'e + bool \<Rightarrow> 'e + bool" where
  "conj_res (Inl e) r = Inl e"
| "conj_res (Inr True) r = r"
| "conj_res (Inr False) r = Inr False"

fun disj_res :: "'e + bool \<Rightarrow> 'e + bool \<Rightarrow> 'e + bool" where
  "disj_res (Inl e) r = Inl e"
| "disj_res (Inr True) r = Inr True"
| "disj_res (Inr False) r = r"

lemma conj_res_assoc: "conj_res (conj_res a b) c = conj_res a (conj_res b c)"
  by (cases a rule: conj_res.cases [of "(a, b)" for b]) auto

lemma disj_res_assoc: "disj_res (disj_res a b) c = disj_res a (disj_res b c)"
  by (cases a rule: disj_res.cases [of "(a, b)" for b]) auto

lemma conj_res_True [simp]: "conj_res a (Inr True) = a"
  by (cases a rule: conj_res.cases [of "(a, b)" for b]) auto

lemma disj_res_False [simp]: "disj_res a (Inr False) = a"
  by (cases a rule: disj_res.cases [of "(a, b)" for b]) auto

lemma conj_res_eq_True: "conj_res a b = Inr True \<longleftrightarrow> a = Inr True \<and> b = Inr True"
  by (cases a rule: conj_res.cases [of "(a, b)" for b]) auto

lemma disj_res_eq_False: "disj_res a b = Inr False \<longleftrightarrow> a = Inr False \<and> b = Inr False"
  by (cases a rule: disj_res.cases [of "(a, b)" for b]) auto

lemma all_results_Cons: "all_results (r # rs) = conj_res r (all_results rs)"
  by (cases r rule: conj_res.cases [of "(a, b)" for a b]) auto

lemma any_results_Cons: "any_results (r # rs) = disj_res r (any_results rs)"
  by (cases r rule: disj_res.cases [of "(a, b)" for a b]) auto

lemma all_results_append: "all_results (xs @ ys) = conj_res (all_results xs) (all_results ys)"
  by (induction xs) (simp_all add: all_results_Cons conj_res_assoc del: all_results.simps(2,3))

lemma any_results_append: "any_results (xs @ ys) = disj_res (any_results xs) (any_results ys)"
  by (induction xs) (simp_all add: any_results_Cons disj_res_assoc del: any_results.simps(2,3))

lemmas all_results_join = all_results_append all_results_Cons conj_res_assoc conj_res_eq_True
lemmas any_results_join = any_results_append any_results_Cons disj_res_assoc disj_res_eq_False

declare all_results.simps(2,3) [simp del] any_results.simps(2,3) [simp del]

abbreviation all_match :: "sfilter list \<Rightarrow> item \<Rightarrow> pyerr + bool" where
  "all_match fs it \<equiv> all_results (map (\<lambda>f. matches f it) fs)"

abbreviation any_match :: "sfilter list \<Rightarrow> item \<Rightarrow> pyerr + bool" where
  "any_match fs it \<equiv> any_results (map (\<lambda>f. matches f it) fs)"

lemma and_inner_Some: "and_inner cs gs = Some cs' \<Longrightarrow> all_match cs' it = all_match (cs @ gs) it"
  by (induction cs gs rule: and_inner.induct) (auto simp: all_results_join)

lemma and_inner_None: "and_inner cs gs = None \<Longrightarrow> all_match (cs @ gs) it \<noteq> Inr True"
  by (induction cs gs rule: and_inner.induct) (auto simp: all_results_join)

lemma and_loop_Some: "and_loop cs fs = Some cs' \<Longrightarrow> all_match cs' it = all_match (cs @ fs) it"
  by (induction cs fs rule: and_loop.induct)
    (auto simp: all_results_join and_matches_def and_inner_Some split: option.splits)

lemma and_loop_None: "and_loop cs fs = None \<Longrightarrow> all_match (cs @ fs) it \<noteq> Inr True"
proof (induction cs fs rule: and_loop.induct)
  case (4 cs gs fs)
  then show ?case
    using and_inner_None [of cs gs it] and_inner_Some [of cs gs _ it]
    by (auto simp: all_results_join and_matches_def split: option.splits)
qed (auto simp: all_results_join)

lemma or_inner_Some: "or_inner cs gs = Some cs' \<Longrightarrow> any_match cs' it = any_match (cs @ gs) it"
  by (induction cs gs rule: or_inner.induct) (auto simp: any_results_join)

lemma or_inner_None: "or_inner cs gs = None \<Longrightarrow> any_match (cs @ gs) it \<noteq> Inr False"
  by (induction cs gs rule: or_inner.induct) (auto simp: any_results_join)

lemma or_loop_Some: "or_loop cs fs = Some cs' \<Longrightarrow> any_match cs' it = any_match (cs @ fs) it"
  by (induction cs fs rule: or_loop.induct)
    (auto simp: any_results_join or_matches_def or_inner_Some split: option.splits)

lemma or_loop_None: "or_loop cs fs = None \<Longrightarrow> any_match (cs @ fs) it \<noteq> Inr False"
proof (induction cs fs rule: or_loop.induct)
  case (4 cs gs fs)
  then show ?case
    using or_inner_None [of cs gs it] or_inner_Some [of cs gs _ it]
    by (auto simp: any_results_join or_matches_def split: option.splits)
qed (auto simp: any_results_join)

lemma and_filter_matches:
  "matches (AndSearchFilter fs) it = Inr b \<Longrightarrow> matches (and_filter fs) it = Inr b"
  using and_loop_Some [of "[]" fs _ it] and_loop_None [of "[]" fs it]
  by (auto simp: and_filter_def and_matches_def all_results_Cons split: option.splits list.splits)

lemma or_filter_matches:
  "matches (OrSearchFilter fs) it = Inr b \<Longrightarrow> matches (or_filter fs) it = Inr b"
  using or_loop_Some [of "[]" fs _ it] or_loop_None [of "[]" fs it]
  by (auto simp: or_filter_def or_matches_def any_results_Cons split: option.splits list.splits)

lemma and_inner_normal:
  "and_inner cs gs = Some cs' \<Longrightarrow> AllSearchFilter \<notin> set cs \<Longrightarrow> NoneSearchFilter \<notin> set cs \<Longrightarrow>
   AllSearchFilter \<notin> set cs' \<and> NoneSearchFilter \<notin> set cs'"
  by (induction cs gs rule: and_inner.induct) auto

lemma and_loop_normal:
  "and_loop cs fs = Some cs' \<Longrightarrow> AllSearchFilter \<notin> set cs \<Longrightarrow> NoneSearchFilter \<notin> set cs \<Longrightarrow>
   AllSearchFilter \<notin> set cs' \<and> NoneSearchFilter \<notin> set cs'"
  by (induction cs fs rule: and_loop.induct)
    (auto dest: and_inner_normal split: option.splits)

lemma or_inner_normal:
  "or_inner cs gs = Some cs' \<Longrightarrow> AllSearchFilter \<notin> set cs \<Longrightarrow> NoneSearchFilter \<notin> set cs \<Longrightarrow>
   AllSearchFilter \<notin> set cs' \<and> NoneSearchFilter \<notin> set cs'"
  by (induction cs gs rule: or_inner.induct) auto

lemma or_loop_normal:
  "or_loop cs fs = Some cs' \<Longrightarrow> AllSearchFilter \<notin> set cs \<Longrightarrow> NoneSearchFilter \<notin> set cs \<Longrightarrow>
   AllSearchFilter \<notin> set cs' \<and> NoneSearchFilter \<notin> set cs'"
  by (induction cs fs rule: or_loop.induct)
    (auto dest: or_inner_normal split: option.splits)

lemma and_inner_ok:
  "and_inner cs gs = Some cs' \<Longrightarrow> \<forall>f \<in> set (cs @ gs). filter_ok D f it \<Longrightarrow>
   \<forall>f \<in> set cs'. filter_ok D f it"
  by (induction cs gs rule: and_inner.induct) auto

lemma and_loop_ok:
  "and_loop cs fs = Some cs' \<Longrightarrow> \<forall>f \<in> set (cs @ fs). filter_ok D f it \<Longrightarrow>
   \<forall>f \<in> set cs'. filter_ok D f it"
proof (induction cs fs rule: and_loop.induct)
  case (4 cs gs fs)
  from 4(2) obtain cs1 where inner: "and_inner cs gs = Some cs1" and rest: "and_loop cs1 fs = Some cs'"
    by (auto split: option.splits)
  have "\<forall>f \<in> set cs1. filter_ok D f it"
    by (rule and_inner_ok [OF inner]) (use 4(3) in auto)
  with 4(3) have "\<forall>f \<in> set (cs1 @ fs). filter_ok D f it" by auto
  with 4(1) [OF inner rest] show ?case by blast
qed auto

text \<open>Comparability is kept by the normalisation, so both readings of the result agree.\<close>

lemma and_filter_ok:
  "(\<And>f. f \<in> set fs \<Longrightarrow> filter_ok D f it) \<Longrightarrow> filter_ok D (and_filter fs) it"
  using and_loop_ok [of "[]" fs _ D it]
  by (auto simp: and_filter_def split: option.splits list.splits)

declare all_results.simps(2,3) [simp] any_results.simps(2,3) [simp]

text \<open>The factory functions normalise without changing the meaning: where the plain
  conjunction (disjunction) of the filters has an answer on an item, the normalised filter gives
  the same one, and a composite result has at least two children, none of them constant.\<close>

theorem factories_preserve:
  "(matches (AndSearchFilter fs) it = Inr b \<longrightarrow> matches (and_filter fs) it = Inr b) \<and>
   (matches (OrSearchFilter fs) it = Inr b \<longrightarrow> matches (or_filter fs) it = Inr b) \<and>
   (\<forall>x y zs. and_loop [] fs = Some (x # y # zs) \<longrightarrow>
      and_filter fs = AndSearchFilter (x # y # zs) \<and>
      {AllSearchFilter, NoneSearchFilter} \<inter> set (x # y # zs) = {}) \<and>
   (\<forall>x y zs. or_loop [] fs = Some (x # y # zs) \<longrightarrow>
      or_filter fs = OrSearchFilter (x # y # zs) \<and>
      {AllSearchFilter, NoneSearchFilter} \<inter> set (x # y # zs) = {})"
proof (intro conjI allI impI)
  fix x y zs assume a: "and_loop [] fs = Some (x # y # zs)"
  show "and_filter fs = AndSearchFilter (x # y # zs)" using a by (simp add: and_filter_def)
  show "{AllSearchFilter, NoneSearchFilter} \<inter> set (x # y # zs) = {}"
    using and_loop_normal [OF a] by auto
next
  fix x y zs assume a: "or_loop [] fs = Some (x # y # zs)"
  show "or_filter fs = OrSearchFilter (x # y # zs)" using a by (simp add: or_filter_def)
  show "{AllSearchFilter, NoneSearchFilter} \<inter> set (x # y # zs) = {}"
    using or_loop_normal [OF a] by auto
qed (simp_all add: and_filter_matches or_filter_matches)

theorem factories_preserve_witness:
  "matches (AndSearchFilter [AllSearchFilter, AndSearchFilter [CreatorMatchFilter 7, AllSearchFilter]])
     (plain_item (\<lambda>_. VUuid 7)) = Inr True \<and>
   matches (and_filter [AllSearchFilter, AndSearchFilter [CreatorMatchFilter 7, AllSearchFilter]])
     (plain_item (\<lambda>_. VUuid 7)) = Inr True"
proof -
  have h: "matches (AndSearchFilter [AllSearchFilter, AndSearchFilter [CreatorMatchFilter 7, AllSearchFilter]])
     (plain_item (\<lambda>_. VUuid 7)) = Inr True"
    by (simp add: and_matches_def creator_matches_def)
  with factories_preserve [of "[AllSearchFilter, AndSearchFilter [CreatorMatchFilter 7, AllSearchFilter]]"
      "plain_item (\<lambda>_. VUuid 7)" True]
  show ?thesis by blast
qed

section \<open>Where the two readings part\<close>

text \<open>The side conditions of the agreement are needed: on a NULL attribute the operator
  \<open>ne\<close> admits the row in memory and drops it in SQL, and an ordering operator raises
  \<open>TypeError\<close> in memory while SQL drops the row.\<close>

theorem null_comparisons_diverge:
  assumes "sql_engine ev" and "attrs it a = VNone" and "a \<in> set cols"
  shows "matches (AttributeFilter (Some cols) a (VStr s) NE) it = Inr True \<and>
    (\<exists>c. sql_condition (AttributeFilter (Some cols) a (VStr s) NE) = Inr c \<and>
         \<not> where_holds ev D c (attrs it)) \<and>
    matches (AttributeFilter (Some cols) a (VInt n) LT) it = Inl TypeErr \<and>
    (\<exists>c. sql_condition (AttributeFilter (Some cols) a (VInt n) LT) = Inr c \<and>
         \<not> where_holds ev D c (attrs it))"
proof -
  note null = sql_engine.ev_cmp_null [OF assms(1)]
  show ?thesis using assms(2,3) null
    by (simp add: attribute_matches_def attribute_sql_condition_def naive_def)
qed

theorem null_comparisons_diverge_witness:
  "matches (AttributeFilter (Some [''name'']) ''name'' (VStr ''x'') NE) (plain_item (\<lambda>_. VNone)) = Inr True \<and>
   (\<exists>c. sql_condition (AttributeFilter (Some [''name'']) ''name'' (VStr ''x'') NE) = Inr c \<and>
        \<not> where_holds sql_eval (\<lambda>_. []) c (\<lambda>_. VNone))"
  using null_comparisons_diverge [OF ref.sql_engine_axioms, of "plain_item (\<lambda>_. VNone)" "''name''"
      "[''name'']" "''x''" "\<lambda>_. []" 0]
  by simp

end
