(* ===== verification/SecurityModels.thy ===== *)
theory SecurityModels
  imports FilterLaws
begin

text \<open>
  The permission policies of \<open>security/security_models.py\<close> and the custom policies of the
  api\_key, conversation\_record and event modules. A policy reduces to a search filter for a
  principal, an action and the principal's groups. The declarative reading \<open>admits\<close> says what a
  policy grants on an item; the theorems show that the reduced filter means exactly that, in
  memory and as a WHERE clause.
\<close>

section \<open>Policies\<close>

datatype action = CREATE | READ | UPDATE | DELETE | SEARCH | USE

text \<open>The three outcomes of the splitting policies are \<open>on_match\<close>, \<open>on_mismatch\<close>, \<open>on_create\<close>.\<close>

datatype permission =
    Permitted
  | Denied
  | ReadOnly
  | AclPermission "uuid list" permission permission permission
  | CreatorPermission permission permission permission
  | GroupPermission "uuid list" permission permission permission
  | ApiKeyAccess
  | ConversationRecordAccess
  | EventAccess

definition ACL_MAX_IDS :: nat where
  "ACL_MAX_IDS = 100"

definition enforce_id_cap :: "uuid list \<Rightarrow> pyerr + uuid list" where
  "enforce_id_cap value = (if length value > ACL_MAX_IDS then Inl ValueErr else Inr value)"

text \<open>The defaults of the pydantic fields: every outcome is \<open>Denied()\<close> unless given.\<close>

definition acl_permission ::
    "uuid list \<Rightarrow> permission option \<Rightarrow> permission option \<Rightarrow> permission option \<Rightarrow> pyerr + permission" where
  "acl_permission ids on_match on_mismatch on_create =
     bindR (enforce_id_cap ids) (\<lambda>item_ids.
       let d = (\<lambda>p. case p of None \<Rightarrow> Denied | Some q \<Rightarrow> q)
       in Inr (AclPermission item_ids (d on_match) (d on_mismatch) (d on_create)))"

section \<open>Reduction to a filter\<close>

definition permitted_filter :: sfilter where
  "permitted_filter = AllSearchFilter"

definition denied_filter :: sfilter where
  "denied_filter = NoneSearchFilter"

definition read_only_filter :: "action \<Rightarrow> sfilter" where
  "read_only_filter action =
     (if action = READ \<or> action = SEARCH then AllSearchFilter else NoneSearchFilter)"

text \<open>
  The splitting policies receive their sub-policies already reduced (\<open>_reduce_outcome\<close> is a
  pure call).
\<close>

definition acl_filter :: "uuid list \<Rightarrow> action \<Rightarrow> sfilter \<Rightarrow> sfilter \<Rightarrow> sfilter \<Rightarrow> sfilter" where
  "acl_filter item_ids action on_match on_mismatch on_create =
     (if action = CREATE then on_create
      else if item_ids = [] then on_mismatch
      else ScopeMatchFilter (AclFilter item_ids) on_match on_mismatch)"

definition creator_filter :: "uuid option \<Rightarrow> action \<Rightarrow> sfilter \<Rightarrow> sfilter \<Rightarrow> sfilter \<Rightarrow> sfilter" where
  "creator_filter user_id action on_match on_mismatch on_create =
     (if action = CREATE then on_create
      else (case user_id of
              None \<Rightarrow> on_mismatch
            | Some u \<Rightarrow> ScopeMatchFilter (CreatorMatchFilter u) on_match on_mismatch))"

definition group_filter ::
    "uuid list \<Rightarrow> action \<Rightarrow> uuid set \<Rightarrow> sfilter \<Rightarrow> sfilter \<Rightarrow> sfilter \<Rightarrow> sfilter" where
  "group_filter group_ids action groups on_match on_mismatch on_create =
     (if action = CREATE then on_create
      else if groups \<inter> set group_ids \<noteq> {} then on_match else on_mismatch)"

definition api_key_access_filter :: "uuid option \<Rightarrow> sfilter" where
  "api_key_access_filter user_id =
     (case user_id of None \<Rightarrow> NoneSearchFilter | Some u \<Rightarrow> ApiKeyAccessFilter u)"

definition conversation_record_access_filter :: "uuid option \<Rightarrow> action \<Rightarrow> sfilter" where
  "conversation_record_access_filter user_id action =
     (case user_id of
        None \<Rightarrow> NoneSearchFilter
      | Some u \<Rightarrow>
          if action = SEARCH \<or> action = READ then ConversationRecordAccessFilter u
          else NoneSearchFilter)"

definition event_access_filter :: "uuid option \<Rightarrow> action \<Rightarrow> sfilter" where
  "event_access_filter user_id action =
     (case user_id of
        None \<Rightarrow> NoneSearchFilter
      | Some u \<Rightarrow>
          if action = SEARCH \<or> action = READ then EventAccessFilter u else NoneSearchFilter)"

fun to_search_filter :: "permission \<Rightarrow> uuid option \<Rightarrow> action \<Rightarrow> uuid set \<Rightarrow> sfilter" where
  "to_search_filter Permitted u a g = permitted_filter"
| "to_search_filter Denied u a g = denied_filter"
| "to_search_filter ReadOnly u a g = read_only_filter a"
| "to_search_filter (AclPermission ids m x c) u a g =
     acl_filter ids a (to_search_filter m u a g) (to_search_filter x u a g) (to_search_filter c u a g)"
| "to_search_filter (CreatorPermission m x c) u a g =
     creator_filter u a (to_search_filter m u a g) (to_search_filter x u a g) (to_search_filter c u a g)"
| "to_search_filter (GroupPermission ids m x c) u a g =
     group_filter ids a g (to_search_filter m u a g) (to_search_filter x u a g) (to_search_filter c u a g)"
| "to_search_filter ApiKeyAccess u a g = api_key_access_filter u"
| "to_search_filter ConversationRecordAccess u a g = conversation_record_access_filter u a"
| "to_search_filter EventAccess u a g = event_access_filter u a"

lemmas filter_defs = permitted_filter_def denied_filter_def read_only_filter_def acl_filter_def
  creator_filter_def group_filter_def api_key_access_filter_def
  conversation_record_access_filter_def event_access_filter_def

section \<open>What a policy grants\<close>

definition listed :: "uuid list \<Rightarrow> item \<Rightarrow> bool" where
  "listed ids it = (\<exists>u \<in> set ids. attrs it ''id'' = VUuid u)"

definition owned_by :: "uuid option \<Rightarrow> item \<Rightarrow> bool" where
  "owned_by user it = (\<exists>u. user = Some u \<and> attrs it ''creator_id'' = VUuid u)"

definition conversation_of :: "uuid option \<Rightarrow> item \<Rightarrow> bool" where
  "conversation_of user it = (\<exists>c. rels it ''sandbox_config'' = Some c \<and> owned_by user c)"

definition event_of :: "uuid option \<Rightarrow> item \<Rightarrow> bool" where
  "event_of user it = (\<exists>c. rels it ''conversation_record'' = Some c \<and> conversation_of user c)"

fun admits :: "permission \<Rightarrow> uuid option \<Rightarrow> action \<Rightarrow> uuid set \<Rightarrow> item \<Rightarrow> bool" where
  "admits Permitted u a g it = True"
| "admits Denied u a g it = False"
| "admits ReadOnly u a g it = (a \<in> {READ, SEARCH})"
| "admits (AclPermission ids m x c) u a g it =
     admits (if a = CREATE then c else if listed ids it then m else x) u a g it"
| "admits (CreatorPermission m x c) u a g it =
     admits (if a = CREATE then c else if owned_by u it then m else x) u a g it"
| "admits (GroupPermission ids m x c) u a g it =
     admits (if a = CREATE then c else if g \<inter> set ids \<noteq> {} then m else x) u a g it"
| "admits ApiKeyAccess u a g it = owned_by u it"
| "admits ConversationRecordAccess u a g it = (a \<in> {READ, SEARCH} \<and> conversation_of u it)"
| "admits EventAccess u a g it = (a \<in> {READ, SEARCH} \<and> event_of u it)"

text \<open>
  The rows a policy may be asked about: a stored row has a UUID as its primary key and a UUID or
  NULL as its creator, and the relationships a cross-table policy reads are loaded.
\<close>

fun row_ok :: "db \<Rightarrow> permission \<Rightarrow> item \<Rightarrow> bool" where
  "row_ok D Permitted it = True"
| "row_ok D Denied it = True"
| "row_ok D ReadOnly it = True"
| "row_ok D (AclPermission ids m x c) it =
     ((\<exists>u. attrs it ''id'' = VUuid u) \<and> row_ok D m it \<and> row_ok D x it \<and> row_ok D c it)"
| "row_ok D (CreatorPermission m x c) it =
     (id_or_null (attrs it ''creator_id'') \<and> row_ok D m it \<and> row_ok D x it \<and> row_ok D c it)"
| "row_ok D (GroupPermission ids m x c) it = (row_ok D m it \<and> row_ok D x it \<and> row_ok D c it)"
| "row_ok D ApiKeyAccess it = id_or_null (attrs it ''creator_id'')"
| "row_ok D ConversationRecordAccess it = config_ok D it"
| "row_ok D EventAccess it = event_ok D it"

lemma policy_matches: "matches (to_search_filter p u a g) it = Inr (admits p u a g it)"
  by (induction p)
    (auto simp: filter_defs scope_matches_def acl_matches_def creator_matches_def listed_def
      owned_by_def api_key_access_matches_def conversation_record_access_matches_def
      conversation_of_def event_access_matches_def event_of_def split: option.splits)

lemma policy_filter_ok: "row_ok D p it \<Longrightarrow> filter_ok D (to_search_filter p u a g) it"
  by (induction p) (auto simp: filter_defs split: option.splits)

text \<open>C3. What a policy grants: for every principal, action, set of groups and item, the filter
  a policy reduces to answers without error and admits the item exactly when the policy grants
  the action on it, outcome by outcome; on stored rows its WHERE clause selects the same rows.\<close>

theorem policy_reduction_correct:
  assumes "sql_engine ev" and "row_ok D p it"
  shows "matches (to_search_filter p u a g) it = Inr (admits p u a g it) \<and>
    (\<exists>c. sql_condition (to_search_filter p u a g) = Inr c \<and>
         where_holds ev D c (attrs it) = admits p u a g it)"
  using matches_iff_where_lib [OF assms(1) policy_filter_ok [OF assms(2)], of u a g]
  by (auto simp: policy_matches)

theorem policy_reduction_correct_witness:
  "\<exists>c. sql_condition (to_search_filter (AclPermission [3] Permitted (CreatorPermission ReadOnly Denied Denied) Denied)
          (Some 7) UPDATE {}) = Inr c \<and>
       where_holds sql_eval (\<lambda>_. []) c (\<lambda>a. if a = ''id'' then VUuid 3 else VNone)"
  using policy_reduction_correct [OF ref.sql_engine_axioms, of "\<lambda>_. []"
      "AclPermission [3] Permitted (CreatorPermission ReadOnly Denied Denied) Denied"
      "plain_item (\<lambda>a. if a = ''id'' then VUuid 3 else VNone)" "Some 7" UPDATE "{}"]
  by (simp add: id_or_null_def listed_def)

section \<open>Safety of the policies\<close>

text \<open>A policy none of whose leaves is a grant of more than reading.\<close>

fun read_leaves :: "permission \<Rightarrow> bool" where
  "read_leaves Permitted = False"
| "read_leaves (AclPermission _ m x c) = (read_leaves m \<and> read_leaves x \<and> read_leaves c)"
| "read_leaves (CreatorPermission m x c) = (read_leaves m \<and> read_leaves x \<and> read_leaves c)"
| "read_leaves (GroupPermission _ m x c) = (read_leaves m \<and> read_leaves x \<and> read_leaves c)"
| "read_leaves ApiKeyAccess = False"
| "read_leaves _ = True"

lemma read_leaves_no_write: "read_leaves p \<Longrightarrow> a \<notin> {READ, SEARCH} \<Longrightarrow> \<not> admits p u a g it"
  by (induction p) auto

fun deny_leaves :: "permission \<Rightarrow> bool" where
  "deny_leaves Denied = True"
| "deny_leaves (AclPermission _ m x c) = (deny_leaves m \<and> deny_leaves x \<and> deny_leaves c)"
| "deny_leaves (CreatorPermission m x c) = (deny_leaves m \<and> deny_leaves x \<and> deny_leaves c)"
| "deny_leaves (GroupPermission _ m x c) = (deny_leaves m \<and> deny_leaves x \<and> deny_leaves c)"
| "deny_leaves _ = False"

lemma deny_leaves_nothing: "deny_leaves p \<Longrightarrow> \<not> admits p u a g it"
  by (induction p) auto

text \<open>Default deny and bounded lists: a constructed ACL holds at most \<open>ACL_MAX_IDS\<close> ids and
  more are rejected; with no outcome given it grants nothing to anyone; and a policy whose leaves
  only read or deny never admits any action but \<open>READ\<close> and \<open>SEARCH\<close>, for any principal.\<close>

theorem acl_defaults_deny:
  "(case acl_permission ids None None None of
      Inl e \<Rightarrow> e = ValueErr \<and> 100 < length ids
    | Inr p \<Rightarrow> length ids \<le> 100 \<and> matches (to_search_filter p u a g) it = Inr False) \<and>
   (read_leaves q \<longrightarrow> a \<notin> {READ, SEARCH} \<longrightarrow>
      matches (to_search_filter q u a g) it = Inr False)"
proof -
  have d: "\<And>a. matches (to_search_filter (AclPermission ids Denied Denied Denied) u a g) it = Inr False"
    unfolding policy_matches by (simp add: deny_leaves_nothing)
  show ?thesis
    by (auto simp: acl_permission_def enforce_id_cap_def ACL_MAX_IDS_def policy_matches
        read_leaves_no_write d simp del: to_search_filter.simps)
qed

theorem acl_defaults_deny_witness:
  "matches (to_search_filter (CreatorPermission ReadOnly (AclPermission [1] ReadOnly Denied Denied) Denied)
      (Some 7) DELETE {}) (plain_item (\<lambda>_. VUuid 7)) = Inr False"
  using acl_defaults_deny [of "[]" "Some 7" DELETE "{}" "plain_item (\<lambda>_. VUuid 7)"
      "CreatorPermission ReadOnly (AclPermission [1] ReadOnly Denied Denied) Denied"]
  by simp

end
