(* ===== verification/AuthModels.thy ===== *)
theory AuthModels
  imports SecurityModels
begin

text \<open>
  The rows the authentication and authorization code works on: \<open>auth/auth_models.py\<close>,
  \<open>user/user_models.py\<close>, \<open>role/role_models.py\<close> and the membership table of
  \<open>group/group_models.py\<close>. A role holds one permission policy per governed entity; its 26
  \<open>Permission\<close> columns are the map \<open>policies\<close> from the column's name to its value.
\<close>

section \<open>Credentials\<close>

datatype token_type = COOKIE | API_KEY | ACCESS_TOKEN | REFRESH_TOKEN | IDP_REFRESH_TOKEN

primrec token_type_value :: "token_type \<Rightarrow> string" where
  "token_type_value COOKIE = ''cookie''"
| "token_type_value API_KEY = ''api_key''"
| "token_type_value ACCESS_TOKEN = ''access_token''"
| "token_type_value REFRESH_TOKEN = ''refresh_token''"
| "token_type_value IDP_REFRESH_TOKEN = ''idp_refresh_token''"

text \<open>\<open>TokenType(raw)\<close>, \<open>None\<close> being the \<open>ValueError\<close>.\<close>

definition token_type_of :: "string \<Rightarrow> token_type option" where
  "token_type_of raw =
     List.find (\<lambda>t. token_type_value t = raw)
       [COOKIE, API_KEY, ACCESS_TOKEN, REFRESH_TOKEN, IDP_REFRESH_TOKEN]"

lemma token_type_of_value [simp]: "token_type_of (token_type_value t) = Some t"
  by (cases t) (simp_all add: token_type_of_def)

lemma token_type_of_Some: "token_type_of raw = Some t \<longleftrightarrow> raw = token_type_value t"
  by (cases t) (auto simp: token_type_of_def split: if_splits)

record auth_token =
  tok_id :: uuid
  tok_user_id :: uuid
  tok_created_at :: datetime
  tok_updated_at :: datetime
  tok_enabled :: bool
  tok_expires_at :: datetime
  tok_type :: token_type
  tok_scopes :: "string set"
  tok_role_id :: "uuid option"

record api_key =
  ak_id :: uuid
  ak_key_hash :: string
  ak_prefix :: string
  ak_creator_id :: uuid
  ak_name :: "string option"
  ak_enabled :: bool
  ak_role_id :: "uuid option"
  ak_system :: bool
  ak_expires_at :: "datetime option"
  ak_created_at :: datetime
  ak_updated_at :: datetime

record idp_refresh_token =
  rt_id :: uuid
  rt_creator_id :: uuid
  rt_refresh_token :: string
  rt_expires_at :: datetime
  rt_created_at :: datetime
  rt_updated_at :: datetime

record idp_access_token =
  at_id :: uuid
  at_refresh_token_id :: uuid
  at_access_token :: string
  at_expires_at :: datetime
  at_created_at :: datetime
  at_updated_at :: datetime

record oauth_client =
  oc_id :: uuid
  oc_client_id :: string
  oc_client_secret :: string
  oc_name :: "string option"
  oc_enabled :: bool
  oc_created_at :: datetime
  oc_updated_at :: datetime

record redirect_uri =
  ru_id :: uuid
  ru_client_id :: uuid
  ru_uri :: string
  ru_created_at :: datetime

section \<open>Users, roles and memberships\<close>

record user =
  u_id :: uuid
  u_email :: string
  u_username :: string
  u_enabled :: bool
  u_password :: "string option"
  u_idp_user_id :: "string option"
  u_created_at :: datetime
  u_updated_at :: datetime

record role =
  r_id :: uuid
  r_name :: string
  r_policies :: "string \<Rightarrow> permission option"
  r_created_at :: datetime
  r_updated_at :: datetime

record user_role =
  ur_id :: uuid
  ur_role_id :: uuid
  ur_user_id :: uuid
  ur_created_at :: datetime

record group_user =
  gu_id :: uuid
  gu_group_id :: uuid
  gu_user_id :: uuid
  gu_creator_id :: uuid
  gu_created_at :: datetime

record group =
  g_id :: uuid
  g_name :: string
  g_creator_id :: uuid
  g_description :: "string option"
  g_created_at :: datetime
  g_updated_at :: datetime

definition ROLE_ENTITY_COLUMNS :: "string list" where
  "ROLE_ENTITY_COLUMNS =
    [''user_permission'',
     ''role_permission'',
     ''user_role_permission'',
     ''api_key_permission'',
     ''oauth_client_permission'',
     ''cors_origin_permission'',
     ''secret_provider_permission'',
     ''static_secret_permission'',
     ''mcp_server_config_permission'',
     ''provider_connection_permission'',
     ''llm_permission'',
     ''llm_aggregated_usage_permission'',
     ''mcp_aggregated_usage_permission'',
     ''feature_flag_permission'',
     ''feature_flag_role_assignment_permission'',
     ''feature_flag_user_assignment_permission'',
     ''sandbox_template_permission'',
     ''sandbox_permission'',
     ''sandbox_snapshot_permission'',
     ''group_permission'',
     ''group_user_permission'',
     ''conversation_record_permission'',
     ''event_permission'',
     ''oauth_provider_permission'',
     ''oauth_session_permission'',
     ''job_permission'']"

section \<open>A row as a filter reads it\<close>

fun opt_val :: "('a \<Rightarrow> pyval) \<Rightarrow> 'a option \<Rightarrow> pyval" where
  "opt_val f None = VNone"
| "opt_val f (Some x) = f x"

abbreviation time_val :: "datetime \<Rightarrow> pyval" where
  "time_val t \<equiv> VTime t (Some 0)"

definition user_attrs :: "user \<Rightarrow> row" where
  "user_attrs u a =
     (if a = ''id'' then VUuid (u_id u)
      else if a = ''email'' then VStr (u_email u)
      else if a = ''username'' then VStr (u_username u)
      else if a = ''enabled'' then VBool (u_enabled u)
      else if a = ''password'' then opt_val VStr (u_password u)
      else if a = ''idp_user_id'' then opt_val VStr (u_idp_user_id u)
      else if a = ''created_at'' then time_val (u_created_at u)
      else if a = ''updated_at'' then time_val (u_updated_at u)
      else VNone)"

definition api_key_attrs :: "api_key \<Rightarrow> row" where
  "api_key_attrs k a =
     (if a = ''id'' then VUuid (ak_id k)
      else if a = ''key_hash'' then VStr (ak_key_hash k)
      else if a = ''prefix'' then VStr (ak_prefix k)
      else if a = ''creator_id'' then VUuid (ak_creator_id k)
      else if a = ''name'' then opt_val VStr (ak_name k)
      else if a = ''enabled'' then VBool (ak_enabled k)
      else if a = ''role_id'' then opt_val VUuid (ak_role_id k)
      else if a = ''system'' then VBool (ak_system k)
      else if a = ''expires_at'' then opt_val time_val (ak_expires_at k)
      else if a = ''created_at'' then time_val (ak_created_at k)
      else if a = ''updated_at'' then time_val (ak_updated_at k)
      else VNone)"

lemma user_attrs_simps [simp]:
  "user_attrs u ''id'' = VUuid (u_id u)"
  "user_attrs u ''email'' = VStr (u_email u)"
  "user_attrs u ''username'' = VStr (u_username u)"
  "user_attrs u ''creator_id'' = VNone"
  by (simp_all add: user_attrs_def)

lemma api_key_attrs_simps [simp]:
  "api_key_attrs k ''id'' = VUuid (ak_id k)"
  "api_key_attrs k ''creator_id'' = VUuid (ak_creator_id k)"
  by (simp_all add: api_key_attrs_def)

end
