(* ===== verification/Authz.thy ===== *)
theory Authz
  imports AuthModels "HOL-Library.AList"
begin

text \<open>
  Authorization of \<open>auth/auth_dependencies.py\<close>: from the principal and the action on a
  resource to the one search filter every service scopes its reads and writes by. The filter is
  the disjunction of the policies of the principal's roles, narrowed by the role an API key
  carries. Roles, groups and the restricting role are resolved once per request and cached on
  \<open>request.state\<close>, which the model passes explicitly.
\<close>

section \<open>The registry of governed resources\<close>

text \<open>The module-level dict from model class to Role column, in insertion order.\<close>

type_synonym registry = "(string \<times> string) list"

definition register_resource_policy :: "string \<Rightarrow> string \<Rightarrow> registry \<Rightarrow> pyerr + registry" where
  "register_resource_policy model column reg =
     (if column \<notin> set ROLE_ENTITY_COLUMNS then Inl ValueErr
      else Inr (AList.update model column reg))"

definition registrations :: "(string \<times> string) list" where
  "registrations =
    [(''User'', ''user_permission''),
     (''Role'', ''role_permission''),
     (''UserRole'', ''user_role_permission''),
     (''ApiKey'', ''api_key_permission''),
     (''OAuthClient'', ''oauth_client_permission''),
     (''AllowedOrigin'', ''cors_origin_permission''),
     (''SecretProvider'', ''secret_provider_permission''),
     (''StaticSecret'', ''static_secret_permission''),
     (''MCPServerConfig'', ''mcp_server_config_permission''),
     (''StoredProviderConnection'', ''provider_connection_permission''),
     (''StoredLLM'', ''llm_permission''),
     (''LlmAggregatedUsage'', ''llm_aggregated_usage_permission''),
     (''McpAggregatedUsage'', ''mcp_aggregated_usage_permission''),
     (''FeatureFlag'', ''feature_flag_permission''),
     (''FeatureFlagRoleAssignment'', ''feature_flag_role_assignment_permission''),
     (''FeatureFlagUserAssignment'', ''feature_flag_user_assignment_permission''),
     (''SandboxTemplate'', ''sandbox_template_permission''),
     (''SandboxConfig'', ''sandbox_permission''),
     (''SandboxSnapshot'', ''sandbox_snapshot_permission''),
     (''Group'', ''group_permission''),
     (''GroupUser'', ''group_user_permission''),
     (''ConversationRecord'', ''conversation_record_permission''),
     (''Event'', ''event_permission''),
     (''OAuthProvider'', ''oauth_provider_permission''),
     (''OAuthSession'', ''oauth_session_permission''),
     (''Job'', ''job_permission'')]"

fun register_all :: "(string \<times> string) list \<Rightarrow> registry \<Rightarrow> pyerr + registry" where
  "register_all [] reg = Inr reg"
| "register_all ((m, c) # rs) reg = bindR (register_resource_policy m c reg) (register_all rs)"

text \<open>\<open>_RESOURCE_POLICY\<close> as the import of the module leaves it.\<close>

definition RESOURCE_POLICY :: "pyerr + registry" where
  "RESOURCE_POLICY = register_all registrations []"

definition policy_attr_for :: "registry \<Rightarrow> string \<Rightarrow> string option" where
  "policy_attr_for reg model_type = map_of reg model_type"

definition role_policy_for :: "role \<Rightarrow> string \<Rightarrow> permission option" where
  "role_policy_for r column = r_policies r column"

section \<open>Request state and its caches\<close>

record auth_db =
  db_roles :: "role list"
  db_user_roles :: "user_role list"
  db_group_users :: "group_user list"

text \<open>
  The attributes of \<open>request.state\<close> this module sets; the outer \<open>None\<close> is an attribute that
  is not set.
\<close>

record request =
  req_roles :: "role list option"
  req_groups :: "uuid set option"
  req_restricting :: "role option option"

definition new_request :: request where
  "new_request = \<lparr>req_roles = None, req_groups = None, req_restricting = None\<rparr>"

definition ROLES_CACHE_THRESHOLD :: nat where
  "ROLES_CACHE_THRESHOLD = 100"

text \<open>The join of roles and user\_roles, one row per assignment.\<close>

definition load_roles :: "auth_db \<Rightarrow> uuid \<Rightarrow> role list" where
  "load_roles db user_id =
     concat (map (\<lambda>ur. filter (\<lambda>r. r_id r = ur_role_id ur) (db_roles db))
       (filter (\<lambda>ur. ur_user_id ur = user_id) (db_user_roles db)))"

text \<open>The same query through a server-side cursor.\<close>

definition stream_roles :: "auth_db \<Rightarrow> uuid \<Rightarrow> role list" where
  "stream_roles db user_id = load_roles db user_id"

definition materialized_roles :: "auth_db \<Rightarrow> uuid \<Rightarrow> request \<Rightarrow> role list \<times> request" where
  "materialized_roles db user_id req =
     (case req_roles req of
        Some cached \<Rightarrow> (cached, req)
      | None \<Rightarrow>
          let roles = load_roles db user_id in
          (roles,
           if length roles < ROLES_CACHE_THRESHOLD then req\<lparr>req_roles := Some roles\<rparr> else req))"

definition iter_roles :: "auth_db \<Rightarrow> uuid \<Rightarrow> request \<Rightarrow> role list \<times> request" where
  "iter_roles db user_id req =
     (case req_roles req of
        Some cached \<Rightarrow> (cached, req)
      | None \<Rightarrow>
          let roles = load_roles db user_id in
          if length roles < ROLES_CACHE_THRESHOLD then (roles, req\<lparr>req_roles := Some roles\<rparr>)
          else (stream_roles db user_id, req))"

definition depends_user_id :: "auth_token option \<Rightarrow> uuid option" where
  "depends_user_id token = map_option tok_user_id token"

definition depends_roles :: "auth_db \<Rightarrow> auth_token option \<Rightarrow> request \<Rightarrow> role list \<times> request" where
  "depends_roles db token req =
     (case token of None \<Rightarrow> ([], req) | Some t \<Rightarrow> iter_roles db (tok_user_id t) req)"

definition depends_role_ids :: "auth_db \<Rightarrow> auth_token option \<Rightarrow> request \<Rightarrow> uuid list \<times> request" where
  "depends_role_ids db token req =
     (case token of
        None \<Rightarrow> ([], req)
      | Some t \<Rightarrow>
          let (roles, req') = materialized_roles db (tok_user_id t) req in (map r_id roles, req'))"

definition restricting_role :: "auth_db \<Rightarrow> uuid \<Rightarrow> request \<Rightarrow> role option \<times> request" where
  "restricting_role db role_id req =
     (case req_restricting req of
        Some cached \<Rightarrow> (cached, req)
      | None \<Rightarrow>
          let r = List.find (\<lambda>r. r_id r = role_id) (db_roles db)
          in (r, req\<lparr>req_restricting := Some r\<rparr>))"

definition principal_groups :: "auth_db \<Rightarrow> uuid option \<Rightarrow> request \<Rightarrow> uuid set \<times> request" where
  "principal_groups db user_id req =
     (case user_id of
        None \<Rightarrow> ({}, req)
      | Some u \<Rightarrow>
          (case req_groups req of
             Some cached \<Rightarrow> (cached, req)
           | None \<Rightarrow>
               let gs = gu_group_id ` {m \<in> set (db_group_users db). gu_user_id m = u}
               in (gs, req\<lparr>req_groups := Some gs\<rparr>)))"

section \<open>The effective filter\<close>

definition combine :: "sfilter list \<Rightarrow> sfilter option" where
  "combine filters =
     (case filters of [] \<Rightarrow> None | [f] \<Rightarrow> Some f | _ \<Rightarrow> Some (OrSearchFilter filters))"

definition narrow_with_api_key_role ::
    "auth_db \<Rightarrow> sfilter \<Rightarrow> string \<Rightarrow> action \<Rightarrow> uuid option \<Rightarrow> request \<Rightarrow> auth_token option \<Rightarrow>
     sfilter option \<times> request" where
  "narrow_with_api_key_role db effective column action user_id req token =
     (case token of
        None \<Rightarrow> (Some effective, req)
      | Some t \<Rightarrow>
          (case tok_role_id t of
             None \<Rightarrow> (Some effective, req)
           | Some rid \<Rightarrow>
               let (restricting, req') = restricting_role db rid req in
               (case restricting of
                  None \<Rightarrow> (None, req')
                | Some r \<Rightarrow>
                    (case role_policy_for r column of
                       None \<Rightarrow> (None, req')
                     | Some policy \<Rightarrow>
                         let key_filter = to_search_filter policy user_id action {} in
                         if key_filter = NoneSearchFilter then (None, req')
                         else
                           let narrowed = and_filter [effective, key_filter] in
                           (if narrowed = NoneSearchFilter then None else Some narrowed, req')))))"

definition resolve_column_filter ::
    "auth_db \<Rightarrow> string \<Rightarrow> action \<Rightarrow> uuid option \<Rightarrow> uuid set \<Rightarrow> request \<Rightarrow> auth_token option \<Rightarrow>
     sfilter option \<times> request" where
  "resolve_column_filter db column action user_id groups req token =
     (let (roles, req') = depends_roles db token req;
          filters = List.map_filter (\<lambda>r. map_option (\<lambda>p. to_search_filter p user_id action groups)
                      (role_policy_for r column)) roles
      in case combine filters of
           None \<Rightarrow> (None, req')
         | Some effective \<Rightarrow>
             if effective = NoneSearchFilter then (None, req')
             else narrow_with_api_key_role db effective column action user_id req' token)"

definition resolve_permission_filter ::
    "registry \<Rightarrow> auth_db \<Rightarrow> string \<Rightarrow> action \<Rightarrow> request \<Rightarrow> auth_token option \<Rightarrow>
     sfilter option \<times> request" where
  "resolve_permission_filter reg db model_type action req token =
     (let user_id = depends_user_id token in
      case policy_attr_for reg model_type of
        None \<Rightarrow> (None, req)
      | Some column \<Rightarrow>
          let (groups, req') = principal_groups db user_id req
          in resolve_column_filter db column action user_id groups req' token)"

text \<open>The guard of a route: \<open>Inl 403\<close> is the \<open>HTTPException\<close>.\<close>

definition depends_permissions ::
    "registry \<Rightarrow> auth_db \<Rightarrow> string \<Rightarrow> action \<Rightarrow> request \<Rightarrow> auth_token option \<Rightarrow>
     (nat + sfilter) \<times> request" where
  "depends_permissions reg db model_type action req token =
     (let (effective, req') = resolve_permission_filter reg db model_type action req token
      in (case effective of None \<Rightarrow> Inl 403 | Some f \<Rightarrow> Inr f, req'))"

definition depends_permissions_or_none ::
    "registry \<Rightarrow> auth_db \<Rightarrow> string \<Rightarrow> action \<Rightarrow> request \<Rightarrow> auth_token option \<Rightarrow>
     sfilter option \<times> request" where
  "depends_permissions_or_none reg db model_type action req token =
     resolve_permission_filter reg db model_type action req token"

end
