(* ===== verification/AuthzLaws.thy ===== *)
theory AuthzLaws
  imports Authz
begin

text \<open>
  What the filter resolved by \<open>Authz\<close> means. \<open>allowed\<close> states the access rule without
  filters: some role of the principal grants the action on the item, and the role an API key
  carries grants it too. The resolved filter admits exactly the allowed items, in memory and in
  SQL; no filter (a 403) is resolved only when nothing is allowed; the request caches are
  invisible; an API key only narrows.
\<close>

section \<open>The access rule\<close>

definition member_groups :: "auth_db \<Rightarrow> uuid \<Rightarrow> uuid set" where
  "member_groups db u = {g. \<exists>m \<in> set (db_group_users db). gu_user_id m = u \<and> gu_group_id m = g}"

definition find_role :: "auth_db \<Rightarrow> uuid \<Rightarrow> role option" where
  "find_role db i = List.find (\<lambda>r. r_id r = i) (db_roles db)"

definition assigned :: "auth_db \<Rightarrow> uuid \<Rightarrow> role \<Rightarrow> bool" where
  "assigned db u r =
     (r \<in> set (db_roles db) \<and>
      (\<exists>ur \<in> set (db_user_roles db). ur_user_id ur = u \<and> ur_role_id ur = r_id r))"

definition user_grants :: "auth_db \<Rightarrow> uuid \<Rightarrow> string \<Rightarrow> action \<Rightarrow> item \<Rightarrow> bool" where
  "user_grants db u column a it =
     (\<exists>r p. assigned db u r \<and> r_policies r column = Some p \<and>
            admits p (Some u) a (member_groups db u) it)"

definition key_grants :: "auth_db \<Rightarrow> auth_token \<Rightarrow> string \<Rightarrow> action \<Rightarrow> item \<Rightarrow> bool" where
  "key_grants db t column a it =
     (\<forall>rid. tok_role_id t = Some rid \<longrightarrow>
        (\<exists>r p. find_role db rid = Some r \<and> r_policies r column = Some p \<and>
               admits p (Some (tok_user_id t)) a {} it))"

definition allowed :: "registry \<Rightarrow> auth_db \<Rightarrow> string \<Rightarrow> action \<Rightarrow> auth_token option \<Rightarrow> item \<Rightarrow> bool" where
  "allowed reg db model a token it =
     (\<exists>column t. map_of reg model = Some column \<and> token = Some t \<and>
        user_grants db (tok_user_id t) column a it \<and> key_grants db t column a it)"

text \<open>Rows on which every stored policy of the governing column is defined in both readings.\<close>

definition policies_ok :: "registry \<Rightarrow> auth_db \<Rightarrow> string \<Rightarrow> db \<Rightarrow> item \<Rightarrow> bool" where
  "policies_ok reg db model D it =
     (\<forall>column r p. map_of reg model = Some column \<longrightarrow> r \<in> set (db_roles db) \<longrightarrow>
        r_policies r column = Some p \<longrightarrow> row_ok D p it)"

text \<open>The caches hold what a fresh query would return.\<close>

definition cache_ok :: "auth_db \<Rightarrow> auth_token option \<Rightarrow> request \<Rightarrow> bool" where
  "cache_ok db token req =
     ((\<forall>rs. req_roles req = Some rs \<longrightarrow>
         (\<exists>t. token = Some t \<and> rs = load_roles db (tok_user_id t)) \<and>
         length rs < ROLES_CACHE_THRESHOLD) \<and>
      (\<forall>gs. req_groups req = Some gs \<longrightarrow>
         (\<exists>t. token = Some t \<and> gs = member_groups db (tok_user_id t))) \<and>
      (\<forall>r. req_restricting req = Some r \<longrightarrow>
         (\<exists>t rid. token = Some t \<and> tok_role_id t = Some rid \<and> r = find_role db rid)))"

lemma cache_ok_new [simp, intro]: "cache_ok db token new_request"
  by (simp add: cache_ok_def new_request_def)

section \<open>Cached lookups answer like fresh ones\<close>

lemma set_load_roles: "set (load_roles db u) = {r. assigned db u r}"
  by (auto simp: load_roles_def assigned_def)

lemma depends_roles_cached:
  assumes "cache_ok db token req"
  shows "fst (depends_roles db token req) =
           (case token of None \<Rightarrow> [] | Some t \<Rightarrow> load_roles db (tok_user_id t)) \<and>
         cache_ok db token (snd (depends_roles db token req))"
  using assms
  by (auto simp: depends_roles_def iter_roles_def stream_roles_def Let_def cache_ok_def
      split: option.splits)

lemma depends_role_ids_cached:
  assumes "cache_ok db token req"
  shows "cache_ok db token (snd (depends_role_ids db token req))"
  using assms
  by (auto simp: depends_role_ids_def materialized_roles_def Let_def cache_ok_def
      split: option.splits)

lemma principal_groups_cached:
  assumes "cache_ok db token req"
  shows "fst (principal_groups db (depends_user_id token) req) =
           (case token of None \<Rightarrow> {} | Some t \<Rightarrow> member_groups db (tok_user_id t)) \<and>
         cache_ok db token (snd (principal_groups db (depends_user_id token) req))"
  using assms
  by (auto simp: principal_groups_def depends_user_id_def member_groups_def Let_def cache_ok_def
      split: option.splits)

lemma restricting_role_cached:
  assumes "cache_ok db (Some t) req" "tok_role_id t = Some rid"
  shows "fst (restricting_role db rid req) = find_role db rid \<and>
         cache_ok db (Some t) (snd (restricting_role db rid req))"
  using assms
  by (auto simp: restricting_role_def find_role_def Let_def cache_ok_def split: option.splits)

section \<open>The resolved filter without the caches\<close>

definition role_filters :: "role list \<Rightarrow> string \<Rightarrow> uuid option \<Rightarrow> action \<Rightarrow> uuid set \<Rightarrow> sfilter list" where
  "role_filters rs column u a g =
     List.map_filter (\<lambda>r. map_option (\<lambda>p. to_search_filter p u a g) (r_policies r column)) rs"

definition narrowed :: "auth_db \<Rightarrow> sfilter \<Rightarrow> string \<Rightarrow> action \<Rightarrow> auth_token \<Rightarrow> sfilter option" where
  "narrowed db f column a t =
     (case tok_role_id t of
        None \<Rightarrow> Some f
      | Some rid \<Rightarrow>
          (case Option.bind (find_role db rid) (\<lambda>r. r_policies r column) of
             None \<Rightarrow> None
           | Some p \<Rightarrow>
               let k = to_search_filter p (Some (tok_user_id t)) a {};
                   n = and_filter [f, k]
               in if k = NoneSearchFilter \<or> n = NoneSearchFilter then None else Some n))"

definition resolved :: "registry \<Rightarrow> auth_db \<Rightarrow> string \<Rightarrow> action \<Rightarrow> auth_token option \<Rightarrow> sfilter option" where
  "resolved reg db model a token =
     (case (map_of reg model, token) of
        (Some column, Some t) \<Rightarrow>
          (case combine (role_filters (load_roles db (tok_user_id t)) column
                  (Some (tok_user_id t)) a (member_groups db (tok_user_id t))) of
             None \<Rightarrow> None
           | Some f \<Rightarrow> if f = NoneSearchFilter then None else narrowed db f column a t)
      | _ \<Rightarrow> None)"

lemma narrow_cached:
  assumes "cache_ok db (Some t) req"
  shows "fst (narrow_with_api_key_role db f column a (Some (tok_user_id t)) req (Some t)) =
           narrowed db f column a t \<and>
         cache_ok db (Some t)
           (snd (narrow_with_api_key_role db f column a (Some (tok_user_id t)) req (Some t)))"
proof (cases "tok_role_id t")
  case None
  then show ?thesis using assms by (simp add: narrow_with_api_key_role_def narrowed_def)
next
  case (Some rid)
  obtain r req' where rr: "restricting_role db rid req = (r, req')" by fastforce
  with restricting_role_cached [OF assms Some] have r: "r = find_role db rid" "cache_ok db (Some t) req'"
    by auto
  then show ?thesis
    by (simp add: narrow_with_api_key_role_def narrowed_def Some rr role_policy_for_def Let_def
        split: option.split bind_split)
qed

lemma resolve_cached:
  assumes "cache_ok db token req"
  shows "fst (resolve_permission_filter reg db m a req token) = resolved reg db m a token \<and>
         cache_ok db token (snd (resolve_permission_filter reg db m a req token))"
proof (cases "map_of reg m")
  case None
  then show ?thesis using assms
    by (simp add: resolve_permission_filter_def policy_attr_for_def resolved_def)
next
  case (Some column)
  obtain gs req1 where g: "principal_groups db (depends_user_id token) req = (gs, req1)" by fastforce
  with principal_groups_cached [OF assms]
  have gs: "gs = (case token of None \<Rightarrow> {} | Some t \<Rightarrow> member_groups db (tok_user_id t))"
    and c1: "cache_ok db token req1" by auto
  obtain rs req2 where r: "depends_roles db token req1 = (rs, req2)" by fastforce
  with depends_roles_cached [OF c1]
  have rs: "rs = (case token of None \<Rightarrow> [] | Some t \<Rightarrow> load_roles db (tok_user_id t))"
    and c2: "cache_ok db token req2" by auto
  note defs = resolve_permission_filter_def policy_attr_for_def Some Let_def resolve_column_filter_def
    resolved_def role_policy_for_def role_filters_def
  show ?thesis
  proof (cases token)
    case None
    then show ?thesis using c2 rs g r by (simp add: defs combine_def List.map_filter_simps)
  next
    case t: (Some t)
    have c2': "cache_ok db (Some t) req2" using c2 t by simp
    show ?thesis using c2 rs gs g r narrow_cached [OF c2'] t
      by (auto simp: defs depends_user_id_def split: option.split)
  qed
qed

lemmas resolve_fst = resolve_cached [THEN conjunct1]
lemmas resolve_snd = resolve_cached [THEN conjunct2]

section \<open>The resolved filter means the access rule\<close>

lemma map_filter_policies:
  "set (role_filters rs column u a g) =
     {to_search_filter p u a g | r p. r \<in> set rs \<and> r_policies r column = Some p}"
  by (auto simp: role_filters_def List.map_filter_def image_iff) force+

lemma combine_matches:
  assumes "combine fs = Some f" and "\<And>f. f \<in> set fs \<Longrightarrow> matches f it = Inr (P f)"
  shows "matches f it = Inr (\<exists>f \<in> set fs. P f)"
  using assms
  by (auto simp: combine_def or_matches_def any_results_Inr split: list.splits)

lemma combine_None: "combine fs = None \<longleftrightarrow> fs = []"
  by (simp add: combine_def split: list.split)

lemma combine_filter_ok:
  assumes "combine fs = Some f" and "\<And>f. f \<in> set fs \<Longrightarrow> filter_ok D f it"
  shows "filter_ok D f it"
  using assms by (auto simp: combine_def split: list.splits)

lemma role_filter_matches:
  assumes "f \<in> set (role_filters rs column u a g)"
  shows "\<exists>b. matches f it = Inr b"
  using assms by (auto simp: map_filter_policies policy_matches)

lemma combined_means_user_grants:
  assumes "combine (role_filters (load_roles db u) column (Some u) a (member_groups db u)) = Some f"
  shows "matches f it = Inr (user_grants db u column a it)"
proof -
  let ?fs = "role_filters (load_roles db u) column (Some u) a (member_groups db u)"
  have "matches f it = Inr (\<exists>f \<in> set ?fs. matches f it = Inr True)"
  proof (rule combine_matches [OF assms])
    fix f assume "f \<in> set ?fs"
    from role_filter_matches [OF this, of it] show "matches f it = Inr (matches f it = Inr True)"
      by (metis (full_types))
  qed
  also have "(\<exists>f \<in> set ?fs. matches f it = Inr True) = user_grants db u column a it"
    by (auto simp: map_filter_policies policy_matches user_grants_def set_load_roles)
      (metis policy_matches)
  finally show ?thesis .
qed

lemma no_combined_grants:
  "combine (role_filters (load_roles db u) column (Some u) a (member_groups db u)) = None \<Longrightarrow>
   \<not> user_grants db u column a it"
  by (auto simp: combine_None user_grants_def set_load_roles
      dest!: arg_cong [where f = set] simp: map_filter_policies)

lemma narrowed_means:
  assumes "matches f it = Inr b"
  shows "case narrowed db f column a t of
           None \<Rightarrow> \<not> (b \<and> key_grants db t column a it)
         | Some n \<Rightarrow> matches n it = Inr (b \<and> key_grants db t column a it)"
proof (cases "tok_role_id t")
  case None
  then show ?thesis using assms by (simp add: narrowed_def key_grants_def)
next
  case (Some rid)
  show ?thesis
  proof (cases "Option.bind (find_role db rid) (\<lambda>r. r_policies r column)")
    case None
    then show ?thesis using Some
      by (cases "find_role db rid") (auto simp: narrowed_def key_grants_def)
  next
    case p: (Some p)
    let ?k = "to_search_filter p (Some (tok_user_id t)) a {}"
    have k: "matches ?k it = Inr (key_grants db t column a it)"
      using Some p by (auto simp: policy_matches key_grants_def Option.bind_eq_Some_conv)
    have n: "matches (and_filter [f, ?k]) it = Inr (b \<and> key_grants db t column a it)"
      by (rule and_filter_matches) (simp add: and_matches_def assms k)
    show ?thesis using Some p k n by (auto simp: narrowed_def Let_def simp del: to_search_filter.simps)
  qed
qed

lemma resolved_means:
  "case resolved reg db m a token of
     None \<Rightarrow> \<not> allowed reg db m a token it
   | Some f \<Rightarrow> matches f it = Inr (allowed reg db m a token it)"
proof (cases "map_of reg m")
  case None
  then show ?thesis by (simp add: resolved_def allowed_def)
next
  case col: (Some column)
  show ?thesis
  proof (cases token)
    case None
    then show ?thesis by (simp add: resolved_def allowed_def col)
  next
    case tok: (Some t)
    let ?u = "tok_user_id t"
    let ?c = "combine (role_filters (load_roles db ?u) column (Some ?u) a (member_groups db ?u))"
    have al: "allowed reg db m a token it =
        (user_grants db ?u column a it \<and> key_grants db t column a it)"
      by (simp add: allowed_def col tok)
    show ?thesis
    proof (cases ?c)
      case None
      then show ?thesis using no_combined_grants [OF None] by (simp add: resolved_def col tok allowed_def)
    next
      case (Some f)
      note f = combined_means_user_grants [OF Some, of it]
      show ?thesis using narrowed_means [OF f, where db = db and column = column and a = a and t = t] f
        by (auto simp: resolved_def col tok Some al [unfolded tok] split: option.split)
    qed
  qed
qed

lemma resolved_filter_ok:
  assumes "resolved reg db m a token = Some f" and "policies_ok reg db m D it"
  shows "filter_ok D f it"
proof -
  obtain column t g where col: "map_of reg m = Some column" and tok: "token = Some t"
    and g: "combine (role_filters (load_roles db (tok_user_id t)) column
                  (Some (tok_user_id t)) a (member_groups db (tok_user_id t))) = Some g"
    and n: "narrowed db g column a t = Some f"
    using assms(1) by (auto simp: resolved_def split: option.splits if_splits)
  have pol: "row_ok D p it" if "r \<in> set (db_roles db)" "r_policies r column = Some p" for r p
    using assms(2) col that by (auto simp: policies_ok_def)
  have g_ok: "filter_ok D g it"
    using combine_filter_ok [OF g] pol
    by (auto simp: map_filter_policies set_load_roles assigned_def intro!: policy_filter_ok)
  show ?thesis
  proof (cases "tok_role_id t")
    case None
    then show ?thesis using n g_ok by (simp add: narrowed_def)
  next
    case (Some rid)
    then obtain p r where p: "find_role db rid = Some r" "r_policies r column = Some p"
      and f: "f = and_filter [g, to_search_filter p (Some (tok_user_id t)) a {}]"
      using n by (auto simp: narrowed_def Let_def Option.bind_eq_Some_conv split: option.splits if_splits)
    have "r \<in> set (db_roles db)"
      using p(1) by (auto simp: find_role_def find_Some_iff)
    then have "row_ok D p it" using pol p(2) by blast
    then show ?thesis using g_ok f by (auto intro!: and_filter_ok policy_filter_ok)
  qed
qed

section \<open>Properties\<close>

text \<open>C4. The effective filter is the access rule: for any request whose caches are coherent, the
  resolved filter answers on every item, in memory and (on the rows its policies are defined on)
  as a WHERE clause, exactly whether some role of the principal grants the action and the role of
  the API key grants it too; when no filter is resolved, nothing is allowed.\<close>

theorem effective_filter_correct:
  assumes "cache_ok db token req" and "sql_engine ev"
  shows "case fst (resolve_permission_filter reg db model a req token) of
      None \<Rightarrow> \<not> allowed reg db model a token it
    | Some f \<Rightarrow>
        matches f it = Inr (allowed reg db model a token it) \<and>
        (policies_ok reg db model D it \<longrightarrow>
           (\<exists>c. sql_condition f = Inr c \<and>
                where_holds ev D c (attrs it) = allowed reg db model a token it))"
proof (cases "resolved reg db model a token")
  case None
  then show ?thesis using resolved_means [of reg db model a token it] by (simp add: resolve_fst [OF assms(1)])
next
  case (Some f)
  have m: "matches f it = Inr (allowed reg db model a token it)"
    using resolved_means [of reg db model a token it] Some by simp
  have "\<exists>c. sql_condition f = Inr c \<and> where_holds ev D c (attrs it) = allowed reg db model a token it"
    if "policies_ok reg db model D it"
    using matches_iff_where_lib [OF assms(2) resolved_filter_ok [OF Some that]] m by auto
  then show ?thesis using m Some by (simp add: resolve_fst [OF assms(1)])
qed

definition witness_role :: role where
  "witness_role = \<lparr>r_id = 1, r_name = ''member'',
     r_policies = (\<lambda>c. if c = ''user_permission'' then Some (GroupPermission [5] ReadOnly Denied Denied) else None),
     r_created_at = 0, r_updated_at = 0\<rparr>"

definition witness_db :: auth_db where
  "witness_db = \<lparr>db_roles = [witness_role],
     db_user_roles = [\<lparr>ur_id = 2, ur_role_id = 1, ur_user_id = 7, ur_created_at = 0\<rparr>],
     db_group_users = [\<lparr>gu_id = 3, gu_group_id = 5, gu_user_id = 7, gu_creator_id = 7, gu_created_at = 0\<rparr>]\<rparr>"

definition witness_token :: "uuid option \<Rightarrow> auth_token" where
  "witness_token r = \<lparr>tok_id = 9, tok_user_id = 7, tok_created_at = 0, tok_updated_at = 0,
     tok_enabled = True, tok_expires_at = 10, tok_type = API_KEY, tok_scopes = {}, tok_role_id = r\<rparr>"

theorem effective_filter_correct_witness:
  "case fst (resolve_permission_filter [(''User'', ''user_permission'')] witness_db ''User'' READ
        new_request (Some (witness_token None))) of
      None \<Rightarrow> False
    | Some f \<Rightarrow> matches f (plain_item (\<lambda>_. VNone)) = Inr True"
proof -
  have "allowed [(''User'', ''user_permission'')] witness_db ''User'' READ (Some (witness_token None))
          (plain_item (\<lambda>_. VNone))"
    by (simp add: allowed_def witness_db_def witness_token_def witness_role_def user_grants_def
        key_grants_def assigned_def member_groups_def)
  then show ?thesis
    using effective_filter_correct [OF cache_ok_new ref.sql_engine_axioms,
        where reg = "[(''User'', ''user_permission'')]" and db = witness_db and model = "''User''"
          and a = READ and token = "Some (witness_token None)" and it = "plain_item (\<lambda>_. VNone)"
          and D = "\<lambda>_. []"]
    by (auto split: option.splits)
qed

text \<open>An API key only narrows: whatever the filter resolved for a key admits, the filter
  resolved for the same principal without the key's restricting role admits as well; and a key
  whose restricting role is gone, or has no policy for the resource, is denied.\<close>

theorem api_key_only_narrows:
  "(\<forall>f. fst (resolve_permission_filter reg db model a new_request (Some t)) = Some f \<and>
        matches f it = Inr True \<longrightarrow>
      (\<exists>g. fst (resolve_permission_filter reg db model a new_request
                  (Some (t\<lparr>tok_role_id := None\<rparr>))) = Some g \<and> matches g it = Inr True)) \<and>
   (\<forall>rid. tok_role_id t = Some rid \<and>
        (\<forall>r \<in> set (db_roles db). r_id r = rid \<longrightarrow>
           (\<forall>column. policy_attr_for reg model = Some column \<longrightarrow> role_policy_for r column = None)) \<longrightarrow>
      fst (resolve_permission_filter reg db model a new_request (Some t)) = None)"
proof (intro conjI allI impI)
  fix f assume f: "fst (resolve_permission_filter reg db model a new_request (Some t)) = Some f \<and>
    matches f it = Inr True"
  then have "allowed reg db model a (Some t) it"
    using resolved_means [of reg db model a "Some t" it] by (simp add: resolve_fst)
  then have "allowed reg db model a (Some (t\<lparr>tok_role_id := None\<rparr>)) it"
    by (auto simp: allowed_def key_grants_def)
  then show "\<exists>g. fst (resolve_permission_filter reg db model a new_request
      (Some (t\<lparr>tok_role_id := None\<rparr>))) = Some g \<and> matches g it = Inr True"
    using resolved_means [of reg db model a "Some (t\<lparr>tok_role_id := None\<rparr>)" it]
    by (auto simp: resolve_fst split: option.splits)
next
  fix rid assume r: "tok_role_id t = Some rid \<and>
        (\<forall>r \<in> set (db_roles db). r_id r = rid \<longrightarrow>
           (\<forall>column. policy_attr_for reg model = Some column \<longrightarrow> role_policy_for r column = None))"
  then show "fst (resolve_permission_filter reg db model a new_request (Some t)) = None"
    by (auto simp: resolve_fst resolved_def narrowed_def policy_attr_for_def role_policy_for_def
        find_role_def find_Some_iff Let_def Option.bind_eq_Some_conv split: option.splits)
qed

theorem api_key_only_narrows_witness:
  "fst (resolve_permission_filter [(''User'', ''user_permission'')] witness_db ''User'' READ
      new_request (Some (witness_token (Some 4)))) = None"
  using api_key_only_narrows [of "[(''User'', ''user_permission'')]" witness_db "''User''" READ
      "witness_token (Some 4)"]
  by (simp add: witness_db_def witness_role_def witness_token_def)

text \<open>The requests a handler can see: dependencies resolve against one request state in any order.\<close>

inductive reachable_request :: "registry \<Rightarrow> auth_db \<Rightarrow> auth_token option \<Rightarrow> request \<Rightarrow> bool"
  for reg db token where
  fresh: "reachable_request reg db token new_request"
| role_ids: "reachable_request reg db token req \<Longrightarrow>
    reachable_request reg db token (snd (depends_role_ids db token req))"
| guard: "reachable_request reg db token req \<Longrightarrow>
    reachable_request reg db token (snd (depends_permissions reg db m a req token))"
| batch: "reachable_request reg db token req \<Longrightarrow>
    reachable_request reg db token (snd (depends_permissions_or_none reg db m a req token))"

lemma reachable_cache_ok: "reachable_request reg db token req \<Longrightarrow> cache_ok db token req"
proof (induction rule: reachable_request.induct)
  case fresh
  then show ?case by simp
next
  case (role_ids req)
  then show ?case by (simp add: depends_role_ids_cached)
next
  case (guard req m a)
  then show ?case using resolve_snd [OF guard.IH]
    by (simp add: depends_permissions_def Let_def split: prod.split) (metis snd_conv)
next
  case (batch req m a)
  then show ?case using resolve_snd [OF batch.IH] by (simp add: depends_permissions_or_none_def)
qed

text \<open>The per-request caches are invisible: in any request state that dependencies have left
  behind, in any order, the guard of a route answers as it does on a fresh request, and never
  caches a role list of the threshold's size or more.\<close>

theorem caches_transparent:
  assumes "reachable_request reg db token req"
  shows "fst (depends_permissions reg db model a req token) =
           fst (depends_permissions reg db model a new_request token) \<and>
         fst (depends_permissions_or_none reg db model a req token) =
           fst (depends_permissions_or_none reg db model a new_request token) \<and>
         (\<forall>rs. req_roles req = Some rs \<longrightarrow> length rs < ROLES_CACHE_THRESHOLD)"
proof -
  note c = reachable_cache_ok [OF assms]
  show ?thesis using c resolve_fst [OF c, of reg model a] resolve_fst [OF cache_ok_new, of reg db model a token]
    by (auto simp: depends_permissions_def depends_permissions_or_none_def cache_ok_def
        case_prod_unfold Let_def)
qed

theorem caches_transparent_witness:
  "fst (depends_permissions [(''User'', ''user_permission'')] witness_db ''User'' READ
      (snd (depends_role_ids witness_db (Some (witness_token None)) new_request)) (Some (witness_token None))) =
   fst (depends_permissions [(''User'', ''user_permission'')] witness_db ''User'' READ
      new_request (Some (witness_token None)))"
  using caches_transparent [OF reachable_request.role_ids [OF reachable_request.fresh],
      where reg = "[(''User'', ''user_permission'')]" and db = witness_db and model = "''User''"
        and a = READ and token = "Some (witness_token None)"]
  by simp

text \<open>Two corners of the resolution. The groups of the principal are not passed to the policy
  of a key's restricting role, so a \<open>GroupPermission\<close> there always takes its \<open>on_mismatch\<close>
  branch, whatever groups the principal is in. And a principal with two or more roles whose
  policies all deny is not stopped with a 403: a filter that admits nothing is returned.\<close>

theorem resolution_corners:
  "(a \<noteq> CREATE \<and> tok_role_id t = Some rid \<and> find_role db rid = Some r \<and>
      policy_attr_for reg model = Some column \<and>
      role_policy_for r column = Some (GroupPermission ids Permitted Denied c) \<longrightarrow>
      fst (depends_permissions reg db model a new_request (Some t)) = Inl 403) \<and>
   (policy_attr_for reg model = Some column \<and> tok_role_id t = None \<and>
      2 \<le> length (load_roles db (tok_user_id t)) \<and>
      (\<forall>r \<in> set (load_roles db (tok_user_id t)). role_policy_for r column = Some Denied) \<longrightarrow>
      (\<exists>f. fst (depends_permissions reg db model a new_request (Some t)) = Inr f \<and>
           (\<forall>it. matches f it = Inr False)))"
proof (intro conjI impI, goal_cases)
  case 1
  then show ?case
    by (auto simp: depends_permissions_def case_prod_unfold Let_def resolve_fst resolved_def
        narrowed_def policy_attr_for_def role_policy_for_def filter_defs split: option.splits)
next
  case 2
  let ?rs = "load_roles db (tok_user_id t)"
  have f: "role_filters ?rs column u a g = map (\<lambda>_. NoneSearchFilter) ?rs" for u g
    using 2 by (auto simp: role_filters_def role_policy_for_def List.map_filter_def filter_defs
        intro!: filter_True)
  obtain x y zs where rs: "?rs = x # y # zs" using 2 by (cases ?rs; cases "tl ?rs") auto
  have "resolved reg db model a (Some t) = Some (OrSearchFilter (map (\<lambda>_. NoneSearchFilter) ?rs))"
    using 2 by (simp add: resolved_def policy_attr_for_def f [unfolded rs] combine_def rs narrowed_def)
  then show ?case
    by (auto simp: depends_permissions_def case_prod_unfold Let_def resolve_fst or_matches_def o_def)
qed

theorem resolution_corners_witness:
  "fst (depends_permissions [(''User'', ''user_permission'')]
      (witness_db\<lparr>db_roles := [witness_role\<lparr>r_policies := (\<lambda>_. Some (GroupPermission [5] Permitted Denied Denied))\<rparr>]\<rparr>)
      ''User'' READ new_request (Some (witness_token (Some 1)))) = Inl 403"
  using resolution_corners [of READ "witness_token (Some 1)" 1
      "witness_db\<lparr>db_roles := [witness_role\<lparr>r_policies := (\<lambda>_. Some (GroupPermission [5] Permitted Denied Denied))\<rparr>]\<rparr>"
      "witness_role\<lparr>r_policies := (\<lambda>_. Some (GroupPermission [5] Permitted Denied Denied))\<rparr>"
      "[(''User'', ''user_permission'')]" "''User''" "''user_permission''" "[5]" Denied]
  by (simp add: witness_token_def witness_role_def find_role_def policy_attr_for_def
      role_policy_for_def)

end
