(* ===== verification/AclPrune.thy ===== *)
theory AclPrune
  imports AuthzLaws
begin

text \<open>
  The background job of \<open>security/acl_prune_service.py\<close>: it drops from the stored
  \<open>AclPermission\<close> policies the ids of items that no longer exist. Pruning must not change what
  any role grants on an item that does exist, and one pass must be enough. The ids of an ACL are uuids; the one governed
  model with a text as its key makes the job fail.
\<close>

section \<open>The service\<close>

text \<open>\<open>_build_column_to_model_map\<close>: the dict of the registry, reversed.\<close>

definition build_column_to_model_map :: "registry \<Rightarrow> string \<Rightarrow> string option" where
  "build_column_to_model_map reg =
     fold (\<lambda>(model, column) mapping. mapping(column \<mapsto> model)) reg (\<lambda>_. None)"

text \<open>
  The ids of an ACL are uuids. The registered models have a uuid as their primary key, except
  \<open>FeatureFlag\<close>, whose key is a text (\<open>feature_flag_models.py\<close>): the driver refuses to encode a uuid
  as a parameter of the type text, and the \<open>DataError\<close> ends the job.
\<close>

datatype prune_error = PruneDataError

definition TEXT_KEYED :: "string list" where
  "TEXT_KEYED = [''FeatureFlag'']"

definition entity_ids_exist :: "db \<Rightarrow> string \<Rightarrow> uuid list \<Rightarrow> prune_error + uuid set" where
  "entity_ids_exist D model ids =
     (if ids = [] then Inr {}
      else if model \<in> set TEXT_KEYED then Inl PruneDataError
      else Inr {i \<in> set ids. \<exists>r \<in> set (D model). r ''id'' = VUuid i})"

text \<open>The id list of a policy after pruning, and whether it changed.\<close>

definition prune_policy :: "db \<Rightarrow> string \<Rightarrow> uuid list \<Rightarrow> prune_error + uuid list \<times> bool" where
  "prune_policy D model item_ids =
     (if item_ids = [] then Inr (item_ids, False)
      else bindR (entity_ids_exist D model item_ids) (\<lambda>existing.
        let orphaned = set item_ids - existing
        in if orphaned = {} then Inr (item_ids, False)
           else Inr (filter (\<lambda>i. i \<notin> orphaned) item_ids, True)))"

text \<open>The body of the inner loop, for one column of one role, and the loop.\<close>

definition prune_column :: "db \<Rightarrow> (string \<Rightarrow> string option) \<Rightarrow> string \<Rightarrow> role \<Rightarrow> prune_error + role \<times> bool" where
  "prune_column D column_to_model column r =
     (case (r_policies r column, column_to_model column) of
        (Some (AclPermission ids m x cr), Some model) \<Rightarrow>
          bindR (prune_policy D model ids) (\<lambda>(ids', changed).
            if changed then Inr (r\<lparr>r_policies := (r_policies r)(column \<mapsto> AclPermission ids' m x cr)\<rparr>, True)
            else Inr (r, False))
      | _ \<Rightarrow> Inr (r, False))"

fun prune_columns :: "db \<Rightarrow> (string \<Rightarrow> string option) \<Rightarrow> string list \<Rightarrow> role \<Rightarrow> prune_error + role \<times> bool" where
  "prune_columns D column_to_model [] r = Inr (r, False)"
| "prune_columns D column_to_model (column # columns) r =
     bindR (prune_column D column_to_model column r) (\<lambda>(r1, c1).
     bindR (prune_columns D column_to_model columns r1) (\<lambda>(r2, c2).
       Inr (r2, c1 \<or> c2)))"

text \<open>The loop over the roles; a flushed row gets its \<open>updated_at\<close> set by \<open>onupdate\<close>.\<close>

fun prune_roles ::
    "db \<Rightarrow> (string \<Rightarrow> string option) \<Rightarrow> datetime \<Rightarrow> role list \<Rightarrow> prune_error + role list \<times> nat" where
  "prune_roles D column_to_model now [] = Inr ([], 0)"
| "prune_roles D column_to_model now (r # rs) =
     bindR (prune_columns D column_to_model ROLE_ENTITY_COLUMNS r) (\<lambda>(r', changed).
     bindR (prune_roles D column_to_model now rs) (\<lambda>(rs', n).
       Inr (if changed then (r'\<lparr>r_updated_at := now\<rparr> # rs', Suc n) else (r' # rs', n))))"

text \<open>The job commits once, at its end: an error leaves nothing behind.\<close>

definition prune_orphaned_acl_ids :: "registry \<Rightarrow> db \<Rightarrow> datetime \<Rightarrow> auth_db \<Rightarrow> prune_error + auth_db \<times> nat" where
  "prune_orphaned_acl_ids reg D now db =
     bindR (prune_roles D (build_column_to_model_map reg) now (db_roles db)) (\<lambda>(roles, pruned_count).
       Inr (db\<lparr>db_roles := roles\<rparr>, pruned_count))"

section \<open>The registry and its reverse\<close>

lemma build_map_of: "build_column_to_model_map reg = map_of (rev (map (\<lambda>(m, c). (c, m)) reg))"
proof -
  have "fold (\<lambda>(m, c) f. f(c \<mapsto> m)) reg f = f ++ map_of (rev (map (\<lambda>(m, c). (c, m)) reg))"
    for f :: "string \<Rightarrow> string option"
    by (induction reg arbitrary: f) (auto simp: map_add_def fun_eq_iff split: option.splits)
  from this [of Map.empty] show ?thesis unfolding build_column_to_model_map_def by simp
qed

lemma registrations_shape:
  "distinct (map fst registrations)" "distinct (map snd registrations)"
  "set (map snd registrations) = set ROLE_ENTITY_COLUMNS" "distinct ROLE_ENTITY_COLUMNS"
  by (simp_all add: registrations_def ROLE_ENTITY_COLUMNS_def)

lemma update_fresh: "k \<notin> set (map fst al) \<Longrightarrow> AList.update k v al = al @ [(k, v)]"
  by (induction al) auto

lemma register_all_fresh:
  assumes "snd ` set rs \<subseteq> set ROLE_ENTITY_COLUMNS" "distinct (map fst (reg @ rs))"
  shows "register_all rs reg = Inr (reg @ rs)"
  using assms
proof (induction rs arbitrary: reg)
  case Nil
  then show ?case by simp
next
  case (Cons x rs)
  obtain m c where x: "x = (m, c)" by (cases x)
  have "m \<notin> set (map fst reg)" using Cons.prems(2) by (auto simp: x)
  then show ?case using Cons.IH [of "reg @ [(m, c)]"] Cons.prems
    by (simp add: x register_resource_policy_def update_fresh)
qed

lemma resource_policy: "RESOURCE_POLICY = Inr registrations"
proof -
  have "snd ` set registrations \<subseteq> set ROLE_ENTITY_COLUMNS" using registrations_shape(3) by simp
  moreover have "distinct (map fst ([] @ registrations))" using registrations_shape(1) by simp
  ultimately show ?thesis unfolding RESOURCE_POLICY_def by (simp only: register_all_fresh append_Nil)
qed

lemma column_model_inverse:
  assumes "distinct (map fst reg)" "distinct (map snd reg)"
  shows "build_column_to_model_map reg column = Some model \<longleftrightarrow> map_of reg model = Some column"
proof -
  have "distinct (map fst (rev (map (\<lambda>(m, c). (c, m)) reg)))"
    using assms(2) by (simp add: rev_map [symmetric] o_def case_prod_unfold)
  then have "build_column_to_model_map reg column = Some model \<longleftrightarrow> (model, column) \<in> set reg"
    unfolding build_map_of by (force simp: map_of_eq_Some_iff)
  also have "\<dots> \<longleftrightarrow> map_of reg model = Some column"
    using assms(1) by (simp add: map_of_eq_Some_iff)
  finally show ?thesis .
qed

text \<open>The registry of governed resources: importing the module registers all 26 resources
  without error, every permission column of a role governs exactly one of them, the reversed map
  of the pruning job is its inverse, and a column that a role does not have is rejected.\<close>

theorem registry_governs_every_column:
  "\<exists>reg. RESOURCE_POLICY = Inr reg \<and> length reg = 26 \<and> distinct (map fst reg) \<and>
     (\<forall>column \<in> set ROLE_ENTITY_COLUMNS. \<exists>!model. policy_attr_for reg model = Some column) \<and>
     (\<forall>model column. build_column_to_model_map reg column = Some model \<longleftrightarrow>
        policy_attr_for reg model = Some column) \<and>
     (\<forall>model column. column \<notin> set ROLE_ENTITY_COLUMNS \<longrightarrow>
        register_resource_policy model column reg = Inl ValueErr)"
proof (intro exI [of _ registrations] conjI ballI allI impI)
  fix column assume "column \<in> set ROLE_ENTITY_COLUMNS"
  then obtain model where "(model, column) \<in> set registrations"
    using registrations_shape(3) by force
  moreover have "\<And>m. map_of registrations m = Some column \<longleftrightarrow> (m, column) \<in> set registrations"
    using registrations_shape(1) by (simp add: map_of_eq_Some_iff)
  moreover have "inj_on snd (set registrations)"
    using registrations_shape(2) by (simp add: distinct_map)
  ultimately show "\<exists>!model. policy_attr_for registrations model = Some column"
    unfolding policy_attr_for_def by (metis inj_onD prod.inject snd_conv)
qed (simp_all add: resource_policy registrations_shape column_model_inverse policy_attr_for_def
      register_resource_policy_def, simp add: registrations_def)

theorem registry_governs_every_column_witness:
  "\<exists>reg. RESOURCE_POLICY = Inr reg \<and>
     register_resource_policy ''Widget'' ''widget_permission'' reg = Inl ValueErr"
proof -
  have "''widget_permission'' \<notin> set ROLE_ENTITY_COLUMNS" by (simp add: ROLE_ENTITY_COLUMNS_def)
  then show ?thesis using registry_governs_every_column by blast
qed

section \<open>One pass\<close>

definition alive :: "db \<Rightarrow> string \<Rightarrow> uuid \<Rightarrow> bool" where
  "alive D model i = (\<exists>r \<in> set (D model). r ''id'' = VUuid i)"

lemma prune_policy_eq:
  "prune_policy D model ids =
     (if model \<in> set TEXT_KEYED \<and> ids \<noteq> [] then Inl PruneDataError
      else Inr (filter (alive D model) ids, \<not> (\<forall>i \<in> set ids. alive D model i)))"
proof -
  let ?existing = "{i \<in> set ids. \<exists>r \<in> set (D model). r ''id'' = VUuid i}"
  have "filter (\<lambda>i. i \<notin> set ids - ?existing) ids = filter (alive D model) ids"
    by (rule filter_cong [OF refl]) (auto simp: alive_def)
  moreover have "set ids - ?existing = {} \<longleftrightarrow> (\<forall>i \<in> set ids. alive D model i)" by (auto simp: alive_def)
  ultimately show ?thesis by (auto simp: prune_policy_def entity_ids_exist_def Let_def)
qed

text \<open>A policy that ends the job, and what the job makes of the others.\<close>

definition text_keyed_acl :: "string option \<Rightarrow> permission option \<Rightarrow> bool" where
  "text_keyed_acl model p =
     (case (p, model) of (Some (AclPermission ids m x c), Some t) \<Rightarrow> t \<in> set TEXT_KEYED \<and> ids \<noteq> [] | _ \<Rightarrow> False)"

definition pruned :: "db \<Rightarrow> string option \<Rightarrow> permission option \<Rightarrow> permission option" where
  "pruned D model p =
     (case (p, model) of
        (Some (AclPermission ids m x c), Some t) \<Rightarrow>
          Some (AclPermission (filter (alive D t) ids) m x c)
      | _ \<Rightarrow> p)"

lemma pruned_idem [simp]: "pruned D t (pruned D t p) = pruned D t p"
  by (auto simp: pruned_def split: option.split permission.split)

lemma pruned_text_keyed [simp]: "\<not> text_keyed_acl t p \<Longrightarrow> \<not> text_keyed_acl t (pruned D t p)"
  by (auto simp: pruned_def text_keyed_acl_def split: option.splits permission.splits)

lemma pruned_text_same: "t \<in> set TEXT_KEYED \<Longrightarrow> \<not> text_keyed_acl (Some t) p \<Longrightarrow> pruned D (Some t) p = p"
  by (auto simp: pruned_def text_keyed_acl_def split: option.splits permission.splits)

lemma prune_column_eq:
  "prune_column D ctm column r =
   (if text_keyed_acl (ctm column) (r_policies r column) then Inl PruneDataError
    else Inr (r\<lparr>r_policies := (r_policies r)(column := pruned D (ctm column) (r_policies r column))\<rparr>,
      pruned D (ctm column) (r_policies r column) \<noteq> r_policies r column))"
  by (auto simp: prune_column_def pruned_def text_keyed_acl_def prune_policy_eq filter_id_conv fun_upd_idem
      split: option.split permission.split bool.split)

lemma prune_columns_eq:
  assumes "distinct columns"
  shows "prune_columns D ctm columns r =
     (if \<exists>c \<in> set columns. text_keyed_acl (ctm c) (r_policies r c) then Inl PruneDataError
      else Inr (r\<lparr>r_policies := (\<lambda>c. if c \<in> set columns then pruned D (ctm c) (r_policies r c) else r_policies r c)\<rparr>,
        \<exists>c \<in> set columns. pruned D (ctm c) (r_policies r c) \<noteq> r_policies r c))"
  using assms
proof (induction columns arbitrary: r)
  case Nil
  then show ?case by simp
next
  case (Cons column columns)
  let ?r1 = "r\<lparr>r_policies := (r_policies r)(column := pruned D (ctm column) (r_policies r column))\<rparr>"
  have other: "r_policies ?r1 c = r_policies r c" if "c \<in> set columns" for c using that Cons.prems by auto
  have a: "(\<lambda>c. if c \<in> set columns then pruned D (ctm c) (r_policies ?r1 c) else r_policies ?r1 c) =
      (\<lambda>c. if c \<in> set (column # columns) then pruned D (ctm c) (r_policies r c) else r_policies r c)"
    using Cons.prems by auto
  have b: "(\<exists>c \<in> set columns. pruned D (ctm c) (r_policies ?r1 c) \<noteq> r_policies ?r1 c) =
      (\<exists>c \<in> set columns. pruned D (ctm c) (r_policies r c) \<noteq> r_policies r c)"
    and e: "(\<exists>c \<in> set columns. text_keyed_acl (ctm c) (r_policies ?r1 c)) =
      (\<exists>c \<in> set columns. text_keyed_acl (ctm c) (r_policies r c))"
    using other by metis+
  have ih: "prune_columns D ctm columns ?r1 =
      (if \<exists>c \<in> set columns. text_keyed_acl (ctm c) (r_policies r c) then Inl PruneDataError
       else Inr (r\<lparr>r_policies :=
      (\<lambda>c. if c \<in> set (column # columns) then pruned D (ctm c) (r_policies r c) else r_policies r c)\<rparr>,
      \<exists>c \<in> set columns. pruned D (ctm c) (r_policies r c) \<noteq> r_policies r c))"
    using Cons.IH [of ?r1] Cons.prems unfolding a b e by simp
  show ?case
    by (cases "text_keyed_acl (ctm column) (r_policies r column)")
      (simp_all only: prune_columns.simps prune_column_eq ih bindR.simps if_True if_False prod.case list.set bex_simps, auto)
qed

abbreviation aborts :: "(string \<Rightarrow> string option) \<Rightarrow> role \<Rightarrow> bool" where
  "aborts ctm r \<equiv> (\<exists>c \<in> set ROLE_ENTITY_COLUMNS. text_keyed_acl (ctm c) (r_policies r c))"

abbreviation touched :: "db \<Rightarrow> (string \<Rightarrow> string option) \<Rightarrow> role \<Rightarrow> bool" where
  "touched D ctm r \<equiv> (\<exists>c \<in> set ROLE_ENTITY_COLUMNS. pruned D (ctm c) (r_policies r c) \<noteq> r_policies r c)"

definition prune_role :: "db \<Rightarrow> (string \<Rightarrow> string option) \<Rightarrow> datetime \<Rightarrow> role \<Rightarrow> role" where
  "prune_role D ctm now r =
     (let r' = r\<lparr>r_policies := (\<lambda>c. if c \<in> set ROLE_ENTITY_COLUMNS then pruned D (ctm c) (r_policies r c) else r_policies r c)\<rparr>
      in if touched D ctm r then r'\<lparr>r_updated_at := now\<rparr> else r')"

lemma prune_roles_eq:
  "prune_roles D ctm now rs =
     (if \<exists>r \<in> set rs. aborts ctm r then Inl PruneDataError
      else Inr (map (prune_role D ctm now) rs, length (filter (touched D ctm) rs)))"
  by (induction rs) (simp_all add: prune_columns_eq [OF registrations_shape(4)] prune_role_def Let_def)

lemma prune_role_policies:
  "r_policies (prune_role D ctm now r) c =
     (if c \<in> set ROLE_ENTITY_COLUMNS then pruned D (ctm c) (r_policies r c) else r_policies r c)"
  by (simp add: prune_role_def Let_def)

lemma prune_role_again: "prune_role D ctm later (prune_role D ctm now r) = prune_role D ctm now r"
proof -
  have "\<not> touched D ctm (prune_role D ctm now r)" by (simp add: prune_role_policies)
  then show ?thesis
    unfolding prune_role_def [of _ _ later] by (simp add: prune_role_policies Let_def fun_eq_iff role.equality)
qed

lemma pruned_admits:
  assumes "t = None \<or> (\<exists>i. attrs it ''id'' = VUuid i \<and> alive D (the t) i)"
  shows "map_option (\<lambda>p. f (admits p u a g it)) (pruned D t p) = map_option (\<lambda>p. f (admits p u a g it)) p"
  using assms by (auto simp: pruned_def listed_def split: option.split permission.split)

text \<open>The job as a whole, and what a policy read by its model becomes.\<close>

lemma prune_orphaned_eq:
  "prune_orphaned_acl_ids reg D now db =
     (if \<exists>r \<in> set (db_roles db). aborts (build_column_to_model_map reg) r then Inl PruneDataError
      else Inr (db\<lparr>db_roles := map (prune_role D (build_column_to_model_map reg) now) (db_roles db)\<rparr>,
        length (filter (touched D (build_column_to_model_map reg)) (db_roles db))))"
  by (simp add: prune_orphaned_acl_ids_def prune_roles_eq)

lemma governed_column:
  assumes "policy_attr_for registrations model = Some column"
  shows "build_column_to_model_map registrations column = Some model" "column \<in> set ROLE_ENTITY_COLUMNS"
proof -
  show "build_column_to_model_map registrations column = Some model"
    using assms column_model_inverse [OF registrations_shape(1,2)] by (simp add: policy_attr_for_def)
  have "(model, column) \<in> set registrations" using assms by (simp add: policy_attr_for_def map_of_SomeD)
  then show "column \<in> set ROLE_ENTITY_COLUMNS" using registrations_shape(3) by force
qed

lemma aborts_iff:
  "aborts (build_column_to_model_map registrations) r \<longleftrightarrow>
     (\<exists>model column ids m x c. policy_attr_for registrations model = Some column \<and> model \<in> set TEXT_KEYED \<and>
        role_policy_for r column = Some (AclPermission ids m x c) \<and> ids \<noteq> [])" (is "?l \<longleftrightarrow> ?r")
proof
  assume ?l
  then obtain column where "text_keyed_acl (build_column_to_model_map registrations column) (r_policies r column)" by blast
  then obtain model ids m x c where "build_column_to_model_map registrations column = Some model" "model \<in> set TEXT_KEYED"
    "r_policies r column = Some (AclPermission ids m x c)" "ids \<noteq> []"
    by (auto simp: text_keyed_acl_def split: option.splits permission.splits)
  moreover then have "policy_attr_for registrations model = Some column"
    using column_model_inverse [OF registrations_shape(1,2)] by (simp add: policy_attr_for_def)
  ultimately show ?r unfolding role_policy_for_def by blast
next
  assume ?r
  then obtain model column ids m x c where p: "policy_attr_for registrations model = Some column" "model \<in> set TEXT_KEYED"
    "r_policies r column = Some (AclPermission ids m x c)" "ids \<noteq> []"
    unfolding role_policy_for_def by blast
  then have "text_keyed_acl (build_column_to_model_map registrations column) (r_policies r column)"
    by (simp add: text_keyed_acl_def governed_column [OF p(1)])
  then show ?l using governed_column(2) [OF p(1)] by blast
qed

lemma pruned_role_policy:
  assumes "policy_attr_for registrations model = Some column"
  shows "role_policy_for (prune_role D (build_column_to_model_map registrations) now r) column =
    pruned D (Some model) (role_policy_for r column)"
  by (simp add: role_policy_for_def prune_role_policies governed_column [OF assms])

lemma pruned_list_exists:
  assumes "\<not> text_keyed_acl (Some model) p" "pruned D (Some model) p = Some (AclPermission ids m x c)"
  shows "entity_ids_exist D model ids = Inr (set ids)"
  using assms
  by (auto simp: pruned_def text_keyed_acl_def entity_ids_exist_def alive_def filter_empty_conv split: option.splits permission.splits)

text \<open>C5. Pruning is invisible and complete where it gets through, and one ACL on feature flags
  stops it. The job fails, and commits nothing, exactly when some role holds a non-empty
  top-level ACL under the column of a model whose key is a text. Otherwise, on every item that exists in the
  governed table, each role grants after a pass exactly what it granted before, under every registered column,
  principal, action and set of groups, and the policies of a text-keyed model are as they were; no list of a
  top-level ACL keeps an id that does not exist; a second pass changes nothing and reports zero roles.\<close>

theorem prune_preserves_access:
  assumes "RESOURCE_POLICY = Inr reg"
  shows "(prune_orphaned_acl_ids reg D now db = Inl PruneDataError \<longleftrightarrow>
      (\<exists>r \<in> set (db_roles db). \<exists>model column ids m x c.
         policy_attr_for reg model = Some column \<and> model \<in> set TEXT_KEYED \<and>
         role_policy_for r column = Some (AclPermission ids m x c) \<and> ids \<noteq> [])) \<and>
    (\<forall>db' n. prune_orphaned_acl_ids reg D now db = Inr (db', n) \<longrightarrow>
      length (db_roles db') = length (db_roles db) \<and> n \<le> length (db_roles db) \<and>
      (\<forall>k < length (db_roles db). \<forall>model column it i u a g.
         policy_attr_for reg model = Some column \<longrightarrow> attrs it ''id'' = VUuid i \<longrightarrow>
         entity_ids_exist D model [i] = Inr {i} \<longrightarrow>
         map_option (\<lambda>p. matches (to_search_filter p u a g) it) (role_policy_for (db_roles db' ! k) column) =
         map_option (\<lambda>p. matches (to_search_filter p u a g) it) (role_policy_for (db_roles db ! k) column)) \<and>
      (\<forall>k < length (db_roles db). \<forall>model \<in> set TEXT_KEYED. \<forall>column.
         policy_attr_for reg model = Some column \<longrightarrow>
         role_policy_for (db_roles db' ! k) column = role_policy_for (db_roles db ! k) column) \<and>
      (\<forall>r \<in> set (db_roles db'). \<forall>model column ids m x c.
         policy_attr_for reg model = Some column \<longrightarrow>
         role_policy_for r column = Some (AclPermission ids m x c) \<longrightarrow>
         entity_ids_exist D model ids = Inr (set ids)) \<and>
      prune_orphaned_acl_ids reg D later db' = Inr (db', 0))"
proof -
  have reg: "reg = registrations" using assms(1) unfolding resource_policy by simp
  let ?ctm = "build_column_to_model_map registrations"
  show ?thesis
  proof (cases "\<exists>r \<in> set (db_roles db). aborts ?ctm r")
    case True
    then show ?thesis using aborts_iff unfolding reg prune_orphaned_eq by auto
  next
    case False
    then have stops: "\<not> (\<exists>r \<in> set (db_roles db). \<exists>model column ids m x c.
         policy_attr_for registrations model = Some column \<and> model \<in> set TEXT_KEYED \<and>
         role_policy_for r column = Some (AclPermission ids m x c) \<and> ids \<noteq> [])"
      using aborts_iff by metis
    have keep: "\<not> text_keyed_acl (Some model) (role_policy_for r column)"
      if "r \<in> set (db_roles db)" "policy_attr_for registrations model = Some column" for r model column
      using False that governed_column [OF that(2)] unfolding role_policy_for_def by metis
    let ?db = "db\<lparr>db_roles := map (prune_role D ?ctm now) (db_roles db)\<rparr>"
    have job: "prune_orphaned_acl_ids registrations D now db = Inr (?db, length (filter (touched D ?ctm) (db_roles db)))"
      using False by (simp add: prune_orphaned_eq)
    have again: "prune_orphaned_acl_ids registrations D later ?db = Inr (?db, 0)"
      using False by (simp add: prune_orphaned_eq prune_role_again prune_role_policies o_def filter_empty_conv)
    have access: "map_option (\<lambda>p. matches (to_search_filter p u a g) it) (role_policy_for (db_roles ?db ! k) column) =
         map_option (\<lambda>p. matches (to_search_filter p u a g) it) (role_policy_for (db_roles db ! k) column)"
      if "k < length (db_roles db)" "policy_attr_for registrations model = Some column" "attrs it ''id'' = VUuid i"
        "entity_ids_exist D model [i] = Inr {i}" for k model column it i u a g
    proof -
      have "\<exists>i. attrs it ''id'' = VUuid i \<and> alive D (the (Some model)) i"
        using that(3,4) by (auto simp: entity_ids_exist_def alive_def split: if_splits)
      from pruned_admits [OF disjI2 [OF this], where f = Inr] show ?thesis
        using that(1) by (simp add: pruned_role_policy [OF that(2)] policy_matches)
    qed
    have same: "role_policy_for (db_roles ?db ! k) column = role_policy_for (db_roles db ! k) column"
      if "k < length (db_roles db)" "model \<in> set TEXT_KEYED" "policy_attr_for registrations model = Some column" for k model column
      using that by (simp add: pruned_role_policy [OF that(3)] pruned_text_same keep)
    have clean: "entity_ids_exist D model ids = Inr (set ids)"
      if "r \<in> set (db_roles db)" "policy_attr_for registrations model = Some column"
        "role_policy_for (prune_role D ?ctm now r) column = Some (AclPermission ids m x c)" for r model column ids m x c
      using that(3) pruned_list_exists [OF keep [OF that(1,2)]] by (simp add: pruned_role_policy [OF that(2)])
    show ?thesis unfolding reg job using stops again access same clean by auto
  qed
qed

text \<open>A role with a list on every column but the one of the feature flags, and one with a list on all.\<close>

theorem prune_preserves_access_witness:
  "(\<exists>db' n. prune_orphaned_acl_ids registrations (\<lambda>_. [(\<lambda>_. VUuid 1)]) 5
       (witness_db\<lparr>db_roles := [witness_role\<lparr>r_policies :=
          (\<lambda>c. if c = ''feature_flag_permission'' then None else Some (AclPermission [1, 2] Permitted Denied Denied))\<rparr>]\<rparr>) = Inr (db', n) \<and>
     prune_orphaned_acl_ids registrations (\<lambda>_. [(\<lambda>_. VUuid 1)]) 6 db' = Inr (db', 0)) \<and>
   prune_orphaned_acl_ids registrations (\<lambda>_. [(\<lambda>_. VUuid 1)]) 5
       (witness_db\<lparr>db_roles := [witness_role\<lparr>r_policies :=
          (\<lambda>c. Some (AclPermission [1, 2] Permitted Denied Denied))\<rparr>]\<rparr>) = Inl PruneDataError"
proof (rule conjI)
  have flags: "policy_attr_for registrations model = Some column \<and> model \<in> set TEXT_KEYED \<longleftrightarrow>
      model = ''FeatureFlag'' \<and> column = ''feature_flag_permission''" for model column
    by (auto simp: policy_attr_for_def registrations_def TEXT_KEYED_def)
  let ?db = "\<lambda>p. witness_db\<lparr>db_roles := [witness_role\<lparr>r_policies := p\<rparr>]\<rparr>"
  let ?some = "\<lambda>c. if c = ''feature_flag_permission'' then None else Some (AclPermission [1, 2] Permitted Denied Denied)"
  let ?all = "\<lambda>c. Some (AclPermission [1, 2] Permitted Denied Denied)"
  note pass = prune_preserves_access [OF resource_policy, where D = "\<lambda>_. [(\<lambda>_. VUuid 1)]" and now = 5]
  have "prune_orphaned_acl_ids registrations (\<lambda>_. [(\<lambda>_. VUuid 1)]) 5 (?db ?some) \<noteq> Inl PruneDataError"
  proof
    assume "prune_orphaned_acl_ids registrations (\<lambda>_. [(\<lambda>_. VUuid 1)]) 5 (?db ?some) = Inl PruneDataError"
    then obtain model column ids m x c where "policy_attr_for registrations model = Some column" "model \<in> set TEXT_KEYED"
      "role_policy_for (witness_role\<lparr>r_policies := ?some\<rparr>) column = Some (AclPermission ids m x c)"
      using pass [of "?db ?some"] by auto
    then show False using flags [of model column] by (simp add: role_policy_for_def)
  qed
  then obtain db' n where e: "prune_orphaned_acl_ids registrations (\<lambda>_. [(\<lambda>_. VUuid 1)]) 5 (?db ?some) = Inr (db', n)"
    by (cases "prune_orphaned_acl_ids registrations (\<lambda>_. [(\<lambda>_. VUuid 1)]) 5 (?db ?some)") (auto intro: prune_error.exhaust)
  then show "\<exists>db' n. prune_orphaned_acl_ids registrations (\<lambda>_. [(\<lambda>_. VUuid 1)]) 5 (?db ?some) = Inr (db', n) \<and>
     prune_orphaned_acl_ids registrations (\<lambda>_. [(\<lambda>_. VUuid 1)]) 6 db' = Inr (db', 0)"
    using pass [of "?db ?some"] by blast
  show "prune_orphaned_acl_ids registrations (\<lambda>_. [(\<lambda>_. VUuid 1)]) 5 (?db ?all) = Inl PruneDataError"
    using pass [of "?db ?all"] flags [of "''FeatureFlag''" "''feature_flag_permission''"] by (auto simp: role_policy_for_def)
qed

end
