(* ===== verification/Encoding.thy ===== *)
theory Encoding
  imports PyVal
begin

text \<open>
  Facts about the positional notations the code prints and parses: digits in any base, the
  hexadecimal text of a UUID, and the seconds of a timestamp.
\<close>

section \<open>Digits\<close>

lemma num_of_digits_append: "num_of_digits b (ds @ [d]) = num_of_digits b ds * b + d"
  by (simp add: num_of_digits_def)

lemma num_of_digits_of: "2 \<le> b \<Longrightarrow> num_of_digits b (digits_of b n) = n"
proof (induction b n rule: digits_of.induct)
  case (1 b n)
  show ?case
  proof (cases "n < b")
    case True
    then show ?thesis by (subst digits_of.simps) (simp add: num_of_digits_def)
  next
    case False
    have "digits_of b n = digits_of b (n div b) @ [n mod b]"
      using False 1(2) by (subst digits_of.simps) simp
    then show ?thesis using 1 False by (simp add: num_of_digits_append)
  qed
qed

lemma digits_of_bound: "2 \<le> b \<Longrightarrow> d \<in> set (digits_of b n) \<Longrightarrow> d < b"
proof (induction b n rule: digits_of.induct)
  case (1 b n)
  show ?case
  proof (cases "n < b")
    case True
    then show ?thesis using 1(3) by (subst (asm) digits_of.simps) simp
  next
    case False
    then have "d \<in> set (digits_of b (n div b)) \<or> d = n mod b"
      using 1(2,3) by (subst (asm) digits_of.simps) auto
    then show ?thesis using 1 False by auto
  qed
qed

lemma digits_of_length:
  "2 \<le> b \<Longrightarrow> n < b ^ k \<Longrightarrow> 0 < k \<Longrightarrow> length (digits_of b n) \<le> k"
proof (induction b n arbitrary: k rule: digits_of.induct)
  case (1 b n)
  show ?case
  proof (cases "n < b")
    case True
    then show ?thesis using 1(4) by (subst digits_of.simps) simp
  next
    case False
    have k: "1 < k" using 1(3,4) False by (cases "k = 1") auto
    have "n div b < b ^ (k - 1)"
      using 1(3) k 1(2) by (intro less_mult_imp_div_less) (cases k; simp add: mult.commute)
    then have "length (digits_of b (n div b)) \<le> k - 1"
      using 1(1) [of "k - 1"] 1(2) False k by simp
    then show ?thesis using False 1(2) k by (subst digits_of.simps) simp
  qed
qed

lemma digits_of_not_Nil: "digits_of b n \<noteq> []"
  by (subst digits_of.simps) simp

lemma digits_of_inj: "2 \<le> b \<Longrightarrow> digits_of b m = digits_of b n \<Longrightarrow> m = n"
  by (metis num_of_digits_of)

section \<open>UUID text\<close>

lemma num_of_hex_digits: "num_of_digits 16 (hex_digits k n) = n mod 16 ^ k"
proof (induction k arbitrary: n)
  case 0
  then show ?case by (simp add: hex_digits_def num_of_digits_def)
next
  case (Suc k)
  have "hex_digits (Suc k) n = hex_digits k (n div 16) @ [n mod 16]"
  proof -
    have "n div 16 ^ (k - i) = n div 16 div 16 ^ (k - 1 - i)" if "i < k" for i
    proof -
      have "k - i = Suc (k - 1 - i)" using that by simp
      then show ?thesis by (simp add: div_mult2_eq)
    qed
    then show ?thesis by (simp add: hex_digits_def)
  qed
  then show ?case using Suc.IH [of "n div 16"] 
    by (simp add: num_of_digits_append mod_mult2_eq mult.commute add.commute)
qed

lemma hex_digits_bound: "d \<in> set (hex_digits k n) \<Longrightarrow> d < 16"
  by (auto simp: hex_digits_def)

lemma length_hex_digits [simp]: "length (hex_digits k n) = k"
  by (simp add: hex_digits_def)

lemma hex_char:
  assumes "d < 16"
  shows "hex_value (digit_char d) = Some d \<and>
    digit_char d \<notin> {CHR ''u'', CHR ''{'', CHR ''}'', CHR ''-''}"
proof -
  have v: "hex_value (digit_char d) = Some d"
    using assms by (auto simp: hex_value_def digit_char_def Let_def)
  moreover have "hex_value CHR ''u'' = None" "hex_value CHR ''{'' = None" "hex_value CHR ''}'' = None"
    "hex_value CHR ''-'' = None"
    by (simp_all add: hex_value_def)
  ultimately show ?thesis by force
qed

lemma hex_values:
  "(\<And>d. d \<in> set ds \<Longrightarrow> d < 16) \<Longrightarrow> List.map_filter hex_value (map digit_char ds) = ds"
  by (induction ds) (auto simp: List.map_filter_simps hex_char)

lemma uuid_hex_chars:
  "c \<in> set (uuid_hex u) \<Longrightarrow> c \<notin> {CHR ''u'', CHR ''{'', CHR ''}'', CHR ''-''}"
  using hex_char hex_digits_bound unfolding uuid_hex_def by fastforce

lemma length_uuid_hex [simp]: "length (uuid_hex u) = 32"
  by (simp add: uuid_hex_def)

lemma uuid_str_chars: "c \<in> set (uuid_str u) \<Longrightarrow> c \<notin> {CHR ''u'', CHR ''{'', CHR ''}''}"
proof -
  assume "c \<in> set (uuid_str u)"
  then have "c \<in> set (uuid_hex u) \<or> c = CHR ''-''"
    unfolding uuid_str_def Let_def by (auto dest: in_set_takeD in_set_dropD)
  then show ?thesis using uuid_hex_chars by force
qed

lemma uuid_str_unhyphen: "filter (\<lambda>c. c \<noteq> CHR ''-'') (uuid_str u) = uuid_hex u"
proof -
  let ?h = "uuid_hex u"
  have f: "filter (\<lambda>c. c \<noteq> CHR ''-'') s = s" if "set s \<subseteq> set ?h" for s
    using that uuid_hex_chars by (force intro: filter_True)
  have h: "?h = take 8 ?h @ take 4 (drop 8 ?h) @ take 4 (drop 12 ?h) @ take 4 (drop 16 ?h) @ drop 20 ?h"
    using append_take_drop_id [of 8 ?h] append_take_drop_id [of 4 "drop 8 ?h"]
      append_take_drop_id [of 4 "drop 12 ?h"] append_take_drop_id [of 4 "drop 16 ?h"]
    by (simp add: drop_drop)
  have s: "set (take n s) \<subseteq> set s" "set (drop n s) \<subseteq> set s" for n and s :: string
    by (simp_all add: set_take_subset set_drop_subset)
  have "filter (\<lambda>c. c \<noteq> CHR ''-'') (uuid_str u) =
      take 8 ?h @ take 4 (drop 8 ?h) @ take 4 (drop 12 ?h) @ take 4 (drop 16 ?h) @ drop 20 ?h"
    unfolding uuid_str_def Let_def
    by (simp add: f [OF subset_trans [OF s(1) s(2)]] f [OF s(1)] f [OF s(2)])
  then show ?thesis using h by simp
qed

lemma drop_all_absent: "x \<notin> set s \<Longrightarrow> drop_all (x # pat) s = s"
  by (induction s) auto

lemma dropWhile_none: "(\<And>c. c \<in> set s \<Longrightarrow> \<not> P c) \<Longrightarrow> dropWhile P s = s"
  by (induction s) auto

text \<open>Printing a UUID and parsing the text gives the UUID back.\<close>

lemma uuid_parse_str [simp]: "uuid_parse (uuid_str u) = Some u"
proof -
  have u: "CHR ''u'' \<notin> set (uuid_str u)" using uuid_str_chars by blast
  have b: "dropWhile (\<lambda>c. c = CHR ''{'' \<or> c = CHR ''}'') s = s" if "set s \<subseteq> set (uuid_str u)" for s
    using that uuid_str_chars by (intro dropWhile_none) force
  have m: "List.map_filter hex_value (uuid_hex u) = hex_digits 32 (unat u)"
    unfolding uuid_hex_def by (rule hex_values) (rule hex_digits_bound)
  have n: "unat u < 16 ^ 32" using unsigned_less [of u, where 'a = nat] by simp
  show ?thesis
    using n by (simp add: uuid_parse_def drop_all_absent u b uuid_str_unhyphen m num_of_hex_digits)
qed

lemma uuid_str_inj [simp]: "uuid_str u = uuid_str v \<longleftrightarrow> u = v"
  by (metis option.inject uuid_parse_str)

section \<open>Timestamps\<close>

text \<open>\<open>int(t.timestamp())\<close>: whole seconds, truncated towards zero.\<close>

definition epoch :: "datetime \<Rightarrow> int" where
  "epoch t = (if 0 \<le> t then t div 1000000 else - ((- t) div 1000000))"

text \<open>\<open>datetime.fromtimestamp(s, tz=UTC)\<close>.\<close>

definition from_epoch :: "int \<Rightarrow> datetime" where
  "from_epoch s = s * 1000000"

abbreviation seconds :: "int \<Rightarrow> int" where
  "seconds s \<equiv> s * 1000000"

lemma from_epoch_epoch: "0 \<le> t \<Longrightarrow> from_epoch (epoch t) \<le> t \<and> t < from_epoch (epoch t) + seconds 1"
  unfolding epoch_def from_epoch_def by presburger

end
