(* ===== verification/Encryption.thy ===== *)
theory Encryption
  imports Encoding Sql "HOL-Library.AList" "HOL-Library.Countable"
begin

text \<open>
  The encryption service of \<open>encryption/encryption_service.py\<close>: signed (JWS) and encrypted (JWE)
  tokens under a key named by its id, and decryption under any configured key, which is what makes
  key rotation possible. The cryptographic libraries are parameters: \<open>crypto\<close> bundles what the
  code calls, \<open>crypto_ok\<close> what it relies on.
\<close>

section \<open>The libraries\<close>

text \<open>
  A payload is a Python dict with string keys, in insertion order. The library functions include
  the JSON encoding around them. \<open>jwe_header\<close> is the \<open>kid\<close> read by \<open>extract_compact\<close>: the outer
  \<open>None\<close> is a malformed token, the inner one a header without \<open>kid\<close>.
\<close>

type_synonym payload = "(string \<times> pyval) list"

record crypto =
  jwe_encrypt :: "string \<Rightarrow> string \<Rightarrow> nat \<Rightarrow> payload \<Rightarrow> string"   \<comment> \<open>kid, key, nonce, plaintext\<close>
  jwe_header :: "string \<Rightarrow> string option option"
  jwe_decrypt :: "string \<Rightarrow> string \<Rightarrow> payload option"               \<comment> \<open>key, token\<close>
  jws_encode :: "string \<Rightarrow> string \<Rightarrow> payload \<Rightarrow> string"            \<comment> \<open>kid, secret, claims\<close>
  jws_header :: "string \<Rightarrow> string option option"
  jws_decode :: "string \<Rightarrow> datetime \<Rightarrow> string \<Rightarrow> payload option"   \<comment> \<open>secret, clock, token\<close>
  sha256_hex :: "string \<Rightarrow> string"

fun json_value :: "pyval \<Rightarrow> bool" where
  "json_value (VUuid _) = False"
| "json_value (VTime _ _) = False"
| "json_value (VList vs) = list_all json_value vs"
| "json_value _ = True"

definition json_ok :: "payload \<Rightarrow> bool" where
  "json_ok p = list_all (\<lambda>(k, v). json_value v) p"

text \<open>
  Documented behaviour: the header carries the key id that was used, decryption under the same
  key gives the plaintext back, a JWE never looks like an API key (it starts with the base64 of a
  JSON object), and a signature verified under its own secret yields the claims while the clock
  is in the window of \<open>iat\<close> and \<open>exp\<close>, and an error after it.
\<close>

definition crypto_ok :: "crypto \<Rightarrow> bool" where
  "crypto_ok C =
     ((\<forall>kid k n p. jwe_header C (jwe_encrypt C kid k n p) = Some (Some kid)) \<and>
      (\<forall>kid k n p. json_ok p \<longrightarrow> jwe_decrypt C k (jwe_encrypt C kid k n p) = Some p) \<and>
      (\<forall>kid k n p. take 3 (jwe_encrypt C kid k n p) = ''eyJ'') \<and>
      (\<forall>kid k p. jws_header C (jws_encode C kid k p) = Some (Some kid)) \<and>
      (\<forall>kid k p t i e. json_ok p \<longrightarrow> map_of p ''iat'' = Some (VInt i) \<longrightarrow> map_of p ''exp'' = Some (VInt e) \<longrightarrow>
         jws_decode C k t (jws_encode C kid k p) =
           (if from_epoch i \<le> t \<and> t < from_epoch e then Some p else None)))"

section \<open>The service\<close>

datatype enc_error = EncPyErr pyerr | JwtInvalidTokenError

record key_config =
  kc_id :: string
  kc_value :: string

text \<open>The validator of \<open>AppConfig\<close> that puts the encryption key among the decryption keys.\<close>

definition ensure_encryption_key :: "key_config \<Rightarrow> key_config list \<Rightarrow> key_config list" where
  "ensure_encryption_key key decryption_keys =
     (if \<not> (\<exists>k \<in> set decryption_keys. kc_id k = kc_id key) then key # decryption_keys
      else decryption_keys)"

record enc_service =
  es_key :: key_config
  es_decryption_keys :: "string \<Rightarrow> key_config option"

definition encryption_service :: "key_config \<Rightarrow> key_config list \<Rightarrow> enc_service" where
  "encryption_service key decryption_keys =
     \<lparr>es_key = key, es_decryption_keys = dict_by kc_id decryption_keys\<rparr>"

definition get_decryption_key :: "enc_service \<Rightarrow> string \<Rightarrow> enc_error + key_config" where
  "get_decryption_key svc key_id =
     (case es_decryption_keys svc key_id of
        None \<Rightarrow> Inl (EncPyErr ValueErr)
      | Some k \<Rightarrow> Inr k)"

definition derive_symmetric_key :: "crypto \<Rightarrow> string \<Rightarrow> string" where
  "derive_symmetric_key C secret = sha256_hex C secret"

definition create_jws_token ::
    "crypto \<Rightarrow> enc_service \<Rightarrow> datetime \<Rightarrow> payload \<Rightarrow> int option \<Rightarrow> enc_error + string" where
  "create_jws_token C svc now payload expires_in =
     (let ttl = (case expires_in of None \<Rightarrow> seconds 3600 | Some e \<Rightarrow> e);
          jwt_payload = AList.update ''exp'' (VInt (epoch (now + ttl)))
                          (AList.update ''iat'' (VInt (epoch now)) payload)
      in if json_ok jwt_payload
         then Inr (jws_encode C (kc_id (es_key svc)) (kc_value (es_key svc)) jwt_payload)
         else Inl (EncPyErr TypeErr))"

definition verify_jws_token :: "crypto \<Rightarrow> enc_service \<Rightarrow> datetime \<Rightarrow> string \<Rightarrow> enc_error + payload" where
  "verify_jws_token C svc now token =
     (case jws_header C token of
        None \<Rightarrow> Inl (EncPyErr ValueErr)
      | Some kid \<Rightarrow>
          let key_id = (case kid of
                None \<Rightarrow> kc_id (es_key svc)
              | Some i \<Rightarrow> if i = [] then kc_id (es_key svc) else i)
          in bindR (get_decryption_key svc key_id) (\<lambda>key.
               case jws_decode C (kc_value key) now token of
                 None \<Rightarrow> Inl JwtInvalidTokenError
               | Some p \<Rightarrow> Inr p))"

definition create_jwe_token ::
    "crypto \<Rightarrow> enc_service \<Rightarrow> datetime \<Rightarrow> nat \<Rightarrow> payload \<Rightarrow> int option \<Rightarrow> enc_error + string" where
  "create_jwe_token C svc now nonce payload expires_in =
     (let p1 = AList.update ''iat'' (VInt (epoch now)) payload;
          p2 = (case expires_in of
                  None \<Rightarrow> p1
                | Some e \<Rightarrow> AList.update ''exp'' (VInt (epoch (now + e))) p1);
          symmetric_key = derive_symmetric_key C (kc_value (es_key svc))
      in if json_ok p2 then Inr (jwe_encrypt C (kc_id (es_key svc)) symmetric_key nonce p2)
         else Inl (EncPyErr TypeErr))"

definition decrypt_jwe_token :: "crypto \<Rightarrow> enc_service \<Rightarrow> string \<Rightarrow> enc_error + payload" where
  "decrypt_jwe_token C svc token =
     (case jwe_header C token of
        None \<Rightarrow> Inl (EncPyErr ValueErr)
      | Some None \<Rightarrow> Inl (EncPyErr ValueErr)
      | Some (Some key_id) \<Rightarrow>
          if key_id = [] then Inl (EncPyErr ValueErr)
          else bindR (get_decryption_key svc key_id) (\<lambda>key.
            case jwe_decrypt C (derive_symmetric_key C (kc_value key)) token of
              None \<Rightarrow> Inl (EncPyErr ValueErr)
            | Some p \<Rightarrow> Inr p))"

definition encrypt_value :: "crypto \<Rightarrow> enc_service \<Rightarrow> datetime \<Rightarrow> nat \<Rightarrow> string \<Rightarrow> enc_error + string" where
  "encrypt_value C svc now nonce plaintext =
     create_jwe_token C svc now nonce [(''v'', VStr plaintext)] None"

definition decrypt_value :: "crypto \<Rightarrow> enc_service \<Rightarrow> string \<Rightarrow> enc_error + string" where
  "decrypt_value C svc ciphertext =
     bindR (decrypt_jwe_token C svc ciphertext) (\<lambda>payload.
       case map_of payload ''v'' of
         None \<Rightarrow> Inl (EncPyErr (KeyErr ''v''))
       | Some v \<Rightarrow> (case py_str v of Inl e \<Rightarrow> Inl (EncPyErr e) | Inr s \<Rightarrow> Inr s))"

section \<open>Laws\<close>

lemma json_ok_update [simp]:
  "json_value v \<Longrightarrow> json_ok p \<Longrightarrow> json_ok (AList.update k v p)"
proof (induction p)
  case Nil
  then show ?case by (simp add: json_ok_def)
next
  case (Cons x p)
  then show ?case by (cases x; cases "k = fst x") (simp_all add: json_ok_def)
qed

lemma crypto_header [simp]: "crypto_ok C \<Longrightarrow> jwe_header C (jwe_encrypt C kid k n p) = Some (Some kid)"
  by (simp add: crypto_ok_def)

lemma crypto_decrypt [simp]:
  "crypto_ok C \<Longrightarrow> json_ok p \<Longrightarrow> jwe_decrypt C k (jwe_encrypt C kid k n p) = Some p"
  unfolding crypto_ok_def by blast

text \<open>Two services share a key: what the first encrypts the second can decrypt.\<close>

definition shares_key :: "enc_service \<Rightarrow> enc_service \<Rightarrow> bool" where
  "shares_key svc svc' =
     (kc_id (es_key svc) \<noteq> [] \<and>
      (\<exists>k. es_decryption_keys svc' (kc_id (es_key svc)) = Some k \<and> kc_value k = kc_value (es_key svc)))"

text \<open>The claims of a minted token, as a lookup.\<close>

definition minted_claims :: "datetime \<Rightarrow> payload \<Rightarrow> int option \<Rightarrow> string \<Rightarrow> pyval option" where
  "minted_claims now payload expires_in k =
     (if k = ''exp'' \<and> expires_in \<noteq> None then Some (VInt (epoch (now + the expires_in)))
      else if k = ''iat'' then Some (VInt (epoch now))
      else map_of payload k)"

lemma create_decrypt:
  assumes "crypto_ok C" "shares_key svc svc'" "json_ok payload"
  shows "\<exists>token p. create_jwe_token C svc now nonce payload expires_in = Inr token \<and>
    take 3 token = ''eyJ'' \<and>
    decrypt_jwe_token C svc' token = Inr p \<and> map_of p = minted_claims now payload expires_in"
proof -
  let ?p1 = "AList.update ''iat'' (VInt (epoch now)) payload"
  let ?p = "case expires_in of None \<Rightarrow> ?p1 | Some e \<Rightarrow> AList.update ''exp'' (VInt (epoch (now + e))) ?p1"
  let ?t = "jwe_encrypt C (kc_id (es_key svc)) (derive_symmetric_key C (kc_value (es_key svc))) nonce ?p"
  obtain k where k: "kc_id (es_key svc) \<noteq> []"
    "es_decryption_keys svc' (kc_id (es_key svc)) = Some k" "kc_value k = kc_value (es_key svc)"
    using assms(2) by (auto simp: shares_key_def)
  have j: "json_ok ?p" using assms(3) by (simp split: option.split)
  have "create_jwe_token C svc now nonce payload expires_in = Inr ?t"
    unfolding create_jwe_token_def Let_def using j by (simp only: if_True)
  moreover have "decrypt_jwe_token C svc' ?t = Inr ?p"
    using assms(1) k j by (simp add: decrypt_jwe_token_def get_decryption_key_def)
  moreover have "map_of ?p = minted_claims now payload expires_in"
    by (auto simp: minted_claims_def update_conv' fun_eq_iff split: option.split)
  moreover have "take 3 ?t = ''eyJ''" using assms(1) unfolding crypto_ok_def by blast
  ultimately show ?thesis by blast
qed

lemma shares_own_key:
  assumes "kc_id key \<noteq> []" and "\<And>k. k \<in> set ks \<Longrightarrow> kc_id k = kc_id key \<Longrightarrow> kc_value k = kc_value key"
  shows "shares_key (encryption_service key ks0) (encryption_service key' (ensure_encryption_key key ks))"
proof -
  let ?ks = "ensure_encryption_key key ks"
  have "kc_id key \<in> kc_id ` set ?ks"
    unfolding ensure_encryption_key_def by (cases "\<exists>k \<in> set ks. kc_id k = kc_id key") (auto intro: rev_image_eqI)
  then obtain k where k: "dict_by kc_id ?ks (kc_id key) = Some k"
    using dict_by_None_iff [of kc_id ?ks "kc_id key"] by (cases "dict_by kc_id ?ks (kc_id key)") auto
  then have "k \<in> set ?ks" "kc_id k = kc_id key" by (auto dest: dict_by_SomeD)
  then have "kc_value k = kc_value key"
    using assms(2) by (auto simp: ensure_encryption_key_def split: if_splits)
  then show ?thesis using assms(1) k by (simp add: shares_key_def encryption_service_def)
qed

section \<open>A reference instance of the libraries\<close>

text \<open>Tokens are numbered pairs of header, key and claims: enough to check that the laws can hold.\<close>

instance pyval :: countable
  by countable_datatype

definition ref_token :: "string \<Rightarrow> string \<Rightarrow> payload \<Rightarrow> string" where
  "ref_token kid k p = ''eyJ'' @ replicate (to_nat (kid, k, p)) (CHR ''a'')"

definition ref_parts :: "string \<Rightarrow> string \<times> string \<times> payload" where
  "ref_parts token = from_nat (length token - 3)"

lemma ref_parts_token [simp]: "ref_parts (ref_token kid k p) = (kid, k, p)"
  by (simp add: ref_parts_def ref_token_def)

lemma take_ref_token [simp]: "take 3 (ref_token kid k p) = ''eyJ''"
  by (simp add: ref_token_def)

definition ref_window :: "datetime \<Rightarrow> payload \<Rightarrow> bool" where
  "ref_window t p =
     (case (map_of p ''iat'', map_of p ''exp'') of
        (Some (VInt i), Some (VInt e)) \<Rightarrow> from_epoch i \<le> t \<and> t < from_epoch e
      | _ \<Rightarrow> True)"

definition ref_crypto :: crypto where
  "ref_crypto =
     \<lparr>jwe_encrypt = (\<lambda>kid k n p. ref_token kid k p),
      jwe_header = (\<lambda>token. Some (Some (fst (ref_parts token)))),
      jwe_decrypt = (\<lambda>k token. case ref_parts token of (_, k', p) \<Rightarrow> if k' = k then Some p else None),
      jws_encode = ref_token,
      jws_header = (\<lambda>token. Some (Some (fst (ref_parts token)))),
      jws_decode = (\<lambda>k t token. case ref_parts token of
         (_, k', p) \<Rightarrow> if k' = k \<and> ref_window t p then Some p else None),
      sha256_hex = (\<lambda>s. s)\<rparr>"

lemma ref_crypto_ok [simp]: "crypto_ok ref_crypto"
  by (auto simp: crypto_ok_def ref_crypto_def ref_window_def)

section \<open>Properties\<close>

text \<open>C6. Key rotation: a token created under one configuration is decrypted under every
  configuration that still lists that key with the same secret, giving the caller's claims plus
  the minting time and expiry; an encrypted value comes back unchanged; once the key id is gone,
  decryption is a \<open>ValueError\<close>; and the configuration's validator makes a service able to read
  its own tokens, unless another secret is listed under its key's id.\<close>

theorem key_rotation:
  assumes "crypto_ok C" and "shares_key svc svc'"
  shows "(json_ok payload \<longrightarrow>
      (\<exists>token p. create_jwe_token C svc now nonce payload expires_in = Inr token \<and>
         decrypt_jwe_token C svc' token = Inr p \<and>
         map_of p ''iat'' = Some (VInt (epoch now)) \<and>
         (\<forall>e. expires_in = Some e \<longrightarrow> map_of p ''exp'' = Some (VInt (epoch (now + e)))) \<and>
         (\<forall>k. k \<noteq> ''iat'' \<and> k \<noteq> ''exp'' \<longrightarrow> map_of p k = map_of payload k))) \<and>
    bindR (encrypt_value C svc now nonce s) (decrypt_value C svc') = Inr s \<and>
    (\<forall>gone. es_decryption_keys gone (kc_id (es_key svc)) = None \<longrightarrow>
       bindR (encrypt_value C svc now nonce s) (decrypt_value C gone) = Inl (EncPyErr ValueErr)) \<and>
    (\<forall>key ks. kc_id key \<noteq> [] \<longrightarrow>
       (\<forall>k \<in> set ks. kc_id k = kc_id key \<longrightarrow> kc_value k = kc_value key) \<longrightarrow>
       (let own = encryption_service key (ensure_encryption_key key ks)
        in bindR (encrypt_value C own now nonce s) (decrypt_value C own) = Inr s))"
proof (intro conjI allI impI)
  have v: "bindR (encrypt_value C a now nonce s) (decrypt_value C b) = Inr s"
    if ab: "shares_key a b" for a b
  proof -
    have j: "json_ok [(''v'', VStr s)]" by (simp add: json_ok_def)
    show ?thesis
      using create_decrypt [OF assms(1) ab j, of now nonce None]
      by (auto simp: encrypt_value_def decrypt_value_def minted_claims_def)
  qed
  show "bindR (encrypt_value C svc now nonce s) (decrypt_value C svc') = Inr s"
    by (rule v [OF assms(2)])
  show "let own = encryption_service key (ensure_encryption_key key ks)
        in bindR (encrypt_value C own now nonce s) (decrypt_value C own) = Inr s"
    if "kc_id key \<noteq> []" "\<forall>k \<in> set ks. kc_id k = kc_id key \<longrightarrow> kc_value k = kc_value key" for key ks
    using that by (auto simp: Let_def intro!: v shares_own_key)
next
  assume "json_ok payload"
  from create_decrypt [OF assms this, of now nonce expires_in]
  show "\<exists>token p. create_jwe_token C svc now nonce payload expires_in = Inr token \<and>
         decrypt_jwe_token C svc' token = Inr p \<and>
         map_of p ''iat'' = Some (VInt (epoch now)) \<and>
         (\<forall>e. expires_in = Some e \<longrightarrow> map_of p ''exp'' = Some (VInt (epoch (now + e)))) \<and>
         (\<forall>k. k \<noteq> ''iat'' \<and> k \<noteq> ''exp'' \<longrightarrow> map_of p k = map_of payload k)"
    by (fastforce simp: minted_claims_def)
next
  fix gone :: enc_service
  assume "es_decryption_keys gone (kc_id (es_key svc)) = None"
  then show "bindR (encrypt_value C svc now nonce s) (decrypt_value C gone) = Inl (EncPyErr ValueErr)"
    using assms by (simp add: encrypt_value_def decrypt_value_def create_jwe_token_def
        decrypt_jwe_token_def get_decryption_key_def json_ok_def Let_def)
qed

definition key_a :: key_config where
  "key_a = \<lparr>kc_id = ''a'', kc_value = ''secret-a''\<rparr>"

definition key_b :: key_config where
  "key_b = \<lparr>kc_id = ''b'', kc_value = ''secret-b''\<rparr>"

lemma rotated [simp]: "shares_key (encryption_service key_a [key_a]) (encryption_service key_b [key_b, key_a])"
  by (simp add: shares_key_def encryption_service_def key_a_def key_b_def dict_by_def)

theorem key_rotation_witness:
  "bindR (encrypt_value ref_crypto (encryption_service key_a [key_a]) 0 0 ''hello'')
     (decrypt_value ref_crypto (encryption_service key_b [key_b, key_a])) = Inr ''hello''"
  using key_rotation [OF ref_crypto_ok rotated] by blast

text \<open>Signed tokens expire: verification under a service that lists the signing key gives the
  claims back from the minting second until the whole second of the expiry (an hour by default),
  and is an \<open>InvalidTokenError\<close> from then on.\<close>

theorem jws_window:
  assumes "crypto_ok C" and "shares_key svc svc'" and "json_ok payload"
    and "create_jws_token C svc now payload expires_in = Inr token"
  shows "(from_epoch (epoch now) \<le> t \<and>
       t < from_epoch (epoch (now + (case expires_in of None \<Rightarrow> seconds 3600 | Some e \<Rightarrow> e))) \<longrightarrow>
       (\<exists>p. verify_jws_token C svc' t token = Inr p \<and>
          (\<forall>k. k \<noteq> ''iat'' \<and> k \<noteq> ''exp'' \<longrightarrow> map_of p k = map_of payload k))) \<and>
     (from_epoch (epoch (now + (case expires_in of None \<Rightarrow> seconds 3600 | Some e \<Rightarrow> e))) \<le> t \<longrightarrow>
       verify_jws_token C svc' t token = Inl JwtInvalidTokenError)"
proof -
  let ?ttl = "case expires_in of None \<Rightarrow> seconds 3600 | Some e \<Rightarrow> e"
  let ?p = "AList.update ''exp'' (VInt (epoch (now + ?ttl)))
              (AList.update ''iat'' (VInt (epoch now)) payload)"
  obtain k where k: "kc_id (es_key svc) \<noteq> []"
    "es_decryption_keys svc' (kc_id (es_key svc)) = Some k" "kc_value k = kc_value (es_key svc)"
    using assms(2) by (auto simp: shares_key_def)
  have j: "json_ok ?p" using assms(3) by simp
  have token: "token = jws_encode C (kc_id (es_key svc)) (kc_value (es_key svc)) ?p"
    using assms(4) j by (simp add: create_jws_token_def Let_def)
  have p: "map_of ?p ''iat'' = Some (VInt (epoch now))"
    "map_of ?p ''exp'' = Some (VInt (epoch (now + ?ttl)))"
    "\<And>k. k \<noteq> ''iat'' \<and> k \<noteq> ''exp'' \<Longrightarrow> map_of ?p k = map_of payload k"
    by (simp_all add: update_conv')
  have d: "jws_decode C (kc_value (es_key svc)) t token =
     (if from_epoch (epoch now) \<le> t \<and> t < from_epoch (epoch (now + ?ttl)) then Some ?p else None)"
    using assms(1) j p(1,2) unfolding token crypto_ok_def by blast
  have h: "jws_header C token = Some (Some (kc_id (es_key svc)))"
    using assms(1) unfolding token crypto_ok_def by blast
  have v: "verify_jws_token C svc' t token =
      (case jws_decode C (kc_value (es_key svc)) t token of None \<Rightarrow> Inl JwtInvalidTokenError | Some p \<Rightarrow> Inr p)"
    by (simp add: verify_jws_token_def h k get_decryption_key_def Let_def)
  show ?thesis unfolding v d using p(3) by auto
qed

theorem jws_window_witness:
  "\<exists>token. create_jws_token ref_crypto (encryption_service key_a [key_a]) 0 [] None = Inr token \<and>
     verify_jws_token ref_crypto (encryption_service key_b [key_b, key_a]) (seconds 3600) token =
       Inl JwtInvalidTokenError"
proof -
  have j: "json_ok []" by (simp add: json_ok_def)
  then have "\<exists>token. create_jws_token ref_crypto (encryption_service key_a [key_a]) 0 [] None = Inr token"
    by (simp add: create_jws_token_def Let_def json_ok_def)
  then show ?thesis using jws_window [OF ref_crypto_ok rotated j, of 0 None _ "seconds 3600"]
    by (auto simp: epoch_def from_epoch_def)
qed

end
