(* ===== verification/Tokens.thy ===== *)
theory Tokens
  imports AuthModels Encryption
begin

text \<open>
  Token issuance and authentication: \<open>auth/auth_tokens.py\<close>. A credential is an API key, looked up
  by the hash of its text, or an encrypted JWE whose claims name the user; \<open>authenticate\<close> is the
  only way from a string to an \<open>AuthToken\<close>. Random values, the clock and the identifiers the
  database generates are arguments.
\<close>

datatype auth_error =
    InvalidTokenError string
  | EncError enc_error
  | IntegrityError

definition FLOOR_TTL :: int where
  "FLOOR_TTL = seconds 1"

text \<open>\<open>datetime.max\<close> in UTC.\<close>

definition DATETIME_MAX :: datetime where
  "DATETIME_MAX = 253402300799999999"

section \<open>API key values\<close>

definition AMBIGUOUS :: "char set" where
  "AMBIGUOUS = set ''0Oo1IlB8S5''"

definition BASE52_ALPHABET :: string where
  "BASE52_ALPHABET =
     filter (\<lambda>c. c \<notin> AMBIGUOUS)
       (''0123456789'' @ ''abcdefghijklmnopqrstuvwxyz'' @ ''ABCDEFGHIJKLMNOPQRSTUVWXYZ'')"

definition API_KEY_PREFIX :: string where
  "API_KEY_PREFIX = ''oh_''"

definition API_KEY_RANDOM_BITS :: nat where
  "API_KEY_RANDOM_BITS = 128"

definition API_KEY_PREFIX_DISPLAY_LEN :: nat where
  "API_KEY_PREFIX_DISPLAY_LEN = 7"

fun base52_loop :: "nat \<Rightarrow> string \<Rightarrow> string" where
  "base52_loop num chars =
     (if num = 0 then chars
      else base52_loop (num div 52) (chars @ [BASE52_ALPHABET ! (num mod 52)]))"

declare base52_loop.simps [simp del]

definition base52_encode :: "nat list \<Rightarrow> string" where
  "base52_encode bytes =
     (let num = num_of_digits 256 bytes in
      if num = 0 then [BASE52_ALPHABET ! 0] else rev (base52_loop num []))"

definition generate_api_key_value :: "nat list \<Rightarrow> string" where
  "generate_api_key_value token_bytes = API_KEY_PREFIX @ base52_encode token_bytes"

definition hash_api_key_value :: "crypto \<Rightarrow> string \<Rightarrow> string" where
  "hash_api_key_value C raw = sha256_hex C raw"

definition api_key_display_prefix :: "string \<Rightarrow> string" where
  "api_key_display_prefix raw = take API_KEY_PREFIX_DISPLAY_LEN raw"

section \<open>The database of the service\<close>

record token_db =
  td_users :: "user list"
  td_api_keys :: "api_key list"
  td_refresh_tokens :: "idp_refresh_token list"
  td_access_tokens :: "idp_access_token list"

text \<open>\<open>ORDER BY created_at DESC LIMIT 1\<close>.\<close>

definition latest :: "('a \<Rightarrow> datetime) \<Rightarrow> 'a list \<Rightarrow> 'a option" where
  "latest created xs = (case sort_key (\<lambda>x. - created x) xs of [] \<Rightarrow> None | x # _ \<Rightarrow> Some x)"

definition load_user :: "'z token_db_scheme \<Rightarrow> uuid \<Rightarrow> user option" where
  "load_user db user_id = List.find (\<lambda>u. u_id u = user_id) (td_users db)"

definition load_api_key_row :: "'z token_db_scheme \<Rightarrow> string \<Rightarrow> api_key option" where
  "load_api_key_row db key_hash = List.find (\<lambda>k. ak_key_hash k = key_hash) (td_api_keys db)"

definition load_access_row :: "'z token_db_scheme \<Rightarrow> uuid \<Rightarrow> auth_error + idp_access_token" where
  "load_access_row db user_id =
     (case latest at_created_at
             (filter (\<lambda>a. \<exists>r \<in> set (td_refresh_tokens db).
                rt_id r = at_refresh_token_id a \<and> rt_creator_id r = user_id) (td_access_tokens db)) of
        None \<Rightarrow> Inl (InvalidTokenError ''no federated access token for user'')
      | Some row \<Rightarrow> Inr row)"

definition load_refresh_row_for_user :: "'z token_db_scheme \<Rightarrow> uuid \<Rightarrow> auth_error + idp_refresh_token" where
  "load_refresh_row_for_user db user_id =
     (case latest rt_created_at (filter (\<lambda>r. rt_creator_id r = user_id) (td_refresh_tokens db)) of
        None \<Rightarrow> Inl (InvalidTokenError ''no federated refresh token for user'')
      | Some row \<Rightarrow> Inr row)"

definition idp_refresh_token_live :: "'z token_db_scheme \<Rightarrow> datetime \<Rightarrow> uuid \<Rightarrow> bool" where
  "idp_refresh_token_live db now row_id =
     (case List.find (\<lambda>r. rt_id r = row_id) (td_refresh_tokens db) of
        None \<Rightarrow> False
      | Some row \<Rightarrow> now < rt_expires_at row)"

section \<open>Minting\<close>

definition ttl_until :: "datetime \<Rightarrow> datetime \<Rightarrow> int" where
  "ttl_until now expires_at =
     (let ttl = expires_at - now in if FLOOR_TTL < ttl then ttl else FLOOR_TTL)"

definition enc_result :: "enc_error + 'a \<Rightarrow> auth_error + 'a" where
  "enc_result r = (case r of Inl e \<Rightarrow> Inl (EncError e) | Inr x \<Rightarrow> Inr x)"

definition mint_access_token ::
    "crypto \<Rightarrow> enc_service \<Rightarrow> datetime \<Rightarrow> nat \<Rightarrow> uuid \<Rightarrow> uuid \<Rightarrow> idp_access_token \<Rightarrow> auth_error + string" where
  "mint_access_token C enc now nonce jti user_id access_row =
     enc_result (create_jwe_token C enc now nonce
       [(''sub'', VStr (uuid_str user_id)),
        (''ttyp'', VStr (token_type_value ACCESS_TOKEN)),
        (''jti'', VStr (uuid_str jti)),
        (''aid'', VStr (uuid_str (at_id access_row)))]
       (Some (ttl_until now (at_expires_at access_row))))"

definition mint_cookie_token ::
    "crypto \<Rightarrow> enc_service \<Rightarrow> datetime \<Rightarrow> nat \<Rightarrow> uuid \<Rightarrow> uuid \<Rightarrow> idp_access_token \<Rightarrow> auth_error + string" where
  "mint_cookie_token C enc now nonce jti user_id access_row =
     enc_result (create_jwe_token C enc now nonce
       [(''sub'', VStr (uuid_str user_id)),
        (''ttyp'', VStr (token_type_value COOKIE)),
        (''jti'', VStr (uuid_str jti)),
        (''aid'', VStr (uuid_str (at_id access_row))),
        (''axp'', VInt (epoch (at_expires_at access_row)))]
       (Some (ttl_until now (at_expires_at access_row))))"

definition mint_refresh_token ::
    "crypto \<Rightarrow> enc_service \<Rightarrow> datetime \<Rightarrow> nat \<Rightarrow> uuid \<Rightarrow> uuid \<Rightarrow> idp_refresh_token \<Rightarrow> auth_error + string" where
  "mint_refresh_token C enc now nonce jti user_id refresh_row =
     enc_result (create_jwe_token C enc now nonce
       [(''sub'', VStr (uuid_str user_id)),
        (''ttyp'', VStr (token_type_value IDP_REFRESH_TOKEN)),
        (''jti'', VStr (uuid_str jti)),
        (''rid'', VStr (uuid_str (rt_id refresh_row)))]
       (Some (ttl_until now (rt_expires_at refresh_row))))"

definition create_access_token ::
    "crypto \<Rightarrow> enc_service \<Rightarrow> 'z token_db_scheme \<Rightarrow> datetime \<Rightarrow> nat \<Rightarrow> uuid \<Rightarrow> uuid \<Rightarrow> auth_error + string" where
  "create_access_token C enc db now nonce jti user_id =
     bindR (load_access_row db user_id) (mint_access_token C enc now nonce jti user_id)"

definition create_cookie_token ::
    "crypto \<Rightarrow> enc_service \<Rightarrow> 'z token_db_scheme \<Rightarrow> datetime \<Rightarrow> nat \<Rightarrow> uuid \<Rightarrow> uuid \<Rightarrow> auth_error + string" where
  "create_cookie_token C enc db now nonce jti user_id =
     bindR (load_access_row db user_id) (mint_cookie_token C enc now nonce jti user_id)"

definition reissue_cookie ::
    "crypto \<Rightarrow> enc_service \<Rightarrow> 'z token_db_scheme \<Rightarrow> datetime \<Rightarrow> nat \<Rightarrow> uuid \<Rightarrow> uuid \<Rightarrow> auth_error + string" where
  "reissue_cookie C enc db now nonce jti user_id = create_cookie_token C enc db now nonce jti user_id"

definition create_refresh_token ::
    "crypto \<Rightarrow> enc_service \<Rightarrow> 'z token_db_scheme \<Rightarrow> datetime \<Rightarrow> nat \<Rightarrow> uuid \<Rightarrow> uuid \<Rightarrow> auth_error + string \<times> uuid" where
  "create_refresh_token C enc db now nonce jti user_id =
     bindR (load_refresh_row_for_user db user_id) (\<lambda>refresh_row.
       bindR (mint_refresh_token C enc now nonce jti user_id refresh_row) (\<lambda>token.
         Inr (token, rt_id refresh_row)))"

text \<open>
  \<open>create_api_key\<close>: the raw key and the row. The column \<open>key_hash\<close> is unique, so a second key
  with the same hash fails at the flush.
\<close>

definition create_api_key ::
    "crypto \<Rightarrow> 'z token_db_scheme \<Rightarrow> datetime \<Rightarrow> uuid \<Rightarrow> nat list \<Rightarrow> uuid \<Rightarrow> string option \<Rightarrow> bool \<Rightarrow>
     datetime option \<Rightarrow> uuid option \<Rightarrow> bool \<Rightarrow> auth_error + string \<times> api_key \<times> 'z token_db_scheme" where
  "create_api_key C db now new_id token_bytes user_id name enabled expires_at role_id system =
     (let raw_key = generate_api_key_value token_bytes;
          row = \<lparr>ak_id = new_id, ak_key_hash = hash_api_key_value C raw_key,
                 ak_prefix = api_key_display_prefix raw_key, ak_creator_id = user_id,
                 ak_name = name, ak_enabled = enabled, ak_role_id = role_id, ak_system = system,
                 ak_expires_at = expires_at, ak_created_at = now, ak_updated_at = now\<rparr>
      in if \<exists>k \<in> set (td_api_keys db). ak_key_hash k = ak_key_hash row \<or> ak_id k = new_id
         then Inl IntegrityError
         else Inr (raw_key, row, db\<lparr>td_api_keys := td_api_keys db @ [row]\<rparr>))"

section \<open>Reading the claims\<close>

definition is_space :: "char \<Rightarrow> bool" where
  "is_space c = (of_char c \<in> {9, 10, 11, 12, 13, 28, 29, 30, 31, 32, 133, 160 :: nat})"

text \<open>\<open>s.split()\<close>.\<close>

fun split_space :: "string \<Rightarrow> string \<Rightarrow> string list" where
  "split_space w [] = (if w = [] then [] else [w])"
| "split_space w (c # s) =
     (if is_space c then (if w = [] then split_space [] s else w # split_space [] s)
      else split_space (w @ [c]) s)"

definition scopes_from_payload :: "payload \<Rightarrow> string set" where
  "scopes_from_payload payload =
     (case map_of payload ''scp'' of
        Some (VStr raw) \<Rightarrow> set (filter (\<lambda>s. s \<noteq> []) (split_space [] raw))
      | _ \<Rightarrow> {})"

definition token_type_claim :: "payload \<Rightarrow> auth_error + token_type" where
  "token_type_claim payload =
     (case map_of payload ''ttyp'' of
        Some (VStr raw) \<Rightarrow>
          (case token_type_of raw of
             None \<Rightarrow> Inl (InvalidTokenError ''unknown token type'')
           | Some t \<Rightarrow> Inr t)
      | _ \<Rightarrow> Inl (InvalidTokenError ''missing token type''))"

definition uuid_claim :: "string \<Rightarrow> string \<Rightarrow> string \<Rightarrow> payload \<Rightarrow> auth_error + uuid" where
  "uuid_claim claim missing invalid payload =
     (case map_of payload claim of
        Some (VStr raw) \<Rightarrow>
          (case uuid_parse raw of
             None \<Rightarrow> Inl (InvalidTokenError invalid)
           | Some u \<Rightarrow> Inr u)
      | _ \<Rightarrow> Inl (InvalidTokenError missing))"

definition user_id_claim :: "payload \<Rightarrow> auth_error + uuid" where
  "user_id_claim = uuid_claim ''sub'' ''missing subject'' ''invalid subject''"

definition jti_claim :: "payload \<Rightarrow> auth_error + uuid" where
  "jti_claim = uuid_claim ''jti'' ''missing jti'' ''invalid jti''"

definition row_id_claim :: "payload \<Rightarrow> auth_error + uuid" where
  "row_id_claim = uuid_claim ''rid'' ''missing rid'' ''invalid rid''"

text \<open>\<open>isinstance(raw, int)\<close>, which a Python boolean satisfies too.\<close>

definition int_claim :: "string \<Rightarrow> payload \<Rightarrow> int option" where
  "int_claim claim payload = Option.bind (map_of payload claim) as_num"

definition iat_claim :: "payload \<Rightarrow> auth_error + datetime" where
  "iat_claim payload =
     (case int_claim ''iat'' payload of
        None \<Rightarrow> Inl (InvalidTokenError ''missing iat'')
      | Some raw \<Rightarrow> Inr (from_epoch raw))"

definition exp_claim :: "payload \<Rightarrow> datetime" where
  "exp_claim payload =
     (case int_claim ''exp'' payload of None \<Rightarrow> DATETIME_MAX | Some raw \<Rightarrow> from_epoch raw)"

definition decrypt_claims :: "crypto \<Rightarrow> enc_service \<Rightarrow> string \<Rightarrow> auth_error + payload" where
  "decrypt_claims C enc token =
     (case decrypt_jwe_token C enc token of
        Inl e \<Rightarrow> Inl (InvalidTokenError ''decryption failed'')
      | Inr p \<Rightarrow> Inr p)"

section \<open>Authentication\<close>

definition authenticate_api_key :: "crypto \<Rightarrow> 'z token_db_scheme \<Rightarrow> datetime \<Rightarrow> string \<Rightarrow> auth_error + auth_token" where
  "authenticate_api_key C db now raw_key =
     (case load_api_key_row db (hash_api_key_value C raw_key) of
        None \<Rightarrow> Inl (InvalidTokenError ''unknown api key'')
      | Some row \<Rightarrow>
          let exp = (case ak_expires_at row of Some e \<Rightarrow> e | None \<Rightarrow> DATETIME_MAX) in
          if exp \<le> now then Inl (InvalidTokenError ''api key expired'')
          else
            (case load_user db (ak_creator_id row) of
               None \<Rightarrow> Inl (InvalidTokenError ''user not found or disabled'')
             | Some user \<Rightarrow>
                 if \<not> u_enabled user then Inl (InvalidTokenError ''user not found or disabled'')
                 else Inr \<lparr>tok_id = ak_id row, tok_user_id = ak_creator_id row,
                           tok_created_at = ak_created_at row, tok_updated_at = ak_updated_at row,
                           tok_enabled = (ak_enabled row \<and> u_enabled user), tok_expires_at = exp,
                           tok_type = API_KEY, tok_scopes = {}, tok_role_id = ak_role_id row\<rparr>))"

text \<open>
  The second half of \<open>authenticate\<close>, on the claims of an accepted token type. \<open>now\<close> is the clock
  at the expiry test, \<open>now_row\<close> at the test of the refresh-token row.
\<close>

definition authenticate_claims ::
    "'z token_db_scheme \<Rightarrow> datetime \<Rightarrow> datetime \<Rightarrow> payload \<Rightarrow> token_type \<Rightarrow> auth_error + auth_token" where
  "authenticate_claims db now now_row payload token_type =
     bindR (user_id_claim payload) (\<lambda>user_id.
     bindR (jti_claim payload) (\<lambda>jti.
     bindR (iat_claim payload) (\<lambda>iat.
       let exp = exp_claim payload in
       (case load_user db user_id of
          None \<Rightarrow> Inl (InvalidTokenError ''user not found or disabled'')
        | Some user \<Rightarrow>
            if \<not> u_enabled user then Inl (InvalidTokenError ''user not found or disabled'')
            else if exp \<le> now then Inl (InvalidTokenError ''token expired'')
            else
              bindR (if token_type = IDP_REFRESH_TOKEN
                     then bindR (row_id_claim payload)
                            (\<lambda>rid. Inr (idp_refresh_token_live db now_row rid))
                     else Inr True) (\<lambda>enabled.
                Inr \<lparr>tok_id = jti, tok_user_id = user_id, tok_created_at = iat,
                     tok_updated_at = iat, tok_enabled = (enabled \<and> u_enabled user),
                     tok_expires_at = exp, tok_type = token_type,
                     tok_scopes = scopes_from_payload payload, tok_role_id = None\<rparr>)))))"

definition authenticate ::
    "crypto \<Rightarrow> enc_service \<Rightarrow> 'z token_db_scheme \<Rightarrow> datetime \<Rightarrow> datetime \<Rightarrow> bool \<Rightarrow> string \<Rightarrow> auth_error + auth_token" where
  "authenticate C enc db now now_row allow_refresh token =
     (if prefix API_KEY_PREFIX token then authenticate_api_key C db now token
      else
        bindR (decrypt_claims C enc token) (\<lambda>payload.
        bindR (token_type_claim payload) (\<lambda>token_type.
          if token_type = API_KEY then Inl (InvalidTokenError ''api key not valid for this endpoint'')
          else if token_type = IDP_REFRESH_TOKEN \<and> \<not> allow_refresh
          then Inl (InvalidTokenError ''refresh token not valid for this endpoint'')
          else authenticate_claims db now now_row payload token_type)))"

end
