(* ===== verification/OAuthHelpers.thy ===== *)
theory OAuthHelpers
  imports Tokens
begin

text \<open>
  The pure helpers of \<open>auth/auth_service.py\<close>: matching of redirect URIs, PKCE challenges, scopes,
  expiries computed from identity-provider responses and URL building. JSON numbers are integers
  in the model; base64 and the parsing of an id\_token body are parameters.
\<close>

section \<open>Configuration and libraries\<close>

record idp_config =
  idp_url :: string
  idp_client_id :: string
  idp_client_secret :: string
  expire_drift_tolerance :: int
  user_id_field :: "string option"
  email_field :: "string option"
  idp_scopes :: "string list"
  authorize_path :: string
  token_path :: string
  revocation_path :: "string option"
  access_token_expires_in :: int
  refresh_token_expires_in :: int
  delete_expired_seconds :: int

text \<open>
  \<open>sha256_b64url\<close> is the base64url text without padding of the SHA-256 of an ASCII string;
  \<open>b64url_json\<close> decodes a padded base64url text into a JSON object (\<open>None\<close> on any failure or on
  a value that is no object).
\<close>

record oauth_libs =
  sha256_b64url :: "string \<Rightarrow> string"
  b64url_json :: "string \<Rightarrow> payload option"

section \<open>Strings\<close>

definition is_ascii :: "string \<Rightarrow> bool" where
  "is_ascii s = list_all (\<lambda>c. (of_char c :: nat) < 128) s"

definition upper_char :: "char \<Rightarrow> char" where
  "upper_char c = (let n = (of_char c :: nat) in if 97 \<le> n \<and> n \<le> 122 then char_of (n - 32) else c)"

text \<open>\<open>secrets.compare_digest\<close> on strings: ASCII only, \<open>TypeError\<close> otherwise.\<close>

definition compare_digest :: "string \<Rightarrow> string \<Rightarrow> pyerr + bool" where
  "compare_digest a b = (if is_ascii a \<and> is_ascii b then Inr (a = b) else Inl TypeErr)"

definition rstrip_slash :: "string \<Rightarrow> string" where
  "rstrip_slash s = rev (dropWhile (\<lambda>c. c = CHR ''/'') (rev s))"

definition lstrip_slash :: "string \<Rightarrow> string" where
  "lstrip_slash s = dropWhile (\<lambda>c. c = CHR ''/'') s"

text \<open>\<open>urllib.parse.quote_plus\<close>, byte by byte.\<close>

definition hex_upper :: "nat \<Rightarrow> char" where
  "hex_upper d = char_of (if d < 10 then 48 + d else 55 + d)"

definition quote_char :: "char \<Rightarrow> string" where
  "quote_char c =
     (let n = (of_char c :: nat) in
      if 48 \<le> n \<and> n \<le> 57 \<or> 65 \<le> n \<and> n \<le> 90 \<or> 97 \<le> n \<and> n \<le> 122 \<or> c \<in> set ''_.-~'' then [c]
      else if c = CHR '' '' then ''+''
      else [CHR ''%'', hex_upper (n div 16), hex_upper (n mod 16)])"

definition quote_plus :: "string \<Rightarrow> string" where
  "quote_plus s = concat (map quote_char s)"

definition urlencode :: "(string \<times> string) list \<Rightarrow> string" where
  "urlencode params = join_with ''&'' (map (\<lambda>(k, v). quote_plus k @ ''='' @ quote_plus v) params)"

definition join_url :: "string \<Rightarrow> string \<Rightarrow> (string \<times> string) list \<Rightarrow> string" where
  "join_url base path params =
     (let url = rstrip_slash base @ ''/'' @ lstrip_slash path
      in if params = [] then url else url @ ''?'' @ urlencode params)"

definition idp_base :: "idp_config \<Rightarrow> string \<Rightarrow> string" where
  "idp_base idp base_url =
     (let url = idp_url idp in
      if prefix ''http://'' url \<or> prefix ''https://'' url then url
      else rstrip_slash base_url @ ''/'' @ lstrip_slash url)"

section \<open>Redirect URIs\<close>

text \<open>
  \<open>re.fullmatch\<close> of the escaped parts joined by \<open>.*\<close>; a dot does not match a newline.
\<close>

fun dot_star :: "string list \<Rightarrow> string \<Rightarrow> bool" where
  "dot_star [] t = (t = [])"
| "dot_star [p] t = (t = p)"
| "dot_star (p # q # ps) t =
     (prefix p t \<and>
      (let rest = drop (length p) t in
       list_ex (\<lambda>k. dot_star (q # ps) (drop k rest))
         [0..<Suc (length (takeWhile (\<lambda>c. c \<noteq> CHR 0x0A) rest))]))"

definition wildcard_match :: "string \<Rightarrow> string \<Rightarrow> pyerr + bool" where
  "wildcard_match pat target =
     (if CHR ''*'' \<notin> set pat then compare_digest pat target
      else Inr (dot_star (split_on (CHR ''*'') pat) target))"

section \<open>PKCE\<close>

definition derive_code_challenge :: "oauth_libs \<Rightarrow> string \<Rightarrow> string \<Rightarrow> pyerr + string" where
  "derive_code_challenge L verifier method =
     (if map upper_char method = ''S256''
      then (if is_ascii verifier then Inr (sha256_b64url L verifier) else Inl ValueErr)
      else Inr verifier)"

section \<open>Claims and scopes\<close>

definition claim :: "payload \<Rightarrow> string option \<Rightarrow> string \<Rightarrow> string option" where
  "claim claims configured fallback =
     (let key = (case configured of None \<Rightarrow> fallback | Some c \<Rightarrow> if c = [] then fallback else c) in
      case map_of claims key of
        Some (VStr v) \<Rightarrow> if v = [] then None else Some v
      | _ \<Rightarrow> None)"

definition OIDC_SCOPES :: "string set" where
  "OIDC_SCOPES = {''openid'', ''email'', ''profile''}"

definition normalize_scopes :: "string option \<Rightarrow> string set" where
  "normalize_scopes raw =
     (case raw of
        None \<Rightarrow> {}
      | Some s \<Rightarrow> if s = [] then {} else set (split_space [] s) \<inter> OIDC_SCOPES)"

definition grant_scopes :: "payload \<Rightarrow> string set" where
  "grant_scopes payload =
     (case map_of payload ''scp'' of Some (VStr raw) \<Rightarrow> normalize_scopes (Some raw) | _ \<Rightarrow> {})"

text \<open>The claim written for a set of scopes, left out when the set is empty.\<close>

definition scope_claim :: "string set \<Rightarrow> payload" where
  "scope_claim scopes =
     (if scopes = {} then []
      else [(''scp'', VStr (join_with '' '' (sorted_list_of_set scopes)))])"

text \<open>\<open>_decode_id_token\<close>: the payload segment of a compact JWT, padded.\<close>

definition decode_id_token :: "oauth_libs \<Rightarrow> string \<Rightarrow> payload" where
  "decode_id_token L id_token =
     (let parts = split_on (CHR ''.'') id_token in
      if length parts < 2 then []
      else
        let b64 = parts ! 1;
            padded = b64 @ replicate ((4 - length b64 mod 4) mod 4) (CHR ''='')
        in (case b64url_json L padded of None \<Rightarrow> [] | Some data \<Rightarrow> data))"

section \<open>Expiries\<close>

definition positive_claim :: "string \<Rightarrow> payload \<Rightarrow> int option" where
  "positive_claim c tokens =
     (case int_claim c tokens of Some n \<Rightarrow> if 0 < n then Some n else None | None \<Rightarrow> None)"

definition idp_access_expiry :: "datetime \<Rightarrow> payload \<Rightarrow> int \<Rightarrow> idp_config \<Rightarrow> datetime" where
  "idp_access_expiry now idp_tokens drift_seconds idp =
     (case positive_claim ''expires_in'' idp_tokens of
        Some expires_in \<Rightarrow> now + seconds (max 0 (expires_in - drift_seconds))
      | None \<Rightarrow>
          (case positive_claim ''expires_at'' idp_tokens of
             Some expires_at \<Rightarrow> from_epoch (max 0 (expires_at - drift_seconds))
           | None \<Rightarrow> now + seconds (max 1 (access_token_expires_in idp - drift_seconds))))"

definition idp_refresh_expiry :: "datetime \<Rightarrow> payload \<Rightarrow> int \<Rightarrow> idp_config \<Rightarrow> datetime" where
  "idp_refresh_expiry now idp_tokens drift_seconds idp =
     (case positive_claim ''refresh_expires_in'' idp_tokens of
        Some expires_in \<Rightarrow> now + seconds (max 0 (expires_in - drift_seconds))
      | None \<Rightarrow>
          (case positive_claim ''refresh_expires_at'' idp_tokens of
             Some expires_at \<Rightarrow> from_epoch (max 0 (expires_at - drift_seconds))
           | None \<Rightarrow> now + seconds (max 1 (refresh_token_expires_in idp - drift_seconds))))"

definition seconds_until :: "datetime \<Rightarrow> datetime \<Rightarrow> int" where
  "seconds_until now expires_at = max 0 (epoch (expires_at - now))"

text \<open>The lifetime of a minted token: what is left of the row, or one second.\<close>

definition row_ttl :: "datetime \<Rightarrow> datetime \<Rightarrow> int" where
  "row_ttl now expires_at = (let ttl = expires_at - now in if ttl \<le> 0 then seconds 1 else ttl)"

definition mint_cookie_jwe ::
    "crypto \<Rightarrow> enc_service \<Rightarrow> datetime \<Rightarrow> nat \<Rightarrow> uuid \<Rightarrow> uuid \<Rightarrow> uuid \<Rightarrow> datetime \<Rightarrow> enc_error + string" where
  "mint_cookie_jwe C enc now nonce jti user_id access_id access_expires_at =
     create_jwe_token C enc now nonce
       [(''sub'', VStr (uuid_str user_id)),
        (''ttyp'', VStr (token_type_value COOKIE)),
        (''jti'', VStr (uuid_str jti)),
        (''aid'', VStr (uuid_str access_id)),
        (''axp'', VInt (epoch access_expires_at))]
       (Some (row_ttl now access_expires_at))"

section \<open>Laws of redirect URI matching\<close>

text \<open>A target written as the literal parts with a run of characters between each two.\<close>

fun interleave :: "string list \<Rightarrow> string list \<Rightarrow> string" where
  "interleave [] fills = []"
| "interleave [p] fills = p"
| "interleave (p # q # ps) (f # fills) = p @ f @ interleave (q # ps) fills"
| "interleave (p # q # ps) [] = p @ interleave (q # ps) []"

lemma drop_takeWhile_run:
  "k \<le> length (takeWhile P xs) \<Longrightarrow> \<exists>f. xs = f @ drop k xs \<and> (\<forall>c \<in> set f. P c)"
  by (rule exI [of _ "take k xs"])
     (metis append_take_drop_id nth_mem set_takeWhileD takeWhile_eq_take take_take
       in_set_takeD min.absorb2 min.absorb1)

lemma run_takeWhile: "\<forall>c \<in> set f. P c \<Longrightarrow> length f \<le> length (takeWhile P (f @ xs))"
  by (induction f) auto

lemma dot_star_iff:
  "ps \<noteq> [] \<Longrightarrow> dot_star ps t \<longleftrightarrow>
     (\<exists>fills. length fills = length ps - 1 \<and> (\<forall>f \<in> set fills. CHR 0x0A \<notin> set f) \<and>
        t = interleave ps fills)"
proof (induction ps t rule: dot_star.induct)
  case (1 t)
  then show ?case by simp
next
  case (2 p t)
  then show ?case by auto
next
  case (3 p q ps t)
  let ?P = "\<lambda>c. c \<noteq> CHR 0x0A"
  have ih: "dot_star (q # ps) (drop k rest) \<longleftrightarrow>
     (\<exists>fills. length fills = length ps \<and> (\<forall>f \<in> set fills. CHR 0x0A \<notin> set f) \<and>
        drop k rest = interleave (q # ps) fills)"
    if "t = p @ rest" "k \<le> length (takeWhile ?P rest)" for rest k
    using 3(1) [OF refl, of k] that by (simp add: less_Suc_eq_le del: upt_Suc)
  show ?case
  proof
    assume d: "dot_star (p # q # ps) t"
    then obtain rest where t: "t = p @ rest" by (auto simp: prefix_def)
    from d obtain k where k: "k \<le> length (takeWhile ?P rest)" "dot_star (q # ps) (drop k rest)"
      by (auto simp: t list_ex_iff Let_def less_Suc_eq_le simp del: upt_Suc)
    from k(2) ih [OF t k(1)] obtain fills where
      f: "length fills = length ps" "\<forall>f \<in> set fills. CHR 0x0A \<notin> set f"
        "drop k rest = interleave (q # ps) fills"
      by blast
    from drop_takeWhile_run [OF k(1)] obtain f where "rest = f @ drop k rest" "\<forall>c \<in> set f. ?P c" by blast
    then have "t = interleave (p # q # ps) (f # fills)" "CHR 0x0A \<notin> set f" using t f(3) by auto
    then show "\<exists>fills. length fills = length (p # q # ps) - 1 \<and> (\<forall>f \<in> set fills. CHR 0x0A \<notin> set f) \<and>
        t = interleave (p # q # ps) fills"
      using f(1,2) by (intro exI [of _ "f # fills"]) auto
  next
    assume "\<exists>fills. length fills = length (p # q # ps) - 1 \<and> (\<forall>f \<in> set fills. CHR 0x0A \<notin> set f) \<and>
        t = interleave (p # q # ps) fills"
    then obtain f fills where f: "length fills = length ps" "CHR 0x0A \<notin> set f"
      "\<forall>f \<in> set fills. CHR 0x0A \<notin> set f" "t = p @ f @ interleave (q # ps) fills"
      by (auto simp: length_Suc_conv)
    have k: "length f \<le> length (takeWhile ?P (f @ interleave (q # ps) fills))"
      by (rule run_takeWhile) (use f(2) in auto)
    then have "dot_star (q # ps) (interleave (q # ps) fills)"
      using ih [OF f(4), of "length f"] f(1,3) by auto
    then show "dot_star (p # q # ps) t"
      using k f(4) by (auto simp: list_ex_iff Let_def less_Suc_eq_le simp del: upt_Suc intro!: bexI [of _ "length f"])
  qed
qed

text \<open>Redirect URIs: a registered pattern without \<open>*\<close> admits exactly itself; a pattern with
  wildcards admits exactly the targets that consist of its literal parts with arbitrary runs of
  non-newline characters between them. A wildcard therefore also spans slashes: a pattern meant
  for the subdomains of one host admits a URI of another host.\<close>

theorem redirect_wildcards:
  "(CHR ''*'' \<notin> set pat \<and> is_ascii pat \<and> is_ascii target \<longrightarrow>
      wildcard_match pat target = Inr (target = pat)) \<and>
   (CHR ''*'' \<in> set pat \<longrightarrow>
      wildcard_match pat target =
        Inr (\<exists>fills. length fills = length (split_on (CHR ''*'') pat) - 1 \<and>
               (\<forall>f \<in> set fills. CHR 0x0A \<notin> set f) \<and>
               target = interleave (split_on (CHR ''*'') pat) fills)) \<and>
   wildcard_match ''https://*.example.com'' ''https://evil.net/.example.com'' = Inr True"
proof -
  have "split_on c s \<noteq> []" for c s by (induction s) (auto split: list.split)
  then have a: "CHR ''*'' \<in> set pat \<Longrightarrow> wildcard_match pat target =
        Inr (\<exists>fills. length fills = length (split_on (CHR ''*'') pat) - 1 \<and>
               (\<forall>f \<in> set fills. CHR 0x0A \<notin> set f) \<and>
               target = interleave (split_on (CHR ''*'') pat) fills)"
    by (simp add: wildcard_match_def dot_star_iff)
  have "wildcard_match ''https://*.example.com'' ''https://evil.net/.example.com'' = Inr True"
    by (simp add: wildcard_match_def upt_rec)
  then show ?thesis using a by (auto simp: wildcard_match_def compare_digest_def)
qed

theorem redirect_wildcards_witness:
  "wildcard_match ''https://app.example.com/cb'' ''https://app.example.com/cb2'' = Inr False"
  using redirect_wildcards [of "''https://app.example.com/cb''" "''https://app.example.com/cb2''"]
  by (simp add: is_ascii_def)

section \<open>Laws of expiries and scopes\<close>

text \<open>Row expiries stay inside what the identity provider granted: with a relative lifetime the
  row expires between now and the advertised end; with an absolute one not after it; with neither,
  at least one second from now and not after the configured fallback (of at least a second). The
  drift tolerance only shortens the lifetime. The same holds for refresh tokens.\<close>

theorem row_expiry_bounds:
  assumes "0 \<le> drift"
  shows "(\<forall>e. positive_claim ''expires_in'' tokens = Some e \<longrightarrow>
      now \<le> idp_access_expiry now tokens drift idp \<and>
      idp_access_expiry now tokens drift idp \<le> now + seconds e) \<and>
    (\<forall>a. positive_claim ''expires_in'' tokens = None \<and> positive_claim ''expires_at'' tokens = Some a \<longrightarrow>
      idp_access_expiry now tokens drift idp \<le> from_epoch a) \<and>
    (positive_claim ''expires_in'' tokens = None \<and> positive_claim ''expires_at'' tokens = None \<longrightarrow>
      now + seconds 1 \<le> idp_access_expiry now tokens drift idp \<and>
      idp_access_expiry now tokens drift idp \<le> now + seconds (max 1 (access_token_expires_in idp))) \<and>
    (\<forall>e. positive_claim ''refresh_expires_in'' tokens = Some e \<longrightarrow>
      now \<le> idp_refresh_expiry now tokens drift idp \<and>
      idp_refresh_expiry now tokens drift idp \<le> now + seconds e) \<and>
    (\<forall>a. positive_claim ''refresh_expires_in'' tokens = None \<and>
         positive_claim ''refresh_expires_at'' tokens = Some a \<longrightarrow>
      idp_refresh_expiry now tokens drift idp \<le> from_epoch a) \<and>
    (positive_claim ''refresh_expires_in'' tokens = None \<and>
     positive_claim ''refresh_expires_at'' tokens = None \<longrightarrow>
      now + seconds 1 \<le> idp_refresh_expiry now tokens drift idp \<and>
      idp_refresh_expiry now tokens drift idp \<le> now + seconds (max 1 (refresh_token_expires_in idp)))"
proof -
  have p: "positive_claim c tokens = Some e \<Longrightarrow> 0 < e" for c e
    by (auto simp: positive_claim_def split: option.splits if_splits)
  show ?thesis using assms
    by (auto simp: idp_access_expiry_def idp_refresh_expiry_def from_epoch_def dest!: p)
qed

definition witness_idp :: idp_config where
  "witness_idp = \<lparr>idp_url = ''https://idp'', idp_client_id = ''ohe'', idp_client_secret = ''s'',
     expire_drift_tolerance = 60, user_id_field = None, email_field = None, idp_scopes = [''openid''],
     authorize_path = ''/authorize'', token_path = ''/token'', revocation_path = None,
     access_token_expires_in = 900, refresh_token_expires_in = 2592000, delete_expired_seconds = 86400\<rparr>"

theorem row_expiry_bounds_witness:
  "idp_access_expiry 0 [(''expires_in'', VInt 30)] 60 witness_idp \<le> seconds 30 \<and>
   0 \<le> idp_access_expiry 0 [(''expires_in'', VInt 30)] 60 witness_idp"
  using row_expiry_bounds [of 60 "[(''expires_in'', VInt 30)]" 0 witness_idp]
  by (simp add: positive_claim_def int_claim_def)

text \<open>A set of scopes written into a claim is read back unchanged.\<close>

lemma split_space_word:
  "(\<And>c. c \<in> set s \<Longrightarrow> \<not> is_space c) \<Longrightarrow> split_space w (s @ rest) = split_space (w @ s) rest"
  by (induction s arbitrary: w) auto

lemma split_space_join:
  "(\<And>s c. s \<in> set ss \<Longrightarrow> c \<in> set s \<Longrightarrow> \<not> is_space c) \<Longrightarrow> [] \<notin> set ss \<Longrightarrow>
   split_space [] (join_with '' '' ss) = ss"
proof (induction ss rule: induct_list012)
  case 1
  then show ?case by simp
next
  case (2 s)
  then show ?case using split_space_word [of s "[]" "[]"] by simp
next
  case (3 s t ss)
  have sp: "is_space (CHR '' '')" by (simp add: is_space_def)
  have nsp: "c \<in> set s \<Longrightarrow> \<not> is_space c" for c using 3(3) [of s c] by simp
  have "split_space [] (join_with '' '' (s # t # ss)) =
      split_space s (CHR '' '' # join_with '' '' (t # ss))"
    by (simp only: join_with.simps append_Cons append_Nil split_space_word [OF nsp])
  also have "\<dots> = s # split_space [] (join_with '' '' (t # ss))" using 3(4) by (auto simp: sp)
  also have "split_space [] (join_with '' '' (t # ss)) = t # ss"
  proof (rule 3(2))
    fix w c assume "w \<in> set (t # ss)" "c \<in> set w"
    then show "\<not> is_space c" using 3(3) [of w c] by simp
  qed (use 3(4) in simp)
  finally show ?case .
qed

lemma scopes_roundtrip:
  assumes "scopes \<subseteq> OIDC_SCOPES"
  shows "(case map_of (scope_claim scopes) ''scp'' of
            Some (VStr raw) \<Rightarrow> normalize_scopes (Some raw) | _ \<Rightarrow> {}) = scopes"
proof (cases "scopes = {}")
  case True
  then show ?thesis by (simp add: scope_claim_def)
next
  case False
  have fin: "finite scopes" using assms finite_subset by (auto simp: OIDC_SCOPES_def)
  have w: "c \<in> set s \<Longrightarrow> s \<in> OIDC_SCOPES \<Longrightarrow> \<not> is_space c" "[] \<notin> OIDC_SCOPES" for c s
    by (auto simp: OIDC_SCOPES_def is_space_def)
  let ?l = "sorted_list_of_set scopes"
  have l: "set ?l = scopes" using fin by simp
  then have sp: "split_space [] (join_with '' '' ?l) = ?l"
    using assms w by (intro split_space_join) auto
  have ne: "join_with '' '' ?l \<noteq> []"
  proof
    assume "join_with '' '' ?l = []"
    then have "?l = []" using sp by simp
    then show False using l False by simp
  qed
  show ?thesis using False assms l sp ne by (auto simp: scope_claim_def normalize_scopes_def)
qed

end
