(* ===== verification/OAuthService.thy ===== *)
theory OAuthService
  imports OAuthHelpers
begin

text \<open>
  The federated OAuth flow of \<open>auth/auth_service.py\<close>: the authorization redirect, the callback that
  provisions the local user and stores the identity provider's tokens, the exchange of codes and
  refresh tokens, revocation and the cleanup of expired rows. The operations pass the database
  explicitly; an exception is \<open>Inl\<close>, and a request whose handler raises is rolled back. The
  clock is read once per operation, and the identity provider, the random values and the generated
  identifiers are part of the environment.
\<close>

section \<open>State and environment\<close>

record oauth_db = token_db +
  od_clients :: "oauth_client list"
  od_uris :: "redirect_uri list"

text \<open>
  The answer of a token endpoint: none, a status with the JSON object of the body, or a status with a body that is no JSON
  object and the exception that reading it as one raises.
\<close>

datatype idp_reply = Unreachable | Reply nat payload | Unreadable nat pyerr

record oauth_env =
  oe_crypto :: crypto
  oe_enc :: enc_service
  oe_libs :: oauth_libs
  oe_idp :: idp_config
  oe_base_url :: string
  oe_now :: datetime
  oe_uuid :: "nat \<Rightarrow> uuid"        \<comment> \<open>uuid4 and gen\_random\_uuid, by position in the operation\<close>
  oe_nonce :: "nat \<Rightarrow> nat"
  oe_verifier :: string          \<comment> \<open>secrets.token\_urlsafe(64)\<close>
  oe_post :: "string \<Rightarrow> (string \<times> string) list \<Rightarrow> idp_reply"

datatype grant_error =
    AuthErr
  | InvalidClientError
  | InvalidRedirectUriError
  | InvalidGrantError string
  | IdpError string
  | RefreshLockTimeoutError
  | DbIntegrityError
  | DbDataError
  | DbApiError
  | MultipleResultsFound
  | EncRaised enc_error
  | Raised pyerr

text \<open>An \<open>enc_error\<close> or a Python error that the handler does not catch.\<close>

definition enc_raise :: "enc_error + 'a \<Rightarrow> grant_error + 'a" where
  "enc_raise r = (case r of Inl e \<Rightarrow> Inl (EncRaised e) | Inr x \<Rightarrow> Inr x)"

definition py_raise :: "pyerr + 'a \<Rightarrow> grant_error + 'a" where
  "py_raise r = (case r of Inl e \<Rightarrow> Inl (Raised e) | Inr x \<Rightarrow> Inr x)"

text \<open>\<open>scalar_one_or_none\<close>.\<close>

definition one_or_none :: "'a list \<Rightarrow> grant_error + 'a option" where
  "one_or_none xs =
     (case xs of [] \<Rightarrow> Inr None | [x] \<Rightarrow> Inr (Some x) | _ \<Rightarrow> Inl MultipleResultsFound)"

definition falsy :: "pyval option \<Rightarrow> bool" where
  "falsy v = (v \<in> {None, Some VNone, Some (VStr []), Some (VInt 0), Some (VBool False), Some (VList [])})"

text \<open>
  An optional text field of a response: falsy values count as absent, a value that is truthy but
  no string is outside the model.
\<close>

definition text_field :: "payload \<Rightarrow> string \<Rightarrow> grant_error + string option" where
  "text_field p key =
     (let v = map_of p key in
      if falsy v then Inr None
      else (case v of Some (VStr s) \<Rightarrow> Inr (Some s) | _ \<Rightarrow> Inl (Raised NotModelled)))"

definition or_none :: "pyval option \<Rightarrow> pyval" where
  "or_none v = (case v of None \<Rightarrow> VNone | Some x \<Rightarrow> x)"

section \<open>JWE helpers\<close>

definition grant_decrypt :: "oauth_env \<Rightarrow> string \<Rightarrow> grant_error + payload" where
  "grant_decrypt env token =
     (case decrypt_jwe_token (oe_crypto env) (oe_enc env) token of
        Inl e \<Rightarrow> Inl (InvalidGrantError ''token decryption failed'')
      | Inr p \<Rightarrow> Inr p)"

definition grant_token_type :: "payload \<Rightarrow> grant_error + token_type" where
  "grant_token_type payload =
     (case map_of payload ''ttyp'' of
        Some (VStr raw) \<Rightarrow>
          (case token_type_of raw of
             None \<Rightarrow> Inl (InvalidGrantError ''unknown token type'')
           | Some t \<Rightarrow> Inr t)
      | _ \<Rightarrow> Inl (InvalidGrantError ''missing token type''))"

definition grant_uuid :: "payload \<Rightarrow> string \<Rightarrow> grant_error + uuid" where
  "grant_uuid payload key =
     (case map_of payload key of
        Some (VStr raw) \<Rightarrow>
          (case uuid_parse raw of
             None \<Rightarrow> Inl (InvalidGrantError (''invalid '' @ key))
           | Some u \<Rightarrow> Inr u)
      | _ \<Rightarrow> Inl (InvalidGrantError (''missing '' @ key)))"

definition grant_jwe :: "oauth_env \<Rightarrow> nat \<Rightarrow> payload \<Rightarrow> int \<Rightarrow> grant_error + string" where
  "grant_jwe env i payload ttl =
     enc_raise (create_jwe_token (oe_crypto env) (oe_enc env) (oe_now env) (oe_nonce env i) payload (Some ttl))"

section \<open>Clients\<close>

definition get_client_by_client_id :: "'z oauth_db_scheme \<Rightarrow> string \<Rightarrow> oauth_client option" where
  "get_client_by_client_id db client_id = List.find (\<lambda>c. oc_client_id c = client_id) (od_clients db)"

definition load_client :: "'z oauth_db_scheme \<Rightarrow> string \<Rightarrow> grant_error + oauth_client" where
  "load_client db client_id =
     (case get_client_by_client_id db client_id of
        None \<Rightarrow> Inl InvalidClientError
      | Some c \<Rightarrow> if \<not> oc_enabled c then Inl InvalidClientError else Inr c)"

definition authenticate_client ::
    "oauth_env \<Rightarrow> 'z oauth_db_scheme \<Rightarrow> string \<Rightarrow> string \<Rightarrow> grant_error + oauth_client" where
  "authenticate_client env db client_id client_secret =
     (case get_client_by_client_id db client_id of
        None \<Rightarrow> Inl InvalidClientError
      | Some client \<Rightarrow>
          if \<not> oc_enabled client then Inl InvalidClientError
          else
            (case decrypt_value (oe_crypto env) (oe_enc env) (oc_client_secret client) of
               Inl _ \<Rightarrow> Inl InvalidClientError
             | Inr stored \<Rightarrow>
                 bindR (py_raise (compare_digest stored client_secret)) (\<lambda>same.
                   if same then Inr client else Inl InvalidClientError)))"

definition redirect_uri_allowed :: "'z oauth_db_scheme \<Rightarrow> oauth_client \<Rightarrow> string \<Rightarrow> grant_error + bool" where
  "redirect_uri_allowed db client redirect_uri =
     py_raise (any_results (map (\<lambda>p. wildcard_match p redirect_uri)
       (map ru_uri (filter (\<lambda>r. ru_client_id r = oc_id client) (od_uris db)))))"

definition verify_pkce ::
    "oauth_libs \<Rightarrow> pyval \<Rightarrow> pyval \<Rightarrow> string option \<Rightarrow> grant_error + unit" where
  "verify_pkce L challenge method verifier =
     (if challenge = VNone then Inr ()
      else
        (case verifier of
           None \<Rightarrow> Inl (InvalidGrantError ''missing code_verifier'')
         | Some v \<Rightarrow>
             (case (if falsy (Some method) then VStr ''plain'' else method) of
                VStr m \<Rightarrow>
                  bindR (py_raise (derive_code_challenge L v m)) (\<lambda>expected.
                    case challenge of
                      VStr c \<Rightarrow>
                        bindR (py_raise (compare_digest expected c)) (\<lambda>same.
                          if same then Inr ()
                          else Inl (InvalidGrantError ''PKCE verification failed''))
                    | _ \<Rightarrow> Inl (Raised TypeErr))
              | _ \<Rightarrow> Inl (Raised (AttributeErr ''upper'')))))"

section \<open>The state and the code\<close>

record pending_auth =
  pa_client_id :: string
  pa_redirect_uri :: string
  pa_client_state :: pyval
  pa_code_challenge :: pyval
  pa_code_method :: pyval
  pa_response_type :: pyval
  pa_scopes :: "string set"
  pa_idp_verifier :: string

text \<open>The claims recording the client's PKCE challenge, when there is one.\<close>

definition pkce_claims :: "pyval \<Rightarrow> pyval \<Rightarrow> payload" where
  "pkce_claims challenge method =
     (if challenge = VNone then []
      else [(''cc'', challenge),
            (''ccm'', if falsy (Some method) then VStr ''plain'' else method)])"

definition mint_pending_auth ::
    "oauth_env \<Rightarrow> string \<Rightarrow> string \<Rightarrow> string option \<Rightarrow> string set \<Rightarrow> string option \<Rightarrow> string option \<Rightarrow>
     string \<Rightarrow> string \<Rightarrow> grant_error + string" where
  "mint_pending_auth env client_id redirect_uri client_state scopes code_challenge code_method
       idp_verifier response_type =
     grant_jwe env 0
       ([(''cid'', VStr client_id), (''ruri'', VStr redirect_uri), (''rtyp'', VStr response_type),
         (''ivf'', VStr idp_verifier)] @
        (case client_state of None \<Rightarrow> [] | Some s \<Rightarrow> [(''st'', VStr s)]) @
        scope_claim scopes @
        pkce_claims (opt_val VStr code_challenge) (opt_val VStr code_method))
       (seconds 600)"

definition str_item :: "payload \<Rightarrow> string \<Rightarrow> grant_error + string" where
  "str_item p key =
     (case map_of p key of None \<Rightarrow> Inl (Raised (KeyErr key)) | Some v \<Rightarrow> py_raise (py_str v))"

definition decode_pending_auth :: "oauth_env \<Rightarrow> string \<Rightarrow> grant_error + pending_auth" where
  "decode_pending_auth env state =
     bindR (grant_decrypt env state) (\<lambda>p.
       if or_none (map_of p ''ivf'') = VNone \<or> or_none (map_of p ''cid'') = VNone
       then Inl (InvalidGrantError ''invalid state'')
       else
         let response_type = (if falsy (map_of p ''rtyp'') then VStr ''code'' else or_none (map_of p ''rtyp''))
         in bindR (str_item p ''cid'') (\<lambda>client_id.
            bindR (str_item p ''ruri'') (\<lambda>redirect_uri.
            bindR (str_item p ''ivf'') (\<lambda>idp_verifier.
              Inr \<lparr>pa_client_id = client_id, pa_redirect_uri = redirect_uri,
                   pa_client_state = or_none (map_of p ''st''),
                   pa_code_challenge = or_none (map_of p ''cc''),
                   pa_code_method = or_none (map_of p ''ccm''),
                   pa_response_type = response_type, pa_scopes = grant_scopes p,
                   pa_idp_verifier = idp_verifier\<rparr>))))"

definition mint_auth_code ::
    "oauth_env \<Rightarrow> uuid \<Rightarrow> uuid \<Rightarrow> uuid \<Rightarrow> string \<Rightarrow> string \<Rightarrow> string set \<Rightarrow> pyval \<Rightarrow> pyval \<Rightarrow>
     grant_error + string" where
  "mint_auth_code env user_id row_id access_id client_id redirect_uri scopes code_challenge code_method =
     grant_jwe env 3
       ([(''sub'', VStr (uuid_str user_id)), (''ttyp'', VStr ''authorization_code''),
         (''jti'', VStr (uuid_str (oe_uuid env 3))), (''rid'', VStr (uuid_str row_id)),
         (''aid'', VStr (uuid_str access_id)), (''cid'', VStr client_id),
         (''ruri'', VStr redirect_uri)] @
        scope_claim scopes @ pkce_claims code_challenge code_method)
       (seconds 600)"

definition build_authorize_redirect ::
    "oauth_env \<Rightarrow> 'z oauth_db_scheme \<Rightarrow> string \<Rightarrow> string \<Rightarrow> string option \<Rightarrow> string option \<Rightarrow>
     string option \<Rightarrow> string option \<Rightarrow> string \<Rightarrow> string \<Rightarrow> grant_error + string" where
  "build_authorize_redirect env db client_id redirect_uri state scope code_challenge
       code_challenge_method callback_url response_type =
     (if response_type \<notin> {''code'', ''cookie''} then Inl AuthErr
      else
        bindR (load_client db client_id) (\<lambda>client.
        bindR (redirect_uri_allowed db client redirect_uri) (\<lambda>ok.
          if \<not> ok then Inl InvalidRedirectUriError
          else
            let verifier = oe_verifier env in
            bindR (py_raise (derive_code_challenge (oe_libs env) verifier ''S256'')) (\<lambda>idp_challenge.
            bindR (mint_pending_auth env client_id redirect_uri state (normalize_scopes scope)
                     code_challenge code_challenge_method verifier response_type) (\<lambda>idp_state.
              Inr (join_url (idp_base (oe_idp env) (oe_base_url env)) (authorize_path (oe_idp env))
                [(''response_type'', ''code''),
                 (''client_id'', idp_client_id (oe_idp env)),
                 (''redirect_uri'', callback_url),
                 (''state'', idp_state),
                 (''scope'', join_with '' '' (idp_scopes (oe_idp env))),
                 (''code_challenge'', idp_challenge),
                 (''code_challenge_method'', ''S256'')]))))))"

section \<open>The identity provider\<close>

definition idp_token_post :: "oauth_env \<Rightarrow> (string \<times> string) list \<Rightarrow> grant_error + payload" where
  "idp_token_post env data =
     (case oe_post env (join_url (idp_base (oe_idp env) (oe_base_url env)) (token_path (oe_idp env)) []) data of
        Unreachable \<Rightarrow> Inl (IdpError ''unreachable'')
      | Unreadable status e \<Rightarrow> if status \<noteq> 200 then Inl (IdpError ''status'') else Inl (Raised e)
      | Reply status body \<Rightarrow>
          if status \<noteq> 200 then Inl (IdpError ''status'')
          else if map_of body ''access_token'' = None then Inl (IdpError ''missing access_token'')
          else Inr body)"

definition exchange_code_with_idp :: "oauth_env \<Rightarrow> string \<Rightarrow> string \<Rightarrow> string \<Rightarrow> grant_error + payload" where
  "exchange_code_with_idp env code verifier callback_url =
     idp_token_post env
       [(''grant_type'', ''authorization_code''), (''code'', code), (''redirect_uri'', callback_url),
        (''client_id'', idp_client_id (oe_idp env)), (''client_secret'', idp_client_secret (oe_idp env)),
        (''code_verifier'', verifier)]"

definition refresh_with_idp :: "oauth_env \<Rightarrow> string \<Rightarrow> grant_error + payload" where
  "refresh_with_idp env refresh_token =
     idp_token_post env
       [(''grant_type'', ''refresh_token''), (''refresh_token'', refresh_token),
        (''client_id'', idp_client_id (oe_idp env)), (''client_secret'', idp_client_secret (oe_idp env))]"

text \<open>
  \<open>_revoke_with_idp\<close>: the reply is ignored, but the stored credential is decrypted outside the
  \<open>try\<close>, so a credential under a lost key raises.
\<close>

definition revoke_with_idp :: "oauth_env \<Rightarrow> string \<Rightarrow> grant_error + unit" where
  "revoke_with_idp env encrypted_credential =
     (case revocation_path (oe_idp env) of
        None \<Rightarrow> Inr ()
      | Some path \<Rightarrow>
          bindR (enc_raise (decrypt_value (oe_crypto env) (oe_enc env) encrypted_credential))
            (\<lambda>credential. Inr ()))"

section \<open>Provisioning\<close>

text \<open>
  \<open>_unique_username\<close>: \<open>while True\<close> over the suffixes. The result is \<open>None\<close> only if the loop
  does not end.
\<close>

partial_function (option) unique_loop :: "user list \<Rightarrow> string \<Rightarrow> string \<Rightarrow> nat \<Rightarrow> string option" where
  "unique_loop users local candidate n =
     (if \<not> (\<exists>u \<in> set users. u_username u = candidate) then Some candidate
      else unique_loop users local (local @ ''-'' @ dec_of_nat (Suc n)) (Suc n))"

definition username_base :: "string \<Rightarrow> string" where
  "username_base base =
     (let local = take 60 (takeWhile (\<lambda>c. c \<noteq> CHR ''@'') base)
      in if local = [] then ''user'' else local)"

definition unique_username :: "user list \<Rightarrow> string \<Rightarrow> string option" where
  "unique_username users base = unique_loop users (username_base base) (username_base base) 0"

text \<open>\<open>INSERT INTO users\<close>: unique email and username, and the lengths of the columns.\<close>

definition insert_user :: "'z oauth_db_scheme \<Rightarrow> user \<Rightarrow> grant_error + 'z oauth_db_scheme" where
  "insert_user db u =
     (if 64 < length (u_username u) \<or> 254 < length (u_email u) \<or>
         (\<exists>i. u_idp_user_id u = Some i \<and> 255 < length i) then Inl DbDataError
      else if \<exists>v \<in> set (td_users db). u_email v = u_email u \<or> u_username v = u_username u \<or> u_id v = u_id u
      then Inl DbIntegrityError
      else Inr (db\<lparr>td_users := td_users db @ [u]\<rparr>))"

definition find_user_by_idp_id :: "'z oauth_db_scheme \<Rightarrow> string \<Rightarrow> grant_error + user option" where
  "find_user_by_idp_id db idp_user_id =
     one_or_none (filter (\<lambda>u. u_idp_user_id u = Some idp_user_id) (td_users db))"

definition find_user_by_email :: "'z oauth_db_scheme \<Rightarrow> string \<Rightarrow> grant_error + user option" where
  "find_user_by_email db email = one_or_none (filter (\<lambda>u. u_email u = email) (td_users db))"

definition set_user :: "'z oauth_db_scheme \<Rightarrow> user \<Rightarrow> 'z oauth_db_scheme" where
  "set_user db u = db\<lparr>td_users := map (\<lambda>v. if u_id v = u_id u then u else v) (td_users db)\<rparr>"

definition create_provisioned ::
    "oauth_env \<Rightarrow> 'z oauth_db_scheme \<Rightarrow> string option \<Rightarrow> string option \<Rightarrow>
     grant_error + user \<times> 'z oauth_db_scheme" where
  "create_provisioned env db idp_user_id email =
     (let subject = (case idp_user_id of None \<Rightarrow> ''None'' | Some i \<Rightarrow> i) in
      case unique_username (td_users db) (case email of None \<Rightarrow> ''idp-'' @ subject | Some e \<Rightarrow> e) of
        None \<Rightarrow> Inl (Raised NotModelled)
      | Some username \<Rightarrow>
          let u = \<lparr>u_id = oe_uuid env 0,
                   u_email = (case email of None \<Rightarrow> subject @ ''@idp.local'' | Some e \<Rightarrow> e),
                   u_username = username, u_enabled = True, u_password = None,
                   u_idp_user_id = idp_user_id, u_created_at = oe_now env, u_updated_at = oe_now env\<rparr>
          in bindR (insert_user db u) (\<lambda>db'. Inr (u, db')))"

definition provision_user ::
    "oauth_env \<Rightarrow> 'z oauth_db_scheme \<Rightarrow> payload \<Rightarrow> grant_error + user \<times> 'z oauth_db_scheme" where
  "provision_user env db idp_tokens =
     bindR (text_field idp_tokens ''id_token'') (\<lambda>id_token.
       let claims = (case id_token of None \<Rightarrow> [] | Some t \<Rightarrow> decode_id_token (oe_libs env) t);
           idp_user_id = claim claims (user_id_field (oe_idp env)) ''sub'';
           email = claim claims (email_field (oe_idp env)) ''email''
       in
         bindR (case idp_user_id of None \<Rightarrow> Inr None | Some i \<Rightarrow> find_user_by_idp_id db i) (\<lambda>by_id.
           case by_id of
             Some user \<Rightarrow> Inr (user, db)
           | None \<Rightarrow>
               bindR (case email of None \<Rightarrow> Inr None | Some e \<Rightarrow> find_user_by_email db e) (\<lambda>by_email.
                 case by_email of
                   Some user \<Rightarrow>
                     if idp_user_id \<noteq> None \<and> u_idp_user_id user = None
                     then let linked = user\<lparr>u_idp_user_id := idp_user_id, u_updated_at := oe_now env\<rparr>
                          in Inr (linked, set_user db linked)
                     else Inr (user, db)
                 | None \<Rightarrow>
                     if idp_user_id = None \<and> email = None then Inl (IdpError ''no usable claim'')
                     else create_provisioned env db idp_user_id email)))"

section \<open>Stored tokens\<close>

definition grant_encrypt :: "oauth_env \<Rightarrow> nat \<Rightarrow> string \<Rightarrow> grant_error + string" where
  "grant_encrypt env i s =
     enc_raise (encrypt_value (oe_crypto env) (oe_enc env) (oe_now env) (oe_nonce env i) s)"

definition persist_idp_tokens ::
    "oauth_env \<Rightarrow> 'z oauth_db_scheme \<Rightarrow> uuid \<Rightarrow> payload \<Rightarrow>
     grant_error + idp_refresh_token \<times> idp_access_token \<times> 'z oauth_db_scheme" where
  "persist_idp_tokens env db user_id idp_tokens =
     bindR (text_field idp_tokens ''refresh_token'') (\<lambda>refresh.
       case refresh of
         None \<Rightarrow> Inl (IdpError ''missing refresh_token'')
       | Some r \<Rightarrow>
           bindR (text_field idp_tokens ''access_token'') (\<lambda>access.
             case access of
               None \<Rightarrow> Inl (IdpError ''missing access_token'')
             | Some a \<Rightarrow>
                 let drift = expire_drift_tolerance (oe_idp env); now = oe_now env in
                 bindR (grant_encrypt env 1 r) (\<lambda>re.
                 bindR (grant_encrypt env 2 a) (\<lambda>ae.
                   let refresh_row = \<lparr>rt_id = oe_uuid env 1, rt_creator_id = user_id,
                         rt_refresh_token = re,
                         rt_expires_at = idp_refresh_expiry now idp_tokens drift (oe_idp env),
                         rt_created_at = now, rt_updated_at = now\<rparr>;
                       access_row = \<lparr>at_id = oe_uuid env 2, at_refresh_token_id = oe_uuid env 1,
                         at_access_token = ae,
                         at_expires_at = idp_access_expiry now idp_tokens drift (oe_idp env),
                         at_created_at = now, at_updated_at = now\<rparr>
                   in Inr (refresh_row, access_row,
                           db\<lparr>td_refresh_tokens := td_refresh_tokens db @ [refresh_row],
                              td_access_tokens := td_access_tokens db @ [access_row]\<rparr>)))))"

definition load_token_rows ::
    "'z oauth_db_scheme \<Rightarrow> uuid \<Rightarrow> uuid \<Rightarrow> idp_refresh_token option \<times> idp_access_token option" where
  "load_token_rows db refresh_id access_id =
     (List.find (\<lambda>r. rt_id r = refresh_id) (td_refresh_tokens db),
      List.find (\<lambda>a. at_id a = access_id) (td_access_tokens db))"

text \<open>
  \<open>lock\<close> says whether the row lock was granted before the lock timeout. A timeout should be a
  \<open>RefreshLockTimeoutError\<close>, but that is made from an \<open>OperationalError\<close>, and SQLAlchemy's asyncpg dialect reports
  asyncpg's \<open>LockNotAvailableError\<close> as a plain \<open>DBAPIError\<close>, which nothing catches.
\<close>

definition lock_token_rows ::
    "bool \<Rightarrow> 'z oauth_db_scheme \<Rightarrow> uuid \<Rightarrow>
     grant_error + idp_refresh_token option \<times> idp_access_token option" where
  "lock_token_rows lock db refresh_id =
     (if \<not> lock then Inl DbApiError
      else
        (case List.find (\<lambda>r. rt_id r = refresh_id) (td_refresh_tokens db) of
           None \<Rightarrow> Inr (None, None)
         | Some refresh_row \<Rightarrow>
             bindR (one_or_none (filter (\<lambda>a. at_refresh_token_id a = rt_id refresh_row) (td_access_tokens db)))
               (\<lambda>access_row. Inr (Some refresh_row, access_row))))"

definition set_rows ::
    "'z oauth_db_scheme \<Rightarrow> idp_refresh_token \<Rightarrow> idp_access_token \<Rightarrow> 'z oauth_db_scheme" where
  "set_rows db r a =
     db\<lparr>td_refresh_tokens := map (\<lambda>x. if rt_id x = rt_id r then r else x) (td_refresh_tokens db),
        td_access_tokens := map (\<lambda>x. if at_id x = at_id a then a else x) (td_access_tokens db)\<rparr>"

definition refresh_rows ::
    "oauth_env \<Rightarrow> 'z oauth_db_scheme \<Rightarrow> idp_refresh_token \<Rightarrow> idp_access_token \<Rightarrow>
     grant_error + idp_refresh_token \<times> idp_access_token \<times> 'z oauth_db_scheme" where
  "refresh_rows env db refresh_row access_row =
     bindR (enc_raise (decrypt_value (oe_crypto env) (oe_enc env) (rt_refresh_token refresh_row))) (\<lambda>idp_refresh.
     bindR (refresh_with_idp env idp_refresh) (\<lambda>idp_tokens.
     bindR (text_field idp_tokens ''refresh_token'') (\<lambda>new_refresh.
     bindR (text_field idp_tokens ''access_token'') (\<lambda>new_access.
       case new_access of
         None \<Rightarrow> Inl (IdpError ''missing access_token'')
       | Some a \<Rightarrow>
           let drift = expire_drift_tolerance (oe_idp env); now = oe_now env in
           bindR (grant_encrypt env 1 (case new_refresh of None \<Rightarrow> idp_refresh | Some r \<Rightarrow> r)) (\<lambda>re.
           bindR (grant_encrypt env 2 a) (\<lambda>ae.
             let r' = refresh_row\<lparr>rt_refresh_token := re,
                        rt_expires_at := idp_refresh_expiry now idp_tokens drift (oe_idp env),
                        rt_updated_at := now\<rparr>;
                 a' = access_row\<lparr>at_access_token := ae,
                        at_expires_at := idp_access_expiry now idp_tokens drift (oe_idp env),
                        at_updated_at := now\<rparr>
             in Inr (r', a', set_rows db r' a')))))))"

definition refresh_rows_if_needed ::
    "oauth_env \<Rightarrow> 'z oauth_db_scheme \<Rightarrow> idp_refresh_token \<Rightarrow> idp_access_token \<Rightarrow>
     grant_error + idp_refresh_token \<times> idp_access_token \<times> 'z oauth_db_scheme" where
  "refresh_rows_if_needed env db refresh_row access_row =
     (if oe_now env < at_expires_at access_row then Inr (refresh_row, access_row, db)
      else refresh_rows env db refresh_row access_row)"

section \<open>Token pairs\<close>

record token_pair =
  tp_access_token :: string
  tp_refresh_token :: string
  tp_expires_in :: int
  tp_refresh_expires_at :: datetime
  tp_access_expires_at :: datetime
  tp_id_token :: "string option"

definition grant_access_token ::
    "oauth_env \<Rightarrow> uuid \<Rightarrow> idp_access_token \<Rightarrow> string set \<Rightarrow> grant_error + string" where
  "grant_access_token env user_id access_row scopes =
     grant_jwe env 4
       ([(''sub'', VStr (uuid_str user_id)), (''ttyp'', VStr (token_type_value ACCESS_TOKEN)),
         (''jti'', VStr (uuid_str (oe_uuid env 4))), (''aid'', VStr (uuid_str (at_id access_row)))] @
        scope_claim scopes)
       (row_ttl (oe_now env) (at_expires_at access_row))"

definition grant_refresh_token ::
    "oauth_env \<Rightarrow> uuid \<Rightarrow> idp_refresh_token \<Rightarrow> string set \<Rightarrow> grant_error + string" where
  "grant_refresh_token env user_id refresh_row scopes =
     grant_jwe env 5
       ([(''sub'', VStr (uuid_str user_id)), (''ttyp'', VStr (token_type_value IDP_REFRESH_TOKEN)),
         (''jti'', VStr (uuid_str (oe_uuid env 5))), (''rid'', VStr (uuid_str (rt_id refresh_row)))] @
        scope_claim scopes)
       (row_ttl (oe_now env) (rt_expires_at refresh_row))"

definition issuer :: "oauth_env \<Rightarrow> string" where
  "issuer env = rstrip_slash (oe_base_url env)"

text \<open>The claims of a user that the granted scopes release.\<close>

definition user_claims :: "user \<Rightarrow> string set \<Rightarrow> payload" where
  "user_claims user scopes =
     (if ''email'' \<in> scopes
      then [(''email'', VStr (u_email user)), (''email_verified'', VBool False)] else []) @
     (if ''profile'' \<in> scopes
      then [(''name'', VStr (u_username user)), (''preferred_username'', VStr (u_username user))] else [])"

definition mint_id_token ::
    "oauth_env \<Rightarrow> user \<Rightarrow> string \<Rightarrow> string set \<Rightarrow> datetime \<Rightarrow> grant_error + string" where
  "mint_id_token env user client_id scopes access_expires_at =
     (let now = oe_now env;
          left = min (seconds 900) (access_expires_at - now);
          ttl = (if left \<le> 0 then seconds 1 else left)
      in enc_raise (create_jws_token (oe_crypto env) (oe_enc env) now
           ([(''iss'', VStr (issuer env)), (''sub'', VStr (uuid_str (u_id user))),
             (''aud'', VStr client_id), (''iat'', VInt (epoch now)),
             (''exp'', VInt (epoch (now + ttl)))] @ user_claims user scopes)
           (Some ttl)))"

definition mint_token_pair ::
    "oauth_env \<Rightarrow> 'z oauth_db_scheme \<Rightarrow> uuid \<Rightarrow> idp_refresh_token \<Rightarrow> idp_access_token \<Rightarrow> string \<Rightarrow>
     string set \<Rightarrow> grant_error + token_pair" where
  "mint_token_pair env db user_id refresh_row access_row client_id scopes =
     bindR (grant_access_token env user_id access_row scopes) (\<lambda>access.
     bindR (grant_refresh_token env user_id refresh_row scopes) (\<lambda>refresh.
     bindR (if ''openid'' \<in> scopes
            then (case load_user db user_id of
                    None \<Rightarrow> Inr None
                  | Some user \<Rightarrow>
                      bindR (mint_id_token env user client_id scopes (at_expires_at access_row))
                        (\<lambda>t. Inr (Some t)))
            else Inr None) (\<lambda>id_token.
       Inr \<lparr>tp_access_token = access, tp_refresh_token = refresh,
            tp_expires_in = seconds_until (oe_now env) (at_expires_at access_row),
            tp_refresh_expires_at = rt_expires_at refresh_row,
            tp_access_expires_at = at_expires_at access_row, tp_id_token = id_token\<rparr>)))"

definition build_userinfo_claims ::
    "'z oauth_db_scheme \<Rightarrow> uuid \<Rightarrow> string set \<Rightarrow> payload option" where
  "build_userinfo_claims db user_id scopes =
     (case load_user db user_id of
        None \<Rightarrow> None
      | Some user \<Rightarrow>
          if \<not> u_enabled user then None
          else Some ((''sub'', VStr (uuid_str (u_id user))) # user_claims user scopes))"

section \<open>The endpoints\<close>

record callback_context =
  cc_user_id :: uuid
  cc_row_id :: uuid
  cc_access_id :: uuid
  cc_access_expires_at :: datetime
  cc_client_id :: string
  cc_redirect_uri :: string
  cc_client_state :: pyval
  cc_response_type :: pyval
  cc_scopes :: "string set"
  cc_auth_code :: "string option"
  cc_expires_in :: int

definition handle_callback ::
    "oauth_env \<Rightarrow> 'z oauth_db_scheme \<Rightarrow> string \<Rightarrow> string \<Rightarrow> string \<Rightarrow>
     grant_error + callback_context \<times> 'z oauth_db_scheme" where
  "handle_callback env db code state callback_url =
     bindR (decode_pending_auth env state) (\<lambda>pending.
     bindR (exchange_code_with_idp env code (pa_idp_verifier pending) callback_url) (\<lambda>idp_tokens.
     bindR (provision_user env db idp_tokens) (\<lambda>(user, db1).
     bindR (persist_idp_tokens env db1 (u_id user) idp_tokens) (\<lambda>(refresh_row, access_row, db2).
     bindR (if pa_response_type pending = VStr ''code''
            then bindR (mint_auth_code env (u_id user) (rt_id refresh_row) (at_id access_row)
                   (pa_client_id pending) (pa_redirect_uri pending) (pa_scopes pending)
                   (pa_code_challenge pending) (pa_code_method pending)) (\<lambda>c. Inr (Some c))
            else Inr None) (\<lambda>auth_code.
       Inr (\<lparr>cc_user_id = u_id user, cc_row_id = rt_id refresh_row, cc_access_id = at_id access_row,
             cc_access_expires_at = at_expires_at access_row, cc_client_id = pa_client_id pending,
             cc_redirect_uri = pa_redirect_uri pending, cc_client_state = pa_client_state pending,
             cc_response_type = pa_response_type pending, cc_scopes = pa_scopes pending,
             cc_auth_code = auth_code,
             cc_expires_in = seconds_until (oe_now env) (at_expires_at access_row)\<rparr>, db2))))))"

definition exchange_authorization_code ::
    "oauth_env \<Rightarrow> 'z oauth_db_scheme \<Rightarrow> string \<Rightarrow> string \<Rightarrow> string \<Rightarrow> string \<Rightarrow> string option \<Rightarrow>
     grant_error + token_pair" where
  "exchange_authorization_code env db code redirect_uri client_id client_secret code_verifier =
     bindR (authenticate_client env db client_id client_secret) (\<lambda>client.
     bindR (grant_decrypt env code) (\<lambda>payload.
       if map_of payload ''ttyp'' \<noteq> Some (VStr ''authorization_code'')
       then Inl (InvalidGrantError ''not an authorization code'')
       else if map_of payload ''ruri'' \<noteq> Some (VStr redirect_uri)
       then Inl (InvalidGrantError ''redirect_uri mismatch'')
       else
         bindR (verify_pkce (oe_libs env) (or_none (map_of payload ''cc'')) (or_none (map_of payload ''ccm''))
                  code_verifier) (\<lambda>_.
         bindR (grant_uuid payload ''sub'') (\<lambda>user_id.
         bindR (grant_uuid payload ''rid'') (\<lambda>row_id.
         bindR (grant_uuid payload ''aid'') (\<lambda>access_id.
           case load_token_rows db row_id access_id of
             (Some refresh_row, access) \<Rightarrow>
               if rt_creator_id refresh_row \<noteq> user_id then Inl (InvalidGrantError ''stale authorization code'')
               else
                 (case access of
                    None \<Rightarrow> Inl (InvalidGrantError ''stale authorization code'')
                  | Some access_row \<Rightarrow>
                      if at_refresh_token_id access_row \<noteq> rt_id refresh_row
                      then Inl (InvalidGrantError ''stale authorization code'')
                      else mint_token_pair env db user_id refresh_row access_row client_id
                             (grant_scopes payload))
           | (None, _) \<Rightarrow> Inl (InvalidGrantError ''stale authorization code'')))))))"

definition exchange_refresh_token ::
    "oauth_env \<Rightarrow> bool \<Rightarrow> 'z oauth_db_scheme \<Rightarrow> string \<Rightarrow> string \<Rightarrow> string \<Rightarrow>
     grant_error + token_pair \<times> 'z oauth_db_scheme" where
  "exchange_refresh_token env lock db refresh_token client_id client_secret =
     bindR (authenticate_client env db client_id client_secret) (\<lambda>_.
     bindR (grant_decrypt env refresh_token) (\<lambda>payload.
     bindR (grant_token_type payload) (\<lambda>ty.
       if ty \<noteq> IDP_REFRESH_TOKEN then Inl (InvalidGrantError ''not a refresh token'')
       else
         bindR (grant_uuid payload ''rid'') (\<lambda>row_id.
         bindR (grant_uuid payload ''sub'') (\<lambda>user_id.
         bindR (lock_token_rows lock db row_id) (\<lambda>rows.
           case rows of
             (None, _) \<Rightarrow> Inl (InvalidGrantError ''refresh token not recognized'')
           | (Some refresh_row, access) \<Rightarrow>
               if rt_creator_id refresh_row \<noteq> user_id
               then Inl (InvalidGrantError ''refresh token not recognized'')
               else if rt_expires_at refresh_row \<le> oe_now env
               then Inl (InvalidGrantError ''refresh token expired'')
               else
                 (case access of
                    None \<Rightarrow> Inl (InvalidGrantError ''refresh token not recognized'')
                  | Some access_row \<Rightarrow>
                      bindR (refresh_rows env db refresh_row access_row) (\<lambda>(r', a', db').
                      bindR (mint_token_pair env db' user_id r' a' client_id (grant_scopes payload))
                        (\<lambda>pair. Inr (pair, db'))))))))))"

text \<open>Deleting a refresh-token row cascades to its access-token rows.\<close>

definition delete_refresh_row :: "'z oauth_db_scheme \<Rightarrow> uuid \<Rightarrow> 'z oauth_db_scheme" where
  "delete_refresh_row db row_id =
     db\<lparr>td_refresh_tokens := filter (\<lambda>r. rt_id r \<noteq> row_id) (td_refresh_tokens db),
        td_access_tokens := filter (\<lambda>a. at_refresh_token_id a \<noteq> row_id) (td_access_tokens db)\<rparr>"

definition revoke_payload ::
    "oauth_env \<Rightarrow> 'z oauth_db_scheme \<Rightarrow> string \<Rightarrow> grant_error + 'z oauth_db_scheme" where
  "revoke_payload env db token =
     bindR (grant_decrypt env token) (\<lambda>payload.
     bindR (grant_token_type payload) (\<lambda>ty.
       if ty = IDP_REFRESH_TOKEN then
         bindR (grant_uuid payload ''rid'') (\<lambda>row_id.
           case List.find (\<lambda>r. rt_id r = row_id) (td_refresh_tokens db) of
             None \<Rightarrow> Inr db
           | Some refresh_row \<Rightarrow>
               bindR (revoke_with_idp env (rt_refresh_token refresh_row)) (\<lambda>_.
                 Inr (delete_refresh_row db row_id)))
       else if ty = ACCESS_TOKEN then
         bindR (grant_uuid payload ''aid'') (\<lambda>access_id.
           case List.find (\<lambda>a. at_id a = access_id) (td_access_tokens db) of
             None \<Rightarrow> Inr db
           | Some access_row \<Rightarrow>
               bindR (revoke_with_idp env (at_access_token access_row)) (\<lambda>_.
                 Inr (db\<lparr>td_access_tokens := map (\<lambda>a. if at_id a = access_id
                        then a\<lparr>at_expires_at := oe_now env, at_updated_at := oe_now env\<rparr> else a)
                        (td_access_tokens db)\<rparr>)))
       else Inr db))"

definition revoke_token ::
    "oauth_env \<Rightarrow> 'z oauth_db_scheme \<Rightarrow> string \<Rightarrow> string \<Rightarrow> string \<Rightarrow> grant_error + 'z oauth_db_scheme" where
  "revoke_token env db token client_id client_secret =
     bindR (authenticate_client env db client_id client_secret) (\<lambda>_.
       case revoke_payload env db token of
         Inl (InvalidGrantError _) \<Rightarrow> Inr db
       | r \<Rightarrow> r)"

definition revoke_session ::
    "oauth_env \<Rightarrow> 'z oauth_db_scheme \<Rightarrow> string \<Rightarrow> grant_error + 'z oauth_db_scheme" where
  "revoke_session env db cookie_token =
     (case grant_decrypt env cookie_token of
        Inl _ \<Rightarrow> Inr db
      | Inr payload \<Rightarrow>
          (case grant_token_type payload of
             Inl _ \<Rightarrow> Inr db
           | Inr ty \<Rightarrow>
               if ty \<noteq> COOKIE then Inr db
               else
                 (case map_of payload ''aid'' of
                    Some (VStr raw) \<Rightarrow>
                      (case uuid_parse raw of
                         None \<Rightarrow> Inr db
                       | Some access_id \<Rightarrow>
                           (case List.find (\<lambda>a. at_id a = access_id) (td_access_tokens db) of
                              None \<Rightarrow> Inr db
                            | Some access_row \<Rightarrow>
                                (case List.find (\<lambda>r. rt_id r = at_refresh_token_id access_row) (td_refresh_tokens db) of
                                   None \<Rightarrow> Inr db
                                 | Some refresh_row \<Rightarrow>
                                     bindR (revoke_with_idp env (rt_refresh_token refresh_row)) (\<lambda>_.
                                     bindR (revoke_with_idp env (at_access_token access_row)) (\<lambda>_.
                                       Inr (delete_refresh_row db (rt_id refresh_row)))))))
                  | _ \<Rightarrow> Inr db)))"

definition delete_expired_tokens :: "oauth_env \<Rightarrow> 'z oauth_db_scheme \<Rightarrow> 'z oauth_db_scheme \<times> nat" where
  "delete_expired_tokens env db =
     (let cutoff = oe_now env - seconds (delete_expired_seconds (oe_idp env));
          old = filter (\<lambda>r. rt_expires_at r < cutoff) (td_refresh_tokens db)
      in (db\<lparr>td_refresh_tokens := filter (\<lambda>r. \<not> rt_expires_at r < cutoff) (td_refresh_tokens db),
             td_access_tokens := filter (\<lambda>a. at_refresh_token_id a \<notin> rt_id ` set old) (td_access_tokens db)\<rparr>,
          length old))"

text \<open>
  The access row is loaded before the wait for the lock (\<open>before\<close>), and the session's identity map hands out that
  object, with the values it had, for the row it reads again under the lock (\<open>db\<close>).
\<close>

definition refresh_access_token ::
    "oauth_env \<Rightarrow> bool \<Rightarrow> 'z oauth_db_scheme \<Rightarrow> 'z oauth_db_scheme \<Rightarrow> uuid \<Rightarrow>
     grant_error + idp_access_token \<times> idp_refresh_token \<times> 'z oauth_db_scheme" where
  "refresh_access_token env lock before db access_token_id =
     (case List.find (\<lambda>a. at_id a = access_token_id) (td_access_tokens before) of
        None \<Rightarrow> Inl (InvalidGrantError ''access token not recognized'')
      | Some access_row \<Rightarrow>
          bindR (lock_token_rows lock db (at_refresh_token_id access_row)) (\<lambda>rows.
            case rows of
              (None, _) \<Rightarrow> Inl (InvalidGrantError ''access token not recognized'')
            | (Some refresh_row, locked_access) \<Rightarrow>
                let row = (case locked_access of None \<Rightarrow> access_row | Some a \<Rightarrow> if at_id a = at_id access_row then access_row else a) in
                if rt_expires_at refresh_row \<le> oe_now env
                then Inl (InvalidGrantError ''refresh token expired'')
                else bindR (refresh_rows_if_needed env db refresh_row row) (\<lambda>(r', a', db').
                       Inr (a', r', db'))))"

end
