(* ===== verification/TokenLaws.thy ===== *)
theory TokenLaws
  imports Tokens
begin

text \<open>
  The laws of credentials: generated API keys are distinct and bounded, a created key
  authenticates exactly while its row allows it, a minted JWE authenticates its user exactly until
  the expiry of the identity-provider row behind it, and nothing else authenticates.
\<close>

section \<open>Base 52\<close>

lemma alphabet_shape: "length BASE52_ALPHABET = 52" "distinct BASE52_ALPHABET"
  "set BASE52_ALPHABET \<inter> AMBIGUOUS = {}"
  by (auto simp: BASE52_ALPHABET_def AMBIGUOUS_def)

lemma base52_loop_eq: "0 < n \<Longrightarrow> base52_loop n cs = cs @ rev (map ((!) BASE52_ALPHABET) (digits_of 52 n))"
proof (induction n cs rule: base52_loop.induct)
  case (1 n cs)
  show ?case
  proof (cases "n < 52")
    case True
    then show ?thesis using 1(2) by (subst digits_of.simps) (simp add: base52_loop.simps)
  next
    case False
    have "digits_of 52 n = digits_of 52 (n div 52) @ [n mod 52]"
      using False by (subst digits_of.simps) simp
    then show ?thesis using 1 False by (subst base52_loop.simps) simp
  qed
qed

lemma base52_encode_eq:
  "base52_encode bytes = map ((!) BASE52_ALPHABET) (digits_of 52 (num_of_digits 256 bytes))"
  by (cases "num_of_digits 256 bytes = 0")
     (simp_all add: base52_encode_def base52_loop_eq digits_of.simps [of 52 0] rev_map)

lemma num_of_digits_less: "\<forall>d \<in> set ds. d < b \<Longrightarrow> num_of_digits b ds < b ^ length ds"
proof (induction ds rule: rev_induct)
  case Nil
  then show ?case by (simp add: num_of_digits_def)
next
  case (snoc d ds)
  then have "num_of_digits b ds + 1 \<le> b ^ length ds" "d < b" by auto
  then have "(num_of_digits b ds + 1) * b \<le> b ^ length ds * b" "d < b"
    by (simp_all only: mult_le_mono1)
  then have "num_of_digits b ds * b + d < b ^ length ds * b" by (simp add: algebra_simps)
  then show ?case by (simp add: num_of_digits_append mult.commute)
qed

lemma num_of_digits_inj:
  "length xs = length ys \<Longrightarrow> \<forall>d \<in> set xs. d < b \<Longrightarrow> \<forall>d \<in> set ys. d < b \<Longrightarrow>
   num_of_digits b xs = num_of_digits b ys \<Longrightarrow> xs = ys"
proof (induction xs arbitrary: ys rule: rev_induct)
  case Nil
  then show ?case by simp
next
  case (snoc x xs)
  obtain y zs where ys: "ys = zs @ [y]" using snoc.prems(1) by (cases ys rule: rev_cases) auto
  have "(num_of_digits b xs * b + x) div b = (num_of_digits b zs * b + y) div b"
    "(num_of_digits b xs * b + x) mod b = (num_of_digits b zs * b + y) mod b"
    using snoc.prems(4) by (simp_all add: ys num_of_digits_append)
  then have "num_of_digits b xs = num_of_digits b zs" "x = y"
    using snoc.prems(2,3) by (auto simp: ys)
  then show ?case using snoc by (simp add: ys)
qed

lemma base52_inj:
  assumes "length xs = length ys" "\<forall>d \<in> set xs. d < 256" "\<forall>d \<in> set ys. d < 256"
    and "base52_encode xs = base52_encode ys"
  shows "xs = ys"
proof -
  have "inj_on ((!) BASE52_ALPHABET) {..<52}"
    using inj_on_nth [OF alphabet_shape(2), of "{..<52}"] by (simp add: alphabet_shape)
  then have "inj_on ((!) BASE52_ALPHABET)
      (set (digits_of 52 (num_of_digits 256 xs)) \<union> set (digits_of 52 (num_of_digits 256 ys)))"
    by (rule inj_on_subset) (auto dest: digits_of_bound [of 52, simplified])
  then have "digits_of 52 (num_of_digits 256 xs) = digits_of 52 (num_of_digits 256 ys)"
    using assms(4) map_inj_on unfolding base52_encode_eq by blast
  then have "num_of_digits 256 xs = num_of_digits 256 ys" by (rule digits_of_inj [rotated]) simp
  then show ?thesis using num_of_digits_inj [OF assms(1,2,3)] by blast
qed

lemma base52_length:
  assumes "length xs = 16" "\<forall>d \<in> set xs. d < 256"
  shows "length (base52_encode xs) \<le> 23"
proof -
  have "num_of_digits 256 xs < 256 ^ 16" using num_of_digits_less [OF assms(2)] assms(1) by simp
  also have "(256 ^ 16 :: nat) < 52 ^ 23" by simp
  finally show ?thesis unfolding base52_encode_eq using digits_of_length [of 52 _ 23] by simp
qed

lemma base52_chars: "set (base52_encode xs) \<subseteq> set BASE52_ALPHABET"
  unfolding base52_encode_eq using digits_of_bound [of 52] by (auto simp: alphabet_shape intro!: nth_mem)

text \<open>API key values: the alphabet has 52 characters and none of the ambiguous ones; a key made
  of 16 random bytes starts with \<open>oh_\<close>, is at most 26 characters long and shows at most 7 of them
  in listings; different random bytes give different keys.\<close>

theorem api_key_values:
  assumes "length bytes = API_KEY_RANDOM_BITS div 8" and "\<forall>b \<in> set bytes. b < 256"
    and "length bytes' = API_KEY_RANDOM_BITS div 8" and "\<forall>b \<in> set bytes'. b < 256"
  shows "length BASE52_ALPHABET = 52 \<and> set BASE52_ALPHABET \<inter> AMBIGUOUS = {} \<and>
    prefix API_KEY_PREFIX (generate_api_key_value bytes) \<and>
    length (generate_api_key_value bytes) \<le> 26 \<and>
    set (drop 3 (generate_api_key_value bytes)) \<subseteq> set BASE52_ALPHABET \<and>
    prefix (api_key_display_prefix (generate_api_key_value bytes)) (generate_api_key_value bytes) \<and>
    length (api_key_display_prefix (generate_api_key_value bytes)) \<le> 7 \<and>
    (generate_api_key_value bytes = generate_api_key_value bytes' \<longleftrightarrow> bytes = bytes')"
  using assms base52_length [of bytes] base52_inj [of bytes bytes'] base52_chars [of bytes]
  by (auto simp: alphabet_shape generate_api_key_value_def API_KEY_PREFIX_def API_KEY_RANDOM_BITS_def
      api_key_display_prefix_def API_KEY_PREFIX_DISPLAY_LEN_def take_is_prefix)

theorem api_key_values_witness:
  "length (generate_api_key_value (replicate 16 255)) \<le> 26 \<and>
   generate_api_key_value (replicate 16 255) \<noteq> generate_api_key_value (replicate 16 0)"
proof -
  have l: "length (replicate 16 b) = API_KEY_RANDOM_BITS div 8" for b :: nat
    by (simp add: API_KEY_RANDOM_BITS_def)
  have "\<forall>b \<in> set (replicate 16 (255 :: nat)). b < 256" "\<forall>b \<in> set (replicate 16 (0 :: nat)). b < 256"
    by simp_all
  from api_key_values [OF l this(1) l this(2)] show ?thesis by simp
qed

section \<open>API key authentication\<close>

lemma find_append:
  "List.find P (xs @ ys) = (case List.find P xs of None \<Rightarrow> List.find P ys | Some x \<Rightarrow> Some x)"
  by (induction xs) auto

lemma find_none: "(\<And>x. x \<in> set xs \<Longrightarrow> \<not> P x) \<Longrightarrow> List.find P xs = None"
  by (induction xs) auto

text \<open>The row a new key is stored in is the one its raw value is looked up by.\<close>

lemma created_key_found:
  assumes "create_api_key C db now new_id bytes u name enabled e r sys = Inr (raw, row, db')"
  shows "load_api_key_row db' (hash_api_key_value C raw) = Some row" "td_users db' = td_users db"
    "raw = generate_api_key_value bytes" "ak_key_hash row = hash_api_key_value C raw"
    "ak_id row = new_id" "ak_creator_id row = u" "ak_enabled row = enabled"
    "ak_expires_at row = e" "ak_role_id row = r" "ak_prefix row = api_key_display_prefix raw"
    "\<And>h. h \<noteq> hash_api_key_value C raw \<Longrightarrow> load_api_key_row db' h = load_api_key_row db h"
  using assms
  by (auto simp: create_api_key_def load_api_key_row_def Let_def find_append find_none
      split: if_splits option.split)

text \<open>C7. The life of an API key: a created key authenticates, under any service, exactly while its
  row's expiry is in the future and its owner exists and is enabled; the token carries the row's
  owner, restricting role and enabled flag; the row keeps only the hash and a prefix of seven
  characters; keys with another hash are not affected.\<close>

theorem api_key_lifecycle:
  assumes "create_api_key C db now new_id bytes u name enabled e r sys = Inr (raw, row, db')"
    and "t < DATETIME_MAX"
  shows "(case authenticate C enc db' t t' allow raw of
       Inr tok \<Rightarrow>
         (\<forall>x. e = Some x \<longrightarrow> t < x) \<and> (\<exists>usr. load_user db u = Some usr \<and> u_enabled usr) \<and>
         tok_user_id tok = u \<and> tok_type tok = API_KEY \<and> tok_role_id tok = r \<and>
         tok_enabled tok = enabled \<and> tok_id tok = new_id
     | Inl err \<Rightarrow>
         (\<exists>x. e = Some x \<and> x \<le> t) \<or> (\<forall>usr. load_user db u = Some usr \<longrightarrow> \<not> u_enabled usr)) \<and>
    length (ak_prefix row) \<le> 7 \<and>
    (\<forall>other. hash_api_key_value C other \<noteq> hash_api_key_value C raw \<longrightarrow>
       prefix API_KEY_PREFIX other \<longrightarrow>
       authenticate C enc db' t t' allow other = authenticate C enc db t t' allow other)"
proof -
  note k = created_key_found [OF assms(1)]
  have p: "prefix API_KEY_PREFIX raw" by (simp add: k(3) generate_api_key_value_def)
  have u: "load_user db' = load_user db" by (simp add: load_user_def k(2) fun_eq_iff)
  show ?thesis
  proof (intro conjI)
    show "case authenticate C enc db' t t' allow raw of
       Inr tok \<Rightarrow>
         (\<forall>x. e = Some x \<longrightarrow> t < x) \<and> (\<exists>usr. load_user db u = Some usr \<and> u_enabled usr) \<and>
         tok_user_id tok = u \<and> tok_type tok = API_KEY \<and> tok_role_id tok = r \<and>
         tok_enabled tok = enabled \<and> tok_id tok = new_id
     | Inl err \<Rightarrow>
         (\<exists>x. e = Some x \<and> x \<le> t) \<or> (\<forall>usr. load_user db u = Some usr \<longrightarrow> \<not> u_enabled usr)"
      using p assms(2)
      by (auto simp: authenticate_def authenticate_api_key_def k(1,5-9) u Let_def split: option.split)
    show "length (ak_prefix row) \<le> 7"
      by (simp add: k(10) api_key_display_prefix_def API_KEY_PREFIX_DISPLAY_LEN_def)
    show "\<forall>other. hash_api_key_value C other \<noteq> hash_api_key_value C raw \<longrightarrow>
       prefix API_KEY_PREFIX other \<longrightarrow>
       authenticate C enc db' t t' allow other = authenticate C enc db t t' allow other"
      unfolding authenticate_def authenticate_api_key_def u by (simp add: k(11))
  qed
qed

definition witness_user :: user where
  "witness_user = \<lparr>u_id = 7, u_email = ''a@b.c'', u_username = ''abc'', u_enabled = True,
     u_password = None, u_idp_user_id = None, u_created_at = 0, u_updated_at = 0\<rparr>"

definition witness_tokens :: token_db where
  "witness_tokens = \<lparr>td_users = [witness_user], td_api_keys = [], td_refresh_tokens = [],
     td_access_tokens = []\<rparr>"

theorem api_key_lifecycle_witness:
  "\<exists>raw row db' tok. create_api_key ref_crypto witness_tokens 0 1 (replicate 16 3) 7 None True (Some 50) (Some 4) False =
      Inr (raw, row, db') \<and>
     authenticate ref_crypto (encryption_service key_a [key_a]) db' 20 20 False raw = Inr tok \<and> tok_user_id tok = 7 \<and>
     tok_role_id tok = Some 4"
proof -
  obtain raw row db' where c: "create_api_key ref_crypto witness_tokens 0 1 (replicate 16 3) 7 None True (Some 50) (Some 4) False =
      Inr (raw, row, db')"
    by (simp add: create_api_key_def witness_tokens_def Let_def)
  have "(20 :: datetime) < DATETIME_MAX" by (simp add: DATETIME_MAX_def)
  from api_key_lifecycle [OF c this, of "encryption_service key_a [key_a]" 20 False]
  show ?thesis using c
    by (auto simp: load_user_def witness_tokens_def witness_user_def split: sum.splits)
qed

section \<open>Minted tokens\<close>

lemma not_api_key_prefix: "take 3 token = ''eyJ'' \<Longrightarrow> \<not> prefix API_KEY_PREFIX token"
  by (auto simp: prefix_def API_KEY_PREFIX_def)

text \<open>What authentication reads of the claims every minted token carries.\<close>

definition minted_as :: "token_type \<Rightarrow> uuid \<Rightarrow> uuid \<Rightarrow> datetime \<Rightarrow> int \<Rightarrow> payload \<Rightarrow> bool" where
  "minted_as ty u jti now ttl p =
     (token_type_claim p = Inr ty \<and> user_id_claim p = Inr u \<and> jti_claim p = Inr jti \<and>
      iat_claim p = Inr (from_epoch (epoch now)) \<and> exp_claim p = from_epoch (epoch (now + ttl)) \<and>
      scopes_from_payload p = {})"

lemmas claim_defs = token_type_claim_def user_id_claim_def jti_claim_def row_id_claim_def
  uuid_claim_def iat_claim_def exp_claim_def int_claim_def scopes_from_payload_def

lemma minted_token:
  assumes "crypto_ok C" "shares_key enc enc'"
    and "enc_result (create_jwe_token C enc now nonce
       ([(''sub'', VStr (uuid_str u)), (''ttyp'', VStr (token_type_value ty)),
         (''jti'', VStr (uuid_str jti))] @ extra) (Some ttl)) = Inr token"
    and "json_ok extra" "map_of extra ''scp'' = None" "map_of extra ''iat'' = None" "map_of extra ''exp'' = None"
  shows "\<not> prefix API_KEY_PREFIX token \<and>
    (\<exists>p. decrypt_claims C enc' token = Inr p \<and> minted_as ty u jti now ttl p \<and>
         (\<forall>k v. map_of extra k = Some v \<longrightarrow> k \<notin> {''sub'', ''ttyp'', ''jti''} \<longrightarrow> map_of p k = Some v))"
proof -
  let ?pl = "[(''sub'', VStr (uuid_str u)), (''ttyp'', VStr (token_type_value ty)),
         (''jti'', VStr (uuid_str jti))] @ extra"
  have j: "json_ok ?pl" using assms(4) by (simp add: json_ok_def)
  from create_decrypt [OF assms(1,2) j, of now nonce "Some ttl"] obtain p where
    t: "take 3 token = ''eyJ''" and d: "decrypt_jwe_token C enc' token = Inr p"
    and p: "map_of p = minted_claims now ?pl (Some ttl)"
    using assms(3) by (auto simp: enc_result_def split: sum.splits)
  have "map_of p ''sub'' = Some (VStr (uuid_str u))" "map_of p ''ttyp'' = Some (VStr (token_type_value ty))"
    "map_of p ''jti'' = Some (VStr (uuid_str jti))" "map_of p ''iat'' = Some (VInt (epoch now))"
    "map_of p ''exp'' = Some (VInt (epoch (now + ttl)))" "map_of p ''scp'' = None"
    using assms(5) by (simp_all add: p minted_claims_def)
  then have "minted_as ty u jti now ttl p" by (simp add: minted_as_def claim_defs)
  moreover have "map_of p k = Some v" if "map_of extra k = Some v" "k \<notin> {''sub'', ''ttyp'', ''jti''}" for k v
  proof -
    have "k \<noteq> ''iat''" "k \<noteq> ''exp''" using that(1) assms(6,7) by auto
    moreover have "map_of ?pl k = Some v" using that by simp
    ultimately show ?thesis unfolding p minted_claims_def by simp
  qed
  moreover have "decrypt_claims C enc' token = Inr p" by (simp add: decrypt_claims_def d)
  ultimately show ?thesis using not_api_key_prefix [OF t] by blast
qed

lemma authenticate_minted:
  assumes "\<not> prefix API_KEY_PREFIX token" "decrypt_claims C enc token = Inr p"
    and "minted_as ty u jti now ttl p" and "ty \<in> {COOKIE, ACCESS_TOKEN}"
  shows "authenticate C enc db t t' allow token =
    (case load_user db u of
       None \<Rightarrow> Inl (InvalidTokenError ''user not found or disabled'')
     | Some usr \<Rightarrow>
         if \<not> u_enabled usr then Inl (InvalidTokenError ''user not found or disabled'')
         else if from_epoch (epoch (now + ttl)) \<le> t then Inl (InvalidTokenError ''token expired'')
         else Inr \<lparr>tok_id = jti, tok_user_id = u, tok_created_at = from_epoch (epoch now),
                   tok_updated_at = from_epoch (epoch now), tok_enabled = True,
                   tok_expires_at = from_epoch (epoch (now + ttl)), tok_type = ty,
                   tok_scopes = {}, tok_role_id = None\<rparr>)"
  using assms
  by (auto simp: authenticate_def authenticate_claims_def minted_as_def Let_def split: option.split)

text \<open>The expiry claim of a minted token against the expiry of the row behind it.\<close>

definition claim_expiry :: "datetime \<Rightarrow> datetime \<Rightarrow> datetime" where
  "claim_expiry now expires_at = from_epoch (epoch (now + ttl_until now expires_at))"

lemma claim_expiry_bound:
  "0 \<le> now \<Longrightarrow> claim_expiry now expires_at \<le> max expires_at (now + seconds 1)"
  using from_epoch_epoch [of "now + ttl_until now expires_at"]
  by (auto simp: claim_expiry_def ttl_until_def FLOOR_TTL_def Let_def)

lemma mint_access_shape:
  "mint_access_token C enc now nonce jti u row = enc_result (create_jwe_token C enc now nonce
     ([(''sub'', VStr (uuid_str u)), (''ttyp'', VStr (token_type_value ACCESS_TOKEN)),
       (''jti'', VStr (uuid_str jti))] @ [(''aid'', VStr (uuid_str (at_id row)))])
     (Some (ttl_until now (at_expires_at row))))"
  by (simp add: mint_access_token_def)

lemma mint_cookie_shape:
  "mint_cookie_token C enc now nonce jti u row = enc_result (create_jwe_token C enc now nonce
     ([(''sub'', VStr (uuid_str u)), (''ttyp'', VStr (token_type_value COOKIE)),
       (''jti'', VStr (uuid_str jti))] @
      [(''aid'', VStr (uuid_str (at_id row))), (''axp'', VInt (epoch (at_expires_at row)))])
     (Some (ttl_until now (at_expires_at row))))"
  by (simp add: mint_cookie_token_def)

lemma mint_refresh_shape:
  "mint_refresh_token C enc now nonce jti u row = enc_result (create_jwe_token C enc now nonce
     ([(''sub'', VStr (uuid_str u)), (''ttyp'', VStr (token_type_value IDP_REFRESH_TOKEN)),
       (''jti'', VStr (uuid_str jti))] @ [(''rid'', VStr (uuid_str (rt_id row)))])
     (Some (ttl_until now (rt_expires_at row))))"
  by (simp add: mint_refresh_token_def)

lemma minted_access:
  assumes "crypto_ok C" "shares_key enc enc'" "mint_access_token C enc now nonce jti u row = Inr token"
  shows "\<exists>p. \<not> prefix API_KEY_PREFIX token \<and> decrypt_claims C enc' token = Inr p \<and>
    minted_as ACCESS_TOKEN u jti now (ttl_until now (at_expires_at row)) p"
  using minted_token [OF assms(1,2) assms(3) [unfolded mint_access_shape]] by (auto simp: json_ok_def)

lemma minted_cookie:
  assumes "crypto_ok C" "shares_key enc enc'" "mint_cookie_token C enc now nonce jti u row = Inr token"
  shows "\<exists>p. \<not> prefix API_KEY_PREFIX token \<and> decrypt_claims C enc' token = Inr p \<and>
    minted_as COOKIE u jti now (ttl_until now (at_expires_at row)) p"
  using minted_token [OF assms(1,2) assms(3) [unfolded mint_cookie_shape]] by (auto simp: json_ok_def)

lemma minted_refresh:
  assumes "crypto_ok C" "shares_key enc enc'" "mint_refresh_token C enc now nonce jti u row = Inr token"
  shows "\<exists>p. \<not> prefix API_KEY_PREFIX token \<and> decrypt_claims C enc' token = Inr p \<and>
    minted_as IDP_REFRESH_TOKEN u jti now (ttl_until now (rt_expires_at row)) p \<and>
    row_id_claim p = Inr (rt_id row)"
proof -
  from minted_token [OF assms(1,2) assms(3) [unfolded mint_refresh_shape]] obtain p where
    p: "\<not> prefix API_KEY_PREFIX token" "decrypt_claims C enc' token = Inr p"
    "minted_as IDP_REFRESH_TOKEN u jti now (ttl_until now (rt_expires_at row)) p"
    "map_of p ''rid'' = Some (VStr (uuid_str (rt_id row)))"
    by (auto simp: json_ok_def)
  then show ?thesis by (auto simp: row_id_claim_def uuid_claim_def)
qed

text \<open>C8. Session tokens never outlive the grant behind them: an access token or a session cookie
  authenticates, under any service sharing the key, as the enabled user it was minted for, exactly
  until its expiry claim; that claim is at most the expiry of the identity provider's row, or one
  second after minting when the row was already expiring.\<close>

theorem session_token_lifetime:
  assumes "crypto_ok C" and "shares_key enc enc'" and "0 \<le> now"
    and "mint_access_token C enc now nonce jti u row = Inr token \<or>
         mint_cookie_token C enc now nonce jti u row = Inr token"
  shows "claim_expiry now (at_expires_at row) \<le> max (at_expires_at row) (now + seconds 1) \<and>
    (case authenticate C enc' db t t' allow token of
       Inr tok \<Rightarrow>
         t < claim_expiry now (at_expires_at row) \<and>
         (\<exists>usr. load_user db u = Some usr \<and> u_enabled usr) \<and>
         tok_user_id tok = u \<and> tok_id tok = jti \<and> tok_enabled tok \<and> tok_role_id tok = None \<and>
         tok_expires_at tok = claim_expiry now (at_expires_at row)
     | Inl _ \<Rightarrow>
         claim_expiry now (at_expires_at row) \<le> t \<or>
         (\<forall>usr. load_user db u = Some usr \<longrightarrow> \<not> u_enabled usr))"
proof -
  obtain ty p where p: "\<not> prefix API_KEY_PREFIX token" "decrypt_claims C enc' token = Inr p"
    "minted_as ty u jti now (ttl_until now (at_expires_at row)) p" "ty \<in> {COOKIE, ACCESS_TOKEN}"
    using assms(4) minted_access [OF assms(1,2)] minted_cookie [OF assms(1,2)] by blast
  show ?thesis
    using claim_expiry_bound [OF assms(3)]
    by (auto simp: authenticate_minted [OF p] claim_expiry_def split: option.split)
qed

definition witness_access_row :: idp_access_token where
  "witness_access_row = \<lparr>at_id = 11, at_refresh_token_id = 12, at_access_token = '''',
     at_expires_at = seconds 100, at_created_at = 0, at_updated_at = 0\<rparr>"

theorem session_token_lifetime_witness:
  "\<exists>token. mint_access_token ref_crypto (encryption_service key_a [key_a]) 0 0 5 7 witness_access_row = Inr token \<and>
     (\<exists>e. authenticate ref_crypto (encryption_service key_b [key_b, key_a]) witness_tokens (seconds 101) 0 False token = Inl e) \<and>
     (\<exists>tok. authenticate ref_crypto (encryption_service key_b [key_b, key_a]) witness_tokens (seconds 99) 0 False token = Inr tok)"
proof -
  have "json_ok [(''sub'', VStr (uuid_str 7)), (''ttyp'', VStr (token_type_value ACCESS_TOKEN)),
        (''jti'', VStr (uuid_str 5)), (''aid'', VStr (uuid_str (at_id witness_access_row)))]"
    by (simp add: json_ok_def)
  from create_decrypt [OF ref_crypto_ok rotated this, of 0 0 "Some (ttl_until 0 (at_expires_at witness_access_row))"]
  obtain token where t: "mint_access_token ref_crypto (encryption_service key_a [key_a]) 0 0 5 7 witness_access_row = Inr token"
    unfolding mint_access_token_def enc_result_def by auto
  have e: "claim_expiry 0 (at_expires_at witness_access_row) = seconds 100"
    by (simp add: claim_expiry_def ttl_until_def witness_access_row_def FLOOR_TTL_def Let_def epoch_def from_epoch_def)
  have u: "\<exists>usr. load_user witness_tokens 7 = Some usr \<and> u_enabled usr"
    by (simp add: load_user_def witness_tokens_def witness_user_def)
  note l = session_token_lifetime [OF ref_crypto_ok rotated _ disjI1 [OF t], where db = witness_tokens]
  from l [where t = "seconds 101" and t' = 0 and allow = False] l [where t = "seconds 99" and t' = 0 and allow = False] show ?thesis
    using t u by (auto simp: e split: sum.splits)
qed

text \<open>C9. Authentication is sound: whatever the string, a token is returned only for an existing,
  enabled user and before its expiry; it is an API key's token exactly when the string starts with
  \<open>oh_\<close>, in which case its owner, role, expiry and flag are those of the stored row with that
  hash; only API keys carry a restricting role; and a federated refresh token is returned only
  when asked for, with the liveness of its row as its enabled flag.\<close>

theorem authenticate_sound:
  assumes "authenticate C enc db now now_row allow_refresh token = Inr tok"
  shows "(\<exists>usr. load_user db (tok_user_id tok) = Some usr \<and> u_enabled usr) \<and>
    now < tok_expires_at tok \<and>
    (tok_type tok = API_KEY \<longleftrightarrow> prefix API_KEY_PREFIX token) \<and>
    (tok_type tok = API_KEY \<longrightarrow>
       (\<exists>row. load_api_key_row db (hash_api_key_value C token) = Some row \<and>
          tok_user_id tok = ak_creator_id row \<and> tok_role_id tok = ak_role_id row \<and>
          tok_enabled tok = ak_enabled row \<and>
          (\<forall>e. ak_expires_at row = Some e \<longrightarrow> now < e))) \<and>
    (tok_type tok \<noteq> API_KEY \<longrightarrow> tok_role_id tok = None) \<and>
    (tok_type tok = IDP_REFRESH_TOKEN \<longrightarrow> allow_refresh \<and>
       (tok_enabled tok \<longrightarrow> (\<exists>r \<in> set (td_refresh_tokens db). now_row < rt_expires_at r)))"
proof (cases "prefix API_KEY_PREFIX token")
  case True
  then show ?thesis using assms
    by (auto simp: authenticate_def authenticate_api_key_def Let_def split: option.splits if_splits)
next
  case False
  have live: "idp_refresh_token_live db now_row rid \<Longrightarrow> \<exists>r \<in> set (td_refresh_tokens db). now_row < rt_expires_at r"
    for rid by (auto simp: idp_refresh_token_live_def find_Some_iff split: option.splits)
  from False assms obtain p ty where ty: "ty \<noteq> API_KEY" "ty = IDP_REFRESH_TOKEN \<longrightarrow> allow_refresh"
    and r: "authenticate_claims db now now_row p ty = Inr tok"
    by (auto simp: authenticate_def bindR_Inr_iff split: if_splits)
  from r obtain u jti iat usr en where usr: "load_user db u = Some usr" "u_enabled usr" "now < exp_claim p"
    and en: "(if ty = IDP_REFRESH_TOKEN
              then bindR (row_id_claim p) (\<lambda>rid. Inr (idp_refresh_token_live db now_row rid))
              else Inr True) = Inr en"
    and tok: "tok = \<lparr>tok_id = jti, tok_user_id = u, tok_created_at = iat,
                   tok_updated_at = iat, tok_enabled = (en \<and> u_enabled usr),
                   tok_expires_at = exp_claim p, tok_type = ty,
                   tok_scopes = scopes_from_payload p, tok_role_id = None\<rparr>"
    unfolding authenticate_claims_def Let_def
    by (auto simp: bindR_Inr_iff not_le split: option.splits if_split_asm)
  from False ty usr en show ?thesis
    by (auto simp: tok bindR_Inr_iff dest: live)
qed

theorem authenticate_sound_witness:
  "\<exists>raw row db' tok. create_api_key ref_crypto witness_tokens 0 1 (replicate 16 3) 7 None True None None False =
      Inr (raw, row, db') \<and> authenticate ref_crypto (encryption_service key_a [key_a]) db' 20 20 False raw = Inr tok \<and>
      20 < tok_expires_at tok"
proof -
  obtain raw row db' where c: "create_api_key ref_crypto witness_tokens 0 1 (replicate 16 3) 7 None True None None False =
      Inr (raw, row, db')"
    by (simp add: create_api_key_def witness_tokens_def Let_def)
  note k = created_key_found [OF c]
  have p: "prefix API_KEY_PREFIX raw" by (simp add: k(3) generate_api_key_value_def)
  have "\<exists>tok. authenticate ref_crypto (encryption_service key_a [key_a]) db' 20 20 False raw = Inr tok"
    using p by (simp add: authenticate_def authenticate_api_key_def k(1,2,6,8) load_user_def witness_tokens_def
        witness_user_def DATETIME_MAX_def Let_def)
  then show ?thesis using authenticate_sound c by blast
qed

end
