(* ===== verification/OAuthLaws.thy ===== *)
theory OAuthLaws
  imports OAuthService TokenLaws
begin

text \<open>
  The laws of the login's provisioning: the loop that picks a username ends with a fresh one, and
  provisioning links or creates users without breaking the user table. \<open>OAuthFlow\<close> and
  \<open>OAuthRevoke\<close> continue with the code flow and with revocation.
\<close>

section \<open>Usernames\<close>

definition candidate :: "string \<Rightarrow> nat \<Rightarrow> string" where
  "candidate local k = (if k = 0 then local else local @ ''-'' @ dec_of_nat k)"

lemma dec_of_nat_inj: "dec_of_nat m = dec_of_nat n \<Longrightarrow> m = n"
proof -
  assume e: "dec_of_nat m = dec_of_nat n"
  have "List.map_filter hex_value (dec_of_nat k) = digits_of 10 k" for k
    unfolding dec_of_nat_def using digits_of_bound [of 10 _ k] by (intro hex_values) force
  then have "digits_of 10 m = digits_of 10 n" using e by metis
  then show ?thesis by (rule digits_of_inj [rotated]) simp
qed

lemma candidate_inj: "inj (candidate local)"
  by (rule injI) (auto simp: candidate_def dest: dec_of_nat_inj split: if_splits)

lemma some_candidate_free:
  "\<exists>m \<le> length users. \<not> (\<exists>u \<in> set users. u_username u = candidate local m)"
proof (rule ccontr)
  assume "\<not> ?thesis"
  then have "candidate local ` {0..length users} \<subseteq> u_username ` set users" by force
  then have "card (candidate local ` {0..length users}) \<le> card (u_username ` set users)"
    by (intro card_mono) auto
  also have "\<dots> \<le> length users" by (meson card_image_le card_length finite_set le_trans)
  finally show False using candidate_inj [of local]
    by (simp add: card_image inj_on_subset [OF _ subset_UNIV])
qed

lemma unique_loop_reaches:
  assumes "k \<le> m" "\<And>j. k \<le> j \<Longrightarrow> j < m \<Longrightarrow> \<exists>u \<in> set users. u_username u = candidate local j"
    and "\<not> (\<exists>u \<in> set users. u_username u = candidate local m)"
  shows "unique_loop users local (candidate local k) k = Some (candidate local m)"
  using assms
proof (induction k rule: inc_induct)
  case base
  then show ?case by (subst unique_loop.simps) simp
next
  case (step k)
  have "candidate local (Suc k) = local @ ''-'' @ dec_of_nat (Suc k)" by (simp add: candidate_def)
  with step have "unique_loop users local (local @ ''-'' @ dec_of_nat (Suc k)) (Suc k) = Some (candidate local m)"
    by simp
  moreover have "\<exists>u \<in> set users. u_username u = candidate local k" using step by simp
  ultimately show ?case by (subst unique_loop.simps) simp
qed

lemma unique_username_least:
  "\<exists>m \<le> length users. unique_username users base = Some (candidate (username_base base) m) \<and>
     \<not> (\<exists>u \<in> set users. u_username u = candidate (username_base base) m) \<and>
     (\<forall>j < m. candidate (username_base base) j \<in> u_username ` set users)"
proof -
  let ?l = "username_base base"
  let ?free = "\<lambda>m. \<not> (\<exists>u \<in> set users. u_username u = candidate ?l m)"
  define m where "m = (LEAST m. ?free m)"
  obtain n where n: "n \<le> length users" "?free n" using some_candidate_free by blast
  have "?free m" unfolding m_def by (rule LeastI [of ?free, OF n(2)])
  moreover have "m \<le> n" unfolding m_def by (rule Least_le [of ?free, OF n(2)])
  moreover have "\<exists>u \<in> set users. u_username u = candidate ?l j" if "j < m" for j
    using not_less_Least [of j ?free] that unfolding m_def by blast
  ultimately have "unique_loop users ?l (candidate ?l 0) 0 = Some (candidate ?l m)" "?free m" "m \<le> n"
    "\<forall>j < m. candidate ?l j \<in> u_username ` set users"
    using unique_loop_reaches [of 0 m users ?l] by (blast, blast, blast, force)
  moreover have "candidate ?l 0 = ?l" by (simp add: candidate_def)
  ultimately show ?thesis using n(1) unfolding unique_username_def by (intro exI [of _ m]) simp
qed

lemma candidate_length: "m < 1000 \<Longrightarrow> length (candidate (username_base base) m) \<le> 64"
proof -
  assume m: "m < 1000"
  have "length (dec_of_nat m) \<le> 3"
    unfolding dec_of_nat_def using digits_of_length [of 10 m 3] m by simp
  moreover have "length (username_base base) \<le> 60" by (simp add: username_base_def Let_def)
  ultimately show ?thesis by (simp add: candidate_def)
qed

text \<open>C10. Choosing a username terminates: whatever users exist, the loop ends, within as many
  suffixes as there are users, with the first of the base, base-1, base-2 and so on that nobody has, so that all the
  earlier ones are taken; with fewer than a thousand users the name fits the 64 characters of its column.\<close>

theorem unique_username_terminates:
  "\<exists>name k. unique_username users base = Some name \<and> k \<le> length users \<and>
     name = (if k = 0 then username_base base else username_base base @ ''-'' @ dec_of_nat k) \<and>
     name \<notin> u_username ` set users \<and>
     (\<forall>j < k. (if j = 0 then username_base base else username_base base @ ''-'' @ dec_of_nat j) \<in> u_username ` set users) \<and>
     (length users < 1000 \<longrightarrow> length name \<le> 64)"
proof -
  obtain m where "m \<le> length users" "unique_username users base = Some (candidate (username_base base) m)"
    "\<not> (\<exists>u \<in> set users. u_username u = candidate (username_base base) m)"
    "\<forall>j < m. candidate (username_base base) j \<in> u_username ` set users"
    using unique_username_least by blast
  then show ?thesis using candidate_length [of m base]
    by (intro exI [of _ "candidate (username_base base) m"] exI [of _ m]) (auto simp: candidate_def)
qed

theorem unique_username_terminates_witness:
  "\<exists>name. unique_username [witness_user] ''abc@d.e'' = Some name \<and> length name \<le> 64 \<and> name \<noteq> u_username witness_user"
  using unique_username_terminates [of "[witness_user]" "''abc@d.e''"] by auto

section \<open>Provisioning\<close>

definition users_ok :: "user list \<Rightarrow> bool" where
  "users_ok us =
     (distinct (map u_id us) \<and> distinct (map u_email us) \<and> distinct (map u_username us))"

lemma one_or_none_Some: "one_or_none xs = Inr (Some x) \<longleftrightarrow> xs = [x]"
  by (auto simp: one_or_none_def split: list.splits)

lemma one_or_none_None: "one_or_none xs = Inr None \<longleftrightarrow> xs = []"
  by (auto simp: one_or_none_def split: list.splits)

lemma filter_singleton: "filter P xs = [x] \<Longrightarrow> x \<in> set xs \<and> P x"
  by (drule arg_cong [where f = set]) auto

lemma map_replace_same:
  assumes "distinct (map k xs)" "x \<in> set xs" "k y = k x" "f y = f x"
  shows "map f (map (\<lambda>v. if k v = k y then y else v) xs) = map f xs"
proof -
  have "w = x" if "w \<in> set xs" "k w = k y" for w
    using assms(1,2,3) that by (auto simp: distinct_map dest: inj_onD)
  then show ?thesis using assms(4) by auto
qed

definition same_identity :: "user \<Rightarrow> user \<Rightarrow> bool" where
  "same_identity u v =
     (u_id v = u_id u \<and> u_email v = u_email u \<and> u_username v = u_username u \<and>
      u_enabled v = u_enabled u \<and> u_password v = u_password u \<and>
      (u_idp_user_id v = u_idp_user_id u \<or> u_idp_user_id u = None))"

text \<open>The three ways provisioning can succeed.\<close>

lemma provision_cases:
  assumes "provision_user env db tokens = Inr (u, db')"
  shows "(u \<in> set (td_users db) \<and> db' = db) \<or>
    (\<exists>v \<in> set (td_users db). \<exists>i. u = v\<lparr>u_idp_user_id := Some i, u_updated_at := oe_now env\<rparr> \<and>
        u_idp_user_id v = None \<and> db' = set_user db u) \<or>
    (\<exists>i e. create_provisioned env db i e = Inr (u, db'))"
proof -
  obtain i e where "bindR (case i of None \<Rightarrow> Inr None | Some i \<Rightarrow> find_user_by_idp_id db i) (\<lambda>by_id.
       case by_id of
         Some user \<Rightarrow> Inr (user, db)
       | None \<Rightarrow>
           bindR (case e of None \<Rightarrow> Inr None | Some e \<Rightarrow> find_user_by_email db e) (\<lambda>by_email.
             case by_email of
               Some user \<Rightarrow>
                 if i \<noteq> None \<and> u_idp_user_id user = None
                 then let linked = user\<lparr>u_idp_user_id := i, u_updated_at := oe_now env\<rparr>
                      in Inr (linked, set_user db linked)
                 else Inr (user, db)
             | None \<Rightarrow>
                 if i = None \<and> e = None then Inl (IdpError ''no usable claim'')
                 else create_provisioned env db i e)) = Inr (u, db')"
    using assms unfolding provision_user_def Let_def bindR_Inr_iff [of "text_field tokens ''id_token''"]
    by blast
  then obtain by_id where b: "(case i of None \<Rightarrow> Inr None | Some i \<Rightarrow> find_user_by_idp_id db i) = Inr by_id"
    and r: "(case by_id of
         Some user \<Rightarrow> Inr (user, db)
       | None \<Rightarrow>
           bindR (case e of None \<Rightarrow> Inr None | Some e \<Rightarrow> find_user_by_email db e) (\<lambda>by_email.
             case by_email of
               Some user \<Rightarrow>
                 if i \<noteq> None \<and> u_idp_user_id user = None
                 then let linked = user\<lparr>u_idp_user_id := i, u_updated_at := oe_now env\<rparr>
                      in Inr (linked, set_user db linked)
                 else Inr (user, db)
             | None \<Rightarrow>
                 if i = None \<and> e = None then Inl (IdpError ''no usable claim'')
                 else create_provisioned env db i e)) = Inr (u, db')"
    unfolding bindR_Inr_iff [of "case i of None \<Rightarrow> Inr None | Some i \<Rightarrow> find_user_by_idp_id db i"] by blast
  show ?thesis
  proof (cases by_id)
    case (Some v)
    have "v \<in> set (td_users db)"
      using b Some by (auto simp: find_user_by_idp_id_def one_or_none_Some dest: filter_singleton split: option.splits)
    then show ?thesis using r Some by simp
  next
    case None
    then obtain by_email where b2: "(case e of None \<Rightarrow> Inr None | Some e \<Rightarrow> find_user_by_email db e) = Inr by_email"
      and r2: "(case by_email of
               Some user \<Rightarrow>
                 if i \<noteq> None \<and> u_idp_user_id user = None
                 then let linked = user\<lparr>u_idp_user_id := i, u_updated_at := oe_now env\<rparr>
                      in Inr (linked, set_user db linked)
                 else Inr (user, db)
             | None \<Rightarrow>
                 if i = None \<and> e = None then Inl (IdpError ''no usable claim'')
                 else create_provisioned env db i e) = Inr (u, db')"
      using r unfolding None option.case
        bindR_Inr_iff [of "case e of None \<Rightarrow> Inr None | Some e \<Rightarrow> find_user_by_email db e"] by blast
    show ?thesis
    proof (cases by_email)
      case None
      then show ?thesis using r2 by (auto split: if_splits)
    next
      case (Some v)
      have "v \<in> set (td_users db)"
        using b2 Some by (auto simp: find_user_by_email_def one_or_none_Some dest: filter_singleton split: option.splits)
      then show ?thesis using r2 Some by (auto simp: Let_def split: if_splits)
    qed
  qed
qed

lemma create_provisioned_shape:
  assumes "create_provisioned env db i e = Inr (u, db')"
  shows "db' = db\<lparr>td_users := td_users db @ [u]\<rparr> \<and> u_enabled u \<and> u_password u = None \<and>
    u_idp_user_id u = i \<and>
    u_id u \<notin> u_id ` set (td_users db) \<and> u_email u \<notin> u_email ` set (td_users db) \<and>
    u_username u \<notin> u_username ` set (td_users db) \<and> length (u_username u) \<le> 64"
  using assms
  by (auto simp: create_provisioned_def Let_def insert_user_def bindR_Inr_iff split: option.splits if_splits)

text \<open>C11. Provisioning a federated login: the user returned is in the table afterwards; ids, emails
  and usernames stay unique; every user that existed keeps id, email, username, enabled flag and
  password, and a subject once linked is never replaced; a user created on the fly is enabled and
  has no password.\<close>

theorem provisioning_safe:
  assumes "provision_user env db tokens = Inr (u, db')" and "users_ok (td_users db)"
  shows "u \<in> set (td_users db') \<and> users_ok (td_users db') \<and>
    (\<forall>v \<in> set (td_users db). \<exists>v' \<in> set (td_users db'). same_identity v v') \<and>
    (\<forall>v' \<in> set (td_users db'). (\<exists>v \<in> set (td_users db). same_identity v v') \<or>
       (v' = u \<and> u_enabled u \<and> u_password u = None))"
  using provision_cases [OF assms(1)]
proof (elim disjE)
  assume "u \<in> set (td_users db) \<and> db' = db"
  then show ?thesis using assms(2) by (auto simp: same_identity_def)
next
  assume "\<exists>v \<in> set (td_users db). \<exists>i. u = v\<lparr>u_idp_user_id := Some i, u_updated_at := oe_now env\<rparr> \<and>
        u_idp_user_id v = None \<and> db' = set_user db u"
  then obtain v i where v: "v \<in> set (td_users db)" "u_idp_user_id v = None"
    and u: "u = v\<lparr>u_idp_user_id := Some i, u_updated_at := oe_now env\<rparr>" and db': "db' = set_user db u"
    by blast
  let ?us = "map (\<lambda>w. if u_id w = u_id u then u else w) (td_users db)"
  have us: "td_users db' = ?us" by (simp add: db' set_user_def)
  have d: "distinct (map u_id (td_users db))" using assms(2) by (simp add: users_ok_def)
  have id: "u_id u = u_id v" "u_email u = u_email v" "u_username u = u_username v" by (simp_all add: u)
  note same = map_replace_same [OF d v(1) id(1)]
  have ok: "users_ok ?us"
    using assms(2) unfolding users_ok_def same [where f = u_id, OF id(1)]
      same [where f = u_email, OF id(2)] same [where f = u_username, OF id(3)] .
  have one: "w = v" if "w \<in> set (td_users db)" "u_id w = u_id v" for w
    using d v(1) that by (auto simp: distinct_map dest: inj_onD)
  have sv: "same_identity v u" using v(2) by (simp add: same_identity_def u)
  have ref: "same_identity w w" for w by (simp add: same_identity_def)
  show ?thesis unfolding us
  proof (intro conjI ballI)
    show "u \<in> set ?us" using v(1) id(1) by force
    show "users_ok ?us" by (rule ok)
    fix w assume w: "w \<in> set (td_users db)"
    show "\<exists>v' \<in> set ?us. same_identity w v'"
    proof (cases "u_id w = u_id u")
      case True
      then have "w = v" using one w id(1) by simp
      then show ?thesis using sv v(1) id(1) by (intro bexI [of _ u]) force+
    next
      case False
      then show ?thesis using w ref by force
    qed
  next
    fix v' assume "v' \<in> set ?us"
    then have "(\<exists>w \<in> set (td_users db). v' = w) \<or> v' = u" by auto
    then show "(\<exists>v \<in> set (td_users db). same_identity v v') \<or> v' = u \<and> u_enabled u \<and> u_password u = None"
      using sv v(1) ref by blast
  qed
next
  assume "\<exists>i e. create_provisioned env db i e = Inr (u, db')"
  then obtain i e where "create_provisioned env db i e = Inr (u, db')" by blast
  from create_provisioned_shape [OF this] assms(2) show ?thesis
    by (auto simp: users_ok_def same_identity_def)
qed

text \<open>A first login through an identity provider that supplies an email and a subject.\<close>

definition witness_libs :: oauth_libs where
  "witness_libs = \<lparr>sha256_b64url = (\<lambda>v. ''h'' @ v),
     b64url_json = (\<lambda>s. Some [(''sub'', VStr ''s1''), (''email'', VStr ''new@x.y'')])\<rparr>"

definition witness_reply :: payload where
  "witness_reply = [(''access_token'', VStr ''AT''), (''refresh_token'', VStr ''RT''),
     (''expires_in'', VInt 960), (''id_token'', VStr ''h.p.s'')]"

definition witness_env :: "datetime \<Rightarrow> oauth_env" where
  "witness_env now = \<lparr>oe_crypto = ref_crypto, oe_enc = encryption_service key_a [key_a],
     oe_libs = witness_libs, oe_idp = witness_idp, oe_base_url = ''https://x'', oe_now = now,
     oe_uuid = (\<lambda>i. of_nat i + 100), oe_nonce = (\<lambda>i. i), oe_verifier = ''ver'',
     oe_post = (\<lambda>url data. Reply 200 witness_reply)\<rparr>"

definition witness_oauth_db :: oauth_db where
  "witness_oauth_db = \<lparr>td_users = [witness_user], td_api_keys = [], td_refresh_tokens = [],
     td_access_tokens = [], od_clients = [], od_uris = []\<rparr>"

theorem provisioning_safe_witness:
  "\<exists>u db'. provision_user (witness_env 0) witness_oauth_db [(''id_token'', VStr ''h.p.s'')] = Inr (u, db') \<and>
     u \<in> set (td_users db') \<and> users_ok (td_users db')"
proof -
  obtain name k where n: "unique_username [witness_user] ''new@x.y'' = Some name"
    "name = candidate (username_base ''new@x.y'') k" "k \<le> length [witness_user]"
    "\<not> (\<exists>u \<in> set [witness_user]. u_username u = name)"
    using unique_username_least [of "[witness_user]" "''new@x.y''"] by auto
  have l: "length name \<le> 64" using candidate_length [of k] n(2,3) by simp
  have p: "\<exists>u db'. provision_user (witness_env 0) witness_oauth_db [(''id_token'', VStr ''h.p.s'')] = Inr (u, db')"
    using n l
    by (simp add: provision_user_def text_field_def falsy_def decode_id_token_def witness_env_def
        witness_libs_def witness_idp_def claim_def find_user_by_idp_id_def find_user_by_email_def
        witness_oauth_db_def witness_user_def one_or_none_def create_provisioned_def insert_user_def Let_def)
  have ok: "users_ok (td_users witness_oauth_db)" by (simp add: users_ok_def witness_oauth_db_def)
  from p provisioning_safe [OF _ ok] show ?thesis by blast
qed

section \<open>Codes and token pairs\<close>

text \<open>What a service that shares the key reads from a token this one has minted.\<close>

lemma created_token_read:
  assumes "create_jwe_token C svc now nonce payload (Some ttl) = Inr token"
    and "crypto_ok C" "shares_key svc svc'"
  shows "take 3 token = ''eyJ'' \<and>
    (\<exists>p. decrypt_jwe_token C svc' token = Inr p \<and> map_of p = minted_claims now payload (Some ttl))"
proof -
  let ?p = "AList.update ''exp'' (VInt (epoch (now + ttl))) (AList.update ''iat'' (VInt (epoch now)) payload)"
  let ?t = "jwe_encrypt C (kc_id (es_key svc)) (derive_symmetric_key C (kc_value (es_key svc))) nonce ?p"
  obtain k where k: "kc_id (es_key svc) \<noteq> []"
    "es_decryption_keys svc' (kc_id (es_key svc)) = Some k" "kc_value k = kc_value (es_key svc)"
    using assms(3) by (auto simp: shares_key_def)
  have j: "json_ok ?p" and t: "token = ?t"
    using assms(1) unfolding create_jwe_token_def Let_def by (simp_all split: if_splits)
  have "decrypt_jwe_token C svc' ?t = Inr ?p"
    using assms(2) k j by (simp add: decrypt_jwe_token_def get_decryption_key_def)
  moreover have "map_of ?p = minted_claims now payload (Some ttl)"
    by (auto simp: minted_claims_def update_conv' fun_eq_iff)
  moreover have "take 3 ?t = ''eyJ''" using assms(2) unfolding crypto_ok_def by blast
  ultimately show ?thesis unfolding t by blast
qed

lemma grant_jwe_read:
  assumes "grant_jwe env i payload ttl = Inr token"
    and "crypto_ok (oe_crypto env)" "shares_key (oe_enc env) svc'"
  shows "take 3 token = ''eyJ'' \<and>
    (\<exists>p. decrypt_jwe_token (oe_crypto env) svc' token = Inr p \<and>
         map_of p = minted_claims (oe_now env) payload (Some ttl))"
  using assms created_token_read
  by (auto simp: grant_jwe_def enc_raise_def split: sum.splits)

lemma grant_jwe_total: "json_ok payload \<Longrightarrow> \<exists>token. grant_jwe env i payload ttl = Inr token"
  by (simp add: grant_jwe_def enc_raise_def create_jwe_token_def Let_def)

lemma json_ok_simps [simp]:
  "json_ok []" "json_ok ((k, v) # p) = (json_value v \<and> json_ok p)"
  "json_ok (p @ q) = (json_ok p \<and> json_ok q)"
  by (auto simp: json_ok_def)

lemma json_scope_claim [simp]: "json_ok (scope_claim scopes)"
  by (simp add: scope_claim_def)

lemma json_user_claims [simp]: "json_ok (user_claims u scopes)"
  by (simp add: user_claims_def)

lemma json_ok_update2 [simp]: "json_value v \<Longrightarrow> json_ok p \<Longrightarrow> json_ok (AList.update k v p)"
  by (rule json_ok_update)

lemma mint_id_token_total: "\<exists>t. mint_id_token env user cid scopes e = Inr t"
  by (simp add: mint_id_token_def create_jws_token_def enc_raise_def Let_def)

lemma mint_token_pair_total:
  "\<exists>pair. mint_token_pair env db u r a cid scopes = Inr pair \<and>
     grant_access_token env u a scopes = Inr (tp_access_token pair) \<and>
     grant_refresh_token env u r scopes = Inr (tp_refresh_token pair) \<and>
     tp_access_expires_at pair = at_expires_at a \<and> tp_refresh_expires_at pair = rt_expires_at r"
proof -
  obtain x where x: "grant_access_token env u a scopes = Inr x"
    using grant_jwe_total unfolding grant_access_token_def by fastforce
  obtain y where y: "grant_refresh_token env u r scopes = Inr y"
    using grant_jwe_total unfolding grant_refresh_token_def by fastforce
  have "\<exists>z. (if ''openid'' \<in> scopes
            then (case load_user db u of
                    None \<Rightarrow> Inr None
                  | Some user \<Rightarrow> bindR (mint_id_token env user cid scopes (at_expires_at a)) (\<lambda>t. Inr (Some t)))
            else Inr None) = (Inr z :: grant_error + string option)"
  proof (cases "load_user db u")
    case (Some user)
    obtain t where "mint_id_token env user cid scopes (at_expires_at a) = Inr t"
      using mint_id_token_total by blast
    then show ?thesis using Some by simp
  qed simp
  then obtain z where z: "(if ''openid'' \<in> scopes
            then (case load_user db u of
                    None \<Rightarrow> Inr None
                  | Some user \<Rightarrow> bindR (mint_id_token env user cid scopes (at_expires_at a)) (\<lambda>t. Inr (Some t)))
            else Inr None) = (Inr z :: grant_error + string option)" by blast
  show ?thesis unfolding mint_token_pair_def x y bindR.simps z by simp
qed

end
