(* ===== verification/OAuthFlow.thy ===== *)
theory OAuthFlow
  imports OAuthLaws
begin

text \<open>
  The flow properties of \<open>OAuthService\<close>: from the callback's code to an authenticated request,
  what an exchange has checked, the finality of revocation, when a refresh is made, and the cleanup.
\<close>

section \<open>From the callback to a session\<close>

lemma grant_scopes_oidc: "grant_scopes p \<subseteq> OIDC_SCOPES"
  by (auto simp: grant_scopes_def normalize_scopes_def split: option.splits pyval.splits if_splits)

lemma scp_of_grant:
  assumes "map_of p ''scp'' = map_of (scope_claim scopes) ''scp''" "scopes \<subseteq> OIDC_SCOPES"
  shows "grant_scopes p = scopes" "scopes_from_payload p = scopes"
proof -
  show g: "grant_scopes p = scopes"
    using scopes_roundtrip [OF assms(2)] by (simp add: grant_scopes_def assms(1))
  have fin: "finite scopes" using assms(2) finite_subset by (auto simp: OIDC_SCOPES_def)
  show "scopes_from_payload p = scopes"
  proof (cases "scopes = {}")
    case True
    then show ?thesis by (simp add: scopes_from_payload_def assms(1) scope_claim_def)
  next
    case False
    have w: "c \<in> set s \<Longrightarrow> s \<in> OIDC_SCOPES \<Longrightarrow> \<not> is_space c" "[] \<notin> OIDC_SCOPES" for c s
      by (auto simp: OIDC_SCOPES_def is_space_def)
    have l: "set (sorted_list_of_set scopes) = scopes" using fin by simp
    then have "split_space [] (join_with '' '' (sorted_list_of_set scopes)) = sorted_list_of_set scopes"
      using assms(2) w by (intro split_space_join) auto
    then show ?thesis using False l w(2) assms(2)
      by (auto simp: scopes_from_payload_def assms(1) scope_claim_def)
  qed
qed

text \<open>The claims of a token, read key by key.\<close>

lemma minted_lookup:
  assumes "map_of p = minted_claims now payload (Some ttl)" "map_of payload k = v" "k \<noteq> ''exp''" "k \<noteq> ''iat''"
  shows "map_of p k = v"
  using assms by (simp add: minted_claims_def)

lemma map_of_scope_claim [simp]: "k \<noteq> ''scp'' \<Longrightarrow> map_of (scope_claim scopes) k = None"
  by (auto simp: scope_claim_def)

lemma map_of_pkce_claims [simp]: "k \<noteq> ''cc'' \<Longrightarrow> k \<noteq> ''ccm'' \<Longrightarrow> map_of (pkce_claims c m) k = None"
  by (auto simp: pkce_claims_def)

lemma grant_access_authenticates:
  assumes "grant_access_token env u row scopes = Inr token" "crypto_ok (oe_crypto env)"
    "shares_key (oe_enc env) enc'" "scopes \<subseteq> OIDC_SCOPES"
    and "load_user db u = Some usr" "u_enabled usr"
    and "t < from_epoch (epoch (oe_now env + row_ttl (oe_now env) (at_expires_at row)))"
  shows "\<exists>tok. authenticate (oe_crypto env) enc' db t t' allow token = Inr tok \<and>
    tok_user_id tok = u \<and> tok_scopes tok = scopes \<and> tok_enabled tok \<and> tok_type tok = ACCESS_TOKEN"
proof -
  from grant_jwe_read [OF assms(1) [unfolded grant_access_token_def] assms(2,3)] obtain p where
    t: "take 3 token = ''eyJ''" and d: "decrypt_jwe_token (oe_crypto env) enc' token = Inr p"
    and p: "map_of p = minted_claims (oe_now env)
       ([(''sub'', VStr (uuid_str u)), (''ttyp'', VStr (token_type_value ACCESS_TOKEN)),
         (''jti'', VStr (uuid_str (oe_uuid env 4))), (''aid'', VStr (uuid_str (at_id row)))] @ scope_claim scopes)
       (Some (row_ttl (oe_now env) (at_expires_at row)))" by blast
  have "map_of p ''sub'' = Some (VStr (uuid_str u))"
    "map_of p ''ttyp'' = Some (VStr (token_type_value ACCESS_TOKEN))"
    "map_of p ''jti'' = Some (VStr (uuid_str (oe_uuid env 4)))"
    "map_of p ''scp'' = map_of (scope_claim scopes) ''scp''"
    "map_of p ''iat'' = Some (VInt (epoch (oe_now env)))"
    "map_of p ''exp'' = Some (VInt (epoch (oe_now env + row_ttl (oe_now env) (at_expires_at row))))"
    by (simp_all add: p minted_claims_def)
  note c = this
  have "token_type_claim p = Inr ACCESS_TOKEN" "user_id_claim p = Inr u" "jti_claim p = Inr (oe_uuid env 4)"
    "iat_claim p = Inr (from_epoch (epoch (oe_now env)))"
    "exp_claim p = from_epoch (epoch (oe_now env + row_ttl (oe_now env) (at_expires_at row)))"
    by (simp_all add: token_type_claim_def user_id_claim_def jti_claim_def uuid_claim_def iat_claim_def
        exp_claim_def int_claim_def c token_type_of_value [of ACCESS_TOKEN, simplified])
  then show ?thesis
    using assms(5-7) scp_of_grant [OF c(4) assms(4)] not_api_key_prefix [OF t]
    by (simp add: authenticate_def authenticate_claims_def decrypt_claims_def d Let_def)
qed

lemma auth_code_read:
  assumes "mint_auth_code env u rid aid cid ruri scopes ch m = Inr code"
    and "crypto_ok (oe_crypto env)" "shares_key (oe_enc env) (oe_enc env')" "oe_crypto env' = oe_crypto env"
    and "scopes \<subseteq> OIDC_SCOPES"
  shows "\<exists>p. grant_decrypt env' code = Inr p \<and>
    map_of p ''ttyp'' = Some (VStr ''authorization_code'') \<and> map_of p ''ruri'' = Some (VStr ruri) \<and>
    grant_uuid p ''sub'' = Inr u \<and> grant_uuid p ''rid'' = Inr rid \<and> grant_uuid p ''aid'' = Inr aid \<and>
    grant_scopes p = scopes \<and>
    verify_pkce L (or_none (map_of p ''cc'')) (or_none (map_of p ''ccm'')) v = verify_pkce L ch m v"
proof -
  let ?base = "[(''sub'', VStr (uuid_str u)), (''ttyp'', VStr ''authorization_code''),
         (''jti'', VStr (uuid_str (oe_uuid env 3))), (''rid'', VStr (uuid_str rid)),
         (''aid'', VStr (uuid_str aid)), (''cid'', VStr cid), (''ruri'', VStr ruri)]"
  from grant_jwe_read [OF assms(1) [unfolded mint_auth_code_def] assms(2,3)] obtain p where
    d: "decrypt_jwe_token (oe_crypto env) (oe_enc env') code = Inr p"
    and p: "map_of p = minted_claims (oe_now env) (?base @ scope_claim scopes @ pkce_claims ch m)
       (Some (seconds 600))" by blast
  have c: "map_of p ''sub'' = Some (VStr (uuid_str u))" "map_of p ''ttyp'' = Some (VStr ''authorization_code'')"
    "map_of p ''rid'' = Some (VStr (uuid_str rid))" "map_of p ''aid'' = Some (VStr (uuid_str aid))"
    "map_of p ''ruri'' = Some (VStr ruri)"
    "map_of p ''cc'' = map_of (pkce_claims ch m) ''cc''" "map_of p ''ccm'' = map_of (pkce_claims ch m) ''ccm''"
    by (simp_all add: p minted_claims_def map_add_def)
  have scp: "map_of p ''scp'' = map_of (scope_claim scopes) ''scp''"
    by (simp add: p minted_claims_def map_add_def split: option.split)
  have pk: "verify_pkce L (or_none (map_of p ''cc'')) (or_none (map_of p ''ccm'')) v = verify_pkce L ch m v"
  proof (cases "ch = VNone")
    case True
    then show ?thesis by (simp add: c(6,7) pkce_claims_def or_none_def verify_pkce_def)
  next
    case False
    have "falsy (Some (VStr ''plain'')) = False" by (simp add: falsy_def)
    then show ?thesis using False
      by (simp add: c(6,7) pkce_claims_def or_none_def verify_pkce_def)
  qed
  show ?thesis using pk d scp_of_grant(1) [OF scp assms(5)] assms(4)
    by (intro exI [of _ p]) (simp add: c grant_decrypt_def grant_uuid_def)
qed

lemma provision_keeps_tokens:
  assumes "provision_user env db tokens = Inr (u, db')"
  shows "td_refresh_tokens db' = td_refresh_tokens db" "td_access_tokens db' = td_access_tokens db"
  using provision_cases [OF assms]
  by (auto simp: set_user_def dest!: create_provisioned_shape [THEN conjunct1])

lemma persist_shape:
  assumes "persist_idp_tokens env db u tokens = Inr (r, a, db')"
  shows "db' = db\<lparr>td_refresh_tokens := td_refresh_tokens db @ [r], td_access_tokens := td_access_tokens db @ [a]\<rparr>"
    "rt_id r = oe_uuid env 1" "at_id a = oe_uuid env 2" "rt_creator_id r = u" "at_refresh_token_id a = rt_id r"
  using assms
  by (auto simp: persist_idp_tokens_def bindR_Inr_iff Let_def split: option.splits)

text \<open>What a successful callback with a code has done.\<close>

lemma callback_shape:
  assumes "handle_callback env db idp_code state url = Inr (ctx, db2)" "cc_auth_code ctx = Some code"
    and "decode_pending_auth env state = Inr pending"
  shows "\<exists>user tokens db1 r a. provision_user env db tokens = Inr (user, db1) \<and>
    persist_idp_tokens env db1 (u_id user) tokens = Inr (r, a, db2) \<and>
    mint_auth_code env (u_id user) (rt_id r) (at_id a) (pa_client_id pending) (pa_redirect_uri pending)
      (pa_scopes pending) (pa_code_challenge pending) (pa_code_method pending) = Inr code \<and>
    cc_user_id ctx = u_id user \<and> cc_access_expires_at ctx = at_expires_at a \<and>
    cc_redirect_uri ctx = pa_redirect_uri pending \<and> cc_scopes ctx = pa_scopes pending"
proof -
  from assms(1) obtain tokens user db1 r a ac where
    steps: "provision_user env db tokens = Inr (user, db1)"
      "persist_idp_tokens env db1 (u_id user) tokens = Inr (r, a, db2)"
    and ac: "(if pa_response_type pending = VStr ''code''
            then bindR (mint_auth_code env (u_id user) (rt_id r) (at_id a)
                   (pa_client_id pending) (pa_redirect_uri pending) (pa_scopes pending)
                   (pa_code_challenge pending) (pa_code_method pending)) (\<lambda>c. Inr (Some c))
            else Inr None) = Inr ac"
    and ctx: "ctx = \<lparr>cc_user_id = u_id user, cc_row_id = rt_id r, cc_access_id = at_id a,
             cc_access_expires_at = at_expires_at a, cc_client_id = pa_client_id pending,
             cc_redirect_uri = pa_redirect_uri pending, cc_client_state = pa_client_state pending,
             cc_response_type = pa_response_type pending, cc_scopes = pa_scopes pending,
             cc_auth_code = ac,
             cc_expires_in = seconds_until (oe_now env) (at_expires_at a)\<rparr>"
    unfolding handle_callback_def assms(3) bindR.simps
    by (elim bindR_InrE) (auto elim!: bindR_InrE split: prod.split_asm)
  have "ac = Some code" using assms(2) by (simp add: ctx)
  then have "mint_auth_code env (u_id user) (rt_id r) (at_id a) (pa_client_id pending) (pa_redirect_uri pending)
      (pa_scopes pending) (pa_code_challenge pending) (pa_code_method pending) = Inr code"
    using ac by (auto elim!: bindR_InrE split: if_splits)
  moreover have "cc_user_id ctx = u_id user" "cc_access_expires_at ctx = at_expires_at a"
    "cc_redirect_uri ctx = pa_redirect_uri pending" "cc_scopes ctx = pa_scopes pending"
    by (simp_all add: ctx)
  ultimately show ?thesis using steps by blast
qed

lemma code_flow_lib:
  assumes "handle_callback env db idp_code state url = Inr (ctx, db2)" and "cc_auth_code ctx = Some code"
    and "crypto_ok (oe_crypto env)" and "oe_crypto env' = oe_crypto env"
    and "shares_key (oe_enc env) (oe_enc env')"
    and "oe_uuid env 1 \<notin> rt_id ` set (td_refresh_tokens db)"
    and "oe_uuid env 2 \<notin> at_id ` set (td_access_tokens db)"
    and "authenticate_client env' db2 cid secret = Inr client"
    and "decode_pending_auth env state = Inr pending"
    and "verify_pkce (oe_libs env') (pa_code_challenge pending) (pa_code_method pending) verifier = Inr ()"
  shows "\<exists>pair. exchange_authorization_code env' db2 code (cc_redirect_uri ctx) cid secret verifier = Inr pair \<and>
     tp_access_expires_at pair = cc_access_expires_at ctx \<and>
     (\<forall>enc usr t t'. shares_key (oe_enc env') enc \<longrightarrow> load_user db2 (cc_user_id ctx) = Some usr \<longrightarrow> u_enabled usr \<longrightarrow>
        t < from_epoch (epoch (oe_now env' + row_ttl (oe_now env') (cc_access_expires_at ctx))) \<longrightarrow>
        (\<exists>tok. authenticate (oe_crypto env) enc db2 t t' False (tp_access_token pair) = Inr tok \<and>
               tok_user_id tok = cc_user_id ctx \<and> tok_scopes tok = cc_scopes ctx))"
proof -
  obtain user tokens db1 r a where pr: "provision_user env db tokens = Inr (user, db1)"
    and pe: "persist_idp_tokens env db1 (u_id user) tokens = Inr (r, a, db2)"
    and mc: "mint_auth_code env (u_id user) (rt_id r) (at_id a) (pa_client_id pending) (pa_redirect_uri pending)
      (pa_scopes pending) (pa_code_challenge pending) (pa_code_method pending) = Inr code"
    and ctx: "cc_user_id ctx = u_id user" "cc_access_expires_at ctx = at_expires_at a"
      "cc_redirect_uri ctx = pa_redirect_uri pending" "cc_scopes ctx = pa_scopes pending"
    using callback_shape [OF assms(1,2,9)] by blast
  have sc: "pa_scopes pending \<subseteq> OIDC_SCOPES"
    using assms(9)
    by (auto dest: subsetD [OF grant_scopes_oidc] simp: decode_pending_auth_def bindR_Inr_iff Let_def split: if_splits)
  note ps = persist_shape [OF pe]
  have rows: "load_token_rows db2 (rt_id r) (at_id a) = (Some r, Some a)"
  proof -
    have "List.find (\<lambda>x. rt_id x = rt_id r) (td_refresh_tokens db1) = None"
      using assms(6) provision_keeps_tokens [OF pr] ps(2) by (intro find_none) force
    moreover have "List.find (\<lambda>x. at_id x = at_id a) (td_access_tokens db1) = None"
      using assms(7) provision_keeps_tokens [OF pr] ps(3) by (intro find_none) force
    ultimately show ?thesis by (simp add: load_token_rows_def ps(1) find_append)
  qed
  obtain p where p: "grant_decrypt env' code = Inr p"
    "map_of p ''ttyp'' = Some (VStr ''authorization_code'')" "map_of p ''ruri'' = Some (VStr (pa_redirect_uri pending))"
    "grant_uuid p ''sub'' = Inr (u_id user)" "grant_uuid p ''rid'' = Inr (rt_id r)" "grant_uuid p ''aid'' = Inr (at_id a)"
    "grant_scopes p = pa_scopes pending"
    "verify_pkce (oe_libs env') (or_none (map_of p ''cc'')) (or_none (map_of p ''ccm'')) verifier = Inr ()"
    using auth_code_read [OF mc assms(3,5,4) sc] assms(10) by metis
  obtain pair where pair: "mint_token_pair env' db2 (u_id user) r a cid (pa_scopes pending) = Inr pair"
    "grant_access_token env' (u_id user) a (pa_scopes pending) = Inr (tp_access_token pair)"
    "tp_access_expires_at pair = at_expires_at a"
    using mint_token_pair_total [of env' db2 "u_id user" r a cid "pa_scopes pending"] by blast
  have ex: "exchange_authorization_code env' db2 code (cc_redirect_uri ctx) cid secret verifier = Inr pair"
    by (simp add: exchange_authorization_code_def assms(8) p rows ctx ps(4,5) pair(1))
  have ok': "crypto_ok (oe_crypto env')" using assms(3,4) by simp
  show ?thesis
    using ex pair(3) grant_access_authenticates [OF pair(2) ok' _ sc] assms(4)
    by (intro exI [of _ pair]) (fastforce simp: ctx)
qed

text \<open>C12. The code flow works end to end: the code a callback returns, presented with the same
  redirect URI, a matching PKCE verifier and the credentials of an enabled client to any process
  that shares the key, buys a token pair; its access token authenticates the provisioned user
  with the granted scopes until the expiry of the stored grant. Nothing relates the clock of the
  exchange to the ten minutes the code was minted for, nor the client that exchanges it to the
  client it was issued to: neither is checked.\<close>

theorem code_flow:
  assumes "handle_callback env db idp_code state url = Inr (ctx, db2)" and "cc_auth_code ctx = Some code"
    and "crypto_ok (oe_crypto env)" and "oe_crypto env' = oe_crypto env"
    and "shares_key (oe_enc env) (oe_enc env')"
    and "oe_uuid env 1 \<notin> rt_id ` set (td_refresh_tokens db)"
    and "oe_uuid env 2 \<notin> at_id ` set (td_access_tokens db)"
    and "authenticate_client env' db2 cid secret = Inr client"
    and "decode_pending_auth env state = Inr pending"
    and "verify_pkce (oe_libs env') (pa_code_challenge pending) (pa_code_method pending) verifier = Inr ()"
  shows "\<exists>pair. exchange_authorization_code env' db2 code (cc_redirect_uri ctx) cid secret verifier = Inr pair \<and>
     tp_access_expires_at pair = cc_access_expires_at ctx \<and>
     (\<forall>enc usr t t'. shares_key (oe_enc env') enc \<longrightarrow> load_user db2 (cc_user_id ctx) = Some usr \<longrightarrow> u_enabled usr \<longrightarrow>
        t < from_epoch (epoch (oe_now env' + row_ttl (oe_now env') (cc_access_expires_at ctx))) \<longrightarrow>
        (\<exists>tok. authenticate (oe_crypto env) enc db2 t t' False (tp_access_token pair) = Inr tok \<and>
               tok_user_id tok = cc_user_id ctx \<and> tok_scopes tok = cc_scopes ctx))"
  using code_flow_lib [OF assms] .

definition witness_client_db :: oauth_db where
  "witness_client_db = witness_oauth_db\<lparr>od_clients := [\<lparr>oc_id = 1, oc_client_id = ''cl'',
     oc_client_secret = ref_token ''a'' ''secret-a'' [(''v'', VStr ''pw'')], oc_name = None,
     oc_enabled = True, oc_created_at = 0, oc_updated_at = 0\<rparr>]\<rparr>"

lemma witness_client:
  "od_clients db = od_clients witness_client_db \<Longrightarrow>
   \<exists>c. authenticate_client (witness_env now) db ''cl'' ''pw'' = Inr c"
  by (simp add: authenticate_client_def get_client_by_client_id_def witness_client_db_def witness_env_def
      decrypt_value_def decrypt_jwe_token_def ref_crypto_def encryption_service_def key_a_def dict_by_def
      get_decryption_key_def derive_symmetric_key_def compare_digest_def is_ascii_def py_raise_def)

lemma witness_state:
  "\<exists>state p. mint_pending_auth (witness_env 0) ''cl'' ''https://app'' None {''openid''} None None ''ver'' ''code'' = Inr state \<and>
     decode_pending_auth (witness_env 0) state = Inr p \<and> pa_code_challenge p = VNone \<and>
     pa_response_type p = VStr ''code'' \<and> pa_redirect_uri p = ''https://app''"
proof -
  have j: "json_ok ([(''cid'', VStr ''cl''), (''ruri'', VStr ''https://app''), (''rtyp'', VStr ''code''),
      (''ivf'', VStr ''ver'')] @ scope_claim {''openid''} @ pkce_claims VNone VNone)"
    by (simp add: pkce_claims_def)
  obtain state where s: "mint_pending_auth (witness_env 0) ''cl'' ''https://app'' None {''openid''} None None ''ver'' ''code'' = Inr state"
    using grant_jwe_total [OF j, of "witness_env 0" 0 "seconds 600"] by (auto simp: mint_pending_auth_def)
  have "crypto_ok (oe_crypto (witness_env 0))" "shares_key (oe_enc (witness_env 0)) (oe_enc (witness_env 0))"
    by (simp_all add: witness_env_def shares_key_def encryption_service_def key_a_def dict_by_def)
  from grant_jwe_read [OF s [unfolded mint_pending_auth_def] this] obtain p where
    d: "decrypt_jwe_token (oe_crypto (witness_env 0)) (oe_enc (witness_env 0)) state = Inr p"
    and m: "map_of p = minted_claims 0 ([(''cid'', VStr ''cl''), (''ruri'', VStr ''https://app''), (''rtyp'', VStr ''code''),
      (''ivf'', VStr ''ver'')] @ scope_claim {''openid''} @ pkce_claims VNone VNone) (Some (seconds 600))"
    by (auto simp: witness_env_def)
  have "map_of p ''cid'' = Some (VStr ''cl'')" "map_of p ''ruri'' = Some (VStr ''https://app'')"
    "map_of p ''rtyp'' = Some (VStr ''code'')" "map_of p ''ivf'' = Some (VStr ''ver'')"
    "map_of p ''cc'' = None"
    by (simp_all add: m minted_claims_def pkce_claims_def)
  then show ?thesis using s d
    by (simp add: decode_pending_auth_def grant_decrypt_def or_none_def falsy_def str_item_def py_raise_def)
qed

lemma witness_callback:
  assumes "decode_pending_auth (witness_env 0) state = Inr p" "pa_response_type p = VStr ''code''"
    "pa_code_challenge p = VNone"
  shows "\<exists>ctx db2 code. handle_callback (witness_env 0) witness_client_db ''c'' state ''cb'' = Inr (ctx, db2) \<and>
     cc_auth_code ctx = Some code \<and> od_clients db2 = od_clients witness_client_db"
proof -
  obtain name k where n: "unique_username [witness_user] ''new@x.y'' = Some name"
    "name = candidate (username_base ''new@x.y'') k" "k \<le> length [witness_user]"
    "\<not> (\<exists>u \<in> set [witness_user]. u_username u = name)"
    using unique_username_least [of "[witness_user]" "''new@x.y''"] by auto
  have l: "length name \<le> 64" using candidate_length [of k] n(2,3) by simp
  obtain u db1 where p: "provision_user (witness_env 0) witness_client_db witness_reply = Inr (u, db1)"
    "od_clients db1 = od_clients witness_client_db"
    using n l
    by (simp add: provision_user_def text_field_def falsy_def decode_id_token_def witness_env_def witness_reply_def
        witness_libs_def witness_idp_def claim_def find_user_by_idp_id_def find_user_by_email_def
        witness_oauth_db_def witness_client_db_def witness_user_def one_or_none_def create_provisioned_def
        insert_user_def Let_def)
  have e: "\<exists>x. grant_encrypt (witness_env 0) i s = Inr x" for i s
    by (simp add: grant_encrypt_def enc_raise_def encrypt_value_def create_jwe_token_def Let_def)
  obtain x y where xy: "grant_encrypt (witness_env 0) 1 ''RT'' = Inr x" "grant_encrypt (witness_env 0) 2 ''AT'' = Inr y"
    using e by blast
  have tf: "text_field witness_reply ''refresh_token'' = Inr (Some ''RT'')"
    "text_field witness_reply ''access_token'' = Inr (Some ''AT'')"
    by (simp_all add: text_field_def witness_reply_def falsy_def)
  obtain r a db2 where pe: "persist_idp_tokens (witness_env 0) db1 (u_id u) witness_reply = Inr (r, a, db2)"
    "od_clients db2 = od_clients db1"
    using xy by (simp add: persist_idp_tokens_def tf Let_def)
  have ex: "exchange_code_with_idp (witness_env 0) ''c'' v ''cb'' = Inr witness_reply" for v
    by (simp add: exchange_code_with_idp_def idp_token_post_def witness_env_def witness_reply_def)
  have "json_ok ([(''sub'', VStr (uuid_str (u_id u))), (''ttyp'', VStr ''authorization_code''),
         (''jti'', VStr (uuid_str (oe_uuid (witness_env 0) 3))), (''rid'', VStr (uuid_str (rt_id r))),
         (''aid'', VStr (uuid_str (at_id a))), (''cid'', VStr (pa_client_id p)),
         (''ruri'', VStr (pa_redirect_uri p))] @
        scope_claim (pa_scopes p) @ pkce_claims VNone (pa_code_method p))"
    by (simp add: pkce_claims_def)
  from grant_jwe_total [OF this, of "witness_env 0" 3 "seconds 600"] obtain code where
    "mint_auth_code (witness_env 0) (u_id u) (rt_id r) (at_id a) (pa_client_id p) (pa_redirect_uri p)
      (pa_scopes p) VNone (pa_code_method p) = Inr code"
    unfolding mint_auth_code_def by blast
  then show ?thesis using assms(2,3) p(2) pe(2)
    by (simp add: handle_callback_def assms(1) ex p(1) pe(1))
qed

theorem code_flow_witness:
  "\<exists>state ctx db2 code. handle_callback (witness_env 0) witness_client_db ''c'' state ''cb'' = Inr (ctx, db2) \<and>
     cc_auth_code ctx = Some code \<and>
     (\<exists>pair. exchange_authorization_code (witness_env (seconds 86400)) db2 code (cc_redirect_uri ctx) ''cl'' ''pw'' None = Inr pair)"
proof -
  obtain state p where s: "decode_pending_auth (witness_env 0) state = Inr p" "pa_code_challenge p = VNone"
     "pa_response_type p = VStr ''code''" using witness_state by blast
  obtain ctx db2 code where c: "handle_callback (witness_env 0) witness_client_db ''c'' state ''cb'' = Inr (ctx, db2)"
     "cc_auth_code ctx = Some code" "od_clients db2 = od_clients witness_client_db"
    using witness_callback [OF s(1,3,2)] by blast
  obtain client where cl: "authenticate_client (witness_env (seconds 86400)) db2 ''cl'' ''pw'' = Inr client"
    using witness_client [OF c(3)] by blast
  have e: "crypto_ok (oe_crypto (witness_env 0))" "oe_crypto (witness_env t) = oe_crypto (witness_env 0)"
    "shares_key (oe_enc (witness_env 0)) (oe_enc (witness_env t))" for t
    by (simp_all add: witness_env_def shares_key_def encryption_service_def key_a_def dict_by_def)
  have f: "oe_uuid (witness_env 0) 1 \<notin> rt_id ` set (td_refresh_tokens witness_client_db)"
    "oe_uuid (witness_env 0) 2 \<notin> at_id ` set (td_access_tokens witness_client_db)"
    by (simp_all add: witness_client_db_def witness_oauth_db_def)
  have v: "verify_pkce (oe_libs (witness_env (seconds 86400))) (pa_code_challenge p) (pa_code_method p) None = Inr ()"
    by (simp add: s(2) verify_pkce_def)
  from code_flow [OF c(1,2) e f cl s(1) v] c(1,2) show ?thesis by blast
qed

end
