(* ===== verification/OAuthRevoke.thy ===== *)
theory OAuthRevoke
  imports OAuthFlow
begin

text \<open>
  What an exchange has checked, the finality of revocation and logout, when the identity provider
  is asked for a refresh, and the cleanup of expired rows.
\<close>

section \<open>The checks of an exchange\<close>

lemma find_SomeD: "List.find P xs = Some x \<Longrightarrow> x \<in> set xs \<and> P x"
  by (auto simp: find_Some_iff)

lemma authenticate_client_checks:
  assumes "authenticate_client env db cid secret = Inr client"
  shows "client \<in> set (od_clients db) \<and> oc_client_id client = cid \<and> oc_enabled client \<and>
    decrypt_value (oe_crypto env) (oe_enc env) (oc_client_secret client) = Inr secret"
  using assms
  by (auto simp: authenticate_client_def get_client_by_client_id_def find_Some_iff py_raise_def
      compare_digest_def split: option.splits if_splits sum.splits)

lemma verify_pkce_checks:
  assumes "verify_pkce L ch m verifier = Inr ()" "ch \<noteq> VNone"
  shows "\<exists>v method. verifier = Some v \<and>
    (if falsy (Some m) then method = ''plain'' else m = VStr method) \<and>
    (\<exists>expected. derive_code_challenge L v method = Inr expected \<and> ch = VStr expected)"
  using assms
  by (auto simp: verify_pkce_def py_raise_def compare_digest_def elim!: bindR_InrE
      split: option.splits pyval.splits sum.splits if_splits)

lemma verify_pkce_expected:
  assumes "verify_pkce L ch m verifier = Inr ()" "ch \<noteq> VNone"
  shows "\<exists>v. verifier = Some v \<and>
    ch = VStr (if \<exists>s. m = VStr s \<and> map upper_char s = ''S256'' then sha256_b64url L v else v)"
proof -
  obtain v how expected where v: "verifier = Some v" "if falsy (Some m) then how = ''plain'' else m = VStr how"
      "derive_code_challenge L v how = Inr expected" "ch = VStr expected"
    using verify_pkce_checks [OF assms] by blast
  have "(\<exists>s. m = VStr s \<and> map upper_char s = ''S256'') \<longleftrightarrow> map upper_char how = ''S256''"
    using v(2) by (cases "falsy (Some m)") (auto simp: falsy_def upper_char_def split: pyval.splits if_splits)
  then show ?thesis using v(1,3,4) by (auto simp: derive_code_challenge_def split: if_splits)
qed

text \<open>C13. A code is exchanged only after every check: the client is registered, enabled and knows its
  secret; the code decrypts to an authorization code for this redirect URI; if the code records a PKCE challenge, a
  verifier is presented and the challenge is its hash under the method S256, in any letter case, and the verifier itself
  under every other method and without one; and the refresh row with the id in the code
  belongs to the code's user and backs the access row with the id in the code. The pair is minted for these two rows and the
  scopes of the code, and reports their expiries.\<close>

theorem exchange_checks:
  assumes "exchange_authorization_code env db code ruri cid secret verifier = Inr pair"
  shows "\<exists>client payload refresh_row access_row user_id.
    client \<in> set (od_clients db) \<and> oc_client_id client = cid \<and> oc_enabled client \<and>
    decrypt_value (oe_crypto env) (oe_enc env) (oc_client_secret client) = Inr secret \<and>
    decrypt_jwe_token (oe_crypto env) (oe_enc env) code = Inr payload \<and>
    map_of payload ''ttyp'' = Some (VStr ''authorization_code'') \<and>
    map_of payload ''ruri'' = Some (VStr ruri) \<and>
    (\<forall>ch. map_of payload ''cc'' = Some ch \<and> ch \<noteq> VNone \<longrightarrow>
       (\<exists>v. verifier = Some v \<and>
          ch = VStr (if \<exists>m. map_of payload ''ccm'' = Some (VStr m) \<and> map upper_char m = ''S256''
                     then sha256_b64url (oe_libs env) v else v))) \<and>
    refresh_row \<in> set (td_refresh_tokens db) \<and> grant_uuid payload ''rid'' = Inr (rt_id refresh_row) \<and>
    access_row \<in> set (td_access_tokens db) \<and> grant_uuid payload ''aid'' = Inr (at_id access_row) \<and>
    grant_uuid payload ''sub'' = Inr user_id \<and> rt_creator_id refresh_row = user_id \<and>
    at_refresh_token_id access_row = rt_id refresh_row \<and>
    grant_access_token env user_id access_row (grant_scopes payload) = Inr (tp_access_token pair) \<and>
    grant_refresh_token env user_id refresh_row (grant_scopes payload) = Inr (tp_refresh_token pair) \<and>
    tp_access_expires_at pair = at_expires_at access_row \<and> tp_refresh_expires_at pair = rt_expires_at refresh_row"
proof -
  from assms obtain client payload u row_id access_id where cl: "authenticate_client env db cid secret = Inr client"
    and p: "grant_decrypt env code = Inr payload"
    and ty: "map_of payload ''ttyp'' = Some (VStr ''authorization_code'')" "map_of payload ''ruri'' = Some (VStr ruri)"
    and pk: "verify_pkce (oe_libs env) (or_none (map_of payload ''cc'')) (or_none (map_of payload ''ccm'')) verifier = Inr ()"
    and u: "grant_uuid payload ''sub'' = Inr u" "grant_uuid payload ''rid'' = Inr row_id" "grant_uuid payload ''aid'' = Inr access_id"
    and rest: "(case load_token_rows db row_id access_id of
             (Some refresh_row, access) \<Rightarrow>
               if rt_creator_id refresh_row \<noteq> u then Inl (InvalidGrantError ''stale authorization code'')
               else
                 (case access of
                    None \<Rightarrow> Inl (InvalidGrantError ''stale authorization code'')
                  | Some access_row \<Rightarrow>
                      if at_refresh_token_id access_row \<noteq> rt_id refresh_row
                      then Inl (InvalidGrantError ''stale authorization code'')
                      else mint_token_pair env db u refresh_row access_row cid (grant_scopes payload))
           | (None, _) \<Rightarrow> Inl (InvalidGrantError ''stale authorization code'')) = Inr pair"
    unfolding exchange_authorization_code_def
    by (elim bindR_InrE) (auto elim!: bindR_InrE split: if_split_asm)
  from rest obtain r a where ra: "r \<in> set (td_refresh_tokens db)" "rt_id r = row_id" "a \<in> set (td_access_tokens db)" "at_id a = access_id"
    "rt_creator_id r = u" "at_refresh_token_id a = rt_id r"
    "mint_token_pair env db u r a cid (grant_scopes payload) = Inr pair"
    by (auto simp: load_token_rows_def dest!: find_SomeD split: option.split_asm if_split_asm)
  have e: "grant_access_token env u a (grant_scopes payload) = Inr (tp_access_token pair)"
    "grant_refresh_token env u r (grant_scopes payload) = Inr (tp_refresh_token pair)"
    "tp_access_expires_at pair = at_expires_at a" "tp_refresh_expires_at pair = rt_expires_at r"
    using mint_token_pair_total [of env db u r a cid "grant_scopes payload"] ra(7) by auto
  have pkce: "\<exists>v. verifier = Some v \<and>
      ch = VStr (if \<exists>m. map_of payload ''ccm'' = Some (VStr m) \<and> map upper_char m = ''S256'' then sha256_b64url (oe_libs env) v else v)"
    if "map_of payload ''cc'' = Some ch \<and> ch \<noteq> VNone" for ch
  proof -
    have "(\<exists>s. or_none (map_of payload ''ccm'') = VStr s \<and> map upper_char s = ''S256'') \<longleftrightarrow>
        (\<exists>s. map_of payload ''ccm'' = Some (VStr s) \<and> map upper_char s = ''S256'')"
      by (simp add: or_none_def split: option.split)
    moreover have "or_none (map_of payload ''cc'') = ch" using that by (simp add: or_none_def)
    ultimately show ?thesis using verify_pkce_expected [OF pk] that by simp
  qed
  have d: "decrypt_jwe_token (oe_crypto env) (oe_enc env) code = Inr payload"
    using p by (simp add: grant_decrypt_def split: sum.splits)
  show ?thesis
    using authenticate_client_checks [OF cl] d ty pkce ra(1-6) u e by blast
qed

theorem exchange_checks_witness:
  "\<exists>(db :: oauth_db) code ruri pair client. exchange_authorization_code (witness_env (seconds 86400)) db code ruri ''cl'' ''pw'' None = Inr pair \<and>
     client \<in> set (od_clients db) \<and> oc_client_id client = ''cl''"
proof -
  obtain state p where s: "decode_pending_auth (witness_env 0) state = Inr p" "pa_code_challenge p = VNone"
     "pa_response_type p = VStr ''code''" using witness_state by blast
  obtain ctx db2 code where c: "handle_callback (witness_env 0) witness_client_db ''c'' state ''cb'' = Inr (ctx, db2)"
     "cc_auth_code ctx = Some code" "od_clients db2 = od_clients witness_client_db"
    using witness_callback [OF s(1,3,2)] by blast
  obtain client where cl: "authenticate_client (witness_env (seconds 86400)) db2 ''cl'' ''pw'' = Inr client"
    using witness_client [OF c(3)] by blast
  have e: "crypto_ok (oe_crypto (witness_env 0))" "oe_crypto (witness_env t) = oe_crypto (witness_env 0)"
    "shares_key (oe_enc (witness_env 0)) (oe_enc (witness_env t))" for t
    by (simp_all add: witness_env_def shares_key_def encryption_service_def key_a_def dict_by_def)
  have f: "oe_uuid (witness_env 0) 1 \<notin> rt_id ` set (td_refresh_tokens witness_client_db)"
    "oe_uuid (witness_env 0) 2 \<notin> at_id ` set (td_access_tokens witness_client_db)"
    by (simp_all add: witness_client_db_def witness_oauth_db_def)
  have v: "verify_pkce (oe_libs (witness_env (seconds 86400))) (pa_code_challenge p) (pa_code_method p) None = Inr ()"
    by (simp add: s(2) verify_pkce_def)
  obtain pair where ex: "exchange_authorization_code (witness_env (seconds 86400)) db2 code
     (cc_redirect_uri ctx) ''cl'' ''pw'' None = Inr pair"
    using code_flow_lib [OF c(1,2) e f cl s(1) v] by blast
  from exchange_checks [OF ex] obtain x where "x \<in> set (od_clients db2)" "oc_client_id x = ''cl''" by metis
  with ex show ?thesis by (intro exI conjI) assumption+
qed

section \<open>Revocation\<close>

definition backs_nothing :: "'z oauth_db_scheme \<Rightarrow> uuid \<Rightarrow> bool" where
  "backs_nothing db rid =
     ((\<forall>r \<in> set (td_refresh_tokens db). rt_id r \<noteq> rid) \<and>
      (\<forall>a \<in> set (td_access_tokens db). at_refresh_token_id a \<noteq> rid))"

lemma delete_refresh_row_backs: "backs_nothing (delete_refresh_row db rid) rid"
  by (simp add: backs_nothing_def delete_refresh_row_def)

lemma dead_refresh_token:
  assumes "backs_nothing db rid" "grant_decrypt env token = Inr p" "grant_uuid p ''rid'' = Inr rid"
  shows "exchange_refresh_token env lock db token cid secret \<noteq> Inr result"
proof
  assume "exchange_refresh_token env lock db token cid secret = Inr result"
  then obtain rows where "lock_token_rows lock db rid = Inr rows" "fst rows \<noteq> None"
    unfolding exchange_refresh_token_def using assms(2,3)
    by (fastforce elim!: bindR_InrE split: if_split_asm prod.split_asm option.split_asm)
  moreover have "List.find (\<lambda>r. rt_id r = rid) (td_refresh_tokens db) = None"
    using assms(1) by (intro find_none) (auto simp: backs_nothing_def)
  ultimately show False by (auto simp: lock_token_rows_def split: if_splits)
qed

lemma revoke_garbage:
  assumes "authenticate_client env db cid secret = Inr c" "grant_decrypt env token = Inl e"
  shows "revoke_token env db token cid secret = Inr db"
  using assms by (auto simp: revoke_token_def revoke_payload_def grant_decrypt_def split: sum.splits)

text \<open>C14. Revocation of a refresh token is final: when it returns, the row is gone with every access
  row behind it, all other rows are as they were, and presenting the token again, at any time, by
  any client, to any process that can read it, never yields a token pair. A string that does not
  decrypt is accepted without effect, and a client that does not authenticate changes nothing.\<close>

theorem revocation_final:
  assumes "revoke_token env db token cid secret = Inr db'"
  shows "(\<exists>client. authenticate_client env db cid secret = Inr client) \<and>
    (\<forall>p rid. grant_decrypt env token = Inr p \<and> grant_token_type p = Inr IDP_REFRESH_TOKEN \<and>
        grant_uuid p ''rid'' = Inr rid \<and>
        (\<exists>r \<in> set (td_refresh_tokens db). rt_id r = rid) \<longrightarrow>
      backs_nothing db' rid \<and>
      (\<forall>r \<in> set (td_refresh_tokens db). rt_id r \<noteq> rid \<longrightarrow> r \<in> set (td_refresh_tokens db')) \<and>
      (\<forall>a \<in> set (td_access_tokens db). at_refresh_token_id a \<noteq> rid \<longrightarrow> a \<in> set (td_access_tokens db')) \<and>
      td_users db' = td_users db \<and>
      (\<forall>env2 lock cid2 secret2 result. grant_decrypt env2 token = Inr p \<longrightarrow>
         exchange_refresh_token env2 lock db' token cid2 secret2 \<noteq> Inr result)) \<and>
    (\<forall>e. grant_decrypt env token = Inl e \<longrightarrow> db' = db)"
proof -
  obtain client where c: "authenticate_client env db cid secret = Inr client"
    and r: "(case revoke_payload env db token of Inl (InvalidGrantError _) \<Rightarrow> Inr db | r \<Rightarrow> r) = Inr db'"
    using assms by (auto simp: revoke_token_def elim!: bindR_InrE)
  show ?thesis
  proof (intro conjI allI impI)
    show "\<exists>client. authenticate_client env db cid secret = Inr client" using c by blast
    show "db' = db" if "grant_decrypt env token = Inl e" for e
      using revoke_garbage [OF c that] assms by simp
  next
    fix p rid
    assume h: "grant_decrypt env token = Inr p \<and> grant_token_type p = Inr IDP_REFRESH_TOKEN \<and>
        grant_uuid p ''rid'' = Inr rid \<and>
        (\<exists>r \<in> set (td_refresh_tokens db). rt_id r = rid)"
    then obtain row where row: "List.find (\<lambda>r. rt_id r = rid) (td_refresh_tokens db) = Some row"
      by (cases "List.find (\<lambda>r. rt_id r = rid) (td_refresh_tokens db)") (auto simp: find_None_iff)
    have "revoke_payload env db token =
        bindR (revoke_with_idp env (rt_refresh_token row)) (\<lambda>_. Inr (delete_refresh_row db rid))"
      using h row by (simp add: revoke_payload_def)
    moreover have "revoke_with_idp env x \<noteq> Inl (InvalidGrantError m)" for x m
      by (auto simp: revoke_with_idp_def enc_raise_def bindR_Inl_iff split: option.split sum.split)
    ultimately have db': "db' = delete_refresh_row db rid"
      using r by (cases "revoke_with_idp env (rt_refresh_token row)")
        (auto split: grant_error.splits)
    show "backs_nothing db' rid" unfolding db' by (rule delete_refresh_row_backs)
    show "\<forall>r \<in> set (td_refresh_tokens db). rt_id r \<noteq> rid \<longrightarrow> r \<in> set (td_refresh_tokens db')"
      "\<forall>a \<in> set (td_access_tokens db). at_refresh_token_id a \<noteq> rid \<longrightarrow> a \<in> set (td_access_tokens db')"
      "td_users db' = td_users db"
      by (simp_all add: db' delete_refresh_row_def)
    show "exchange_refresh_token env2 lock db' token cid2 secret2 \<noteq> Inr result"
      if "grant_decrypt env2 token = Inr p" for env2 lock cid2 secret2 result
      using dead_refresh_token [OF _ that, of db' rid] h delete_refresh_row_backs [of db rid] db' by blast
  qed
qed

text \<open>A database with one live session, for the witnesses.\<close>

definition session_db :: oauth_db where
  "session_db = witness_client_db\<lparr>
     td_refresh_tokens := [\<lparr>rt_id = 1, rt_creator_id = 7,
       rt_refresh_token = ref_token ''a'' ''secret-a'' [(''v'', VStr ''RT0'')],
       rt_expires_at = 5000, rt_created_at = 0, rt_updated_at = 0\<rparr>],
     td_access_tokens := [\<lparr>at_id = 2, at_refresh_token_id = 1, at_access_token = ''AT0'',
       at_expires_at = 0, at_created_at = 0, at_updated_at = 0\<rparr>]\<rparr>"

definition session_cookie :: string where
  "session_cookie = ref_token ''a'' ''secret-a'' [(''ttyp'', VStr ''cookie''), (''aid'', VStr (uuid_str 2))]"

definition session_refresh_token :: string where
  "session_refresh_token =
     ref_token ''a'' ''secret-a'' [(''ttyp'', VStr ''idp_refresh_token''), (''rid'', VStr (uuid_str 1))]"

lemma witness_decrypt:
  "grant_decrypt (witness_env t) (ref_token ''a'' ''secret-a'' p) = Inr p"
  "decrypt_value (oe_crypto (witness_env t)) (oe_enc (witness_env t)) (ref_token ''a'' ''secret-a'' [(''v'', VStr s)]) = Inr s"
  by (simp_all add: grant_decrypt_def witness_env_def decrypt_value_def decrypt_jwe_token_def ref_crypto_def
      encryption_service_def key_a_def dict_by_def get_decryption_key_def derive_symmetric_key_def)

lemma witness_revoke [simp]: "revoke_with_idp (witness_env t) x = Inr ()"
  by (simp add: revoke_with_idp_def witness_env_def witness_idp_def)

theorem revocation_final_witness:
  "\<exists>db'. revoke_token (witness_env 0) session_db session_refresh_token ''cl'' ''pw'' = Inr db' \<and>
     backs_nothing db' 1 \<and>
     (\<forall>result. exchange_refresh_token (witness_env 1) True db' session_refresh_token ''cl'' ''pw'' \<noteq> Inr result)"
proof -
  obtain c where c: "authenticate_client (witness_env 0) session_db ''cl'' ''pw'' = Inr c"
    using witness_client [of session_db 0] by (auto simp: session_db_def)
  have p: "grant_decrypt (witness_env t) session_refresh_token =
      Inr [(''ttyp'', VStr ''idp_refresh_token''), (''rid'', VStr (uuid_str 1))]" for t
    by (simp add: session_refresh_token_def witness_decrypt)
  have q: "grant_token_type [(''ttyp'', VStr ''idp_refresh_token''), (''rid'', VStr (uuid_str 1))] = Inr IDP_REFRESH_TOKEN"
    "grant_uuid [(''ttyp'', VStr ''idp_refresh_token''), (''rid'', VStr (uuid_str 1))] ''rid'' = Inr 1"
    by (simp_all add: grant_token_type_def token_type_of_def grant_uuid_def)
  have m: "\<exists>r \<in> set (td_refresh_tokens session_db). rt_id r = 1" by (simp add: session_db_def)
  obtain db' where r: "revoke_token (witness_env 0) session_db session_refresh_token ''cl'' ''pw'' = Inr db'"
  proof -
    obtain row where "td_refresh_tokens session_db = [row]" "rt_id row = 1" by (simp add: session_db_def)
    then show ?thesis using that by (simp add: revoke_token_def revoke_payload_def c p q)
  qed
  have h: "grant_decrypt (witness_env 0) session_refresh_token =
      Inr [(''ttyp'', VStr ''idp_refresh_token''), (''rid'', VStr (uuid_str 1))] \<and>
    grant_token_type [(''ttyp'', VStr ''idp_refresh_token''), (''rid'', VStr (uuid_str 1))] = Inr IDP_REFRESH_TOKEN \<and>
    grant_uuid [(''ttyp'', VStr ''idp_refresh_token''), (''rid'', VStr (uuid_str 1))] ''rid'' = Inr 1 \<and>
    (\<exists>r \<in> set (td_refresh_tokens session_db). rt_id r = 1)"
    by (intro conjI p q m)
  note f = revocation_final [OF r, THEN conjunct2, THEN conjunct1, THEN spec, THEN spec, THEN mp, OF h]
  note dead = f [THEN conjunct2, THEN conjunct2, THEN conjunct2, THEN conjunct2, rule_format, OF p]
  show ?thesis using r f [THEN conjunct1] dead by (intro exI [of _ db'] conjI allI)
qed

text \<open>C15. Logging out ends the session behind a cookie: if the access row named by a readable cookie
  exists with its refresh row, then after \<open>revoke_session\<close> returns neither is left, and the
  cookie's access row can no longer be refreshed; any other string changes nothing.\<close>

theorem logout_ends_session:
  assumes "revoke_session env db cookie = Inr db'"
  shows "(\<forall>p raw aid a r. grant_decrypt env cookie = Inr p \<and> grant_token_type p = Inr COOKIE \<and>
        map_of p ''aid'' = Some (VStr raw) \<and> uuid_parse raw = Some aid \<and>
        List.find (\<lambda>a. at_id a = aid) (td_access_tokens db) = Some a \<and>
        List.find (\<lambda>r. rt_id r = at_refresh_token_id a) (td_refresh_tokens db) = Some r \<and>
        distinct (map at_id (td_access_tokens db)) \<longrightarrow>
      backs_nothing db' (rt_id r) \<and> aid \<notin> at_id ` set (td_access_tokens db') \<and>
      (\<forall>env2 lock db''. refresh_access_token env2 lock db' db'' aid = Inl (InvalidGrantError ''access token not recognized''))) \<and>
    ((\<exists>e. grant_decrypt env cookie = Inl e) \<or>
     (\<exists>p. grant_decrypt env cookie = Inr p \<and> grant_token_type p \<noteq> Inr COOKIE) \<longrightarrow> db' = db)"
proof (intro conjI allI impI)
  fix p raw aid a r
  assume h: "grant_decrypt env cookie = Inr p \<and> grant_token_type p = Inr COOKIE \<and>
        map_of p ''aid'' = Some (VStr raw) \<and> uuid_parse raw = Some aid \<and>
        List.find (\<lambda>a. at_id a = aid) (td_access_tokens db) = Some a \<and>
        List.find (\<lambda>r. rt_id r = at_refresh_token_id a) (td_refresh_tokens db) = Some r \<and>
        distinct (map at_id (td_access_tokens db))"
  then have db': "db' = delete_refresh_row db (rt_id r)"
    using assms by (auto simp: revoke_session_def elim!: bindR_InrE)
  show b: "backs_nothing db' (rt_id r)" unfolding db' by (rule delete_refresh_row_backs)
  have ar: "a \<in> set (td_access_tokens db)" "at_id a = aid" "at_refresh_token_id a = rt_id r"
    using h by (auto simp: find_Some_iff)
  have one: "x = a" if "x \<in> set (td_access_tokens db)" "at_id x = aid" for x
    using h ar that by (auto simp: distinct_map dest: inj_onD)
  show gone: "aid \<notin> at_id ` set (td_access_tokens db')"
    using one ar(3) by (auto simp: db' delete_refresh_row_def)
  then have "List.find (\<lambda>a. at_id a = aid) (td_access_tokens db') = None"
    by (intro find_none) auto
  then show "refresh_access_token env2 lock db' db'' aid = Inl (InvalidGrantError ''access token not recognized'')"
    for env2 lock db'' by (simp add: refresh_access_token_def)
next
  assume "(\<exists>e. grant_decrypt env cookie = Inl e) \<or>
     (\<exists>p. grant_decrypt env cookie = Inr p \<and> grant_token_type p \<noteq> Inr COOKIE)"
  then show "db' = db" using assms by (auto simp: revoke_session_def split: sum.splits if_splits)
qed

theorem logout_ends_session_witness:
  "\<exists>db'. revoke_session (witness_env 0) session_db session_cookie = Inr db' \<and> backs_nothing db' 1 \<and>
     (2 :: uuid) \<notin> at_id ` set (td_access_tokens db')"
proof -
  have p: "grant_decrypt (witness_env 0) session_cookie = Inr [(''ttyp'', VStr ''cookie''), (''aid'', VStr (uuid_str 2))]"
    by (simp add: session_cookie_def witness_decrypt)
  have q: "grant_token_type [(''ttyp'', VStr ''cookie''), (''aid'', VStr (uuid_str 2))] = Inr COOKIE"
    by (simp add: grant_token_type_def token_type_of_def)
  obtain db' where r: "revoke_session (witness_env 0) session_db session_cookie = Inr db'"
    by (simp add: revoke_session_def p q session_db_def)
  obtain a r0 where s: "List.find (\<lambda>a. at_id a = 2) (td_access_tokens session_db) = Some a"
    "List.find (\<lambda>r. rt_id r = at_refresh_token_id a) (td_refresh_tokens session_db) = Some r0" "rt_id r0 = 1"
    "distinct (map at_id (td_access_tokens session_db))"
    by (simp add: session_db_def)
  have k: "map_of [(''ttyp'', VStr ''cookie''), (''aid'', VStr (uuid_str 2))] ''aid'' = Some (VStr (uuid_str 2))"
    "uuid_parse (uuid_str 2) = Some 2" by simp_all
  have "backs_nothing db' (rt_id r0) \<and> 2 \<notin> at_id ` set (td_access_tokens db')"
    using logout_ends_session [OF r, THEN conjunct1, rule_format, of _ "uuid_str 2" 2 a r0] p q s k by blast
  with r s(3) show ?thesis by auto
qed

section \<open>Refreshing\<close>

lemma refresh_rows_shape:
  assumes "refresh_rows env db r a = Inr (r', a', db')"
  shows "db' = set_rows db r' a' \<and> rt_id r' = rt_id r \<and> rt_creator_id r' = rt_creator_id r \<and>
    at_id a' = at_id a \<and> at_refresh_token_id a' = at_refresh_token_id a \<and>
    (\<exists>tokens. r' = r\<lparr>rt_refresh_token := rt_refresh_token r',
        rt_expires_at := idp_refresh_expiry (oe_now env) tokens (expire_drift_tolerance (oe_idp env)) (oe_idp env),
        rt_updated_at := oe_now env\<rparr> \<and>
      at_expires_at a' = idp_access_expiry (oe_now env) tokens (expire_drift_tolerance (oe_idp env)) (oe_idp env))"
proof -
  obtain tokens x y where r: "r' = r\<lparr>rt_refresh_token := x,
        rt_expires_at := idp_refresh_expiry (oe_now env) tokens (expire_drift_tolerance (oe_idp env)) (oe_idp env),
        rt_updated_at := oe_now env\<rparr>"
    and a: "a' = a\<lparr>at_access_token := y,
        at_expires_at := idp_access_expiry (oe_now env) tokens (expire_drift_tolerance (oe_idp env)) (oe_idp env),
        at_updated_at := oe_now env\<rparr>"
    and db: "db' = set_rows db r' a'"
    using assms unfolding refresh_rows_def Let_def
    by (elim bindR_InrE) (auto elim!: bindR_InrE split: option.split_asm)
  show ?thesis unfolding db by (intro conjI exI [of _ tokens]) (simp_all add: r a)
qed

text \<open>Whether a server-side refresh is due is decided on the access row as it was loaded before the lock was waited
  for: refreshing the access row behind a cookie requires a live refresh row; if the loaded row was still valid nothing changes;
  otherwise exactly that refresh row and that access row are rewritten, with expiries computed from the reply, also
  when another request has renewed the access row in the meantime. No row changes its owner, its id or its place.\<close>

theorem refresh_only_when_due:
  assumes "refresh_access_token env lock before db aid = Inr (a', r', db')"
    and "\<And>x y. x \<in> set (td_access_tokens db) \<Longrightarrow> y \<in> set (td_access_tokens before) \<Longrightarrow>
           at_refresh_token_id x = at_refresh_token_id y \<Longrightarrow> at_id x = at_id y"
  shows "lock \<and>
    (\<exists>a r. List.find (\<lambda>a. at_id a = aid) (td_access_tokens before) = Some a \<and>
       r \<in> set (td_refresh_tokens db) \<and> rt_id r = at_refresh_token_id a \<and> oe_now env < rt_expires_at r \<and>
       at_id a' = aid \<and> rt_id r' = rt_id r \<and> rt_creator_id r' = rt_creator_id r \<and>
       at_refresh_token_id a' = rt_id r \<and>
       (oe_now env < at_expires_at a \<longrightarrow> a' = a \<and> r' = r \<and> db' = db) \<and>
       (at_expires_at a \<le> oe_now env \<longrightarrow> db' = set_rows db r' a' \<and>
          (\<exists>plain tokens. decrypt_value (oe_crypto env) (oe_enc env) (rt_refresh_token r) = Inr plain \<and>
             refresh_with_idp env plain = Inr tokens)) \<and>
       map rt_id (td_refresh_tokens db') = map rt_id (td_refresh_tokens db) \<and>
       map at_id (td_access_tokens db') = map at_id (td_access_tokens db) \<and>
       (\<forall>x \<in> set (td_refresh_tokens db). rt_id x \<noteq> rt_id r \<longrightarrow> x \<in> set (td_refresh_tokens db')) \<and>
       (\<forall>x \<in> set (td_access_tokens db). at_id x \<noteq> aid \<longrightarrow> x \<in> set (td_access_tokens db')))"
proof -
  obtain a where a: "List.find (\<lambda>a. at_id a = aid) (td_access_tokens before) = Some a"
    using assms(1) by (cases "List.find (\<lambda>a. at_id a = aid) (td_access_tokens before)")
      (simp_all add: refresh_access_token_def)
  then have am: "a \<in> set (td_access_tokens before)" "at_id a = aid" by (auto simp: find_Some_iff)
  obtain r locked where lk: "lock_token_rows lock db (at_refresh_token_id a) = Inr (Some r, locked)"
    and live: "oe_now env < rt_expires_at r"
    and ref: "refresh_rows_if_needed env db r (case locked of None \<Rightarrow> a | Some x \<Rightarrow> if at_id x = at_id a then a else x) = Inr (r', a', db')"
    using assms(1)
    by (auto simp: refresh_access_token_def a Let_def not_le elim!: bindR_InrE
        split: prod.split_asm option.split_asm if_split_asm)
  have lock: lock and rm: "r \<in> set (td_refresh_tokens db)" "rt_id r = at_refresh_token_id a"
    using lk by (auto simp: lock_token_rows_def find_Some_iff elim!: bindR_InrE split: if_splits option.split_asm)
  have "(case locked of None \<Rightarrow> a | Some x \<Rightarrow> if at_id x = at_id a then a else x) = a"
  proof (cases locked)
    case (Some x)
    then have "x \<in> set (td_access_tokens db)" "at_refresh_token_id x = at_refresh_token_id a"
      using lk by (auto simp: lock_token_rows_def find_Some_iff one_or_none_Some elim!: bindR_InrE
          dest: filter_singleton split: if_splits option.split_asm)
    then show ?thesis using assms(2) [of x a] am(1) Some by simp
  qed simp
  then have ref': "refresh_rows_if_needed env db r a = Inr (r', a', db')" using ref by simp
  show ?thesis
  proof (cases "oe_now env < at_expires_at a")
    case True
    then show ?thesis using ref' a am rm live lock by (auto simp: refresh_rows_if_needed_def)
  next
    case False
    then have go: "refresh_rows env db r a = Inr (r', a', db')" using ref' by (simp add: refresh_rows_if_needed_def)
    then have sh: "db' = set_rows db r' a'" "rt_id r' = rt_id r" "rt_creator_id r' = rt_creator_id r"
      "at_id a' = at_id a" "at_refresh_token_id a' = at_refresh_token_id a"
      using refresh_rows_shape [of env db r a r' a' db'] by auto
    have call: "\<exists>plain tokens. decrypt_value (oe_crypto env) (oe_enc env) (rt_refresh_token r) = Inr plain \<and>
        refresh_with_idp env plain = Inr tokens"
      using go unfolding refresh_rows_def by (auto simp: enc_raise_def elim!: bindR_InrE split: sum.split_asm)
    have kept: "map rt_id (td_refresh_tokens db') = map rt_id (td_refresh_tokens db)"
      "map at_id (td_access_tokens db') = map at_id (td_access_tokens db)"
      by (auto simp: sh(1) set_rows_def)
    have others: "\<forall>x \<in> set (td_refresh_tokens db). rt_id x \<noteq> rt_id r \<longrightarrow> x \<in> set (td_refresh_tokens db')"
      "\<forall>x \<in> set (td_access_tokens db). at_id x \<noteq> aid \<longrightarrow> x \<in> set (td_access_tokens db')"
      using sh(2,4) am(2) by (auto simp: sh(1) set_rows_def image_iff)
    show ?thesis
      using lock a rm live False sh call kept others am(2) by (intro conjI exI [of _ a] exI [of _ r]) auto
  qed
qed

text \<open>Another request has renewed the access row while this one waited: it asks the identity provider again.\<close>

definition renewed_db :: oauth_db where
  "renewed_db = session_db\<lparr>td_access_tokens := [\<lparr>at_id = 2, at_refresh_token_id = 1, at_access_token = ''AT1'',
     at_expires_at = 900000000, at_created_at = 0, at_updated_at = 500\<rparr>]\<rparr>"

theorem refresh_only_when_due_witness:
  "\<exists>a' r' db'. refresh_access_token (witness_env 1000) True session_db renewed_db 2 = Inr (a', r', db') \<and>
     (\<forall>a \<in> set (td_access_tokens renewed_db). 1000 < at_expires_at a) \<and> db' = set_rows renewed_db r' a' \<and> rt_creator_id r' = 7"
proof -
  obtain r a where ra: "td_refresh_tokens renewed_db = [r]" "td_access_tokens session_db = [a]" "rt_id r = 1"
    "at_id a = 2" "at_refresh_token_id a = 1" "rt_expires_at r = 5000" "at_expires_at a = 0" "rt_creator_id r = 7"
    "rt_refresh_token r = ref_token ''a'' ''secret-a'' [(''v'', VStr ''RT0'')]"
    by (simp add: renewed_db_def session_db_def)
  obtain b where b: "td_access_tokens renewed_db = [b]" "at_id b = 2" "at_refresh_token_id b = 1" "at_expires_at b = 900000000"
    by (simp add: renewed_db_def)
  have e: "\<exists>x. grant_encrypt (witness_env t) i s = Inr x" for t i s
    by (simp add: grant_encrypt_def enc_raise_def encrypt_value_def create_jwe_token_def Let_def)
  have tf: "text_field witness_reply ''refresh_token'' = Inr (Some ''RT'')"
    "text_field witness_reply ''access_token'' = Inr (Some ''AT'')"
    by (simp_all add: text_field_def witness_reply_def falsy_def)
  have post: "refresh_with_idp (witness_env t) x = Inr witness_reply" for t x
    by (simp add: refresh_with_idp_def idp_token_post_def witness_env_def witness_reply_def)
  have now: "oe_now (witness_env 1000) = 1000" by (simp add: witness_env_def)
  obtain r' a' db' where rr: "refresh_rows (witness_env 1000) renewed_db r a = Inr (r', a', db')"
    using e [of 1000 1 "''RT''"] e [of 1000 2 "''AT''"]
    by (auto simp: refresh_rows_def ra(9) witness_decrypt enc_raise_def post tf Let_def)
  have res: "refresh_access_token (witness_env 1000) True session_db renewed_db 2 = Inr (a', r', db')"
    by (simp add: refresh_access_token_def ra b lock_token_rows_def one_or_none_def now refresh_rows_if_needed_def rr)
  have u: "at_id x = at_id y" if "x \<in> set (td_access_tokens renewed_db)" "y \<in> set (td_access_tokens session_db)"
    "at_refresh_token_id x = at_refresh_token_id y" for x y using that ra(2,4) b by simp
  from refresh_only_when_due [OF res u] have
    "db' = set_rows renewed_db r' a' \<and> rt_creator_id r' = 7"
    by (auto simp: ra now)
  with res b show ?thesis by auto
qed

section \<open>Cleanup\<close>

text \<open>The cleanup removes exactly what it should: a refresh row goes exactly when it expired more
  than the configured age ago, the access rows of removed rows go with them and no others, the
  count is the number of refresh rows removed, and with a non-negative age no live session is
  ever touched; a second run at the same time removes nothing.\<close>

theorem cleanup_exact:
  assumes "delete_expired_tokens env db = (db', n)" and "0 \<le> delete_expired_seconds (oe_idp env)"
    and "\<And>x y. x \<in> set (td_refresh_tokens db) \<Longrightarrow> y \<in> set (td_refresh_tokens db) \<Longrightarrow> rt_id x = rt_id y \<Longrightarrow> x = y"
  shows "(\<forall>r. r \<in> set (td_refresh_tokens db') \<longleftrightarrow> r \<in> set (td_refresh_tokens db) \<and>
        oe_now env \<le> rt_expires_at r + seconds (delete_expired_seconds (oe_idp env))) \<and>
    (\<forall>a r. a \<in> set (td_access_tokens db) \<and> r \<in> set (td_refresh_tokens db) \<and> at_refresh_token_id a = rt_id r \<longrightarrow>
        (a \<in> set (td_access_tokens db') \<longleftrightarrow> r \<in> set (td_refresh_tokens db'))) \<and>
    n + length (td_refresh_tokens db') = length (td_refresh_tokens db) \<and>
    (\<forall>r \<in> set (td_refresh_tokens db). oe_now env \<le> rt_expires_at r \<longrightarrow> r \<in> set (td_refresh_tokens db')) \<and>
    delete_expired_tokens env db' = (db', 0)"
proof -
  let ?cut = "oe_now env - seconds (delete_expired_seconds (oe_idp env))"
  let ?old = "filter (\<lambda>r. rt_expires_at r < ?cut) (td_refresh_tokens db)"
  have d: "td_refresh_tokens db' = filter (\<lambda>r. \<not> rt_expires_at r < ?cut) (td_refresh_tokens db)"
    "td_access_tokens db' = filter (\<lambda>a. at_refresh_token_id a \<notin> rt_id ` set ?old) (td_access_tokens db)"
    "n = length ?old"
    using assms(1) by (auto simp: delete_expired_tokens_def Let_def)
  have again: "delete_expired_tokens env db' = (db', 0)"
    by (simp add: delete_expired_tokens_def Let_def d(1))
  have acc: "a \<in> set (td_access_tokens db') \<longleftrightarrow> r \<in> set (td_refresh_tokens db')"
    if "a \<in> set (td_access_tokens db)" "r \<in> set (td_refresh_tokens db)" "at_refresh_token_id a = rt_id r" for a r
  proof -
    have "rt_id r \<in> rt_id ` set ?old \<longleftrightarrow> r \<in> set ?old" using that(2) assms(3) by auto
    then show ?thesis unfolding d set_filter using that by simp
  qed
  have "n + length (td_refresh_tokens db') = length (td_refresh_tokens db)"
    unfolding d by (rule sum_length_filter_compl)
  moreover have "r \<in> set (td_refresh_tokens db') \<longleftrightarrow> r \<in> set (td_refresh_tokens db) \<and>
        oe_now env \<le> rt_expires_at r + seconds (delete_expired_seconds (oe_idp env))" for r
    unfolding d(1) set_filter by (rule iffI; simp)
  moreover have "0 \<le> seconds (delete_expired_seconds (oe_idp env))" using assms(2) by simp
  ultimately show ?thesis using again acc by (metis add_increasing2)
qed

theorem cleanup_exact_witness:
  "\<exists>db' n. delete_expired_tokens (witness_env (seconds 100000)) (witness_oauth_db\<lparr>td_refresh_tokens :=
      [\<lparr>rt_id = 1, rt_creator_id = 7, rt_refresh_token = '''', rt_expires_at = 0, rt_created_at = 0, rt_updated_at = 0\<rparr>]\<rparr>) = (db', n) \<and>
     n + length (td_refresh_tokens db') = 1 \<and>
     (\<forall>r. r \<in> set (td_refresh_tokens db') \<longrightarrow> oe_now (witness_env (seconds 100000)) \<le>
        rt_expires_at r + seconds (delete_expired_seconds (oe_idp (witness_env (seconds 100000)))))"
proof -
  define db where "db = witness_oauth_db\<lparr>td_refresh_tokens :=
      [\<lparr>rt_id = 1, rt_creator_id = 7, rt_refresh_token = '''', rt_expires_at = 0, rt_created_at = 0, rt_updated_at = 0\<rparr>]\<rparr>"
  obtain db' n where r: "delete_expired_tokens (witness_env (seconds 100000)) db = (db', n)" by fastforce
  have a: "0 \<le> delete_expired_seconds (oe_idp (witness_env (seconds 100000)))"
    by (simp add: witness_env_def witness_idp_def)
  have u: "x = y" if "x \<in> set (td_refresh_tokens db)" "y \<in> set (td_refresh_tokens db)" "rt_id x = rt_id y" for x y
    using that unfolding db_def by simp
  have l: "length (td_refresh_tokens db) = 1" by (simp add: db_def)
  note c = cleanup_exact [OF r a u, unfolded l]
  show ?thesis
    using r [unfolded db_def] c [THEN conjunct1] c [THEN conjunct2, THEN conjunct2, THEN conjunct1] by metis
qed

end
