(* ===== verification/Governed.thy ===== *)
theory Governed
  imports OAuthRevoke
begin

text \<open>
  What the governed services share. Every service of the program wraps one table with the same
  seven operations, each scoped by the permission filter the service was built with: a filter is
  tested in memory on a row about to be created, and added as a WHERE clause to every statement
  that reads, changes or deletes rows. This theory holds the statements the services run, the
  batch loop, the abstract specification of an authorized step, and two locales: a table whose
  id column is what filters read as \<open>id\<close>, and a service whose operations are authorized steps.
\<close>

section \<open>Errors\<close>

text \<open>
  Each service declares exception classes of its own; they differ in their prefix only, which is
  dropped. \<open>IntegrityErr\<close> is an \<open>IntegrityError\<close> that the service does not catch, \<open>Raised500\<close>
  a Python error in a filter.
\<close>

datatype svc_error =
    NotFoundError
  | PermissionScopeError
  | BatchPermissionDeniedError string
  | ConflictError string
  | EmailConflictError string
  | UsernameConflictError string
  | OrphanError string
  | IntegrityErr string
  | MultipleRows
  | Raised500 pyerr

definition svc_py :: "pyerr + 'a \<Rightarrow> svc_error + 'a" where
  "svc_py r = (case r of Inl e \<Rightarrow> Inl (Raised500 e) | Inr x \<Rightarrow> Inr x)"

lemma svc_py_simps [simp]: "svc_py (Inr x) = Inr x" "svc_py (Inl e) = Inl (Raised500 e)"
  by (simp_all add: svc_py_def)

lemma svc_py_Inr_iff [result_simps]: "svc_py r = Inr x \<longleftrightarrow> r = Inr x"
  by (cases r) simp_all

section \<open>Statements\<close>

text \<open>\<open>SELECT ... WHERE id = k\<close> under a filter, with \<open>scalar_one_or_none\<close>.\<close>

definition scoped_get ::
    "engine \<Rightarrow> db \<Rightarrow> sfilter \<Rightarrow> ('r \<Rightarrow> row) \<Rightarrow> ('r \<Rightarrow> 'k) \<Rightarrow> 'r list \<Rightarrow> 'k \<Rightarrow> svc_error + 'r" where
  "scoped_get ev D perm_filter view key rows k =
     bindR (svc_py (filter_sql perm_filter)) (\<lambda>cond.
       case filter (\<lambda>r. key r = k \<and> where_holds ev D cond (view r)) rows of
         [] \<Rightarrow> Inl NotFoundError
       | [r] \<Rightarrow> Inr r
       | _ \<Rightarrow> Inl MultipleRows)"

text \<open>\<open>SELECT ... WHERE id IN (...)\<close>, read into a dict and aligned with the requested ids.\<close>

definition scoped_get_many ::
    "engine \<Rightarrow> db \<Rightarrow> sfilter \<Rightarrow> ('r \<Rightarrow> row) \<Rightarrow> ('r \<Rightarrow> 'k) \<Rightarrow> 'r list \<Rightarrow> 'k list \<Rightarrow>
     svc_error + 'r option list" where
  "scoped_get_many ev D perm_filter view key rows ids =
     (if ids = [] then Inr []
      else
        bindR (svc_py (filter_sql perm_filter)) (\<lambda>cond.
          let found = filter (\<lambda>r. key r \<in> set ids \<and> where_holds ev D cond (view r)) rows
          in Inr (map (dict_by key found) ids)))"

definition search_cond :: "sfilter option \<Rightarrow> svc_error + sqlcond option" where
  "search_cond search_filter =
     (case search_filter of None \<Rightarrow> Inr None | Some f \<Rightarrow> svc_py (filter_sql f))"

text \<open>
  One page: \<open>ORDER BY id\<close>, the two filters, the cursor, \<open>LIMIT\<close>; the next cursor is the last id of
  a full page, and reading it from an empty page is an \<open>IndexError\<close>.
\<close>

definition scoped_search ::
    "engine \<Rightarrow> db \<Rightarrow> sfilter \<Rightarrow> ('r \<Rightarrow> row) \<Rightarrow> ('r \<Rightarrow> 'k::linorder) \<Rightarrow> 'r list \<Rightarrow> 'k option \<Rightarrow> nat \<Rightarrow>
     sfilter option \<Rightarrow> svc_error + 'r list \<times> 'k option" where
  "scoped_search ev D perm_filter view key rows cursor limit search_filter =
     bindR (svc_py (filter_sql perm_filter)) (\<lambda>cond.
     bindR (search_cond search_filter) (\<lambda>extra.
       let page = take limit (filter (\<lambda>r. where_holds ev D cond (view r) \<and>
             where_holds ev D extra (view r) \<and>
             (case cursor of None \<Rightarrow> True | Some u \<Rightarrow> u < key r)) (sort_key key rows))
       in if length page = limit
          then (if page = [] then Inl (Raised500 IndexErr) else Inr (page, Some (key (last page))))
          else Inr (page, None)))"

definition scoped_count ::
    "engine \<Rightarrow> db \<Rightarrow> sfilter \<Rightarrow> ('r \<Rightarrow> row) \<Rightarrow> 'r list \<Rightarrow> sfilter option \<Rightarrow> svc_error + nat" where
  "scoped_count ev D perm_filter view rows search_filter =
     bindR (svc_py (filter_sql perm_filter)) (\<lambda>cond.
     bindR (search_cond search_filter) (\<lambda>extra.
       Inr (length (filter (\<lambda>r. where_holds ev D cond (view r) \<and> where_holds ev D extra (view r)) rows))))"

text \<open>The attributes the database assigns; they are unset on an object that has not been flushed.\<close>

definition unsaved :: "row \<Rightarrow> row" where
  "unsaved r a = (if a \<in> {''id'', ''created_at'', ''updated_at''} then VNone else r a)"

text \<open>The test of a prospective row that every \<open>create\<close> makes first.\<close>

definition check_scope :: "sfilter \<Rightarrow> row \<Rightarrow> svc_error + unit" where
  "check_scope perm_filter r =
     bindR (svc_py (matches perm_filter (plain_item (unsaved r)))) (\<lambda>ok.
       if ok then Inr () else Inl PermissionScopeError)"

lemma check_scope_Inr [simp]:
  "check_scope f r = Inr x \<longleftrightarrow> matches f (plain_item (unsaved r)) = Inr True"
  by (auto simp: check_scope_def bindR_Inr_iff svc_py_Inr_iff)

section \<open>Batches\<close>

datatype ('k, 'p, 'u) batch_op = BatchCreate 'p | BatchUpdate 'k 'u | BatchDelete 'k

text \<open>
  \<open>apply_batch\<close>: the operations in order, each under the filter of its own action; the position
  of an operation selects the identifier the database generates for it. An error ends the batch,
  and as the caller commits only after the whole batch, nothing of it remains.
\<close>

fun batch_loop ::
    "(nat \<Rightarrow> sfilter \<Rightarrow> 'p \<Rightarrow> 's \<Rightarrow> svc_error + 'r \<times> 's) \<Rightarrow> (sfilter \<Rightarrow> 'k \<Rightarrow> 'u \<Rightarrow> 's \<Rightarrow> svc_error + 'r \<times> 's) \<Rightarrow>
     (sfilter \<Rightarrow> 'k \<Rightarrow> 's \<Rightarrow> svc_error + 's) \<Rightarrow> (action \<Rightarrow> sfilter option) \<Rightarrow> nat \<Rightarrow>
     ('k, 'p, 'u) batch_op list \<Rightarrow> 's \<Rightarrow> svc_error + 'r option list \<times> 's" where
  "batch_loop create update delete filters i [] db = Inr ([], db)"
| "batch_loop create update delete filters i (BatchCreate p # ops) db =
     (case filters CREATE of
        None \<Rightarrow> Inl (BatchPermissionDeniedError ''create'')
      | Some f \<Rightarrow>
          bindR (create i f p db) (\<lambda>(r, db1).
          bindR (batch_loop create update delete filters (Suc i) ops db1) (\<lambda>(rs, db2).
            Inr (Some r # rs, db2))))"
| "batch_loop create update delete filters i (BatchUpdate k u # ops) db =
     (case filters UPDATE of
        None \<Rightarrow> Inl (BatchPermissionDeniedError ''update'')
      | Some f \<Rightarrow>
          bindR (update f k u db) (\<lambda>(r, db1).
          bindR (batch_loop create update delete filters (Suc i) ops db1) (\<lambda>(rs, db2).
            Inr (Some r # rs, db2))))"
| "batch_loop create update delete filters i (BatchDelete k # ops) db =
     (case filters DELETE of
        None \<Rightarrow> Inl (BatchPermissionDeniedError ''delete'')
      | Some f \<Rightarrow>
          bindR (delete f k db) (\<lambda>db1.
          bindR (batch_loop create update delete filters (Suc i) ops db1) (\<lambda>(rs, db2).
            Inr (None # rs, db2))))"

section \<open>The specification of an authorized step\<close>

text \<open>A stored row that a filter admits, read as a WHERE clause.\<close>

definition in_scope :: "engine \<Rightarrow> db \<Rightarrow> sfilter \<Rightarrow> row \<Rightarrow> bool" where
  "in_scope ev D f r = (\<exists>c. filter_sql f = Inr c \<and> where_holds ev D c r)"

text \<open>
  What one operation of a batch may do to the rows of its table: add one row the create filter
  accepted, replace one row in the update scope by one with the same id, or remove one row in the
  delete scope; nothing else. \<open>draft\<close> is the object as the create filter saw it.
\<close>

fun authorized_op ::
    "('r \<Rightarrow> row) \<Rightarrow> ('r \<Rightarrow> 'k) \<Rightarrow> (sfilter \<Rightarrow> 'r \<Rightarrow> bool) \<Rightarrow> (action \<Rightarrow> sfilter option) \<Rightarrow>
     ('k, 'p, 'u) batch_op \<Rightarrow> 'r option \<Rightarrow> 'r list \<Rightarrow> 'r list \<Rightarrow> bool" where
  "authorized_op draft key scope filters (BatchCreate p) res rows rows' =
     (\<exists>f r. filters CREATE = Some f \<and> res = Some r \<and> rows' = rows @ [r] \<and>
        key r \<notin> key ` set rows \<and> matches f (plain_item (draft r)) = Inr True)"
| "authorized_op draft key scope filters (BatchUpdate k u) res rows rows' =
     (\<exists>f r. filters UPDATE = Some f \<and> res = Some r \<and> key r = k \<and>
        (\<exists>r0 \<in> set rows. key r0 = k \<and> scope f r0) \<and>
        rows' = map (\<lambda>x. if key x = k then r else x) rows)"
| "authorized_op draft key scope filters (BatchDelete k) res rows rows' =
     (\<exists>f. filters DELETE = Some f \<and> res = None \<and> (\<exists>r0 \<in> set rows. key r0 = k \<and> scope f r0) \<and>
        rows' = filter (\<lambda>x. key x \<noteq> k) rows)"

text \<open>A whole batch as a run of authorized steps; the scope is read in the state of each step.\<close>

fun authorized_run ::
    "('r \<Rightarrow> row) \<Rightarrow> ('r \<Rightarrow> 'k) \<Rightarrow> ('s \<Rightarrow> sfilter \<Rightarrow> 'r \<Rightarrow> bool) \<Rightarrow> ('s \<Rightarrow> 'r list) \<Rightarrow> (action \<Rightarrow> sfilter option) \<Rightarrow>
     ('k, 'p, 'u) batch_op list \<Rightarrow> 'r option list \<Rightarrow> 's \<Rightarrow> 's \<Rightarrow> bool" where
  "authorized_run draft key scope rows filters [] [] db db' = (db' = db)"
| "authorized_run draft key scope rows filters (op1 # ops) (r # rs) db db' =
     (\<exists>db1. authorized_op draft key (scope db) filters op1 r (rows db) (rows db1) \<and>
        authorized_run draft key scope rows filters ops rs db1 db')"
| "authorized_run draft key scope rows filters _ _ db db' = False"

text \<open>The ids a list of operations names, and the action of an operation.\<close>

fun op_target :: "('k, 'p, 'u) batch_op \<Rightarrow> 'k option" where
  "op_target (BatchCreate p) = None"
| "op_target (BatchUpdate k u) = Some k"
| "op_target (BatchDelete k) = Some k"

fun op_action :: "('k, 'p, 'u) batch_op \<Rightarrow> action" where
  "op_action (BatchCreate p) = CREATE"
| "op_action (BatchUpdate k u) = UPDATE"
| "op_action (BatchDelete k) = DELETE"

lemma authorized_run_frame:
  assumes "authorized_run draft key scope rows filters ops rs db db'"
  shows "(\<forall>r \<in> set (rows db). Some (key r) \<notin> op_target ` set ops \<longrightarrow> r \<in> set (rows db')) \<and>
    (\<forall>op1 \<in> set ops. filters (op_action op1) \<noteq> None) \<and> length rs = length ops"
  using assms
proof (induction draft key scope rows filters ops rs db db' rule: authorized_run.induct)
  case (2 draft key scope rows filters op1 ops r rs db db')
  then obtain db1 where s: "authorized_op draft key (scope db) filters op1 r (rows db) (rows db1)"
    and rest: "authorized_run draft key scope rows filters ops rs db1 db'" by auto
  have "x \<in> set (rows db1)" if "x \<in> set (rows db)" "Some (key x) \<noteq> op_target op1" for x
    using s that by (cases op1) (auto simp: image_iff)
  moreover have "filters (op_action op1) \<noteq> None" using s by (cases op1) auto
  ultimately show ?case using 2(1) rest by auto
qed auto

end
