(* ===== verification/GovernedLaws.thy ===== *)
theory GovernedLaws
  imports Governed
begin

text \<open>
  The laws of the statements and of the batch loop of \<open>Governed\<close>, proved once in two locales. A
  \<open>governed_table\<close> has unique ids that filters read as the column \<open>id\<close>; a \<open>governed_service\<close> has
  operations that are authorized steps. The services interpret both.
\<close>

section \<open>Walking the pages of a collection\<close>

text \<open>
  A client that follows \<open>next_cursor\<close> until it is null, with the number of requests it is
  prepared to make; \<open>None\<close> when that number runs out.
\<close>

fun walk_pages :: "('k option \<Rightarrow> 'e + 'r list \<times> 'k option) \<Rightarrow> nat \<Rightarrow> 'k option \<Rightarrow> 'e + 'r list option" where
  "walk_pages page 0 cursor = Inr None"
| "walk_pages page (Suc n) cursor =
     bindR (page cursor) (\<lambda>(rs, next).
       case next of
         None \<Rightarrow> Inr (Some rs)
       | Some c \<Rightarrow> bindR (walk_pages page n (Some c)) (\<lambda>rest. Inr (map_option (\<lambda>q. rs @ q) rest)))"

definition after :: "('r \<Rightarrow> 'k::linorder) \<Rightarrow> 'k option \<Rightarrow> 'r list \<Rightarrow> 'r list" where
  "after key cursor = filter (\<lambda>r. case cursor of None \<Rightarrow> True | Some u \<Rightarrow> u < key r)"

lemma after_None [simp]: "after key None rs = rs"
  by (simp add: after_def)

lemma after_page:
  assumes "sorted_wrt (\<lambda>a b. key a < key b) rs" "0 < n" "n \<le> length rs"
  shows "after key (Some (key (last (take n rs)))) rs = drop n rs"
proof -
  let ?t = "take n rs" and ?d = "drop n rs"
  have ne: "?t \<noteq> []" using assms(2,3) by auto
  have s: "sorted_wrt (\<lambda>a b. key a < key b) (?t @ ?d)" using assms(1) by simp
  then have "key x < key y" if "x \<in> set ?t" "y \<in> set ?d" for x y
    using that by (simp only: sorted_wrt_append)
  then have "filter (\<lambda>r. key (last ?t) < key r) ?d = ?d" using ne by (simp add: filter_id_conv)
  moreover have "filter (\<lambda>r. key (last ?t) < key r) ?t = []"
  proof -
    obtain ys z where t: "?t = ys @ [z]" using ne by (metis rev_exhaust)
    have "sorted_wrt (\<lambda>a b. key a < key b) (ys @ [z])" using s unfolding sorted_wrt_append t by blast
    then have "key y < key z" if "y \<in> set ys" for y using that by (simp add: sorted_wrt_append)
    then show ?thesis unfolding t by (auto simp: filter_empty_conv dest: less_asym)
  qed
  moreover have "filter (\<lambda>r. key (last ?t) < key r) (?t @ ?d) =
      filter (\<lambda>r. key (last ?t) < key r) ?t @ filter (\<lambda>r. key (last ?t) < key r) ?d" by (rule filter_append)
  ultimately show ?thesis by (simp add: after_def)
qed

lemma after_after: "after key (Some c) (after key d rs) = after key (Some c) rs"
  if "\<And>u. d = Some u \<Longrightarrow> u \<le> c"
  using that by (auto simp: after_def intro!: filter_cong split: option.split)

section \<open>Tables\<close>

locale governed_table =
  fixes view :: "'r \<Rightarrow> row" and key :: "'r \<Rightarrow> 'k::linorder" and idval :: "'k \<Rightarrow> pyval"
  assumes view_id: "view r ''id'' = idval (key r)"
begin

lemma get_Inr_iff:
  assumes "distinct (map key rows)"
  shows "scoped_get ev D f view key rows k = Inr r \<longleftrightarrow> r \<in> set rows \<and> key r = k \<and> in_scope ev D f (view r)"
proof -
  have "scoped_get ev D f view key rows k = Inr r \<longleftrightarrow> r \<in> set rows \<and> key r = k \<and> where_holds ev D c (view r)"
    if "filter_sql f = Inr c" for c
    using filter_key_cases [OF assms, of k "\<lambda>r. where_holds ev D c (view r)"]
  proof cases
    case 1
    then show ?thesis by (auto simp: scoped_get_def that filter_empty_conv)
  next
    case (2 x)
    have "r = x" if "r \<in> set rows" "key r = k"
      using that 2(1,2) assms by (auto simp: distinct_map dest: inj_onD)
    then show ?thesis using 2 by (auto simp: scoped_get_def that)
  qed
  then show ?thesis by (cases "filter_sql f") (auto simp: in_scope_def scoped_get_def)
qed

lemma get_Inl:
  assumes "distinct (map key rows)" "filter_sql f = Inr c" "scoped_get ev D f view key rows k = Inl e"
  shows "e = NotFoundError \<and> \<not> (\<exists>r \<in> set rows. key r = k \<and> in_scope ev D f (view r))"
  using filter_key_cases [OF assms(1), of k "\<lambda>r. where_holds ev D c (view r)"]
proof cases
  case 1
  then show ?thesis using assms(2,3) by (auto simp: scoped_get_def in_scope_def filter_empty_conv)
next
  case 2
  then show ?thesis using assms(2,3) by (simp add: scoped_get_def)
qed

lemma get_many_Inr:
  assumes "distinct (map key rows)" "scoped_get_many ev D f view key rows ids = Inr found"
  shows "length found = length ids \<and>
    (\<forall>i < length ids. \<forall>r. found ! i = Some r \<longleftrightarrow> r \<in> set rows \<and> key r = ids ! i \<and> in_scope ev D f (view r))"
proof (cases "ids = []")
  case False
  then obtain c where c: "filter_sql f = Inr c"
    and found: "found = map (dict_by key (filter (\<lambda>r. key r \<in> set ids \<and> where_holds ev D c (view r)) rows)) ids"
    using assms(2) by (auto simp: scoped_get_many_def bindR_Inr_iff svc_py_Inr_iff Let_def)
  have "distinct (map key (filter (\<lambda>r. key r \<in> set ids \<and> where_holds ev D c (view r)) rows))"
    using assms(1) by (simp add: distinct_map_filter)
  then show ?thesis using c by (auto simp: found dict_by_Some_iff in_scope_def)
qed (use assms(2) in \<open>simp add: scoped_get_many_def\<close>)

text \<open>The rows a search covers, in the order of their ids.\<close>

definition covered :: "engine \<Rightarrow> db \<Rightarrow> sqlcond option \<Rightarrow> sqlcond option \<Rightarrow> 'r list \<Rightarrow> 'r list" where
  "covered ev D cond extra rows =
     filter (\<lambda>r. where_holds ev D cond (view r) \<and> where_holds ev D extra (view r)) (sort_key key rows)"

lemma covered_sorted:
  assumes "distinct (map key rows)"
  shows "sorted_wrt (\<lambda>a b. key a < key b) (covered ev D cond extra rows)"
proof -
  have "distinct (map key (sort_key key rows))" "sorted (map key (sort_key key rows))"
    using assms by (simp_all add: distinct_map)
  then have "sorted_wrt (\<lambda>a b. key a < key b) (sort_key key rows)"
    by (simp add: strict_sorted_iff flip: sorted_wrt_map)
  then show ?thesis unfolding covered_def by (rule sorted_wrt_filter)
qed

lemma search_page:
  assumes "filter_sql f = Inr cond" "search_cond sf = Inr extra" "0 < limit"
  shows "scoped_search ev D f view key rows cursor limit sf =
    (let page = take limit (after key cursor (covered ev D cond extra rows))
     in Inr (page, if length page = limit then Some (key (last page)) else None))"
proof -
  have "filter (\<lambda>r. where_holds ev D cond (view r) \<and> where_holds ev D extra (view r) \<and>
             (case cursor of None \<Rightarrow> True | Some u \<Rightarrow> u < key r)) (sort_key key rows) =
      after key cursor (covered ev D cond extra rows)"
    unfolding after_def covered_def filter_filter by (intro filter_cong) auto
  then show ?thesis using assms by (auto simp: scoped_search_def Let_def)
qed

lemma walk_exact:
  assumes "distinct (map key rows)" "filter_sql f = Inr cond" "search_cond sf = Inr extra" "0 < limit"
    and "length (after key cursor (covered ev D cond extra rows)) < n"
  shows "walk_pages (\<lambda>c. scoped_search ev D f view key rows c limit sf) n cursor =
    Inr (Some (after key cursor (covered ev D cond extra rows)))"
  using assms(5)
proof (induction n arbitrary: cursor)
  case (Suc n)
  let ?cov = "covered ev D cond extra rows"
  let ?w = "after key cursor ?cov"
  note page = search_page [OF assms(2,3,4), of ev D rows cursor]
  show ?case
  proof (cases "length ?w < limit")
    case True
    then show ?thesis by (simp add: page Let_def)
  next
    case False
    then have n: "limit \<le> length ?w" by simp
    let ?c = "key (last (take limit ?w))"
    have sw: "sorted_wrt (\<lambda>a b. key a < key b) ?w"
      unfolding after_def by (rule sorted_wrt_filter [OF covered_sorted [OF assms(1)]])
    have "u \<le> ?c" if "cursor = Some u" for u
    proof -
      have "take limit ?w \<noteq> []" using n assms(4) by auto
      then have "last (take limit ?w) \<in> set ?w" by (meson in_set_takeD last_in_set)
      then show ?thesis using that by (auto simp: after_def)
    qed
    then have next_page: "after key (Some ?c) ?cov = drop limit ?w"
      using after_page [OF sw assms(4) n] after_after [of cursor ?c key ?cov] by metis
    then have "length (after key (Some ?c) ?cov) < n" using Suc.prems n assms(4) by simp
    from Suc.IH [OF this] show ?thesis using n
      by (simp add: page Let_def next_page min_absorb2)
  qed
qed simp

lemma count_exact:
  assumes "filter_sql f = Inr cond" "search_cond sf = Inr extra"
  shows "scoped_count ev D f view rows sf = Inr (length (covered ev D cond extra rows))"
proof -
  have "length (filter P (sort_key key rows)) = length (filter P rows)" for P
    by (simp add: filter_sort)
  then show ?thesis using assms by (simp add: scoped_count_def covered_def)
qed

end

section \<open>Services\<close>

text \<open>
  The contract of the mutating operations of a service over states with an invariant: creation,
  update and deletion are authorized steps of the table, and keep the invariant, which implies
  that ids are unique.
\<close>

locale governed_service = governed_table view key idval
  for view :: "'r \<Rightarrow> row" and key :: "'r \<Rightarrow> 'k::linorder" and idval :: "'k \<Rightarrow> pyval" +
  fixes draft :: "'r \<Rightarrow> row" and rows :: "'s \<Rightarrow> 'r list" and scope :: "'s \<Rightarrow> sfilter \<Rightarrow> 'r \<Rightarrow> bool" and ok :: "'s \<Rightarrow> bool"
    and create :: "nat \<Rightarrow> sfilter \<Rightarrow> 'p \<Rightarrow> 's \<Rightarrow> svc_error + 'r \<times> 's"
    and update :: "sfilter \<Rightarrow> 'k \<Rightarrow> 'u \<Rightarrow> 's \<Rightarrow> svc_error + 'r \<times> 's"
    and delete :: "sfilter \<Rightarrow> 'k \<Rightarrow> 's \<Rightarrow> svc_error + 's"
  assumes ok_distinct: "ok db \<Longrightarrow> distinct (map key (rows db))"
    and create_step: "ok db \<Longrightarrow> create i f p db = Inr (r, db') \<Longrightarrow>
      ok db' \<and> rows db' = rows db @ [r] \<and> key r \<notin> key ` set (rows db) \<and>
      matches f (plain_item (draft r)) = Inr True"
    and update_step: "ok db \<Longrightarrow> update f k u db = Inr (r, db') \<Longrightarrow>
      ok db' \<and> key r = k \<and> (\<exists>r0 \<in> set (rows db). key r0 = k \<and> scope db f r0) \<and>
      rows db' = map (\<lambda>x. if key x = k then r else x) (rows db)"
    and delete_step: "ok db \<Longrightarrow> delete f k db = Inr db' \<Longrightarrow>
      ok db' \<and> (\<exists>r0 \<in> set (rows db). key r0 = k \<and> scope db f r0) \<and>
      rows db' = filter (\<lambda>x. key x \<noteq> k) (rows db)"
begin

lemma batch_run:
  assumes "ok db" "batch_loop create update delete filters i ops db = Inr (rs, db')"
  shows "ok db' \<and> authorized_run draft key scope rows filters ops rs db db'"
  using assms
proof (induction ops arbitrary: i db rs)
  case (Cons op1 ops)
  show ?case
  proof (cases op1)
    case (BatchCreate p)
    then obtain f r db1 rs' where s: "filters CREATE = Some f" "create i f p db = Inr (r, db1)"
      "batch_loop create update delete filters (Suc i) ops db1 = Inr (rs', db')" "rs = Some r # rs'"
      using Cons.prems(2) by (auto elim!: bindR_InrE split: option.split_asm prod.split_asm)
    note st = create_step [OF Cons.prems(1) s(2)]
    then show ?thesis using Cons.IH [OF _ s(3)] s(1,4) BatchCreate by auto
  next
    case (BatchUpdate k u)
    then obtain f r db1 rs' where s: "filters UPDATE = Some f" "update f k u db = Inr (r, db1)"
      "batch_loop create update delete filters (Suc i) ops db1 = Inr (rs', db')" "rs = Some r # rs'"
      using Cons.prems(2) by (auto elim!: bindR_InrE split: option.split_asm prod.split_asm)
    note st = update_step [OF Cons.prems(1) s(2)]
    then show ?thesis using Cons.IH [OF _ s(3)] s(1,4) BatchUpdate by auto
  next
    case (BatchDelete k)
    then obtain f db1 rs' where s: "filters DELETE = Some f" "delete f k db = Inr db1"
      "batch_loop create update delete filters (Suc i) ops db1 = Inr (rs', db')" "rs = None # rs'"
      using Cons.prems(2) by (auto elim!: bindR_InrE split: option.split_asm prod.split_asm)
    note st = delete_step [OF Cons.prems(1) s(2)]
    then show ?thesis using Cons.IH [OF _ s(3)] s(1,4) BatchDelete by auto
  qed
qed simp

lemma batch_safe:
  assumes "ok db" "batch_loop create update delete filters i ops db = Inr (rs, db')"
  shows "ok db' \<and> length rs = length ops \<and> (\<forall>op1 \<in> set ops. filters (op_action op1) \<noteq> None) \<and>
    (\<forall>r \<in> set (rows db). Some (key r) \<notin> op_target ` set ops \<longrightarrow> r \<in> set (rows db')) \<and>
    authorized_run draft key scope rows filters ops rs db db'"
  using batch_run [OF assms] authorized_run_frame [of draft key scope rows filters ops rs db db'] by blast

end

end
