(* ===== verification/ServiceDb.thy ===== *)
theory ServiceDb
  imports GovernedLaws
begin

text \<open>
  The tables of the identity services, their constraints, and what the services use of the
  database server and of bcrypt. The foreign keys with \<open>ON DELETE\<close> rules are those of
  \<open>auth_models.py\<close>, \<open>user_models.py\<close>, \<open>role_models.py\<close> and \<open>group_models.py\<close>.
\<close>

section \<open>State\<close>

record svc_db = oauth_db +
  sv_roles :: "role list"
  sv_user_roles :: "user_role list"
  sv_groups :: "group list"
  sv_group_users :: "group_user list"

subsection \<open>Rows as filters read them\<close>

text \<open>
  A policy column is JSONB, which no filter operator of the program reads; it appears as an
  opaque value that is \<open>None\<close> or not.
\<close>

definition role_attrs :: "role \<Rightarrow> row" where
  "role_attrs r a =
     (if a = ''id'' then VUuid (r_id r)
      else if a = ''name'' then VStr (r_name r)
      else if a \<in> set ROLE_ENTITY_COLUMNS then (case r_policies r a of None \<Rightarrow> VNone | Some _ \<Rightarrow> VList [])
      else if a = ''created_at'' then time_val (r_created_at r)
      else if a = ''updated_at'' then time_val (r_updated_at r)
      else VNone)"

definition user_role_attrs :: "user_role \<Rightarrow> row" where
  "user_role_attrs r a =
     (if a = ''id'' then VUuid (ur_id r)
      else if a = ''role_id'' then VUuid (ur_role_id r)
      else if a = ''user_id'' then VUuid (ur_user_id r)
      else if a = ''created_at'' then time_val (ur_created_at r)
      else VNone)"

definition group_attrs :: "group \<Rightarrow> row" where
  "group_attrs g a =
     (if a = ''id'' then VUuid (g_id g)
      else if a = ''name'' then VStr (g_name g)
      else if a = ''creator_id'' then VUuid (g_creator_id g)
      else if a = ''description'' then opt_val VStr (g_description g)
      else if a = ''created_at'' then time_val (g_created_at g)
      else if a = ''updated_at'' then time_val (g_updated_at g)
      else VNone)"

definition group_user_attrs :: "group_user \<Rightarrow> row" where
  "group_user_attrs m a =
     (if a = ''id'' then VUuid (gu_id m)
      else if a = ''group_id'' then VUuid (gu_group_id m)
      else if a = ''user_id'' then VUuid (gu_user_id m)
      else if a = ''creator_id'' then VUuid (gu_creator_id m)
      else if a = ''created_at'' then time_val (gu_created_at m)
      else VNone)"

text \<open>The tables as a sub-select of a filter reads them.\<close>

definition sql_tables :: "'z svc_db_scheme \<Rightarrow> db" where
  "sql_tables db t =
     (if t = ''users'' then map user_attrs (td_users db)
      else if t = ''api_keys'' then map api_key_attrs (td_api_keys db)
      else if t = ''roles'' then map role_attrs (sv_roles db)
      else if t = ''user_roles'' then map user_role_attrs (sv_user_roles db)
      else if t = ''groups'' then map group_attrs (sv_groups db)
      else if t = ''group_users'' then map group_user_attrs (sv_group_users db)
      else [])"

section \<open>Constraint violations\<close>

text \<open>
  A violated constraint: its table, its name and the offending key. Which of several violated
  constraints PostgreSQL reports, and the text of its message, are parameters.
\<close>

datatype violation =
    UniqueViolation string string string
  | ForeignKeyViolation string string string

fun violated_constraint :: "violation \<Rightarrow> string" where
  "violated_constraint (UniqueViolation t c k) = c"
| "violated_constraint (ForeignKeyViolation t c k) = c"

record svc_env =
  se_ev :: engine
  se_crypto :: crypto
  se_now :: datetime
  se_uuid :: "nat \<Rightarrow> uuid"               \<comment> \<open>gen\_random\_uuid, by position in the request\<close>
  se_bytes :: "nat \<Rightarrow> nat list"           \<comment> \<open>the random bytes of generated API keys\<close>
  se_salt :: "nat \<Rightarrow> string"             \<comment> \<open>bcrypt.gensalt()\<close>
  se_sha256 :: "string \<Rightarrow> string"         \<comment> \<open>hashlib.sha256(...).digest()\<close>
  se_hashpw :: "string \<Rightarrow> string \<Rightarrow> string"
  se_checkpw :: "string \<Rightarrow> string \<Rightarrow> pyerr + bool"
  se_report :: "violation list \<Rightarrow> violation"
  se_message :: "violation \<Rightarrow> string"
  se_restricted :: "uuid \<Rightarrow> bool"         \<comment> \<open>a RESTRICT key of a table outside the model blocks deleting the user\<close>

fun violating_key :: "violation \<Rightarrow> string" where
  "violating_key (UniqueViolation t c k) = k"
| "violating_key (ForeignKeyViolation t c k) = k"

text \<open>
  What PostgreSQL documents of its reports: one of the violated constraints, named in the message,
  whose DETAIL line quotes the key.
\<close>

definition reports_ok :: "'z svc_env_scheme \<Rightarrow> bool" where
  "reports_ok env = ((\<forall>vs. vs \<noteq> [] \<longrightarrow> se_report env vs \<in> set vs) \<and>
     (\<forall>v. sublist (lower (violated_constraint v)) (lower (se_message env v)) \<and>
          sublist (lower (violating_key v)) (lower (se_message env v))))"

text \<open>What bcrypt and SHA-256 promise on the passwords the program hands them.\<close>

definition bcrypt_ok :: "'z svc_env_scheme \<Rightarrow> bool" where
  "bcrypt_ok env =
     ((\<forall>s. length (se_sha256 env s) = 32) \<and>
      (\<forall>p q s. length p \<le> 72 \<longrightarrow> length q \<le> 72 \<longrightarrow>
         se_hashpw env p (se_salt env s) \<noteq> '''' \<and>
         se_checkpw env q (se_hashpw env p (se_salt env s)) = Inr (q = p)))"

text \<open>\<open>flush()\<close>: the message of the \<open>IntegrityError\<close>, or the value.\<close>

definition flush_rows :: "'z svc_env_scheme \<Rightarrow> violation list \<Rightarrow> 'a \<Rightarrow> string + 'a" where
  "flush_rows env vs x = (if vs = [] then Inr x else Inl (se_message env (se_report env vs)))"

definition catch_integrity :: "(string \<Rightarrow> svc_error) \<Rightarrow> string + 'a \<Rightarrow> svc_error + 'a" where
  "catch_integrity classify r = (case r of Inl msg \<Rightarrow> Inl (classify msg) | Inr x \<Rightarrow> Inr x)"

lemma flush_Inr_iff: "catch_integrity cl (flush_rows env vs x) = Inr y \<longleftrightarrow> vs = [] \<and> x = y"
  by (auto simp: catch_integrity_def flush_rows_def)

section \<open>Passwords\<close>

text \<open>\<open>str.encode("utf-8")\<close> on characters below 256.\<close>

definition utf8 :: "string \<Rightarrow> string" where
  "utf8 s = concat (map (\<lambda>c. let n = (of_char c :: nat) in
     if n < 128 then [c] else [char_of (192 + n div 64), char_of (128 + n mod 64)]) s)"

definition normalize_password :: "'z svc_env_scheme \<Rightarrow> string \<Rightarrow> string" where
  "normalize_password env plaintext =
     (let raw = utf8 plaintext in if 72 < length raw then se_sha256 env raw else raw)"

definition hash_password :: "'z svc_env_scheme \<Rightarrow> nat \<Rightarrow> string \<Rightarrow> string" where
  "hash_password env i plaintext = se_hashpw env (normalize_password env plaintext) (se_salt env i)"

definition verify_password :: "'z svc_env_scheme \<Rightarrow> string \<Rightarrow> string \<Rightarrow> bool" where
  "verify_password env plaintext hashed =
     (case se_checkpw env (normalize_password env plaintext) hashed of Inl _ \<Rightarrow> False | Inr b \<Rightarrow> b)"

text \<open>The encoding loses nothing, so a password of at most 72 bytes is hashed as it is.\<close>

lemma utf8_Nil [simp]: "utf8 [] = []"
  by (simp add: utf8_def)

lemma utf8_Cons: "utf8 (c # s) =
    (let n = (of_char c :: nat) in if n < 128 then [c] else [char_of (192 + n div 64), char_of (128 + n mod 64)]) @ utf8 s"
  by (simp add: utf8_def Let_def)

lemma utf8_head:
  "utf8 (c # s) = utf8 (d # t) \<longleftrightarrow> c = d \<and> utf8 s = utf8 t"
proof -
  have m: "(of_char c :: nat) < 256" "(of_char d :: nat) < 256" by simp_all
  have lead: "(of_char (char_of (192 + n div 64) :: char) :: nat) = 192 + n div 64" if "n < 256" for n :: nat
    using that by (simp add: of_char_of)
  have cont: "(of_char (char_of (128 + n mod 64) :: char) :: nat) = 128 + n mod 64" for n :: nat
    by (simp add: of_char_of)
  have eq: "c = d \<longleftrightarrow> (of_char c :: nat) = of_char d" by (rule char_eq_of_char)
  have split: "(of_char c :: nat) = of_char d \<longleftrightarrow>
      of_char c div 64 = (of_char d :: nat) div 64 \<and> of_char c mod 64 = (of_char d :: nat) mod 64"
    by (metis div_mult_mod_eq)
  have two: "(char_of (192 + (of_char c :: nat) div 64) :: char) = char_of (192 + (of_char d :: nat) div 64) \<longleftrightarrow>
      of_char c div 64 = (of_char d :: nat) div 64"
    "(char_of (128 + (of_char c :: nat) mod 64) :: char) = char_of (128 + (of_char d :: nat) mod 64) \<longleftrightarrow>
      of_char c mod 64 = (of_char d :: nat) mod 64"
    unfolding char_eq_of_char lead [OF m(1)] lead [OF m(2)] cont by simp_all
  have mixed: "(of_char a :: nat) < 128 \<Longrightarrow> a \<noteq> char_of (192 + n div 64)" if "n < 256" for a :: char and n :: nat
    unfolding char_eq_of_char lead [OF that] by simp
  show ?thesis
  proof (cases "(of_char c :: nat) < 128")
    case True
    then show ?thesis using mixed [OF m(2) True] by (cases "(of_char d :: nat) < 128") (simp_all add: utf8_Cons Let_def, blast)
  next
    case False
    then show ?thesis
    proof (cases "(of_char d :: nat) < 128")
      case True
      then have "char_of (192 + (of_char c :: nat) div 64) \<noteq> d" using mixed [OF m(1) True] by metis
      then show ?thesis using False True by (simp add: utf8_Cons Let_def) blast
    next
      case d: False
      have "utf8 (c # s) = utf8 (d # t) \<longleftrightarrow>
          (char_of (192 + (of_char c :: nat) div 64) :: char) = char_of (192 + (of_char d :: nat) div 64) \<and>
          (char_of (128 + (of_char c :: nat) mod 64) :: char) = char_of (128 + (of_char d :: nat) mod 64) \<and> utf8 s = utf8 t"
        using False d by (simp add: utf8_Cons Let_def)
      then show ?thesis unfolding two eq split by blast
    qed
  qed
qed

lemma utf8_inject [simp]: "utf8 s = utf8 t \<longleftrightarrow> s = t"
proof (induction s arbitrary: t)
  case Nil
  then show ?case by (cases t) (simp_all add: utf8_Cons Let_def)
next
  case (Cons c s)
  show ?case by (cases t) (simp add: utf8_Cons Let_def, simp add: utf8_head Cons)
qed

lemma normalized_length: "bcrypt_ok env \<Longrightarrow> length (normalize_password env p) \<le> 72"
  by (simp add: normalize_password_def bcrypt_ok_def Let_def)

section \<open>The constraints\<close>

text \<open>Primary keys, unique keys and foreign keys of the six tables.\<close>

definition integrity :: "'z svc_db_scheme \<Rightarrow> bool" where
  "integrity db =
     (distinct (map u_id (td_users db)) \<and> distinct (map u_email (td_users db)) \<and>
      distinct (map u_username (td_users db)) \<and>
      distinct (map r_id (sv_roles db)) \<and> distinct (map r_name (sv_roles db)) \<and>
      distinct (map ak_id (td_api_keys db)) \<and> distinct (map ak_key_hash (td_api_keys db)) \<and>
      distinct (map ur_id (sv_user_roles db)) \<and>
      distinct (map (\<lambda>r. (ur_role_id r, ur_user_id r)) (sv_user_roles db)) \<and>
      distinct (map g_id (sv_groups db)) \<and> distinct (map gu_id (sv_group_users db)) \<and>
      distinct (map (\<lambda>m. (gu_group_id m, gu_user_id m)) (sv_group_users db)) \<and>
      (\<forall>k \<in> set (td_api_keys db). ak_creator_id k \<in> u_id ` set (td_users db) \<and>
         (\<forall>r. ak_role_id k = Some r \<longrightarrow> r \<in> r_id ` set (sv_roles db))) \<and>
      (\<forall>r \<in> set (sv_user_roles db). ur_role_id r \<in> r_id ` set (sv_roles db) \<and>
         ur_user_id r \<in> u_id ` set (td_users db)) \<and>
      (\<forall>g \<in> set (sv_groups db). g_creator_id g \<in> u_id ` set (td_users db)) \<and>
      (\<forall>m \<in> set (sv_group_users db). gu_group_id m \<in> g_id ` set (sv_groups db) \<and>
         gu_user_id m \<in> u_id ` set (td_users db) \<and> gu_creator_id m \<in> u_id ` set (td_users db)))"

lemmas integrityD = integrity_def [THEN iffD1]

text \<open>Deleting rows with the cascades of the schema.\<close>

definition cascade_group :: "'z svc_db_scheme \<Rightarrow> uuid \<Rightarrow> 'z svc_db_scheme" where
  "cascade_group db gid =
     db\<lparr>sv_group_users := filter (\<lambda>m. gu_group_id m \<noteq> gid) (sv_group_users db),
        sv_groups := filter (\<lambda>g. g_id g \<noteq> gid) (sv_groups db)\<rparr>"

definition cascade_user :: "'z svc_db_scheme \<Rightarrow> uuid \<Rightarrow> 'z svc_db_scheme" where
  "cascade_user db uid =
     (let grants = rt_id ` {r \<in> set (td_refresh_tokens db). rt_creator_id r = uid};
          groups = g_id ` {g \<in> set (sv_groups db). g_creator_id g = uid}
      in db\<lparr>td_users := filter (\<lambda>u. u_id u \<noteq> uid) (td_users db),
            td_api_keys := filter (\<lambda>k. ak_creator_id k \<noteq> uid) (td_api_keys db),
            td_refresh_tokens := filter (\<lambda>r. rt_creator_id r \<noteq> uid) (td_refresh_tokens db),
            td_access_tokens := filter (\<lambda>a. at_refresh_token_id a \<notin> grants) (td_access_tokens db),
            sv_user_roles := filter (\<lambda>r. ur_user_id r \<noteq> uid) (sv_user_roles db),
            sv_groups := filter (\<lambda>g. g_creator_id g \<noteq> uid) (sv_groups db),
            sv_group_users := filter (\<lambda>m. gu_group_id m \<notin> groups \<and> gu_user_id m \<noteq> uid \<and>
              gu_creator_id m \<noteq> uid) (sv_group_users db)\<rparr>)"

definition cascade_role :: "'z svc_db_scheme \<Rightarrow> uuid \<Rightarrow> 'z svc_db_scheme" where
  "cascade_role db rid =
     db\<lparr>sv_user_roles := filter (\<lambda>r. ur_role_id r \<noteq> rid) (sv_user_roles db),
        td_api_keys := map (\<lambda>k. if ak_role_id k = Some rid then k\<lparr>ak_role_id := None\<rparr> else k) (td_api_keys db),
        sv_roles := filter (\<lambda>r. r_id r \<noteq> rid) (sv_roles db)\<rparr>"

lemma cascade_user_users [simp]:
  "td_users (cascade_user db uid) = filter (\<lambda>u. u_id u \<noteq> uid) (td_users db)"
  by (simp add: cascade_user_def Let_def)

lemma map_if_same: "(\<And>x. P x \<Longrightarrow> f (g x) = f x) \<Longrightarrow> map f (map (\<lambda>x. if P x then g x else x) xs) = map f xs"
  by (simp add: comp_def if_distrib cong: if_cong)

lemma distinct_replace:
  assumes "distinct (map f xs)" "\<And>x. x \<in> set xs \<Longrightarrow> k x = i \<Longrightarrow> f r = f x"
  shows "distinct (map f (map (\<lambda>x. if k x = i then r else x) xs))"
proof -
  have "map f (map (\<lambda>x. if k x = i then r else x) xs) = map f xs" using assms(2) by auto
  then show ?thesis using assms(1) by (simp only:)
qed

lemma replace_self:
  assumes "distinct (map k xs)" "r \<in> set xs"
  shows "map (\<lambda>x. if k x = k r then r else x) xs = xs"
proof (rule map_idI)
  fix x
  assume "x \<in> set xs"
  then show "(if k x = k r then r else x) = x" using assms by (auto simp: distinct_map dest: inj_onD)
qed

lemma integrity_keys:
  assumes "integrity db" "distinct (map ak_id ks)" "distinct (map ak_key_hash ks)"
    "\<And>k. k \<in> set ks \<Longrightarrow> ak_creator_id k \<in> u_id ` set (td_users db)"
    "\<And>k r. k \<in> set ks \<Longrightarrow> ak_role_id k = Some r \<Longrightarrow> r \<in> r_id ` set (sv_roles db)"
  shows "integrity (db\<lparr>td_api_keys := ks\<rparr>)"
  using assms unfolding integrity_def by simp

text \<open>Replacing one row by one whose unique key no other row has.\<close>

lemma distinct_replace_fresh:
  assumes "distinct (map k xs)" "distinct (map f xs)" "f r \<notin> f ` {x \<in> set xs. k x \<noteq> i}"
  shows "distinct (map f (map (\<lambda>x. if k x = i then r else x) xs))"
  using assms
proof (induction xs)
  case (Cons x xs)
  show ?case
  proof (cases "k x = i")
    case True
    have other: "k y \<noteq> i" if "y \<in> set xs" for y
    proof
      assume "k y = i"
      then have "k x \<in> set (map k xs)" using that True by force
      then show False using Cons.prems(1) by simp
    qed
    then have "map (\<lambda>x. if k x = i then r else x) xs = xs" by (simp add: map_idI)
    then show ?thesis using Cons.prems True other by (auto simp: image_iff)
  next
    case False
    then show ?thesis using Cons by (auto simp: image_iff)
  qed
qed simp

section \<open>Concrete instances\<close>

text \<open>An environment that satisfies the documented laws, and a database of one user.\<close>

definition witness_svc_env :: svc_env where
  "witness_svc_env = \<lparr>se_ev = sql_eval, se_crypto = ref_crypto, se_now = 0, se_uuid = (\<lambda>i. of_nat i + 100),
     se_bytes = (\<lambda>i. replicate 16 i), se_salt = (\<lambda>_. ''s''), se_sha256 = (\<lambda>s. replicate 32 CHR ''h''),
     se_hashpw = (\<lambda>p s. s @ p), se_checkpw = (\<lambda>p h. Inr (h = ''s'' @ p)), se_report = hd,
     se_message = (\<lambda>v. case v of
        UniqueViolation t c k \<Rightarrow> ''unique constraint '' @ c @ '' on '' @ t @ '' key '' @ k
      | ForeignKeyViolation t c k \<Rightarrow> ''foreign key constraint '' @ c @ '' on '' @ t @ '' key '' @ k),
     se_restricted = (\<lambda>_. False)\<rparr>"

definition witness_svc_db :: svc_db where
  "witness_svc_db = \<lparr>td_users = [witness_user], td_api_keys = [], td_refresh_tokens = [],
     td_access_tokens = [], od_clients = [], od_uris = [], sv_roles = [], sv_user_roles = [],
     sv_groups = [], sv_group_users = []\<rparr>"

lemma witness_integrity: "integrity witness_svc_db"
  by (simp add: integrity_def witness_svc_db_def)

lemma lower_append [simp]: "lower (a @ b) = lower a @ lower b"
  by (simp add: lower_def)

lemma witness_bcrypt: "bcrypt_ok witness_svc_env"
  by (auto simp: bcrypt_ok_def witness_svc_env_def)

lemma witness_reports: "reports_ok witness_svc_env"
proof -
  have infix_lower: "sublist (lower c) (lower (a @ c @ b))" for a b c
    unfolding lower_append by (auto simp: sublist_def)
  have "sublist (lower (violated_constraint v)) (lower (se_message witness_svc_env v)) \<and>
      sublist (lower (violating_key v)) (lower (se_message witness_svc_env v))" for v
  proof (cases v)
    case (UniqueViolation t c k)
    then show ?thesis using infix_lower [of c "''unique constraint ''" "'' on '' @ t @ '' key '' @ k"]
        infix_lower [of k "''unique constraint '' @ c @ '' on '' @ t @ '' key ''" "''''"]
      by (simp add: witness_svc_env_def)
  next
    case (ForeignKeyViolation t c k)
    then show ?thesis using infix_lower [of c "''foreign key constraint ''" "'' on '' @ t @ '' key '' @ k"]
        infix_lower [of k "''foreign key constraint '' @ c @ '' on '' @ t @ '' key ''" "''''"]
      by (simp add: witness_svc_env_def)
  qed
  moreover have "se_report witness_svc_env vs \<in> set vs" if "vs \<noteq> []" for vs
    using that by (simp add: witness_svc_env_def)
  ultimately show ?thesis by (simp add: reports_ok_def)
qed

end
