(* ===== verification/UserService.thy ===== *)
theory UserService
  imports ServiceDb
begin

text \<open>
  \<open>user/user_service.py\<close>: CRUD over users under a permission filter, batches, and the password
  check. The service is the first instance of \<open>governed_service\<close>.
\<close>

section \<open>Payloads\<close>

record user_create =
  uc_email :: string
  uc_username :: string
  uc_enabled :: bool
  uc_password :: "string option"

record user_update =
  uu_email :: "string option"
  uu_username :: "string option"
  uu_enabled :: "bool option"
  uu_password :: "string option"

text \<open>\<open>if payload.field is not None: row.field = payload.field\<close>.\<close>

definition set_if :: "'b option \<Rightarrow> ('b \<Rightarrow> 'r \<Rightarrow> 'r) \<Rightarrow> 'r \<Rightarrow> 'r" where
  "set_if field setter r = (case field of None \<Rightarrow> r | Some v \<Rightarrow> setter v r)"

lemma set_if_simps [simp]: "set_if None f r = r" "set_if (Some v) f r = f v r"
  by (simp_all add: set_if_def)

section \<open>Operations\<close>

text \<open>\<open>_hash_password\<close>.\<close>

definition hash_optional :: "'z svc_env_scheme \<Rightarrow> nat \<Rightarrow> string option \<Rightarrow> string option" where
  "hash_optional env i plaintext = map_option (hash_password env i) plaintext"

text \<open>The unique keys a row violates against the other rows.\<close>

definition user_violations :: "user list \<Rightarrow> user \<Rightarrow> violation list" where
  "user_violations others u =
     (if u_id u \<in> u_id ` set others then [UniqueViolation ''users'' ''users_pkey'' (uuid_str (u_id u))] else []) @
     (if u_email u \<in> u_email ` set others then [UniqueViolation ''users'' ''ix_users_email'' (u_email u)] else []) @
     (if u_username u \<in> u_username ` set others
      then [UniqueViolation ''users'' ''ix_users_username'' (u_username u)] else [])"

definition classify_user_error :: "string option \<Rightarrow> string option \<Rightarrow> string \<Rightarrow> svc_error" where
  "classify_user_error email username message =
     (if sublist ''username'' (lower message)
      then UsernameConflictError (case username of None \<Rightarrow> '''' | Some s \<Rightarrow> s)
      else EmailConflictError (case email of None \<Rightarrow> '''' | Some s \<Rightarrow> s))"

text \<open>The object a creation builds, with the values the database gives it at the flush.\<close>

definition new_user :: "'y svc_env_scheme \<Rightarrow> nat \<Rightarrow> user_create \<Rightarrow> user" where
  "new_user env i payload =
     \<lparr>u_id = se_uuid env i, u_email = uc_email payload, u_username = uc_username payload,
      u_enabled = uc_enabled payload, u_password = hash_optional env i (uc_password payload),
      u_idp_user_id = None, u_created_at = se_now env, u_updated_at = se_now env\<rparr>"

definition create_user ::
    "'y svc_env_scheme \<Rightarrow> nat \<Rightarrow> sfilter \<Rightarrow> user_create \<Rightarrow> 'z svc_db_scheme \<Rightarrow>
     svc_error + user \<times> 'z svc_db_scheme" where
  "create_user env i perm_filter payload db =
     (let u = new_user env i payload
      in bindR (check_scope perm_filter (user_attrs u)) (\<lambda>_.
         catch_integrity (classify_user_error (Some (uc_email payload)) (Some (uc_username payload)))
           (flush_rows env (user_violations (td_users db) u)
              (u, db\<lparr>td_users := td_users db @ [u]\<rparr>))))"

definition get_user :: "'y svc_env_scheme \<Rightarrow> sfilter \<Rightarrow> uuid \<Rightarrow> 'z svc_db_scheme \<Rightarrow> svc_error + user" where
  "get_user env perm_filter uid db =
     scoped_get (se_ev env) (sql_tables db) perm_filter user_attrs u_id (td_users db) uid"

definition get_many_users ::
    "'y svc_env_scheme \<Rightarrow> sfilter \<Rightarrow> uuid list \<Rightarrow> 'z svc_db_scheme \<Rightarrow> svc_error + user option list" where
  "get_many_users env perm_filter ids db =
     scoped_get_many (se_ev env) (sql_tables db) perm_filter user_attrs u_id (td_users db) ids"

definition search_users ::
    "'y svc_env_scheme \<Rightarrow> sfilter \<Rightarrow> 'z svc_db_scheme \<Rightarrow> uuid option \<Rightarrow> nat \<Rightarrow> sfilter option \<Rightarrow>
     svc_error + user list \<times> uuid option" where
  "search_users env perm_filter db cursor limit search_filter =
     scoped_search (se_ev env) (sql_tables db) perm_filter user_attrs u_id (td_users db) cursor limit search_filter"

definition count_users ::
    "'y svc_env_scheme \<Rightarrow> sfilter \<Rightarrow> 'z svc_db_scheme \<Rightarrow> sfilter option \<Rightarrow> svc_error + nat" where
  "count_users env perm_filter db search_filter =
     scoped_count (se_ev env) (sql_tables db) perm_filter user_attrs (td_users db) search_filter"

text \<open>
  An UPDATE is only sent when an attribute has changed, and then sets \<open>updated_at\<close>. The salt of a
  password hash is the one numbered 0.
\<close>

definition update_user ::
    "'y svc_env_scheme \<Rightarrow> sfilter \<Rightarrow> uuid \<Rightarrow> user_update \<Rightarrow> 'z svc_db_scheme \<Rightarrow>
     svc_error + user \<times> 'z svc_db_scheme" where
  "update_user env perm_filter uid payload db =
     bindR (get_user env perm_filter uid db) (\<lambda>user.
       let u = set_if (uu_password payload) (\<lambda>p r. r\<lparr>u_password := hash_optional env 0 (Some p)\<rparr>)
              (set_if (uu_enabled payload) (\<lambda>b r. r\<lparr>u_enabled := b\<rparr>)
              (set_if (uu_username payload) (\<lambda>n r. r\<lparr>u_username := n\<rparr>)
              (set_if (uu_email payload) (\<lambda>e r. r\<lparr>u_email := e\<rparr>) user)))
       in if u = user then Inr (user, db)
          else
            let u' = u\<lparr>u_updated_at := se_now env\<rparr> in
            catch_integrity (classify_user_error (uu_email payload) (uu_username payload))
              (flush_rows env (user_violations (filter (\<lambda>v. u_id v \<noteq> uid) (td_users db)) u')
                 (u', set_user db u')))"

text \<open>An \<open>IntegrityError\<close> of the DELETE is not caught.\<close>

definition delete_user ::
    "'y svc_env_scheme \<Rightarrow> sfilter \<Rightarrow> uuid \<Rightarrow> 'z svc_db_scheme \<Rightarrow> svc_error + 'z svc_db_scheme" where
  "delete_user env perm_filter uid db =
     bindR (get_user env perm_filter uid db) (\<lambda>user.
       if se_restricted env uid then Inl (IntegrityErr ''restrict'')
       else Inr (cascade_user db uid))"

definition apply_user_batch ::
    "'y svc_env_scheme \<Rightarrow> (uuid, user_create, user_update) batch_op list \<Rightarrow> (action \<Rightarrow> sfilter option) \<Rightarrow>
     'z svc_db_scheme \<Rightarrow> svc_error + user option list \<times> 'z svc_db_scheme" where
  "apply_user_batch env operations perm_filters db =
     batch_loop (create_user env) (update_user env) (delete_user env) perm_filters 0 operations db"

text \<open>\<open>get_by_username\<close> with \<open>scalar_one_or_none\<close>, \<open>verify_password\<close> and \<open>authenticate\<close>.\<close>

definition get_by_username :: "string \<Rightarrow> 'z svc_db_scheme \<Rightarrow> svc_error + user option" where
  "get_by_username username db =
     (case filter (\<lambda>u. u_username u = username) (td_users db) of
        [] \<Rightarrow> Inr None | [u] \<Rightarrow> Inr (Some u) | _ \<Rightarrow> Inl MultipleRows)"

definition user_verify_password :: "'y svc_env_scheme \<Rightarrow> string \<Rightarrow> user \<Rightarrow> bool" where
  "user_verify_password env plaintext u =
     (case u_password u of
        None \<Rightarrow> False
      | Some h \<Rightarrow> h \<noteq> '''' \<and> verify_password env plaintext h)"

definition authenticate_user ::
    "'y svc_env_scheme \<Rightarrow> string \<Rightarrow> string \<Rightarrow> 'z svc_db_scheme \<Rightarrow> svc_error + user option" where
  "authenticate_user env username password db =
     bindR (get_by_username username db) (\<lambda>found.
       case found of
         None \<Rightarrow> Inr None
       | Some u \<Rightarrow>
           if \<not> u_enabled u \<or> u_password u = None \<or> u_password u = Some '''' then Inr None
           else if \<not> verify_password env password (the (u_password u)) then Inr None
           else Inr (Some u))"

section \<open>Laws\<close>

lemma user_violations_Nil:
  "user_violations others u = [] \<longleftrightarrow>
     u_id u \<notin> u_id ` set others \<and> u_email u \<notin> u_email ` set others \<and> u_username u \<notin> u_username ` set others"
  by (simp add: user_violations_def)

interpretation user_table: governed_table user_attrs u_id VUuid
  by unfold_locales simp

lemma create_user_Inr:
  assumes "create_user env i f p db = Inr (u, db')"
  shows "db' = db\<lparr>td_users := td_users db @ [u]\<rparr> \<and> user_violations (td_users db) u = [] \<and>
    matches f (plain_item (unsaved (user_attrs u))) = Inr True \<and> u = new_user env i p"
  using assms by (auto simp: create_user_def Let_def bindR_Inr_iff flush_Inr_iff)

lemma update_user_Inr:
  assumes "integrity db" "update_user env f uid p db = Inr (u, db')"
  shows "\<exists>u0 \<in> set (td_users db). u_id u0 = uid \<and> u_id u = uid \<and>
    in_scope (se_ev env) (sql_tables db) f (user_attrs u0) \<and> db' = set_user db u \<and>
    (u = u0 \<or> user_violations (filter (\<lambda>v. u_id v \<noteq> uid) (td_users db)) u = [])"
proof -
  have d: "distinct (map u_id (td_users db))" using assms(1) by (simp add: integrity_def)
  obtain u0 where g: "get_user env f uid db = Inr u0"
    using assms(2) by (auto simp: update_user_def elim!: bindR_InrE)
  then have u0: "u0 \<in> set (td_users db)" "u_id u0 = uid" "in_scope (se_ev env) (sql_tables db) f (user_attrs u0)"
    by (simp_all add: get_user_def user_table.get_Inr_iff [OF d])
  define v where "v = set_if (uu_password p) (\<lambda>p r. r\<lparr>u_password := hash_optional env 0 (Some p)\<rparr>)
              (set_if (uu_enabled p) (\<lambda>b r. r\<lparr>u_enabled := b\<rparr>)
              (set_if (uu_username p) (\<lambda>n r. r\<lparr>u_username := n\<rparr>)
              (set_if (uu_email p) (\<lambda>e r. r\<lparr>u_email := e\<rparr>) u0)))"
  have id: "u_id v = uid" by (simp add: v_def set_if_def u0(2) split: option.split)
  have same: "set_user db u0 = db" using replace_self [OF d u0(1)] by (simp add: set_user_def)
  have r: "(if v = u0 then Inr (u0, db)
      else let u' = v\<lparr>u_updated_at := se_now env\<rparr> in
            catch_integrity (classify_user_error (uu_email p) (uu_username p))
              (flush_rows env (user_violations (filter (\<lambda>v. u_id v \<noteq> uid) (td_users db)) u') (u', set_user db u')))
      = Inr (u, db')"
    using assms(2) unfolding update_user_def g bindR.simps Let_def v_def .
  show ?thesis
  proof (cases "v = u0")
    case True
    then have "u = u0" "db' = db" using r by auto
    then show ?thesis using u0 same by auto
  next
    case False
    then have "u = v\<lparr>u_updated_at := se_now env\<rparr>" "db' = set_user db u"
      "user_violations (filter (\<lambda>v. u_id v \<noteq> uid) (td_users db)) u = []"
      using r by (auto simp: Let_def flush_Inr_iff)
    then show ?thesis using u0 id by auto
  qed
qed

lemma delete_user_Inr:
  assumes "integrity db" "delete_user env f uid db = Inr db'"
  shows "db' = cascade_user db uid \<and> (\<exists>u0 \<in> set (td_users db). u_id u0 = uid \<and>
    in_scope (se_ev env) (sql_tables db) f (user_attrs u0))"
proof -
  have d: "distinct (map u_id (td_users db))" using assms(1) by (simp add: integrity_def)
  obtain u0 where "get_user env f uid db = Inr u0" "db' = cascade_user db uid"
    using assms(2) by (auto simp: delete_user_def elim!: bindR_InrE split: if_splits)
  then show ?thesis by (auto simp: get_user_def user_table.get_Inr_iff [OF d])
qed

lemma integrity_users:
  assumes "integrity db" "distinct (map u_id us)" "distinct (map u_email us)" "distinct (map u_username us)"
    "u_id ` set (td_users db) \<subseteq> u_id ` set us"
  shows "integrity (db\<lparr>td_users := us\<rparr>)"
proof -
  have "x \<in> u_id ` set us" if "x \<in> u_id ` set (td_users db)" for x using assms(5) that by blast
  then show ?thesis using assms(1-4) unfolding integrity_def by simp
qed

lemma integrity_add_user:
  assumes "integrity db" "user_violations (td_users db) u = []"
  shows "integrity (db\<lparr>td_users := td_users db @ [u]\<rparr>)"
proof (rule integrity_users [OF assms(1)])
  show "u_id ` set (td_users db) \<subseteq> u_id ` set (td_users db @ [u])" by auto
qed (use assms in \<open>simp_all add: integrity_def user_violations_Nil\<close>)

lemma integrity_set_user:
  assumes "integrity db" "u0 \<in> set (td_users db)" "u_id u = u_id u0"
    "u = u0 \<or> user_violations (filter (\<lambda>v. u_id v \<noteq> u_id u0) (td_users db)) u = []"
  shows "integrity (set_user db u)"
proof -
  let ?us = "map (\<lambda>v. if u_id v = u_id u then u else v) (td_users db)"
  have d: "distinct (map u_id (td_users db))" "distinct (map u_email (td_users db))"
    "distinct (map u_username (td_users db))" using assms(1) by (simp_all add: integrity_def)
  have ids: "map u_id ?us = map u_id (td_users db)" by auto
  have fresh: "distinct (map f ?us)"
    if "f u = f u0 \<or> f u \<notin> f ` set (filter (\<lambda>v. u_id v \<noteq> u_id u0) (td_users db))"
      "distinct (map f (td_users db))" for f :: "user \<Rightarrow> string"
  proof -
    have "f u \<notin> f ` {x \<in> set (td_users db). u_id x \<noteq> u_id u0}"
      using that assms(2) by (auto simp: distinct_map dest: inj_onD)
    then show ?thesis unfolding assms(3) by (rule distinct_replace_fresh [OF d(1) that(2)])
  qed
  have "set (map u_id ?us) = set (map u_id (td_users db))" by (simp only: ids)
  then have "u_id ` set (td_users db) \<subseteq> u_id ` set ?us" by (simp only: set_map subset_refl)
  moreover have "distinct (map u_id ?us)" using d(1) by (simp only: ids)
  moreover have "distinct (map u_email ?us)"
    by (rule fresh [OF _ d(2)]) (use assms(4) in \<open>auto simp: user_violations_Nil\<close>)
  moreover have "distinct (map u_username ?us)"
    by (rule fresh [OF _ d(3)]) (use assms(4) in \<open>auto simp: user_violations_Nil\<close>)
  ultimately have "integrity (db\<lparr>td_users := ?us\<rparr>)" using assms(1) by (intro integrity_users)
  then show ?thesis by (simp add: set_user_def)
qed

lemma integrity_cascade_user:
  assumes "integrity db"
  shows "integrity (cascade_user db uid)"
proof -
  have kept: "gu_group_id m \<in> g_id ` {g \<in> set (sv_groups db). g_creator_id g \<noteq> uid}"
    if "m \<in> set (sv_group_users db)" "gu_group_id m \<notin> g_id ` {g \<in> set (sv_groups db). g_creator_id g = uid}" for m
  proof -
    have "gu_group_id m \<in> g_id ` set (sv_groups db)" using assms that(1) by (simp add: integrity_def)
    then show ?thesis using that(2) by blast
  qed
  have user: "x \<in> u_id ` {u \<in> set (td_users db). u_id u \<noteq> uid}" if "x \<in> u_id ` set (td_users db)" "x \<noteq> uid" for x
    using that by auto
  show ?thesis using assms kept user unfolding integrity_def cascade_user_def
    by (simp add: Let_def distinct_map_filter) blast
qed

interpretation user_service: governed_service user_attrs u_id VUuid "\<lambda>r. unsaved (user_attrs r)" td_users
    "\<lambda>db f u. in_scope (se_ev env) (sql_tables db) f (user_attrs u)" integrity
    "create_user env" "update_user env" "delete_user env" for env
proof (unfold_locales, goal_cases)
  case (1 db)
  then show ?case by (simp add: integrity_def)
next
  case (2 db i f p r db')
  then show ?case using create_user_Inr [OF 2(2)] integrity_add_user [OF 2(1)]
    by (auto simp: user_violations_Nil)
next
  case (3 db f k u r db')
  from update_user_Inr [OF this] obtain u0 where u0: "u0 \<in> set (td_users db)" "u_id u0 = k" "u_id r = k"
    "in_scope (se_ev env) (sql_tables db) f (user_attrs u0)" "db' = set_user db r"
    "r = u0 \<or> user_violations (filter (\<lambda>v. u_id v \<noteq> k) (td_users db)) r = []" by blast
  have "integrity db'" using integrity_set_user [OF 3(1) u0(1), of r] u0 by simp
  then show ?case using u0 by (auto simp: set_user_def)
next
  case (4 db f k db')
  then show ?case using delete_user_Inr [OF 4] integrity_cascade_user [OF 4(1)] by auto
qed

end
