(* ===== verification/RoleService.thy ===== *)
theory RoleService
  imports UserService
begin

text \<open>
  \<open>role/role_service.py\<close> and \<open>role/user_role_service.py\<close>: roles, whose deletion cascades to
  assignments and widens restricted API keys, and the immutable role assignments.
\<close>

section \<open>Roles\<close>

record role_create =
  rc_name :: string
  rc_policies :: "string \<Rightarrow> permission option"

record role_update =
  rup_name :: "string option"
  rup_policies :: "string \<Rightarrow> permission option"

definition new_role :: "'y svc_env_scheme \<Rightarrow> nat \<Rightarrow> role_create \<Rightarrow> role" where
  "new_role env i payload =
     \<lparr>r_id = se_uuid env i, r_name = rc_name payload,
      r_policies = (\<lambda>c. if c \<in> set ROLE_ENTITY_COLUMNS then rc_policies payload c else None),
      r_created_at = se_now env, r_updated_at = se_now env\<rparr>"

definition role_violations :: "role list \<Rightarrow> role \<Rightarrow> violation list" where
  "role_violations others r =
     (if r_id r \<in> r_id ` set others then [UniqueViolation ''roles'' ''roles_pkey'' (uuid_str (r_id r))] else []) @
     (if r_name r \<in> r_name ` set others then [UniqueViolation ''roles'' ''ix_roles_name'' (r_name r)] else [])"

text \<open>\<open>_classify_integrity_error\<close>: every violation is a name conflict.\<close>

definition classify_role_error :: "string option \<Rightarrow> string \<Rightarrow> svc_error" where
  "classify_role_error name message = ConflictError (case name of None \<Rightarrow> '''' | Some s \<Rightarrow> s)"

definition create_role ::
    "'y svc_env_scheme \<Rightarrow> nat \<Rightarrow> sfilter \<Rightarrow> role_create \<Rightarrow> 'z svc_db_scheme \<Rightarrow>
     svc_error + role \<times> 'z svc_db_scheme" where
  "create_role env i perm_filter payload db =
     (let r = new_role env i payload
      in bindR (check_scope perm_filter (role_attrs r)) (\<lambda>_.
         catch_integrity (classify_role_error (Some (rc_name payload)))
           (flush_rows env (role_violations (sv_roles db) r) (r, db\<lparr>sv_roles := sv_roles db @ [r]\<rparr>))))"

definition get_role :: "'y svc_env_scheme \<Rightarrow> sfilter \<Rightarrow> uuid \<Rightarrow> 'z svc_db_scheme \<Rightarrow> svc_error + role" where
  "get_role env perm_filter k db =
     scoped_get (se_ev env) (sql_tables db) perm_filter role_attrs r_id (sv_roles db) k"

definition get_many_roles ::
    "'y svc_env_scheme \<Rightarrow> sfilter \<Rightarrow> uuid list \<Rightarrow> 'z svc_db_scheme \<Rightarrow> svc_error + role option list" where
  "get_many_roles env perm_filter ids db =
     scoped_get_many (se_ev env) (sql_tables db) perm_filter role_attrs r_id (sv_roles db) ids"

definition search_roles ::
    "'y svc_env_scheme \<Rightarrow> sfilter \<Rightarrow> 'z svc_db_scheme \<Rightarrow> uuid option \<Rightarrow> nat \<Rightarrow> sfilter option \<Rightarrow>
     svc_error + role list \<times> uuid option" where
  "search_roles env perm_filter db cursor limit search_filter =
     scoped_search (se_ev env) (sql_tables db) perm_filter role_attrs r_id (sv_roles db) cursor limit search_filter"

definition count_roles ::
    "'y svc_env_scheme \<Rightarrow> sfilter \<Rightarrow> 'z svc_db_scheme \<Rightarrow> sfilter option \<Rightarrow> svc_error + nat" where
  "count_roles env perm_filter db search_filter =
     scoped_count (se_ev env) (sql_tables db) perm_filter role_attrs (sv_roles db) search_filter"

definition set_role :: "'z svc_db_scheme \<Rightarrow> role \<Rightarrow> 'z svc_db_scheme" where
  "set_role db r = db\<lparr>sv_roles := map (\<lambda>x. if r_id x = r_id r then r else x) (sv_roles db)\<rparr>"

text \<open>Whether a role row differs from the stored one, in its name or in a policy column.\<close>

definition role_changed :: "role \<Rightarrow> role \<Rightarrow> bool" where
  "role_changed a b = (r_name a \<noteq> r_name b \<or>
     (\<exists>c \<in> set ROLE_ENTITY_COLUMNS. r_policies a c \<noteq> r_policies b c))"

text \<open>A policy of the payload replaces the stored one; an absent policy leaves it.\<close>

definition update_role ::
    "'y svc_env_scheme \<Rightarrow> sfilter \<Rightarrow> uuid \<Rightarrow> role_update \<Rightarrow> 'z svc_db_scheme \<Rightarrow>
     svc_error + role \<times> 'z svc_db_scheme" where
  "update_role env perm_filter k payload db =
     bindR (get_role env perm_filter k db) (\<lambda>role.
       let r1 = set_if (rup_name payload) (\<lambda>n x. x\<lparr>r_name := n\<rparr>) role;
           r = r1\<lparr>r_policies := (\<lambda>c. if c \<in> set ROLE_ENTITY_COLUMNS \<and> rup_policies payload c \<noteq> None
                 then rup_policies payload c else r_policies role c)\<rparr>
       in if \<not> role_changed r role then Inr (role, db)
          else
            let r' = r\<lparr>r_updated_at := se_now env\<rparr> in
            catch_integrity (classify_role_error (rup_name payload))
              (flush_rows env (role_violations (filter (\<lambda>x. r_id x \<noteq> k) (sv_roles db)) r') (r', set_role db r')))"

definition delete_role ::
    "'y svc_env_scheme \<Rightarrow> sfilter \<Rightarrow> uuid \<Rightarrow> 'z svc_db_scheme \<Rightarrow> svc_error + 'z svc_db_scheme" where
  "delete_role env perm_filter k db =
     bindR (get_role env perm_filter k db) (\<lambda>role. Inr (cascade_role db k))"

definition apply_role_batch ::
    "'y svc_env_scheme \<Rightarrow> (uuid, role_create, role_update) batch_op list \<Rightarrow> (action \<Rightarrow> sfilter option) \<Rightarrow>
     'z svc_db_scheme \<Rightarrow> svc_error + role option list \<times> 'z svc_db_scheme" where
  "apply_role_batch env operations perm_filters db =
     batch_loop (create_role env) (update_role env) (delete_role env) perm_filters 0 operations db"

section \<open>Role assignments\<close>

definition new_user_role :: "'y svc_env_scheme \<Rightarrow> nat \<Rightarrow> uuid \<Rightarrow> uuid \<Rightarrow> user_role" where
  "new_user_role env i role_id user_id =
     \<lparr>ur_id = se_uuid env i, ur_role_id = role_id, ur_user_id = user_id, ur_created_at = se_now env\<rparr>"

definition user_role_violations :: "'z svc_db_scheme \<Rightarrow> user_role \<Rightarrow> violation list" where
  "user_role_violations db l =
     (if ur_id l \<in> ur_id ` set (sv_user_roles db)
      then [UniqueViolation ''user_roles'' ''user_roles_pkey'' (uuid_str (ur_id l))] else []) @
     (if (ur_role_id l, ur_user_id l) \<in> (\<lambda>x. (ur_role_id x, ur_user_id x)) ` set (sv_user_roles db)
      then [UniqueViolation ''user_roles'' ''uq_user_roles_role_id_user_id''
              (uuid_str (ur_role_id l) @ '', '' @ uuid_str (ur_user_id l))] else []) @
     (if ur_role_id l \<notin> r_id ` set (sv_roles db)
      then [ForeignKeyViolation ''user_roles'' ''fk_user_roles_role_id_roles'' (uuid_str (ur_role_id l))] else []) @
     (if ur_user_id l \<notin> u_id ` set (td_users db)
      then [ForeignKeyViolation ''user_roles'' ''fk_user_roles_user_id_users'' (uuid_str (ur_user_id l))] else [])"

definition classify_user_role_error :: "uuid \<Rightarrow> uuid \<Rightarrow> string \<Rightarrow> svc_error" where
  "classify_user_role_error role_id user_id message0 =
     (let message = lower message0 in
      if sublist ''uq_user_roles_role_id_user_id'' message \<or>
         sublist ''unique constraint'' message \<and> sublist ''user_roles'' message
      then ConflictError (uuid_str role_id @ ''/'' @ uuid_str user_id)
      else if sublist ''foreign key'' message \<or> sublist ''fk_'' message
      then (if sublist ''user_id'' message \<and> \<not> sublist ''role_id'' message
            then OrphanError (''user '' @ uuid_str user_id @ '' does not exist'')
            else OrphanError (''role '' @ uuid_str role_id @ '' does not exist''))
      else ConflictError (uuid_str role_id @ ''/'' @ uuid_str user_id))"

definition create_user_role ::
    "'y svc_env_scheme \<Rightarrow> nat \<Rightarrow> sfilter \<Rightarrow> uuid \<times> uuid \<Rightarrow> 'z svc_db_scheme \<Rightarrow>
     svc_error + user_role \<times> 'z svc_db_scheme" where
  "create_user_role env i perm_filter ids db =
     (case ids of (role_id, user_id) \<Rightarrow>
        let l = new_user_role env i role_id user_id
        in bindR (check_scope perm_filter (user_role_attrs l)) (\<lambda>_.
           catch_integrity (classify_user_role_error role_id user_id)
             (flush_rows env (user_role_violations db l)
                (l, db\<lparr>sv_user_roles := sv_user_roles db @ [l]\<rparr>))))"

definition get_user_role :: "'y svc_env_scheme \<Rightarrow> sfilter \<Rightarrow> uuid \<Rightarrow> 'z svc_db_scheme \<Rightarrow> svc_error + user_role" where
  "get_user_role env perm_filter k db =
     scoped_get (se_ev env) (sql_tables db) perm_filter user_role_attrs ur_id (sv_user_roles db) k"

definition get_many_user_roles ::
    "'y svc_env_scheme \<Rightarrow> sfilter \<Rightarrow> uuid list \<Rightarrow> 'z svc_db_scheme \<Rightarrow> svc_error + user_role option list" where
  "get_many_user_roles env perm_filter ids db =
     scoped_get_many (se_ev env) (sql_tables db) perm_filter user_role_attrs ur_id (sv_user_roles db) ids"

definition search_user_roles ::
    "'y svc_env_scheme \<Rightarrow> sfilter \<Rightarrow> 'z svc_db_scheme \<Rightarrow> uuid option \<Rightarrow> nat \<Rightarrow> sfilter option \<Rightarrow>
     svc_error + user_role list \<times> uuid option" where
  "search_user_roles env perm_filter db cursor limit search_filter =
     scoped_search (se_ev env) (sql_tables db) perm_filter user_role_attrs ur_id (sv_user_roles db)
       cursor limit search_filter"

definition count_user_roles ::
    "'y svc_env_scheme \<Rightarrow> sfilter \<Rightarrow> 'z svc_db_scheme \<Rightarrow> sfilter option \<Rightarrow> svc_error + nat" where
  "count_user_roles env perm_filter db search_filter =
     scoped_count (se_ev env) (sql_tables db) perm_filter user_role_attrs (sv_user_roles db) search_filter"

definition delete_user_role ::
    "'y svc_env_scheme \<Rightarrow> sfilter \<Rightarrow> uuid \<Rightarrow> 'z svc_db_scheme \<Rightarrow> svc_error + 'z svc_db_scheme" where
  "delete_user_role env perm_filter k db =
     bindR (get_user_role env perm_filter k db) (\<lambda>l.
       Inr (db\<lparr>sv_user_roles := filter (\<lambda>x. ur_id x \<noteq> k) (sv_user_roles db)\<rparr>))"

text \<open>
  Assignments are immutable: their batches have no update operation (\<open>Update\<close> is not a kind the
  schema accepts).
\<close>

definition no_update :: "sfilter \<Rightarrow> uuid \<Rightarrow> unit \<Rightarrow> 's \<Rightarrow> svc_error + 'r \<times> 's" where
  "no_update perm_filter k payload db = Inl (Raised500 NotModelled)"

definition apply_user_role_batch ::
    "'y svc_env_scheme \<Rightarrow> (uuid, uuid \<times> uuid, unit) batch_op list \<Rightarrow> (action \<Rightarrow> sfilter option) \<Rightarrow>
     'z svc_db_scheme \<Rightarrow> svc_error + user_role option list \<times> 'z svc_db_scheme" where
  "apply_user_role_batch env operations perm_filters db =
     batch_loop (create_user_role env) no_update (delete_user_role env) perm_filters 0 operations db"

section \<open>Laws\<close>

lemma role_attrs_id [simp]: "role_attrs r ''id'' = VUuid (r_id r)"
  by (simp add: role_attrs_def)

lemma user_role_attrs_id [simp]: "user_role_attrs l ''id'' = VUuid (ur_id l)"
  by (simp add: user_role_attrs_def)

interpretation role_table: governed_table role_attrs r_id VUuid
  by unfold_locales simp

interpretation user_role_table: governed_table user_role_attrs ur_id VUuid
  by unfold_locales simp

lemma role_violations_Nil:
  "role_violations others r = [] \<longleftrightarrow> r_id r \<notin> r_id ` set others \<and> r_name r \<notin> r_name ` set others"
  by (simp add: role_violations_def)

lemma user_role_violations_Nil:
  "user_role_violations db l = [] \<longleftrightarrow> ur_id l \<notin> ur_id ` set (sv_user_roles db) \<and>
     (ur_role_id l, ur_user_id l) \<notin> (\<lambda>x. (ur_role_id x, ur_user_id x)) ` set (sv_user_roles db) \<and>
     ur_role_id l \<in> r_id ` set (sv_roles db) \<and> ur_user_id l \<in> u_id ` set (td_users db)"
  by (simp add: user_role_violations_def)

lemma create_role_Inr:
  assumes "create_role env i f p db = Inr (r, db')"
  shows "db' = db\<lparr>sv_roles := sv_roles db @ [r]\<rparr> \<and> role_violations (sv_roles db) r = [] \<and>
    matches f (plain_item (unsaved (role_attrs r))) = Inr True \<and> r = new_role env i p"
  using assms by (auto simp: create_role_def Let_def bindR_Inr_iff flush_Inr_iff)

lemma create_user_role_Inr:
  assumes "create_user_role env i f ids db = Inr (l, db')"
  shows "db' = db\<lparr>sv_user_roles := sv_user_roles db @ [l]\<rparr> \<and> user_role_violations db l = [] \<and>
    matches f (plain_item (unsaved (user_role_attrs l))) = Inr True \<and> l = new_user_role env i (fst ids) (snd ids)"
  using assms by (auto simp: create_user_role_def Let_def bindR_Inr_iff flush_Inr_iff split: prod.split_asm)

lemma set_role_same:
  assumes "integrity db" "r \<in> set (sv_roles db)"
  shows "set_role db r = db"
  using replace_self [of r_id "sv_roles db" r] assms by (simp add: set_role_def integrity_def)

lemma update_role_Inr:
  assumes "integrity db" "update_role env f k p db = Inr (r, db')"
  shows "\<exists>r0 \<in> set (sv_roles db). r_id r0 = k \<and> r_id r = k \<and>
    in_scope (se_ev env) (sql_tables db) f (role_attrs r0) \<and> db' = set_role db r \<and>
    (r = r0 \<or> role_violations (filter (\<lambda>x. r_id x \<noteq> k) (sv_roles db)) r = [])"
proof -
  have d: "distinct (map r_id (sv_roles db))" using assms(1) by (simp add: integrity_def)
  obtain r0 where g: "get_role env f k db = Inr r0"
    using assms(2) by (auto simp: update_role_def elim!: bindR_InrE)
  then have r0: "r0 \<in> set (sv_roles db)" "r_id r0 = k" "in_scope (se_ev env) (sql_tables db) f (role_attrs r0)"
    by (simp_all add: get_role_def role_table.get_Inr_iff [OF d])
  have id: "r_id (set_if n (\<lambda>n x. x\<lparr>r_name := n\<rparr>) r0) = k" for n by (simp add: set_if_def r0(2) split: option.split)
  show ?thesis using assms(2) set_role_same [OF assms(1) r0(1)] r0 id
    by (auto simp: update_role_def g Let_def flush_Inr_iff split: if_split_asm intro!: bexI [of _ r0])
qed

lemma delete_role_Inr:
  assumes "integrity db" "delete_role env f k db = Inr db'"
  shows "db' = cascade_role db k \<and> (\<exists>r0 \<in> set (sv_roles db). r_id r0 = k \<and>
    in_scope (se_ev env) (sql_tables db) f (role_attrs r0))"
proof -
  have d: "distinct (map r_id (sv_roles db))" using assms(1) by (simp add: integrity_def)
  show ?thesis using assms(2) by (auto simp: delete_role_def get_role_def role_table.get_Inr_iff [OF d] elim!: bindR_InrE)
qed

lemma delete_user_role_Inr:
  assumes "integrity db" "delete_user_role env f k db = Inr db'"
  shows "db' = db\<lparr>sv_user_roles := filter (\<lambda>x. ur_id x \<noteq> k) (sv_user_roles db)\<rparr> \<and>
    (\<exists>l \<in> set (sv_user_roles db). ur_id l = k \<and> in_scope (se_ev env) (sql_tables db) f (user_role_attrs l))"
proof -
  have d: "distinct (map ur_id (sv_user_roles db))" using assms(1) by (simp add: integrity_def)
  show ?thesis using assms(2)
    by (auto simp: delete_user_role_def get_user_role_def user_role_table.get_Inr_iff [OF d] elim!: bindR_InrE)
qed

lemma integrity_roles:
  assumes "integrity db" "distinct (map r_id rs)" "distinct (map r_name rs)"
    "\<And>l. l \<in> set (sv_user_roles db) \<Longrightarrow> ur_role_id l \<in> r_id ` set rs"
    "\<And>k r. k \<in> set (td_api_keys db) \<Longrightarrow> ak_role_id k = Some r \<Longrightarrow> r \<in> r_id ` set rs"
  shows "integrity (db\<lparr>sv_roles := rs\<rparr>)"
  using assms unfolding integrity_def by simp

lemma integrity_more_roles:
  assumes "integrity db" "distinct (map r_id rs)" "distinct (map r_name rs)"
    "r_id ` set (sv_roles db) \<subseteq> r_id ` set rs"
  shows "integrity (db\<lparr>sv_roles := rs\<rparr>)"
proof (rule integrity_roles [OF assms(1-3)])
  show "ur_role_id l \<in> r_id ` set rs" if "l \<in> set (sv_user_roles db)" for l
    using assms(1,4) that unfolding integrity_def by blast
  show "r \<in> r_id ` set rs" if "k \<in> set (td_api_keys db)" "ak_role_id k = Some r" for k r
    using assms(1,4) that unfolding integrity_def by blast
qed

lemma integrity_drop_user_role:
  "integrity db \<Longrightarrow> integrity (db\<lparr>sv_user_roles := filter P (sv_user_roles db)\<rparr>)"
  unfolding integrity_def by (simp add: distinct_map_filter)

lemma integrity_add_role:
  assumes "integrity db" "role_violations (sv_roles db) r = []"
  shows "integrity (db\<lparr>sv_roles := sv_roles db @ [r]\<rparr>)"
proof (rule integrity_more_roles [OF assms(1)])
  show "r_id ` set (sv_roles db) \<subseteq> r_id ` set (sv_roles db @ [r])" by auto
qed (use assms in \<open>simp_all add: integrity_def role_violations_Nil\<close>)

lemma integrity_set_role:
  assumes "integrity db" "r0 \<in> set (sv_roles db)" "r_id r = r_id r0"
    "r = r0 \<or> role_violations (filter (\<lambda>x. r_id x \<noteq> r_id r0) (sv_roles db)) r = []"
  shows "integrity (set_role db r)"
proof -
  let ?rs = "map (\<lambda>x. if r_id x = r_id r then r else x) (sv_roles db)"
  have d: "distinct (map r_id (sv_roles db))" "distinct (map r_name (sv_roles db))"
    using assms(1) by (simp_all add: integrity_def)
  have ids: "map r_id ?rs = map r_id (sv_roles db)" by auto
  have "set (map r_id ?rs) = set (map r_id (sv_roles db))" by (simp only: ids)
  then have "r_id ` set (sv_roles db) \<subseteq> r_id ` set ?rs" by (simp only: set_map subset_refl)
  moreover have "distinct (map r_id ?rs)" using d(1) by (simp only: ids)
  moreover have "distinct (map r_name ?rs)"
  proof -
    have "r_name r \<notin> r_name ` {x \<in> set (sv_roles db). r_id x \<noteq> r_id r0}"
      using assms(2,4) d(2) by (auto simp: role_violations_Nil distinct_map dest: inj_onD)
    then show ?thesis unfolding assms(3) by (rule distinct_replace_fresh [OF d])
  qed
  ultimately have "integrity (db\<lparr>sv_roles := ?rs\<rparr>)" using assms(1) by (intro integrity_more_roles)
  then show ?thesis by (simp add: set_role_def)
qed

lemma integrity_cascade_role:
  assumes "integrity db"
  shows "integrity (cascade_role db k)"
proof -
  let ?w = "\<lambda>x. if ak_role_id x = Some k then x\<lparr>ak_role_id := None\<rparr> else x"
  let ?ks = "map ?w (td_api_keys db)"
  have same: "map ak_id ?ks = map ak_id (td_api_keys db)"
    "map ak_key_hash ?ks = map ak_key_hash (td_api_keys db)" by (rule map_if_same, simp)+
  have w: "ak_creator_id (?w x) = ak_creator_id x"
    "ak_role_id (?w x) = Some r \<Longrightarrow> ak_role_id x = Some r \<and> r \<noteq> k" for x r by (auto split: if_splits)
  have left: "x \<in> r_id ` set (filter (\<lambda>r. r_id r \<noteq> k) (sv_roles db))"
    if "x \<in> r_id ` set (sv_roles db)" "x \<noteq> k" for x
    using that by auto
  let ?db1 = "db\<lparr>sv_user_roles := filter (\<lambda>l. ur_role_id l \<noteq> k) (sv_user_roles db)\<rparr>"
  let ?db2 = "?db1\<lparr>td_api_keys := ?ks\<rparr>"
  have i1: "integrity ?db1" by (rule integrity_drop_user_role [OF assms])
  have key: "ak_creator_id x \<in> u_id ` set (td_users db)"
    "ak_role_id x = Some r \<Longrightarrow> r \<in> r_id ` set (sv_roles db) \<and> r \<noteq> k" if x: "x \<in> set ?ks" for x r
  proof -
    obtain y where y: "y \<in> set (td_api_keys db)" "x = ?w y" using x by auto
    show "ak_creator_id x \<in> u_id ` set (td_users db)" using assms y w(1) by (simp add: integrity_def)
    show "ak_role_id x = Some r \<Longrightarrow> r \<in> r_id ` set (sv_roles db) \<and> r \<noteq> k"
      using assms y w(2) [of y r] unfolding integrity_def by blast
  qed
  have i2: "integrity ?db2"
  proof (rule integrity_keys [OF i1])
    show "distinct (map ak_id ?ks)" "distinct (map ak_key_hash ?ks)"
      unfolding same using assms by (simp_all add: integrity_def)
  qed (use key in simp_all)
  have "integrity (?db2\<lparr>sv_roles := filter (\<lambda>r. r_id r \<noteq> k) (sv_roles db)\<rparr>)"
  proof (rule integrity_roles [OF i2])
    show "distinct (map r_id (filter (\<lambda>r. r_id r \<noteq> k) (sv_roles db)))"
      "distinct (map r_name (filter (\<lambda>r. r_id r \<noteq> k) (sv_roles db)))"
      using assms by (simp_all add: integrity_def distinct_map_filter)
    show "ur_role_id l \<in> r_id ` set (filter (\<lambda>r. r_id r \<noteq> k) (sv_roles db))" if "l \<in> set (sv_user_roles ?db2)" for l
      using that assms by (intro left) (simp_all add: integrity_def)
    show "r \<in> r_id ` set (filter (\<lambda>r. r_id r \<noteq> k) (sv_roles db))"
      if "x \<in> set (td_api_keys ?db2)" "ak_role_id x = Some r" for x r
      using that key(2) [of x r] by (intro left) simp_all
  qed
  then show ?thesis by (simp add: cascade_role_def)
qed

lemma integrity_user_roles:
  assumes "integrity db" "user_role_violations db l = []"
  shows "integrity (db\<lparr>sv_user_roles := sv_user_roles db @ [l]\<rparr>)"
  using assms unfolding integrity_def user_role_violations_Nil by simp

interpretation role_service: governed_service role_attrs r_id VUuid "\<lambda>r. unsaved (role_attrs r)" sv_roles
    "\<lambda>db f r. in_scope (se_ev env) (sql_tables db) f (role_attrs r)" integrity
    "create_role env" "update_role env" "delete_role env" for env
proof (unfold_locales, goal_cases)
  case (1 db)
  then show ?case by (simp add: integrity_def)
next
  case (2 db i f p r db')
  then show ?case using create_role_Inr [OF 2(2)] integrity_add_role [OF 2(1)]
    by (auto simp: role_violations_Nil)
next
  case (3 db f k u r db')
  from update_role_Inr [OF this] obtain r0 where r0: "r0 \<in> set (sv_roles db)" "r_id r0 = k" "r_id r = k"
    "in_scope (se_ev env) (sql_tables db) f (role_attrs r0)" "db' = set_role db r"
    "r = r0 \<or> role_violations (filter (\<lambda>x. r_id x \<noteq> k) (sv_roles db)) r = []" by blast
  have "integrity db'" using integrity_set_role [OF 3(1) r0(1), of r] r0 by simp
  then show ?case using r0 by (auto simp: set_role_def)
next
  case (4 db f k db')
  then show ?case using delete_role_Inr [OF 4] integrity_cascade_role [OF 4(1)] by (auto simp: cascade_role_def)
qed

interpretation user_role_service: governed_service user_role_attrs ur_id VUuid "\<lambda>r. unsaved (user_role_attrs r)" sv_user_roles
    "\<lambda>db f l. in_scope (se_ev env) (sql_tables db) f (user_role_attrs l)" integrity
    "create_user_role env" no_update "delete_user_role env" for env
proof (unfold_locales, goal_cases)
  case (1 db)
  then show ?case by (simp add: integrity_def)
next
  case (2 db i f p r db')
  then show ?case using create_user_role_Inr [OF 2(2)] integrity_user_roles [OF 2(1)]
    by (auto simp: user_role_violations_Nil)
next
  case (3 db f k u r db')
  then show ?case by (simp add: no_update_def)
next
  case (4 db f k db')
  then show ?case using delete_user_role_Inr [OF 4] integrity_drop_user_role [OF 4(1)] by auto
qed

end
