(* ===== verification/GroupService.thy ===== *)
theory GroupService
  imports RoleService
begin

text \<open>
  \<open>group/group_service.py\<close>: groups and the immutable memberships, both attributed to the
  authenticated principal.
\<close>

section \<open>Groups\<close>

record group_create =
  gc_name :: string
  gc_description :: "string option"

record group_update =
  gup_name :: "string option"
  gup_description :: "string option"

definition new_group :: "'y svc_env_scheme \<Rightarrow> nat \<Rightarrow> uuid \<Rightarrow> group_create \<Rightarrow> group" where
  "new_group env i creator payload =
     \<lparr>g_id = se_uuid env i, g_name = gc_name payload, g_creator_id = creator,
      g_description = gc_description payload, g_created_at = se_now env, g_updated_at = se_now env\<rparr>"

definition group_violations :: "'z svc_db_scheme \<Rightarrow> group list \<Rightarrow> group \<Rightarrow> violation list" where
  "group_violations db others g =
     (if g_id g \<in> g_id ` set others then [UniqueViolation ''groups'' ''groups_pkey'' (uuid_str (g_id g))] else []) @
     (if g_creator_id g \<notin> u_id ` set (td_users db)
      then [ForeignKeyViolation ''groups'' ''fk_groups_creator_id_users'' (uuid_str (g_creator_id g))] else [])"

text \<open>\<open>_classify_group_integrity_error\<close>: every integrity error becomes a scope error.\<close>

definition classify_group_error :: "string \<Rightarrow> svc_error" where
  "classify_group_error message = PermissionScopeError"

definition create_group ::
    "'y svc_env_scheme \<Rightarrow> uuid \<Rightarrow> nat \<Rightarrow> sfilter \<Rightarrow> group_create \<Rightarrow> 'z svc_db_scheme \<Rightarrow>
     svc_error + group \<times> 'z svc_db_scheme" where
  "create_group env creator i perm_filter payload db =
     (let g = new_group env i creator payload
      in bindR (check_scope perm_filter (group_attrs g)) (\<lambda>_.
         catch_integrity classify_group_error
           (flush_rows env (group_violations db (sv_groups db) g)
              (g, db\<lparr>sv_groups := sv_groups db @ [g]\<rparr>))))"

definition get_group :: "'y svc_env_scheme \<Rightarrow> sfilter \<Rightarrow> uuid \<Rightarrow> 'z svc_db_scheme \<Rightarrow> svc_error + group" where
  "get_group env perm_filter k db =
     scoped_get (se_ev env) (sql_tables db) perm_filter group_attrs g_id (sv_groups db) k"

definition get_many_groups ::
    "'y svc_env_scheme \<Rightarrow> sfilter \<Rightarrow> uuid list \<Rightarrow> 'z svc_db_scheme \<Rightarrow> svc_error + group option list" where
  "get_many_groups env perm_filter ids db =
     scoped_get_many (se_ev env) (sql_tables db) perm_filter group_attrs g_id (sv_groups db) ids"

definition search_groups ::
    "'y svc_env_scheme \<Rightarrow> sfilter \<Rightarrow> 'z svc_db_scheme \<Rightarrow> uuid option \<Rightarrow> nat \<Rightarrow> sfilter option \<Rightarrow>
     svc_error + group list \<times> uuid option" where
  "search_groups env perm_filter db cursor limit search_filter =
     scoped_search (se_ev env) (sql_tables db) perm_filter group_attrs g_id (sv_groups db) cursor limit search_filter"

definition count_groups ::
    "'y svc_env_scheme \<Rightarrow> sfilter \<Rightarrow> 'z svc_db_scheme \<Rightarrow> sfilter option \<Rightarrow> svc_error + nat" where
  "count_groups env perm_filter db search_filter =
     scoped_count (se_ev env) (sql_tables db) perm_filter group_attrs (sv_groups db) search_filter"

definition set_group :: "'z svc_db_scheme \<Rightarrow> group \<Rightarrow> 'z svc_db_scheme" where
  "set_group db g = db\<lparr>sv_groups := map (\<lambda>x. if g_id x = g_id g then g else x) (sv_groups db)\<rparr>"

definition update_group ::
    "'y svc_env_scheme \<Rightarrow> sfilter \<Rightarrow> uuid \<Rightarrow> group_update \<Rightarrow> 'z svc_db_scheme \<Rightarrow>
     svc_error + group \<times> 'z svc_db_scheme" where
  "update_group env perm_filter k payload db =
     bindR (get_group env perm_filter k db) (\<lambda>group.
       let g = set_if (gup_description payload) (\<lambda>d x. x\<lparr>g_description := Some d\<rparr>)
              (set_if (gup_name payload) (\<lambda>n x. x\<lparr>g_name := n\<rparr>) group)
       in if g = group then Inr (group, db)
          else
            let g' = g\<lparr>g_updated_at := se_now env\<rparr> in
            catch_integrity classify_group_error
              (flush_rows env (group_violations db (filter (\<lambda>x. g_id x \<noteq> k) (sv_groups db)) g') (g', set_group db g')))"

definition delete_group ::
    "'y svc_env_scheme \<Rightarrow> sfilter \<Rightarrow> uuid \<Rightarrow> 'z svc_db_scheme \<Rightarrow> svc_error + 'z svc_db_scheme" where
  "delete_group env perm_filter k db =
     bindR (get_group env perm_filter k db) (\<lambda>group. Inr (cascade_group db k))"

definition apply_group_batch ::
    "'y svc_env_scheme \<Rightarrow> uuid \<Rightarrow> (uuid, group_create, group_update) batch_op list \<Rightarrow> (action \<Rightarrow> sfilter option) \<Rightarrow>
     'z svc_db_scheme \<Rightarrow> svc_error + group option list \<times> 'z svc_db_scheme" where
  "apply_group_batch env creator operations perm_filters db =
     batch_loop (create_group env creator) (update_group env) (delete_group env) perm_filters 0 operations db"

section \<open>Memberships\<close>

definition new_group_user :: "'y svc_env_scheme \<Rightarrow> nat \<Rightarrow> uuid \<Rightarrow> uuid \<Rightarrow> uuid \<Rightarrow> group_user" where
  "new_group_user env i creator group_id user_id =
     \<lparr>gu_id = se_uuid env i, gu_group_id = group_id, gu_user_id = user_id, gu_creator_id = creator,
      gu_created_at = se_now env\<rparr>"

definition group_user_violations :: "'z svc_db_scheme \<Rightarrow> group_user \<Rightarrow> violation list" where
  "group_user_violations db m =
     (if gu_id m \<in> gu_id ` set (sv_group_users db)
      then [UniqueViolation ''group_users'' ''group_users_pkey'' (uuid_str (gu_id m))] else []) @
     (if (gu_group_id m, gu_user_id m) \<in> (\<lambda>x. (gu_group_id x, gu_user_id x)) ` set (sv_group_users db)
      then [UniqueViolation ''group_users'' ''uq_group_users_group_id_user_id''
              (uuid_str (gu_group_id m) @ '', '' @ uuid_str (gu_user_id m))] else []) @
     (if gu_group_id m \<notin> g_id ` set (sv_groups db)
      then [ForeignKeyViolation ''group_users'' ''fk_group_users_group_id_groups'' (uuid_str (gu_group_id m))] else []) @
     (if gu_user_id m \<notin> u_id ` set (td_users db)
      then [ForeignKeyViolation ''group_users'' ''fk_group_users_user_id_users'' (uuid_str (gu_user_id m))] else []) @
     (if gu_creator_id m \<notin> u_id ` set (td_users db)
      then [ForeignKeyViolation ''group_users'' ''fk_group_users_creator_id_users'' (uuid_str (gu_creator_id m))] else [])"

definition classify_group_user_error :: "uuid \<Rightarrow> uuid \<Rightarrow> string \<Rightarrow> svc_error" where
  "classify_group_user_error group_id user_id message0 =
     (let message = lower message0 in
      if sublist ''uq_group_users_group_id_user_id'' message \<or>
         sublist ''unique constraint'' message \<and> sublist ''group_users'' message
      then ConflictError (uuid_str group_id @ ''/'' @ uuid_str user_id)
      else if sublist ''foreign key'' message \<or> sublist ''fk_'' message
      then (if sublist ''user_id'' message \<and> \<not> sublist ''group_id'' message
            then OrphanError (''user '' @ uuid_str user_id @ '' does not exist'')
            else OrphanError (''group '' @ uuid_str group_id @ '' does not exist''))
      else ConflictError (uuid_str group_id @ ''/'' @ uuid_str user_id))"

definition create_group_user ::
    "'y svc_env_scheme \<Rightarrow> uuid \<Rightarrow> nat \<Rightarrow> sfilter \<Rightarrow> uuid \<times> uuid \<Rightarrow> 'z svc_db_scheme \<Rightarrow>
     svc_error + group_user \<times> 'z svc_db_scheme" where
  "create_group_user env creator i perm_filter ids db =
     (case ids of (group_id, user_id) \<Rightarrow>
        let m = new_group_user env i creator group_id user_id
        in bindR (check_scope perm_filter (group_user_attrs m)) (\<lambda>_.
           catch_integrity (classify_group_user_error group_id user_id)
             (flush_rows env (group_user_violations db m)
                (m, db\<lparr>sv_group_users := sv_group_users db @ [m]\<rparr>))))"

definition get_group_user :: "'y svc_env_scheme \<Rightarrow> sfilter \<Rightarrow> uuid \<Rightarrow> 'z svc_db_scheme \<Rightarrow> svc_error + group_user" where
  "get_group_user env perm_filter k db =
     scoped_get (se_ev env) (sql_tables db) perm_filter group_user_attrs gu_id (sv_group_users db) k"

definition get_many_group_users ::
    "'y svc_env_scheme \<Rightarrow> sfilter \<Rightarrow> uuid list \<Rightarrow> 'z svc_db_scheme \<Rightarrow> svc_error + group_user option list" where
  "get_many_group_users env perm_filter ids db =
     scoped_get_many (se_ev env) (sql_tables db) perm_filter group_user_attrs gu_id (sv_group_users db) ids"

definition search_group_users ::
    "'y svc_env_scheme \<Rightarrow> sfilter \<Rightarrow> 'z svc_db_scheme \<Rightarrow> uuid option \<Rightarrow> nat \<Rightarrow> sfilter option \<Rightarrow>
     svc_error + group_user list \<times> uuid option" where
  "search_group_users env perm_filter db cursor limit search_filter =
     scoped_search (se_ev env) (sql_tables db) perm_filter group_user_attrs gu_id (sv_group_users db)
       cursor limit search_filter"

definition count_group_users ::
    "'y svc_env_scheme \<Rightarrow> sfilter \<Rightarrow> 'z svc_db_scheme \<Rightarrow> sfilter option \<Rightarrow> svc_error + nat" where
  "count_group_users env perm_filter db search_filter =
     scoped_count (se_ev env) (sql_tables db) perm_filter group_user_attrs (sv_group_users db) search_filter"

definition delete_group_user ::
    "'y svc_env_scheme \<Rightarrow> sfilter \<Rightarrow> uuid \<Rightarrow> 'z svc_db_scheme \<Rightarrow> svc_error + 'z svc_db_scheme" where
  "delete_group_user env perm_filter k db =
     bindR (get_group_user env perm_filter k db) (\<lambda>m.
       Inr (db\<lparr>sv_group_users := filter (\<lambda>x. gu_id x \<noteq> k) (sv_group_users db)\<rparr>))"

definition apply_group_user_batch ::
    "'y svc_env_scheme \<Rightarrow> uuid \<Rightarrow> (uuid, uuid \<times> uuid, unit) batch_op list \<Rightarrow> (action \<Rightarrow> sfilter option) \<Rightarrow>
     'z svc_db_scheme \<Rightarrow> svc_error + group_user option list \<times> 'z svc_db_scheme" where
  "apply_group_user_batch env creator operations perm_filters db =
     batch_loop (create_group_user env creator) no_update (delete_group_user env) perm_filters 0 operations db"

section \<open>Laws\<close>

lemma group_attrs_id [simp]: "group_attrs g ''id'' = VUuid (g_id g)"
  by (simp add: group_attrs_def)

lemma group_user_attrs_id [simp]: "group_user_attrs m ''id'' = VUuid (gu_id m)"
  by (simp add: group_user_attrs_def)

interpretation group_table: governed_table group_attrs g_id VUuid
  by unfold_locales simp

interpretation group_user_table: governed_table group_user_attrs gu_id VUuid
  by unfold_locales simp

lemma group_violations_Nil:
  "group_violations db others g = [] \<longleftrightarrow> g_id g \<notin> g_id ` set others \<and> g_creator_id g \<in> u_id ` set (td_users db)"
  by (simp add: group_violations_def)

lemma group_user_violations_Nil:
  "group_user_violations db m = [] \<longleftrightarrow> gu_id m \<notin> gu_id ` set (sv_group_users db) \<and>
     (gu_group_id m, gu_user_id m) \<notin> (\<lambda>x. (gu_group_id x, gu_user_id x)) ` set (sv_group_users db) \<and>
     gu_group_id m \<in> g_id ` set (sv_groups db) \<and> gu_user_id m \<in> u_id ` set (td_users db) \<and>
     gu_creator_id m \<in> u_id ` set (td_users db)"
  by (simp add: group_user_violations_def)

lemma create_group_Inr:
  assumes "create_group env creator i f p db = Inr (g, db')"
  shows "db' = db\<lparr>sv_groups := sv_groups db @ [g]\<rparr> \<and> group_violations db (sv_groups db) g = [] \<and>
    matches f (plain_item (unsaved (group_attrs g))) = Inr True \<and> g = new_group env i creator p"
  using assms by (auto simp: create_group_def Let_def bindR_Inr_iff flush_Inr_iff)

lemma create_group_user_Inr:
  assumes "create_group_user env creator i f ids db = Inr (m, db')"
  shows "db' = db\<lparr>sv_group_users := sv_group_users db @ [m]\<rparr> \<and> group_user_violations db m = [] \<and>
    matches f (plain_item (unsaved (group_user_attrs m))) = Inr True \<and>
    m = new_group_user env i creator (fst ids) (snd ids)"
  using assms by (auto simp: create_group_user_def Let_def bindR_Inr_iff flush_Inr_iff split: prod.split_asm)

lemma update_group_Inr:
  assumes "integrity db" "update_group env f k p db = Inr (g, db')"
  shows "\<exists>g0 \<in> set (sv_groups db). g_id g0 = k \<and> g_id g = k \<and> g_creator_id g = g_creator_id g0 \<and>
    in_scope (se_ev env) (sql_tables db) f (group_attrs g0) \<and> db' = set_group db g"
proof -
  have d: "distinct (map g_id (sv_groups db))" using assms(1) by (simp add: integrity_def)
  obtain g0 where g: "get_group env f k db = Inr g0"
    using assms(2) by (auto simp: update_group_def elim!: bindR_InrE)
  then have g0: "g0 \<in> set (sv_groups db)" "g_id g0 = k" "in_scope (se_ev env) (sql_tables db) f (group_attrs g0)"
    by (simp_all add: get_group_def group_table.get_Inr_iff [OF d])
  have same: "set_group db g0 = db" using replace_self [OF d g0(1)] by (simp add: set_group_def)
  show ?thesis using assms(2) same g0
    by (intro bexI [of _ g0])
      (auto simp: update_group_def g Let_def flush_Inr_iff set_if_def split: if_split_asm option.split_asm)
qed

lemma delete_group_Inr:
  assumes "integrity db" "delete_group env f k db = Inr db'"
  shows "db' = cascade_group db k \<and> (\<exists>g0 \<in> set (sv_groups db). g_id g0 = k \<and>
    in_scope (se_ev env) (sql_tables db) f (group_attrs g0))"
proof -
  have d: "distinct (map g_id (sv_groups db))" using assms(1) by (simp add: integrity_def)
  show ?thesis using assms(2) by (auto simp: delete_group_def get_group_def group_table.get_Inr_iff [OF d] elim!: bindR_InrE)
qed

lemma delete_group_user_Inr:
  assumes "integrity db" "delete_group_user env f k db = Inr db'"
  shows "db' = db\<lparr>sv_group_users := filter (\<lambda>x. gu_id x \<noteq> k) (sv_group_users db)\<rparr> \<and>
    (\<exists>m \<in> set (sv_group_users db). gu_id m = k \<and> in_scope (se_ev env) (sql_tables db) f (group_user_attrs m))"
proof -
  have d: "distinct (map gu_id (sv_group_users db))" using assms(1) by (simp add: integrity_def)
  show ?thesis using assms(2)
    by (auto simp: delete_group_user_def get_group_user_def group_user_table.get_Inr_iff [OF d] elim!: bindR_InrE)
qed

lemma integrity_groups:
  assumes "integrity db" "distinct (map g_id gs)"
    "\<And>g. g \<in> set gs \<Longrightarrow> g_creator_id g \<in> u_id ` set (td_users db)"
    "\<And>m. m \<in> set (sv_group_users db) \<Longrightarrow> gu_group_id m \<in> g_id ` set gs"
  shows "integrity (db\<lparr>sv_groups := gs\<rparr>)"
  using assms unfolding integrity_def by simp

lemma integrity_add_group:
  assumes "integrity db" "group_violations db (sv_groups db) g = []"
  shows "integrity (db\<lparr>sv_groups := sv_groups db @ [g]\<rparr>)"
  by (rule integrity_groups) (use assms in \<open>auto simp: integrity_def group_violations_Nil\<close>)

lemma integrity_set_group:
  assumes "integrity db" "g0 \<in> set (sv_groups db)" "g_id g = g_id g0" "g_creator_id g = g_creator_id g0"
  shows "integrity (set_group db g)"
proof -
  let ?gs = "map (\<lambda>x. if g_id x = g_id g then g else x) (sv_groups db)"
  have ids: "map g_id ?gs = map g_id (sv_groups db)" by auto
  have "set (map g_id ?gs) = set (map g_id (sv_groups db))" by (simp only: ids)
  then have set_ids: "g_id ` set ?gs = g_id ` set (sv_groups db)" by (simp only: set_map)
  have "integrity (db\<lparr>sv_groups := ?gs\<rparr>)"
  proof (rule integrity_groups [OF assms(1)])
    show "distinct (map g_id ?gs)" unfolding ids using assms(1) by (simp add: integrity_def)
    show "g_creator_id x \<in> u_id ` set (td_users db)" if "x \<in> set ?gs" for x
      using that assms by (auto simp: integrity_def split: if_splits)
    show "gu_group_id m \<in> g_id ` set ?gs" if "m \<in> set (sv_group_users db)" for m
      unfolding set_ids using assms(1) that by (simp add: integrity_def)
  qed
  then show ?thesis by (simp add: set_group_def)
qed

lemma integrity_drop_group_user:
  "integrity db \<Longrightarrow> integrity (db\<lparr>sv_group_users := filter P (sv_group_users db)\<rparr>)"
  unfolding integrity_def by (simp add: distinct_map_filter)

lemma integrity_add_group_user:
  assumes "integrity db" "group_user_violations db m = []"
  shows "integrity (db\<lparr>sv_group_users := sv_group_users db @ [m]\<rparr>)"
  using assms unfolding integrity_def group_user_violations_Nil by simp

lemma integrity_cascade_group:
  assumes "integrity db"
  shows "integrity (cascade_group db k)"
proof -
  let ?db1 = "db\<lparr>sv_group_users := filter (\<lambda>m. gu_group_id m \<noteq> k) (sv_group_users db)\<rparr>"
  have i1: "integrity ?db1" by (rule integrity_drop_group_user [OF assms])
  have "integrity (?db1\<lparr>sv_groups := filter (\<lambda>g. g_id g \<noteq> k) (sv_groups db)\<rparr>)"
  proof (rule integrity_groups [OF i1])
    show "gu_group_id m \<in> g_id ` set (filter (\<lambda>g. g_id g \<noteq> k) (sv_groups db))"
      if "m \<in> set (sv_group_users ?db1)" for m
    proof -
      have "gu_group_id m \<in> g_id ` set (sv_groups db)" "gu_group_id m \<noteq> k"
        using that assms by (simp_all add: integrity_def)
      then show ?thesis by auto
    qed
  qed (use assms in \<open>simp_all add: integrity_def distinct_map_filter\<close>)
  then show ?thesis by (simp add: cascade_group_def)
qed

interpretation group_service: governed_service group_attrs g_id VUuid "\<lambda>r. unsaved (group_attrs r)" sv_groups
    "\<lambda>db f g. in_scope (se_ev env) (sql_tables db) f (group_attrs g)" integrity
    "create_group env creator" "update_group env" "delete_group env" for env creator
proof (unfold_locales, goal_cases)
  case (1 db)
  then show ?case by (simp add: integrity_def)
next
  case (2 db i f p g db')
  then show ?case using create_group_Inr [OF 2(2)] integrity_add_group [OF 2(1)]
    by (auto simp: group_violations_Nil)
next
  case (3 db f k u g db')
  from update_group_Inr [OF this] obtain g0 where g0: "g0 \<in> set (sv_groups db)" "g_id g0 = k" "g_id g = k"
    "g_creator_id g = g_creator_id g0" "in_scope (se_ev env) (sql_tables db) f (group_attrs g0)" "db' = set_group db g"
    by blast
  have "integrity db'" using integrity_set_group [OF 3(1) g0(1), of g] g0 by simp
  then show ?case using g0 by (auto simp: set_group_def)
next
  case (4 db f k db')
  then show ?case using delete_group_Inr [OF 4] integrity_cascade_group [OF 4(1)] by (auto simp: cascade_group_def)
qed

interpretation group_user_service: governed_service group_user_attrs gu_id VUuid "\<lambda>r. unsaved (group_user_attrs r)" sv_group_users
    "\<lambda>db f m. in_scope (se_ev env) (sql_tables db) f (group_user_attrs m)" integrity
    "create_group_user env creator" no_update "delete_group_user env" for env creator
proof (unfold_locales, goal_cases)
  case (1 db)
  then show ?case by (simp add: integrity_def)
next
  case (2 db i f p m db')
  then show ?case using create_group_user_Inr [OF 2(2)] integrity_add_group_user [OF 2(1)]
    by (auto simp: group_user_violations_Nil)
next
  case (3 db f k u m db')
  then show ?case by (simp add: no_update_def)
next
  case (4 db f k db')
  then show ?case using delete_group_user_Inr [OF 4] integrity_drop_group_user [OF 4(1)] by auto
qed

end
