(* ===== verification/ApiKeyService.thy ===== *)
theory ApiKeyService
  imports GroupService
begin

text \<open>
  \<open>api_key/api_key_service.py\<close>: the CRUD surface of API keys over the token service that mints
  them.
\<close>

section \<open>Operations\<close>

record api_key_create =
  kc_name :: "string option"
  kc_enabled :: bool
  kc_expires_at :: "datetime option"
  kc_role_id :: "uuid option"

record api_key_update =
  ku_name :: "string option"
  ku_enabled :: "bool option"
  ku_expires_at :: "datetime option"
  ku_role_id :: "uuid option"

text \<open>The prospective key: the secret values are placeholders and nothing is saved yet.\<close>

definition key_draft :: "api_key \<Rightarrow> row" where
  "key_draft k a =
     (if a \<in> {''key_hash'', ''prefix''} then VStr ''placeholder'' else unsaved (api_key_attrs k) a)"

definition prospective_key :: "uuid \<Rightarrow> api_key_create \<Rightarrow> row" where
  "prospective_key creator payload =
     key_draft \<lparr>ak_id = 0, ak_key_hash = '''', ak_prefix = '''', ak_creator_id = creator,
       ak_name = kc_name payload, ak_enabled = kc_enabled payload, ak_role_id = kc_role_id payload,
       ak_system = False, ak_expires_at = kc_expires_at payload, ak_created_at = 0, ak_updated_at = 0\<rparr>"

text \<open>The foreign keys of a key; a violation surfaces as an \<open>IntegrityError\<close> that nothing catches.\<close>

definition key_references :: "'z svc_db_scheme \<Rightarrow> uuid \<Rightarrow> uuid option \<Rightarrow> bool" where
  "key_references db creator role_id =
     (creator \<in> u_id ` set (td_users db) \<and>
      (case role_id of None \<Rightarrow> True | Some r \<Rightarrow> r \<in> r_id ` set (sv_roles db)))"

definition create_key ::
    "'y svc_env_scheme \<Rightarrow> uuid \<Rightarrow> nat \<Rightarrow> sfilter \<Rightarrow> api_key_create \<Rightarrow> 'z svc_db_scheme \<Rightarrow>
     svc_error + string \<times> api_key \<times> 'z svc_db_scheme" where
  "create_key env creator i perm_filter payload db =
     bindR (svc_py (matches perm_filter (plain_item (prospective_key creator payload)))) (\<lambda>ok.
       if \<not> ok then Inl PermissionScopeError
       else if \<not> key_references db creator (kc_role_id payload) then Inl (IntegrityErr ''foreign key'')
       else
         (case create_api_key (se_crypto env) db (se_now env) (se_uuid env i) (se_bytes env i) creator
                 (kc_name payload) (kc_enabled payload) (kc_expires_at payload) (kc_role_id payload) False of
            Inl _ \<Rightarrow> Inl (IntegrityErr ''unique'')
          | Inr (raw_key, row, db') \<Rightarrow>
              bindR (svc_py (matches perm_filter (plain_item (api_key_attrs row)))) (\<lambda>ok2.
                if ok2 then Inr (raw_key, row, db') else Inl PermissionScopeError)))"

definition get_key :: "'y svc_env_scheme \<Rightarrow> sfilter \<Rightarrow> uuid \<Rightarrow> 'z svc_db_scheme \<Rightarrow> svc_error + api_key" where
  "get_key env perm_filter k db =
     scoped_get (se_ev env) (sql_tables db) perm_filter api_key_attrs ak_id (td_api_keys db) k"

definition get_many_keys ::
    "'y svc_env_scheme \<Rightarrow> sfilter \<Rightarrow> uuid list \<Rightarrow> 'z svc_db_scheme \<Rightarrow> svc_error + api_key option list" where
  "get_many_keys env perm_filter ids db =
     scoped_get_many (se_ev env) (sql_tables db) perm_filter api_key_attrs ak_id (td_api_keys db) ids"

definition search_keys ::
    "'y svc_env_scheme \<Rightarrow> sfilter \<Rightarrow> 'z svc_db_scheme \<Rightarrow> uuid option \<Rightarrow> nat \<Rightarrow> sfilter option \<Rightarrow>
     svc_error + api_key list \<times> uuid option" where
  "search_keys env perm_filter db cursor limit search_filter =
     scoped_search (se_ev env) (sql_tables db) perm_filter api_key_attrs ak_id (td_api_keys db) cursor limit search_filter"

definition count_keys ::
    "'y svc_env_scheme \<Rightarrow> sfilter \<Rightarrow> 'z svc_db_scheme \<Rightarrow> sfilter option \<Rightarrow> svc_error + nat" where
  "count_keys env perm_filter db search_filter =
     scoped_count (se_ev env) (sql_tables db) perm_filter api_key_attrs (td_api_keys db) search_filter"

definition set_key :: "'z svc_db_scheme \<Rightarrow> api_key \<Rightarrow> 'z svc_db_scheme" where
  "set_key db k = db\<lparr>td_api_keys := map (\<lambda>x. if ak_id x = ak_id k then k else x) (td_api_keys db)\<rparr>"

definition update_key ::
    "'y svc_env_scheme \<Rightarrow> sfilter \<Rightarrow> uuid \<Rightarrow> api_key_update \<Rightarrow> 'z svc_db_scheme \<Rightarrow>
     svc_error + api_key \<times> 'z svc_db_scheme" where
  "update_key env perm_filter kid payload db =
     bindR (get_key env perm_filter kid db) (\<lambda>api_key.
       let k = set_if (ku_role_id payload) (\<lambda>r x. x\<lparr>ak_role_id := Some r\<rparr>)
              (set_if (ku_expires_at payload) (\<lambda>t x. x\<lparr>ak_expires_at := Some t\<rparr>)
              (set_if (ku_enabled payload) (\<lambda>b x. x\<lparr>ak_enabled := b\<rparr>)
              (set_if (ku_name payload) (\<lambda>n x. x\<lparr>ak_name := Some n\<rparr>) api_key)))
       in if k = api_key then Inr (api_key, db)
          else if \<not> key_references db (ak_creator_id k) (ak_role_id k) then Inl (IntegrityErr ''foreign key'')
          else let k' = k\<lparr>ak_updated_at := se_now env\<rparr> in Inr (k', set_key db k'))"

definition delete_key ::
    "'y svc_env_scheme \<Rightarrow> sfilter \<Rightarrow> uuid \<Rightarrow> 'z svc_db_scheme \<Rightarrow> svc_error + 'z svc_db_scheme" where
  "delete_key env perm_filter kid db =
     bindR (get_key env perm_filter kid db) (\<lambda>api_key.
       Inr (db\<lparr>td_api_keys := filter (\<lambda>x. ak_id x \<noteq> kid) (td_api_keys db)\<rparr>))"

text \<open>\<open>_batch_create\<close> discards the raw key.\<close>

definition batch_create_key ::
    "'y svc_env_scheme \<Rightarrow> uuid \<Rightarrow> nat \<Rightarrow> sfilter \<Rightarrow> api_key_create \<Rightarrow> 'z svc_db_scheme \<Rightarrow>
     svc_error + api_key \<times> 'z svc_db_scheme" where
  "batch_create_key env creator i perm_filter payload db =
     bindR (create_key env creator i perm_filter payload db) (\<lambda>(raw_key, row, db'). Inr (row, db'))"

definition apply_key_batch ::
    "'y svc_env_scheme \<Rightarrow> uuid \<Rightarrow> (uuid, api_key_create, api_key_update) batch_op list \<Rightarrow> (action \<Rightarrow> sfilter option) \<Rightarrow>
     'z svc_db_scheme \<Rightarrow> svc_error + api_key option list \<times> 'z svc_db_scheme" where
  "apply_key_batch env creator operations perm_filters db =
     batch_loop (batch_create_key env creator) (update_key env) (delete_key env) perm_filters 0 operations db"

section \<open>Laws\<close>

interpretation key_table: governed_table api_key_attrs ak_id VUuid
  by unfold_locales simp

lemma key_draft_eq:
  assumes "ak_creator_id k = creator" "ak_name k = kc_name p" "ak_enabled k = kc_enabled p"
    "ak_role_id k = kc_role_id p" "\<not> ak_system k" "ak_expires_at k = kc_expires_at p"
  shows "key_draft k = prospective_key creator p"
  using assms by (intro ext) (simp add: key_draft_def prospective_key_def unsaved_def api_key_attrs_def)

lemma create_key_Inr:
  assumes "create_key env creator i f p db = Inr (raw, k, db')"
  shows "create_api_key (se_crypto env) db (se_now env) (se_uuid env i) (se_bytes env i) creator
      (kc_name p) (kc_enabled p) (kc_expires_at p) (kc_role_id p) False = Inr (raw, k, db') \<and>
    matches f (plain_item (prospective_key creator p)) = Inr True \<and>
    matches f (plain_item (api_key_attrs k)) = Inr True \<and> key_references db creator (kc_role_id p)"
  using assms
  by (auto simp: create_key_def bindR_Inr_iff svc_py_Inr_iff split: if_split_asm sum.split_asm)

lemma created_key_shape:
  assumes "create_api_key C db now i bytes u n e x r s = Inr (raw, k, db')"
  shows "db' = db\<lparr>td_api_keys := td_api_keys db @ [k]\<rparr> \<and> ak_id k = i \<and> ak_creator_id k = u \<and> ak_name k = n \<and>
    ak_enabled k = e \<and> ak_expires_at k = x \<and> ak_role_id k = r \<and> ak_system k = s \<and>
    ak_id k \<notin> ak_id ` set (td_api_keys db) \<and> ak_key_hash k \<notin> ak_key_hash ` set (td_api_keys db)"
  using assms by (auto simp: create_api_key_def Let_def split: if_split_asm)

lemma update_key_Inr:
  assumes "integrity db" "update_key env f kid p db = Inr (k, db')"
  shows "\<exists>k0 \<in> set (td_api_keys db). ak_id k0 = kid \<and> ak_id k = kid \<and> ak_creator_id k = ak_creator_id k0 \<and>
    ak_key_hash k = ak_key_hash k0 \<and> ak_system k = ak_system k0 \<and>
    (ku_role_id p = None \<longrightarrow> ak_role_id k = ak_role_id k0) \<and> (ak_role_id k = None \<longrightarrow> ak_role_id k0 = None) \<and>
    in_scope (se_ev env) (sql_tables db) f (api_key_attrs k0) \<and> db' = set_key db k \<and>
    (k = k0 \<or> key_references db (ak_creator_id k) (ak_role_id k))"
proof -
  have d: "distinct (map ak_id (td_api_keys db))" using assms(1) by (simp add: integrity_def)
  obtain k0 where g: "get_key env f kid db = Inr k0"
    using assms(2) by (auto simp: update_key_def elim!: bindR_InrE)
  then have k0: "k0 \<in> set (td_api_keys db)" "ak_id k0 = kid" "in_scope (se_ev env) (sql_tables db) f (api_key_attrs k0)"
    by (simp_all add: get_key_def key_table.get_Inr_iff [OF d])
  have same: "set_key db k0 = db" using replace_self [OF d k0(1)] by (simp add: set_key_def)
  define v where "v = set_if (ku_role_id p) (\<lambda>r x. x\<lparr>ak_role_id := Some r\<rparr>)
              (set_if (ku_expires_at p) (\<lambda>t x. x\<lparr>ak_expires_at := Some t\<rparr>)
              (set_if (ku_enabled p) (\<lambda>b x. x\<lparr>ak_enabled := b\<rparr>)
              (set_if (ku_name p) (\<lambda>n x. x\<lparr>ak_name := Some n\<rparr>) k0)))"
  have v: "ak_id v = kid" "ak_creator_id v = ak_creator_id k0" "ak_key_hash v = ak_key_hash k0"
    "ak_system v = ak_system k0" "ku_role_id p = None \<longrightarrow> ak_role_id v = ak_role_id k0"
    "ak_role_id v = None \<longrightarrow> ak_role_id k0 = None"
    by (simp_all add: v_def set_if_def k0(2) split: option.split)
  have "(if v = k0 then Inr (k0, db)
      else if \<not> key_references db (ak_creator_id v) (ak_role_id v) then Inl (IntegrityErr ''foreign key'')
      else let k' = v\<lparr>ak_updated_at := se_now env\<rparr> in Inr (k', set_key db k')) = Inr (k, db')"
    using assms(2) unfolding update_key_def g bindR.simps Let_def v_def .
  then have "k = k0 \<and> db' = db \<or> k = v\<lparr>ak_updated_at := se_now env\<rparr> \<and> db' = set_key db k \<and>
      key_references db (ak_creator_id v) (ak_role_id v)"
    by (auto simp: Let_def split: if_split_asm)
  then show ?thesis using v k0 same by (intro bexI [of _ k0]) auto
qed

lemma delete_key_Inr:
  assumes "integrity db" "delete_key env f kid db = Inr db'"
  shows "db' = db\<lparr>td_api_keys := filter (\<lambda>x. ak_id x \<noteq> kid) (td_api_keys db)\<rparr> \<and>
    (\<exists>k0 \<in> set (td_api_keys db). ak_id k0 = kid \<and> in_scope (se_ev env) (sql_tables db) f (api_key_attrs k0))"
proof -
  have d: "distinct (map ak_id (td_api_keys db))" using assms(1) by (simp add: integrity_def)
  show ?thesis using assms(2) by (auto simp: delete_key_def get_key_def key_table.get_Inr_iff [OF d] elim!: bindR_InrE)
qed

lemma integrity_key_refs:
  assumes "integrity db" "k \<in> set (td_api_keys db)"
  shows "key_references db (ak_creator_id k) (ak_role_id k)"
  using assms by (auto simp: integrity_def key_references_def split: option.split)

lemma integrity_add_key:
  assumes "integrity db" "ak_id k \<notin> ak_id ` set (td_api_keys db)" "ak_key_hash k \<notin> ak_key_hash ` set (td_api_keys db)"
    "key_references db (ak_creator_id k) (ak_role_id k)"
  shows "integrity (db\<lparr>td_api_keys := td_api_keys db @ [k]\<rparr>)"
proof (rule integrity_keys [OF assms(1)])
  show "ak_creator_id x \<in> u_id ` set (td_users db)" if "x \<in> set (td_api_keys db @ [k])" for x
    using that assms(4) integrity_key_refs [OF assms(1), of x] by (auto simp: key_references_def)
  show "r \<in> r_id ` set (sv_roles db)" if "x \<in> set (td_api_keys db @ [k])" "ak_role_id x = Some r" for x r
    using that assms(4) integrity_key_refs [OF assms(1), of x] by (auto simp: key_references_def)
qed (use assms(1-3) in \<open>simp_all add: integrity_def\<close>)

lemma integrity_set_key:
  assumes "integrity db" "k0 \<in> set (td_api_keys db)" "ak_id k = ak_id k0" "ak_key_hash k = ak_key_hash k0"
    "key_references db (ak_creator_id k) (ak_role_id k)"
  shows "integrity (set_key db k)"
proof -
  let ?ks = "map (\<lambda>x. if ak_id x = ak_id k then k else x) (td_api_keys db)"
  have d: "distinct (map ak_id (td_api_keys db))" "distinct (map ak_key_hash (td_api_keys db))"
    using assms(1) by (simp_all add: integrity_def)
  have "x = k0" if "x \<in> set (td_api_keys db)" "ak_id x = ak_id k0" for x
    using that assms(2) d(1) by (auto simp: distinct_map dest: inj_onD)
  then have "distinct (map ak_key_hash ?ks)"
    using assms(3,4) by (intro distinct_replace [OF d(2)]) auto
  moreover have "distinct (map ak_id ?ks)" by (rule distinct_replace [OF d(1)]) simp
  moreover have "key_references db (ak_creator_id x) (ak_role_id x)" if "x \<in> set ?ks" for x
    using that assms(5) integrity_key_refs [OF assms(1)] by (auto split: if_splits)
  ultimately have "integrity (db\<lparr>td_api_keys := ?ks\<rparr>)"
    using assms(1) by (intro integrity_keys) (fastforce simp: key_references_def)+
  then show ?thesis by (simp add: set_key_def)
qed

lemma integrity_drop_keys:
  assumes "integrity db"
  shows "integrity (db\<lparr>td_api_keys := filter P (td_api_keys db)\<rparr>)"
  using assms by (intro integrity_keys) (auto simp: integrity_def distinct_map_filter)

interpretation key_service: governed_service api_key_attrs ak_id VUuid key_draft td_api_keys
    "\<lambda>db f k. in_scope (se_ev env) (sql_tables db) f (api_key_attrs k)" integrity
    "batch_create_key env creator" "update_key env" "delete_key env" for env creator
proof (unfold_locales, goal_cases)
  case (1 db)
  then show ?case by (simp add: integrity_def)
next
  case (2 db i f p k db')
  then obtain raw where c: "create_key env creator i f p db = Inr (raw, k, db')"
    by (auto simp: batch_create_key_def elim!: bindR_InrE split: prod.split_asm)
  note r = create_key_Inr [OF c]
  note s = created_key_shape [OF r [THEN conjunct1]]
  have "key_draft k = prospective_key creator p" using s by (intro key_draft_eq) auto
  then show ?case using r s integrity_add_key [OF 2(1), of k] by auto
next
  case (3 db f kid u k db')
  from update_key_Inr [OF this] obtain k0 where k0: "k0 \<in> set (td_api_keys db)" "ak_id k0 = kid" "ak_id k = kid"
    "ak_key_hash k = ak_key_hash k0" "in_scope (se_ev env) (sql_tables db) f (api_key_attrs k0)" "db' = set_key db k"
    "k = k0 \<or> key_references db (ak_creator_id k) (ak_role_id k)" by blast
  have "integrity db'"
    using integrity_set_key [OF 3(1) k0(1), of k] integrity_key_refs [OF 3(1) k0(1)] k0 by auto
  then show ?case using k0 by (auto simp: set_key_def)
next
  case (4 db f kid db')
  then show ?case using delete_key_Inr [OF 4] integrity_drop_keys [OF 4(1)] by auto
qed

end
