(* ===== verification/Calendar.thy ===== *)
theory Calendar
  imports Encoding
begin

text \<open>
  The part of Python's \<open>datetime\<close> module the daily partitions rest on: the proleptic Gregorian
  calendar as CPython computes it, \<open>strftime\<close> and \<open>strptime\<close> for \<open>%Y%m%d\<close>, and the day of a
  UTC timestamp in microseconds since 1970. Days are the ordinals of \<open>date.toordinal()\<close>.
\<close>

section \<open>Ordinals\<close>

definition is_leap :: "int \<Rightarrow> bool" where
  "is_leap year = (year mod 4 = 0 \<and> (year mod 100 \<noteq> 0 \<or> year mod 400 = 0))"

definition days_before_year :: "int \<Rightarrow> int" where
  "days_before_year year = (let y = year - 1 in y * 365 + y div 4 - y div 100 + y div 400)"

definition DAYS_IN_MONTH :: "int list" where
  "DAYS_IN_MONTH = [-1, 31, 28, 31, 30, 31, 30, 31, 31, 30, 31, 30, 31]"

definition DAYS_BEFORE_MONTH :: "int list" where
  "DAYS_BEFORE_MONTH = [-1, 0, 31, 59, 90, 120, 151, 181, 212, 243, 273, 304, 334]"

definition days_in_month :: "int \<Rightarrow> int \<Rightarrow> int" where
  "days_in_month year month =
     (if month = 2 \<and> is_leap year then 29 else DAYS_IN_MONTH ! nat month)"

definition days_before_month :: "int \<Rightarrow> int \<Rightarrow> int" where
  "days_before_month year month =
     DAYS_BEFORE_MONTH ! nat month + (if 2 < month \<and> is_leap year then 1 else 0)"

definition ymd2ord :: "int \<Rightarrow> int \<Rightarrow> int \<Rightarrow> int" where
  "ymd2ord year month day = days_before_year year + days_before_month year month + day"

text \<open>The month and day of the \<open>n\<close>-th day of a year, the estimate \<open>(n + 50) >> 5\<close> corrected once.\<close>

definition month_day :: "bool \<Rightarrow> int \<Rightarrow> int \<times> int" where
  "month_day leapyear n =
     (let month = (n + 50) div 32;
          preceding = DAYS_BEFORE_MONTH ! nat month + (if 2 < month \<and> leapyear then 1 else 0)
      in if n < preceding
         then let m = month - 1;
                  p = preceding - (DAYS_IN_MONTH ! nat m + (if m = 2 \<and> leapyear then 1 else 0))
              in (m, n - p + 1)
         else (month, n - preceding + 1))"

definition ord2ymd :: "int \<Rightarrow> int \<times> int \<times> int" where
  "ord2ymd ordinal =
     (let n = ordinal - 1;
          n400 = n div 146097; n = n mod 146097;
          n100 = n div 36524; n = n mod 36524;
          n4 = n div 1461; n = n mod 1461;
          n1 = n div 365; n = n mod 365;
          year = n400 * 400 + 1 + n100 * 100 + n4 * 4 + n1
      in if n1 = 4 \<or> n100 = 4 then (year - 1, 12, 31)
         else
           let leapyear = (n1 = 3 \<and> (n4 \<noteq> 24 \<or> n100 = 3));
               (month, day) = month_day leapyear n
           in (year, month, day))"

text \<open>\<open>datetime.date().toordinal()\<close> of a UTC timestamp.\<close>

definition day_of :: "datetime \<Rightarrow> int" where
  "day_of t = t div 86400000000 + 719163"

lemma day_of_add_days: "day_of (t + 86400000000 * n) = day_of t + n"
  by (simp add: day_of_def)

lemma day_of_mono: "s \<le> t \<Longrightarrow> day_of s \<le> day_of t"
  by (simp add: day_of_def zdiv_mono1)

section \<open>The calendar is a bijection\<close>

lemma month_day_correct:
  assumes "0 \<le> n" "n < 365" "month_day leapyear n = (m, d)"
  shows "1 \<le> m \<and> m \<le> 12 \<and> 1 \<le> d \<and> d \<le> (if m = 2 \<and> leapyear then 29 else DAYS_IN_MONTH ! nat m) \<and>
    DAYS_BEFORE_MONTH ! nat m + (if 2 < m \<and> leapyear then 1 else 0) + d = n + 1"
proof -
  define e where "e = (n + 50) div 32"
  have e: "32 * e \<le> n + 50" "n + 50 < 32 * e + 32" by (auto simp: e_def)
  then have "1 \<le> e" "e \<le> 12" using assms(1,2) by auto
  then have "e = 1 \<or> e = 2 \<or> e = 3 \<or> e = 4 \<or> e = 5 \<or> e = 6 \<or> e = 7 \<or> e = 8 \<or> e = 9 \<or> e = 10 \<or> e = 11 \<or> e = 12"
    by presburger
  then show ?thesis
    by (elim disjE) (use assms e in \<open>auto simp: month_day_def Let_def e_def [symmetric] DAYS_BEFORE_MONTH_def
      DAYS_IN_MONTH_def split: if_split_asm\<close>)
qed

text \<open>Splitting a day number into cycles of 400, 100, 4 and 1 years.\<close>

lemma year_of_cycles:
  fixes a b c d :: int
  assumes "0 \<le> a" "0 \<le> b" "b \<le> 3" "0 \<le> c" "c \<le> 24" "0 \<le> d" "d \<le> 3"
  shows "days_before_year (a * 400 + 1 + b * 100 + c * 4 + d) = 146097 * a + 36524 * b + 1461 * c + 365 * d"
    "is_leap (a * 400 + 1 + b * 100 + c * 4 + d) \<longleftrightarrow> d = 3 \<and> (c \<noteq> 24 \<or> b = 3)"
proof -
  let ?x = "a * 400 + b * 100 + c * 4 + d"
  have q: "?x div 4 = a * 100 + b * 25 + c" "?x div 100 = a * 4 + b" "?x div 400 = a" using assms by linarith+
  then show "days_before_year (a * 400 + 1 + b * 100 + c * 4 + d) = 146097 * a + 36524 * b + 1461 * c + 365 * d"
    by (simp add: days_before_year_def Let_def algebra_simps)
  have r: "?x mod 4 = d" "?x mod 100 = c * 4 + d" "?x mod 400 = b * 100 + c * 4 + d"
    using q by (simp_all add: minus_div_mult_eq_mod [symmetric])
  have next_zero: "(y + 1) mod k = 0 \<longleftrightarrow> y mod k = k - 1" if "1 < k" for y k :: int
    using that by (smt (verit) mod_add_left_eq mod_add_right_eq mod_pos_pos_trivial mod_self pos_mod_bound pos_mod_sign)
  have y: "a * 400 + 1 + b * 100 + c * 4 + d = ?x + 1" by simp
  have m: "(a * 400 + 1 + b * 100 + c * 4 + d) mod 4 = 0 \<longleftrightarrow> d = 3"
    "(a * 400 + 1 + b * 100 + c * 4 + d) mod 100 = 0 \<longleftrightarrow> c * 4 + d = 99"
    "(a * 400 + 1 + b * 100 + c * 4 + d) mod 400 = 0 \<longleftrightarrow> b * 100 + c * 4 + d = 399"
    unfolding y using next_zero [of 4 ?x] next_zero [of 100 ?x] next_zero [of 400 ?x] r by simp_all
  have "c * 4 + d = 99 \<longleftrightarrow> c = 24 \<and> d = 3" "b * 100 + c * 4 + d = 399 \<longleftrightarrow> b = 3 \<and> c = 24 \<and> d = 3"
    using assms by linarith+
  then show "is_leap (a * 400 + 1 + b * 100 + c * 4 + d) \<longleftrightarrow> d = 3 \<and> (c \<noteq> 24 \<or> b = 3)"
    unfolding is_leap_def m by blast
qed

lemma cycle_bounds:
  fixes n :: int
  assumes "0 \<le> n"
  defines "a \<equiv> n div 146097" and "b \<equiv> n mod 146097 div 36524" and "c \<equiv> n mod 146097 mod 36524 div 1461"
    and "d \<equiv> n mod 146097 mod 36524 mod 1461 div 365" and "r \<equiv> n mod 146097 mod 36524 mod 1461 mod 365"
  shows "n = 146097 * a + 36524 * b + 1461 * c + 365 * d + r" "0 \<le> a" "0 \<le> b" "b \<le> 4" "0 \<le> c" "c \<le> 24"
    "0 \<le> d" "d \<le> 4" "0 \<le> r" "r < 365" "b = 4 \<Longrightarrow> c = 0 \<and> d = 0 \<and> r = 0" "d = 4 \<Longrightarrow> r = 0 \<and> c \<noteq> 24"
proof -
  define r1 where "r1 = n mod 146097"
  define r2 where "r2 = r1 mod 36524"
  define r3 where "r3 = r2 mod 1461"
  have e: "n = 146097 * a + r1" "r1 = 36524 * b + r2" "r2 = 1461 * c + r3" "r3 = 365 * d + r"
    by (simp_all add: a_def b_def c_def d_def r_def r1_def r2_def r3_def)
  have l: "0 \<le> r1" "r1 < 146097" "0 \<le> r2" "r2 < 36524" "0 \<le> r3" "r3 < 1461" "0 \<le> r" "r < 365"
    by (simp_all add: r_def r1_def r2_def r3_def)
  show "0 \<le> a" using assms(1) by (simp add: a_def pos_imp_zdiv_nonneg_iff)
  show "0 \<le> b" using l(1) by (simp add: b_def r1_def [symmetric] pos_imp_zdiv_nonneg_iff)
  show "0 \<le> c" using l(3) by (simp add: c_def r1_def [symmetric] r2_def [symmetric] pos_imp_zdiv_nonneg_iff)
  show "0 \<le> d" using l(5) by (simp add: d_def r1_def [symmetric] r2_def [symmetric] r3_def [symmetric] pos_imp_zdiv_nonneg_iff)
  note s = \<open>0 \<le> b\<close> \<open>0 \<le> c\<close> \<open>0 \<le> d\<close>
  show "n = 146097 * a + 36524 * b + 1461 * c + 365 * d + r" using e by linarith
  show "b \<le> 4" "c \<le> 24" "d \<le> 4" using e l by linarith+
  show "0 \<le> r" "r < 365" by (rule l)+
  show "b = 4 \<Longrightarrow> c = 0 \<and> d = 0 \<and> r = 0" using e l s by (intro conjI) linarith+
  show "d = 4 \<Longrightarrow> r = 0 \<and> c \<noteq> 24" using e l s by (intro conjI) linarith+
qed

definition valid_date :: "int \<Rightarrow> int \<Rightarrow> int \<Rightarrow> bool" where
  "valid_date year month day =
     (1 \<le> year \<and> year \<le> 9999 \<and> 1 \<le> month \<and> month \<le> 12 \<and> 1 \<le> day \<and> day \<le> days_in_month year month)"

text \<open>\<open>toordinal\<close> undoes \<open>fromordinal\<close>.\<close>

lemma ord2ymd_correct:
  assumes "1 \<le> n" "ord2ymd n = (y, m, d)"
  shows "ymd2ord y m d = n \<and> 1 \<le> y \<and> 1 \<le> m \<and> m \<le> 12 \<and> 1 \<le> d \<and> d \<le> days_in_month y m"
proof -
  define a where "a = (n - 1) div 146097"
  define b where "b = (n - 1) mod 146097 div 36524"
  define c where "c = (n - 1) mod 146097 mod 36524 div 1461"
  define e where "e = (n - 1) mod 146097 mod 36524 mod 1461 div 365"
  define r where "r = (n - 1) mod 146097 mod 36524 mod 1461 mod 365"
  have "0 \<le> n - 1" using assms(1) by simp
  note k = cycle_bounds [OF this, folded a_def b_def c_def e_def r_def]
  have o: "(y, m, d) = (if e = 4 \<or> b = 4 then (a * 400 + 1 + b * 100 + c * 4 + e - 1, 12, 31)
      else case month_day (e = 3 \<and> (c \<noteq> 24 \<or> b = 3)) r of (m, d) \<Rightarrow> (a * 400 + 1 + b * 100 + c * 4 + e, m, d))"
    using assms(2) by (simp add: ord2ymd_def Let_def a_def b_def c_def e_def r_def split: prod.splits if_splits)
  show ?thesis
  proof (cases "e = 4 \<or> b = 4")
    case True
    then have y: "y = a * 400 + 1 + b * 100 + c * 4 + e - 1" "m = 12" "d = 31" using o by simp_all
    have "y = a * 400 + 1 + b * 100 + c * 4 + 3 \<and> e = 4 \<and> b \<le> 3 \<and> c \<noteq> 24 \<or>
        y = a * 400 + 1 + 3 * 100 + 24 * 4 + 3 \<and> b = 4"
    proof (cases "b = 4")
      case False
      then have "b \<le> 3" using k(4) by simp
      then show ?thesis using True False k(12) y(1) by auto
    qed (use k(11) y(1) in auto)
    then show ?thesis
    proof
      assume "y = a * 400 + 1 + b * 100 + c * 4 + 3 \<and> e = 4 \<and> b \<le> 3 \<and> c \<noteq> 24"
      then have y': "y = a * 400 + 1 + b * 100 + c * 4 + 3" "e = 4" "b \<le> 3" "c \<noteq> 24" by auto
      have "days_before_year y = 146097 * a + 36524 * b + 1461 * c + 365 * 3" "is_leap y"
        unfolding y'(1) using year_of_cycles [of a b c 3] k y'(3,4) by auto
      then show ?thesis using k y y'
        by (auto simp: ymd2ord_def days_before_month_def days_in_month_def DAYS_BEFORE_MONTH_def DAYS_IN_MONTH_def)
    next
      assume "y = a * 400 + 1 + 3 * 100 + 24 * 4 + 3 \<and> b = 4"
      then have y': "y = a * 400 + 1 + 3 * 100 + 24 * 4 + 3" "b = 4" by auto
      have "days_before_year y = 146097 * a + 36524 * 3 + 1461 * 24 + 365 * 3" "is_leap y"
        unfolding y'(1) using year_of_cycles [of a 3 24 3] k by auto
      then show ?thesis using k y y'
        by (auto simp: ymd2ord_def days_before_month_def days_in_month_def DAYS_BEFORE_MONTH_def DAYS_IN_MONTH_def)
    qed
  next
    case False
    then have b: "b \<le> 3" "e \<le> 3" using k by auto
    obtain m' d' where md: "month_day (e = 3 \<and> (c \<noteq> 24 \<or> b = 3)) r = (m', d')" by fastforce
    then have y: "y = a * 400 + 1 + b * 100 + c * 4 + e" "m = m'" "d = d'" using o False by simp_all
    have l: "days_before_year y = 146097 * a + 36524 * b + 1461 * c + 365 * e"
      "is_leap y \<longleftrightarrow> e = 3 \<and> (c \<noteq> 24 \<or> b = 3)"
      unfolding y(1) using year_of_cycles [of a b c e] k b by auto
    have "1 \<le> y" using k y(1) by simp
    then show ?thesis using month_day_correct [OF k(9,10) md] k(1) l y(2,3)
      by (auto simp: ymd2ord_def days_before_month_def days_in_month_def)
  qed
qed

section \<open>Dates as text\<close>

definition two_digits :: "int \<Rightarrow> string" where
  "two_digits i = [digit_char (nat (i div 10)), digit_char (nat (i mod 10))]"

text \<open>\<open>strftime("%Y%m%d")\<close>; the year is not padded.\<close>

definition strftime_ymd :: "int \<Rightarrow> string" where
  "strftime_ymd ordinal =
     (case ord2ymd ordinal of (year, month, day) \<Rightarrow> dec_of_int year @ two_digits month @ two_digits day)"

definition digit_value :: "char \<Rightarrow> int option" where
  "digit_value c =
     (let n = (of_char c :: nat) in if 48 \<le> n \<and> n \<le> 57 then Some (int n - 48) else None)"

text \<open>
  The regular expressions \<open>strptime\<close> builds: \<open>\d\d\d\d\<close> for the year, \<open>1[0-2]|0[1-9]|[1-9]\<close> for the
  month, \<open>3[0-1]|[1-2]\d|0[1-9]|[1-9]| [1-9]\<close> for the day; the ways to match, in order of
  preference, with the value and the rest of the string.
\<close>

fun year_part :: "string \<Rightarrow> (int \<times> string) option" where
  "year_part (a # b # c # d # rest) =
     (case (digit_value a, digit_value b, digit_value c, digit_value d) of
        (Some p, Some q, Some r, Some s) \<Rightarrow> Some (1000 * p + 100 * q + 10 * r + s, rest)
      | _ \<Rightarrow> None)"
| "year_part _ = None"

definition pair_alt :: "int set \<Rightarrow> int set \<Rightarrow> string \<Rightarrow> (int \<times> string) list" where
  "pair_alt tens units s =
     (case s of
        a # b # rest \<Rightarrow>
          (case (digit_value a, digit_value b) of
             (Some p, Some q) \<Rightarrow> if p \<in> tens \<and> q \<in> units then [(10 * p + q, rest)] else []
           | _ \<Rightarrow> [])
      | _ \<Rightarrow> [])"

definition unit_alt :: "string \<Rightarrow> (int \<times> string) list" where
  "unit_alt s =
     (case s of
        a # rest \<Rightarrow> (case digit_value a of Some p \<Rightarrow> if 1 \<le> p then [(p, rest)] else [] | None \<Rightarrow> [])
      | [] \<Rightarrow> [])"

definition month_alts :: "string \<Rightarrow> (int \<times> string) list" where
  "month_alts s = pair_alt {1} {0, 1, 2} s @ pair_alt {0} {1..9} s @ unit_alt s"

definition day_alts :: "string \<Rightarrow> (int \<times> string) list" where
  "day_alts s =
     pair_alt {3} {0, 1} s @ pair_alt {1, 2} {0..9} s @ pair_alt {0} {1..9} s @ unit_alt s @
     (case s of c # rest \<Rightarrow> if c = CHR '' '' then unit_alt rest else [] | [] \<Rightarrow> [])"

text \<open>
  \<open>strptime(s, "%Y%m%d").date()\<close>: the first match must leave nothing over and be a date; \<open>None\<close> is
  the \<open>ValueError\<close>.
\<close>

definition strptime_ymd :: "string \<Rightarrow> int option" where
  "strptime_ymd s =
     (case year_part s of
        None \<Rightarrow> None
      | Some (year, t) \<Rightarrow>
          (case concat (map (\<lambda>(month, u). map (\<lambda>(day, v). (month, day, v)) (day_alts u)) (month_alts t)) of
             [] \<Rightarrow> None
           | (month, day, v) # _ \<Rightarrow>
               if v = '''' \<and> valid_date year month day then Some (ymd2ord year month day) else None))"

lemma digit_value_char [simp]: "n < 10 \<Longrightarrow> digit_value (digit_char n) = Some (int n)"
  by (simp add: digit_value_def digit_char_def)

lemma pair_alt_digits [simp]:
  assumes "0 \<le> i" "i < 100"
  shows "pair_alt tens units (two_digits i @ rest) = (if i div 10 \<in> tens \<and> i mod 10 \<in> units then [(i, rest)] else [])"
proof -
  have "nat (i div 10) < 10" "nat (i mod 10) < 10" "0 \<le> i div 10" using assms by auto
  then show ?thesis by (simp add: pair_alt_def two_digits_def)
qed

lemma dec_year: 
  assumes "1000 \<le> y" "y \<le> 9999"
  shows "year_part (dec_of_int y @ rest) = Some (y, rest)"
proof -
  define n where "n = nat y"
  have n: "1000 \<le> n" "n \<le> 9999" "int n = y" using assms by (auto simp: n_def)
  have "digits_of 10 n = [n div 1000, n div 100 mod 10, n div 10 mod 10, n mod 10]"
    using n by (subst digits_of.simps, subst digits_of.simps, subst digits_of.simps, subst digits_of.simps)
      (auto simp: div_mult2_eq [symmetric])
  then have d: "dec_of_int y = map digit_char [n div 1000, n div 100 mod 10, n div 10 mod 10, n mod 10]"
    using assms by (simp add: dec_of_int_def dec_of_nat_def n_def)
  have "n div 100 = n div 10 div 10" "n div 1000 = n div 100 div 10" by (simp_all add: div_mult2_eq [symmetric])
  then have "n = 10 * (n div 10) + n mod 10" "n div 10 = 10 * (n div 100) + n div 10 mod 10"
    "n div 100 = 10 * (n div 1000) + n div 100 mod 10" by presburger+
  then have "1000 * int (n div 1000) + 100 * int (n div 100 mod 10) + 10 * int (n div 10 mod 10) + int (n mod 10) = int n"
    by linarith
  moreover have "n div 1000 < 10" using n by simp
  ultimately show ?thesis using n(3) by (simp only: d list.map append_Cons append_Nil year_part.simps
      digit_value_char mod_less_divisor option.case prod.case zero_less_numeral)
qed

lemma month_alts_digits:
  assumes "1 \<le> m" "m \<le> 12"
  shows "\<exists>more_alts. month_alts (two_digits m @ rest) = (m, rest) # more_alts"
proof -
  have "m div 10 = 0 \<and> m mod 10 = m \<and> m \<le> 9 \<or> m div 10 = 1 \<and> m mod 10 = m - 10 \<and> 10 \<le> m" using assms by presburger
  then show ?thesis using assms by (auto simp: month_alts_def)
qed

lemma day_alts_digits:
  assumes "1 \<le> d" "d \<le> 31"
  shows "\<exists>more_alts. day_alts (two_digits d @ rest) = (d, rest) # more_alts"
proof -
  define q where "q = d div 10"
  define r where "r = d mod 10"
  have d: "d = 10 * q + r" "0 \<le> r" "r \<le> 9" by (auto simp: q_def r_def)
  then have "0 \<le> q" "q \<le> 3" using assms by linarith+
  then have "q = 0 \<or> q = 1 \<or> q = 2 \<or> q = 3" by presburger
  then show ?thesis using assms d by (auto simp: day_alts_def q_def [symmetric] r_def [symmetric])
qed

lemma days_before_year_mono: "y \<le> z \<Longrightarrow> days_before_year y \<le> days_before_year z"
proof -
  assume "y \<le> z"
  then have "(z - 1) div 4 \<ge> (y - 1) div 4" "(z - 1) div 400 \<ge> (y - 1) div 400" by (auto intro: zdiv_mono1)
  moreover have "(z - 1) div 100 - (y - 1) div 100 \<le> z - y"
  proof (cases "y = z")
    case False
    have "100 * ((z - 1) div 100) \<le> z - 1" "y - 1 < 100 * ((y - 1) div 100) + 100" by simp_all
    then show ?thesis using \<open>y \<le> z\<close> False by linarith
  qed simp
  moreover have "(y - 1) * 365 + a - b + c \<le> (z - 1) * 365 + a' - b' + c'"
    if "a' \<ge> a" "c' \<ge> c" "b' - b \<le> z - y" for a b c a' b' c' :: int
    using that \<open>y \<le> z\<close> by (simp add: algebra_simps)
  ultimately show ?thesis unfolding days_before_year_def Let_def by blast
qed

text \<open>The ordinals from 2 January 1000 to 31 December 9999, where \<open>%Y\<close> has four digits.\<close>

definition printable_day :: "int \<Rightarrow> bool" where
  "printable_day n = (364879 \<le> n \<and> n \<le> 3652059)"

lemma printable_year:
  assumes "printable_day n" "ord2ymd n = (y, m, d)"
  shows "1000 \<le> y \<and> y \<le> 9999"
proof -
  have n: "364879 \<le> n" "n \<le> 3652059" using assms(1) by (simp_all add: printable_day_def)
  then have o: "ymd2ord y m d = n" "1 \<le> m" "m \<le> 12" "1 \<le> d" "d \<le> days_in_month y m"
    using ord2ymd_correct [OF _ assms(2)] by auto
  have "m = 1 \<or> m = 2 \<or> m = 3 \<or> m = 4 \<or> m = 5 \<or> m = 6 \<or> m = 7 \<or> m = 8 \<or> m = 9 \<or> m = 10 \<or> m = 11 \<or> m = 12"
    using o(2,3) by presburger
  then have b: "days_before_year y + 1 \<le> n" "n \<le> days_before_year y + 366"
    using o(1,4,5) by (auto simp: ymd2ord_def days_before_month_def days_in_month_def DAYS_BEFORE_MONTH_def
        DAYS_IN_MONTH_def split: if_splits)
  have c: "days_before_year 999 = 364512" "days_before_year 10000 = 3652059" by (simp_all add: days_before_year_def Let_def)
  have "\<not> y \<le> 999" using b n c days_before_year_mono [of y 999] by auto
  moreover have "\<not> 10000 \<le> y" using b n c days_before_year_mono [of 10000 y] by auto
  ultimately show ?thesis by simp
qed

text \<open>Parsing a printed date gives the date back.\<close>

lemma strptime_strftime:
  assumes "printable_day n"
  shows "strptime_ymd (strftime_ymd n) = Some n"
proof -
  obtain y m d where e: "ord2ymd n = (y, m, d)" by (cases "ord2ymd n")
  have n: "1 \<le> n" using assms by (simp add: printable_day_def)
  note o = ord2ymd_correct [OF n e]
  note y = printable_year [OF assms e]
  have d: "d \<le> 31" "valid_date y m d" using o y
    by (auto simp: valid_date_def days_in_month_def DAYS_IN_MONTH_def nth_Cons' split: if_splits)
  obtain ms where ms: "month_alts (two_digits m @ two_digits d) = (m, two_digits d) # ms"
    using month_alts_digits o by blast
  obtain ds where ds: "day_alts (two_digits d) = (d, []) # ds"
    using day_alts_digits [of d "[]"] o d by auto
  show ?thesis using o d dec_year y by (simp add: strptime_ymd_def strftime_ymd_def e ms ds)
qed

lemma strftime_inj: "printable_day m \<Longrightarrow> printable_day n \<Longrightarrow> strftime_ymd m = strftime_ymd n \<Longrightarrow> m = n"
  by (metis option.inject strptime_strftime)

end
