(* ===== verification/Partitions.thy ===== *)
theory Partitions
  imports Calendar FilterLaws
begin

text \<open>
  The daily range partitions of the tables \<open>jobs\<close>, \<open>sandbox_usage\<close>, \<open>llm_usage\<close>,
  \<open>mcp_usage\<close> and \<open>events\<close>. Their services repeat the same code over another table name, which
  is a parameter here. The state is what the code and PostgreSQL read and write: the rows, the
  partitions with the day they cover (\<open>None\<close> for DEFAULT) and the other names in \<open>pg_class\<close>.
\<close>

section \<open>State and data definition\<close>

record 'r parted =
  pt_rows :: "'r list"
  pt_children :: "(string \<times> int option) list"
  pt_relations :: "string list"

text \<open>
  The errors of PostgreSQL: overlapping bounds, a second DEFAULT, rows of DEFAULT that belong to a
  new partition, and a row no partition takes.
\<close>

datatype ddl_error = PartitionOverlap | SecondDefault | DefaultViolated | NoPartition

definition relnames :: "'r parted \<Rightarrow> string list" where
  "relnames st = map fst (pt_children st) @ pt_relations st"

definition dated_days :: "'r parted \<Rightarrow> int set" where
  "dated_days st = {d. Some d \<in> snd ` set (pt_children st)}"

definition has_default :: "'r parted \<Rightarrow> bool" where
  "has_default st = (None \<in> snd ` set (pt_children st))"

text \<open>\<open>CREATE TABLE name PARTITION OF parent FOR VALUES FROM day TO day + 1\<close>.\<close>

definition create_partition ::
    "('r \<Rightarrow> int) \<Rightarrow> string \<Rightarrow> int \<Rightarrow> 'r parted \<Rightarrow> ddl_error + 'r parted" where
  "create_partition row_day name day st =
     (if day \<in> dated_days st then Inl PartitionOverlap
      else if has_default st \<and> (\<exists>r \<in> set (pt_rows st). row_day r = day) then Inl DefaultViolated
      else Inr (st\<lparr>pt_children := pt_children st @ [(name, Some day)]\<rparr>))"

text \<open>\<open>CREATE TABLE IF NOT EXISTS name PARTITION OF parent DEFAULT\<close>.\<close>

definition create_default :: "string \<Rightarrow> 'r parted \<Rightarrow> ddl_error + 'r parted" where
  "create_default name st =
     (if name \<in> set (relnames st) then Inr st
      else if has_default st then Inl SecondDefault
      else Inr (st\<lparr>pt_children := pt_children st @ [(name, None)]\<rparr>))"

text \<open>\<open>DROP TABLE\<close> of a partition: its rows go with it.\<close>

definition drop_partition :: "('r \<Rightarrow> int) \<Rightarrow> string \<Rightarrow> 'r parted \<Rightarrow> 'r parted" where
  "drop_partition row_day name st =
     (let gone = {r \<in> set (pt_rows st). (name, Some (row_day r)) \<in> set (pt_children st) \<or>
            row_day r \<notin> dated_days st \<and> (name, None) \<in> set (pt_children st)}
      in st\<lparr>pt_rows := filter (\<lambda>r. r \<notin> gone) (pt_rows st),
            pt_children := filter (\<lambda>c. fst c \<noteq> name) (pt_children st)\<rparr>)"

definition insert_row :: "('r \<Rightarrow> int) \<Rightarrow> 'r \<Rightarrow> 'r parted \<Rightarrow> ddl_error + 'r parted" where
  "insert_row row_day r st =
     (if row_day r \<in> dated_days st \<or> has_default st then Inr (st\<lparr>pt_rows := pt_rows st @ [r]\<rparr>)
      else Inl NoPartition)"

section \<open>The code\<close>

text \<open>\<open>_partition_name\<close>.\<close>

definition partition_name :: "string \<Rightarrow> int \<Rightarrow> string" where
  "partition_name parent day = parent @ ''_'' @ strftime_ymd day"

definition default_name :: "string \<Rightarrow> string" where
  "default_name parent = parent @ ''_default''"

text \<open>\<open>_ensure_partition\<close>: the name if the partition was created.\<close>

definition ensure_partition ::
    "('r \<Rightarrow> int) \<Rightarrow> string \<Rightarrow> int \<Rightarrow> 'r parted \<Rightarrow> ddl_error + string option \<times> 'r parted" where
  "ensure_partition row_day parent day st =
     (let name = partition_name parent day in
      if name \<in> set (relnames st) then Inr (None, st)
      else bindR (create_partition row_day name day st) (\<lambda>st1. Inr (Some name, st1)))"

fun ensure_days ::
    "('r \<Rightarrow> int) \<Rightarrow> string \<Rightarrow> int list \<Rightarrow> 'r parted \<Rightarrow> ddl_error + string list \<times> 'r parted" where
  "ensure_days row_day parent [] st = Inr ([], st)"
| "ensure_days row_day parent (day # days) st =
     bindR (ensure_partition row_day parent day st) (\<lambda>(name, st1).
     bindR (ensure_days row_day parent days st1) (\<lambda>(names, st2).
       Inr ((case name of None \<Rightarrow> names | Some n \<Rightarrow> n # names), st2)))"

text \<open>\<open>name.rsplit("_", 1)[-1]\<close>, or the empty string.\<close>

definition name_suffix :: "string \<Rightarrow> string" where
  "name_suffix name =
     (if CHR ''_'' \<in> set name then rev (takeWhile (\<lambda>c. c \<noteq> CHR ''_'') (rev name)) else '''')"

definition expired :: "int \<Rightarrow> string \<Rightarrow> bool" where
  "expired cutoff name =
     (case strptime_ymd (name_suffix name) of None \<Rightarrow> False | Some day \<Rightarrow> day < cutoff)"

text \<open>\<open>_drop_expired_partitions\<close>: the names are read once, then dropped one by one.\<close>

fun drop_all_expired ::
    "('r \<Rightarrow> int) \<Rightarrow> int \<Rightarrow> string list \<Rightarrow> 'r parted \<Rightarrow> string list \<times> 'r parted" where
  "drop_all_expired row_day cutoff [] st = ([], st)"
| "drop_all_expired row_day cutoff (name # names) st =
     (if expired cutoff name
      then let (dropped, st1) = drop_all_expired row_day cutoff names (drop_partition row_day name st)
           in (name # dropped, st1)
      else drop_all_expired row_day cutoff names st)"

definition drop_expired_partitions ::
    "('r \<Rightarrow> int) \<Rightarrow> string \<Rightarrow> int \<Rightarrow> datetime \<Rightarrow> 'r parted \<Rightarrow> string list \<times> 'r parted" where
  "drop_expired_partitions row_day parent retention_days now st =
     (let cutoff = day_of now - retention_days;
          names = filter (like_match (parent @ ''_%'')) (map fst (pt_children st))
      in drop_all_expired row_day cutoff names st)"

text \<open>\<open>ensure_partitions\<close>; an error propagates before the commit and leaves the catalog as it was.\<close>

definition ensure_partitions ::
    "('r \<Rightarrow> int) \<Rightarrow> string \<Rightarrow> nat \<Rightarrow> int \<Rightarrow> datetime \<Rightarrow> 'r parted \<Rightarrow>
     ddl_error + string list \<times> string list \<times> 'r parted" where
  "ensure_partitions row_day parent preallocate_days retention_days now st =
     bindR (ensure_days row_day parent (map (\<lambda>offset. day_of now + int offset) [0..<preallocate_days]) st)
       (\<lambda>(created, st1).
     bindR (create_default (default_name parent) st1) (\<lambda>st2.
       let (dropped, st3) = drop_expired_partitions row_day parent retention_days now st2
       in Inr (created, dropped, st3)))"

end
