(* ===== verification/PartitionLaws.thy ===== *)
theory PartitionLaws
  imports Partitions
begin

text \<open>
  What the partition manager does to the catalog and to the rows, proved once in a locale over a
  table name without LIKE metacharacters and interpreted for the five partitioned tables.
\<close>

section \<open>Names\<close>

lemma digit_char_value: "n < 10 \<Longrightarrow> CHR ''_'' \<noteq> digit_char n"
  by (simp add: digit_char_def char_eq_of_char of_char_of)

lemma strftime_chars:
  assumes "printable_day n"
  shows "CHR ''_'' \<notin> set (strftime_ymd n)"
proof -
  obtain y m d where e: "ord2ymd n = (y, m, d)" by (cases "ord2ymd n")
  have "1 \<le> n" using assms by (simp add: printable_day_def)
  note o = ord2ymd_correct [OF this e] and y = printable_year [OF assms e]
  have d: "d \<le> 31" using o by (auto simp: days_in_month_def DAYS_IN_MONTH_def nth_Cons' split: if_splits)
  have "CHR ''_'' \<noteq> digit_char k" if "k \<in> set (digits_of 10 (nat y))" for k
    using digits_of_bound [OF _ that] by (intro digit_char_value) simp
  then have "CHR ''_'' \<notin> set (dec_of_int y)" using y by (auto simp: dec_of_int_def dec_of_nat_def)
  moreover have "CHR ''_'' \<notin> set (two_digits i)" if "0 \<le> i" "i < 100" for i
  proof -
    have "nat (i div 10) < 10" "nat (i mod 10) < 10" using that by auto
    then show ?thesis using digit_char_value by (auto simp: two_digits_def)
  qed
  ultimately show ?thesis using o d by (simp add: strftime_ymd_def e)
qed

lemma suffix_part:
  assumes "CHR ''_'' \<notin> set s"
  shows "name_suffix (p @ ''_'' @ s) = s"
proof -
  have "takeWhile (\<lambda>c. c \<noteq> CHR ''_'') (rev s @ CHR ''_'' # rev p) = rev s"
    using assms by (subst takeWhile_append2) auto
  then show ?thesis by (simp add: name_suffix_def)
qed

lemma suffix_partition [simp]: "printable_day d \<Longrightarrow> name_suffix (partition_name p d) = strftime_ymd d"
  unfolding partition_name_def by (rule suffix_part) (rule strftime_chars)

lemma suffix_default [simp]: "name_suffix (default_name p) = ''default''"
  using suffix_part [of "''default''" p] by (simp add: default_name_def)

lemma expired_partition [simp]: "printable_day d \<Longrightarrow> expired cutoff (partition_name p d) \<longleftrightarrow> d < cutoff"
  by (simp add: expired_def strptime_strftime)

lemma expired_default [simp]: "\<not> expired cutoff (default_name p)"
  by (simp add: expired_def strptime_ymd_def digit_value_def)

lemma partition_name_inj: "printable_day d \<Longrightarrow> printable_day e \<Longrightarrow> partition_name p d = partition_name p e \<longleftrightarrow> d = e"
  by (auto simp: partition_name_def dest: strftime_inj)

lemma partition_not_default: "printable_day d \<Longrightarrow> partition_name p d \<noteq> default_name p"
  by (metis expired_default expired_partition lessI less_add_one)

lemma like_literal:
  "CHR ''%'' \<notin> set p \<Longrightarrow> CHR 0x5C \<notin> set p \<Longrightarrow> like_match pat s \<Longrightarrow> like_match (p @ pat) (p @ s)"
proof (induction p)
  case (Cons a p)
  then show ?case by (auto simp: like_match.simps(2) [of a])
qed simp

section \<open>Tables kept by the partition manager\<close>

text \<open>
  Every dated partition carries the name of its day, DEFAULT its own, and no other relation has a
  name of that form.
\<close>

definition daily :: "string \<Rightarrow> 'r parted \<Rightarrow> bool" where
  "daily parent st =
     (distinct (map fst (pt_children st)) \<and>
      (\<forall>c \<in> set (pt_children st). case snd c of
         None \<Rightarrow> fst c = default_name parent
       | Some d \<Rightarrow> printable_day d \<and> fst c = partition_name parent d) \<and>
      (\<forall>n \<in> set (pt_relations st). n \<noteq> default_name parent \<and> (\<forall>d. printable_day d \<longrightarrow> n \<noteq> partition_name parent d)))"

lemma daily_child:
  assumes "daily parent st" "c \<in> set (pt_children st)"
  obtains d where "c = (partition_name parent d, Some d)" "printable_day d" | "c = (default_name parent, None)"
  using assms by (cases c; cases "snd c") (auto simp: daily_def)

lemma daily_name_iff:
  assumes "daily parent st" "printable_day d"
  shows "partition_name parent d \<in> set (relnames st) \<longleftrightarrow> d \<in> dated_days st"
proof
  assume "partition_name parent d \<in> set (relnames st)"
  then obtain c where c: "c \<in> set (pt_children st)" "fst c = partition_name parent d"
    using assms by (auto simp: relnames_def daily_def)
  from daily_child [OF assms(1) c(1)] show "d \<in> dated_days st"
  proof cases
    case (1 e)
    then have "e = d" using c(2) assms(2) by (simp add: partition_name_inj)
    then show ?thesis using c(1) 1 by (force simp: dated_days_def)
  next
    case 2
    then show ?thesis using c(2) partition_not_default [OF assms(2), of parent] by simp
  qed
next
  assume "d \<in> dated_days st"
  then obtain c where c: "c \<in> set (pt_children st)" "snd c = Some d" by (auto simp: dated_days_def)
  have "fst c = partition_name parent d" by (rule daily_child [OF assms(1) c(1)]) (use c(2) in simp_all)
  then show "partition_name parent d \<in> set (relnames st)" using c(1) by (force simp: relnames_def)
qed

lemma daily_default_iff:
  assumes "daily parent st"
  shows "default_name parent \<in> set (relnames st) \<longleftrightarrow> has_default st"
proof
  assume "default_name parent \<in> set (relnames st)"
  then obtain c where c: "c \<in> set (pt_children st)" "fst c = default_name parent"
    using assms by (auto simp: relnames_def daily_def)
  from daily_child [OF assms c(1)] show "has_default st"
    by cases (use c partition_not_default in \<open>force simp: has_default_def\<close>)+
next
  assume "has_default st"
  then obtain c where "c \<in> set (pt_children st)" "snd c = None" by (auto simp: has_default_def)
  then show "default_name parent \<in> set (relnames st)"
    using assms by (force simp: daily_def relnames_def)
qed

text \<open>The rows and partitions that survive a cutoff.\<close>

definition kept_row :: "('r \<Rightarrow> int) \<Rightarrow> int \<Rightarrow> int set \<Rightarrow> 'r \<Rightarrow> bool" where
  "kept_row row_day cutoff days r = (row_day r \<in> days \<longrightarrow> cutoff \<le> row_day r)"

definition kept_child :: "int \<Rightarrow> string \<times> int option \<Rightarrow> bool" where
  "kept_child cutoff c = (case snd c of None \<Rightarrow> True | Some d \<Rightarrow> cutoff \<le> d)"

lemma kept_child_expired:
  assumes "daily parent st" "c \<in> set (pt_children st)"
  shows "kept_child cutoff c \<longleftrightarrow> \<not> expired cutoff (fst c)"
  by (rule daily_child [OF assms]) (simp_all add: kept_child_def not_less)

lemma daily_drop:
  assumes "daily parent st"
  shows "daily parent (st\<lparr>pt_rows := rs, pt_children := filter P (pt_children st)\<rparr>)"
  using assms by (auto simp: daily_def distinct_map_filter)

lemma drop_partition_dated:
  assumes "daily parent st" "(n, Some d) \<in> set (pt_children st)"
  shows "drop_partition row_day n st = st\<lparr>pt_rows := filter (\<lambda>r. row_day r \<noteq> d) (pt_rows st),
    pt_children := filter (\<lambda>c. fst c \<noteq> n) (pt_children st)\<rparr>"
proof -
  have dist: "distinct (map fst (pt_children st))" using assms(1) by (simp add: daily_def)
  then have "(n, x) \<in> set (pt_children st) \<longleftrightarrow> x = Some d" for x
    using assms(2) by (metis eq_key_imp_eq_value)
  then show ?thesis by (simp add: drop_partition_def Let_def cong: filter_cong)
qed

lemma drop_all_exact:
  assumes "daily parent st" "distinct names" "set names \<subseteq> fst ` set (pt_children st)"
  shows "drop_all_expired row_day cutoff names st =
    (filter (expired cutoff) names,
     st\<lparr>pt_rows := filter (\<lambda>r. \<not> (\<exists>n \<in> set names. expired cutoff n \<and> (n, Some (row_day r)) \<in> set (pt_children st))) (pt_rows st),
        pt_children := filter (\<lambda>c. \<not> (fst c \<in> set names \<and> expired cutoff (fst c))) (pt_children st)\<rparr>)"
  using assms
proof (induction names arbitrary: st)
  case (Cons n names)
  obtain x where x: "(n, x) \<in> set (pt_children st)" using Cons.prems(3) by auto
  show ?case
  proof (cases "expired cutoff n")
    case False
    then have rows: "filter (\<lambda>r. \<not> (\<exists>m \<in> set names. expired cutoff m \<and> (m, Some (row_day r)) \<in> set (pt_children st))) (pt_rows st) =
        filter (\<lambda>r. \<not> (\<exists>m \<in> set (n # names). expired cutoff m \<and> (m, Some (row_day r)) \<in> set (pt_children st))) (pt_rows st)"
      by (intro filter_cong) auto
    have children: "filter (\<lambda>c. \<not> (fst c \<in> set names \<and> expired cutoff (fst c))) (pt_children st) =
        filter (\<lambda>c. \<not> (fst c \<in> set (n # names) \<and> expired cutoff (fst c))) (pt_children st)"
      using False by (intro filter_cong) auto
    have "set names \<subseteq> fst ` set (pt_children st)" "distinct names" using Cons.prems(2,3) by auto
    note ih = Cons.IH [OF Cons.prems(1) this(2,1)]
    show ?thesis using False by (simp only: drop_all_expired.simps if_False ih rows children) simp
  next
    case True
    have "x \<noteq> None" by (rule daily_child [OF Cons.prems(1) x]) (use True in auto)
    then obtain d where d: "(n, Some d) \<in> set (pt_children st)" using x by blast
    let ?st = "st\<lparr>pt_rows := filter (\<lambda>r. row_day r \<noteq> d) (pt_rows st), pt_children := filter (\<lambda>c. fst c \<noteq> n) (pt_children st)\<rparr>"
    have drop: "drop_partition row_day n st = ?st" by (rule drop_partition_dated [OF Cons.prems(1) d])
    have dist: "distinct (map fst (pt_children st))" using Cons.prems(1) by (simp add: daily_def)
    have uniq: "(n, x) \<in> set (pt_children st) \<longleftrightarrow> x = Some d" for x
    proof
      assume "(n, x) \<in> set (pt_children st)"
      from eq_key_imp_eq_value [OF dist d this] show "x = Some d" by simp
    qed (simp add: d)
    have names: "set names \<subseteq> fst ` set (pt_children ?st)" using Cons.prems(2,3) by force
    have ih: "drop_all_expired row_day cutoff names ?st = (filter (expired cutoff) names,
       ?st\<lparr>pt_rows := filter (\<lambda>r. \<not> (\<exists>m \<in> set names. expired cutoff m \<and> (m, Some (row_day r)) \<in> set (pt_children ?st))) (pt_rows ?st),
          pt_children := filter (\<lambda>c. \<not> (fst c \<in> set names \<and> expired cutoff (fst c))) (pt_children ?st)\<rparr>)"
      using Cons.prems(2) by (intro Cons.IH daily_drop Cons.prems(1) names) simp
    have rows: "filter (\<lambda>r. \<not> (\<exists>m \<in> set names. expired cutoff m \<and> (m, Some (row_day r)) \<in> set (pt_children ?st))) (pt_rows ?st) =
        filter (\<lambda>r. \<not> (\<exists>m \<in> set (n # names). expired cutoff m \<and> (m, Some (row_day r)) \<in> set (pt_children st))) (pt_rows st)"
      using Cons.prems(2) True by (auto simp: uniq intro!: filter_cong)
    have children: "filter (\<lambda>c. \<not> (fst c \<in> set names \<and> expired cutoff (fst c))) (pt_children ?st) =
        filter (\<lambda>c. \<not> (fst c \<in> set (n # names) \<and> expired cutoff (fst c))) (pt_children st)"
      using True by (auto intro!: filter_cong)
    show ?thesis using True by (simp only: drop_all_expired.simps if_True drop ih Let_def prod.case rows children) simp
  qed
qed simp

lemma daily_add_day:
  assumes "daily parent st" "printable_day d" "d \<notin> dated_days st"
  shows "daily parent (st\<lparr>pt_children := pt_children st @ [(partition_name parent d, Some d)]\<rparr>)"
proof -
  have "partition_name parent d \<notin> fst ` set (pt_children st)"
    using daily_name_iff [OF assms(1,2)] assms(3) by (auto simp: relnames_def)
  then show ?thesis using assms(1,2) by (auto simp: daily_def)
qed

lemma ensure_days_exact:
  assumes "daily parent st" "distinct days" "\<And>d. d \<in> set days \<Longrightarrow> printable_day d"
  shows "ensure_days row_day parent days st =
    (let new = filter (\<lambda>d. d \<notin> dated_days st) days in
     if has_default st \<and> (\<exists>r \<in> set (pt_rows st). row_day r \<in> set new) then Inl DefaultViolated
     else Inr (map (partition_name parent) new,
               st\<lparr>pt_children := pt_children st @ map (\<lambda>d. (partition_name parent d, Some d)) new\<rparr>))"
  using assms
proof (induction days arbitrary: st)
  case Nil
  then show ?case by simp
next
  case (Cons d days)
  have p: "printable_day d" using Cons.prems by simp
  show ?case
  proof (cases "d \<in> dated_days st")
    case True
    then have "ensure_partition row_day parent d st = Inr (None, st)"
      using daily_name_iff [OF Cons.prems(1) p] by (simp add: ensure_partition_def)
    then show ?thesis using Cons True by (auto simp: Let_def)
  next
    case False
    let ?st = "st\<lparr>pt_children := pt_children st @ [(partition_name parent d, Some d)]\<rparr>"
    have absent: "partition_name parent d \<notin> set (relnames st)" using daily_name_iff [OF Cons.prems(1) p] False by simp
    show ?thesis
    proof (cases "has_default st \<and> (\<exists>r \<in> set (pt_rows st). row_day r = d)")
      case True
      then show ?thesis using False absent by (auto simp: ensure_partition_def create_partition_def Let_def)
    next
      case free: False
      have e: "ensure_partition row_day parent d st = Inr (Some (partition_name parent d), ?st)"
        using False absent free by (auto simp: ensure_partition_def create_partition_def Let_def)
      have dd: "dated_days ?st = insert d (dated_days st)" "has_default ?st = has_default st" "pt_rows ?st = pt_rows st"
        by (auto simp: dated_days_def has_default_def)
      have f: "filter (\<lambda>e. e \<notin> insert d (dated_days st)) days = filter (\<lambda>e. e \<notin> dated_days st) days"
        using Cons.prems(2) by (auto intro!: filter_cong)
      have "distinct days" "\<And>e. e \<in> set days \<Longrightarrow> printable_day e" using Cons.prems by auto
      note ih = Cons.IH [OF daily_add_day [OF Cons.prems(1) p False] this, unfolded dd f Let_def]
      show ?thesis using False free by (simp add: e ih Let_def)
    qed
  qed
qed

text \<open>The catalog and the rows after a sweep.\<close>

definition swept ::
    "('r \<Rightarrow> int) \<Rightarrow> string \<Rightarrow> int list \<Rightarrow> int \<Rightarrow> 'r parted \<Rightarrow> 'r parted" where
  "swept row_day parent new cutoff st =
     (let children = pt_children st @ map (\<lambda>d. (partition_name parent d, Some d)) new @
            (if has_default st then [] else [(default_name parent, None)])
      in st\<lparr>pt_rows := filter (kept_row row_day cutoff (dated_days st \<union> set new)) (pt_rows st),
            pt_children := filter (kept_child cutoff) children\<rparr>)"

lemma daily_ensured:
  assumes "daily parent st" "distinct new" "\<And>d. d \<in> set new \<Longrightarrow> printable_day d \<and> d \<notin> dated_days st"
  shows "daily parent (st\<lparr>pt_children := pt_children st @ map (\<lambda>d. (partition_name parent d, Some d)) new\<rparr>)"
  using assms
proof (induction new arbitrary: st)
  case (Cons d new)
  let ?st = "st\<lparr>pt_children := pt_children st @ [(partition_name parent d, Some d)]\<rparr>"
  have "daily parent ?st" using Cons.prems by (intro daily_add_day) auto
  moreover have "dated_days ?st = insert d (dated_days st)" by (auto simp: dated_days_def)
  ultimately have "daily parent (?st\<lparr>pt_children := pt_children ?st @ map (\<lambda>d. (partition_name parent d, Some d)) new\<rparr>)"
    using Cons.prems by (intro Cons.IH) auto
  then show ?case by simp
qed simp

lemma daily_add_default:
  assumes "daily parent st" "\<not> has_default st"
  shows "daily parent (st\<lparr>pt_children := pt_children st @ [(default_name parent, None)]\<rparr>)"
proof -
  have "default_name parent \<notin> fst ` set (pt_children st)"
    using daily_default_iff [OF assms(1)] assms(2) by (auto simp: relnames_def)
  then show ?thesis using assms(1) by (auto simp: daily_def)
qed

locale daily_table =
  fixes row_day :: "'r \<Rightarrow> int" and parent :: string
  assumes plain_parent: "CHR ''%'' \<notin> set parent" "CHR 0x5C \<notin> set parent"
begin

lemma like_child:
  assumes "daily parent st" "c \<in> set (pt_children st)"
  shows "like_match (parent @ ''_%'') (fst c)"
proof -
  have all: "like_match ''_%'' (CHR ''_'' # s)" for s
    by (simp add: like_match.simps(2) [of "CHR ''_''"])
  have "like_match (parent @ ''_%'') (parent @ CHR ''_'' # s)" for s
    by (rule like_literal [OF plain_parent all])
  then show ?thesis
    by (rule_tac daily_child [OF assms]) (simp_all add: partition_name_def default_name_def)
qed

lemma drop_exact:
  assumes "daily parent st"
  shows "drop_expired_partitions row_day parent retention_days now st =
    (filter (expired (day_of now - retention_days)) (map fst (pt_children st)),
     st\<lparr>pt_rows := filter (kept_row row_day (day_of now - retention_days) (dated_days st)) (pt_rows st),
        pt_children := filter (kept_child (day_of now - retention_days)) (pt_children st)\<rparr>)"
proof -
  let ?cut = "day_of now - retention_days" and ?ns = "map fst (pt_children st)"
  have all: "filter (like_match (parent @ ''_%'')) ?ns = ?ns" using like_child [OF assms] by (auto intro!: filter_True)
  have d: "distinct ?ns" using assms by (simp add: daily_def)
  have "(\<exists>n \<in> set ?ns. expired ?cut n \<and> (n, Some (row_day r)) \<in> set (pt_children st)) \<longleftrightarrow>
      row_day r \<in> dated_days st \<and> row_day r < ?cut" for r
  proof
    assume "\<exists>n \<in> set ?ns. expired ?cut n \<and> (n, Some (row_day r)) \<in> set (pt_children st)"
    then obtain n where n: "expired ?cut n" "(n, Some (row_day r)) \<in> set (pt_children st)" by blast
    then have "n = partition_name parent (row_day r)" "printable_day (row_day r)"
      using daily_child [OF assms n(2)] by blast+
    then show "row_day r \<in> dated_days st \<and> row_day r < ?cut" using n by (force simp: dated_days_def)
  next
    assume r: "row_day r \<in> dated_days st \<and> row_day r < ?cut"
    then obtain c where c: "c \<in> set (pt_children st)" "snd c = Some (row_day r)" by (auto simp: dated_days_def)
    have "fst c = partition_name parent (row_day r) \<and> printable_day (row_day r)"
      by (rule daily_child [OF assms c(1)]) (use c(2) in simp_all)
    then show "\<exists>n \<in> set ?ns. expired ?cut n \<and> (n, Some (row_day r)) \<in> set (pt_children st)"
      using c r by (cases c) force
  qed
  then have rows: "filter (\<lambda>r. \<not> (\<exists>n \<in> set ?ns. expired ?cut n \<and> (n, Some (row_day r)) \<in> set (pt_children st))) (pt_rows st) =
      filter (kept_row row_day ?cut (dated_days st)) (pt_rows st)"
    by (intro filter_cong) (auto simp: kept_row_def)
  have children: "filter (\<lambda>c. \<not> (fst c \<in> set ?ns \<and> expired ?cut (fst c))) (pt_children st) =
      filter (kept_child ?cut) (pt_children st)"
    using kept_child_expired [OF assms] by (intro filter_cong) auto
  show ?thesis using drop_all_exact [OF assms d, of row_day ?cut]
    unfolding drop_expired_partitions_def Let_def all rows children by simp
qed

lemma ensure_exact:
  fixes retention_days :: int
  assumes "daily parent st" "\<And>i. i < preallocate_days \<Longrightarrow> printable_day (day_of now + int i)"
  defines "days \<equiv> map (\<lambda>offset. day_of now + int offset) [0..<preallocate_days]"
    and "cutoff \<equiv> day_of now - retention_days"
  defines "new \<equiv> filter (\<lambda>d. d \<notin> dated_days st) days"
  shows "ensure_partitions row_day parent preallocate_days retention_days now st =
    (if has_default st \<and> (\<exists>r \<in> set (pt_rows st). row_day r \<in> set new) then Inl DefaultViolated
     else Inr (map (partition_name parent) new,
       filter (expired cutoff) (map fst (pt_children st) @ map (partition_name parent) new),
       swept row_day parent new cutoff st))"
    and "\<not> (has_default st \<and> (\<exists>r \<in> set (pt_rows st). row_day r \<in> set new)) \<Longrightarrow> daily parent (swept row_day parent new cutoff st)"
proof -
  have days: "distinct days" "\<And>d. d \<in> set days \<Longrightarrow> printable_day d" using assms(2) by (auto simp: days_def distinct_map inj_on_def)
  have new: "distinct new" "\<And>d. d \<in> set new \<Longrightarrow> printable_day d \<and> d \<notin> dated_days st" using days by (auto simp: new_def)
  define st1 where "st1 = st\<lparr>pt_children := pt_children st @ map (\<lambda>d. (partition_name parent d, Some d)) new\<rparr>"
  define st2 where "st2 = (if has_default st then st1 else st1\<lparr>pt_children := pt_children st1 @ [(default_name parent, None)]\<rparr>)"
  have d1: "daily parent st1" unfolding st1_def by (rule daily_ensured [OF assms(1) new])
  have h1: "has_default st1 = has_default st" by (auto simp: st1_def has_default_def)
  have default: "create_default (default_name parent) st1 = Inr st2"
    using daily_default_iff [OF d1] by (simp add: create_default_def st2_def h1)
  have d2: "daily parent st2" using d1 daily_add_default [OF d1] by (simp add: st2_def h1)
  have dd: "dated_days st2 = dated_days st \<union> set new" by (auto simp: st2_def st1_def dated_days_def image_Un image_image)
  have rows: "pt_rows st2 = pt_rows st" by (simp add: st2_def st1_def)
  have children: "pt_children st2 = pt_children st @ map (\<lambda>d. (partition_name parent d, Some d)) new @
      (if has_default st then [] else [(default_name parent, None)])" by (simp add: st2_def st1_def)
  have final: "st2\<lparr>pt_rows := filter (kept_row row_day cutoff (dated_days st2)) (pt_rows st2),
      pt_children := filter (kept_child cutoff) (pt_children st2)\<rparr> = swept row_day parent new cutoff st"
    unfolding swept_def Let_def dd rows children by (simp add: st2_def st1_def)
  have drop: "drop_expired_partitions row_day parent retention_days now st2 =
      (filter (expired cutoff) (map fst (pt_children st) @ map (partition_name parent) new), swept row_day parent new cutoff st)"
    unfolding drop_exact [OF d2] cutoff_def [symmetric] final unfolding children by (simp add: comp_def)
  show "ensure_partitions row_day parent preallocate_days retention_days now st =
    (if has_default st \<and> (\<exists>r \<in> set (pt_rows st). row_day r \<in> set new) then Inl DefaultViolated
     else Inr (map (partition_name parent) new,
       filter (expired cutoff) (map fst (pt_children st) @ map (partition_name parent) new),
       swept row_day parent new cutoff st))"
    using ensure_days_exact [OF assms(1) days, of row_day, folded new_def] default drop
    unfolding ensure_partitions_def days_def [symmetric] Let_def st1_def by simp
  show "daily parent (swept row_day parent new cutoff st)"
    unfolding final [symmetric] by (rule daily_drop [OF d2])
qed

end

lemma swept_days:
  "dated_days (swept row_day parent new cutoff st) = {d \<in> dated_days st \<union> set new. cutoff \<le> d}"
  by (force simp: swept_def Let_def dated_days_def kept_child_def)

lemma swept_default: "has_default (swept row_day parent new cutoff st)"
  by (force simp: swept_def Let_def has_default_def kept_child_def)

lemma swept_rows: "pt_rows (swept row_day parent new cutoff st) = filter (kept_row row_day cutoff (dated_days st \<union> set new)) (pt_rows st)"
  by (simp add: swept_def Let_def)

interpretation jobs_parts: daily_table row_day "''jobs''" for row_day by unfold_locales simp_all
interpretation sandbox_parts: daily_table row_day "''sandbox_usage''" for row_day by unfold_locales simp_all
interpretation llm_parts: daily_table row_day "''llm_usage''" for row_day by unfold_locales simp_all
interpretation mcp_parts: daily_table row_day "''mcp_usage''" for row_day by unfold_locales simp_all
interpretation event_parts: daily_table row_day "''events''" for row_day by unfold_locales simp_all

definition PARTITIONED :: "string list" where
  "PARTITIONED = [''jobs'', ''sandbox_usage'', ''llm_usage'', ''mcp_usage'', ''events'']"

lemma partitioned_table: "parent \<in> set PARTITIONED \<Longrightarrow> daily_table parent"
  unfolding PARTITIONED_def
  by (auto intro: jobs_parts.daily_table_axioms sandbox_parts.daily_table_axioms llm_parts.daily_table_axioms
      mcp_parts.daily_table_axioms event_parts.daily_table_axioms)

lemmas parts_exact = daily_table.ensure_exact [OF partitioned_table]

lemma swept_again:
  assumes "daily parent st'" "st' = swept row_day parent new cutoff st"
  shows "swept row_day parent [] cutoff st' = st'"
    "filter (expired cutoff) (map fst (pt_children st')) = []"
proof -
  have kept: "\<forall>c \<in> set (pt_children st'). kept_child cutoff c" unfolding assms(2) swept_def Let_def by simp blast
  have rows: "filter (kept_row row_day cutoff (dated_days st')) (pt_rows st') = pt_rows st'"
    unfolding assms(2) swept_rows swept_days filter_filter by (intro filter_cong) (auto simp: kept_row_def)
  have "has_default st'" unfolding assms(2) by (rule swept_default)
  then show "swept row_day parent [] cutoff st' = st'"
    using kept rows by (simp add: swept_def [of _ _ _ _ st'] Let_def filter_True)
  show "filter (expired cutoff) (map fst (pt_children st')) = []"
    using kept kept_child_expired [OF assms(1)] by (auto simp: filter_empty_conv)
qed

lemma expired_names:
  assumes "daily parent st"
  shows "set (filter (expired cutoff) (map fst (pt_children st))) = partition_name parent ` {d \<in> dated_days st. d < cutoff}"
proof (intro set_eqI iffI)
  fix n
  assume "n \<in> set (filter (expired cutoff) (map fst (pt_children st)))"
  then obtain c where c: "c \<in> set (pt_children st)" "fst c = n" "expired cutoff n" by auto
  from daily_child [OF assms c(1)] show "n \<in> partition_name parent ` {d \<in> dated_days st. d < cutoff}"
  proof cases
    case (1 d)
    then have "d \<in> dated_days st" "d < cutoff" "n = partition_name parent d" using c by (force simp: dated_days_def)+
    then show ?thesis by blast
  next
    case 2
    then show ?thesis using c(2,3) by auto
  qed
next
  fix n
  assume "n \<in> partition_name parent ` {d \<in> dated_days st. d < cutoff}"
  then obtain d where d: "d \<in> dated_days st" "d < cutoff" "n = partition_name parent d" by blast
  then obtain c where c: "c \<in> set (pt_children st)" "snd c = Some d" by (auto simp: dated_days_def)
  have "fst c = n \<and> expired cutoff n"
    by (rule daily_child [OF assms c(1)]) (use c(2) d in simp_all)
  then show "n \<in> set (filter (expired cutoff) (map fst (pt_children st)))" using c(1) by auto
qed

lemma window_days: "set (map (\<lambda>offset. d + int offset) [0..<n]) = {d ..< d + int n}"
proof (intro set_eqI iffI)
  fix e
  assume "e \<in> {d ..< d + int n}"
  then have "e = d + int (nat (e - d))" "nat (e - d) < n" by auto
  then show "e \<in> set (map (\<lambda>offset. d + int offset) [0..<n])" by (metis atLeastLessThan_iff image_eqI le0 set_map set_upt)
qed auto

section \<open>Properties\<close>

text \<open>C19. One sweep of the partition manager over any of the five partitioned tables: unless DEFAULT
  already holds rows of a day that has no partition yet, it ends with a partition for every day of
  the window, DEFAULT present, exactly the partitions of days before the cutoff gone with their
  rows and every other row untouched; it names what it created and dropped, keeps the catalog
  well-formed, lets every row be inserted, and a second sweep changes nothing. If DEFAULT does hold
  such a row, the sweep fails as a whole and nothing is created or dropped.\<close>

theorem partition_sweep:
  assumes "parent \<in> set PARTITIONED" "daily parent st" "0 \<le> retention_days"
    and "\<And>i. i < preallocate_days \<Longrightarrow> printable_day (day_of now + int i)"
  shows "let days = {day_of now ..< day_of now + int preallocate_days};
      cutoff = day_of now - retention_days;
      result = ensure_partitions row_day parent preallocate_days retention_days now st
    in if has_default st \<and> (\<exists>r \<in> set (pt_rows st). row_day r \<in> days - dated_days st) then result = Inl DefaultViolated
       else \<exists>created dropped st'. result = Inr (created, dropped, st') \<and> daily parent st' \<and> has_default st' \<and>
         dated_days st' = {d \<in> dated_days st \<union> days. cutoff \<le> d} \<and>
         pt_rows st' = filter (\<lambda>r. row_day r \<in> dated_days st \<longrightarrow> cutoff \<le> row_day r) (pt_rows st) \<and>
         set created = partition_name parent ` (days - dated_days st) \<and>
         set dropped = partition_name parent ` {d \<in> dated_days st. d < cutoff} \<and>
         ensure_partitions row_day parent preallocate_days retention_days now st' = Inr ([], [], st') \<and>
         (\<forall>r. \<exists>st''. insert_row row_day r st' = Inr st'')"
proof -
  define days where "days = map (\<lambda>offset. day_of now + int offset) [0..<preallocate_days]"
  define cutoff where "cutoff = day_of now - retention_days"
  define new where "new = filter (\<lambda>d. d \<notin> dated_days st) days"
  have set_days: "set days = {day_of now ..< day_of now + int preallocate_days}" unfolding days_def by (rule window_days)
  have set_new: "set new = {day_of now ..< day_of now + int preallocate_days} - dated_days st"
    by (auto simp: new_def set_days)
  have late: "cutoff \<le> d" if "d \<in> set days" for d using that assms(3) by (auto simp: set_days cutoff_def)
  have exact: "ensure_partitions row_day parent preallocate_days retention_days now st =
      (if has_default st \<and> (\<exists>r \<in> set (pt_rows st). row_day r \<in> set new) then Inl DefaultViolated
       else Inr (map (partition_name parent) new,
         filter (expired cutoff) (map fst (pt_children st) @ map (partition_name parent) new), swept row_day parent new cutoff st)) \<and>
      (\<not> (has_default st \<and> (\<exists>r \<in> set (pt_rows st). row_day r \<in> set new)) \<longrightarrow> daily parent (swept row_day parent new cutoff st))"
    if "daily parent st" "new = filter (\<lambda>d. d \<notin> dated_days st) days" for st new
    unfolding that(2) days_def cutoff_def
    by (intro conjI impI parts_exact [OF assms(1) that(1) assms(4)])
  show ?thesis
  proof (cases "has_default st \<and> (\<exists>r \<in> set (pt_rows st). row_day r \<in> set new)")
    case True
    then show ?thesis using exact [OF assms(2) new_def] by (auto simp: Let_def set_new)
  next
    case False
    let ?st = "swept row_day parent new cutoff st"
    have run: "ensure_partitions row_day parent preallocate_days retention_days now st = Inr (map (partition_name parent) new,
         filter (expired cutoff) (map fst (pt_children st) @ map (partition_name parent) new), ?st)"
      and d: "daily parent ?st" using exact [OF assms(2) new_def] False by auto
    have dd: "dated_days ?st = {d \<in> dated_days st \<union> {day_of now ..< day_of now + int preallocate_days}. cutoff \<le> d}"
      unfolding swept_days set_new by auto
    have none: "filter (\<lambda>d. d \<notin> dated_days ?st) days = []"
      using late by (auto simp: filter_empty_conv dd set_days)
    have again: "ensure_partitions row_day parent preallocate_days retention_days now ?st = Inr ([], [], ?st)"
      using exact [OF d refl] swept_again [OF d refl] unfolding none by simp
    have rows: "pt_rows ?st = filter (\<lambda>r. row_day r \<in> dated_days st \<longrightarrow> cutoff \<le> row_day r) (pt_rows st)"
      unfolding swept_rows using late by (intro filter_cong) (auto simp: kept_row_def new_def)
    have "cutoff \<le> d \<and> printable_day d" if "d \<in> set new" for d
      using that late [of d] assms(4) by (auto simp: new_def days_def)
    then have "\<not> expired cutoff (partition_name parent d)" if "d \<in> set new" for d
      using that expired_partition [of d cutoff parent] by force
    then have new_kept: "filter (expired cutoff) (map (partition_name parent) new) = []"
      by (auto simp: filter_empty_conv)
    have dropped: "set (filter (expired cutoff) (map fst (pt_children st) @ map (partition_name parent) new)) =
        partition_name parent ` {d \<in> dated_days st. d < cutoff}"
      unfolding filter_append new_kept append_Nil2 by (rule expired_names [OF assms(2)])
    have created: "set (map (partition_name parent) new) =
        partition_name parent ` ({day_of now ..< day_of now + int preallocate_days} - dated_days st)"
      unfolding set_map set_new ..
    have ins: "\<exists>st''. insert_row row_day r ?st = Inr st''" for r by (simp add: insert_row_def swept_default)
    have blocked: "\<not> (has_default st \<and> (\<exists>r \<in> set (pt_rows st).
        row_day r \<in> {day_of now ..< day_of now + int preallocate_days} - dated_days st))" using False by (simp add: set_new)
    show ?thesis unfolding Let_def if_not_P [OF blocked] cutoff_def [symmetric]
      by (intro exI conjI) (rule run d swept_default dd rows created dropped again allI ins)+
  qed
qed

theorem partition_sweep_witness:
  "ensure_partitions id ''jobs'' 1 30 0 \<lparr>pt_rows = [719163 :: int], pt_children = [(''jobs_default'', None)], pt_relations = []\<rparr> =
     Inl DefaultViolated"
proof -
  let ?st = "\<lparr>pt_rows = [719163 :: int], pt_children = [(''jobs_default'', None)], pt_relations = []\<rparr>"
  have d: "daily ''jobs'' ?st" by (simp add: daily_def default_name_def)
  have p: "printable_day (day_of 0 + int i)" if "i < 1" for i using that by (simp add: printable_day_def day_of_def)
  show ?thesis
    using partition_sweep [of "''jobs''" ?st 30 1 0 id, OF _ d _ p]
    by (simp add: PARTITIONED_def Let_def day_of_def has_default_def dated_days_def)
qed

end
