(* ===== verification/JobService.thy ===== *)
theory JobService
  imports ApiKeyService PartitionLaws
begin

text \<open>
  \<open>job/job_service.py\<close> over the rows of \<open>job/job_models.py\<close>: the governed CRUD of jobs, the
  claim, completion and recovery statements of the runners, and the partitions of the table.
\<close>

section \<open>Jobs\<close>

definition JOB_PENDING :: string where "JOB_PENDING = ''PENDING''"
definition JOB_SUSPENDED :: string where "JOB_SUSPENDED = ''SUSPENDED''"
definition JOB_RUNNING :: string where "JOB_RUNNING = ''RUNNING''"
definition JOB_COMPLETED :: string where "JOB_COMPLETED = ''COMPLETED''"
definition JOB_ERROR :: string where "JOB_ERROR = ''ERROR''"

definition JOB_CLIENT_STATUSES :: "string list" where
  "JOB_CLIENT_STATUSES = [JOB_PENDING, JOB_SUSPENDED]"

definition JOB_TERMINAL_STATUSES :: "string list" where
  "JOB_TERMINAL_STATUSES = [JOB_COMPLETED, JOB_ERROR]"

lemmas job_statuses = JOB_PENDING_def JOB_SUSPENDED_def JOB_RUNNING_def JOB_COMPLETED_def JOB_ERROR_def

text \<open>The result of a job body: a status, which the class does not restrict, and a description.\<close>

record job_run =
  jr_status :: string
  jr_detail :: "string option"

text \<open>The only concrete body in the repository, and its run.\<close>

datatype job_details = LogJobDetails string

fun details_kind :: "job_details \<Rightarrow> string" where
  "details_kind (LogJobDetails message) = ''LogJobDetails''"

fun call_details :: "job_details \<Rightarrow> job_run" where
  "call_details (LogJobDetails message) = \<lparr>jr_status = JOB_COMPLETED, jr_detail = None\<rparr>"

record job =
  j_id :: uuid
  j_created_at :: datetime
  j_creator_id :: uuid
  j_details_kind :: string
  j_details :: job_details
  j_runner_id :: "uuid option"
  j_status :: string
  j_detail :: "string option"
  j_max_seconds :: int
  j_started_at :: "datetime option"
  j_updated_at :: datetime

definition job_attrs :: "job \<Rightarrow> row" where
  "job_attrs j a =
     (if a = ''id'' then VUuid (j_id j)
      else if a = ''created_at'' then time_val (j_created_at j)
      else if a = ''creator_id'' then VUuid (j_creator_id j)
      else if a = ''job_details_kind'' then VStr (j_details_kind j)
      else if a = ''job_details'' then VList []
      else if a = ''runner_id'' then opt_val VUuid (j_runner_id j)
      else if a = ''status'' then VStr (j_status j)
      else if a = ''detail'' then opt_val VStr (j_detail j)
      else if a = ''max_seconds_for_run'' then VInt (j_max_seconds j)
      else if a = ''started_at'' then opt_val time_val (j_started_at j)
      else if a = ''updated_at'' then time_val (j_updated_at j)
      else VNone)"

lemma job_attrs_id [simp]: "job_attrs j ''id'' = VUuid (j_id j)"
  by (simp add: job_attrs_def)

record job_db = svc_db +
  jd_jobs :: "job parted"

abbreviation job_rows :: "'z job_db_scheme \<Rightarrow> job list" where
  "job_rows db \<equiv> pt_rows (jd_jobs db)"

definition set_jobs :: "job list \<Rightarrow> 'z job_db_scheme \<Rightarrow> 'z job_db_scheme" where
  "set_jobs rows db = db\<lparr>jd_jobs := (jd_jobs db)\<lparr>pt_rows := rows\<rparr>\<rparr>"

lemma set_jobs_simps [simp]:
  "job_rows (set_jobs rows db) = rows" "td_users (set_jobs rows db) = td_users db"
  "set_jobs rows (set_jobs rows' db) = set_jobs rows db" "set_jobs (job_rows db) db = db"
  by (simp_all add: set_jobs_def)

definition job_day :: "job \<Rightarrow> int" where
  "job_day j = day_of (j_created_at j)"

section \<open>Payloads\<close>

text \<open>\<open>JobCreateStatus\<close>: the statuses a client may set.\<close>

datatype job_create_status = ClientPending | ClientSuspended

fun status_text :: "job_create_status \<Rightarrow> string" where
  "status_text ClientPending = JOB_PENDING"
| "status_text ClientSuspended = JOB_SUSPENDED"

record job_create =
  jc_details :: job_details
  jc_status :: job_create_status
  jc_detail :: "string option"
  jc_max_seconds :: int

text \<open>A field of the update that was not sent is \<open>None\<close>, one sent as null is \<open>Some None\<close>.\<close>

record job_update =
  jup_details :: "job_details option option"
  jup_status :: "job_create_status option option"
  jup_detail :: "string option option"
  jup_max_seconds :: "int option option"

section \<open>CRUD\<close>

definition new_job :: "'y svc_env_scheme \<Rightarrow> nat \<Rightarrow> uuid \<Rightarrow> job_create \<Rightarrow> job" where
  "new_job env i creator payload =
     \<lparr>j_id = se_uuid env i, j_created_at = se_now env, j_creator_id = creator,
      j_details_kind = details_kind (jc_details payload), j_details = jc_details payload, j_runner_id = None,
      j_status = status_text (jc_status payload), j_detail = jc_detail payload,
      j_max_seconds = jc_max_seconds payload, j_started_at = None, j_updated_at = se_now env\<rparr>"

text \<open>The INSERT: primary key, the foreign key of the creator, and a partition for the row.\<close>

definition insert_job :: "job \<Rightarrow> 'z job_db_scheme \<Rightarrow> svc_error + job \<times> 'z job_db_scheme" where
  "insert_job j db =
     (if (\<exists>k \<in> set (job_rows db). j_id k = j_id j \<and> j_created_at k = j_created_at j) then Inl (IntegrityErr ''unique'')
      else if j_creator_id j \<notin> u_id ` set (td_users db) then Inl (IntegrityErr ''foreign key'')
      else
        (case insert_row job_day j (jd_jobs db) of
           Inl e \<Rightarrow> Inl (IntegrityErr ''no partition'')
         | Inr jobs \<Rightarrow> Inr (j, db\<lparr>jd_jobs := jobs\<rparr>)))"


definition create_job ::
    "'y svc_env_scheme \<Rightarrow> uuid \<Rightarrow> nat \<Rightarrow> sfilter \<Rightarrow> job_create \<Rightarrow> 'z job_db_scheme \<Rightarrow>
     svc_error + job \<times> 'z job_db_scheme" where
  "create_job env creator i perm_filter payload db =
     (let j = new_job env i creator payload
      in bindR (check_scope perm_filter (job_attrs j)) (\<lambda>_. insert_job j db))"

definition get_job :: "'y svc_env_scheme \<Rightarrow> sfilter \<Rightarrow> uuid \<Rightarrow> 'z job_db_scheme \<Rightarrow> svc_error + job" where
  "get_job env perm_filter k db =
     scoped_get (se_ev env) (sql_tables db) perm_filter job_attrs j_id (job_rows db) k"

definition get_many_jobs ::
    "'y svc_env_scheme \<Rightarrow> sfilter \<Rightarrow> uuid list \<Rightarrow> 'z job_db_scheme \<Rightarrow> svc_error + job option list" where
  "get_many_jobs env perm_filter ids db =
     scoped_get_many (se_ev env) (sql_tables db) perm_filter job_attrs j_id (job_rows db) ids"

definition search_jobs ::
    "'y svc_env_scheme \<Rightarrow> sfilter \<Rightarrow> 'z job_db_scheme \<Rightarrow> uuid option \<Rightarrow> nat \<Rightarrow> sfilter option \<Rightarrow>
     svc_error + job list \<times> uuid option" where
  "search_jobs env perm_filter db cursor limit search_filter =
     scoped_search (se_ev env) (sql_tables db) perm_filter job_attrs j_id (job_rows db) cursor limit search_filter"

definition count_jobs ::
    "'y svc_env_scheme \<Rightarrow> sfilter \<Rightarrow> 'z job_db_scheme \<Rightarrow> sfilter option \<Rightarrow> svc_error + nat" where
  "count_jobs env perm_filter db search_filter =
     scoped_count (se_ev env) (sql_tables db) perm_filter job_attrs (job_rows db) search_filter"

definition replace_job :: "job \<Rightarrow> 'z job_db_scheme \<Rightarrow> 'z job_db_scheme" where
  "replace_job j db =
     set_jobs (map (\<lambda>k. if j_id k = j_id j \<and> j_created_at k = j_created_at j then j else k) (job_rows db)) db"

text \<open>
  \<open>_UPDATE_TRANSFORMS\<close> copies the sent fields, null included; the columns of the status and of the
  time limit are NOT NULL, and the violation is not caught.
\<close>

definition update_job ::
    "'y svc_env_scheme \<Rightarrow> sfilter \<Rightarrow> uuid \<Rightarrow> job_update \<Rightarrow> 'z job_db_scheme \<Rightarrow>
     svc_error + job \<times> 'z job_db_scheme" where
  "update_job env perm_filter k payload db =
     bindR (get_job env perm_filter k db) (\<lambda>job.
       if jup_status payload = Some None \<or> jup_max_seconds payload = Some None
       then Inl (IntegrityErr ''not null'')
       else
         let j = (case jup_details payload of
                    Some (Some d) \<Rightarrow> (\<lambda>x. x\<lparr>j_details := d, j_details_kind := details_kind d\<rparr>)
                  | _ \<Rightarrow> (\<lambda>x. x))
                (set_if (jup_max_seconds payload) (\<lambda>n x. x\<lparr>j_max_seconds := the n\<rparr>)
                (set_if (jup_detail payload) (\<lambda>d x. x\<lparr>j_detail := d\<rparr>)
                (set_if (jup_status payload) (\<lambda>s x. x\<lparr>j_status := status_text (the s)\<rparr>) job)))
         in if j = job then Inr (job, db)
            else let j' = j\<lparr>j_updated_at := se_now env\<rparr> in Inr (j', replace_job j' db))"

definition delete_job ::
    "'y svc_env_scheme \<Rightarrow> sfilter \<Rightarrow> uuid \<Rightarrow> 'z job_db_scheme \<Rightarrow> svc_error + 'z job_db_scheme" where
  "delete_job env perm_filter k db =
     bindR (get_job env perm_filter k db) (\<lambda>job.
       Inr (set_jobs (filter (\<lambda>x. \<not> (j_id x = j_id job \<and> j_created_at x = j_created_at job)) (job_rows db)) db))"

definition apply_job_batch ::
    "'y svc_env_scheme \<Rightarrow> uuid \<Rightarrow> (uuid, job_create, job_update) batch_op list \<Rightarrow> (action \<Rightarrow> sfilter option) \<Rightarrow>
     'z job_db_scheme \<Rightarrow> svc_error + job option list \<times> 'z job_db_scheme" where
  "apply_job_batch env creator operations perm_filters db =
     batch_loop (create_job env creator) (update_job env) (delete_job env) perm_filters 0 operations db"

section \<open>The statements of the runners\<close>

definition create_runner_owned ::
    "'y svc_env_scheme \<Rightarrow> nat \<Rightarrow> job_create \<Rightarrow> uuid \<Rightarrow> uuid \<Rightarrow> bool \<Rightarrow> 'z job_db_scheme \<Rightarrow>
     svc_error + job \<times> 'z job_db_scheme" where
  "create_runner_owned env i payload creator runner run_now db =
     insert_job ((new_job env i creator payload)\<lparr>j_runner_id := Some runner,
       j_status := (if run_now then JOB_RUNNING else JOB_PENDING),
       j_started_at := (if run_now then Some (se_now env) else None)\<rparr>) db"

text \<open>
  \<open>claim_pending\<close> is two statements. The first selects at most \<open>limit\<close> ids of pending jobs, without
  locking them; the second claims those of them that are still pending when it runs.
\<close>

definition claim_ids ::
    "'y svc_env_scheme \<Rightarrow> sfilter \<Rightarrow> nat \<Rightarrow> 'z job_db_scheme \<Rightarrow> svc_error + uuid list" where
  "claim_ids env perm_filter limit db =
     bindR (svc_py (filter_sql perm_filter)) (\<lambda>cond.
       Inr (take limit (map j_id (sort_key j_id
         (filter (\<lambda>j. j_status j = JOB_PENDING \<and> where_holds (se_ev env) (sql_tables db) cond (job_attrs j))
            (job_rows db))))))"

definition claimable :: "uuid list \<Rightarrow> job \<Rightarrow> bool" where
  "claimable ids j = (j_id j \<in> set ids \<and> j_status j = JOB_PENDING)"

definition set_claimed :: "uuid \<Rightarrow> datetime \<Rightarrow> datetime \<Rightarrow> job \<Rightarrow> job" where
  "set_claimed runner now updated j =
     j\<lparr>j_runner_id := Some runner, j_status := JOB_RUNNING, j_started_at := Some now, j_updated_at := updated\<rparr>"

definition claim_rows ::
    "'y svc_env_scheme \<Rightarrow> uuid \<Rightarrow> uuid list \<Rightarrow> 'z job_db_scheme \<Rightarrow> job list \<times> 'z job_db_scheme" where
  "claim_rows env runner ids db =
     (let c = set_claimed runner (se_now env) (se_now env) in
      (map c (filter (claimable ids) (job_rows db)),
       set_jobs (map (\<lambda>j. if claimable ids j then c j else j) (job_rows db)) db))"

definition claim_pending ::
    "'y svc_env_scheme \<Rightarrow> sfilter \<Rightarrow> uuid \<Rightarrow> int \<Rightarrow> 'z job_db_scheme \<Rightarrow> svc_error + job list \<times> 'z job_db_scheme" where
  "claim_pending env perm_filter runner limit db =
     (if limit \<le> 0 then Inr ([], db)
      else
        bindR (claim_ids env perm_filter (nat limit) db) (\<lambda>ids.
          if ids = [] then Inr ([], db) else Inr (claim_rows env runner ids db)))"

text \<open>
  What running a body gave: the returned value, or the type and text of an exception. The result of
  \<open>complete\<close> is whether a row was updated.
\<close>

definition complete ::
    "'y svc_env_scheme \<Rightarrow> uuid \<Rightarrow> uuid \<Rightarrow> job_run option \<Rightarrow> job_details option \<Rightarrow> (string \<times> string) option \<Rightarrow>
     'z job_db_scheme \<Rightarrow> svc_error + bool \<times> 'z job_db_scheme" where
  "complete env k runner run details exception db =
     (case (exception, run) of
        (None, None) \<Rightarrow> Inl (Raised500 AssertionErr)
      | _ \<Rightarrow>
          let (status, detail) = (case exception of
                 Some (name, message) \<Rightarrow> (JOB_ERROR, Some (name @ '': '' @ message))
               | None \<Rightarrow> (jr_status (the run), jr_detail (the run)));
              mine = (\<lambda>j. j_id j = k \<and> j_runner_id j = Some runner \<and> j_status j = JOB_RUNNING);
              finish = (\<lambda>j. j\<lparr>j_status := status, j_detail := detail,
                 j_details := (case details of None \<Rightarrow> j_details j | Some d \<Rightarrow> d), j_updated_at := se_now env\<rparr>)
          in Inr (\<exists>j \<in> set (job_rows db). mine j,
                  set_jobs (map (\<lambda>j. if mine j then finish j else j) (job_rows db)) db))"

text \<open>\<open>started_at < now - max_seconds_for_run * interval '1 second'\<close>.\<close>

definition overdue :: "datetime \<Rightarrow> job \<Rightarrow> bool" where
  "overdue now j =
     (j_status j = JOB_RUNNING \<and>
      (case j_started_at j of None \<Rightarrow> False | Some t \<Rightarrow> t < now - seconds (j_max_seconds j)))"

definition recover :: "datetime \<Rightarrow> job \<Rightarrow> job" where
  "recover updated j =
     j\<lparr>j_status := JOB_ERROR,
       j_detail := Some ''dead-runner/timeout recovery: run exceeded max_seconds_for_run'',
       j_updated_at := updated\<rparr>"

definition recover_dead_runners ::
    "'y svc_env_scheme \<Rightarrow> datetime option \<Rightarrow> 'z job_db_scheme \<Rightarrow> nat \<times> 'z job_db_scheme" where
  "recover_dead_runners env given db =
     (let now = (case given of None \<Rightarrow> se_now env | Some t \<Rightarrow> t) in
      (length (filter (overdue now) (job_rows db)),
       set_jobs (map (\<lambda>j. if overdue now j then recover (se_now env) j else j) (job_rows db)) db))"

definition count_running_for_runner :: "uuid \<Rightarrow> 'z job_db_scheme \<Rightarrow> nat" where
  "count_running_for_runner runner db =
     length (filter (\<lambda>j. j_runner_id j = Some runner \<and> j_status j = JOB_RUNNING) (job_rows db))"

section \<open>Partitions\<close>

definition job_ensure_partitions ::
    "nat \<Rightarrow> int \<Rightarrow> datetime \<Rightarrow> 'z job_db_scheme \<Rightarrow> ddl_error + string list \<times> string list \<times> 'z job_db_scheme" where
  "job_ensure_partitions preallocate_days retention_days now db =
     bindR (ensure_partitions job_day ''jobs'' preallocate_days retention_days now (jd_jobs db))
       (\<lambda>(created, dropped, jobs). Inr (created, dropped, db\<lparr>jd_jobs := jobs\<rparr>))"

interpretation job_table: governed_table job_attrs j_id VUuid
  by unfold_locales simp

end
