(* ===== verification/Routes.thy ===== *)
theory Routes
  imports ApiKeyService AuthzLaws
begin

text \<open>
  The route handlers the governed resources share. Every router of the program repeats the same
  handlers over the service and the schemas of its resource: a collection with a cursor, a count, a create,
  a batch read, a batch write, and get, update and delete by id. A handler resolves its permission
  filter, hands it to the service, maps the exceptions of the service to a status code,
  commits and serializes. \<open>Inl\<close> is the status code of an error response.
\<close>

section \<open>Requests and responses\<close>

text \<open>The tables the permission dependencies read.\<close>

definition auth_view :: "'z svc_db_scheme \<Rightarrow> auth_db" where
  "auth_view db = \<lparr>db_roles = sv_roles db, db_user_roles = sv_user_roles db, db_group_users = sv_group_users db\<rparr>"

text \<open>The \<open>except\<close> clauses of a handler: an exception none of them names is a 500.\<close>

definition http_errors :: "(svc_error \<Rightarrow> nat option) \<Rightarrow> svc_error + 'a \<Rightarrow> nat + 'a" where
  "http_errors clauses r =
     (case r of Inr x \<Rightarrow> Inr x | Inl e \<Rightarrow> Inl (case clauses e of None \<Rightarrow> 500 | Some s \<Rightarrow> s))"

fun on_not_found :: "svc_error \<Rightarrow> nat option" where
  "on_not_found NotFoundError = Some 404"
| "on_not_found _ = None"

text \<open>
  A mutating handler commits and then serializes what the service returned, an error leaves the
  database as it was. A row that fails
  the validation of the response schema is thus a 500 after the commit.
\<close>

definition commit_read :: "'s \<Rightarrow> ('r \<Rightarrow> nat + 'v) \<Rightarrow> nat + 'r \<times> 's \<Rightarrow> (nat + 'v) \<times> 's" where
  "commit_read db read r = (case r of Inl s \<Rightarrow> (Inl s, db) | Inr (x, db') \<Rightarrow> (read x, db'))"

fun read_all :: "('r \<Rightarrow> nat + 'v) \<Rightarrow> 'r list \<Rightarrow> nat + 'v list" where
  "read_all read [] = Inr []"
| "read_all read (r # rs) = bindR (read r) (\<lambda>v. bindR (read_all read rs) (\<lambda>vs. Inr (v # vs)))"

definition read_opt :: "('r \<Rightarrow> nat + 'v) \<Rightarrow> 'r option \<Rightarrow> nat + 'v option" where
  "read_opt read r = (case r of None \<Rightarrow> Inr None | Some x \<Rightarrow> bindR (read x) (\<lambda>v. Inr (Some v)))"

text \<open>\<open>str.strip()\<close>.\<close>

definition strip :: "string \<Rightarrow> string" where
  "strip s = rev (dropWhile is_space (rev (dropWhile is_space s)))"

text \<open>A required name: between 1 and \<open>n\<close> characters as sent, then stripped, and not of white space only.\<close>

definition strip_required :: "nat \<Rightarrow> string \<Rightarrow> nat + string" where
  "strip_required n s = (if s = [] \<or> n < length s \<or> strip s = [] then Inl 422 else Inr (strip s))"

definition on_opt :: "('a \<Rightarrow> nat + 'b) \<Rightarrow> 'a option \<Rightarrow> nat + 'b option" where
  "on_opt f v = (case v of None \<Rightarrow> Inr None | Some x \<Rightarrow> bindR (f x) (\<lambda>y. Inr (Some y)))"

definition max_chars :: "nat \<Rightarrow> string \<Rightarrow> nat + string" where
  "max_chars n s = (if n < length s then Inl 422 else Inr s)"

section \<open>Dependencies\<close>

text \<open>
  Every route starts from a fresh request state. FastAPI resolves the dependencies before it
  reports an invalid parameter, so a missing grant is a 403 whatever the parameters are.
\<close>

definition guard ::
    "registry \<Rightarrow> auth_db \<Rightarrow> string \<Rightarrow> action \<Rightarrow> auth_token option \<Rightarrow> (sfilter \<Rightarrow> nat + 'a) \<Rightarrow> nat + 'a" where
  "guard reg adb model a token handler =
     bindR (fst (depends_permissions reg adb model a new_request token)) handler"

text \<open>The filters of a batch write are resolved one after the other on the same request state.\<close>

fun batch_filters ::
    "registry \<Rightarrow> auth_db \<Rightarrow> string \<Rightarrow> auth_token option \<Rightarrow> action list \<Rightarrow> request \<Rightarrow> action \<Rightarrow> sfilter option" where
  "batch_filters reg adb model token [] req b = None"
| "batch_filters reg adb model token (a # as) req b =
     (let (f, req') = depends_permissions_or_none reg adb model a req token
      in if b = a then f else batch_filters reg adb model token as req' b)"

text \<open>Several permissions of one request, resolved in order on the same request state.\<close>

fun guards ::
    "registry \<Rightarrow> auth_db \<Rightarrow> auth_token option \<Rightarrow> (string \<times> action) list \<Rightarrow> request \<Rightarrow> (sfilter list \<Rightarrow> nat + 'a) \<Rightarrow> nat + 'a" where
  "guards reg adb token [] req handler = handler []"
| "guards reg adb token ((model, a) # deps) req handler =
     (let (r, req') = depends_permissions reg adb model a req token
      in bindR r (\<lambda>f. guards reg adb token deps req' (\<lambda>fs. handler (f # fs))))"

fun or_none_filters ::
    "registry \<Rightarrow> auth_db \<Rightarrow> auth_token option \<Rightarrow> (string \<times> action) list \<Rightarrow> request \<Rightarrow> sfilter option list" where
  "or_none_filters reg adb token [] req = []"
| "or_none_filters reg adb token ((model, a) # deps) req =
     (let (f, req') = depends_permissions_or_none reg adb model a req token
      in f # or_none_filters reg adb token deps req')"

text \<open>The principal a handler attributes what it creates to.\<close>

definition require_user :: "nat \<Rightarrow> auth_token option \<Rightarrow> (uuid \<Rightarrow> nat + 'a) \<Rightarrow> nat + 'a" where
  "require_user status token handler = (case depends_user_id token of None \<Rightarrow> Inl status | Some u \<Rightarrow> handler u)"

definition opt_cursor :: "(string \<Rightarrow> nat + 'k) \<Rightarrow> string option \<Rightarrow> nat + 'k option" where
  "opt_cursor parse cursor = on_opt parse cursor"

text \<open>\<open>_cursor\<close>.\<close>

definition uuid_cursor :: "string \<Rightarrow> nat + uuid" where
  "uuid_cursor s = (case uuid_parse s of None \<Rightarrow> Inl 400 | Some u \<Rightarrow> Inr u)"

section \<open>Handlers\<close>

definition search_route ::
    "registry \<Rightarrow> auth_db \<Rightarrow> string \<Rightarrow> auth_token option \<Rightarrow> (string \<Rightarrow> nat + 'k) \<Rightarrow> ('k \<Rightarrow> string) \<Rightarrow> ('r \<Rightarrow> nat + 'v) \<Rightarrow>
     (sfilter \<Rightarrow> 'k option \<Rightarrow> nat \<Rightarrow> sfilter option \<Rightarrow> svc_error + 'r list \<times> 'k option) \<Rightarrow> sfilter \<Rightarrow> string option \<Rightarrow>
     nat \<Rightarrow> nat + 'v list \<times> string option \<times> nat" where
  "search_route reg adb model token parse show_key read search search_filter cursor limit =
     guard reg adb model SEARCH token (\<lambda>perm_filter.
       if limit < 1 \<or> 100 < limit then Inl 422
       else
         bindR (opt_cursor parse cursor) (\<lambda>cur.
         bindR (http_errors (\<lambda>_. None) (search perm_filter cur limit (Some search_filter))) (\<lambda>(rows, next_cursor).
         bindR (read_all read rows) (\<lambda>items. Inr (items, map_option show_key next_cursor, limit)))))"

definition count_route ::
    "registry \<Rightarrow> auth_db \<Rightarrow> string \<Rightarrow> auth_token option \<Rightarrow> (sfilter \<Rightarrow> sfilter option \<Rightarrow> svc_error + nat) \<Rightarrow> sfilter \<Rightarrow> nat + nat" where
  "count_route reg adb model token count search_filter =
     guard reg adb model SEARCH token (\<lambda>perm_filter. http_errors (\<lambda>_. None) (count perm_filter (Some search_filter)))"

definition batch_read_route ::
    "registry \<Rightarrow> auth_db \<Rightarrow> string \<Rightarrow> auth_token option \<Rightarrow> ('r \<Rightarrow> nat + 'v) \<Rightarrow>
     (sfilter \<Rightarrow> 'k list \<Rightarrow> svc_error + 'r option list) \<Rightarrow> 'k list \<Rightarrow> nat + 'v option list" where
  "batch_read_route reg adb model token read get_many ids =
     guard reg adb model READ token (\<lambda>perm_filter.
       if 100 < length ids then Inl 422
       else bindR (http_errors (\<lambda>_. None) (get_many perm_filter ids)) (read_all (read_opt read)))"

definition get_route ::
    "registry \<Rightarrow> auth_db \<Rightarrow> string \<Rightarrow> auth_token option \<Rightarrow> ('r \<Rightarrow> nat + 'v) \<Rightarrow> (sfilter \<Rightarrow> svc_error + 'r) \<Rightarrow> nat + 'v" where
  "get_route reg adb model token read get =
     guard reg adb model READ token (\<lambda>perm_filter. bindR (http_errors on_not_found (get perm_filter)) read)"

text \<open>Create and update: the body is validated, the handler calls the service.\<close>

definition write_route ::
    "registry \<Rightarrow> auth_db \<Rightarrow> string \<Rightarrow> action \<Rightarrow> auth_token option \<Rightarrow> ('p \<Rightarrow> nat + 'p) \<Rightarrow> ('r \<Rightarrow> nat + 'v) \<Rightarrow>
     (sfilter \<Rightarrow> 'p \<Rightarrow> nat + 'r \<times> 's) \<Rightarrow> 'p \<Rightarrow> 's \<Rightarrow> (nat + 'v) \<times> 's" where
  "write_route reg adb model a token validate read handler payload db =
     commit_read db read (guard reg adb model a token (\<lambda>perm_filter. bindR (validate payload) (handler perm_filter)))"

definition delete_route ::
    "registry \<Rightarrow> auth_db \<Rightarrow> string \<Rightarrow> auth_token option \<Rightarrow> (sfilter \<Rightarrow> svc_error + 's) \<Rightarrow> 's \<Rightarrow> (nat + unit) \<times> 's" where
  "delete_route reg adb model token delete db =
     commit_read db Inr (guard reg adb model DELETE token (\<lambda>perm_filter.
       bindR (http_errors on_not_found (delete perm_filter)) (\<lambda>db'. Inr ((), db'))))"

text \<open>The operations of a batch, each validated by the schema of its kind.\<close>

fun valid_batch ::
    "('p \<Rightarrow> nat + 'p) \<Rightarrow> ('u \<Rightarrow> nat + 'u) \<Rightarrow> ('k, 'p, 'u) batch_op list \<Rightarrow> nat + ('k, 'p, 'u) batch_op list" where
  "valid_batch vc vu [] = Inr []"
| "valid_batch vc vu (BatchCreate p # ops) =
     bindR (vc p) (\<lambda>q. bindR (valid_batch vc vu ops) (\<lambda>qs. Inr (BatchCreate q # qs)))"
| "valid_batch vc vu (BatchUpdate k u # ops) =
     bindR (vu u) (\<lambda>q. bindR (valid_batch vc vu ops) (\<lambda>qs. Inr (BatchUpdate k q # qs)))"
| "valid_batch vc vu (BatchDelete k # ops) = bindR (valid_batch vc vu ops) (\<lambda>qs. Inr (BatchDelete k # qs))"

definition batch_write_route ::
    "registry \<Rightarrow> auth_db \<Rightarrow> string \<Rightarrow> action list \<Rightarrow> auth_token option \<Rightarrow> ('p \<Rightarrow> nat + 'p) \<Rightarrow> ('u \<Rightarrow> nat + 'u) \<Rightarrow>
     ('r \<Rightarrow> nat + 'v) \<Rightarrow> ((action \<Rightarrow> sfilter option) \<Rightarrow> ('k, 'p, 'u) batch_op list \<Rightarrow> nat + 'r option list \<times> 's) \<Rightarrow>
     ('k, 'p, 'u) batch_op list \<Rightarrow> 's \<Rightarrow> (nat + 'v option list) \<times> 's" where
  "batch_write_route reg adb model actions token vc vu read handler operations db =
     (let perm_filters = batch_filters reg adb model token actions new_request in
      commit_read db (read_all (read_opt read))
        (if operations = [] \<or> 100 < length operations then Inl 422
         else bindR (valid_batch vc vu operations) (handler perm_filters)))"

end
