(* ===== verification/ApiKeyRouter.thy ===== *)
theory ApiKeyRouter
  imports Routes
begin

text \<open>
  \<open>api_key/api_key_router.py\<close>: the seven routes of API keys, from the authenticated principal to
  the committed database, over the handlers of \<open>Routes\<close>.
\<close>

section \<open>Requests and responses\<close>

text \<open>\<open>ApiKeyRead\<close> and \<open>ApiKeyCreated\<close>: neither carries the hash, the latter carries the key once.\<close>

record api_key_read =
  kr_id :: uuid
  kr_prefix :: string
  kr_creator_id :: uuid
  kr_name :: "string option"
  kr_enabled :: bool
  kr_expires_at :: "datetime option"
  kr_role_id :: "uuid option"
  kr_system :: bool
  kr_created_at :: datetime
  kr_updated_at :: datetime

definition key_read :: "api_key \<Rightarrow> api_key_read" where
  "key_read k =
     \<lparr>kr_id = ak_id k, kr_prefix = ak_prefix k, kr_creator_id = ak_creator_id k, kr_name = ak_name k,
      kr_enabled = ak_enabled k, kr_expires_at = ak_expires_at k, kr_role_id = ak_role_id k,
      kr_system = ak_system k, kr_created_at = ak_created_at k, kr_updated_at = ak_updated_at k\<rparr>"

fun on_scope :: "svc_error \<Rightarrow> nat option" where
  "on_scope PermissionScopeError = Some 403"
| "on_scope _ = None"

fun on_batch :: "svc_error \<Rightarrow> nat option" where
  "on_batch (BatchPermissionDeniedError s) = Some 403"
| "on_batch PermissionScopeError = Some 403"
| "on_batch NotFoundError = Some 404"
| "on_batch _ = None"

section \<open>Payload validation\<close>

text \<open>
  The \<open>name\<close> field of the two payloads: at most 255 characters as sent, then stripped; a name of
  white space only is refused. A refused payload is a 422.
\<close>

definition strip_name :: "string option \<Rightarrow> nat + string option" where
  "strip_name v =
     (case v of
        None \<Rightarrow> Inr None
      | Some s \<Rightarrow>
          if 255 < length s then Inl 422
          else if strip s = '''' then Inl 422 else Inr (Some (strip s)))"

definition valid_create :: "api_key_create \<Rightarrow> nat + api_key_create" where
  "valid_create payload = bindR (strip_name (kc_name payload)) (\<lambda>n. Inr (payload\<lparr>kc_name := n\<rparr>))"

definition valid_update :: "api_key_update \<Rightarrow> nat + api_key_update" where
  "valid_update payload = bindR (strip_name (ku_name payload)) (\<lambda>n. Inr (payload\<lparr>ku_name := n\<rparr>))"

section \<open>Routes\<close>

definition search_api_keys_route ::
    "'y svc_env_scheme \<Rightarrow> registry \<Rightarrow> auth_token option \<Rightarrow> sfilter \<Rightarrow> string option \<Rightarrow> nat \<Rightarrow>
     'z svc_db_scheme \<Rightarrow> nat + api_key_read list \<times> string option \<times> nat" where
  "search_api_keys_route env reg token search_filter cursor limit db =
     search_route reg (auth_view db) ''ApiKey'' token uuid_cursor uuid_str (\<lambda>k. Inr (key_read k))
       (\<lambda>f. search_keys env f db) search_filter cursor limit"

definition count_api_keys_route ::
    "'y svc_env_scheme \<Rightarrow> registry \<Rightarrow> auth_token option \<Rightarrow> sfilter \<Rightarrow> 'z svc_db_scheme \<Rightarrow> nat + nat" where
  "count_api_keys_route env reg token search_filter db =
     count_route reg (auth_view db) ''ApiKey'' token (\<lambda>f. count_keys env f db) search_filter"

text \<open>The response to a creation carries the key itself, this once.\<close>

definition create_api_key_route ::
    "'y svc_env_scheme \<Rightarrow> registry \<Rightarrow> auth_token option \<Rightarrow> api_key_create \<Rightarrow> 'z svc_db_scheme \<Rightarrow>
     (nat + api_key_read \<times> string) \<times> 'z svc_db_scheme" where
  "create_api_key_route env reg token payload db =
     write_route reg (auth_view db) ''ApiKey'' CREATE token valid_create (\<lambda>(key, row). Inr (key_read row, key))
       (\<lambda>f body. require_user 403 token (\<lambda>user_id.
          bindR (http_errors on_scope (create_key env user_id 0 f body db)) (\<lambda>(key, row, db'). Inr ((key, row), db'))))
       payload db"

definition get_api_keys_batch_route ::
    "'y svc_env_scheme \<Rightarrow> registry \<Rightarrow> auth_token option \<Rightarrow> uuid list \<Rightarrow> 'z svc_db_scheme \<Rightarrow>
     nat + api_key_read option list" where
  "get_api_keys_batch_route env reg token ids db =
     batch_read_route reg (auth_view db) ''ApiKey'' token (\<lambda>k. Inr (key_read k)) (\<lambda>f ks. get_many_keys env f ks db) ids"

definition write_api_keys_batch_route ::
    "'y svc_env_scheme \<Rightarrow> registry \<Rightarrow> auth_token option \<Rightarrow> (uuid, api_key_create, api_key_update) batch_op list \<Rightarrow>
     'z svc_db_scheme \<Rightarrow> (nat + api_key_read option list) \<times> 'z svc_db_scheme" where
  "write_api_keys_batch_route env reg token operations db =
     batch_write_route reg (auth_view db) ''ApiKey'' [CREATE, UPDATE, DELETE] token valid_create valid_update
       (\<lambda>k. Inr (key_read k))
       (\<lambda>perm_filters ops. require_user 403 token (\<lambda>user_id.
          http_errors on_batch (apply_key_batch env user_id ops perm_filters db)))
       operations db"

definition get_api_key_route ::
    "'y svc_env_scheme \<Rightarrow> registry \<Rightarrow> auth_token option \<Rightarrow> uuid \<Rightarrow> 'z svc_db_scheme \<Rightarrow> nat + api_key_read" where
  "get_api_key_route env reg token api_key_id db =
     get_route reg (auth_view db) ''ApiKey'' token (\<lambda>k. Inr (key_read k)) (\<lambda>f. get_key env f api_key_id db)"

definition update_api_key_route ::
    "'y svc_env_scheme \<Rightarrow> registry \<Rightarrow> auth_token option \<Rightarrow> uuid \<Rightarrow> api_key_update \<Rightarrow> 'z svc_db_scheme \<Rightarrow>
     (nat + api_key_read) \<times> 'z svc_db_scheme" where
  "update_api_key_route env reg token api_key_id payload db =
     write_route reg (auth_view db) ''ApiKey'' UPDATE token valid_update (\<lambda>k. Inr (key_read k))
       (\<lambda>f body. http_errors on_not_found (update_key env f api_key_id body db)) payload db"

definition delete_api_key_route ::
    "'y svc_env_scheme \<Rightarrow> registry \<Rightarrow> auth_token option \<Rightarrow> uuid \<Rightarrow> 'z svc_db_scheme \<Rightarrow>
     (nat + unit) \<times> 'z svc_db_scheme" where
  "delete_api_key_route env reg token api_key_id db =
     delete_route reg (auth_view db) ''ApiKey'' token (\<lambda>f. delete_key env f api_key_id db) db"

end
