(* ===== verification/RoutesLaws.thy ===== *)
theory RoutesLaws
  imports Routes JobService
begin

text \<open>
  What the shared handlers answer, once for every resource: the rows a principal reaches through them are those
  the access rule allows, whatever filter the resolution produced. The locale \<open>governed_table\<close> supplies the
  pages; the statements are over the stored rows and the rule \<open>allowed\<close>. The job service is imported for its interpretation of the
  locale, which receives the facts added here like those of the identity services.
\<close>

section \<open>The WHERE clause of a resolved filter\<close>

text \<open>Filters that \<open>filter_sql\<close> treats as \<open>sql_condition\<close> does, down to the level the factories flatten.\<close>

fun no_base :: "sfilter \<Rightarrow> bool" where
  "no_base (BaseSearchFilter e fs) = False"
| "no_base (AndSearchFilter fs) = (\<forall>f \<in> set fs. no_base f)"
| "no_base _ = True"

lemma filter_sql_no_base: "no_base f \<Longrightarrow> filter_sql f = sql_condition f"
  by (cases f) (simp_all add: filter_sql_def)

lemma and_inner_no_base:
  "and_inner cs gs = Some cs' \<Longrightarrow> \<forall>f \<in> set (cs @ gs). no_base f \<Longrightarrow> \<forall>f \<in> set cs'. no_base f"
  by (induction cs gs rule: and_inner.induct) auto

lemma and_loop_no_base:
  "and_loop cs fs = Some cs' \<Longrightarrow> \<forall>f \<in> set (cs @ fs). no_base f \<Longrightarrow> \<forall>f \<in> set cs'. no_base f"
proof (induction cs fs rule: and_loop.induct)
  case (4 cs gs fs)
  from 4(2) obtain cs1 where inner: "and_inner cs gs = Some cs1" and rest: "and_loop cs1 fs = Some cs'"
    by (auto split: option.splits)
  have "\<forall>f \<in> set cs1. no_base f"
    by (rule and_inner_no_base [OF inner]) (use 4(3) in auto)
  with 4(3) have "\<forall>f \<in> set (cs1 @ fs). no_base f" by auto
  with 4(1) [OF inner rest] show ?case by blast
qed auto

lemma and_filter_no_base: "(\<And>f. f \<in> set fs \<Longrightarrow> no_base f) \<Longrightarrow> no_base (and_filter fs)"
  using and_loop_no_base [of "[]" fs] by (auto simp: and_filter_def split: option.splits list.splits)

lemma policy_no_base: "no_base (to_search_filter p u a g)"
  by (induction p) (auto simp: filter_defs split: option.splits)

lemma resolved_no_base:
  assumes "resolved reg adb m a token = Some f"
  shows "no_base f"
proof -
  obtain column t g where g: "combine (role_filters (load_roles adb (tok_user_id t)) column
                  (Some (tok_user_id t)) a (member_groups adb (tok_user_id t))) = Some g"
    and n: "narrowed adb g column a t = Some f"
    using assms by (auto simp: resolved_def split: option.splits if_splits)
  have "\<forall>h \<in> set (role_filters (load_roles adb (tok_user_id t)) column
                  (Some (tok_user_id t)) a (member_groups adb (tok_user_id t))). no_base h"
    by (auto simp: map_filter_policies policy_no_base)
  then have "no_base g" using g by (auto simp: combine_def split: list.splits)
  then show ?thesis using n
    by (auto simp: narrowed_def Let_def policy_no_base intro!: and_filter_no_base split: option.splits if_splits)
qed

text \<open>The rows a resolved filter selects are the allowed rows.\<close>

lemma resolved_in_scope:
  assumes "sql_engine ev" "resolved reg adb m a token = Some f" "policies_ok reg adb m D it"
  shows "in_scope ev D f (attrs it) \<longleftrightarrow> allowed reg adb m a token it"
proof -
  obtain b c where "matches f it = Inr b" "sql_condition f = Inr c" "where_holds ev D c (attrs it) = b"
    using matches_iff_where_lib [OF assms(1) resolved_filter_ok [OF assms(2,3)]] by blast
  moreover have "matches f it = Inr (allowed reg adb m a token it)"
    using resolved_means [of reg adb m a token it] assms(2) by simp
  ultimately show ?thesis
    using filter_sql_no_base [OF resolved_no_base [OF assms(2)]] by (simp add: in_scope_def)
qed

lemma resolved_sql_total:
  assumes "sql_engine ev" "resolved reg adb m a token = Some f" "policies_ok reg adb m D it"
  shows "\<exists>c. filter_sql f = Inr c"
  using matches_iff_where_lib [OF assms(1) resolved_filter_ok [OF assms(2,3)]]
    filter_sql_no_base [OF resolved_no_base [OF assms(2)]] by auto

section \<open>Handlers over a table\<close>

text \<open>The access rule on a row.\<close>

definition row_allowed ::
    "('r \<Rightarrow> row) \<Rightarrow> registry \<Rightarrow> auth_db \<Rightarrow> string \<Rightarrow> action \<Rightarrow> auth_token option \<Rightarrow> 'r \<Rightarrow> bool" where
  "row_allowed view reg adb model a token r = allowed reg adb model a token (plain_item (view r))"

text \<open>Every policy of the resource can be read on the rows of the table.\<close>

definition readable :: "('r \<Rightarrow> row) \<Rightarrow> registry \<Rightarrow> auth_db \<Rightarrow> string \<Rightarrow> db \<Rightarrow> bool" where
  "readable view reg adb model D = (\<forall>r. policies_ok reg adb model D (plain_item (view r)))"

text \<open>
  Policies that read columns the table has, and no related object, can be read on every row. A listed id is a
  UUID, so a table keyed by text cannot be compared with it; a policy on the creator needs that column, and the access rule of API keys
  is written over their own table.
\<close>

definition text_keyed_models :: "string list" where
  "text_keyed_models = [''FeatureFlag'']"

definition owned_models :: "string list" where
  "owned_models = [''ApiKey'', ''Group'', ''GroupUser'', ''Job'', ''OAuthProvider'', ''OAuthSession'']"

fun local_policy :: "string \<Rightarrow> permission \<Rightarrow> bool" where
  "local_policy model (AclPermission ids m x c) =
     (model \<notin> set text_keyed_models \<and> local_policy model m \<and> local_policy model x \<and> local_policy model c)"
| "local_policy model (CreatorPermission m x c) =
     (model \<in> set owned_models \<and> local_policy model m \<and> local_policy model x \<and> local_policy model c)"
| "local_policy model (GroupPermission ids m x c) = (local_policy model m \<and> local_policy model x \<and> local_policy model c)"
| "local_policy model ApiKeyAccess = (model = ''ApiKey'')"
| "local_policy model ConversationRecordAccess = False"
| "local_policy model EventAccess = False"
| "local_policy model _ = True"

lemma local_row_ok:
  "local_policy model p \<Longrightarrow> (model \<notin> set text_keyed_models \<Longrightarrow> r ''id'' = VUuid u) \<Longrightarrow> id_or_null (r ''creator_id'') \<Longrightarrow>
     row_ok D p (plain_item r)"
  by (induction p) auto

definition local_policies :: "registry \<Rightarrow> string \<Rightarrow> 'z svc_db_scheme \<Rightarrow> bool" where
  "local_policies reg model db =
     (\<forall>column r p. map_of reg model = Some column \<longrightarrow> r \<in> set (sv_roles db) \<longrightarrow>
        r_policies r column = Some p \<longrightarrow> local_policy model p)"

lemma local_policies_read:
  "local_policies reg model db \<Longrightarrow> (\<And>r. model \<notin> set text_keyed_models \<Longrightarrow> view r ''id'' = VUuid (key r)) \<Longrightarrow>
     (\<And>r. id_or_null (view r ''creator_id'')) \<Longrightarrow> readable view reg (auth_view db) model D"
  by (auto simp: readable_def local_policies_def policies_ok_def auth_view_def intro!: local_row_ok [where model = model])

lemma http_errors_Inr [simp]: "http_errors clauses r = Inr x \<longleftrightarrow> r = Inr x"
  by (cases r) (simp_all add: http_errors_def)

lemma http_errors_simps [simp]: "http_errors clauses (Inr x) = Inr x"
  by simp

lemma depends_fst:
  "fst (depends_permissions reg adb model a new_request token) =
     (case resolved reg adb model a token of None \<Rightarrow> Inl 403 | Some f \<Rightarrow> Inr f)"
  by (simp add: depends_permissions_def case_prod_unfold Let_def resolve_fst)

lemma guard_simps:
  "resolved reg adb model a token = None \<Longrightarrow> guard reg adb model a token h = Inl 403"
  "resolved reg adb model a token = Some f \<Longrightarrow> guard reg adb model a token h = h f"
  by (simp_all add: guard_def depends_fst)

lemma denied_row: "resolved reg adb model a token = None \<Longrightarrow> \<not> row_allowed view reg adb model a token r"
  using resolved_means [of reg adb model a token "plain_item (view r)"] by (simp add: row_allowed_def)

lemma granted_matches:
  "resolved reg adb model a token = Some f \<Longrightarrow>
     matches f (plain_item r) = Inr (allowed reg adb model a token (plain_item r))"
  using resolved_means [of reg adb model a token "plain_item r"] by simp

lemma granted_where:
  assumes "sql_engine ev" "readable view reg adb model D" "resolved reg adb model a token = Some f"
  obtains c where "filter_sql f = Inr c" "\<And>r. where_holds ev D c (view r) \<longleftrightarrow> row_allowed view reg adb model a token r"
proof -
  have ok: "policies_ok reg adb model D (plain_item (view r))" for r using assms(2) by (simp add: readable_def)
  obtain c where c: "filter_sql f = Inr c" using resolved_sql_total [OF assms(1,3) ok] by blast
  have "where_holds ev D c (view r) \<longleftrightarrow> row_allowed view reg adb model a token r" for r
    using resolved_in_scope [OF assms(1,3) ok [of r]] by (simp add: in_scope_def c row_allowed_def)
  then show thesis by (rule that [OF c])
qed

text \<open>The filters of a batch do not depend on the order in which they are resolved.\<close>

lemma batch_filters_resolved:
  "cache_ok adb token req \<Longrightarrow> b \<in> set as \<Longrightarrow> batch_filters reg adb model token as req b = resolved reg adb model b token"
proof (induction as arbitrary: req)
  case (Cons a as)
  obtain f req' where d: "depends_permissions_or_none reg adb model a req token = (f, req')" by (rule prod.exhaust)
  then have "f = resolved reg adb model a token" "cache_ok adb token req'"
    using resolve_fst [OF Cons.prems(1), of reg model a] resolve_snd [OF Cons.prems(1), of reg model a]
    by (simp_all add: depends_permissions_or_none_def)
  then show ?case using Cons d by (cases "b = a") (simp_all add: Let_def)
qed simp

lemma guards_resolved:
  assumes "cache_ok adb token req"
  shows "guards reg adb token deps req h =
    (if list_all (\<lambda>(m, a). resolved reg adb m a token \<noteq> None) deps
     then h (map (\<lambda>(m, a). the (resolved reg adb m a token)) deps) else Inl 403)"
  using assms
proof (induction deps arbitrary: req h)
  case (Cons d deps)
  obtain m a where d: "d = (m, a)" by (rule prod.exhaust)
  obtain r req' where p: "depends_permissions reg adb m a req token = (r, req')" by (rule prod.exhaust)
  have r: "r = (case resolved reg adb m a token of None \<Rightarrow> Inl 403 | Some f \<Rightarrow> Inr f)" "cache_ok adb token req'"
    using resolve_fst [OF Cons.prems, of reg m a] resolve_snd [OF Cons.prems, of reg m a] p
    by (auto simp: depends_permissions_def Let_def case_prod_unfold)
  show ?case using r(1) Cons.IH [OF r(2)] by (cases "resolved reg adb m a token") (simp_all add: d p Let_def)
qed simp

lemma bindR_Inr_right: "bindR m Inr = m"
  by (cases m) simp_all

lemma read_all_length: "read_all read rs = Inr vs \<Longrightarrow> length vs = length rs"
  by (induction rs arbitrary: vs) (auto elim!: bindR_InrE)

lemma read_all_append:
  "read_all read (xs @ ys) = bindR (read_all read xs) (\<lambda>us. bindR (read_all read ys) (\<lambda>vs. Inr (us @ vs)))"
  by (induction xs) (auto simp: bindR_assoc bindR_Inr_right)

lemma read_all_Inr: "read_all (\<lambda>r. Inr (g r)) rs = Inr (map g rs)"
  by (induction rs) simp_all

lemma read_all_nth: "read_all read rs = Inr vs \<Longrightarrow> i < length rs \<Longrightarrow> read (rs ! i) = Inr (vs ! i)"
proof (induction rs arbitrary: vs i)
  case (Cons r rs)
  then obtain v vs' where "read r = Inr v" "read_all read rs = Inr vs'" "vs = v # vs'"
    by (auto elim!: bindR_InrE)
  then show ?case using Cons by (cases i) simp_all
qed simp

section \<open>Reading\<close>

context governed_table begin

lemma get_route_exact:
  assumes "distinct (map key rows)" "sql_engine ev" "readable view reg adb model D"
  shows "(\<forall>v. get_route reg adb model token read (\<lambda>f. scoped_get ev D f view key rows k) = Inr v \<longleftrightarrow>
      (\<exists>r \<in> set rows. key r = k \<and> row_allowed view reg adb model READ token r \<and> read r = Inr v)) \<and>
    (\<forall>s. get_route reg adb model token read (\<lambda>f. scoped_get ev D f view key rows k) = Inl s \<longrightarrow>
      s \<in> {403, 404} \<or> (\<exists>r \<in> set rows. key r = k \<and> row_allowed view reg adb model READ token r \<and> read r = Inl s))"
proof (cases "resolved reg adb model READ token")
  case None
  then show ?thesis by (simp add: get_route_def guard_simps denied_row)
next
  case (Some f)
  obtain c where c: "filter_sql f = Inr c" "\<And>r. where_holds ev D c (view r) \<longleftrightarrow> row_allowed view reg adb model READ token r"
    using granted_where [OF assms(2,3) Some] by blast
  have scope: "in_scope ev D f (view r) \<longleftrightarrow> row_allowed view reg adb model READ token r" for r
    by (simp add: in_scope_def c)
  note g = get_Inr_iff [OF assms(1), of ev D f k, unfolded scope]
  have route: "get_route reg adb model token read (\<lambda>f. scoped_get ev D f view key rows k) =
      bindR (http_errors on_not_found (scoped_get ev D f view key rows k)) read"
    by (simp add: get_route_def guard_simps(2) [OF Some])
  show ?thesis
  proof (cases "scoped_get ev D f view key rows k")
    case (Inl e)
    then have "e = NotFoundError" "\<not> (\<exists>r \<in> set rows. key r = k \<and> row_allowed view reg adb model READ token r)"
      using get_Inl [OF assms(1) c(1), of ev D k e] by (simp_all add: scope)
    then show ?thesis unfolding route by (auto simp: Inl http_errors_def)
  next
    case (Inr r)
    then have r: "r \<in> set rows" "key r = k" "row_allowed view reg adb model READ token r" using g by blast+
    have same: "x = r" if "x \<in> set rows" "key x = k" for x
      using that r(1,2) assms(1) by (metis distinct_map inj_onD)
    have one: "(\<exists>x \<in> set rows. key x = k \<and> row_allowed view reg adb model READ token x \<and> Q x) \<longleftrightarrow> Q r" for Q
      using r same by blast
    show ?thesis unfolding route one by (simp add: Inr)
  qed
qed

lemma get_route_found:
  assumes "distinct (map key rows)" "sql_engine ev" "readable view reg adb model D"
    and "r \<in> set rows" "row_allowed view reg adb model READ token r"
  shows "get_route reg adb model token read (\<lambda>f. scoped_get ev D f view key rows (key r)) = read r"
proof -
  obtain f where f: "resolved reg adb model READ token = Some f"
    using denied_row [of reg adb model READ token view r] assms(5) by blast
  have "in_scope ev D f (view r)"
    using granted_where [OF assms(2,3) f] assms(5) unfolding in_scope_def by metis
  then have "scoped_get ev D f view key rows (key r) = Inr r" using assms(1,4) by (simp add: get_Inr_iff)
  then show ?thesis by (simp add: get_route_def guard_simps(2) [OF f])
qed

lemma sees_row:
  assumes "distinct (map key rows)" "sql_engine ev" "readable view reg adb model D" "resolved reg adb model a token = Some f"
    and "scoped_get ev D f view key rows k = Inr r"
  shows "r \<in> set rows \<and> key r = k \<and> row_allowed view reg adb model a token r"
proof -
  obtain c where c: "filter_sql f = Inr c" "\<And>r. where_holds ev D c (view r) \<longleftrightarrow> row_allowed view reg adb model a token r"
    using granted_where [OF assms(2,3,4)] by blast
  then show ?thesis using assms(5) by (simp add: get_Inr_iff [OF assms(1)] in_scope_def)
qed

text \<open>The rows a principal may find with a search filter, in the order of their ids.\<close>

definition reachable :: "engine \<Rightarrow> db \<Rightarrow> registry \<Rightarrow> auth_db \<Rightarrow> string \<Rightarrow> auth_token option \<Rightarrow> sqlcond option \<Rightarrow> 'r list \<Rightarrow> 'r list" where
  "reachable ev D reg adb model token extra rows =
     filter (\<lambda>r. row_allowed view reg adb model SEARCH token r \<and> where_holds ev D extra (view r)) (sort_key key rows)"

lemma covered_reachable:
  assumes "\<And>r. where_holds ev D c (view r) \<longleftrightarrow> row_allowed view reg adb model SEARCH token r"
  shows "covered ev D c extra rows = reachable ev D reg adb model token extra rows"
  by (simp add: covered_def reachable_def assms)

lemma search_route_page:
  assumes "sql_engine ev" "readable view reg adb model D" "resolved reg adb model SEARCH token = Some f"
    and "filter_sql sf = Inr extra" "0 < limit" "limit \<le> 100" "opt_cursor parse cursor = Inr cur"
  shows "search_route reg adb model token parse show_key read (\<lambda>f. scoped_search ev D f view key rows) sf cursor limit =
    (let page = take limit (after key cur (reachable ev D reg adb model token extra rows)) in
     bindR (read_all read page) (\<lambda>items.
       Inr (items, if length page = limit then Some (show_key (key (last page))) else None, limit)))"
proof -
  obtain c where c: "filter_sql f = Inr c" "\<And>r. where_holds ev D c (view r) \<longleftrightarrow> row_allowed view reg adb model SEARCH token r"
    using granted_where [OF assms(1-3)] by blast
  have sf: "search_cond (Some sf) = Inr extra" by (simp add: search_cond_def assms(4))
  show ?thesis
    using search_page [OF c(1) sf assms(5), of ev D rows cur] assms(5,6)
    by (simp add: search_route_def guard_simps(2) [OF assms(3)] assms(7) covered_reachable [OF c(2)] Let_def not_less if_distrib)
qed

text \<open>Following the cursors from the start answers each of them once, or the first failure to serialize.\<close>

lemma search_route_walk:
  assumes "distinct (map key rows)" "sql_engine ev" "readable view reg adb model D"
    and "resolved reg adb model SEARCH token = Some f" "filter_sql sf = Inr extra" "0 < limit" "limit \<le> 100"
    and "\<And>k. parse (show_key k) = Inr k"
    and "length (after key cur (reachable ev D reg adb model token extra rows)) < n"
  shows "walk_pages (\<lambda>c. bindR (search_route reg adb model token parse show_key read (\<lambda>f. scoped_search ev D f view key rows) sf c limit)
       (\<lambda>(items, next_cursor, l). Inr (items, next_cursor))) n (map_option show_key cur) =
    bindR (read_all read (after key cur (reachable ev D reg adb model token extra rows))) (\<lambda>vs. Inr (Some vs))"
  using assms(9)
proof (induction n arbitrary: cur)
  case (Suc n)
  let ?cov = "reachable ev D reg adb model token extra rows"
  let ?w = "after key cur ?cov"
  have "opt_cursor parse (map_option show_key cur) = Inr cur" by (cases cur) (simp_all add: opt_cursor_def on_opt_def assms(8))
  note page = search_route_page [OF assms(2-7) this, of show_key read rows]
  show ?case
  proof (cases "length ?w < limit")
    case True
    then show ?thesis by (simp add: page Let_def bindR_assoc)
  next
    case False
    then have n: "limit \<le> length ?w" by simp
    let ?c = "key (last (take limit ?w))"
    obtain cond where "\<And>r. where_holds ev D cond (view r) \<longleftrightarrow> row_allowed view reg adb model SEARCH token r"
      using granted_where [OF assms(2,3,4)] by blast
    then have sw: "sorted_wrt (\<lambda>a b. key a < key b) ?w"
      unfolding after_def by (metis sorted_wrt_filter covered_sorted [OF assms(1)] covered_reachable)
    have "u \<le> ?c" if "cur = Some u" for u
    proof -
      have "take limit ?w \<noteq> []" using n assms(6) by auto
      then have "last (take limit ?w) \<in> set ?w" by (meson in_set_takeD last_in_set)
      then show ?thesis using that by (auto simp: after_def)
    qed
    then have next_page: "after key (Some ?c) ?cov = drop limit ?w"
      using after_page [OF sw assms(6) n] after_after [of cur ?c key ?cov] by metis
    then have "length (after key (Some ?c) ?cov) < n" using Suc.prems n assms(6) by simp
    note IH = Suc.IH [OF this, unfolded next_page, simplified]
    have "read_all read ?w = bindR (read_all read (take limit ?w)) (\<lambda>us. bindR (read_all read (drop limit ?w)) (\<lambda>vs. Inr (us @ vs)))"
      by (metis append_take_drop_id read_all_append)
    then show ?thesis using n IH
      by (simp add: page Let_def min_absorb2 bindR_assoc)
  qed
qed simp

lemma count_route_exact:
  assumes "sql_engine ev" "readable view reg adb model D" "resolved reg adb model SEARCH token = Some f" "filter_sql sf = Inr extra"
  shows "count_route reg adb model token (\<lambda>f. scoped_count ev D f view rows) sf =
    Inr (length (reachable ev D reg adb model token extra rows))"
proof -
  obtain c where c: "filter_sql f = Inr c" "\<And>r. where_holds ev D c (view r) \<longleftrightarrow> row_allowed view reg adb model SEARCH token r"
    using granted_where [OF assms(1-3)] by blast
  have "search_cond (Some sf) = Inr extra" by (simp add: search_cond_def assms(4))
  from count_exact [OF c(1) this] show ?thesis
    by (simp add: count_route_def guard_simps(2) [OF assms(3)] covered_reachable [OF c(2)])
qed

text \<open>A batch read answers every position on its own.\<close>

lemma batch_read_route_exact:
  assumes "distinct (map key rows)" "sql_engine ev" "readable view reg adb model D"
    and "batch_read_route reg adb model token read (\<lambda>f ks. scoped_get_many ev D f view key rows ks) ids = Inr vs"
  shows "length vs = length ids \<and> (\<forall>i < length ids.
    case vs ! i of
      None \<Rightarrow> \<not> (\<exists>r \<in> set rows. key r = ids ! i \<and> row_allowed view reg adb model READ token r)
    | Some v \<Rightarrow> \<exists>r \<in> set rows. key r = ids ! i \<and> row_allowed view reg adb model READ token r \<and> read r = Inr v)"
proof -
  obtain f where f: "resolved reg adb model READ token = Some f"
    using assms(4) by (cases "resolved reg adb model READ token") (simp_all add: batch_read_route_def guard_simps)
  obtain c where c: "\<And>r. where_holds ev D c (view r) \<longleftrightarrow> row_allowed view reg adb model READ token r" "filter_sql f = Inr c"
    using granted_where [OF assms(2,3) f] by blast
  have scope: "in_scope ev D f (view r) \<longleftrightarrow> row_allowed view reg adb model READ token r" for r by (simp add: in_scope_def c)
  obtain found where found: "scoped_get_many ev D f view key rows ids = Inr found" "read_all (read_opt read) found = Inr vs"
    using assms(4) by (auto simp: batch_read_route_def guard_simps(2) [OF f] bindR_Inr_iff split: if_splits)
  note g = get_many_Inr [OF assms(1) found(1), unfolded scope]
  note l = read_all_length [OF found(2)]
  have "case vs ! i of
      None \<Rightarrow> \<not> (\<exists>r \<in> set rows. key r = ids ! i \<and> row_allowed view reg adb model READ token r)
    | Some v \<Rightarrow> \<exists>r \<in> set rows. key r = ids ! i \<and> row_allowed view reg adb model READ token r \<and> read r = Inr v"
    if i: "i < length ids" for i
  proof -
    have n: "read_opt read (found ! i) = Inr (vs ! i)" using read_all_nth [OF found(2), of i] g i by simp
    note gi = g [THEN conjunct2, rule_format, OF i]
    show ?thesis
    proof (cases "found ! i")
      case None
      then have "vs ! i = None" using n by (simp add: read_opt_def)
      then show ?thesis using gi None by simp
    next
      case (Some r)
      then obtain v where "read r = Inr v" "vs ! i = Some v" using n by (auto simp: read_opt_def elim!: bindR_InrE)
      then show ?thesis using gi [of r] Some by auto
    qed
  qed
  then show ?thesis using l g by simp
qed

section \<open>Writing\<close>

text \<open>What changed the database was allowed on the stored row it changed; errors change nothing before the commit.\<close>

lemma delete_route_exact:
  assumes "distinct (map key rows)" "sql_engine ev" "readable view reg adb model D"
    and del: "\<And>f. del f = bindR (scoped_get ev D f view key rows k) drop_row"
  shows "(\<forall>db'. delete_route reg adb model token del db = (Inr (), db') \<longleftrightarrow>
      (\<exists>r \<in> set rows. key r = k \<and> row_allowed view reg adb model DELETE token r \<and> drop_row r = Inr db')) \<and>
    (\<forall>s db'. delete_route reg adb model token del db = (Inl s, db') \<longrightarrow> db' = db)"
proof (cases "resolved reg adb model DELETE token")
  case None
  then show ?thesis by (simp add: delete_route_def guard_simps commit_read_def denied_row)
next
  case (Some f)
  obtain c where c: "where_holds ev D c (view r) \<longleftrightarrow> row_allowed view reg adb model DELETE token r" "filter_sql f = Inr c" for r
    using granted_where [OF assms(2,3) Some] by blast
  have scope: "in_scope ev D f (view r) \<longleftrightarrow> row_allowed view reg adb model DELETE token r" for r by (simp add: in_scope_def c)
  have route: "delete_route reg adb model token del db = (Inr (), db') \<longleftrightarrow> del f = Inr db'" for db'
    by (cases "del f") (simp_all add: delete_route_def guard_simps(2) [OF Some] commit_read_def http_errors_def)
  have "del f = Inr db' \<longleftrightarrow>
      (\<exists>r \<in> set rows. key r = k \<and> row_allowed view reg adb model DELETE token r \<and> drop_row r = Inr db')" for db'
    unfolding del bindR_Inr_iff get_Inr_iff [OF assms(1)] scope by blast
  moreover have "db' = db" if "delete_route reg adb model token del db = (Inl s, db')" for s db'
    using that by (cases "del f") (simp_all add: delete_route_def guard_simps(2) [OF Some] commit_read_def http_errors_def)
  ultimately show ?thesis by (simp add: route)
qed

lemma update_route_sound:
  assumes "sql_engine ev" "readable view reg adb model D"
    and handler: "\<And>f body x db'. handler f body = Inr (x, db') \<Longrightarrow>
      \<exists>r0 \<in> set rows. key r0 = k \<and> in_scope ev D f (view r0) \<and> P body r0 x db'"
    and "write_route reg adb model UPDATE token validate read handler payload db = (res, db1)"
    and "db1 \<noteq> db \<or> (\<exists>v. res = Inr v)"
  shows "\<exists>body x. validate payload = Inr body \<and> res = read x \<and>
    (\<exists>r0 \<in> set rows. key r0 = k \<and> row_allowed view reg adb model UPDATE token r0 \<and> P body r0 x db1)"
proof -
  obtain f where f: "resolved reg adb model UPDATE token = Some f"
    using assms(4,5) by (cases "resolved reg adb model UPDATE token") (auto simp: write_route_def guard_simps commit_read_def)
  obtain c where c: "where_holds ev D c (view r) \<longleftrightarrow> row_allowed view reg adb model UPDATE token r" "filter_sql f = Inr c" for r
    using granted_where [OF assms(1,2) f] by blast
  have scope: "in_scope ev D f (view r) \<longleftrightarrow> row_allowed view reg adb model UPDATE token r" for r by (simp add: in_scope_def c)
  obtain body x where "validate payload = Inr body" "handler f body = Inr (x, db1)" "res = read x"
    using assms(4,5) by (auto simp: write_route_def guard_simps(2) [OF f] commit_read_def bindR_Inr_iff split: sum.splits)
  then show ?thesis using handler [of f body x db1] unfolding scope by blast
qed

end

lemma create_route_sound:
  assumes handler: "\<And>f body x db'. handler f body = Inr (x, db') \<Longrightarrow>
      matches f (plain_item (draft x)) = Inr True \<and> P body x db'"
    and "write_route reg adb model CREATE token validate read handler payload db = (res, db1)"
    and "db1 \<noteq> db \<or> (\<exists>v. res = Inr v)"
  shows "\<exists>body x. validate payload = Inr body \<and> res = read x \<and> row_allowed draft reg adb model CREATE token x \<and> P body x db1"
proof -
  obtain f where f: "resolved reg adb model CREATE token = Some f"
    using assms(2,3) by (cases "resolved reg adb model CREATE token") (auto simp: write_route_def guard_simps commit_read_def)
  obtain body x where b: "validate payload = Inr body" "handler f body = Inr (x, db1)" "res = read x"
    using assms(2,3) by (auto simp: write_route_def guard_simps(2) [OF f] commit_read_def bindR_Inr_iff split: sum.splits)
  then show ?thesis using handler [OF b(2)] granted_matches [OF f, of "draft x"]
    by (intro exI [of _ body] exI [of _ x]) (simp add: row_allowed_def)
qed

section \<open>Batches\<close>

text \<open>
  The specification of a batch over the access rule: each operation is allowed on the row it
  concerns, by the rule as it was when the request came in.
\<close>

fun allowed_op ::
    "(action \<Rightarrow> 'r \<Rightarrow> bool) \<Rightarrow> ('r \<Rightarrow> bool) \<Rightarrow> ('r \<Rightarrow> 'k) \<Rightarrow> ('k, 'p, 'u) batch_op \<Rightarrow> 'r option \<Rightarrow> 'r list \<Rightarrow> 'r list \<Rightarrow> bool" where
  "allowed_op may may_create key (BatchCreate p) res rows rows' =
     (\<exists>r. res = Some r \<and> rows' = rows @ [r] \<and> key r \<notin> key ` set rows \<and> may_create r)"
| "allowed_op may may_create key (BatchUpdate k u) res rows rows' =
     (\<exists>r. res = Some r \<and> key r = k \<and> (\<exists>r0 \<in> set rows. key r0 = k \<and> may UPDATE r0) \<and>
        rows' = map (\<lambda>x. if key x = k then r else x) rows)"
| "allowed_op may may_create key (BatchDelete k) res rows rows' =
     (res = None \<and> (\<exists>r0 \<in> set rows. key r0 = k \<and> may DELETE r0) \<and> rows' = filter (\<lambda>x. key x \<noteq> k) rows)"

fun allowed_run ::
    "(action \<Rightarrow> 'r \<Rightarrow> bool) \<Rightarrow> ('r \<Rightarrow> bool) \<Rightarrow> ('r \<Rightarrow> 'k) \<Rightarrow> ('s \<Rightarrow> 'r list) \<Rightarrow>
     ('k, 'p, 'u) batch_op list \<Rightarrow> 'r option list \<Rightarrow> 's \<Rightarrow> 's \<Rightarrow> bool" where
  "allowed_run may may_create key rows [] [] db db' = (db' = db)"
| "allowed_run may may_create key rows (op1 # ops) (r # rs) db db' =
     (\<exists>db1. allowed_op may may_create key op1 r (rows db) (rows db1) \<and> allowed_run may may_create key rows ops rs db1 db')"
| "allowed_run may may_create key rows _ _ db db' = False"

lemma authorized_allowed_op:
  assumes "authorized_op draft key (\<lambda>f r. in_scope ev D f (view r)) filters op1 res rs rs'"
    and "sql_engine ev" "readable view reg adb model D"
    and filters: "\<And>a f. filters a = Some f \<Longrightarrow> resolved reg adb model a token = Some f"
  shows "allowed_op (\<lambda>a. row_allowed view reg adb model a token) (row_allowed draft reg adb model CREATE token) key op1 res rs rs'"
proof -
  have scope: "row_allowed view reg adb model a token r" if f: "filters a = Some f" and r: "in_scope ev D f (view r)" for a f r
  proof -
    obtain c where "filter_sql f = Inr c" "\<And>r. where_holds ev D c (view r) \<longleftrightarrow> row_allowed view reg adb model a token r"
      using granted_where [OF assms(2,3) filters [OF f]] by blast
    then show ?thesis using r by (simp add: in_scope_def)
  qed
  have draft: "row_allowed draft reg adb model CREATE token r"
    if "filters CREATE = Some f" "matches f (plain_item (draft r)) = Inr True" for f r
    using granted_matches [OF filters [OF that(1)], of "draft r"] that(2) by (simp add: row_allowed_def)
  show ?thesis
  proof (cases op1)
    case (BatchCreate p)
    then show ?thesis using assms(1) draft by auto
  next
    case (BatchUpdate k u)
    then show ?thesis using assms(1) scope [of UPDATE] by simp blast
  next
    case (BatchDelete k)
    then show ?thesis using assms(1) scope [of DELETE] by simp blast
  qed
qed

lemma authorized_allowed_run:
  assumes "authorized_run draft key (\<lambda>db f r. in_scope ev (tables db) f (view r)) rows filters ops rs db db'"
    and "sql_engine ev" "\<And>D. readable view reg adb model D"
    and filters: "\<And>a f. filters a = Some f \<Longrightarrow> resolved reg adb model a token = Some f"
  shows "allowed_run (\<lambda>a. row_allowed view reg adb model a token) (row_allowed draft reg adb model CREATE token) key rows ops rs db db'"
  using assms(1)
proof (induction ops arbitrary: rs db)
  case Nil
  then show ?case by (cases rs) simp_all
next
  case (Cons op1 ops)
  then obtain r rs' where rs: "rs = r # rs'" by (cases rs) simp_all
  then obtain db1 where s: "authorized_op draft key (\<lambda>f r. in_scope ev (tables db) f (view r)) filters op1 r (rows db) (rows db1)"
    and rest: "authorized_run draft key (\<lambda>db f r. in_scope ev (tables db) f (view r)) rows filters ops rs' db1 db'"
    using Cons.prems by auto
  show ?case using authorized_allowed_op [OF s assms(2,3) filters] Cons.IH [OF rest] by (auto simp: rs)
qed

lemma batch_filters_granted:
  assumes "batch_filters reg adb model token as new_request a = Some f"
  shows "resolved reg adb model a token = Some f"
proof -
  have "batch_filters reg adb model token as req a = None" if "a \<notin> set as" for req
    using that by (induction as arbitrary: req) (auto simp: Let_def split: prod.split)
  then have "a \<in> set as" using assms by (metis option.distinct(1))
  then show ?thesis using batch_filters_resolved [OF cache_ok_new, of a as reg adb model token] assms by simp
qed

lemma batch_write_route_sound:
  assumes handler: "\<And>filters ops xs db'. handler filters ops = Inr (xs, db') \<Longrightarrow>
      authorized_run draft key (\<lambda>db f r. in_scope ev (tables db) f (view r)) rows filters ops xs db db'"
    and "sql_engine ev" "\<And>D. readable view reg adb model D"
    and "batch_write_route reg adb model actions token vc vu read handler operations db = (res, db1)"
    and "db1 \<noteq> db \<or> (\<exists>v. res = Inr v)"
  shows "\<exists>ops xs. valid_batch vc vu operations = Inr ops \<and> res = read_all (read_opt read) xs \<and> length operations \<le> 100 \<and>
    allowed_run (\<lambda>a. row_allowed view reg adb model a token) (row_allowed draft reg adb model CREATE token) key rows ops xs db db1"
proof -
  let ?filters = "batch_filters reg adb model token actions new_request"
  obtain ops xs where o: "valid_batch vc vu operations = Inr ops" "handler ?filters ops = Inr (xs, db1)"
      "res = read_all (read_opt read) xs" "length operations \<le> 100"
    using assms(4,5) by (auto simp: batch_write_route_def Let_def commit_read_def bindR_Inr_iff split: sum.splits if_splits)
  have "allowed_run (\<lambda>a. row_allowed view reg adb model a token) (row_allowed draft reg adb model CREATE token) key rows ops xs db db1"
    by (rule authorized_allowed_run [OF handler [OF o(2)] assms(2,3)]) (rule batch_filters_granted)
  then show ?thesis using o by blast
qed

text \<open>What a batch request may answer: an error that changed nothing, or the run of its validated operations.\<close>

definition answers_batch ::
    "(action \<Rightarrow> 'r \<Rightarrow> bool) \<Rightarrow> ('r \<Rightarrow> bool) \<Rightarrow> ('r \<Rightarrow> 'k) \<Rightarrow> ('s \<Rightarrow> 'r list) \<Rightarrow> ('s \<Rightarrow> bool) \<Rightarrow>
     (('k, 'p, 'u) batch_op list \<Rightarrow> nat + ('k, 'p, 'u) batch_op list) \<Rightarrow> ('r \<Rightarrow> nat + 'v) \<Rightarrow>
     ('k, 'p, 'u) batch_op list \<Rightarrow> 's \<Rightarrow> (nat + 'v option list) \<times> 's \<Rightarrow> bool" where
  "answers_batch may may_create key rows ok valid read operations db answer =
     (snd answer = db \<and> (\<exists>s. fst answer = Inl s) \<or>
      (\<exists>ops xs. valid operations = Inr ops \<and> length operations \<le> 100 \<and> fst answer = read_all (read_opt read) xs \<and>
         allowed_run may may_create key rows ops xs db (snd answer) \<and> ok (snd answer)))"

lemma batch_route_answers:
  assumes "sql_engine ev" "\<And>D. readable view reg adb model D"
    and handler: "\<And>filters ops xs db'. handler filters ops = Inr (xs, db') \<Longrightarrow>
      ok db' \<and> authorized_run draft key (\<lambda>db f r. in_scope ev (tables db) f (view r)) rows filters ops xs db db'"
  shows "answers_batch (\<lambda>a. row_allowed view reg adb model a token) (row_allowed draft reg adb model CREATE token) key rows ok
    (valid_batch vc vu) read operations db (batch_write_route reg adb model actions token vc vu read handler operations db)"
proof -
  let ?filters = "batch_filters reg adb model token actions new_request"
  obtain res db1 where route: "batch_write_route reg adb model actions token vc vu read handler operations db = (res, db1)"
    by (rule prod.exhaust)
  show ?thesis
  proof (cases "db1 = db \<and> (\<exists>s. res = Inl s)")
    case True
    then show ?thesis unfolding route by (simp add: answers_batch_def)
  next
    case False
    then have "db1 \<noteq> db \<or> (\<exists>v. res = Inr v)" by (cases res) auto
    then obtain ops xs where o: "valid_batch vc vu operations = Inr ops" "handler ?filters ops = Inr (xs, db1)"
        "res = read_all (read_opt read) xs" "length operations \<le> 100"
      using route by (auto simp: batch_write_route_def Let_def commit_read_def bindR_Inr_iff split: sum.splits if_splits)
    have "allowed_run (\<lambda>a. row_allowed view reg adb model a token) (row_allowed draft reg adb model CREATE token) key rows ops xs db db1"
      by (rule authorized_allowed_run [OF conjunct2 [OF handler [OF o(2)]] assms(1,2)]) (rule batch_filters_granted)
    then show ?thesis using o handler [OF o(2)] unfolding route answers_batch_def by auto
  qed
qed

text \<open>A single write is the batch of one operation, once the action is granted.\<close>

definition alone :: "nat + 'v \<Rightarrow> nat + 'v option list" where
  "alone res = bindR res (\<lambda>v. Inr [Some v])"

lemma batch_of_one:
  assumes "a \<in> set actions" "resolved reg adb model a token = Some f"
    and "valid_batch vc vu [op1] = bindR v (\<lambda>b. Inr [g b])"
    and "\<And>b filters. filters a = Some f \<Longrightarrow> handler filters [g b] = bindR (single f b) (\<lambda>(r, db'). Inr ([Some r], db'))"
  shows "batch_write_route reg adb model actions token vc vu read handler [op1] db =
    map_prod alone id (commit_read db read (bindR v (single f)))"
proof -
  let ?filters = "batch_filters reg adb model token actions new_request"
  have f: "?filters a = Some f"
    by (simp add: batch_filters_resolved [OF cache_ok_new assms(1)] assms(2))
  show ?thesis
  proof (cases v)
    case (Inl s)
    then show ?thesis by (simp add: batch_write_route_def assms(3) commit_read_def alone_def)
  next
    case (Inr b)
    have "handler ?filters [g b] = bindR (single f b) (\<lambda>(r, db'). Inr ([Some r], db'))"
      by (rule assms(4)) (rule f)
    with Inr show ?thesis
      by (cases "single f b") (auto simp: batch_write_route_def assms(3) commit_read_def alone_def read_opt_def bindR_assoc)
  qed
qed

lemma write_route_granted:
  "resolved reg adb model a token = Some f \<Longrightarrow>
     write_route reg adb model a token validate read handler payload db = commit_read db read (bindR (validate payload) (handler f))"
  by (simp add: write_route_def guard_simps)

end
