(* ===== verification/RouteLaws.thy ===== *)
theory RouteLaws
  imports ApiKeyRouter RoutesLaws
begin

text \<open>
  The composition of authorization, service and route: what a principal can read, change and
  delete through the API-key routes is exactly what the access rule allows on the stored rows.
\<close>

section \<open>API keys\<close>

lemma local_policies_readable:
  "local_policies reg model db \<Longrightarrow> readable api_key_attrs reg (auth_view db) model D"
  by (rule local_policies_read) (simp_all add: id_or_null_def)

text \<open>The access rule on a stored key.\<close>

definition key_allowed :: "registry \<Rightarrow> 'z svc_db_scheme \<Rightarrow> action \<Rightarrow> auth_token option \<Rightarrow> api_key \<Rightarrow> bool" where
  "key_allowed reg db a token k = allowed reg (auth_view db) ''ApiKey'' a token (plain_item (api_key_attrs k))"

lemma key_allowed_row: "row_allowed api_key_attrs reg (auth_view db) ''ApiKey'' a token = key_allowed reg db a token"
  by (intro ext) (simp add: row_allowed_def key_allowed_def)

lemma get_key_route_exact:
  assumes "integrity db" "sql_engine (se_ev env)" "local_policies reg ''ApiKey'' db"
  shows "(\<forall>r. get_api_key_route env reg token kid db = Inr r \<longleftrightarrow>
      (\<exists>k. (k \<in> set (td_api_keys db) \<and> ak_id k = kid \<and> key_allowed reg db READ token k) \<and> r = key_read k)) \<and>
    (\<forall>s. get_api_key_route env reg token kid db = Inl s \<longrightarrow> s \<in> {403, 404})"
proof -
  have d: "distinct (map ak_id (td_api_keys db))" using assms(1) by (simp add: integrity_def)
  show ?thesis
    using key_table.get_route_exact [OF d assms(2) local_policies_readable [OF assms(3)], of token "\<lambda>k. Inr (key_read k)" "sql_tables db" kid]
    unfolding get_api_key_route_def get_key_def key_allowed_row by auto
qed

lemma delete_key_route_exact:
  assumes "integrity db" "sql_engine (se_ev env)" "local_policies reg ''ApiKey'' db"
  shows "(fst (delete_api_key_route env reg token kid db) = Inr () \<longleftrightarrow>
      (\<exists>k. k \<in> set (td_api_keys db) \<and> ak_id k = kid \<and> key_allowed reg db DELETE token k)) \<and>
    (\<forall>s. fst (delete_api_key_route env reg token kid db) = Inl s \<longrightarrow> snd (delete_api_key_route env reg token kid db) = db) \<and>
    (fst (delete_api_key_route env reg token kid db) = Inr () \<longrightarrow> snd (delete_api_key_route env reg token kid db) =
       db\<lparr>td_api_keys := filter (\<lambda>x. ak_id x \<noteq> kid) (td_api_keys db)\<rparr>)"
proof -
  have d: "distinct (map ak_id (td_api_keys db))" using assms(1) by (simp add: integrity_def)
  have del: "delete_key env f kid db = bindR (scoped_get (se_ev env) (sql_tables db) f api_key_attrs ak_id (td_api_keys db) kid)
      (\<lambda>_. Inr (db\<lparr>td_api_keys := filter (\<lambda>x. ak_id x \<noteq> kid) (td_api_keys db)\<rparr>))" for f
    by (simp add: delete_key_def get_key_def)
  note x = key_table.delete_route_exact [OF d assms(2) local_policies_readable [OF assms(3)], where del = "\<lambda>f. delete_key env f kid db",
      OF del, of token db, folded delete_api_key_route_def, unfolded key_allowed_row]
  obtain res db' where r: "delete_api_key_route env reg token kid db = (res, db')" by (rule prod.exhaust)
  show ?thesis using x unfolding r by (cases res) auto
qed

lemma update_key_route_sound:
  assumes "integrity db" "sql_engine (se_ev env)" "local_policies reg ''ApiKey'' db"
  shows "(\<forall>r. fst (update_api_key_route env reg token kid payload db) = Inr r \<longrightarrow>
      (\<exists>k k'. (k \<in> set (td_api_keys db) \<and> ak_id k = kid \<and> key_allowed reg db UPDATE token k) \<and>
          r = key_read k' \<and> ak_id k' = kid \<and> ak_creator_id k' = ak_creator_id k \<and> ak_key_hash k' = ak_key_hash k \<and>
          snd (update_api_key_route env reg token kid payload db) = set_key db k')) \<and>
    (\<forall>s. fst (update_api_key_route env reg token kid payload db) = Inl s \<longrightarrow>
       snd (update_api_key_route env reg token kid payload db) = db)"
proof -
  obtain res db' where r: "update_api_key_route env reg token kid payload db = (res, db')" by (rule prod.exhaust)
  have "\<exists>body k'. valid_update payload = Inr body \<and> res = Inr (key_read k') \<and>
      (\<exists>k \<in> set (td_api_keys db). ak_id k = kid \<and> key_allowed reg db UPDATE token k \<and>
         (ak_id k' = kid \<and> ak_creator_id k' = ak_creator_id k \<and> ak_key_hash k' = ak_key_hash k \<and> db' = set_key db k'))"
    if "db' \<noteq> db \<or> (\<exists>v. res = Inr v)"
  proof (rule key_table.update_route_sound [OF assms(2) local_policies_readable [OF assms(3)] _ r [unfolded update_api_key_route_def] that,
        unfolded key_allowed_row])
    fix f body x db1
    assume "http_errors on_not_found (update_key env f kid body db) = Inr (x, db1)"
    then show "\<exists>k \<in> set (td_api_keys db). ak_id k = kid \<and> in_scope (se_ev env) (sql_tables db) f (api_key_attrs k) \<and>
        (ak_id x = kid \<and> ak_creator_id x = ak_creator_id k \<and> ak_key_hash x = ak_key_hash k \<and> db1 = set_key db x)"
      using update_key_Inr [OF assms(1), of env f kid body x db1] by auto
  qed
  then show ?thesis unfolding r by (cases res) auto
qed

section \<open>Properties\<close>

text \<open>Through the routes a principal reaches exactly the API keys the access rule allows: reading a
  key by id returns it when it exists and the action is allowed on it and is otherwise a 403 or a
  404 that does not say which; deleting and updating act on exactly one such row and commit, and
  any error response leaves the database as it was; a batch read answers each position alike.\<close>

theorem key_routes_exact:
  assumes "integrity db" "sql_engine (se_ev env)" "local_policies reg ''ApiKey'' db"
  shows "((\<forall>r. get_api_key_route env reg token kid db = Inr r \<longleftrightarrow>
        (\<exists>k. (k \<in> set (td_api_keys db) \<and> ak_id k = kid \<and> key_allowed reg db READ token k) \<and> r = key_read k)) \<and>
      (\<forall>s. get_api_key_route env reg token kid db = Inl s \<longrightarrow> s \<in> {403, 404})) \<and>
    ((fst (delete_api_key_route env reg token kid db) = Inr () \<longleftrightarrow>
        (\<exists>k. k \<in> set (td_api_keys db) \<and> ak_id k = kid \<and> key_allowed reg db DELETE token k)) \<and>
      (\<forall>s. fst (delete_api_key_route env reg token kid db) = Inl s \<longrightarrow> snd (delete_api_key_route env reg token kid db) = db) \<and>
      (fst (delete_api_key_route env reg token kid db) = Inr () \<longrightarrow> snd (delete_api_key_route env reg token kid db) =
         db\<lparr>td_api_keys := filter (\<lambda>x. ak_id x \<noteq> kid) (td_api_keys db)\<rparr>)) \<and>
    (\<forall>r. fst (update_api_key_route env reg token kid payload db) = Inr r \<longrightarrow>
      (\<exists>k k'. (k \<in> set (td_api_keys db) \<and> ak_id k = kid \<and> key_allowed reg db UPDATE token k) \<and>
          r = key_read k' \<and> ak_id k' = kid \<and> ak_creator_id k' = ak_creator_id k \<and> ak_key_hash k' = ak_key_hash k \<and>
          snd (update_api_key_route env reg token kid payload db) = set_key db k')) \<and>
    (\<forall>s. fst (update_api_key_route env reg token kid payload db) = Inl s \<longrightarrow>
       snd (update_api_key_route env reg token kid payload db) = db)"
  by (rule conjI [OF get_key_route_exact [OF assms] conjI [OF delete_key_route_exact [OF assms] update_key_route_sound [OF assms]]])

definition keyed_db :: svc_db where
  "keyed_db = witness_svc_db\<lparr>td_api_keys := [\<lparr>ak_id = 5, ak_key_hash = ''h'', ak_prefix = ''oh_abcd'', ak_creator_id = 7,
     ak_name = None, ak_enabled = True, ak_role_id = Some 1, ak_system = False, ak_expires_at = None,
     ak_created_at = 0, ak_updated_at = 0\<rparr>],
     sv_roles := [\<lparr>r_id = 1, r_name = ''member'', r_policies = (\<lambda>_. Some Permitted), r_created_at = 0, r_updated_at = 0\<rparr>],
     sv_user_roles := [\<lparr>ur_id = 2, ur_role_id = 1, ur_user_id = 7, ur_created_at = 0\<rparr>]\<rparr>"

lemma keyed_integrity: "integrity keyed_db"
  by (simp add: integrity_def keyed_db_def witness_svc_db_def witness_user_def)

theorem key_routes_exact_witness:
  "get_api_key_route witness_svc_env [(''ApiKey'', ''api_key_permission'')] (Some (witness_token None)) 5 keyed_db =
     Inr (key_read (hd (td_api_keys keyed_db)))"
proof -
  let ?reg = "[(''ApiKey'', ''api_key_permission'')]" and ?k = "hd (td_api_keys keyed_db)"
  have e: "sql_engine (se_ev witness_svc_env)" using ref.sql_engine_axioms by (simp add: witness_svc_env_def)
  have l: "local_policies ?reg ''ApiKey'' keyed_db" by (simp add: local_policies_def keyed_db_def)
  have k: "?k \<in> set (td_api_keys keyed_db) \<and> ak_id ?k = 5 \<and> key_allowed ?reg keyed_db READ (Some (witness_token None)) ?k"
    by (simp add: key_allowed_def allowed_def user_grants_def key_grants_def assigned_def auth_view_def keyed_db_def
        witness_token_def)
  show ?thesis
    by (rule key_routes_exact [OF keyed_integrity e l, THEN conjunct1, THEN conjunct1, rule_format, THEN iffD2])
      (use k in blast)
qed

end
