(* ===== verification/UserLaws.thy ===== *)
theory UserLaws
  imports UserService
begin

text \<open>
  What the user service promises: complete pagination, authorized and atomic batches, the conflict
  a creation reports, and the password check.
\<close>

section \<open>Pagination\<close>

text \<open>Following \<open>next_cursor\<close> from the first page of a user search ends and yields every user that
  the permission filter and the search filter admit, exactly once and in the order of the ids;
  their number is what the count endpoint reports. As many requests as there are users, and one
  more, are enough.\<close>

theorem user_pages_complete:
  assumes "integrity db" "filter_sql f = Inr cond" "search_cond sf = Inr extra" "0 < limit"
  shows "\<exists>us. walk_pages (\<lambda>c. search_users env f db c limit sf) (Suc (length (td_users db))) None = Inr (Some us) \<and>
    sorted_wrt (\<lambda>a b. u_id a < u_id b) us \<and>
    set us = {u \<in> set (td_users db). where_holds (se_ev env) (sql_tables db) cond (user_attrs u) \<and>
                where_holds (se_ev env) (sql_tables db) extra (user_attrs u)} \<and>
    count_users env f db sf = Inr (length us)"
proof -
  let ?cov = "user_table.covered (se_ev env) (sql_tables db) cond extra (td_users db)"
  have d: "distinct (map u_id (td_users db))" using assms(1) by (simp add: integrity_def)
  have n: "length (after u_id None ?cov) < Suc (length (td_users db))"
    using length_filter_le [of _ "sort_key u_id (td_users db)"]
    by (simp add: user_table.covered_def le_imp_less_Suc)
  have "walk_pages (\<lambda>c. search_users env f db c limit sf) (Suc (length (td_users db))) None = Inr (Some ?cov)"
    using user_table.walk_exact [OF d assms(2,3,4) n] unfolding search_users_def after_None .
  moreover have "sorted_wrt (\<lambda>a b. u_id a < u_id b) ?cov" by (rule user_table.covered_sorted [OF d])
  moreover have "set ?cov = {u \<in> set (td_users db). where_holds (se_ev env) (sql_tables db) cond (user_attrs u) \<and>
                where_holds (se_ev env) (sql_tables db) extra (user_attrs u)}"
    by (auto simp: user_table.covered_def)
  moreover have "count_users env f db sf = Inr (length ?cov)"
    unfolding count_users_def by (rule user_table.count_exact [OF assms(2,3)])
  ultimately show ?thesis by blast
qed

theorem user_pages_complete_witness:
  "\<exists>us. walk_pages (\<lambda>c. search_users witness_svc_env AllSearchFilter witness_svc_db c 1 None) 2 None = Inr (Some us) \<and>
     set us = {witness_user}"
proof -
  have a: "filter_sql AllSearchFilter = Inr None" "search_cond None = Inr None" "(0 :: nat) < 1"
    by (simp_all add: filter_sql_def search_cond_def)
  have n: "Suc (length (td_users witness_svc_db)) = 2" by (simp add: witness_svc_db_def)
  obtain us where us: "walk_pages (\<lambda>c. search_users witness_svc_env AllSearchFilter witness_svc_db c 1 None) 2 None = Inr (Some us)"
    "set us = {u \<in> set (td_users witness_svc_db).
       where_holds (se_ev witness_svc_env) (sql_tables witness_svc_db) None (user_attrs u) \<and>
       where_holds (se_ev witness_svc_env) (sql_tables witness_svc_db) None (user_attrs u)}"
    using user_pages_complete [OF witness_integrity a, of witness_svc_env] unfolding n by blast
  have "set us = {witness_user}" by (simp add: us(2)) (auto simp: witness_svc_db_def)
  with us(1) show ?thesis by blast
qed

section \<open>Batches\<close>

text \<open>A batch of user operations is authorized operation by operation and all or nothing: when it
  returns, every action it contains was granted, it is a run of authorized steps (each creation
  accepted by the create filter, each changed or deleted row in the scope of its filter when the
  operation ran), the results are aligned with the operations, users the batch does not name are
  untouched, and the constraints of the database still hold.\<close>

theorem user_batch_authorized:
  assumes "integrity db" "apply_user_batch env ops filters db = Inr (rs, db')"
  shows "integrity db' \<and> length rs = length ops \<and> (\<forall>op1 \<in> set ops. filters (op_action op1) \<noteq> None) \<and>
    (\<forall>u \<in> set (td_users db). Some (u_id u) \<notin> op_target ` set ops \<longrightarrow> u \<in> set (td_users db')) \<and>
    authorized_run (\<lambda>u. unsaved (user_attrs u)) u_id (\<lambda>d f u. in_scope (se_ev env) (sql_tables d) f (user_attrs u)) td_users
      filters ops rs db db'"
  by (rule user_service.batch_safe [OF assms(1) assms(2) [unfolded apply_user_batch_def]])

definition witness_payload :: user_create where
  "witness_payload = \<lparr>uc_email = ''n@b.c'', uc_username = ''new'', uc_enabled = True, uc_password = Some ''pw''\<rparr>"

lemma witness_batch:
  "\<exists>rs db'. apply_user_batch witness_svc_env [BatchCreate witness_payload, BatchDelete 7]
     (\<lambda>_. Some AllSearchFilter) witness_svc_db = Inr (rs, db')"
  by (simp add: apply_user_batch_def create_user_def delete_user_def get_user_def scoped_get_def new_user_def
      witness_payload_def witness_svc_env_def witness_svc_db_def witness_user_def user_violations_def
      flush_rows_def catch_integrity_def check_scope_def filter_sql_def Let_def)

theorem user_batch_authorized_witness:
  "\<exists>rs db'. apply_user_batch witness_svc_env [BatchCreate witness_payload, BatchDelete 7]
     (\<lambda>_. Some AllSearchFilter) witness_svc_db = Inr (rs, db') \<and> length rs = 2 \<and> integrity db'"
proof -
  obtain rs db' where b: "apply_user_batch witness_svc_env [BatchCreate witness_payload, BatchDelete 7]
     (\<lambda>_. Some AllSearchFilter) witness_svc_db = Inr (rs, db')" using witness_batch by blast
  from user_batch_authorized [OF witness_integrity b] b show ?thesis by auto
qed

section \<open>Conflicts\<close>

text \<open>What a creation in scope reports: it succeeds when email and username are free; a taken
  username alone is a username conflict; a taken email alone is an email conflict unless the
  message PostgreSQL sends contains the word username, which it does for every address that
  contains it: then the email conflict is reported as a username conflict.\<close>

theorem user_conflicts:
  assumes "reports_ok env" and "matches f (plain_item (unsaved (user_attrs (new_user env i p)))) = Inr True"
    and "se_uuid env i \<notin> u_id ` set (td_users db)"
  shows "let email_taken = uc_email p \<in> u_email ` set (td_users db);
             name_taken = uc_username p \<in> u_username ` set (td_users db);
             message = se_message env (UniqueViolation ''users'' ''ix_users_email'' (uc_email p));
             result = create_user env i f p db
    in (\<not> email_taken \<and> \<not> name_taken \<longrightarrow>
          result = Inr (new_user env i p, db\<lparr>td_users := td_users db @ [new_user env i p]\<rparr>)) \<and>
       (\<not> email_taken \<and> name_taken \<longrightarrow> result = Inl (UsernameConflictError (uc_username p))) \<and>
       (email_taken \<and> \<not> name_taken \<and> \<not> sublist ''username'' (lower message) \<longrightarrow>
          result = Inl (EmailConflictError (uc_email p))) \<and>
       (email_taken \<and> sublist ''username'' (lower (uc_email p)) \<longrightarrow>
          result = Inl (UsernameConflictError (uc_username p))) \<and>
       (email_taken \<or> name_taken \<longrightarrow>
          result \<in> {Inl (EmailConflictError (uc_email p)), Inl (UsernameConflictError (uc_username p))})"
proof -
  let ?em = "UniqueViolation ''users'' ''ix_users_email'' (uc_email p)"
  let ?un = "UniqueViolation ''users'' ''ix_users_username'' (uc_username p)"
  let ?cl = "classify_user_error (Some (uc_email p)) (Some (uc_username p))"
  have law: "se_report env vs \<in> set vs" if "vs \<noteq> []" for vs using assms(1) that by (simp add: reports_ok_def)
  have con: "sublist (lower (violated_constraint v)) (lower (se_message env v))"
    "sublist (lower (violating_key v)) (lower (se_message env v))" for v using assms(1) by (simp_all add: reports_ok_def)
  have "sublist ''username'' (lower ''ix_users_username'')"
    by (rule sublist_order.order_trans [of _ "''ix_users_'' @ ''username'' @ ''''"])
      (rule sublist_appendI, simp add: lower_def lower_char_def)
  then have name_msg: "sublist ''username'' (lower (se_message env ?un))"
    using con(1) [of ?un] by (auto intro: sublist_order.order_trans)
  have email_msg: "sublist ''username'' (lower (se_message env ?em))" if "sublist ''username'' (lower (uc_email p))"
    using con(2) [of ?em] that by (auto intro: sublist_order.order_trans)
  have run: "create_user env i f p db = catch_integrity ?cl (flush_rows env (user_violations (td_users db) (new_user env i p))
       (new_user env i p, db\<lparr>td_users := td_users db @ [new_user env i p]\<rparr>))"
    using assms(2) by (simp add: create_user_def Let_def check_scope_def)
  have vs: "user_violations (td_users db) (new_user env i p) =
      (if uc_email p \<in> u_email ` set (td_users db) then [?em] else []) @
      (if uc_username p \<in> u_username ` set (td_users db) then [?un] else [])"
    using assms(3) by (simp add: user_violations_def new_user_def)
  have fail: "create_user env i f p db = Inl (?cl (se_message env v))"
    if "user_violations (td_users db) (new_user env i p) \<noteq> []" "v = se_report env (user_violations (td_users db) (new_user env i p))" for v
    using that by (simp add: run flush_rows_def catch_integrity_def)
  have cl: "?cl m \<in> {EmailConflictError (uc_email p), UsernameConflictError (uc_username p)}"
    "sublist ''username'' (lower m) \<Longrightarrow> ?cl m = UsernameConflictError (uc_username p)"
    "\<not> sublist ''username'' (lower m) \<Longrightarrow> ?cl m = EmailConflictError (uc_email p)" for m
    by (simp_all add: classify_user_error_def)
  have rep: "se_report env (user_violations (td_users db) (new_user env i p)) \<in> set (user_violations (td_users db) (new_user env i p))"
    if "user_violations (td_users db) (new_user env i p) \<noteq> []" using law that by blast
  consider "uc_email p \<notin> u_email ` set (td_users db)" "uc_username p \<notin> u_username ` set (td_users db)"
    | "uc_email p \<notin> u_email ` set (td_users db)" "uc_username p \<in> u_username ` set (td_users db)"
    | "uc_email p \<in> u_email ` set (td_users db)" "uc_username p \<notin> u_username ` set (td_users db)"
    | "uc_email p \<in> u_email ` set (td_users db)" "uc_username p \<in> u_username ` set (td_users db)" by blast
  then show ?thesis
  proof cases
    case 1
    then show ?thesis by (simp add: run vs flush_rows_def catch_integrity_def Let_def)
  next
    case 2
    then have "create_user env i f p db = Inl (?cl (se_message env ?un))" using fail rep vs by simp
    then show ?thesis using 2 cl name_msg by (simp add: Let_def)
  next
    case 3
    then have "create_user env i f p db = Inl (?cl (se_message env ?em))" using fail rep vs by simp
    then show ?thesis using 3 cl email_msg by (simp add: Let_def)
  next
    case 4
    then obtain v where v: "create_user env i f p db = Inl (?cl (se_message env v))" "v = ?em \<or> v = ?un"
      using fail rep vs by auto
    then show ?thesis using 4 cl [of "se_message env v"] name_msg email_msg by (auto simp: Let_def)
  qed
qed

theorem user_conflicts_witness:
  "create_user witness_svc_env 0 AllSearchFilter (witness_payload\<lparr>uc_username := ''abc''\<rparr>) witness_svc_db =
     Inl (UsernameConflictError ''abc'')"
proof -
  let ?p = "witness_payload\<lparr>uc_username := ''abc''\<rparr>"
  have m: "matches AllSearchFilter (plain_item (unsaved (user_attrs (new_user witness_svc_env 0 ?p)))) = Inr True" by simp
  have i: "se_uuid witness_svc_env 0 \<notin> u_id ` set (td_users witness_svc_db)"
    by (simp add: witness_svc_env_def witness_svc_db_def witness_user_def)
  have t: "uc_email ?p \<notin> u_email ` set (td_users witness_svc_db)" "uc_username ?p \<in> u_username ` set (td_users witness_svc_db)"
    by (simp_all add: witness_payload_def witness_svc_db_def witness_user_def)
  show ?thesis using user_conflicts [OF witness_reports m i] t by (simp add: Let_def)
qed

section \<open>Passwords\<close>

text \<open>C16. A created user can log in with exactly the password it was created with, while it is enabled:
  every password is hashed within bcrypt's 72 bytes, two passwords of at most 72 bytes are
  interchangeable only if they are equal, and creating a user changes no other user's login.\<close>

theorem password_login:
  assumes "integrity db" "bcrypt_ok env" "create_user env i f p db = Inr (u, db')" "uc_password p = Some pw"
  shows "authenticate_user env (uc_username p) pw' db' =
      Inr (if uc_enabled p \<and> normalize_password env pw' = normalize_password env pw then Some u else None) \<and>
    (length (utf8 pw) \<le> 72 \<and> length (utf8 pw') \<le> 72 \<longrightarrow>
       (normalize_password env pw' = normalize_password env pw \<longleftrightarrow> pw' = pw)) \<and>
    length (normalize_password env pw) \<le> 72 \<and>
    (\<forall>v \<in> set (td_users db). \<forall>x. authenticate_user env (u_username v) x db' = authenticate_user env (u_username v) x db)"
proof -
  note c = create_user_Inr [OF assms(3)]
  have db': "td_users db' = td_users db @ [u]" and u: "u_username u = uc_username p" "u_enabled u = uc_enabled p"
    "u_password u = Some (hash_password env i pw)"
    using c by (simp_all add: new_user_def hash_optional_def assms(4))
  have fresh: "u_username v \<noteq> uc_username p" if "v \<in> set (td_users db)" for v
  proof
    assume "u_username v = uc_username p"
    then have "u_username u \<in> u_username ` set (td_users db)" using that u(1) by force
    then show False using c unfolding user_violations_Nil by blast
  qed
  have none: "filter (\<lambda>v. u_username v = uc_username p) (td_users db) = []"
    using fresh by (simp add: filter_empty_conv)
  have h: "hash_password env i pw \<noteq> ''''"
    "se_checkpw env (normalize_password env pw') (hash_password env i pw) =
       Inr (normalize_password env pw' = normalize_password env pw)"
    using assms(2) [unfolded bcrypt_ok_def, THEN conjunct2, rule_format,
        OF normalized_length [OF assms(2)] normalized_length [OF assms(2)]]
    by (simp_all add: hash_password_def)
  have own: "get_by_username (uc_username p) db' = Inr (Some u)"
    by (simp add: get_by_username_def db' none u(1))
  have same: "get_by_username (u_username v) db' = get_by_username (u_username v) db"
    if "v \<in> set (td_users db)" for v
    using fresh [OF that] by (simp add: get_by_username_def db' u(1) eq_commute [of "uc_username p"])
  have "authenticate_user env (uc_username p) pw' db' =
      Inr (if uc_enabled p \<and> normalize_password env pw' = normalize_password env pw then Some u else None)"
    by (simp add: authenticate_user_def own u h verify_password_def)
  then show ?thesis using same normalized_length [OF assms(2)]
    by (simp add: authenticate_user_def) (simp add: normalize_password_def Let_def)
qed

theorem password_login_witness:
  "\<exists>u db'. create_user witness_svc_env 0 AllSearchFilter witness_payload witness_svc_db = Inr (u, db') \<and>
     authenticate_user witness_svc_env ''new'' ''pw'' db' = Inr (Some u) \<and>
     authenticate_user witness_svc_env ''new'' ''pv'' db' = Inr None"
proof -
  obtain u db' where c: "create_user witness_svc_env 0 AllSearchFilter witness_payload witness_svc_db = Inr (u, db')"
    by (simp add: create_user_def new_user_def witness_payload_def witness_svc_env_def witness_svc_db_def witness_user_def
        user_violations_def flush_rows_def catch_integrity_def check_scope_def Let_def)
  have p: "uc_password witness_payload = Some ''pw''" by (simp add: witness_payload_def)
  have n: "normalize_password witness_svc_env ''pv'' \<noteq> normalize_password witness_svc_env ''pw''"
    by (simp add: normalize_password_def utf8_Cons Let_def)
  show ?thesis
    using c password_login [OF witness_integrity witness_bcrypt c p, of "''pw''"]
      password_login [OF witness_integrity witness_bcrypt c p, of "''pv''"] n
    by (simp add: witness_payload_def)
qed

end
