(* ===== verification/ServiceLaws.thy ===== *)
theory ServiceLaws
  imports RouteLaws UserLaws
begin

text \<open>
  Properties that span the identity services: the database constraints are an invariant of every
  history of service calls, a restricted API key stays restricted, and deleting a user ends
  everything the user could do.
\<close>

section \<open>Histories\<close>

text \<open>
  One committed service call. Clock, identifiers, random bytes and the filters the caller holds
  may be different at every step.
\<close>

inductive svc_step :: "'z svc_db_scheme \<Rightarrow> 'z svc_db_scheme \<Rightarrow> bool" where
  create_user: "create_user (env :: svc_env) i f p db = Inr (u, db') \<Longrightarrow> svc_step db db'"
| update_user: "update_user (env :: svc_env) f k p db = Inr (u, db') \<Longrightarrow> svc_step db db'"
| delete_user: "delete_user (env :: svc_env) f k db = Inr db' \<Longrightarrow> svc_step db db'"
| create_role: "create_role (env :: svc_env) i f rp db = Inr (r, db') \<Longrightarrow> svc_step db db'"
| update_role: "update_role (env :: svc_env) f k ru db = Inr (r, db') \<Longrightarrow> svc_step db db'"
| delete_role: "delete_role (env :: svc_env) f k db = Inr db' \<Longrightarrow> svc_step db db'"
| create_user_role: "create_user_role (env :: svc_env) i f ids db = Inr (l, db') \<Longrightarrow> svc_step db db'"
| delete_user_role: "delete_user_role (env :: svc_env) f k db = Inr db' \<Longrightarrow> svc_step db db'"
| create_group: "create_group (env :: svc_env) c i f gp db = Inr (g, db') \<Longrightarrow> svc_step db db'"
| update_group: "update_group (env :: svc_env) f k gu db = Inr (g, db') \<Longrightarrow> svc_step db db'"
| delete_group: "delete_group (env :: svc_env) f k db = Inr db' \<Longrightarrow> svc_step db db'"
| create_group_user: "create_group_user (env :: svc_env) c i f ids db = Inr (m, db') \<Longrightarrow> svc_step db db'"
| delete_group_user: "delete_group_user (env :: svc_env) f k db = Inr db' \<Longrightarrow> svc_step db db'"
| create_key: "create_key (env :: svc_env) c i f kp db = Inr (raw, ak, db') \<Longrightarrow> svc_step db db'"
| update_key: "update_key (env :: svc_env) f k ku db = Inr (ak, db') \<Longrightarrow> svc_step db db'"
| delete_key: "delete_key (env :: svc_env) f k db = Inr db' \<Longrightarrow> svc_step db db'"

lemma batch_create_key_Inr: "create_key env c i f kp db = Inr (raw, ak, db') \<Longrightarrow> batch_create_key env c i f kp db = Inr (ak, db')"
  by (simp add: batch_create_key_def)

lemmas steps_keep_ok =
  user_service.create_step [THEN conjunct1] user_service.update_step [THEN conjunct1] user_service.delete_step [THEN conjunct1]
  role_service.create_step [THEN conjunct1] role_service.update_step [THEN conjunct1] role_service.delete_step [THEN conjunct1]
  user_role_service.create_step [THEN conjunct1] user_role_service.delete_step [THEN conjunct1]
  group_service.create_step [THEN conjunct1] group_service.update_step [THEN conjunct1] group_service.delete_step [THEN conjunct1]
  group_user_service.create_step [THEN conjunct1] group_user_service.delete_step [THEN conjunct1]
  key_service.create_step [OF _ batch_create_key_Inr, THEN conjunct1] key_service.update_step [THEN conjunct1]
  key_service.delete_step [THEN conjunct1]

lemma svc_step_integrity: "svc_step db db' \<Longrightarrow> integrity db \<Longrightarrow> integrity db'"
  by (induction rule: svc_step.induct) (erule (1) steps_keep_ok)+

text \<open>What a step does to the keys of the table.\<close>

definition keys_kept :: "'z svc_db_scheme \<Rightarrow> 'z svc_db_scheme \<Rightarrow> bool" where
  "keys_kept db db' =
     (\<forall>k \<in> set (td_api_keys db). \<forall>k' \<in> set (td_api_keys db'). ak_id k' = ak_id k \<longrightarrow>
        ak_key_hash k' = ak_key_hash k \<and> ak_creator_id k' = ak_creator_id k \<and> ak_system k' = ak_system k \<and>
        (\<forall>r. ak_role_id k = Some r \<and> ak_role_id k' = None \<longrightarrow> r \<notin> r_id ` set (sv_roles db')))"

lemma keys_keptI:
  assumes "\<And>k k'. k \<in> set (td_api_keys db) \<Longrightarrow> k' \<in> set (td_api_keys db') \<Longrightarrow> ak_id k' = ak_id k \<Longrightarrow>
    ak_key_hash k' = ak_key_hash k \<and> ak_creator_id k' = ak_creator_id k \<and> ak_system k' = ak_system k \<and>
    (\<forall>r. ak_role_id k = Some r \<and> ak_role_id k' = None \<longrightarrow> r \<notin> r_id ` set (sv_roles db'))"
  shows "keys_kept db db'"
  using assms by (simp add: keys_kept_def)

lemma same_key:
  "integrity db \<Longrightarrow> k \<in> set (td_api_keys db) \<Longrightarrow> k' \<in> set (td_api_keys db) \<Longrightarrow> ak_id k = ak_id k' \<Longrightarrow> k = k'"
  by (auto simp: integrity_def distinct_map dest: inj_onD)

lemma keys_kept_subset:
  assumes "integrity db" "set (td_api_keys db') \<subseteq> set (td_api_keys db)"
  shows "keys_kept db db'"
proof (rule keys_keptI, goal_cases)
  case (1 k k')
  then have "k' = k" using same_key [OF assms(1)] assms(2) by blast
  then show ?case by auto
qed

lemma keys_kept_role:
  assumes "integrity db"
  shows "keys_kept db (cascade_role db rid)"
proof (rule keys_keptI, goal_cases)
  case (1 k k')
  then obtain k0 where k0: "k0 \<in> set (td_api_keys db)" "k' = (if ak_role_id k0 = Some rid then k0\<lparr>ak_role_id := None\<rparr> else k0)"
    by (auto simp: cascade_role_def)
  then have "ak_id k0 = ak_id k" using 1(3) by (simp split: if_splits)
  then have "k0 = k" using same_key [OF assms k0(1) 1(1)] by simp
  then show ?case using k0(2) by (cases "ak_role_id k = Some rid") (auto simp: cascade_role_def)
qed

lemma keys_kept_add:
  assumes "integrity db" "td_api_keys db' = td_api_keys db @ [k]" "ak_id k \<notin> ak_id ` set (td_api_keys db)"
  shows "keys_kept db db'"
proof (rule keys_keptI, goal_cases)
  case (1 k0 k')
  have "k' \<noteq> k" using 1 assms(3) by auto
  then have "k' \<in> set (td_api_keys db)" using 1(2) assms(2) by simp
  then have "k' = k0" using same_key [OF assms(1) _ 1(1) 1(3)] by simp
  then show ?case by auto
qed

lemma keys_kept_update:
  assumes "integrity db" "update_key env f kid p db = Inr (k, db')"
  shows "keys_kept db db'"
proof -
  from update_key_Inr [OF assms] obtain k0 where k0: "k0 \<in> set (td_api_keys db)" "ak_id k0 = kid" "ak_id k = kid"
    "ak_creator_id k = ak_creator_id k0" "ak_key_hash k = ak_key_hash k0" "ak_system k = ak_system k0"
    "ak_role_id k = None \<longrightarrow> ak_role_id k0 = None" "db' = set_key db k" by (elim bexE conjE) (rule that; assumption)
  show ?thesis
  proof (rule keys_keptI, goal_cases)
    case (1 k1 k2)
    show ?case
    proof (cases "ak_id k1 = kid")
      case True
      then have "k1 = k0" "k2 = k" using 1 k0(1,2,3,8) same_key [OF assms(1) 1(1) k0(1)] by (auto simp: set_key_def)
      then show ?thesis using k0 by auto
    next
      case False
      then have "k2 \<in> set (td_api_keys db)" using 1(2,3) k0(3,8) by (auto simp: set_key_def split: if_splits)
      then have "k2 = k1" using same_key [OF assms(1) _ 1(1) 1(3)] by simp
      then show ?thesis by auto
    qed
  qed
qed

lemma svc_step_keys:
  assumes "svc_step db db'" "integrity db"
  shows "keys_kept db db'"
  using assms
proof (induction rule: svc_step.induct)
  case (create_key env c i f kp db raw ak db')
  note s = created_key_shape [OF create_key_Inr [OF create_key.hyps, THEN conjunct1]]
  then have "td_api_keys db' = td_api_keys db @ [ak]" "ak_id ak \<notin> ak_id ` set (td_api_keys db)" by auto
  then show ?case by (rule keys_kept_add [OF create_key.prems])
next
  case (update_key env f k ku db ak db')
  then show ?case by (blast intro: keys_kept_update)
next
  case (delete_role env f k db db')
  then show ?case using delete_role_Inr [OF delete_role(2,1)] keys_kept_role by blast
next
  case (create_user env i f p db u db')
  then show ?case by (intro keys_kept_subset) (auto dest: create_user_Inr)
next
  case (update_user env f k p db u db')
  show ?case by (rule keys_kept_subset [OF update_user(2)])
      (use update_user_Inr [OF update_user(2,1)] in \<open>auto simp: set_user_def\<close>)
next
  case (delete_user env f k db db')
  show ?case by (rule keys_kept_subset [OF delete_user(2)])
      (use delete_user_Inr [OF delete_user(2,1)] in \<open>auto simp: cascade_user_def Let_def\<close>)
next
  case (create_role env i f rp db r db')
  then show ?case by (intro keys_kept_subset) (auto dest: create_role_Inr)
next
  case (update_role env f k ru db r db')
  show ?case by (rule keys_kept_subset [OF update_role(2)])
      (use update_role_Inr [OF update_role(2,1)] in \<open>auto simp: set_role_def\<close>)
next
  case (create_user_role env i f ids db l db')
  then show ?case by (intro keys_kept_subset) (auto dest: create_user_role_Inr)
next
  case (delete_user_role env f k db db')
  show ?case by (rule keys_kept_subset [OF delete_user_role(2)])
      (use delete_user_role_Inr [OF delete_user_role(2,1)] in auto)
next
  case (create_group env c i f gp db g db')
  then show ?case by (intro keys_kept_subset) (auto dest: create_group_Inr)
next
  case (update_group env f k gu db g db')
  show ?case by (rule keys_kept_subset [OF update_group(2)])
      (use update_group_Inr [OF update_group(2,1)] in \<open>auto simp: set_group_def\<close>)
next
  case (delete_group env f k db db')
  show ?case by (rule keys_kept_subset [OF delete_group(2)])
      (use delete_group_Inr [OF delete_group(2,1)] in \<open>auto simp: cascade_group_def\<close>)
next
  case (create_group_user env c i f ids db m db')
  then show ?case by (intro keys_kept_subset) (auto dest: create_group_user_Inr)
next
  case (delete_group_user env f k db db')
  show ?case by (rule keys_kept_subset [OF delete_group_user(2)])
      (use delete_group_user_Inr [OF delete_group_user(2,1)] in auto)
next
  case (delete_key env f k db db')
  show ?case by (rule keys_kept_subset [OF delete_key(2)])
      (use delete_key_Inr [OF delete_key(2,1)] in auto)
qed

text \<open>The identity services touch no table that a larger state adds.\<close>

lemma svc_step_more: "svc_step db db' \<Longrightarrow> svc_db.more db' = svc_db.more db"
  by (induction rule: svc_step.induct)
    (auto simp: create_user_def update_user_def delete_user_def create_role_def update_role_def delete_role_def
      create_user_role_def delete_user_role_def create_group_def update_group_def delete_group_def create_group_user_def
      delete_group_user_def create_key_def create_api_key_def update_key_def delete_key_def set_user_def set_role_def set_group_def
      set_key_def cascade_user_def cascade_role_def cascade_group_def Let_def bindR_Inr_iff flush_Inr_iff
      split: if_splits)

lemma history_integrity: "svc_step\<^sup>*\<^sup>* db db' \<Longrightarrow> integrity db \<Longrightarrow> integrity db'"
  by (induction rule: rtranclp_induct) (auto intro: svc_step_integrity)

lemma unique_username_lookup:
  assumes "integrity db"
  shows "get_by_username name db \<noteq> Inl MultipleRows"
proof -
  have d: "distinct (map u_username (td_users db))" using assms by (simp add: integrity_def)
  show ?thesis using filter_key_cases [OF d, of name "\<lambda>_. True"] by cases (simp_all add: get_by_username_def)
qed

lemma key_owner_loaded:
  assumes "integrity db" "k \<in> set (td_api_keys db)"
  shows "load_user db (ak_creator_id k) \<noteq> None"
proof -
  have "ak_creator_id k \<in> u_id ` set (td_users db)" using assms by (simp add: integrity_def)
  then show ?thesis by (auto simp: load_user_def find_None_iff)
qed

lemma found_by_name:
  assumes "get_by_username name db = Inr (Some u)"
  shows "u \<in> set (td_users db)"
proof -
  have "filter (\<lambda>u. u_username u = name) (td_users db) = [u]"
    using assms by (simp add: get_by_username_def split: list.splits)
  then show ?thesis by (metis filter_singleton)
qed

lemma logged_in_user:
  "authenticate_user env name pw db = Inr (Some u) \<Longrightarrow> get_by_username name db = Inr (Some u)"
  by (auto simp: authenticate_user_def elim!: bindR_InrE split: option.split_asm if_split_asm)

section \<open>Properties\<close>

text \<open>The constraints of the schema are an invariant of every history of committed service calls, in any
  order and under any filters: emails, usernames, role names, key hashes and assignments stay
  unique and no reference dangles. So a login never meets two users with one name, every API key
  has an owner to authenticate as, and no lookup by id is ambiguous.\<close>

theorem constraints_invariant:
  assumes "integrity db" "svc_step\<^sup>*\<^sup>* db db'"
  shows "integrity db' \<and> (\<forall>name. get_by_username name db' \<noteq> Inl MultipleRows) \<and>
    (\<forall>k \<in> set (td_api_keys db'). load_user db' (ak_creator_id k) \<noteq> None) \<and>
    (\<forall>env f c k. filter_sql f = Inr c \<longrightarrow> get_key env f k db' \<noteq> Inl MultipleRows)"
proof -
  note i = history_integrity [OF assms(2,1)]
  have "distinct (map ak_id (td_api_keys db'))" using i by (simp add: integrity_def)
  from key_table.get_Inl [OF this] have "get_key env f k db' \<noteq> Inl MultipleRows" if "filter_sql f = Inr c" for env f c k
    using that unfolding get_key_def by blast
  then show ?thesis using i unique_username_lookup [OF i] key_owner_loaded [OF i] by blast
qed

lemma keyed_role_deleted: "delete_role witness_svc_env AllSearchFilter 1 keyed_db = Inr (cascade_role keyed_db 1)"
  by (simp add: delete_role_def get_role_def scoped_get_def filter_sql_def keyed_db_def)

lemma keyed_user_deleted: "delete_user witness_svc_env AllSearchFilter 7 keyed_db = Inr (cascade_user keyed_db 7)"
  by (simp add: delete_user_def get_user_def scoped_get_def filter_sql_def keyed_db_def witness_svc_db_def
      witness_user_def witness_svc_env_def)

theorem constraints_invariant_witness:
  "integrity (cascade_user (cascade_role keyed_db 1) 7)"
proof -
  have "delete_user witness_svc_env AllSearchFilter 7 (cascade_role keyed_db 1) = Inr (cascade_user (cascade_role keyed_db 1) 7)"
    by (simp add: delete_user_def get_user_def scoped_get_def filter_sql_def cascade_role_def keyed_db_def witness_svc_db_def
      witness_user_def witness_svc_env_def)
  then have "svc_step\<^sup>*\<^sup>* keyed_db (cascade_user (cascade_role keyed_db 1) 7)"
    using svc_step.delete_role [OF keyed_role_deleted] svc_step.delete_user
    by (meson rtranclp.rtrancl_into_rtrancl rtranclp.rtrancl_refl)
  from constraints_invariant [OF keyed_integrity this] show ?thesis by blast
qed

text \<open>C17. An API key keeps its identity and its restriction: no service call changes the hash, the owner or
  the system flag of a key, and a key restricted to a role loses the restriction only in the step
  that deletes this role. Changing the restriction to another role is possible, clearing it by an
  update is not, whatever the payload.\<close>

theorem key_restriction_kept:
  assumes "integrity db" "svc_step db db'"
    and "k \<in> set (td_api_keys db)" "k' \<in> set (td_api_keys db')" "ak_id k' = ak_id k"
  shows "ak_key_hash k' = ak_key_hash k \<and> ak_creator_id k' = ak_creator_id k \<and> ak_system k' = ak_system k \<and>
    (\<forall>r. ak_role_id k = Some r \<and> r \<in> r_id ` set (sv_roles db') \<longrightarrow> ak_role_id k' \<noteq> None) \<and>
    (\<forall>env f kid p x. update_key (env :: svc_env) f kid p db = Inr (x, db') \<longrightarrow> ak_role_id k \<noteq> None \<longrightarrow> ak_role_id k' \<noteq> None)"
proof -
  have kept: "keys_kept db db'" by (rule svc_step_keys [OF assms(2,1)])
  have roles: "r \<in> r_id ` set (sv_roles db')" if "update_key (env :: svc_env) f kid p db = Inr (x, db')" "ak_role_id k = Some r"
    for env f kid p x r
  proof -
    have "sv_roles db' = sv_roles db" using update_key_Inr [OF assms(1) that(1)] by (auto simp: set_key_def)
    moreover have "r \<in> r_id ` set (sv_roles db)" using assms(1,3) that(2) by (simp add: integrity_def)
    ultimately show ?thesis by simp
  qed
  show ?thesis using kept [unfolded keys_kept_def, rule_format, OF assms(3-5)] roles by (metis not_None_eq)
qed

theorem key_restriction_kept_witness:
  "\<exists>k \<in> set (td_api_keys keyed_db). \<exists>k' \<in> set (td_api_keys (cascade_role keyed_db 1)).
     ak_role_id k = Some 1 \<and> ak_role_id k' = None \<and> ak_creator_id k' = ak_creator_id k"
proof -
  let ?k = "hd (td_api_keys keyed_db)" and ?k' = "hd (td_api_keys (cascade_role keyed_db 1))"
  have k: "?k \<in> set (td_api_keys keyed_db)" "?k' \<in> set (td_api_keys (cascade_role keyed_db 1))" "ak_id ?k' = ak_id ?k"
    by (simp_all add: keyed_db_def cascade_role_def)
  have r: "ak_role_id ?k = Some 1 \<and> ak_role_id ?k' = None" by (simp add: keyed_db_def cascade_role_def)
  have "ak_creator_id ?k' = ak_creator_id ?k"
    by (rule key_restriction_kept [OF keyed_integrity svc_step.delete_role [OF keyed_role_deleted] k, THEN conjunct2, THEN conjunct1])
  then show ?thesis using r by (intro bexI [OF _ k(1)] bexI [OF _ k(2)]) simp
qed

text \<open>C18. Deleting a user ends everything it could do: from then on no password logs it in, no string of
  any kind authenticates as it, it owns no key, has no role and no group, and no token that names
  it is allowed anything; the password login of every other user is unchanged.\<close>

theorem deleted_user_locked_out:
  assumes "integrity db" "delete_user env f uid db = Inr db'"
  shows "(\<forall>name pw u. authenticate_user env name pw db' = Inr (Some u) \<longrightarrow> u_id u \<noteq> uid) \<and>
    (\<forall>C enc now now_row allow_refresh s t.
       authenticate C enc db' now now_row allow_refresh s = Inr t \<longrightarrow> tok_user_id t \<noteq> uid) \<and>
    (\<forall>k \<in> set (td_api_keys db'). ak_creator_id k \<noteq> uid) \<and>
    load_roles (auth_view db') uid = [] \<and> member_groups (auth_view db') uid = {} \<and>
    (\<forall>reg m a t it. tok_user_id t = uid \<longrightarrow> \<not> allowed reg (auth_view db') m a (Some t) it) \<and>
    (\<forall>v \<in> set (td_users db). u_id v \<noteq> uid \<longrightarrow>
       (\<forall>pw. authenticate_user env (u_username v) pw db' = authenticate_user env (u_username v) pw db))"
proof -
  have d: "db' = cascade_user db uid" using delete_user_Inr [OF assms] by blast
  have users: "td_users db' = filter (\<lambda>u. u_id u \<noteq> uid) (td_users db)" by (simp add: d)
  have gone: "load_user db' uid = None" by (auto simp: load_user_def users find_None_iff)
  have pw: "u_id u \<noteq> uid" if "authenticate_user env name pw db' = Inr (Some u)" for name pw u
  proof -
    have "u \<in> set (td_users db')" by (rule found_by_name [OF logged_in_user [OF that]])
    then show ?thesis by (simp add: users)
  qed
  have tok: "tok_user_id t \<noteq> uid" if "authenticate C enc db' now now_row r s = Inr t" for C enc now now_row r s t
    using that gone
    by (auto simp: authenticate_def authenticate_api_key_def authenticate_claims_def Let_def bindR_Inr_iff
        split: option.split_asm if_split_asm)
  have roles: "load_roles (auth_view db') uid = []"
    by (auto simp: load_roles_def auth_view_def d cascade_user_def Let_def filter_empty_conv)
  then have none: "\<not> allowed reg (auth_view db') m a (Some t) it" if "tok_user_id t = uid" for reg m a t it
    using that set_load_roles [of "auth_view db'" uid] by (auto simp: allowed_def user_grants_def)
  have other: "get_by_username (u_username v) db' = get_by_username (u_username v) db"
    if "v \<in> set (td_users db)" "u_id v \<noteq> uid" for v
  proof -
    have "w = v" if "w \<in> set (td_users db)" "u_username w = u_username v" for w
      using that \<open>v \<in> set (td_users db)\<close> assms(1) by (auto simp: integrity_def distinct_map dest: inj_onD)
    then have "filter (\<lambda>u. u_username u = u_username v) (td_users db') = filter (\<lambda>u. u_username u = u_username v) (td_users db)"
      using that by (auto simp: users intro!: filter_cong)
    then show ?thesis by (simp add: get_by_username_def)
  qed
  have groups: "member_groups (auth_view db') uid = {}"
    by (auto simp: member_groups_def auth_view_def d cascade_user_def Let_def)
  have keys: "\<forall>k \<in> set (td_api_keys db'). ak_creator_id k \<noteq> uid"
    by (simp add: d cascade_user_def Let_def)
  show ?thesis using pw tok roles none other groups keys by (simp add: authenticate_user_def)
qed

theorem deleted_user_locked_out_witness:
  "load_roles (auth_view keyed_db) 7 \<noteq> [] \<and> load_roles (auth_view (cascade_user keyed_db 7)) 7 = []"
  using deleted_user_locked_out [OF keyed_integrity keyed_user_deleted]
  by (simp add: load_roles_def auth_view_def keyed_db_def)

end
