(* ===== verification/JobLaws.thy ===== *)
theory JobLaws
  imports JobService ServiceLaws
begin

text \<open>
  The life cycle of a job as a labelled step relation over the service's statements: every step is
  one committed call of a client or of a runner, the clocks, filters and identifiers of different
  steps are unrelated, and a claim updates whatever ids an earlier, possibly stale, selection gave.
\<close>

section \<open>Steps\<close>

datatype job_event =
    ClientCreate
  | ClientUpdate uuid
  | ClientDelete uuid
  | RunnerCreate uuid
  | Claim uuid
  | Complete uuid uuid string
  | Recover
  | HouseClean

definition completion_status :: "job_run option \<Rightarrow> (string \<times> string) option \<Rightarrow> string" where
  "completion_status run exception = (if exception = None then jr_status (the run) else JOB_ERROR)"

inductive job_step :: "job_event \<Rightarrow> 'z job_db_scheme \<Rightarrow> 'z job_db_scheme \<Rightarrow> bool" where
  client_create: "create_job (env :: svc_env) c i f p db = Inr (j, db') \<Longrightarrow> j_id j \<notin> j_id ` set (job_rows db) \<Longrightarrow>
    job_step ClientCreate db db'"
| client_update: "update_job (env :: svc_env) f k u db = Inr (j, db') \<Longrightarrow> job_step (ClientUpdate k) db db'"
| client_delete: "delete_job (env :: svc_env) f k db = Inr db' \<Longrightarrow> job_step (ClientDelete k) db db'"
| runner_create: "create_runner_owned (env :: svc_env) i p c r run_now db = Inr (j, db') \<Longrightarrow>
    j_id j \<notin> j_id ` set (job_rows db) \<Longrightarrow> job_step (RunnerCreate r) db db'"
| claimed: "claim_rows (env :: svc_env) r ids db = (js, db') \<Longrightarrow> job_step (Claim r) db db'"
| completed: "complete (env :: svc_env) k r run details e db = Inr (b, db') \<Longrightarrow>
    job_step (Complete r k (completion_status run e)) db db'"
| recovered: "recover_dead_runners (env :: svc_env) now db = (n, db') \<Longrightarrow> job_step Recover db db'"
| house_clean: "job_ensure_partitions pre ret now db = Inr (cr, dr, db') \<Longrightarrow> job_step HouseClean db db'"

inductive job_trace :: "job_event list \<Rightarrow> 'z job_db_scheme \<Rightarrow> 'z job_db_scheme \<Rightarrow> bool" where
  done_trace: "job_trace [] db db"
| step_trace: "job_step ev db db1 \<Longrightarrow> job_trace evs db1 db2 \<Longrightarrow> job_trace (ev # evs) db db2"

inductive_cases job_trace_ConsE: "job_trace (ev # evs) db db'"
inductive_cases job_trace_NilE: "job_trace [] db db'"

text \<open>Ids are unique, and a running job has an owner and a start.\<close>

definition jobs_ok :: "'z job_db_scheme \<Rightarrow> bool" where
  "jobs_ok db =
     (distinct (map j_id (job_rows db)) \<and>
      (\<forall>j \<in> set (job_rows db). j_status j = JOB_RUNNING \<longrightarrow> j_runner_id j \<noteq> None \<and> j_started_at j \<noteq> None))"

text \<open>What a step may do to a row that stays, and how a new row begins.\<close>

definition changed :: "job_event \<Rightarrow> job \<Rightarrow> job \<Rightarrow> bool" where
  "changed ev j j' =
     (j' = j \<or>
      j_id j' = j_id j \<and> j_creator_id j' = j_creator_id j \<and> j_created_at j' = j_created_at j \<and>
      (case ev of
         ClientUpdate k \<Rightarrow> k = j_id j \<and> j_runner_id j' = j_runner_id j \<and> j_started_at j' = j_started_at j \<and>
           (j_status j' = j_status j \<or> j_status j' \<in> set JOB_CLIENT_STATUSES)
       | Claim r \<Rightarrow> j_status j = JOB_PENDING \<and> j_status j' = JOB_RUNNING \<and> j_runner_id j' = Some r \<and> j_started_at j' \<noteq> None
       | Complete r k s \<Rightarrow> k = j_id j \<and> j_status j = JOB_RUNNING \<and> j_runner_id j = Some r \<and> j_status j' = s \<and>
           j_runner_id j' = j_runner_id j \<and> j_started_at j' = j_started_at j
       | Recover \<Rightarrow> j_status j = JOB_RUNNING \<and> j_status j' = JOB_ERROR \<and>
           j_runner_id j' = j_runner_id j \<and> j_started_at j' = j_started_at j
       | _ \<Rightarrow> False))"

definition begins :: "job_event \<Rightarrow> job \<Rightarrow> bool" where
  "begins ev j =
     (case ev of
        ClientCreate \<Rightarrow> j_status j \<in> set JOB_CLIENT_STATUSES \<and> j_runner_id j = None \<and> j_started_at j = None
      | RunnerCreate r \<Rightarrow> j_runner_id j = Some r \<and>
          (j_status j = JOB_RUNNING \<and> j_started_at j \<noteq> None \<or> j_status j = JOB_PENDING \<and> j_started_at j = None)
      | _ \<Rightarrow> False)"

definition removes :: "job_event \<Rightarrow> job \<Rightarrow> bool" where
  "removes ev j = (ev = ClientDelete (j_id j) \<or> ev = HouseClean)"

definition step_shape :: "job_event \<Rightarrow> job list \<Rightarrow> job list \<Rightarrow> bool" where
  "step_shape ev rows rows' =
     (\<exists>f P news. rows' = map f (filter P rows) @ news \<and>
        (\<forall>j \<in> set rows. changed ev j (f j) \<and> (P j \<or> removes ev j)) \<and>
        (\<forall>j \<in> set news. begins ev j \<and> j_id j \<notin> j_id ` set rows) \<and> distinct (map j_id news))"

lemma changed_refl [simp]: "changed ev j j"
  by (simp add: changed_def)

lemma changed_id: "changed ev j j' \<Longrightarrow> j_id j' = j_id j"
  by (auto simp: changed_def)

lemma shape_map:
  assumes "\<And>j. j \<in> set rows \<Longrightarrow> changed ev j (f j)"
  shows "step_shape ev rows (map f rows)"
  unfolding step_shape_def using assms by (intro exI [of _ f] exI [of _ "\<lambda>_. True"] exI [of _ "[]"]) simp

lemma shape_filter:
  assumes "\<And>j. j \<in> set rows \<Longrightarrow> \<not> P j \<Longrightarrow> removes ev j"
  shows "step_shape ev rows (filter P rows)"
  unfolding step_shape_def using assms by (intro exI [of _ "\<lambda>j. j"] exI [of _ P] exI [of _ "[]"]) auto

lemma shape_insert:
  assumes "begins ev j" "j_id j \<notin> j_id ` set rows"
  shows "step_shape ev rows (rows @ [j])"
  unfolding step_shape_def using assms by (intro exI [of _ "\<lambda>j. j"] exI [of _ "\<lambda>_. True"] exI [of _ "[j]"]) simp

lemma insert_job_Inr: "insert_job j db = Inr (j', db') \<Longrightarrow> j' = j \<and> job_rows db' = job_rows db @ [j]"
  by (auto simp: insert_job_def insert_row_def split: if_splits sum.split_asm)

lemma get_job_Inr: "get_job env f k db = Inr j \<Longrightarrow> j \<in> set (job_rows db) \<and> j_id j = k"
  by (auto simp: get_job_def scoped_get_def elim!: bindR_InrE split: list.split_asm dest!: filter_eq_ConsD)

lemma get_job_distinct:
  assumes "distinct (map j_id (job_rows db))" "get_job env f k db = Inr j" "x \<in> set (job_rows db)" "j_id x = k"
  shows "x = j"
  using get_job_Inr [OF assms(2)] assms(1,3,4) by (auto simp: distinct_map dest: inj_onD)

lemma set_if_field: "(\<And>v. g (f v x) = g x) \<Longrightarrow> g (set_if given f x) = g x"
  by (cases given) (simp_all add: set_if_def)

lemma update_job_Inr:
  assumes "update_job env f k u db = Inr (j, db')"
  obtains job where "get_job env f k db = Inr job" "changed (ClientUpdate k) job j" "db' = db \<or> db' = replace_job j db"
proof -
  from assms obtain job where g: "get_job env f k db = Inr job" by (auto simp: update_job_def elim!: bindR_InrE)
  define s where "s = set_if (jup_status u) (\<lambda>s x. x\<lparr>j_status := status_text (the s)\<rparr>) job"
  define m where "m = set_if (jup_max_seconds u) (\<lambda>n x. x\<lparr>j_max_seconds := the n\<rparr>)
    (set_if (jup_detail u) (\<lambda>d x. x\<lparr>j_detail := d\<rparr>) s)"
  define d where "d = (case jup_details u of
      Some (Some d) \<Rightarrow> (\<lambda>x. x\<lparr>j_details := d, j_details_kind := details_kind d\<rparr>) | _ \<Rightarrow> (\<lambda>x. x)) m"
  have d: "j = job \<and> db' = db \<or> j = d\<lparr>j_updated_at := se_now env\<rparr> \<and> db' = replace_job j db"
    using assms by (auto simp: update_job_def g Let_def d_def m_def s_def split: if_splits)
  have "status_text x \<in> set JOB_CLIENT_STATUSES" for x by (cases x) (simp_all add: JOB_CLIENT_STATUSES_def)
  then have s: "j_status s = j_status job \<or> j_status s \<in> set JOB_CLIENT_STATUSES"
    by (cases "jup_status u") (simp_all add: s_def set_if_def)
  have keep: "g d = g job"
    if "\<And>x v. g (x\<lparr>j_status := v\<rparr>) = g x" "\<And>x v. g (x\<lparr>j_detail := v\<rparr>) = g x" "\<And>x v. g (x\<lparr>j_max_seconds := v\<rparr>) = g x"
      "\<And>x v. g (x\<lparr>j_details := v, j_details_kind := details_kind v\<rparr>) = g x" for g :: "job \<Rightarrow> 'c"
  proof -
    have "g d = g m" by (simp add: d_def that(4) split: option.split)
    also have "\<dots> = g s" unfolding m_def by (simp add: set_if_field that(2,3))
    also have "\<dots> = g job" unfolding s_def by (rule set_if_field) (rule that(1))
    finally show ?thesis .
  qed
  have ds: "j_status d = j_status s"
  proof -
    have "j_status d = j_status m" by (simp add: d_def split: option.split)
    then show ?thesis by (simp add: m_def set_if_field)
  qed
  have "changed (ClientUpdate k) job (d\<lparr>j_updated_at := se_now env\<rparr>)"
    using s get_job_Inr [OF g] keep [of j_id] keep [of j_creator_id] keep [of j_created_at] keep [of j_runner_id] keep [of j_started_at]
    by (simp add: changed_def ds)
  then show thesis using that [OF g] d by auto
qed

lemma update_shape:
  assumes "distinct (map j_id (job_rows db))" "update_job env f k u db = Inr (j, db')"
  shows "step_shape (ClientUpdate k) (job_rows db) (job_rows db')"
proof -
  obtain job where job: "get_job env f k db = Inr job"
    and c: "changed (ClientUpdate k) job j" and rows: "db' = db \<or> db' = replace_job j db"
    by (rule update_job_Inr [OF assms(2)])
  show ?thesis
  proof (cases "db' = db")
    case True
    then show ?thesis using shape_map [of "job_rows db" _ "\<lambda>j. j"] by simp
  next
    case False
    then have d: "job_rows db' = map (\<lambda>x. if j_id x = j_id j \<and> j_created_at x = j_created_at j then j else x) (job_rows db)"
      using rows by (simp add: replace_job_def)
    have "changed (ClientUpdate k) x j" if "x \<in> set (job_rows db)" "j_id x = j_id j" for x
    proof -
      have "j_id x = k" using that(2) changed_id [OF c] get_job_Inr [OF job] by simp
      then show ?thesis using get_job_distinct [OF assms(1) job that(1)] c by simp
    qed
    then show ?thesis unfolding d by (intro shape_map) simp
  qed
qed

lemma delete_shape:
  assumes "delete_job env f k db = Inr db'"
  shows "step_shape (ClientDelete k) (job_rows db) (job_rows db')"
proof -
  from assms obtain job where "get_job env f k db = Inr job"
    "db' = set_jobs (filter (\<lambda>x. \<not> (j_id x = j_id job \<and> j_created_at x = j_created_at job)) (job_rows db)) db"
    by (auto simp: delete_job_def elim!: bindR_InrE)
  then show ?thesis using get_job_Inr [of env f k db job] by (auto simp: removes_def intro!: shape_filter)
qed

lemma complete_Inr:
  assumes "complete env k r run details e db = Inr (b, db')"
  obtains detail where
    "job_rows db' = map (\<lambda>j. if j_id j = k \<and> j_runner_id j = Some r \<and> j_status j = JOB_RUNNING
       then j\<lparr>j_status := completion_status run e, j_detail := detail,
         j_details := (case details of None \<Rightarrow> j_details j | Some d \<Rightarrow> d), j_updated_at := se_now env\<rparr> else j) (job_rows db)"
proof (cases e)
  case None
  then obtain x where "run = Some x" using assms by (cases run) (simp_all add: complete_def)
  then show thesis using that [of "jr_detail x"] assms None
    by (auto simp: complete_def Let_def completion_status_def)
next
  case (Some x)
  obtain name message where x: "x = (name, message)" by (cases x)
  show thesis using that [of "Some (name @ '': '' @ message)"] assms Some
    by (auto simp: complete_def Let_def completion_status_def x)
qed

lemma complete_shape:
  assumes "complete env k r run details e db = Inr (b, db')"
  shows "step_shape (Complete r k (completion_status run e)) (job_rows db) (job_rows db')"
  by (rule complete_Inr [OF assms]) (simp add: shape_map changed_def)

lemma drop_all_rows: "\<exists>P. pt_rows (snd (drop_all_expired rd cutoff names st)) = filter P (pt_rows st)"
proof (induction names arbitrary: st)
  case Nil
  show ?case by (intro exI [of _ "\<lambda>_. True"]) simp
next
  case (Cons n names)
  obtain P where P: "pt_rows (snd (drop_all_expired rd cutoff names (drop_partition rd n st))) = filter P (pt_rows (drop_partition rd n st))"
    using Cons by blast
  obtain Q where "pt_rows (drop_partition rd n st) = filter Q (pt_rows st)"
    by (auto simp: drop_partition_def Let_def intro: that)
  then have "pt_rows (snd (drop_all_expired rd cutoff names (drop_partition rd n st))) = filter (\<lambda>r. Q r \<and> P r) (pt_rows st)"
    using P by simp
  then have dropped: "\<exists>P. pt_rows (snd (drop_all_expired rd cutoff names (drop_partition rd n st))) = filter P (pt_rows st)"
    by (intro exI [of _ "\<lambda>r. Q r \<and> P r"])
  show ?case
  proof (cases "expired cutoff n")
    case True
    then have "snd (drop_all_expired rd cutoff (n # names) st) = snd (drop_all_expired rd cutoff names (drop_partition rd n st))"
      by (simp split: prod.split)
    then show ?thesis using dropped by (simp only:)
  qed (use Cons [of st] in simp)
qed

lemma ensure_days_rows: "ensure_days rd p days st = Inr (ns, st') \<Longrightarrow> pt_rows st' = pt_rows st"
proof (induction days arbitrary: st ns)
  case (Cons d days)
  have one: "pt_rows st1 = pt_rows st" if "ensure_partition rd p d st = Inr (n, st1)" for n st1
    using that by (auto simp: ensure_partition_def create_partition_def Let_def elim!: bindR_InrE split: if_splits)
  from Cons.prems obtain n st1 ns' where "ensure_partition rd p d st = Inr (n, st1)" "ensure_days rd p days st1 = Inr (ns', st')"
    by (auto elim!: bindR_InrE)
  then show ?case using one Cons.IH by simp
qed simp

lemma clean_shape:
  assumes "job_ensure_partitions pre ret now db = Inr (cr, dr, db')"
  shows "step_shape HouseClean (job_rows db) (job_rows db')"
proof -
  from assms obtain jobs where j: "ensure_partitions job_day ''jobs'' pre ret now (jd_jobs db) = Inr (cr, dr, jobs)"
    "db' = db\<lparr>jd_jobs := jobs\<rparr>"
    by (auto simp: job_ensure_partitions_def elim!: bindR_InrE)
  then obtain ns st1 st2 cutoff names where s:
    "ensure_days job_day ''jobs'' ns (jd_jobs db) = Inr (cr, st1)" "create_default (default_name ''jobs'') st1 = Inr st2"
    "drop_all_expired job_day cutoff names st2 = (dr, jobs)"
    by (auto simp: ensure_partitions_def drop_expired_partitions_def Let_def elim!: bindR_InrE split: prod.split_asm)
  have "pt_rows st2 = pt_rows st1" using s(2) by (auto simp: create_default_def split: if_splits)
  then have "pt_rows st2 = job_rows db" using ensure_days_rows [OF s(1)] by simp
  moreover obtain P where "pt_rows jobs = filter P (pt_rows st2)"
    using drop_all_rows [of job_day cutoff names st2] s(3) by auto
  ultimately show ?thesis unfolding j(2) by (simp add: shape_filter removes_def)
qed

lemma job_step_shape: "job_step ev db db' \<Longrightarrow> distinct (map j_id (job_rows db)) \<Longrightarrow> step_shape ev (job_rows db) (job_rows db')"
proof (induction rule: job_step.induct)
  case (client_create env c i f p db j db')
  then have "j = new_job env i c p" "job_rows db' = job_rows db @ [j]"
    by (auto simp: create_job_def Let_def elim!: bindR_InrE dest!: insert_job_Inr)
  moreover have "j_status (new_job env i c p) \<in> set JOB_CLIENT_STATUSES"
    by (cases "jc_status p") (simp_all add: new_job_def JOB_CLIENT_STATUSES_def)
  ultimately show ?case using client_create by (simp add: shape_insert begins_def new_job_def)
next
  case (client_update env f k u db j db')
  then show ?case by (intro update_shape)
next
  case (client_delete env f k db db')
  then show ?case by (intro delete_shape)
next
  case (runner_create env i p c r run_now db j db')
  then have "begins (RunnerCreate r) j \<and> job_rows db' = job_rows db @ [j]"
    by (cases run_now) (auto simp: create_runner_owned_def begins_def dest!: insert_job_Inr)
  then show ?case using runner_create by (simp add: shape_insert)
next
  case (claimed env r ids db js db')
  then have rows: "job_rows db' = map (\<lambda>j. if claimable ids j then set_claimed r (se_now env) (se_now env) j else j) (job_rows db)"
    by (auto simp: claim_rows_def Let_def)
  show ?case unfolding rows by (rule shape_map) (simp add: changed_def claimable_def set_claimed_def)
next
  case (completed env k r run details e db b db')
  then show ?case by (intro complete_shape)
next
  case (recovered env now db n db')
  then have rows: "job_rows db' = map (\<lambda>j. if overdue (case now of None \<Rightarrow> se_now env | Some t \<Rightarrow> t) j
      then JobService.recover (se_now env) j else j) (job_rows db)"
    by (auto simp: recover_dead_runners_def Let_def)
  show ?case unfolding rows by (rule shape_map) (simp add: changed_def overdue_def JobService.recover_def)
next
  case (house_clean pre ret now db cr dr db')
  then show ?case by (intro clean_shape)
qed

section \<open>Traces\<close>

lemma job_step_ok:
  assumes "job_step ev db db'" "jobs_ok db"
  shows "jobs_ok db'"
proof -
  have dist: "distinct (map j_id (job_rows db))" using assms(2) by (simp add: jobs_ok_def)
  obtain f P news where rows: "job_rows db' = map f (filter P (job_rows db)) @ news"
    and f: "\<And>j. j \<in> set (job_rows db) \<Longrightarrow> changed ev j (f j)"
    and n: "\<And>j. j \<in> set news \<Longrightarrow> begins ev j \<and> j_id j \<notin> j_id ` set (job_rows db)" "distinct (map j_id news)"
    using job_step_shape [OF assms(1) dist] unfolding step_shape_def by blast
  have ids: "map j_id (map f (filter P (job_rows db))) = map j_id (filter P (job_rows db))"
    using changed_id [OF f] by simp
  have running: "j_runner_id (f j) \<noteq> None \<and> j_started_at (f j) \<noteq> None"
    if "j \<in> set (job_rows db)" "j_status (f j) = JOB_RUNNING" for j
  proof -
    have "j_status j = JOB_RUNNING \<longrightarrow> j_runner_id j \<noteq> None \<and> j_started_at j \<noteq> None"
      using assms(2) that(1) by (simp add: jobs_ok_def)
    then show ?thesis using f [OF that(1)] that(2)
      by (auto simp: changed_def JOB_CLIENT_STATUSES_def job_statuses split: job_event.split_asm)
  qed
  have fresh: "j_runner_id j \<noteq> None \<and> j_started_at j \<noteq> None" if "j \<in> set news" "j_status j = JOB_RUNNING" for j
    using n(1) [OF that(1)] that(2)
    by (auto simp: begins_def JOB_CLIENT_STATUSES_def job_statuses split: job_event.split_asm)
  have "j_id x \<noteq> j_id y" if "x \<in> set news" "y \<in> set (job_rows db)" for x y
    using n(1) [OF that(1)] that(2) by (metis imageI)
  then have "distinct (map j_id (map f (filter P (job_rows db))) @ map j_id news)"
    unfolding ids distinct_append using dist n(2) by (fastforce simp: distinct_map_filter)
  then show ?thesis using running fresh by (auto simp: jobs_ok_def rows)
qed

lemma job_step_row:
  assumes "job_step ev db db'" "jobs_ok db" "j \<in> set (job_rows db)" "\<not> removes ev j"
  obtains j' where "j' \<in> set (job_rows db')" "changed ev j j'"
proof -
  have "step_shape ev (job_rows db) (job_rows db')"
    using job_step_shape [OF assms(1)] assms(2) by (simp add: jobs_ok_def)
  then show thesis using assms(3,4) that unfolding step_shape_def by force
qed

text \<open>No client touches the job, no partition is dropped, and no body reports it as pending again.\<close>

definition undisturbed :: "uuid \<Rightarrow> job_event list \<Rightarrow> bool" where
  "undisturbed k evs =
     (\<forall>ev \<in> set evs. ev \<noteq> ClientUpdate k \<and> ev \<noteq> ClientDelete k \<and> ev \<noteq> HouseClean \<and> (\<forall>r. ev \<noteq> Complete r k JOB_PENDING))"

definition run_ends :: "job_event list \<Rightarrow> job \<Rightarrow> job \<Rightarrow> bool" where
  "run_ends evs j j' =
     (j_id j' = j_id j \<and> j_runner_id j' = j_runner_id j \<and> j_started_at j' = j_started_at j \<and>
      (j_status j' = JOB_RUNNING \<or> j_status j' = JOB_ERROR \<and> Recover \<in> set evs \<or>
       (\<exists>r. j_runner_id j = Some r \<and> Complete r (j_id j) (j_status j') \<in> set evs)))"

definition fate :: "job_event list \<Rightarrow> job \<Rightarrow> job \<Rightarrow> bool" where
  "fate evs j j' =
     (if j_status j = JOB_RUNNING then run_ends evs j j'
      else if j_status j = JOB_PENDING
      then j' = j \<or> (\<exists>r j1. Claim r \<in> set evs \<and> changed (Claim r) j j1 \<and> j1 \<noteq> j \<and> run_ends evs j1 j')
      else j' = j)"

lemma run_ends_Cons: "run_ends evs j j' \<Longrightarrow> run_ends (ev # evs) j j'"
  by (auto simp: run_ends_def)

lemma fate_Cons:
  assumes "fate evs j j'"
  shows "fate (ev # evs) j j'"
proof -
  have "changed (Claim r) j j1 \<and> j1 \<noteq> j \<and> run_ends evs j1 j' \<Longrightarrow> Claim r \<in> set evs \<Longrightarrow>
      \<exists>r j1. Claim r \<in> set (ev # evs) \<and> changed (Claim r) j j1 \<and> j1 \<noteq> j \<and> run_ends (ev # evs) j1 j'" for r j1
    by (intro exI [of _ r] exI [of _ j1]) (simp add: run_ends_Cons)
  then show ?thesis using assms run_ends_Cons [of evs j j' ev] unfolding fate_def by (auto split: if_splits)
qed

lemma changed_pending: "changed ev j j1 \<Longrightarrow> j_status j = JOB_PENDING \<Longrightarrow> ev \<noteq> ClientUpdate (j_id j) \<Longrightarrow> j1 \<noteq> j \<Longrightarrow>
    (\<exists>r. ev = Claim r) \<and> j_status j1 = JOB_RUNNING"
  by (auto simp: changed_def job_statuses split: job_event.split_asm)

lemma changed_running:
  assumes "changed ev j j1" "j_status j = JOB_RUNNING" "undisturbed (j_id j) [ev]"
  shows "j_id j1 = j_id j \<and> j_runner_id j1 = j_runner_id j \<and> j_started_at j1 = j_started_at j \<and> j_status j1 \<noteq> JOB_PENDING \<and>
    (j_status j1 = JOB_RUNNING \<or> j_status j1 = JOB_ERROR \<and> ev = Recover \<or>
     (\<exists>r. j_runner_id j = Some r \<and> ev = Complete r (j_id j) (j_status j1)))"
  using assms by (auto simp: changed_def undisturbed_def job_statuses split: job_event.split_asm)

lemma changed_other:
  assumes "changed ev j j1" "j_status j \<noteq> JOB_RUNNING" "j_status j \<noteq> JOB_PENDING" "ev \<noteq> ClientUpdate (j_id j)"
  shows "j1 = j"
  using assms by (auto simp: changed_def split: job_event.split_asm)

lemma trace_fate:
  assumes "job_trace evs db db'" "jobs_ok db" "j \<in> set (job_rows db)" "undisturbed (j_id j) evs"
  shows "\<exists>j' \<in> set (job_rows db'). fate evs j j'"
  using assms
proof (induction arbitrary: j rule: job_trace.induct)
  case (done_trace db)
  then show ?case by (intro bexI [of _ j]) (auto simp: fate_def run_ends_def)
next
  case (step_trace ev db db1 evs db2)
  have u: "undisturbed (j_id j) [ev]" "undisturbed (j_id j) evs" and ev: "ev \<noteq> ClientUpdate (j_id j)" "\<not> removes ev j"
    using step_trace.prems(3) by (auto simp: undisturbed_def removes_def)
  obtain j1 where j1: "j1 \<in> set (job_rows db1)" "changed ev j j1"
    by (rule job_step_row [OF step_trace.hyps(1) step_trace.prems(1,2) ev(2)])
  have id: "j_id j1 = j_id j" by (rule changed_id [OF j1(2)])
  obtain j2 where j2: "j2 \<in> set (job_rows db2)" "fate evs j1 j2"
    using step_trace.IH [OF job_step_ok [OF step_trace.hyps(1) step_trace.prems(1)] j1(1)] u(2) id by auto
  have "fate (ev # evs) j j2"
  proof (cases "j_status j = JOB_RUNNING")
    case True
    note c = changed_running [OF j1(2) True u(1)]
    show ?thesis
    proof (cases "j_status j1 = JOB_RUNNING")
      case True
      then show ?thesis using c j2(2) \<open>j_status j = JOB_RUNNING\<close> by (auto simp: fate_def run_ends_def)
    next
      case False
      then have "j2 = j1" using c j2(2) by (simp add: fate_def)
      then show ?thesis using c False True by (auto simp: fate_def run_ends_def)
    qed
  next
    case nr: False
    show ?thesis
    proof (cases "j1 = j")
      case True
      then show ?thesis using j2(2) fate_Cons by simp
    next
      case False
      then have p: "j_status j = JOB_PENDING" using changed_other [OF j1(2) nr _ ev(1)] by blast
      from changed_pending [OF j1(2) p ev(1) False] obtain r where r: "ev = Claim r" "j_status j1 = JOB_RUNNING" by blast
      then have "run_ends (ev # evs) j1 j2" using j2(2) run_ends_Cons by (simp add: fate_def)
      then show ?thesis using p nr r(1) j1(2) False by (auto simp: fate_def)
    qed
  qed
  then show ?case using j2(1) by blast
qed

lemma trace_ok: "job_trace evs db db' \<Longrightarrow> jobs_ok db \<Longrightarrow> jobs_ok db'"
  by (induction rule: job_trace.induct) (auto intro: job_step_ok)

section \<open>Claims\<close>

definition pending_ids :: "'z job_db_scheme \<Rightarrow> uuid list" where
  "pending_ids db = map j_id (sort_key j_id (filter (\<lambda>j. j_status j = JOB_PENDING) (job_rows db)))"

lemma pending_ids_sorted: "jobs_ok db \<Longrightarrow> sorted (pending_ids db) \<and> distinct (pending_ids db)"
  by (simp add: pending_ids_def jobs_ok_def distinct_map inj_on_def)

lemma set_pending_ids: "k \<in> set (pending_ids db) \<longleftrightarrow> (\<exists>j \<in> set (job_rows db). j_id j = k \<and> j_status j = JOB_PENDING)"
  by (auto simp: pending_ids_def)

lemma claim_ids_all: "claim_ids env AllSearchFilter n db = Inr (take n (pending_ids db))"
  by (simp add: claim_ids_def filter_sql_def pending_ids_def take_map)

lemma filter_not_taken:
  assumes "distinct xs"
  shows "filter (\<lambda>x. x \<notin> set (take n xs)) xs = drop n xs"
proof -
  have d: "set (take n xs) \<inter> set (drop n xs) = {}" using assms by (rule set_take_disj_set_drop_if_distinct) simp
  have "filter (\<lambda>x. x \<notin> set (take n xs)) (take n xs @ drop n xs) = drop n xs"
    unfolding filter_append using d by (auto simp: filter_empty_conv filter_id_conv)
  then show ?thesis by simp
qed

lemma claimed_pending_ids:
  assumes "claim_rows env r ids db = (js, db')"
  shows "pending_ids db' = filter (\<lambda>k. k \<notin> set ids) (pending_ids db)"
proof -
  let ?c = "\<lambda>j. if claimable ids j then set_claimed r (se_now env) (se_now env) j else j"
  have rows: "job_rows db' = map ?c (job_rows db)" using assms by (auto simp: claim_rows_def Let_def)
  have "filter (\<lambda>j. j_status j = JOB_PENDING) (map ?c xs) =
      filter (\<lambda>j. j_id j \<notin> set ids) (filter (\<lambda>j. j_status j = JOB_PENDING) xs)" for xs
    by (induction xs) (auto simp: claimable_def set_claimed_def job_statuses)
  then show ?thesis
    by (simp add: pending_ids_def rows filter_map comp_def flip: filter_sort)
qed

lemma claim_rows_ids:
  assumes "jobs_ok db" "claim_rows env r ids db = (js, db')"
  shows "distinct (map j_id js) \<and> set (map j_id js) = set ids \<inter> set (pending_ids db)"
proof -
  have js: "js = map (set_claimed r (se_now env) (se_now env)) (filter (claimable ids) (job_rows db))"
    using assms(2) by (auto simp: claim_rows_def Let_def)
  have "map j_id js = map j_id (filter (claimable ids) (job_rows db))" by (simp add: js set_claimed_def)
  then show ?thesis using assms(1) by (auto simp: jobs_ok_def distinct_map_filter set_pending_ids claimable_def)
qed

lemma claim_rows_running:
  assumes "claim_rows env r ids db = (js, db')" "j \<in> set js"
  shows "j \<in> set (job_rows db') \<and> j_status j = JOB_RUNNING \<and> j_runner_id j = Some r \<and> j_started_at j = Some (se_now env)"
  using assms by (auto simp: claim_rows_def Let_def set_claimed_def)

lemma claim_rows_keeps:
  assumes "claim_rows env r ids db = (js, db')" "j \<in> set (job_rows db)" "j_status j \<noteq> JOB_PENDING"
  shows "j \<in> set (job_rows db')"
  using assms by (force simp: claim_rows_def Let_def claimable_def)

lemma claim_pending_exact:
  fixes env :: svc_env
  assumes "jobs_ok db" "0 < limit"
  obtains js db' where "claim_pending env AllSearchFilter r (int limit) db = Inr (js, db')" "jobs_ok db'"
    "pending_ids db' = drop limit (pending_ids db)" "sort (map j_id js) = take limit (pending_ids db)"
    "\<And>j. j \<in> set js \<Longrightarrow> j \<in> set (job_rows db') \<and> j_status j = JOB_RUNNING \<and> j_runner_id j = Some r \<and> j_started_at j = Some (se_now env)"
    "\<And>j. j \<in> set (job_rows db) \<Longrightarrow> j_status j \<noteq> JOB_PENDING \<Longrightarrow> j \<in> set (job_rows db')"
proof (cases "pending_ids db = []")
  case True
  then show thesis using that [of "[]" db] assms by (simp add: claim_pending_def claim_ids_all)
next
  case False
  let ?ids = "take limit (pending_ids db)"
  obtain js db' where c: "claim_rows env r ?ids db = (js, db')" by (cases "claim_rows env r ?ids db")
  have run: "claim_pending env AllSearchFilter r (int limit) db = Inr (js, db')"
    using False assms(2) c by (simp add: claim_pending_def claim_ids_all)
  note srt = pending_ids_sorted [OF assms(1)]
  note ids = claim_rows_ids [OF assms(1) c]
  have "set (map j_id js) = set ?ids" using ids set_take_subset [of limit "pending_ids db"] by blast
  then have "sort (map j_id js) = ?ids"
    using srt ids by (intro sorted_distinct_set_unique) (simp_all add: sorted_wrt_take)
  moreover have "pending_ids db' = drop limit (pending_ids db)"
    using filter_not_taken srt unfolding claimed_pending_ids [OF c] by blast
  moreover have "jobs_ok db'" by (rule job_step_ok [OF job_step.claimed [OF c] assms(1)])
  ultimately show thesis using that run claim_rows_running [OF c] claim_rows_keeps [OF c] by blast
qed

text \<open>Rounds of claims by several runners, each with its own clock and the same limit.\<close>

fun claim_rounds ::
    "nat \<Rightarrow> (svc_env \<times> uuid) list \<Rightarrow> 'z job_db_scheme \<Rightarrow> svc_error + job list list \<times> 'z job_db_scheme" where
  "claim_rounds limit [] db = Inr ([], db)"
| "claim_rounds limit ((env, r) # rounds) db =
     bindR (claim_pending env AllSearchFilter r (int limit) db) (\<lambda>(js, db1).
     bindR (claim_rounds limit rounds db1) (\<lambda>(jss, db2). Inr (js # jss, db2)))"

definition served :: "svc_env \<times> uuid \<Rightarrow> 'z job_db_scheme \<Rightarrow> job \<Rightarrow> bool" where
  "served round1 db' j =
     (j \<in> set (job_rows db') \<and> j_status j = JOB_RUNNING \<and> j_runner_id j = Some (snd round1) \<and>
      j_started_at j = Some (se_now (fst round1)))"

lemma claim_rounds_exact:
  assumes "jobs_ok db" "0 < limit"
  shows "\<exists>jss db'. claim_rounds limit rounds db = Inr (jss, db') \<and> jobs_ok db' \<and> length jss = length rounds \<and>
    pending_ids db' = drop (length rounds * limit) (pending_ids db) \<and>
    (\<forall>i < length rounds. sort (map j_id (jss ! i)) = take limit (drop (i * limit) (pending_ids db)) \<and>
       (\<forall>j \<in> set (jss ! i). served (rounds ! i) db' j)) \<and>
    (\<forall>j \<in> set (job_rows db). j_status j \<noteq> JOB_PENDING \<longrightarrow> j \<in> set (job_rows db'))"
  using assms(1)
proof (induction rounds arbitrary: db)
  case (Cons x rounds)
  obtain env r where x: "x = (env, r)" by (cases x)
  obtain js db1 where c: "claim_pending env AllSearchFilter r (int limit) db = Inr (js, db1)" "jobs_ok db1"
    "pending_ids db1 = drop limit (pending_ids db)" "sort (map j_id js) = take limit (pending_ids db)"
    and run: "\<And>j. j \<in> set js \<Longrightarrow> j \<in> set (job_rows db1) \<and> j_status j = JOB_RUNNING \<and> j_runner_id j = Some r \<and> j_started_at j = Some (se_now env)"
    and keep: "\<And>j. j \<in> set (job_rows db) \<Longrightarrow> j_status j \<noteq> JOB_PENDING \<Longrightarrow> j \<in> set (job_rows db1)"
    by (rule claim_pending_exact [OF Cons.prems assms(2), where env = env and r = r]) (rule that, assumption+)
  obtain jss db2 where IH: "claim_rounds limit rounds db1 = Inr (jss, db2)" "jobs_ok db2" "length jss = length rounds"
    "pending_ids db2 = drop (length rounds * limit) (pending_ids db1)"
    and claims: "\<And>i. i < length rounds \<Longrightarrow> sort (map j_id (jss ! i)) = take limit (drop (i * limit) (pending_ids db1)) \<and>
       (\<forall>j \<in> set (jss ! i). served (rounds ! i) db2 j)"
    and keep2: "\<And>j. j \<in> set (job_rows db1) \<Longrightarrow> j_status j \<noteq> JOB_PENDING \<Longrightarrow> j \<in> set (job_rows db2)"
    using Cons.IH [OF c(2)] by (elim exE conjE) (rule that, assumption+, blast+)
  have first: "served x db2 j" if "j \<in> set js" for j
    using run [OF that] keep2 [of j] by (simp add: served_def x job_statuses)
  have each: "sort (map j_id ((js # jss) ! i)) = take limit (drop (i * limit) (pending_ids db)) \<and>
       (\<forall>j \<in> set ((js # jss) ! i). served ((x # rounds) ! i) db2 j)" if "i < length (x # rounds)" for i
  proof (cases i)
    case 0
    then show ?thesis using c(4) first by simp
  next
    case (Suc n)
    then show ?thesis using claims [of n] that by (simp add: c(3) add.commute)
  qed
  show ?case
  proof (intro exI conjI)
    show "claim_rounds limit (x # rounds) db = Inr (js # jss, db2)" using c(1) IH(1) by (simp add: x)
    show "pending_ids db2 = drop (length (x # rounds) * limit) (pending_ids db)" using IH(4) by (simp add: c(3) add.commute)
    show "\<forall>j \<in> set (job_rows db). j_status j \<noteq> JOB_PENDING \<longrightarrow> j \<in> set (job_rows db2)" using keep keep2 by blast
  qed (use IH(2,3) each in simp_all)
qed simp

section \<open>Properties\<close>

definition witness_job :: "uuid \<Rightarrow> job" where
  "witness_job k = \<lparr>j_id = k, j_created_at = 0, j_creator_id = 7, j_details_kind = ''LogJobDetails'',
     j_details = LogJobDetails ''hello'', j_runner_id = None, j_status = JOB_PENDING, j_detail = None,
     j_max_seconds = 60, j_started_at = None, j_updated_at = 0\<rparr>"

definition witness_jobs_db :: job_db where
  "witness_jobs_db = svc_db.extend witness_svc_db (job_db.fields
     \<lparr>pt_rows = [witness_job 2, witness_job 1], pt_children = [(''jobs_default'', None)], pt_relations = []\<rparr>)"

lemma witness_job_rows [simp]: "job_rows witness_jobs_db = [witness_job 2, witness_job 1]"
  by (simp add: witness_jobs_db_def svc_db.defs job_db.defs)

lemma witness_jobs_ok: "jobs_ok witness_jobs_db"
  by (simp add: jobs_ok_def witness_job_def job_statuses)

lemma fate_explicit:
  assumes "fate evs j j'"
  shows "j_id j' = j_id j \<and>
    (j_status j \<notin> {JOB_PENDING, JOB_RUNNING} \<longrightarrow> j' = j) \<and>
    (j_status j = JOB_RUNNING \<longrightarrow>
       j_runner_id j' = j_runner_id j \<and> j_started_at j' = j_started_at j \<and>
       (j_status j' = JOB_RUNNING \<or> j_status j' = JOB_ERROR \<and> Recover \<in> set evs \<or>
        (\<exists>r. j_runner_id j = Some r \<and> Complete r (j_id j) (j_status j') \<in> set evs))) \<and>
    (j_status j = JOB_PENDING \<longrightarrow> j' = j \<or>
       (\<exists>r. Claim r \<in> set evs \<and> j_runner_id j' = Some r \<and> j_started_at j' \<noteq> None \<and>
          (j_status j' = JOB_RUNNING \<or> j_status j' = JOB_ERROR \<and> Recover \<in> set evs \<or>
           Complete r (j_id j) (j_status j') \<in> set evs)))"
proof (cases "j_status j = JOB_PENDING \<and> j' \<noteq> j")
  case False
  then show ?thesis using assms by (auto simp: fate_def run_ends_def job_statuses split: if_splits)
next
  case True
  then obtain r j1 where c: "Claim r \<in> set evs" "changed (Claim r) j j1" "j1 \<noteq> j" "run_ends evs j1 j'"
    using assms by (auto simp: fate_def job_statuses split: if_splits)
  then have "j_id j1 = j_id j" "j_runner_id j1 = Some r" "j_started_at j1 \<noteq> None" by (auto simp: changed_def)
  then show ?thesis using c(1,4) True by (auto simp: run_ends_def job_statuses)
qed

text \<open>C20. The life cycle of a job along any committed history of client calls, claims, completions, recoveries
  and partition sweeps. Ids stay unique and a running job has an owner and a start. A job that no client
  touches meanwhile keeps its row; if it was neither pending nor running it is unchanged; if it was running it
  keeps owner and start until the recovery marks it as failed or its own owner reports a status; and
  if it was pending it is unchanged or a runner claimed it and the same holds of that run. No runner ever
  overwrites another runner's job or a finished one.\<close>

theorem job_lifecycle:
  assumes "jobs_ok db" "job_trace evs db db'"
  shows "jobs_ok db' \<and>
    (\<forall>j \<in> set (job_rows db). undisturbed (j_id j) evs \<longrightarrow>
       (\<exists>j' \<in> set (job_rows db'). j_id j' = j_id j \<and>
          (j_status j \<notin> {JOB_PENDING, JOB_RUNNING} \<longrightarrow> j' = j) \<and>
          (j_status j = JOB_RUNNING \<longrightarrow>
             j_runner_id j' = j_runner_id j \<and> j_started_at j' = j_started_at j \<and>
             (j_status j' = JOB_RUNNING \<or> j_status j' = JOB_ERROR \<and> Recover \<in> set evs \<or>
              (\<exists>r. j_runner_id j = Some r \<and> Complete r (j_id j) (j_status j') \<in> set evs))) \<and>
          (j_status j = JOB_PENDING \<longrightarrow> j' = j \<or>
             (\<exists>r. Claim r \<in> set evs \<and> j_runner_id j' = Some r \<and> j_started_at j' \<noteq> None \<and>
                (j_status j' = JOB_RUNNING \<or> j_status j' = JOB_ERROR \<and> Recover \<in> set evs \<or>
                 Complete r (j_id j) (j_status j') \<in> set evs)))))"
  using trace_ok [OF assms(2,1)] trace_fate [OF assms(2,1)] fate_explicit by blast

theorem job_lifecycle_witness:
  "\<exists>db'. job_trace [Claim 5, Complete 5 1 JOB_ERROR] witness_jobs_db db' \<and> jobs_ok db' \<and>
     (\<exists>j' \<in> set (job_rows db'). j_id j' = 2 \<and> (j' = witness_job 2 \<or> j_runner_id j' = Some 5))"
proof -
  obtain js db1 where c: "claim_rows witness_svc_env 5 [1] witness_jobs_db = (js, db1)" by (rule prod.exhaust)
  obtain b db2 where d: "complete witness_svc_env 1 5 None None (Some (''ValueError'', ''x'')) db1 = Inr (b, db2)"
    by (simp add: complete_def Let_def)
  have tr: "job_trace [Claim 5, Complete 5 1 JOB_ERROR] witness_jobs_db db2"
    using job_trace.step_trace [OF job_step.claimed [OF c] job_trace.step_trace [OF job_step.completed [OF d] job_trace.done_trace]]
    by (simp add: completion_status_def)
  have u: "undisturbed (j_id (witness_job 2)) [Claim 5, Complete 5 1 JOB_ERROR]"
    by (simp add: undisturbed_def job_statuses)
  have "witness_job 2 \<in> set (job_rows witness_jobs_db)" by simp
  note job_lifecycle [OF witness_jobs_ok tr, THEN conjunct2, rule_format, OF this u]
  then obtain j' where j': "j' \<in> set (job_rows db2)" "j_id j' = j_id (witness_job 2)"
    "j_status (witness_job 2) = JOB_PENDING \<longrightarrow> j' = witness_job 2 \<or>
       (\<exists>r. Claim r \<in> set [Claim 5, Complete 5 1 JOB_ERROR] \<and> j_runner_id j' = Some r)" by blast
  then have "j_id j' = 2 \<and> (j' = witness_job 2 \<or> j_runner_id j' = Some 5)" by (auto simp: witness_job_def)
  then show ?thesis using tr trace_ok [OF tr witness_jobs_ok] j'(1) by blast
qed

text \<open>C21. Claims make progress: when runners claim one after the other with a limit \<open>n > 0\<close>, the \<open>i\<close>th of them
  receives exactly the pending jobs at positions \<open>i * n\<close> to \<open>i * n + n - 1\<close> in the order of their
  ids, running under its own id since its own clock; so every pending job, at position \<open>p\<close>, is
  claimed by the runner number \<open>p div n\<close> once there are that many claims, and no claim fails.\<close>

theorem claims_progress:
  assumes "jobs_ok db" "0 < limit"
  shows "\<exists>jss db'. claim_rounds limit rounds db = Inr (jss, db') \<and> jobs_ok db' \<and> length jss = length rounds \<and>
    pending_ids db' = drop (length rounds * limit) (pending_ids db) \<and>
    (\<forall>i < length rounds. sort (map j_id (jss ! i)) = take limit (drop (i * limit) (pending_ids db)) \<and>
       (\<forall>j \<in> set (jss ! i). served (rounds ! i) db' j)) \<and>
    (\<forall>p < length (pending_ids db). p div limit < length rounds \<longrightarrow>
       (\<exists>j \<in> set (jss ! (p div limit)). j_id j = pending_ids db ! p))"
proof -
  obtain jss db' where r: "claim_rounds limit rounds db = Inr (jss, db')" "jobs_ok db'" "length jss = length rounds"
    "pending_ids db' = drop (length rounds * limit) (pending_ids db)"
    and each: "\<forall>i < length rounds. sort (map j_id (jss ! i)) = take limit (drop (i * limit) (pending_ids db)) \<and>
       (\<forall>j \<in> set (jss ! i). served (rounds ! i) db' j)"
    using claim_rounds_exact [OF assms, of rounds] by (elim exE conjE) (rule that, assumption+)
  have "\<exists>j \<in> set (jss ! (p div limit)). j_id j = pending_ids db ! p"
    if p: "p < length (pending_ids db)" "p div limit < length rounds" for p
  proof -
    have srt: "sort (map j_id (jss ! (p div limit))) = take limit (drop (p div limit * limit) (pending_ids db))"
      using each p(2) by blast
    define q m where "q = p div limit * limit" and "m = p mod limit"
    have "p = q + m" "m < limit" using assms(2) by (simp_all add: q_def m_def)
    then have "pending_ids db ! p = take limit (drop (p div limit * limit) (pending_ids db)) ! m"
      "m < length (take limit (drop (p div limit * limit) (pending_ids db)))"
      using p(1) unfolding q_def [symmetric] by simp_all
    then have "pending_ids db ! p \<in> set (sort (map j_id (jss ! (p div limit))))" unfolding srt by (metis nth_mem)
    then show ?thesis by auto
  qed
  then show ?thesis using r each by (intro exI conjI) (assumption | blast)+
qed

theorem claims_progress_witness:
  "\<exists>jss db'. claim_rounds 1 [(witness_svc_env, 5), (witness_svc_env, 6)] witness_jobs_db = Inr (jss, db') \<and>
     sort (map j_id (jss ! 0)) = [1] \<and> sort (map j_id (jss ! 1)) = [2]"
proof -
  have p: "pending_ids witness_jobs_db = [1, 2]"
    by (simp add: pending_ids_def witness_job_def word_le_nat_alt)
  obtain jss db' where r: "claim_rounds 1 [(witness_svc_env, 5), (witness_svc_env, 6)] witness_jobs_db = Inr (jss, db')"
    "\<forall>i < 2. sort (map j_id (jss ! i)) = take 1 (drop (i * 1) [1, 2])"
    using claims_progress [OF witness_jobs_ok zero_less_one, of "[(witness_svc_env, 5), (witness_svc_env, 6)]"]
    unfolding p by (elim exE conjE) (rule that, assumption, simp)
  then have "sort (map j_id (jss ! 0)) = [1]" "sort (map j_id (jss ! 1)) = [2]" by simp_all
  then show ?thesis using r(1) by blast
qed

text \<open>Two runners never run the same job, although the selection of a claim takes no lock: whatever stale ids
  both selected, and whatever other runners did between the two updates, the second update returns no
  job the first one returned, unless a client, a partition sweep or the body itself made the job pending
  again. Each update returns at most as many jobs as ids were selected, each of them once.\<close>

theorem claims_exclusive:
  assumes "jobs_ok db" "claim_rows (env1 :: svc_env) r1 ids1 db = (js1, db1)" "job_trace evs db1 db2"
    and "claim_rows (env2 :: svc_env) r2 ids2 db2 = (js2, db3)"
  shows "(\<forall>k. undisturbed k evs \<longrightarrow> \<not> (k \<in> j_id ` set js1 \<and> k \<in> j_id ` set js2)) \<and>
    distinct (map j_id js1) \<and> distinct (map j_id js2) \<and>
    length js1 \<le> length ids1 \<and> length js2 \<le> length ids2"
proof -
  have ok1: "jobs_ok db1" by (rule job_step_ok [OF job_step.claimed [OF assms(2)] assms(1)])
  have ok2: "jobs_ok db2" by (rule trace_ok [OF assms(3) ok1])
  note ids1 = claim_rows_ids [OF assms(1,2)] and ids2 = claim_rows_ids [OF ok2 assms(4)]
  have "k \<notin> j_id ` set js2" if k: "undisturbed k evs" "k \<in> j_id ` set js1" for k
  proof
    assume "k \<in> j_id ` set js2"
    then have "k \<in> set (pending_ids db2)" using ids2 by auto
    then obtain x where x: "x \<in> set (job_rows db2)" "j_id x = k" "j_status x = JOB_PENDING" by (auto simp: set_pending_ids)
    from k(2) obtain j where j: "j \<in> set js1" "j_id j = k" by blast
    note run = claim_rows_running [OF assms(2) j(1)]
    then obtain j' where j': "j' \<in> set (job_rows db2)" "run_ends evs j j'"
      using trace_fate [OF assms(3) ok1, of j] k(1) j(2) by (auto simp: fate_def)
    then have "j' = x" using x(1,2) j(2) ok2 by (auto simp: run_ends_def jobs_ok_def distinct_map dest: inj_onD)
    then show False using j'(2) x(3) k(1) j(2) by (auto simp: run_ends_def undisturbed_def job_statuses)
  qed
  moreover have "length js \<le> length ids" if "distinct (map j_id js) \<and> set (map j_id js) = set ids \<inter> P" for js ids P
    using that card_mono [of "set ids" "set (map j_id js)"] card_length [of ids]
    by (metis List.finite_set distinct_card inf_le1 le_trans length_map)
  ultimately show ?thesis using ids1 ids2 by blast
qed

theorem claims_exclusive_witness:
  "let (js1, db1) = claim_rows witness_svc_env 5 [1] witness_jobs_db;
       (js2, db2) = claim_rows witness_svc_env 6 [1, 2] db1
   in 1 \<in> j_id ` set js1 \<and> 1 \<notin> j_id ` set js2"
proof -
  obtain js1 db1 where c1: "claim_rows witness_svc_env 5 [1] witness_jobs_db = (js1, db1)" by (rule prod.exhaust)
  obtain js2 db2 where c2: "claim_rows witness_svc_env 6 [1, 2] db1 = (js2, db2)" by (rule prod.exhaust)
  have "1 \<in> j_id ` set js1" using c1 by (auto simp: claim_rows_def Let_def claimable_def witness_job_def set_claimed_def)
  moreover have "undisturbed 1 []" by (simp add: undisturbed_def)
  ultimately have "1 \<notin> j_id ` set js2"
    using claims_exclusive [OF witness_jobs_ok c1 job_trace.done_trace c2] by blast
  then show ?thesis using \<open>1 \<in> j_id ` set js1\<close> by (simp add: c1 c2)
qed

end
