(* ===== verification/JobRunnerService.thy ===== *)
theory JobRunnerService
  imports JobLaws "HOL-Library.AList"
begin

text \<open>
  \<open>job/job_runner_service.py\<close>: the background runner over the statements of \<open>JobService\<close>. Its
  sessions come from \<open>async_sessionmaker\<close>; leaving \<open>async with factory() as session\<close> closes the
  session, which rolls back what was not committed. Of the calls the runner makes only
  \<open>ensure_partitions\<close> commits.
\<close>

section \<open>State\<close>

text \<open>
  An \<open>asyncio\<close> task of the runner: the job that \<open>_start_run\<close> attached to it, whether a cancellation
  was requested and whether it is done.
\<close>

record run_task =
  tk_job :: job
  tk_cancelled :: bool
  tk_done :: bool

text \<open>\<open>_live\<close> maps a job id to the task, by its number, and the start of the run.\<close>

record runner =
  rn_id :: uuid
  rn_max_concurrent :: int
  rn_live :: "(uuid \<times> nat \<times> datetime) list"
  rn_tasks :: "run_task list"

definition new_runner :: "uuid \<Rightarrow> int \<Rightarrow> runner" where
  "new_runner k max_concurrent_jobs =
     \<lparr>rn_id = k, rn_max_concurrent = max_concurrent_jobs, rn_live = [], rn_tasks = []\<rparr>"

text \<open>A session that is closed without a commit keeps the result and loses the writes.\<close>

definition rolled_back :: "'d \<Rightarrow> 'a \<times> 'd \<Rightarrow> 'a \<times> 'd" where
  "rolled_back db r = (fst r, db)"

section \<open>The sweep\<close>

definition recover_phase :: "svc_env \<Rightarrow> 'z job_db_scheme \<Rightarrow> nat \<times> 'z job_db_scheme" where
  "recover_phase env db = rolled_back db (recover_dead_runners env None db)"

definition cancel_task :: "nat \<Rightarrow> run_task list \<Rightarrow> run_task list" where
  "cancel_task n tasks = (if n < length tasks then tasks[n := (tasks ! n)\<lparr>tk_cancelled := True\<rparr>] else tasks)"

definition overdue_task :: "datetime \<Rightarrow> run_task list \<Rightarrow> uuid \<times> nat \<times> datetime \<Rightarrow> bool" where
  "overdue_task now tasks entry =
     (case entry of (k, n, started_at) \<Rightarrow>
        let max_seconds = (if n < length tasks then j_max_seconds (tk_job (tasks ! n)) else 60)
        in seconds max_seconds < now - started_at)"

definition cancel_overdue_live_tasks :: "datetime \<Rightarrow> runner \<Rightarrow> nat \<times> runner" where
  "cancel_overdue_live_tasks now rn =
     (let late = filter (overdue_task now (rn_tasks rn)) (rn_live rn)
      in (length late, rn\<lparr>rn_tasks := fold (\<lambda>(k, n, t). cancel_task n) late (rn_tasks rn)\<rparr>))"

definition start_run :: "datetime \<Rightarrow> job \<Rightarrow> runner \<Rightarrow> runner" where
  "start_run now job rn =
     rn\<lparr>rn_tasks := rn_tasks rn @ [\<lparr>tk_job = job, tk_cancelled = False, tk_done = False\<rparr>],
        rn_live := AList.update (j_id job) (length (rn_tasks rn), now) (rn_live rn)\<rparr>"

definition claim_and_run ::
    "svc_env \<Rightarrow> runner \<Rightarrow> 'z job_db_scheme \<Rightarrow> svc_error + nat \<times> runner \<times> 'z job_db_scheme" where
  "claim_and_run env rn db =
     (let running = count_running_for_runner (rn_id rn) db;
          capacity = max 0 (rn_max_concurrent rn - int running)
      in if capacity \<le> 0 then Inr (0, rn, db)
         else
           bindR (claim_pending env AllSearchFilter (rn_id rn) capacity db) (\<lambda>session.
             let (claimed, db1) = rolled_back db session
             in Inr (length claimed, fold (start_run (se_now env)) claimed rn, db1)))"

definition summary :: "string list \<Rightarrow> string option" where
  "summary parts =
     (case parts of [] \<Rightarrow> None | p # ps \<Rightarrow> Some (p @ concat (map (\<lambda>q. ''; '' @ q) ps)))"

definition sweep_once ::
    "svc_env \<Rightarrow> runner \<Rightarrow> 'z job_db_scheme \<Rightarrow> svc_error + string option \<times> runner \<times> 'z job_db_scheme" where
  "sweep_once env rn db =
     (let (recovered, db1) = recover_phase env db;
          (cancelled, rn1) = cancel_overdue_live_tasks (se_now env) rn
      in bindR (claim_and_run env rn1 db1) (\<lambda>(claimed, rn2, db2).
           Inr (summary
             ((if recovered = 0 then [] else [''recovered '' @ dec_of_nat recovered @ '' dead jobs'']) @
              (if claimed = 0 then [] else [''claimed '' @ dec_of_nat claimed @ '' jobs''])), rn2, db2)))"

section \<open>The end of a run\<close>

text \<open>
  \<open>_run_job\<close> once the body has returned or raised, and the callback that pops the job from \<open>_live\<close>.
  A cancelled body ends with \<open>CancelledError\<close>, which is also caught.
\<close>

definition finish_run ::
    "svc_env \<Rightarrow> nat \<Rightarrow> job_run option \<Rightarrow> (string \<times> string) option \<Rightarrow> runner \<Rightarrow> 'z job_db_scheme \<Rightarrow>
     svc_error + bool \<times> runner \<times> 'z job_db_scheme" where
  "finish_run env n run exception rn db =
     (let task = rn_tasks rn ! n; k = j_id (tk_job task);
          exception = (if tk_cancelled task then Some (''CancelledError'', '''') else exception)
      in bindR (complete env k (rn_id rn) run None exception db) (\<lambda>session.
           let (updated, db1) = rolled_back db session
           in Inr (updated,
                rn\<lparr>rn_tasks := (rn_tasks rn)[n := task\<lparr>tk_done := True\<rparr>],
                   rn_live := AList.delete k (rn_live rn)\<rparr>, db1)))"

definition house_clean_once ::
    "nat \<Rightarrow> int \<Rightarrow> datetime \<Rightarrow> 'z job_db_scheme \<Rightarrow> ddl_error + string option \<times> 'z job_db_scheme" where
  "house_clean_once preallocate_days retention_days now db =
     bindR (job_ensure_partitions preallocate_days retention_days now db) (\<lambda>(created, dropped, db1).
       Inr (summary
         ((if created = [] then [] else [''created '' @ dec_of_nat (length created) @ '' partitions'']) @
          (if dropped = [] then [] else [''dropped '' @ dec_of_nat (length dropped) @ '' partitions''])), db1))"

text \<open>\<open>aclose\<close>: cancels the live tasks and waits for them; their ends are \<open>finish_run\<close>s.\<close>

definition aclose :: "runner \<Rightarrow> runner" where
  "aclose rn =
     rn\<lparr>rn_tasks := fold (\<lambda>(k, n, t). cancel_task n) (rn_live rn) (rn_tasks rn), rn_live := []\<rparr>"

section \<open>Behaviour\<close>

text \<open>What a runner does between two house-cleaning sweeps.\<close>

inductive runner_step :: "runner \<times> 'z job_db_scheme \<Rightarrow> runner \<times> 'z job_db_scheme \<Rightarrow> bool" where
  swept: "sweep_once env rn db = Inr (msg, rn', db') \<Longrightarrow> runner_step (rn, db) (rn', db')"
| finished: "finish_run env n run exception rn db = Inr (b, rn', db') \<Longrightarrow> n < length (rn_tasks rn) \<Longrightarrow>
    \<not> tk_done (rn_tasks rn ! n) \<Longrightarrow> runner_step (rn, db) (rn', db')"
| closed: "runner_step (rn, db) (aclose rn, db)"

lemma rolled_back_simp [simp]: "rolled_back db (x, db') = (x, db)"
  by (simp add: rolled_back_def)

lemma cancel_task_length [simp]: "length (cancel_task n tasks) = length tasks"
  by (simp add: cancel_task_def)

lemma fold_cancel_length [simp]: "length (fold (\<lambda>(k, n, t). cancel_task n) es tasks) = length tasks"
  by (induction es arbitrary: tasks) (auto split: prod.split)

lemma start_runs_fields [simp]:
  "rn_id (fold (start_run now) js rn) = rn_id rn"
  "rn_max_concurrent (fold (start_run now) js rn) = rn_max_concurrent rn"
  "rn_tasks (fold (start_run now) js rn) =
     rn_tasks rn @ map (\<lambda>j. \<lparr>tk_job = j, tk_cancelled = False, tk_done = False\<rparr>) js"
  by (induction js arbitrary: rn) (simp_all add: start_run_def)

lemma cancel_overdue_fields:
  "cancel_overdue_live_tasks now rn = (n, rn1) \<Longrightarrow> rn_id rn1 = rn_id rn \<and> rn_max_concurrent rn1 = rn_max_concurrent rn \<and>
    length (rn_tasks rn1) = length (rn_tasks rn)"
  by (auto simp: cancel_overdue_live_tasks_def Let_def)

lemma claim_and_run_db: "claim_and_run env rn db = Inr (n, rn', db') \<Longrightarrow> db' = db"
  by (auto simp: claim_and_run_def Let_def rolled_back_def bindR_Inr_iff split: if_splits)

lemma claim_and_run_exact:
  assumes "jobs_ok db"
  shows "\<exists>js rn'. claim_and_run env rn db = Inr (length js, rn', db) \<and>
    rn_id rn' = rn_id rn \<and> rn_max_concurrent rn' = rn_max_concurrent rn \<and>
    rn_tasks rn' = rn_tasks rn @ map (\<lambda>j. \<lparr>tk_job = j, tk_cancelled = False, tk_done = False\<rparr>) js \<and>
    sort (map j_id js) = take (nat (rn_max_concurrent rn - int (count_running_for_runner (rn_id rn) db))) (pending_ids db)"
proof -
  define capacity where "capacity = nat (rn_max_concurrent rn - int (count_running_for_runner (rn_id rn) db))"
  show ?thesis
  proof (cases "capacity = 0")
    case True
    then show ?thesis by (intro exI [of _ "[]"] exI [of _ rn]) (simp add: claim_and_run_def Let_def capacity_def)
  next
    case False
    then have c: "0 < capacity" "max 0 (rn_max_concurrent rn - int (count_running_for_runner (rn_id rn) db)) = int capacity"
      by (simp_all add: capacity_def)
    obtain js db1 where "claim_pending env AllSearchFilter (rn_id rn) (int capacity) db = Inr (js, db1)"
      "sort (map j_id js) = take capacity (pending_ids db)"
      by (rule claim_pending_exact [OF assms c(1), where env = env and r = "rn_id rn"]) (rule that, assumption+)
    moreover have "int (count_running_for_runner (rn_id rn) db) < rn_max_concurrent rn" using False by (simp add: capacity_def)
    ultimately show ?thesis
      by (intro exI [of _ js] exI [of _ "fold (start_run (se_now env)) js rn"])
        (simp add: claim_and_run_def Let_def c(2) flip: capacity_def)
  qed
qed

lemma sweep_exact:
  assumes "jobs_ok db"
  shows "\<exists>js msg rn'. sweep_once env rn db = Inr (msg, rn', db) \<and>
    rn_id rn' = rn_id rn \<and> rn_max_concurrent rn' = rn_max_concurrent rn \<and>
    length (rn_tasks rn') = length (rn_tasks rn) + length js \<and>
    map tk_job (drop (length (rn_tasks rn)) (rn_tasks rn')) = js \<and>
    sort (map j_id js) = take (nat (rn_max_concurrent rn - int (count_running_for_runner (rn_id rn) db))) (pending_ids db)"
proof -
  obtain n rn1 where c: "cancel_overdue_live_tasks (se_now env) rn = (n, rn1)" by (rule prod.exhaust)
  note f = cancel_overdue_fields [OF c]
  obtain js rn' where r: "claim_and_run env rn1 db = Inr (length js, rn', db)"
    "rn_id rn' = rn_id rn1" "rn_max_concurrent rn' = rn_max_concurrent rn1"
    "rn_tasks rn' = rn_tasks rn1 @ map (\<lambda>j. \<lparr>tk_job = j, tk_cancelled = False, tk_done = False\<rparr>) js"
    "sort (map j_id js) = take (nat (rn_max_concurrent rn1 - int (count_running_for_runner (rn_id rn1) db))) (pending_ids db)"
    using claim_and_run_exact [OF assms, of env rn1] by (elim exE conjE) (rule that, assumption+)
  have d: "recover_phase env db = (fst (recover_dead_runners env None db), db)" by (simp add: recover_phase_def rolled_back_def)
  obtain msg where "sweep_once env rn db = Inr (msg, rn', db)" using r(1) by (simp add: sweep_once_def c d)
  then show ?thesis using f r by (intro exI [of _ js] exI [of _ msg] exI [of _ rn']) (simp add: comp_def)
qed

lemma finish_run_fields:
  "finish_run env n run exception rn db = Inr (b, rn', db') \<Longrightarrow>
    db' = db \<and> rn_id rn' = rn_id rn \<and> rn_max_concurrent rn' = rn_max_concurrent rn"
  by (auto simp: finish_run_def Let_def rolled_back_def bindR_Inr_iff)

lemma runner_step_db:
  "runner_step s s' \<Longrightarrow> snd s' = snd s \<and> rn_id (fst s') = rn_id (fst s) \<and> rn_max_concurrent (fst s') = rn_max_concurrent (fst s)"
proof (induction rule: runner_step.induct)
  case (swept env rn db msg rn' db')
  obtain n rn1 where c: "cancel_overdue_live_tasks (se_now env) rn = (n, rn1)" by (rule prod.exhaust)
  have d: "recover_phase env db = (fst (recover_dead_runners env None db), db)" by (simp add: recover_phase_def rolled_back_def)
  from swept obtain m where r: "claim_and_run env rn1 db = Inr (m, rn', db')"
    by (auto simp: sweep_once_def c d elim!: bindR_InrE)
  then have "rn_id rn' = rn_id rn1 \<and> rn_max_concurrent rn' = rn_max_concurrent rn1"
    by (auto simp: claim_and_run_def Let_def rolled_back_def elim!: bindR_InrE split: if_splits)
  then show ?case using claim_and_run_db [OF r] cancel_overdue_fields [OF c] by simp
next
  case (finished env n run exception rn db b rn' db')
  then show ?case using finish_run_fields by simp
qed (simp add: aclose_def)

lemma runner_steps_db:
  "runner_step\<^sup>*\<^sup>* s s' \<Longrightarrow> snd s' = snd s \<and> rn_id (fst s') = rn_id (fst s) \<and> rn_max_concurrent (fst s') = rn_max_concurrent (fst s)"
  by (induction rule: rtranclp_induct) (auto dest: runner_step_db)

section \<open>Properties\<close>

text \<open>C22. A sweep starts at most the free capacity of the runner, with the pending jobs of least id, and never
  fails. But whatever sweeps, completions and shutdowns came before, the stored database is the
  one of the beginning, since no session of the runner commits: a job that was run stays pending,
  its result is lost, and the next sweep starts the same jobs again, however many of them are
  still running.\<close>

theorem runner_never_commits:
  assumes "jobs_ok db" "runner_step\<^sup>*\<^sup>* (rn, db) (rn', db')"
  shows "db' = db \<and>
    (\<exists>js msg rn''. sweep_once env rn' db' = Inr (msg, rn'', db) \<and>
       map tk_job (drop (length (rn_tasks rn')) (rn_tasks rn'')) = js \<and>
       sort (map j_id js) = take (nat (rn_max_concurrent rn - int (count_running_for_runner (rn_id rn) db))) (pending_ids db) \<and>
       int (length js) \<le> max 0 (rn_max_concurrent rn))"
proof -
  have k: "db' = db" "rn_id rn' = rn_id rn" "rn_max_concurrent rn' = rn_max_concurrent rn"
    using runner_steps_db [OF assms(2)] by simp_all
  obtain js msg rn'' where s: "sweep_once env rn' db = Inr (msg, rn'', db)"
    "map tk_job (drop (length (rn_tasks rn')) (rn_tasks rn'')) = js"
    "sort (map j_id js) = take (nat (rn_max_concurrent rn' - int (count_running_for_runner (rn_id rn') db))) (pending_ids db)"
    using sweep_exact [OF assms(1), of env rn'] by (elim exE conjE) (rule that, assumption+)
  have "length (sort (map j_id js)) \<le> nat (rn_max_concurrent rn' - int (count_running_for_runner (rn_id rn') db))"
    unfolding s(3) by simp
  then have "int (length js) \<le> max 0 (rn_max_concurrent rn)" unfolding k(3) length_sort length_map by linarith
  then show ?thesis using s k by (intro conjI exI [of _ js] exI [of _ msg] exI [of _ rn'']) simp_all
qed

theorem runner_never_commits_witness:
  "\<exists>rn1 rn2 msg1 msg2. sweep_once witness_svc_env (new_runner 5 1) witness_jobs_db = Inr (msg1, rn1, witness_jobs_db) \<and>
     sweep_once witness_svc_env rn1 witness_jobs_db = Inr (msg2, rn2, witness_jobs_db) \<and>
     map (j_id \<circ> tk_job) (rn_tasks rn1) = [1] \<and> map (j_id \<circ> tk_job) (drop (length (rn_tasks rn1)) (rn_tasks rn2)) = [1]"
proof -
  have p: "pending_ids witness_jobs_db = [1, 2]"
    by (simp add: pending_ids_def witness_job_def word_le_nat_alt)
  have c: "count_running_for_runner 5 witness_jobs_db = 0"
    by (simp add: count_running_for_runner_def witness_job_def)
  have sing: "map j_id js = [1]" if "sort (map j_id js) = [1]" for js
  proof -
    have "length js = 1" using arg_cong [OF that, of length] by simp
    then obtain x where "js = [x]" by (auto simp: length_Suc_conv)
    then show ?thesis using that by simp
  qed
  obtain js1 msg1 rn1 where s1: "sweep_once witness_svc_env (new_runner 5 1) witness_jobs_db = Inr (msg1, rn1, witness_jobs_db)"
    "map tk_job (rn_tasks rn1) = js1" "sort (map j_id js1) = [1]"
    using runner_never_commits [OF witness_jobs_ok rtranclp.rtrancl_refl, where env = witness_svc_env and rn = "new_runner 5 1"]
    by (auto simp: new_runner_def p c)
  have "runner_step\<^sup>*\<^sup>* (new_runner 5 1, witness_jobs_db) (rn1, witness_jobs_db)"
    using runner_step.swept [OF s1(1)] by (rule r_into_rtranclp)
  from runner_never_commits [OF witness_jobs_ok this, where env = witness_svc_env]
  obtain js2 msg2 rn2 where s2: "sweep_once witness_svc_env rn1 witness_jobs_db = Inr (msg2, rn2, witness_jobs_db)"
    "map tk_job (drop (length (rn_tasks rn1)) (rn_tasks rn2)) = js2" "sort (map j_id js2) = [1]"
    by (auto simp: new_runner_def p c)
  show ?thesis using s1(1) s2(1) sing [OF s1(3)] sing [OF s2(3)]
    by (intro exI conjI) (assumption | simp add: s1(2) [symmetric] s2(2) [symmetric])+
qed

end
