(* ===== verification/Json.thy ===== *)
theory Json
  imports Encoding "HOL-Library.AList"
begin

text \<open>
  \<open>json.dumps(value, separators=(",", ":"))\<close> and \<open>json.loads\<close> as the services use them: compact
  output with \<open>ensure_ascii\<close>, and the parser of the standard library with its escapes, white space
  and number grammar. Characters of a model string are the code points below 256; an escape of a
  larger code point is outside the model and does not parse. A float is the token \<open>repr\<close> writes.
\<close>

section \<open>Values and their text\<close>

datatype json =
    JNull
  | JBool bool
  | JInt int
  | JFloat string
  | JStr string
  | JArr "json list"
  | JObj "(string \<times> json) list"

definition json_escape :: "char \<Rightarrow> string" where
  "json_escape c =
     (if c = CHR 0x22 \<or> c = CHR 0x5C then [CHR 0x5C, c]
      else if c = CHR 0x08 then [CHR 0x5C, CHR ''b'']
      else if c = CHR 0x0C then [CHR 0x5C, CHR ''f'']
      else if c = CHR 0x0A then [CHR 0x5C, CHR ''n'']
      else if c = CHR 0x0D then [CHR 0x5C, CHR ''r'']
      else if c = CHR 0x09 then [CHR 0x5C, CHR ''t'']
      else if 32 \<le> (of_char c :: nat) \<and> (of_char c :: nat) \<le> 126 then [c]
      else [CHR 0x5C, CHR ''u'', CHR ''0'', CHR ''0'', digit_char (of_char c div 16), digit_char (of_char c mod 16)])"

definition json_string :: "string \<Rightarrow> string" where
  "json_string s = CHR 0x22 # concat (map json_escape s) @ [CHR 0x22]"

fun dumps :: "json \<Rightarrow> string" where
  "dumps JNull = ''null''"
| "dumps (JBool b) = (if b then ''true'' else ''false'')"
| "dumps (JInt i) = dec_of_int i"
| "dumps (JFloat token) = token"
| "dumps (JStr s) = json_string s"
| "dumps (JArr xs) = CHR ''['' # join_with '','' (map dumps xs) @ '']''"
| "dumps (JObj ms) = CHR ''{'' # join_with '','' (map (\<lambda>(k, v). json_string k @ CHR '':'' # dumps v) ms) @ ''}''"

section \<open>Parsing\<close>

definition json_space :: "char \<Rightarrow> bool" where
  "json_space c = (c = CHR '' '' \<or> c = CHR 0x09 \<or> c = CHR 0x0A \<or> c = CHR 0x0D)"

definition skip_space :: "string \<Rightarrow> string" where
  "skip_space s = dropWhile json_space s"

definition is_digit :: "char \<Rightarrow> bool" where
  "is_digit c = (48 \<le> (of_char c :: nat) \<and> (of_char c :: nat) \<le> 57)"

definition json_unescape :: "char \<Rightarrow> char option" where
  "json_unescape e =
     (if e = CHR 0x22 \<or> e = CHR 0x5C \<or> e = CHR ''/'' then Some e
      else if e = CHR ''b'' then Some (CHR 0x08)
      else if e = CHR ''f'' then Some (CHR 0x0C)
      else if e = CHR ''n'' then Some (CHR 0x0A)
      else if e = CHR ''r'' then Some (CHR 0x0D)
      else if e = CHR ''t'' then Some (CHR 0x09)
      else None)"

definition hex4 :: "char \<Rightarrow> char \<Rightarrow> char \<Rightarrow> char \<Rightarrow> nat option" where
  "hex4 a b c d =
     (case (hex_value a, hex_value b, hex_value c, hex_value d) of
        (Some a, Some b, Some c, Some d) \<Rightarrow> Some (((a * 16 + b) * 16 + c) * 16 + d)
      | _ \<Rightarrow> None)"

definition add_char :: "char \<Rightarrow> (string \<times> string) option \<Rightarrow> (string \<times> string) option" where
  "add_char c r = map_option (\<lambda>(t, rest). (c # t, rest)) r"

text \<open>The rest of a string literal after its opening quote: the text and what follows.\<close>

fun scan_string :: "string \<Rightarrow> (string \<times> string) option" where
  "scan_string [] = None"
| "scan_string (c # s) =
     (if c = CHR 0x22 then Some ([], s)
      else if c = CHR 0x5C then
        (case s of
           [] \<Rightarrow> None
         | e # s1 \<Rightarrow>
             if e = CHR ''u'' then
               (case s1 of
                  h1 # h2 # h3 # h4 # s2 \<Rightarrow>
                    (case hex4 h1 h2 h3 h4 of
                       None \<Rightarrow> None
                     | Some n \<Rightarrow> if n < 256 then add_char (char_of n) (scan_string s2) else None)
                | _ \<Rightarrow> None)
             else (case json_unescape e of None \<Rightarrow> None | Some d \<Rightarrow> add_char d (scan_string s1)))
      else if (of_char c :: nat) < 32 then None
      else add_char c (scan_string s))"

text \<open>
  \<open>NUMBER_RE\<close>: an optional sign, an integer without superfluous zeros, an optional fraction and an
  optional exponent. Without the last two the number is an \<open>int\<close>.
\<close>

definition fraction_part :: "string \<Rightarrow> string" where
  "fraction_part s =
     (case s of
        c # t \<Rightarrow> if c = CHR ''.'' \<and> takeWhile is_digit t \<noteq> [] then c # takeWhile is_digit t else []
      | [] \<Rightarrow> [])"

definition sign_part :: "char list \<Rightarrow> string \<Rightarrow> string" where
  "sign_part signs s = (case s of c # _ \<Rightarrow> if c \<in> set signs then [c] else [] | [] \<Rightarrow> [])"

definition exponent_part :: "string \<Rightarrow> string" where
  "exponent_part s =
     (case s of
        c # t \<Rightarrow>
          if c = CHR ''e'' \<or> c = CHR ''E'' then
            let sign = sign_part ''+-'' t; digits = takeWhile is_digit (drop (length sign) t)
            in if digits \<noteq> [] then c # sign @ digits else []
          else []
      | [] \<Rightarrow> [])"

definition dec_value :: "string \<Rightarrow> int" where
  "dec_value ds = int (num_of_digits 10 (List.map_filter hex_value ds))"

definition scan_number :: "string \<Rightarrow> (json \<times> string) option" where
  "scan_number s =
     (let sign = sign_part ''-'' s;
          s1 = drop (length sign) s;
          digits = takeWhile is_digit s1;
          s2 = drop (length digits) s1;
          fraction = fraction_part s2;
          s3 = drop (length fraction) s2;
          exponent = exponent_part s3;
          rest = drop (length exponent) s3
      in if digits = [] \<or> (1 < length digits \<and> hd digits = CHR ''0'') then None
         else if fraction = [] \<and> exponent = []
         then Some (JInt (if sign = [] then dec_value digits else - dec_value digits), rest)
         else Some (JFloat (sign @ digits @ fraction @ exponent), rest))"

definition scan_literal :: "string \<Rightarrow> (json \<times> string) option" where
  "scan_literal s =
     (if prefix ''null'' s then Some (JNull, drop 4 s)
      else if prefix ''true'' s then Some (JBool True, drop 4 s)
      else if prefix ''false'' s then Some (JBool False, drop 5 s)
      else if prefix ''NaN'' s then Some (JFloat ''NaN'', drop 3 s)
      else if prefix ''Infinity'' s then Some (JFloat ''Infinity'', drop 8 s)
      else if prefix ''-Infinity'' s then Some (JFloat ''-Infinity'', drop 9 s)
      else scan_number s)"

text \<open>The last of several members with one key wins and keeps the first one's place.\<close>

definition dict_of :: "(string \<times> json) list \<Rightarrow> (string \<times> json) list" where
  "dict_of ms = foldl (\<lambda>d (k, v). AList.update k v d) [] ms"

text \<open>The parser proper; the number bounds the nesting and is chosen large enough by \<open>loads\<close>.\<close>

fun parse_value :: "nat \<Rightarrow> string \<Rightarrow> (json \<times> string) option"
  and parse_items :: "nat \<Rightarrow> string \<Rightarrow> (json list \<times> string) option"
  and parse_members :: "nat \<Rightarrow> string \<Rightarrow> ((string \<times> json) list \<times> string) option" where
  "parse_value 0 s = None"
| "parse_value (Suc n) s =
     (case skip_space s of
        [] \<Rightarrow> None
      | c # t \<Rightarrow>
          if c = CHR 0x22 then map_option (\<lambda>(k, r). (JStr k, r)) (scan_string t)
          else if c = CHR ''['' then
            (case skip_space t of
               [] \<Rightarrow> None
             | d # r \<Rightarrow> if d = CHR '']'' then Some (JArr [], r)
                 else map_option (\<lambda>(vs, r). (JArr vs, r)) (parse_items n (d # r)))
          else if c = CHR ''{'' then
            (case skip_space t of
               [] \<Rightarrow> None
             | d # r \<Rightarrow> if d = CHR ''}'' then Some (JObj [], r)
                 else map_option (\<lambda>(ms, r). (JObj (dict_of ms), r)) (parse_members n (d # r)))
          else scan_literal (c # t))"
| "parse_items 0 s = None"
| "parse_items (Suc n) s =
     (case parse_value n s of
        None \<Rightarrow> None
      | Some (v, r) \<Rightarrow>
          (case skip_space r of
             [] \<Rightarrow> None
           | d # r1 \<Rightarrow>
               if d = CHR '','' then map_option (\<lambda>(vs, r2). (v # vs, r2)) (parse_items n r1)
               else if d = CHR '']'' then Some ([v], r1) else None))"
| "parse_members 0 s = None"
| "parse_members (Suc n) s =
     (case skip_space s of
        [] \<Rightarrow> None
      | c # t \<Rightarrow>
          if c \<noteq> CHR 0x22 then None
          else
            (case scan_string t of
               None \<Rightarrow> None
             | Some (k, r) \<Rightarrow>
                 (case skip_space r of
                    [] \<Rightarrow> None
                  | d # r1 \<Rightarrow>
                      if d \<noteq> CHR '':'' then None
                      else
                        (case parse_value n r1 of
                           None \<Rightarrow> None
                         | Some (v, r2) \<Rightarrow>
                             (case skip_space r2 of
                                [] \<Rightarrow> None
                              | e # r3 \<Rightarrow>
                                  if e = CHR '','' then map_option (\<lambda>(ms, r4). ((k, v) # ms, r4)) (parse_members n r3)
                                  else if e = CHR ''}'' then Some ([(k, v)], r3) else None)))))"

definition loads :: "string \<Rightarrow> json option" where
  "loads s =
     (case parse_value (2 * length s + 1) s of
        None \<Rightarrow> None
      | Some (v, rest) \<Rightarrow> if skip_space rest = [] then Some v else None)"

section \<open>Round trip\<close>

text \<open>A float token is one the number grammar reads back, or one of the three constants.\<close>

definition float_token :: "string \<Rightarrow> bool" where
  "float_token s = (scan_literal s = Some (JFloat s, []))"

fun json_ok :: "json \<Rightarrow> bool" where
  "json_ok (JFloat s) = float_token s"
| "json_ok (JArr xs) = (\<forall>x \<in> set xs. json_ok x)"
| "json_ok (JObj ms) = (distinct (map fst ms) \<and> (\<forall>m \<in> set ms. json_ok (snd m)))"
| "json_ok _ = True"

lemma hex_value_digit: "n < 16 \<Longrightarrow> hex_value (digit_char n) = Some n"
  by (auto simp: hex_value_def digit_char_def Let_def)

lemma scan_escaped: "scan_string (json_escape c @ s) = add_char c (scan_string s)"
proof (cases "c = CHR 0x22 \<or> c = CHR 0x5C \<or> c = CHR 0x08 \<or> c = CHR 0x0C \<or> c = CHR 0x0A \<or> c = CHR 0x0D \<or> c = CHR 0x09")
  case True
  then show ?thesis by (auto simp: json_escape_def json_unescape_def)
next
  case False
  show ?thesis
  proof (cases "32 \<le> (of_char c :: nat) \<and> (of_char c :: nat) \<le> 126")
    case True
    then show ?thesis using False by (simp add: json_escape_def)
  next
    case other: False
    let ?n = "of_char c :: nat"
    have n: "?n < 256" by simp
    have "hex_value (digit_char (?n div 16)) = Some (?n div 16)" "hex_value (digit_char (?n mod 16)) = Some (?n mod 16)"
      using n by (intro hex_value_digit; linarith)+
    then have "hex4 (CHR ''0'') (CHR ''0'') (digit_char (?n div 16)) (digit_char (?n mod 16)) = Some ?n"
      by (simp add: hex4_def hex_value_def [of "CHR ''0''"] Let_def)
    then show ?thesis using False other n by (auto simp: json_escape_def)
  qed
qed

lemma scan_concat: "scan_string (concat (map json_escape s) @ CHR 0x22 # rest) = Some (s, rest)"
proof (induction s)
  case (Cons c s)
  have "scan_string (json_escape c @ (concat (map json_escape s) @ CHR 0x22 # rest)) = add_char c (Some (s, rest))"
    unfolding scan_escaped Cons.IH ..
  then show ?case by (simp add: add_char_def)
qed simp

text \<open>What may follow a number without becoming part of it.\<close>

definition ends :: "string \<Rightarrow> bool" where
  "ends rest = (case rest of [] \<Rightarrow> True | c # _ \<Rightarrow> \<not> is_digit c \<and> c \<notin> set ''.eE+-'')"

lemma takeWhile_ends: "ends rest \<Longrightarrow> takeWhile is_digit (s @ rest) = takeWhile is_digit s"
  by (induction s) (auto simp: ends_def split: list.splits)

lemma fraction_ends: "ends rest \<Longrightarrow> fraction_part (s @ rest) = fraction_part s"
  using takeWhile_ends [of rest] by (cases s) (auto simp: fraction_part_def ends_def split: list.splits)

lemma sign_ends: "ends rest \<Longrightarrow> set signs \<subseteq> set ''+-'' \<Longrightarrow> sign_part signs (s @ rest) = sign_part signs s"
  by (cases s) (auto simp: sign_part_def ends_def split: list.splits)

lemma sign_length: "length (sign_part signs s) \<le> length s"
  by (cases s) (simp_all add: sign_part_def)

lemma exponent_ends:
  assumes "ends rest"
  shows "exponent_part (s @ rest) = exponent_part s"
proof (cases s)
  case Nil
  then show ?thesis using assms by (auto simp: exponent_part_def ends_def split: list.splits)
next
  case (Cons c t)
  have "sign_part ''+-'' (t @ rest) = sign_part ''+-'' t" by (rule sign_ends [OF assms]) simp
  moreover have "drop (length (sign_part ''+-'' t)) (t @ rest) = drop (length (sign_part ''+-'' t)) t @ rest"
    using sign_length [of "''+-''" t] by simp
  ultimately show ?thesis by (simp only: exponent_part_def Cons list.case append_Cons Let_def takeWhile_ends [OF assms])
qed

lemma drop_fraction: "length (fraction_part s) \<le> length s"
  using length_takeWhile_le [of is_digit] by (auto simp: fraction_part_def split: list.splits)

lemma drop_exponent: "length (exponent_part s) \<le> length s"
proof (cases s)
  case (Cons c t)
  have "length (takeWhile is_digit (drop (length (sign_part ''+-'' t)) t)) \<le> length t - length (sign_part ''+-'' t)"
    using length_takeWhile_le [of is_digit "drop (length (sign_part ''+-'' t)) t"] by simp
  then have "length (sign_part ''+-'' t) + length (takeWhile is_digit (drop (length (sign_part ''+-'' t)) t)) \<le> length t"
    using sign_length [of "''+-''" t] by linarith
  then show ?thesis by (simp add: Cons exponent_part_def Let_def)
qed (simp add: exponent_part_def)

lemma scan_number_ends:
  assumes "ends rest" "scan_number s = Some (v, r)"
  shows "scan_number (s @ rest) = Some (v, r @ rest)"
proof -
  define sign where "sign = sign_part ''-'' s"
  define s1 where "s1 = drop (length sign) s"
  define digits where "digits = takeWhile is_digit s1"
  define s2 where "s2 = drop (length digits) s1"
  define fraction where "fraction = fraction_part s2"
  define s3 where "s3 = drop (length fraction) s2"
  define exponent where "exponent = exponent_part s3"
  have sign': "sign_part ''-'' (s @ rest) = sign" unfolding sign_def by (rule sign_ends [OF assms(1)]) simp
  have len: "length sign \<le> length s" unfolding sign_def by (rule sign_length)
  have dl: "length digits \<le> length s1" unfolding digits_def by (rule length_takeWhile_le)
  have fl: "length fraction \<le> length s2" unfolding fraction_def by (rule drop_fraction)
  have el: "length exponent \<le> length s3" unfolding exponent_def by (rule drop_exponent)
  have e1: "drop (length sign) (s @ rest) = s1 @ rest" using len by (simp add: s1_def)
  have e2: "drop (length digits) (s1 @ rest) = s2 @ rest" using dl by (simp add: s2_def)
  have e3: "drop (length fraction) (s2 @ rest) = s3 @ rest" using fl by (simp add: s3_def)
  have e4: "drop (length exponent) (s3 @ rest) = drop (length exponent) s3 @ rest" using el by simp
  have t: "takeWhile is_digit (s1 @ rest) = digits" unfolding digits_def by (rule takeWhile_ends [OF assms(1)])
  have f: "fraction_part (s2 @ rest) = fraction" unfolding fraction_def by (rule fraction_ends [OF assms(1)])
  have e: "exponent_part (s3 @ rest) = exponent" unfolding exponent_def by (rule exponent_ends [OF assms(1)])
  have "scan_number (s @ rest) = map_option (\<lambda>(v, r). (v, r @ rest)) (scan_number s)"
    by (simp only: scan_number_def Let_def sign' e1 t e2 f e3 e e4 sign_def [symmetric] s1_def [symmetric] digits_def [symmetric]
        s2_def [symmetric] fraction_def [symmetric] s3_def [symmetric] exponent_def [symmetric])
      (simp split: if_splits)
  then show ?thesis using assms(2) by simp
qed

lemma is_digit_char: "d < 10 \<Longrightarrow> is_digit (digit_char d)"
  by (simp add: is_digit_def digit_char_def)

lemma dec_of_nat_digits: "c \<in> set (dec_of_nat n) \<Longrightarrow> is_digit c"
  using digits_of_bound [of 10 _ n] is_digit_char by (auto simp: dec_of_nat_def)

lemma dec_value_nat: "dec_value (dec_of_nat m) = int m"
proof -
  have "d < 16" if "d \<in> set (digits_of 10 m)" for d using digits_of_bound [OF _ that] by simp
  then show ?thesis by (simp add: dec_value_def dec_of_nat_def num_of_digits_of hex_values)
qed

lemma dec_of_nat_lead: "dec_of_nat n = CHR ''0'' # s \<Longrightarrow> s = []"
proof (induction n arbitrary: s rule: less_induct)
  case (less n)
  show ?case
  proof (cases "n < 10")
    case True
    then show ?thesis using less.prems by (simp add: dec_of_nat_def digits_of.simps [of 10 n])
  next
    case False
    then have e: "dec_of_nat n = dec_of_nat (n div 10) @ [digit_char (n mod 10)]"
      by (simp add: dec_of_nat_def digits_of.simps [of 10 n])
    have ne: "dec_of_nat (n div 10) \<noteq> []" by (simp add: dec_of_nat_def digits_of_not_Nil)
    then obtain t where t: "dec_of_nat (n div 10) = CHR ''0'' # t" using less.prems by (cases "dec_of_nat (n div 10)") (auto simp: e)
    have "t = []" by (rule less.IH [OF _ t]) (use False in simp)
    then have "dec_value (dec_of_nat (n div 10)) = 0" using t by (simp add: dec_value_def hex_value_def List.map_filter_simps num_of_digits_def)
    then show ?thesis using False by (simp add: dec_value_nat)
  qed
qed

lemma digit_not_letter:
  "is_digit c \<Longrightarrow> CHR ''n'' \<noteq> c \<and> CHR ''t'' \<noteq> c \<and> CHR ''f'' \<noteq> c \<and> CHR ''N'' \<noteq> c \<and> CHR ''I'' \<noteq> c \<and> CHR ''-'' \<noteq> c"
  by (auto simp: is_digit_def)

lemma scan_digits:
  assumes "ds \<noteq> []" "\<And>c. c \<in> set ds \<Longrightarrow> is_digit c" "\<not> (1 < length ds \<and> hd ds = CHR ''0'')" "sign = [] \<or> sign = ''-''"
  shows "scan_number (sign @ ds) = Some (JInt (if sign = [] then dec_value ds else - dec_value ds), [])"
proof -
  have "CHR ''-'' \<noteq> hd ds" using digit_not_letter [OF assms(2) [OF hd_in_set [OF assms(1)]]] by blast
  then have sg: "sign_part ''-'' (sign @ ds) = sign" using assms(1,4) by (cases ds) (auto simp: sign_part_def)
  have all: "takeWhile is_digit ds = ds" using assms(2) by (simp add: takeWhile_eq_all_conv)
  have parts: "fraction_part [] = []" "exponent_part [] = []" by (simp_all add: fraction_part_def exponent_part_def)
  show ?thesis unfolding scan_number_def Let_def sg using assms(1,3) by (simp add: all parts)
qed

lemma scan_int:
  assumes "ends rest"
  shows "scan_number (dec_of_int i @ rest) = Some (JInt i, rest)"
proof -
  have nat: "dec_of_nat n \<noteq> []" "\<not> (1 < length (dec_of_nat n) \<and> hd (dec_of_nat n) = CHR ''0'')" for n
    using dec_of_nat_lead [of n] by (cases "dec_of_nat n"; auto simp: dec_of_nat_def digits_of_not_Nil)+
  have scan: "sign = [] \<or> sign = ''-'' \<Longrightarrow>
      scan_number (sign @ dec_of_nat n) = Some (JInt (if sign = [] then int n else - int n), [])" for sign n
    using scan_digits [OF nat(1) dec_of_nat_digits nat(2)] by (simp add: dec_value_nat)
  have "scan_number (dec_of_int i) = Some (JInt i, [])"
    using scan [of "[]" "nat i"] scan [of "''-''" "nat (- i)"] by (simp add: dec_of_int_def)
  from scan_number_ends [OF assms this] show ?thesis by simp
qed

text \<open>Text that starts like a number is none of the constants.\<close>

lemma literal_number:
  assumes "is_digit d"
  shows "scan_literal (d # s) = scan_number (d # s)" "scan_literal (CHR ''-'' # d # s) = scan_number (CHR ''-'' # d # s)"
  using digit_not_letter [OF assms] by (simp_all add: scan_literal_def)

lemma literal_int:
  assumes "ends rest"
  shows "scan_literal (dec_of_int i @ rest) = Some (JInt i, rest)"
proof -
  have "\<exists>d t. dec_of_nat n = d # t \<and> is_digit d" for n
  proof -
    have "dec_of_nat n \<noteq> []" by (simp add: dec_of_nat_def digits_of_not_Nil)
    then obtain d t where "dec_of_nat n = d # t" by (cases "dec_of_nat n") simp_all
    then show ?thesis using dec_of_nat_digits [of d n] by simp
  qed
  then obtain d t where "dec_of_nat (nat (if i < 0 then - i else i)) = d # t" "is_digit d" by blast
  then have "scan_literal (dec_of_int i @ rest) = scan_number (dec_of_int i @ rest)"
    using literal_number [of d "t @ rest"] by (simp add: dec_of_int_def split: if_splits)
  then show ?thesis using scan_int [OF assms] by simp
qed

lemma literal_float:
  assumes "float_token token" "ends rest"
  shows "scan_literal (token @ rest) = Some (JFloat token, rest)"
proof (cases "token = ''NaN'' \<or> token = ''Infinity'' \<or> token = ''-Infinity''")
  case True
  then show ?thesis by (elim disjE) (simp_all add: scan_literal_def)
next
  case False
  have t: "scan_literal token = Some (JFloat token, [])" using assms(1) by (simp add: float_token_def)
  have full: "token = w" if "prefix w token" "drop (length w) token = []" for w
    using that by (auto simp: prefix_def)
  have n: "scan_number token = Some (JFloat token, [])"
    using t False full [of "''NaN''"] full [of "''Infinity''"] full [of "''-Infinity''"]
    by (simp add: scan_literal_def split: if_splits)
  define sign where "sign = sign_part ''-'' token"
  have "takeWhile is_digit (drop (length sign) token) \<noteq> []"
    using n by (simp add: scan_number_def sign_def [symmetric] Let_def split: if_splits)
  then obtain d u where u: "drop (length sign) token = d # u" "is_digit d"
    by (cases "drop (length sign) token") (simp_all split: if_splits)
  have sg: "sign = [] \<or> sign = ''-'' \<and> token = CHR ''-'' # drop 1 token"
    by (cases token) (simp_all add: sign_def sign_part_def)
  then have "token = d # u \<or> token = CHR ''-'' # d # u" using u(1) by auto
  then have "scan_literal (token @ rest) = scan_number (token @ rest)"
    using literal_number [OF u(2), of "u @ rest"] by auto
  then show ?thesis using scan_number_ends [OF assms(2) n] by simp
qed

lemma dict_of_distinct: "distinct (map fst ms) \<Longrightarrow> dict_of ms = ms"
proof (induction ms rule: rev_induct)
  case (snoc m ms)
  obtain k v where m: "m = (k, v)" by (cases m)
  have "AList.update k v ms = ms @ [(k, v)]" if "k \<notin> fst ` set ms" for ms using that by (induction ms) auto
  then show ?case using snoc by (simp add: dict_of_def m)
qed (simp add: dict_of_def)

text \<open>The first character of a value's text, which decides how it is parsed.\<close>

definition value_start :: "string \<Rightarrow> bool" where
  "value_start s =
     (case s of [] \<Rightarrow> False
      | c # _ \<Rightarrow> \<not> json_space c \<and> c \<noteq> CHR '']'' \<and> c \<noteq> CHR ''}'')"

lemma value_start_append: "value_start s \<Longrightarrow> value_start (s @ t) \<and> skip_space (s @ t) = s @ t"
  by (cases s) (simp_all add: value_start_def skip_space_def)

lemma literal_start:
  assumes "scan_literal s = Some (v, [])"
  shows "s \<noteq> [] \<and> value_start s \<and> hd s \<noteq> CHR 0x22 \<and> hd s \<noteq> CHR ''['' \<and> hd s \<noteq> CHR ''{''"
proof (cases "\<exists>w \<in> {''null'', ''true'', ''false'', ''NaN'', ''Infinity'', ''-Infinity''}. prefix w s")
  case True
  then show ?thesis by (auto simp: prefix_def value_start_def json_space_def)
next
  case False
  then have n: "scan_number s = Some (v, [])" using assms by (simp add: scan_literal_def)
  define sign where "sign = sign_part ''-'' s"
  have "takeWhile is_digit (drop (length sign) s) \<noteq> []"
    using n by (simp add: scan_number_def sign_def [symmetric] Let_def split: if_splits)
  then obtain d u where u: "drop (length sign) s = d # u" "is_digit d"
    by (cases "drop (length sign) s") (simp_all split: if_splits)
  have "sign = [] \<or> sign = ''-'' \<and> s = CHR ''-'' # drop 1 s" by (cases s) (simp_all add: sign_def sign_part_def)
  then have "s = d # u \<or> s = CHR ''-'' # d # u" using u(1) by auto
  moreover have "is_digit c \<Longrightarrow> c \<notin> set '' ]}[{'' \<and> c \<noteq> CHR 0x22 \<and> c \<noteq> CHR 0x09 \<and> c \<noteq> CHR 0x0A \<and> c \<noteq> CHR 0x0D" for c
    by (auto simp: is_digit_def)
  ultimately show ?thesis using u(2) by (auto simp: value_start_def json_space_def)
qed

lemma ends_Nil [simp]: "ends []"
  by (simp add: ends_def)

lemma literal_dumps: "json_ok v \<Longrightarrow> ends rest \<Longrightarrow> (\<forall>s. v \<noteq> JStr s) \<Longrightarrow> (\<forall>xs. v \<noteq> JArr xs) \<Longrightarrow> (\<forall>ms. v \<noteq> JObj ms) \<Longrightarrow>
    scan_literal (dumps v @ rest) = Some (v, rest)"
  using literal_int literal_float by (cases v) (auto simp: scan_literal_def)

lemma dumps_start: "json_ok v \<Longrightarrow> value_start (dumps v)"
  using literal_dumps [of v "[]"] literal_start [of "dumps v" v]
  by (cases v) (auto simp: value_start_def json_string_def json_space_def)

lemma parse_literal:
  assumes "scan_literal (s @ rest) = Some (v, rest)" "scan_literal s = Some (v, [])"
  shows "parse_value (Suc n) (s @ rest) = Some (v, rest)"
proof -
  note st = literal_start [OF assms(2)]
  then obtain c t where s: "s = c # t" by (cases s) simp_all
  have "skip_space (s @ rest) = c # t @ rest" using value_start_append [of s rest] st s by simp
  then show ?thesis using assms(1) st by (simp add: s)
qed

lemma ends_after [simp]: "ends (CHR '','' # r)" "ends (CHR '']'' # r)" "ends (CHR ''}'' # r)"
  by (simp_all add: ends_def is_digit_def)

lemma skip_delimiter [simp]:
  "skip_space (CHR '','' # r) = CHR '','' # r" "skip_space (CHR '']'' # r) = CHR '']'' # r"
  "skip_space (CHR ''}'' # r) = CHR ''}'' # r" "skip_space (CHR '':'' # r) = CHR '':'' # r"
  "skip_space (CHR 0x22 # r) = CHR 0x22 # r" "skip_space (CHR ''['' # r) = CHR ''['' # r"
  "skip_space (CHR ''{'' # r) = CHR ''{'' # r"
  by (simp_all add: skip_space_def json_space_def)

definition parses :: "json \<Rightarrow> bool" where
  "parses v = (\<forall>n rest. ends rest \<longrightarrow> 2 * length (dumps v) \<le> n \<longrightarrow> parse_value (Suc n) (dumps v @ rest) = Some (v, rest))"

lemma parses_apply: "parses v \<Longrightarrow> ends r \<Longrightarrow> 2 * length (dumps v) + 1 \<le> n \<Longrightarrow> parse_value n (dumps v @ r) = Some (v, r)"
  by (cases n) (simp_all add: parses_def del: parse_value.simps(2))

lemma literal_parses:
  assumes "json_ok v" "\<forall>s. v \<noteq> JStr s" "\<forall>xs. v \<noteq> JArr xs" "\<forall>ms. v \<noteq> JObj ms"
  shows "parses v"
  unfolding parses_def
proof (intro allI impI)
  fix n rest assume "ends rest"
  then show "parse_value (Suc n) (dumps v @ rest) = Some (v, rest)"
    using literal_dumps [OF assms(1) _ assms(2-4), of rest] literal_dumps [OF assms(1) _ assms(2-4), of "[]"]
    by (intro parse_literal) simp_all
qed

lemma parse_items_dumps:
  assumes "\<And>x. x \<in> set xs \<Longrightarrow> parses x" "xs \<noteq> []" "2 * length (join_with '','' (map dumps xs)) + 2 \<le> n"
  shows "parse_items n (join_with '','' (map dumps xs) @ CHR '']'' # rest) = Some (xs, rest)"
  using assms
proof (induction xs arbitrary: n)
  case (Cons x xs)
  then obtain m where n: "n = Suc (Suc m)" by (metis add_2_eq_Suc le_Suc_ex le_add2 le_trans)
  have x: "ends r \<Longrightarrow> 2 * length (dumps x) \<le> m \<Longrightarrow> parse_value (Suc m) (dumps x @ r) = Some (x, r)" for r
    using Cons.prems(1) by (simp add: parses_def)
  show ?case
  proof (cases xs)
    case Nil
    then show ?thesis using x [of "CHR '']'' # rest"] Cons.prems(3) by (simp add: n)
  next
    case (Cons y ys)
    let ?r = "join_with '','' (map dumps xs) @ CHR '']'' # rest"
    have j: "join_with '','' (map dumps (x # xs)) = dumps x @ CHR '','' # join_with '','' (map dumps xs)" by (simp add: Cons)
    have "parse_items (Suc m) ?r = Some (xs, rest)"
      using Cons.prems Cons j by (intro Cons.IH) (simp_all add: n)
    moreover have "parse_value (Suc m) (dumps x @ CHR '','' # ?r) = Some (x, CHR '','' # ?r)"
    proof (rule x)
      show "2 * length (dumps x) \<le> m" using Cons.prems(3) unfolding j n by simp
    qed simp
    ultimately show ?thesis unfolding j by (simp add: n)
  qed
qed simp

lemma parse_members_dumps:
  assumes "\<And>m. m \<in> set ms \<Longrightarrow> parses (snd m)" "ms \<noteq> []"
    and "2 * length (join_with '','' (map (\<lambda>(k, v). json_string k @ CHR '':'' # dumps v) ms)) + 2 \<le> n"
  shows "parse_members n (join_with '','' (map (\<lambda>(k, v). json_string k @ CHR '':'' # dumps v) ms) @ CHR ''}'' # rest) = Some (ms, rest)"
  using assms
proof (induction ms arbitrary: n)
  case (Cons p ms)
  obtain k v where p: "p = (k, v)" by (cases p)
  obtain m where n: "n = Suc m" using Cons.prems(3) by (cases n) simp_all
  have v: "parse_value m (dumps v @ r) = Some (v, r)" if "ends r" "2 * length (dumps v) + 1 \<le> m" for r
    using Cons.prems(1) [of p] p that by (intro parses_apply) simp_all
  have step: "parse_members n (json_string k @ CHR '':'' # dumps v @ e # r) =
      (if e = CHR '','' then map_option (\<lambda>(ms, r4). ((k, v) # ms, r4)) (parse_members m r)
       else if e = CHR ''}'' then Some ([(k, v)], r) else None)"
    if "2 * length (dumps v) + 1 \<le> m" "e = CHR '','' \<or> e = CHR ''}''" for e r
  proof -
    have "ends (e # r)" "skip_space (e # r) = e # r" using that(2) by auto
    note pv = v [OF this(1) that(1)] this(2)
    have sc: "scan_string (concat (map json_escape k) @ CHR 0x22 # CHR '':'' # dumps v @ e # r) = Some (k, CHR '':'' # dumps v @ e # r)"
      by (rule scan_concat)
    have "json_string k @ CHR '':'' # dumps v @ e # r = CHR 0x22 # concat (map json_escape k) @ CHR 0x22 # CHR '':'' # dumps v @ e # r"
      by (simp add: json_string_def)
    then show ?thesis unfolding n
      by (simp only: parse_members.simps(2) skip_delimiter list.case sc option.case prod.case pv) simp
  qed
  show ?case
  proof (cases ms)
    case Nil
    then show ?thesis using step [of "CHR ''}''" rest] Cons.prems(3) by (simp add: p n)
  next
    case (Cons q qs)
    let ?j = "join_with '','' (map (\<lambda>(k, v). json_string k @ CHR '':'' # dumps v) ms)"
    have j: "join_with '','' (map (\<lambda>(k, v). json_string k @ CHR '':'' # dumps v) (p # ms)) =
        json_string k @ CHR '':'' # dumps v @ CHR '','' # ?j" by (simp add: Cons p)
    have "parse_members m (?j @ CHR ''}'' # rest) = Some (ms, rest)"
      using Cons.prems Cons j by (intro Cons.IH) (simp_all add: n)
    moreover have "2 * length (dumps v) + 1 \<le> m" using Cons.prems(3) unfolding j n by simp
    ultimately show ?thesis unfolding j using step [of "CHR '',''" "?j @ CHR ''}'' # rest"] by (simp add: p)
  qed
qed simp

lemma json_parses: "json_ok v \<Longrightarrow> parses v"
proof (induction v)
  case (JStr s)
  have "parse_value (Suc n) (json_string s @ rest) = Some (JStr s, rest)" for n rest
    using scan_concat [of s rest] by (simp add: json_string_def del: scan_string.simps)
  then show ?case by (simp add: parses_def)
next
  case (JArr xs)
  show ?case
  proof (cases xs)
    case Nil
    then show ?thesis by (simp add: parses_def)
  next
    case (Cons y ys)
    let ?j = "join_with '','' (map dumps xs)"
    have ps: "parses x" if "x \<in> set xs" for x using JArr that by simp
    have y: "value_start (dumps y)" using JArr.prems Cons by (simp add: dumps_start)
    obtain c t where j: "?j @ CHR '']'' # r = c # t r" "\<not> json_space c" "c \<noteq> CHR '']''" for r
    proof -
      from y obtain c t where "dumps y = c # t" "\<not> json_space c" "c \<noteq> CHR '']''" by (cases "dumps y") (simp_all add: value_start_def)
      moreover obtain u where "?j = dumps y @ u" by (cases ys) (simp_all add: Cons)
      ultimately show thesis using that [of c "\<lambda>r. t @ u @ CHR '']'' # r"] by simp
    qed
    have "parse_value (Suc n) (CHR ''['' # ?j @ CHR '']'' # rest) = Some (JArr xs, rest)"
      if "2 * length (dumps (JArr xs)) \<le> n" for n rest
    proof -
      have "parse_items n (?j @ CHR '']'' # rest) = Some (xs, rest)"
        using ps Cons that by (intro parse_items_dumps) simp_all
      moreover have "skip_space (c # t rest) = c # t rest" using j(2) by (simp add: skip_space_def)
      ultimately show ?thesis using j(2,3) unfolding j(1) by simp
    qed
    then show ?thesis by (simp add: parses_def)
  qed
next
  case (JObj ms)
  show ?case
  proof (cases ms)
    case Nil
    then show ?thesis by (simp add: parses_def dict_of_def)
  next
    case (Cons q qs)
    let ?j = "join_with '','' (map (\<lambda>(k, v). json_string k @ CHR '':'' # dumps v) ms)"
    have ps: "parses (snd m)" if "m \<in> set ms" for m using JObj that by (cases m) (auto simp: snds.simps)
    obtain t where j: "?j = CHR 0x22 # t" by (cases q; cases qs) (simp_all add: Cons json_string_def)
    have "parse_value (Suc n) (CHR ''{'' # ?j @ CHR ''}'' # rest) = Some (JObj ms, rest)"
      if "2 * length (dumps (JObj ms)) \<le> n" for n rest
    proof -
      have "parse_members n (?j @ CHR ''}'' # rest) = Some (ms, rest)"
        using ps Cons that by (intro parse_members_dumps) simp_all
      then show ?thesis using JObj.prems unfolding j by (simp add: dict_of_distinct del: parse_members.simps)
    qed
    then show ?thesis by (simp add: parses_def)
  qed
qed (simp_all add: literal_parses)

lemma loads_dumps: "json_ok v \<Longrightarrow> loads (dumps v) = Some v"
  using json_parses [of v, unfolded parses_def, rule_format, of "[]" "2 * length (dumps v)"]
  by (simp add: loads_def skip_space_def)

lemma dumps_inj: "json_ok v \<Longrightarrow> json_ok w \<Longrightarrow> dumps v = dumps w \<longleftrightarrow> v = w"
  by (metis loads_dumps option.inject)

end
