(* ===== verification/UsageServices.thy ===== *)
theory UsageServices
  imports PartitionLaws Json
begin

text \<open>
  \<open>llm/llm_usage_service.py\<close>, \<open>mcp_server_config/mcp_usage_service.py\<close> and
  \<open>sandbox/sandbox_usage_service.py\<close>: recording raw usage, the partitions of the raw tables, and the
  roll-up of one minute. The two roll-ups run the same statements over other columns, which are
  parameters of the definitions they share.
\<close>

section \<open>Rows\<close>

text \<open>The metric columns of \<open>llm_usage\<close>; the cost is a \<open>Numeric(18, 6)\<close>, in units of its last digit.\<close>

record llm_metrics =
  lm_prompt_tokens :: int
  lm_completion_tokens :: int
  lm_cache_read_tokens :: int
  lm_cache_write_tokens :: int
  lm_reasoning_tokens :: int
  lm_context_window :: int
  lm_per_turn_token :: int
  lm_accumulated_cost :: int

record llm_usage =
  lu_id :: int
  lu_created_at :: datetime
  lu_creator_id :: uuid
  lu_provider_connection_id :: uuid
  lu_llm_id :: "uuid option"
  lu_response_id :: "string option"
  lu_model :: string
  lu_values :: llm_metrics
  lu_metrics :: json

record mcp_usage =
  mu_id :: int
  mu_created_at :: datetime
  mu_creator_id :: uuid
  mu_config_id :: uuid
  mu_tool_name :: string
  mu_duration_ms :: int
  mu_success :: bool
  mu_error :: "string option"
  mu_details :: json

record sandbox_usage =
  su_id :: uuid
  su_created_at :: datetime
  su_config_id :: uuid

text \<open>A row of \<open>llm_aggregated_usage\<close> or \<open>mcp_aggregated_usage\<close>, with the summed columns as one value.\<close>

record 'm rollup =
  ru_id :: uuid
  ru_minute :: datetime
  ru_creator_id :: uuid
  ru_invocations :: nat
  ru_totals :: 'm
  ru_updated_at :: datetime

record usage_db =
  ug_llm :: "llm_usage parted"
  ug_llm_rollups :: "llm_metrics rollup list"
  ug_mcp :: "mcp_usage parted"
  ug_mcp_rollups :: "int rollup list"
  ug_sandbox :: "sandbox_usage parted"
  ug_users :: "uuid list"
  ug_providers :: "uuid list"
  ug_llms :: "uuid list"
  ug_mcp_configs :: "uuid list"
  ug_sandbox_configs :: "uuid list"

text \<open>
  Clock, identity sequence and generated ids of a call, and \<open>float(value)\<close> as the cost column
  stores it.
\<close>

record usage_env =
  ue_clock :: "nat \<Rightarrow> datetime"
  ue_ident :: int
  ue_uuid :: "nat \<Rightarrow> uuid"
  ue_float :: "json \<Rightarrow> pyerr + int"

section \<open>Metrics of one completion\<close>

text \<open>What the caller passes: nothing, a pydantic snapshot with its \<open>model_dump\<close>, or a mapping.\<close>

datatype sdk_metrics = NoMetrics | Snapshot json | MetricsDict "(string \<times> json) list"

fun json_truth :: "json \<Rightarrow> bool" where
  "json_truth JNull = False"
| "json_truth (JBool b) = b"
| "json_truth (JInt i) = (i \<noteq> 0)"
| "json_truth (JFloat token) = (token \<notin> {''0.0'', ''-0.0''})"
| "json_truth (JStr s) = (s \<noteq> [])"
| "json_truth (JArr xs) = (xs \<noteq> [])"
| "json_truth (JObj ms) = (ms \<noteq> [])"

text \<open>\<open>int(value)\<close> for the counts a snapshot holds; texts and floats are not modelled.\<close>

fun json_int :: "json \<Rightarrow> pyerr + int" where
  "json_int (JInt i) = Inr i"
| "json_int (JBool b) = Inr (if b then 1 else 0)"
| "json_int (JFloat _) = Inl NotModelled"
| "json_int (JStr _) = Inl NotModelled"
| "json_int _ = Inl TypeErr"

definition dump_metrics :: "sdk_metrics \<Rightarrow> json" where
  "dump_metrics m = (case m of NoMetrics \<Rightarrow> JNull | Snapshot v \<Rightarrow> v | MetricsDict ms \<Rightarrow> JObj ms)"

definition usage_count :: "(string \<times> json) list \<Rightarrow> string \<Rightarrow> pyerr + int" where
  "usage_count usage k =
     (case map_of usage k of
        None \<Rightarrow> Inr 0
      | Some v \<Rightarrow> if json_truth v then json_int v else Inr 0)"

definition token_usage :: "sdk_metrics \<Rightarrow> (string \<times> json) list" where
  "token_usage m =
     (case dump_metrics m of
        JObj ms \<Rightarrow> (case map_of ms ''accumulated_token_usage'' of Some (JObj us) \<Rightarrow> us | _ \<Rightarrow> [])
      | _ \<Rightarrow> [])"

definition extract_metrics :: "sdk_metrics \<Rightarrow> pyerr + llm_metrics" where
  "extract_metrics m =
     (let count = usage_count (token_usage m) in
      bindR (count ''prompt_tokens'') (\<lambda>p. bindR (count ''completion_tokens'') (\<lambda>c.
      bindR (count ''cache_read_tokens'') (\<lambda>cr. bindR (count ''cache_write_tokens'') (\<lambda>cw.
      bindR (count ''reasoning_tokens'') (\<lambda>r. bindR (count ''context_window'') (\<lambda>w.
      bindR (count ''per_turn_token'') (\<lambda>t.
        Inr \<lparr>lm_prompt_tokens = p, lm_completion_tokens = c, lm_cache_read_tokens = cr, lm_cache_write_tokens = cw,
             lm_reasoning_tokens = r, lm_context_window = w, lm_per_turn_token = t, lm_accumulated_cost = 0\<rparr>))))))))"

definition metrics_cost :: "usage_env \<Rightarrow> sdk_metrics \<Rightarrow> pyerr + int" where
  "metrics_cost env m =
     (case dump_metrics m of
        JObj ms \<Rightarrow>
          (case map_of ms ''accumulated_cost'' of
             None \<Rightarrow> Inr 0
           | Some v \<Rightarrow> if json_truth v then ue_float env v else Inr 0)
      | _ \<Rightarrow> Inr 0)"

section \<open>Recording\<close>

definition usage_day :: "datetime \<Rightarrow> int" where
  "usage_day t = day_of t"

text \<open>What a \<open>bigint\<close> column holds, and a \<open>Numeric(18, 6)\<close>, in units of its last digit.\<close>

definition bigint :: "int \<Rightarrow> bool" where
  "bigint i = (- (2 ^ 63) \<le> i \<and> i < 2 ^ 63)"

definition metrics_fit :: "llm_metrics \<Rightarrow> bool" where
  "metrics_fit m =
     (bigint (lm_prompt_tokens m) \<and> bigint (lm_completion_tokens m) \<and> bigint (lm_cache_read_tokens m) \<and>
      bigint (lm_cache_write_tokens m) \<and> bigint (lm_reasoning_tokens m) \<and> bigint (lm_context_window m) \<and>
      bigint (lm_per_turn_token m) \<and> \<bar>lm_accumulated_cost m\<bar> < 10 ^ 18)"

text \<open>
  The row is flushed; any failure of the INSERT rolls the caller's whole session back to what was
  committed, \<open>saved\<close>, and gives no row. What raises before is not caught.
\<close>

definition record_llm_usage ::
    "usage_env \<Rightarrow> uuid \<Rightarrow> uuid \<Rightarrow> uuid option \<Rightarrow> string option \<Rightarrow> string \<Rightarrow> sdk_metrics \<Rightarrow> usage_db \<Rightarrow> usage_db \<Rightarrow>
     pyerr + llm_usage option \<times> usage_db" where
  "record_llm_usage env creator provider llm response_id model m saved db =
     bindR (extract_metrics m) (\<lambda>metrics.
     bindR (metrics_cost env m) (\<lambda>cost.
       let r = \<lparr>lu_id = ue_ident env, lu_created_at = ue_clock env 0, lu_creator_id = creator,
                lu_provider_connection_id = provider, lu_llm_id = llm, lu_response_id = response_id, lu_model = model,
                lu_values = metrics\<lparr>lm_accumulated_cost := cost\<rparr>,
                lu_metrics = (case m of Snapshot v \<Rightarrow> v | _ \<Rightarrow> JObj [])\<rparr>;
           accepted = (creator \<in> set (ug_users db) \<and> provider \<in> set (ug_providers db) \<and>
             (\<forall>k. llm = Some k \<longrightarrow> k \<in> set (ug_llms db)) \<and>
             (\<forall>s. response_id = Some s \<longrightarrow> length s \<le> 255) \<and> length model \<le> 255 \<and>
             metrics_fit (lu_values r) \<and>
             \<not> (\<exists>x \<in> set (pt_rows (ug_llm db)). lu_id x = lu_id r \<and> lu_created_at x = lu_created_at r))
       in case insert_row (\<lambda>x. usage_day (lu_created_at x)) r (ug_llm db) of
            Inr table \<Rightarrow> if accepted then Inr (Some r, db\<lparr>ug_llm := table\<rparr>) else Inr (None, saved)
          | Inl _ \<Rightarrow> Inr (None, saved)))"

definition record_mcp_usage ::
    "usage_env \<Rightarrow> uuid \<Rightarrow> uuid \<Rightarrow> string \<Rightarrow> int \<Rightarrow> bool \<Rightarrow> string option \<Rightarrow> json option \<Rightarrow> usage_db \<Rightarrow> usage_db \<Rightarrow>
     mcp_usage option \<times> usage_db" where
  "record_mcp_usage env creator config tool_name duration_ms success error details saved db =
     (let r = \<lparr>mu_id = ue_ident env, mu_created_at = ue_clock env 0, mu_creator_id = creator, mu_config_id = config,
               mu_tool_name = tool_name, mu_duration_ms = duration_ms, mu_success = success, mu_error = error,
               mu_details = (case details of Some v \<Rightarrow> (if json_truth v then v else JObj []) | None \<Rightarrow> JObj [])\<rparr>;
          accepted = (creator \<in> set (ug_users db) \<and> config \<in> set (ug_mcp_configs db) \<and> length tool_name \<le> 255 \<and>
            bigint duration_ms \<and>
            \<not> (\<exists>x \<in> set (pt_rows (ug_mcp db)). mu_id x = mu_id r \<and> mu_created_at x = mu_created_at r))
      in case insert_row (\<lambda>x. usage_day (mu_created_at x)) r (ug_mcp db) of
           Inr table \<Rightarrow> if accepted then (Some r, db\<lparr>ug_mcp := table\<rparr>) else (None, saved)
         | Inl _ \<Rightarrow> (None, saved))"

text \<open>
  The poll over the sandboxes, each with the id text of its config, if it has one. The ids are
  parsed before anything is added; the rows are committed together.
\<close>

datatype sandbox_record_error = BadConfigId | InsertFailed

fun parse_configs :: "string option list \<Rightarrow> sandbox_record_error + uuid list" where
  "parse_configs [] = Inr []"
| "parse_configs (c # cs) =
     (case c of
        None \<Rightarrow> parse_configs cs
      | Some s \<Rightarrow>
          if s = [] then parse_configs cs
          else
            (case uuid_parse s of
               None \<Rightarrow> Inl BadConfigId
             | Some k \<Rightarrow> bindR (parse_configs cs) (\<lambda>ks. Inr (k # ks))))"

fun insert_sandbox_rows ::
    "usage_env \<Rightarrow> nat \<Rightarrow> uuid list \<Rightarrow> usage_db \<Rightarrow> sandbox_record_error + usage_db" where
  "insert_sandbox_rows env i [] db = Inr db"
| "insert_sandbox_rows env i (k # ks) db =
     (let r = \<lparr>su_id = ue_uuid env i, su_created_at = ue_clock env i, su_config_id = k\<rparr> in
      case insert_row (\<lambda>x. usage_day (su_created_at x)) r (ug_sandbox db) of
        Inl _ \<Rightarrow> Inl InsertFailed
      | Inr table \<Rightarrow>
          if k \<in> set (ug_sandbox_configs db) \<and>
             \<not> (\<exists>x \<in> set (pt_rows (ug_sandbox db)). su_id x = su_id r \<and> su_created_at x = su_created_at r)
          then insert_sandbox_rows env (Suc i) ks (db\<lparr>ug_sandbox := table\<rparr>)
          else Inl InsertFailed)"

definition record_sandbox_usage ::
    "usage_env \<Rightarrow> string option list \<Rightarrow> usage_db \<Rightarrow> sandbox_record_error + nat \<times> usage_db" where
  "record_sandbox_usage env sandboxes db =
     bindR (parse_configs sandboxes) (\<lambda>ks.
       if ks = [] then Inr (0, db)
       else bindR (insert_sandbox_rows env 0 ks db) (\<lambda>db1. Inr (length ks, db1)))"

section \<open>Partitions\<close>

definition llm_ensure_partitions ::
    "nat \<Rightarrow> int \<Rightarrow> datetime \<Rightarrow> usage_db \<Rightarrow> ddl_error + string list \<times> string list \<times> usage_db" where
  "llm_ensure_partitions preallocate_days retention_days now db =
     bindR (ensure_partitions (\<lambda>r. usage_day (lu_created_at r)) ''llm_usage'' preallocate_days retention_days now (ug_llm db))
       (\<lambda>(created, dropped, table). Inr (created, dropped, db\<lparr>ug_llm := table\<rparr>))"

definition mcp_ensure_partitions ::
    "nat \<Rightarrow> int \<Rightarrow> datetime \<Rightarrow> usage_db \<Rightarrow> ddl_error + string list \<times> string list \<times> usage_db" where
  "mcp_ensure_partitions preallocate_days retention_days now db =
     bindR (ensure_partitions (\<lambda>r. usage_day (mu_created_at r)) ''mcp_usage'' preallocate_days retention_days now (ug_mcp db))
       (\<lambda>(created, dropped, table). Inr (created, dropped, db\<lparr>ug_mcp := table\<rparr>))"

definition sandbox_ensure_partitions ::
    "nat \<Rightarrow> int \<Rightarrow> datetime \<Rightarrow> usage_db \<Rightarrow> ddl_error + string list \<times> string list \<times> usage_db" where
  "sandbox_ensure_partitions preallocate_days retention_days now db =
     bindR (ensure_partitions (\<lambda>r. usage_day (su_created_at r)) ''sandbox_usage'' preallocate_days retention_days now (ug_sandbox db))
       (\<lambda>(created, dropped, table). Inr (created, dropped, db\<lparr>ug_sandbox := table\<rparr>))"

section \<open>Roll-up\<close>

definition MINUTE :: int where
  "MINUTE = 60000000"

text \<open>\<open>minute.replace(second=0, microsecond=0)\<close>.\<close>

definition minute_start :: "datetime \<Rightarrow> datetime" where
  "minute_start t = t - t mod MINUTE"

definition in_minute :: "datetime \<Rightarrow> datetime \<Rightarrow> bool" where
  "in_minute start t = (start \<le> t \<and> t < start + MINUTE)"

text \<open>\<open>ON CONFLICT (creator_id, minute) DO UPDATE\<close>, for one row of the SELECT.\<close>

definition upsert_rollup :: "datetime \<Rightarrow> 'm rollup \<Rightarrow> 'm rollup list \<Rightarrow> 'm rollup list" where
  "upsert_rollup now r table =
     (let same = (\<lambda>x. ru_creator_id x = ru_creator_id r \<and> ru_minute x = ru_minute r) in
      if (\<exists>x \<in> set table. same x)
      then map (\<lambda>x. if same x
             then x\<lparr>ru_invocations := ru_invocations r, ru_totals := ru_totals r, ru_updated_at := now\<rparr> else x) table
      else table @ [r])"

text \<open>The SELECT: one row per creator with usage in the minute, from \<open>COUNT(*)\<close> and the sums.\<close>

definition rollup_groups ::
    "usage_env \<Rightarrow> ('r \<Rightarrow> datetime) \<Rightarrow> ('r \<Rightarrow> uuid) \<Rightarrow> ('r list \<Rightarrow> 'm) \<Rightarrow> 'r list \<Rightarrow> datetime \<Rightarrow> 'm rollup list" where
  "rollup_groups env created creator sums rows start =
     (let hits = filter (\<lambda>r. in_minute start (created r)) rows;
          creators = remdups (map creator hits)
      in map (\<lambda>(i, c). let mine = filter (\<lambda>r. creator r = c) hits in
           \<lparr>ru_id = ue_uuid env i, ru_minute = start, ru_creator_id = c, ru_invocations = length mine,
            ru_totals = sums mine, ru_updated_at = ue_clock env 0\<rparr>) (enumerate 0 creators))"

text \<open>
  The sums are computed without a bound and cast to the columns of the roll-up by the INSERT. One sum that
  does not fit (\<open>fits\<close>) makes the statement fail for every creator of the minute.
\<close>

datatype rollup_error = OutOfRange

definition aggregate_minute ::
    "usage_env \<Rightarrow> ('r \<Rightarrow> datetime) \<Rightarrow> ('r \<Rightarrow> uuid) \<Rightarrow> ('r list \<Rightarrow> 'm) \<Rightarrow> ('m \<Rightarrow> bool) \<Rightarrow> 'r list \<Rightarrow> datetime \<Rightarrow> 'm rollup list \<Rightarrow>
     rollup_error + nat \<times> 'm rollup list" where
  "aggregate_minute env created creator sums fits rows minute table =
     (let start = minute_start minute;
          groups = rollup_groups env created creator sums rows start
      in if \<exists>r \<in> set groups. \<not> (bigint (int (ru_invocations r)) \<and> fits (ru_totals r)) then Inl OutOfRange
         else
           let table1 = fold (upsert_rollup (ue_clock env 0)) groups table
           in Inr (length (filter (\<lambda>r. in_minute start (ru_minute r)) table1), table1))"

definition sum_metrics :: "llm_usage list \<Rightarrow> llm_metrics" where
  "sum_metrics us =
     (let total = (\<lambda>f. sum_list (map (\<lambda>u. f (lu_values u)) us)) in
      \<lparr>lm_prompt_tokens = total lm_prompt_tokens, lm_completion_tokens = total lm_completion_tokens,
       lm_cache_read_tokens = total lm_cache_read_tokens, lm_cache_write_tokens = total lm_cache_write_tokens,
       lm_reasoning_tokens = total lm_reasoning_tokens, lm_context_window = total lm_context_window,
       lm_per_turn_token = total lm_per_turn_token, lm_accumulated_cost = total lm_accumulated_cost\<rparr>)"

definition sum_durations :: "mcp_usage list \<Rightarrow> int" where
  "sum_durations us = sum_list (map mu_duration_ms us)"

definition llm_aggregate_minute :: "usage_env \<Rightarrow> datetime \<Rightarrow> usage_db \<Rightarrow> rollup_error + nat \<times> usage_db" where
  "llm_aggregate_minute env minute db =
     bindR (aggregate_minute env lu_created_at lu_creator_id sum_metrics metrics_fit (pt_rows (ug_llm db)) minute (ug_llm_rollups db))
       (\<lambda>(n, table). Inr (n, db\<lparr>ug_llm_rollups := table\<rparr>))"

definition mcp_aggregate_minute :: "usage_env \<Rightarrow> datetime \<Rightarrow> usage_db \<Rightarrow> rollup_error + nat \<times> usage_db" where
  "mcp_aggregate_minute env minute db =
     bindR (aggregate_minute env mu_created_at mu_creator_id sum_durations bigint (pt_rows (ug_mcp db)) minute (ug_mcp_rollups db))
       (\<lambda>(n, table). Inr (n, db\<lparr>ug_mcp_rollups := table\<rparr>))"

definition lagged :: "nat \<Rightarrow> datetime \<Rightarrow> datetime" where
  "lagged lag_minutes now = now - int lag_minutes * MINUTE"

definition llm_aggregate_behind_now :: "usage_env \<Rightarrow> nat \<Rightarrow> datetime \<Rightarrow> usage_db \<Rightarrow> rollup_error + nat \<times> usage_db" where
  "llm_aggregate_behind_now env lag_minutes now db = llm_aggregate_minute env (lagged lag_minutes now) db"

definition mcp_aggregate_behind_now :: "usage_env \<Rightarrow> nat \<Rightarrow> datetime \<Rightarrow> usage_db \<Rightarrow> rollup_error + nat \<times> usage_db" where
  "mcp_aggregate_behind_now env lag_minutes now db = mcp_aggregate_minute env (lagged lag_minutes now) db"

text \<open>
  The sweeps of \<open>app.py\<close>. An exception of a sweep is logged: its session is closed without a commit, and the
  next sweep works on its own minute, not on the one that failed.
\<close>

definition background_sweep :: "('s \<Rightarrow> 'e + 'a \<times> 's) \<Rightarrow> 's \<Rightarrow> 's" where
  "background_sweep sweep db = (case sweep db of Inl _ \<Rightarrow> db | Inr (_, db') \<Rightarrow> db')"

definition sweep_llm_aggregate :: "usage_env \<Rightarrow> datetime \<Rightarrow> usage_db \<Rightarrow> rollup_error + nat \<times> usage_db" where
  "sweep_llm_aggregate env now db = llm_aggregate_behind_now env 1 now db"

definition sweep_mcp_aggregate :: "usage_env \<Rightarrow> datetime \<Rightarrow> usage_db \<Rightarrow> rollup_error + nat \<times> usage_db" where
  "sweep_mcp_aggregate env now db = mcp_aggregate_behind_now env 1 now db"

text \<open>
  \<open>_background_sweep\<close>: sleep for the interval, then sweep. The \<open>i\<close>th sweep therefore starts an
  interval and the duration of the earlier sweeps after the one before.
\<close>

fun sweep_times :: "datetime \<Rightarrow> int \<Rightarrow> int list \<Rightarrow> datetime list" where
  "sweep_times start interval [] = []"
| "sweep_times start interval (duration # durations) =
     (start + interval) # sweep_times (start + interval + duration) interval durations"

end
