(* ===== verification/UsageLaws.thy ===== *)
theory UsageLaws
  imports UsageServices
begin

text \<open>
  What the roll-up stores for each creator and minute, and which minutes the background loop of
  the aggregator reaches.
\<close>

section \<open>Keyed tables\<close>

definition rollup_key :: "'m rollup \<Rightarrow> uuid \<times> datetime" where
  "rollup_key r = (ru_creator_id r, ru_minute r)"

definition unique_rollups :: "'m rollup list \<Rightarrow> bool" where
  "unique_rollups table = distinct (map rollup_key table)"

text \<open>The stored count and sums of a creator and minute.\<close>

fun stored :: "uuid \<times> datetime \<Rightarrow> 'm rollup list \<Rightarrow> (nat \<times> 'm) option" where
  "stored k [] = None"
| "stored k (r # table) = (if rollup_key r = k then Some (ru_invocations r, ru_totals r) else stored k table)"

lemma stored_None: "stored k table = None \<longleftrightarrow> k \<notin> rollup_key ` set table"
  by (induction table) auto

lemma stored_append: "stored k (xs @ ys) = (case stored k xs of None \<Rightarrow> stored k ys | Some v \<Rightarrow> Some v)"
  by (induction xs) auto

lemma upsert_cases:
  "upsert_rollup now r table =
     (if rollup_key r \<in> rollup_key ` set table
      then map (\<lambda>x. if rollup_key x = rollup_key r
             then x\<lparr>ru_invocations := ru_invocations r, ru_totals := ru_totals r, ru_updated_at := now\<rparr> else x) table
      else table @ [r])"
proof -
  have "(\<exists>x \<in> set table. ru_creator_id x = ru_creator_id r \<and> ru_minute x = ru_minute r) \<longleftrightarrow>
      rollup_key r \<in> rollup_key ` set table" unfolding rollup_key_def image_iff by (simp add: eq_commute)
  then show ?thesis by (simp add: upsert_rollup_def Let_def rollup_key_def)
qed

lemma upsert_unique:
  assumes "unique_rollups table"
  shows "unique_rollups (upsert_rollup now r table)"
proof -
  have "map rollup_key (map (\<lambda>x. if rollup_key x = rollup_key r
      then x\<lparr>ru_invocations := ru_invocations r, ru_totals := ru_totals r, ru_updated_at := now\<rparr> else x) table) =
      map rollup_key table" by (simp add: rollup_key_def)
  then show ?thesis using assms by (simp add: unique_rollups_def upsert_cases del: map_map)
qed

lemma upsert_stored:
  "stored k (upsert_rollup now r table) = (if rollup_key r = k then Some (ru_invocations r, ru_totals r) else stored k table)"
proof -
  have upd: "stored k (map (\<lambda>x. if rollup_key x = rollup_key r
        then x\<lparr>ru_invocations := ru_invocations r, ru_totals := ru_totals r, ru_updated_at := now\<rparr> else x) table) =
      (if rollup_key r = k \<and> k \<in> rollup_key ` set table then Some (ru_invocations r, ru_totals r) else stored k table)"
    by (induction table) (auto simp: rollup_key_def)
  show ?thesis
  proof (cases "rollup_key r \<in> rollup_key ` set table")
    case True
    then show ?thesis unfolding upsert_cases if_P [OF True] upd by auto
  next
    case False
    have "stored (rollup_key r) table = None" using False by (simp add: stored_None)
    then show ?thesis unfolding upsert_cases if_not_P [OF False] stored_append by (cases "stored k table") auto
  qed
qed

lemma fold_upsert_unique: "unique_rollups table \<Longrightarrow> unique_rollups (fold (upsert_rollup now) rs table)"
  by (induction rs arbitrary: table) (simp_all add: upsert_unique)

lemma fold_upsert_stored:
  assumes "distinct (map rollup_key rs)"
  shows "stored k (fold (upsert_rollup now) rs table) = (case stored k rs of None \<Rightarrow> stored k table | Some v \<Rightarrow> Some v)"
  using assms
proof (induction rs arbitrary: table)
  case (Cons r rs)
  have "stored k rs = None" if "rollup_key r = k" using Cons.prems that by (auto simp: stored_None)
  then show ?case using Cons by (auto simp: upsert_stored split: option.split)
qed simp

section \<open>One minute\<close>

lemma enumerate_keys:
  assumes "\<And>i c. rollup_key (f i c) = (c, start)"
  shows "map rollup_key (map (\<lambda>(i, c). f i c) (enumerate n cs)) = map (\<lambda>c. (c, start)) cs"
  by (induction cs arbitrary: n) (simp_all add: assms)

lemma stored_rollup:
  assumes "\<And>i c. rollup_key (f i c) = (c, start)" "\<And>i c. (ru_invocations (f i c), ru_totals (f i c)) = g c"
  shows "stored (c, m) (map (\<lambda>(i, c). f i c) (enumerate n cs)) = (if m = start \<and> c \<in> set cs then Some (g c) else None)"
  by (induction cs arbitrary: n) (auto simp: assms)

text \<open>The rows of a creator in a minute.\<close>

definition usage_of :: "('r \<Rightarrow> datetime) \<Rightarrow> ('r \<Rightarrow> uuid) \<Rightarrow> 'r list \<Rightarrow> uuid \<Rightarrow> datetime \<Rightarrow> 'r list" where
  "usage_of created creator rows c m = filter (\<lambda>r. creator r = c \<and> in_minute m (created r)) rows"

text \<open>Every creator's count and sums of a minute fit the columns of the roll-up.\<close>

definition minute_fits :: "('r \<Rightarrow> datetime) \<Rightarrow> ('r \<Rightarrow> uuid) \<Rightarrow> ('r list \<Rightarrow> 'm) \<Rightarrow> ('m \<Rightarrow> bool) \<Rightarrow> 'r list \<Rightarrow> datetime \<Rightarrow> bool" where
  "minute_fits created creator sums fits rows m =
     (\<forall>c. let mine = usage_of created creator rows c m in mine = [] \<or> bigint (int (length mine)) \<and> fits (sums mine))"

lemma hits_of: "filter (\<lambda>r. creator r = c) (filter (\<lambda>r. in_minute m (created r)) rows) = usage_of created creator rows c m"
  by (simp add: usage_of_def conj_commute)

lemma groups_values:
  "(\<lambda>r. (ru_invocations r, ru_totals r)) ` set (rollup_groups env created creator sums rows start) =
     (\<lambda>c. (length (usage_of created creator rows c start), sums (usage_of created creator rows c start))) `
       {c. usage_of created creator rows c start \<noteq> []}"
proof -
  let ?hits = "filter (\<lambda>r. in_minute start (created r)) rows"
  have "c \<in> set (remdups (map creator ?hits)) \<longleftrightarrow> usage_of created creator rows c start \<noteq> []" for c
    by (auto simp: usage_of_def filter_empty_conv)
  then have cs: "set (remdups (map creator ?hits)) = {c. usage_of created creator rows c start \<noteq> []}" by blast
  have "(\<lambda>r. (ru_invocations r, ru_totals r)) ` set (rollup_groups env created creator sums rows start) =
      (\<lambda>c. (length (usage_of created creator rows c start), sums (usage_of created creator rows c start))) `
        snd ` set (enumerate 0 (remdups (map creator ?hits)))"
    unfolding rollup_groups_def Let_def hits_of by (force simp: image_iff case_prod_unfold)
  also have "snd ` set (enumerate 0 (remdups (map creator ?hits))) = set (remdups (map creator ?hits))"
    by (metis list.set_map map_snd_enumerate)
  finally show ?thesis unfolding cs .
qed

lemma groups_fit:
  "(\<exists>r \<in> set (rollup_groups env created creator sums rows start). \<not> (bigint (int (ru_invocations r)) \<and> fits (ru_totals r))) =
     (\<not> minute_fits created creator sums fits rows start)"
proof -
  have "(\<forall>r \<in> set (rollup_groups env created creator sums rows start). bigint (int (ru_invocations r)) \<and> fits (ru_totals r)) \<longleftrightarrow>
      (\<forall>v \<in> (\<lambda>r. (ru_invocations r, ru_totals r)) ` set (rollup_groups env created creator sums rows start).
         bigint (int (fst v)) \<and> fits (snd v))" by simp
  also have "\<dots> \<longleftrightarrow> minute_fits created creator sums fits rows start"
    unfolding groups_values by (auto simp: minute_fits_def Let_def)
  finally show ?thesis by blast
qed

lemma aggregate_result:
  "aggregate_minute env created creator sums fits rows minute table = Inl e \<longleftrightarrow>
     \<not> minute_fits created creator sums fits rows (minute_start minute)"
  "aggregate_minute env created creator sums fits rows minute table = Inr (n, table') \<longleftrightarrow>
     minute_fits created creator sums fits rows (minute_start minute) \<and>
     table' = fold (upsert_rollup (ue_clock env 0)) (rollup_groups env created creator sums rows (minute_start minute)) table \<and>
     n = length (filter (\<lambda>r. in_minute (minute_start minute) (ru_minute r)) table')"
  unfolding aggregate_minute_def Let_def groups_fit by (cases e; auto)+

lemma aggregate_stored:
  assumes "aggregate_minute env created creator sums fits rows minute table = Inr (n, table')"
  shows "stored (c, m) table' =
    (let mine = usage_of created creator rows c m in
     if m = minute_start minute \<and> mine \<noteq> [] then Some (length mine, sums mine) else stored (c, m) table)"
proof -
  define start where "start = minute_start minute"
  define hits where "hits = filter (\<lambda>r. in_minute start (created r)) rows"
  define f where "f = (\<lambda>i c. \<lparr>ru_id = ue_uuid env i, ru_minute = start, ru_creator_id = c,
    ru_invocations = length (filter (\<lambda>r. creator r = c) hits), ru_totals = sums (filter (\<lambda>r. creator r = c) hits),
    ru_updated_at = ue_clock env 0\<rparr>)"
  have f: "rollup_key (f i c) = (c, start)"
    "(ru_invocations (f i c), ru_totals (f i c)) = (length (filter (\<lambda>r. creator r = c) hits), sums (filter (\<lambda>r. creator r = c) hits))"
    for i c by (simp_all add: f_def rollup_key_def)
  have groups: "rollup_groups env created creator sums rows start = map (\<lambda>(i, c). f i c) (enumerate 0 (remdups (map creator hits)))"
    by (simp add: rollup_groups_def Let_def hits_def f_def)
  have table': "table' = fold (upsert_rollup (ue_clock env 0)) (map (\<lambda>(i, c). f i c) (enumerate 0 (remdups (map creator hits)))) table"
    using assms unfolding aggregate_result start_def [symmetric] groups by blast
  have "distinct (map rollup_key (map (\<lambda>(i, c). f i c) (enumerate 0 (remdups (map creator hits)))))"
    unfolding enumerate_keys [of f, OF f(1)] by (simp add: distinct_map inj_on_def)
  from fold_upsert_stored [OF this]
  have "stored (c, m) table' = (if m = start \<and> c \<in> set (remdups (map creator hits))
      then Some (length (filter (\<lambda>r. creator r = c) hits), sums (filter (\<lambda>r. creator r = c) hits)) else stored (c, m) table)"
    unfolding table' by (simp only: stored_rollup [where f = f, OF f]) (simp split: option.split)
  moreover have "filter (\<lambda>r. creator r = c) hits = usage_of created creator rows c start"
    unfolding hits_def by (rule hits_of)
  moreover have "c \<in> set (remdups (map creator hits)) \<longleftrightarrow> filter (\<lambda>r. creator r = c) hits \<noteq> []"
    by (auto simp: filter_empty_conv)
  ultimately show ?thesis by (auto simp: Let_def start_def)
qed

lemma aggregate_unique:
  "aggregate_minute env created creator sums fits rows minute table = Inr (n, table') \<Longrightarrow> unique_rollups table \<Longrightarrow>
    unique_rollups table' \<and> n = length (filter (\<lambda>r. in_minute (minute_start minute) (ru_minute r)) table')"
  by (auto simp: aggregate_result fold_upsert_unique)

section \<open>Many minutes\<close>

lemma in_minute_iff: "m mod MINUTE = 0 \<Longrightarrow> in_minute m t \<longleftrightarrow> minute_start t = m"
proof -
  assume m: "m mod MINUTE = 0"
  have "minute_start t = MINUTE * (t div MINUTE)" by (simp add: minute_start_def minus_mod_eq_mult_div)
  moreover define q where "q = m div MINUTE"
  moreover have "m = MINUTE * q" using m mult_div_mod_eq [of MINUTE m] by (simp add: q_def)
  moreover have "MINUTE * q \<le> t \<and> t < MINUTE * q + MINUTE \<longleftrightarrow> t div MINUTE = q"
  proof
    assume "MINUTE * q \<le> t \<and> t < MINUTE * q + MINUTE"
    then show "t div MINUTE = q" by (intro int_div_pos_eq [of t MINUTE q "t - MINUTE * q"]) auto
  next
    assume "t div MINUTE = q"
    then have "t = MINUTE * q + t mod MINUTE" using mult_div_mod_eq [of MINUTE t] by simp
    moreover have "0 \<le> t mod MINUTE" "t mod MINUTE < MINUTE" by (simp_all add: MINUTE_def)
    ultimately show "MINUTE * q \<le> t \<and> t < MINUTE * q + MINUTE" by linarith
  qed
  ultimately show ?thesis by (auto simp: in_minute_def MINUTE_def)
qed

lemma minute_start_mod [simp]: "minute_start t mod MINUTE = 0"
  by (simp add: minute_start_def minus_mod_eq_mult_div)

lemma minute_bounds: "minute_start t \<le> t" "t < minute_start t + MINUTE"
  by (simp_all add: minute_start_def MINUTE_def)

text \<open>The aggregator's sweeps, each with its own ids and clock, at given times.\<close>

definition llm_tick :: "usage_env \<times> datetime \<Rightarrow> usage_db \<Rightarrow> usage_db" where
  "llm_tick tick db = background_sweep (sweep_llm_aggregate (fst tick) (snd tick)) db"

definition llm_usage_of :: "usage_db \<Rightarrow> uuid \<Rightarrow> datetime \<Rightarrow> llm_usage list" where
  "llm_usage_of db = usage_of lu_created_at lu_creator_id (pt_rows (ug_llm db))"

definition llm_minute_fits :: "usage_db \<Rightarrow> datetime \<Rightarrow> bool" where
  "llm_minute_fits db = minute_fits lu_created_at lu_creator_id sum_metrics metrics_fit (pt_rows (ug_llm db))"

definition mcp_usage_of :: "usage_db \<Rightarrow> uuid \<Rightarrow> datetime \<Rightarrow> mcp_usage list" where
  "mcp_usage_of db = usage_of mu_created_at mu_creator_id (pt_rows (ug_mcp db))"

definition mcp_minute_fits :: "usage_db \<Rightarrow> datetime \<Rightarrow> bool" where
  "mcp_minute_fits db = minute_fits mu_created_at mu_creator_id sum_durations bigint (pt_rows (ug_mcp db))"

lemma llm_tick_cases:
  obtains (failed) "\<not> llm_minute_fits db (minute_start (lagged 1 (snd tick)))" "llm_tick tick db = db"
  | (swept) n table where "llm_minute_fits db (minute_start (lagged 1 (snd tick)))"
      "aggregate_minute (fst tick) lu_created_at lu_creator_id sum_metrics metrics_fit (pt_rows (ug_llm db))
         (lagged 1 (snd tick)) (ug_llm_rollups db) = Inr (n, table)" "llm_tick tick db = db\<lparr>ug_llm_rollups := table\<rparr>"
proof (cases "aggregate_minute (fst tick) lu_created_at lu_creator_id sum_metrics metrics_fit (pt_rows (ug_llm db))
      (lagged 1 (snd tick)) (ug_llm_rollups db)")
  case (Inl e)
  have "\<not> llm_minute_fits db (minute_start (lagged 1 (snd tick)))"
    using Inl unfolding llm_minute_fits_def aggregate_result(1) .
  then show ?thesis
    using failed Inl by (simp add: llm_tick_def background_sweep_def sweep_llm_aggregate_def llm_aggregate_behind_now_def
      llm_aggregate_minute_def)
next
  case (Inr p)
  then obtain n table where p: "p = (n, table)" by (cases p)
  have "llm_minute_fits db (minute_start (lagged 1 (snd tick)))"
    using Inr [unfolded p] by (simp add: llm_minute_fits_def aggregate_result(2))
  then show ?thesis
    using swept [of n table] Inr by (simp add: p llm_tick_def background_sweep_def sweep_llm_aggregate_def
      llm_aggregate_behind_now_def llm_aggregate_minute_def)
qed

definition llm_ticks :: "(usage_env \<times> datetime) list \<Rightarrow> usage_db \<Rightarrow> usage_db" where
  "llm_ticks ticks db = fold llm_tick ticks db"

lemma llm_ticks_stored:
  "pt_rows (ug_llm (llm_ticks ticks db)) = pt_rows (ug_llm db) \<and>
   stored (c, m) (ug_llm_rollups (llm_ticks ticks db)) =
     (let mine = llm_usage_of db c m in
      if (\<exists>t \<in> snd ` set ticks. m = minute_start (lagged 1 t)) \<and> llm_minute_fits db m \<and> mine \<noteq> []
      then Some (length mine, sum_metrics mine) else stored (c, m) (ug_llm_rollups db))"
proof (induction ticks arbitrary: db)
  case (Cons p ticks)
  show ?case
  proof (cases p db rule: llm_tick_cases)
    case failed
    have step: "llm_ticks (p # ticks) db = llm_ticks ticks db" by (simp add: llm_ticks_def failed(2))
    show ?thesis unfolding step using Cons [of db] failed(1) by (auto simp: Let_def)
  next
    case (swept n table)
    have step: "llm_ticks (p # ticks) db = llm_ticks ticks (db\<lparr>ug_llm_rollups := table\<rparr>)" by (simp add: llm_ticks_def swept(3))
    have same: "llm_usage_of (db\<lparr>ug_llm_rollups := table\<rparr>) = llm_usage_of db"
        "llm_minute_fits (db\<lparr>ug_llm_rollups := table\<rparr>) = llm_minute_fits db"
      by (simp_all add: llm_usage_of_def llm_minute_fits_def)
    show ?thesis unfolding step
      using Cons [of "db\<lparr>ug_llm_rollups := table\<rparr>"] swept(1) aggregate_stored [OF swept(2), of c m]
      unfolding same by (auto simp: Let_def llm_usage_of_def simp del: One_nat_def)
  qed
qed (simp add: llm_ticks_def Let_def)

lemma llm_ticks_unique: "unique_rollups (ug_llm_rollups db) \<Longrightarrow> unique_rollups (ug_llm_rollups (llm_ticks ticks db))"
proof (induction ticks arbitrary: db)
  case (Cons p ticks)
  have "unique_rollups (ug_llm_rollups (llm_tick p db))"
  proof (cases p db rule: llm_tick_cases)
    case failed
    then show ?thesis using Cons.prems by simp
  next
    case (swept n table)
    then show ?thesis using Cons.prems aggregate_unique [OF swept(2)] by simp
  qed
  then show ?case using Cons.IH [of "llm_tick p db"] by (simp add: llm_ticks_def)
qed (simp add: llm_ticks_def)

text \<open>Ticks no more than a minute apart reach every minute between them.\<close>

lemma dense_ticks:
  assumes "sorted_wrt (\<lambda>a b. a \<le> b) ts" "\<And>i. Suc i < length ts \<Longrightarrow> ts ! Suc i - ts ! i \<le> MINUTE"
    and "ts \<noteq> []" "m mod MINUTE = 0" "minute_start (hd ts) \<le> m" "m \<le> minute_start (last ts)"
  shows "\<exists>t \<in> set ts. minute_start t = m"
  using assms
proof (induction ts)
  case (Cons t ts)
  show ?case
  proof (cases "minute_start t = m \<or> ts = []")
    case True
    then show ?thesis using Cons.prems(5,6) by auto
  next
    case False
    then obtain u us where u: "ts = u # us" by (cases ts) auto
    have "u - t \<le> MINUTE" using Cons.prems(2) [of 0] by (simp add: u)
    moreover have "t < m" using Cons.prems(4,5) False minute_bounds [of t] in_minute_iff [of m t] by (auto simp: in_minute_def)
    ultimately have "u < m + MINUTE" by linarith
    then have "minute_start u < m + MINUTE" using minute_bounds(1) [of u] by linarith
    then have "minute_start u \<le> m"
      using Cons.prems(4) minute_start_mod [of u] by (smt (verit) in_minute_def in_minute_iff minute_bounds)
    moreover have "ts ! Suc i - ts ! i \<le> MINUTE" if "Suc i < length ts" for i
      using Cons.prems(2) [of "Suc i"] that by simp
    ultimately have "\<exists>t \<in> set ts. minute_start t = m"
      using Cons.prems u by (intro Cons.IH) auto
    then show ?thesis by simp
  qed
qed simp

lemma sweep_times_nth:
  "i < length ds \<Longrightarrow> sweep_times start interval ds ! i = start + interval * int (Suc i) + sum_list (take i ds)"
  by (induction ds arbitrary: i start) (auto simp: nth_Cons' algebra_simps split: nat.splits, case_tac i, auto simp: algebra_simps)

lemma sweep_times_length [simp]: "length (sweep_times start interval ds) = length ds"
  by (induction ds arbitrary: start) simp_all

text \<open>Sweeps that are slower than one a minute leave a minute out.\<close>

lemma sparse_ticks:
  assumes "ts \<noteq> []" "MINUTE * int (length ts + 2) \<le> last ts - hd ts"
  shows "\<exists>m. m mod MINUTE = 0 \<and> minute_start (hd ts) < m \<and> m < minute_start (last ts) \<and> m \<notin> minute_start ` set ts"
proof (rule ccontr)
  assume none: "\<not> ?thesis"
  define lo hi where "lo = hd ts div MINUTE" and "hi = last ts div MINUTE"
  have ms: "minute_start t = t div MINUTE * MINUTE" for t by (simp add: minute_start_def minus_mod_eq_div_mult)
  have "{lo <..< hi} \<subseteq> (\<lambda>t. t div MINUTE) ` set ts"
  proof
    fix q assume q: "q \<in> {lo <..< hi}"
    have "q * MINUTE \<in> minute_start ` set ts"
      using none q unfolding ms lo_def hi_def by (auto simp: MINUTE_def)
    then show "q \<in> (\<lambda>t. t div MINUTE) ` set ts" unfolding ms by (auto simp: MINUTE_def)
  qed
  then have "card {lo <..< hi} \<le> length ts"
    by (meson card_image_le card_length card_mono finite_imageI finite_set le_trans)
  then have "hi - lo - 1 \<le> int (length ts)" by simp
  moreover have "MINUTE * int (length ts + 2) < MINUTE * (hi - lo + 1)"
    using assms(2) minute_bounds(2) [of "last ts"] minute_bounds(1) [of "hd ts"] unfolding ms lo_def hi_def
    by (simp add: algebra_simps)
  ultimately show False by (simp add: MINUTE_def)
qed

lemma hd_last_map: "xs \<noteq> [] \<Longrightarrow> hd (map f xs) = f (hd xs) \<and> last (map f xs) = f (last xs)"
  by (simp add: hd_map last_map)

lemma sweep_times_span:
  assumes "ds \<noteq> []"
  shows "last (sweep_times start interval ds) - hd (sweep_times start interval ds) =
    interval * int (length ds - 1) + sum_list (butlast ds)"
proof -
  obtain k where k: "length ds = Suc k" using assms by (cases ds) simp_all
  have ne: "sweep_times start interval ds \<noteq> []" using assms by (cases ds) simp_all
  have "last (sweep_times start interval ds) = start + interval * int (Suc k) + sum_list (take k ds)"
    unfolding last_conv_nth [OF ne] by (simp add: sweep_times_nth k)
  moreover have "hd (sweep_times start interval ds) = start + interval"
    unfolding hd_conv_nth [OF ne] using assms by (simp add: sweep_times_nth)
  moreover have "interval * int (Suc k) = interval * int k + interval" by (simp add: distrib_left)
  ultimately show ?thesis by (simp add: butlast_conv_take k)
qed

section \<open>Properties\<close>

definition witness_usage_env :: usage_env where
  "witness_usage_env = \<lparr>ue_clock = (\<lambda>i. 0), ue_ident = 1, ue_uuid = (\<lambda>i. of_nat i), ue_float = (\<lambda>v. Inr 0)\<rparr>"

definition witness_metrics :: llm_metrics where
  "witness_metrics = \<lparr>lm_prompt_tokens = 10, lm_completion_tokens = 5, lm_cache_read_tokens = 0, lm_cache_write_tokens = 0,
     lm_reasoning_tokens = 0, lm_context_window = 0, lm_per_turn_token = 0, lm_accumulated_cost = 7\<rparr>"

definition witness_usage_db :: usage_db where
  "witness_usage_db = \<lparr>ug_llm = \<lparr>pt_rows = [\<lparr>lu_id = 1, lu_created_at = 5, lu_creator_id = 7, lu_provider_connection_id = 1,
       lu_llm_id = None, lu_response_id = None, lu_model = ''m'', lu_values = witness_metrics, lu_metrics = JObj []\<rparr>],
       pt_children = [], pt_relations = []\<rparr>, ug_llm_rollups = [],
     ug_mcp = \<lparr>pt_rows = [], pt_children = [], pt_relations = []\<rparr>, ug_mcp_rollups = [],
     ug_sandbox = \<lparr>pt_rows = [], pt_children = [], pt_relations = []\<rparr>,
     ug_users = [7], ug_providers = [1], ug_llms = [], ug_mcp_configs = [], ug_sandbox_configs = []\<rparr>"

lemma llm_aggregate_cases:
  "(\<exists>e. llm_aggregate_minute env minute db = Inl e \<and> \<not> llm_minute_fits db (minute_start minute)) \<or>
   (\<exists>n table. llm_aggregate_minute env minute db = Inr (n, db\<lparr>ug_llm_rollups := table\<rparr>) \<and> llm_minute_fits db (minute_start minute) \<and>
      aggregate_minute env lu_created_at lu_creator_id sum_metrics metrics_fit (pt_rows (ug_llm db)) minute (ug_llm_rollups db) = Inr (n, table))"
proof (cases "aggregate_minute env lu_created_at lu_creator_id sum_metrics metrics_fit (pt_rows (ug_llm db)) minute (ug_llm_rollups db)")
  case (Inl e)
  then have "\<not> llm_minute_fits db (minute_start minute)" unfolding llm_minute_fits_def aggregate_result(1) .
  then show ?thesis using Inl by (simp add: llm_aggregate_minute_def)
next
  case (Inr p)
  obtain n table where p: "p = (n, table)" by (cases p)
  have "llm_minute_fits db (minute_start minute)" using Inr [unfolded p] by (simp add: llm_minute_fits_def aggregate_result(2))
  then show ?thesis using Inr by (simp add: p llm_aggregate_minute_def)
qed

lemma mcp_aggregate_cases:
  "(\<exists>e. mcp_aggregate_minute env minute db = Inl e \<and> \<not> mcp_minute_fits db (minute_start minute)) \<or>
   (\<exists>n table. mcp_aggregate_minute env minute db = Inr (n, db\<lparr>ug_mcp_rollups := table\<rparr>) \<and> mcp_minute_fits db (minute_start minute) \<and>
      aggregate_minute env mu_created_at mu_creator_id sum_durations bigint (pt_rows (ug_mcp db)) minute (ug_mcp_rollups db) = Inr (n, table))"
proof (cases "aggregate_minute env mu_created_at mu_creator_id sum_durations bigint (pt_rows (ug_mcp db)) minute (ug_mcp_rollups db)")
  case (Inl e)
  then have "\<not> mcp_minute_fits db (minute_start minute)" unfolding mcp_minute_fits_def aggregate_result(1) .
  then show ?thesis using Inl by (simp add: mcp_aggregate_minute_def)
next
  case (Inr p)
  obtain n table where p: "p = (n, table)" by (cases p)
  have "mcp_minute_fits db (minute_start minute)" using Inr [unfolded p] by (simp add: mcp_minute_fits_def aggregate_result(2))
  then show ?thesis using Inr by (simp add: p mcp_aggregate_minute_def)
qed

text \<open>C26. Rolling up a minute. If every user's count and sums of the minute fit the columns of the roll-up, it stores,
  for every user with usage in the minute, exactly the number of its invocations and the sums of its metrics,
  replacing what an earlier run stored, and touches no other minute, no user without usage and no other table; at most one row
  per user and minute exists, and the answer counts the rows of the minute. If one user's sum does not fit, although each
  of its rows does, the roll-up fails and stores nobody's usage. The same holds of the roll-up of MCP usage. The minute chosen with a
  lag of one minute has always ended, though always less than a minute ago.\<close>

theorem rollup_exact:
  assumes "unique_rollups (ug_llm_rollups db)" "unique_rollups (ug_mcp_rollups db)"
  shows "(case llm_aggregate_minute env minute db of
      Inl _ \<Rightarrow> \<exists>c. let mine = llm_usage_of db c (minute_start minute) in
        mine \<noteq> [] \<and> \<not> (bigint (int (length mine)) \<and> metrics_fit (sum_metrics mine))
    | Inr (n, db') \<Rightarrow> db' = db\<lparr>ug_llm_rollups := ug_llm_rollups db'\<rparr> \<and> unique_rollups (ug_llm_rollups db') \<and>
        (\<forall>c. let mine = llm_usage_of db c (minute_start minute) in
           mine = [] \<or> bigint (int (length mine)) \<and> metrics_fit (sum_metrics mine)) \<and>
        (\<forall>c m. stored (c, m) (ug_llm_rollups db') =
          (let mine = llm_usage_of db c m in
           if m = minute_start minute \<and> mine \<noteq> [] then Some (length mine, sum_metrics mine)
           else stored (c, m) (ug_llm_rollups db))) \<and>
        n = length (filter (\<lambda>r. in_minute (minute_start minute) (ru_minute r)) (ug_llm_rollups db'))) \<and>
    (case mcp_aggregate_minute env minute db of
      Inl _ \<Rightarrow> \<exists>c. let mine = mcp_usage_of db c (minute_start minute) in
        mine \<noteq> [] \<and> \<not> (bigint (int (length mine)) \<and> bigint (sum_list (map mu_duration_ms mine)))
    | Inr (n, db') \<Rightarrow> db' = db\<lparr>ug_mcp_rollups := ug_mcp_rollups db'\<rparr> \<and> unique_rollups (ug_mcp_rollups db') \<and>
        (\<forall>c. let mine = mcp_usage_of db c (minute_start minute) in
           mine = [] \<or> bigint (int (length mine)) \<and> bigint (sum_list (map mu_duration_ms mine))) \<and>
        (\<forall>c m. stored (c, m) (ug_mcp_rollups db') =
          (let mine = mcp_usage_of db c m in
           if m = minute_start minute \<and> mine \<noteq> [] then Some (length mine, sum_list (map mu_duration_ms mine))
           else stored (c, m) (ug_mcp_rollups db))) \<and>
        n = length (filter (\<lambda>r. in_minute (minute_start minute) (ru_minute r)) (ug_mcp_rollups db'))) \<and>
    (\<forall>now. minute_start (lagged 1 now) + MINUTE \<le> now \<and> now < minute_start (lagged 1 now) + 2 * MINUTE)"
  (is "?llm \<and> ?mcp \<and> _")
proof (intro conjI allI)
  show ?llm
    using llm_aggregate_cases [of env minute db] aggregate_unique [OF _ assms(1)] aggregate_stored
    by (elim disjE exE conjE) (fastforce simp: llm_minute_fits_def minute_fits_def llm_usage_of_def Let_def)+
  show ?mcp
    using mcp_aggregate_cases [of env minute db] aggregate_unique [OF _ assms(2)] aggregate_stored
    by (elim disjE exE conjE) (fastforce simp: mcp_minute_fits_def minute_fits_def mcp_usage_of_def Let_def sum_durations_def)+
  fix now
  show "minute_start (lagged 1 now) + MINUTE \<le> now" "now < minute_start (lagged 1 now) + 2 * MINUTE"
    using minute_bounds [of "lagged 1 now"] by (simp_all add: lagged_def)
qed

definition overflow_usage_db :: usage_db where
  "overflow_usage_db = witness_usage_db\<lparr>ug_llm := (ug_llm witness_usage_db)\<lparr>pt_rows :=
     map (\<lambda>i. (hd (pt_rows (ug_llm witness_usage_db)))\<lparr>lu_id := i, lu_values := witness_metrics\<lparr>lm_prompt_tokens := 2 ^ 62\<rparr>\<rparr>)
       [1, 2]\<rparr>\<rparr>"

lemma witness_rollups: "unique_rollups (ug_llm_rollups witness_usage_db)" "unique_rollups (ug_mcp_rollups witness_usage_db)"
    "unique_rollups (ug_llm_rollups overflow_usage_db)" "unique_rollups (ug_mcp_rollups overflow_usage_db)"
  by (simp_all add: unique_rollups_def witness_usage_db_def overflow_usage_db_def)

lemma witness_usage_of:
  "map lu_values (llm_usage_of witness_usage_db c m) = (if c = 7 \<and> in_minute m 5 then [witness_metrics] else [])"
  "map lu_values (llm_usage_of overflow_usage_db c m) =
     (if c = 7 \<and> in_minute m 5 then replicate 2 (witness_metrics\<lparr>lm_prompt_tokens := 2 ^ 62\<rparr>) else [])"
  by (simp_all add: llm_usage_of_def usage_of_def witness_usage_db_def overflow_usage_db_def numeral_2_eq_2)

lemma sum_metrics_one: "map lu_values us = [v] \<Longrightarrow> length us = 1 \<and> sum_metrics us = v"
  by (cases us) (simp_all add: sum_metrics_def)

lemma sum_metrics_two: "map lu_values us = replicate 2 v \<Longrightarrow> us \<noteq> [] \<and> lm_prompt_tokens (sum_metrics us) = 2 * lm_prompt_tokens v"
  by (auto simp: sum_metrics_def numeral_2_eq_2 map_eq_Cons_conv)

lemma witness_fits: "metrics_fit witness_metrics" "in_minute 0 5"
  "minute_start 30000000 = 0" "minute_start 0 = 0"
  by (simp_all add: metrics_fit_def witness_metrics_def bigint_def in_minute_iff in_minute_def minute_start_def MINUTE_def)

lemma witness_empty: "stored k (ug_llm_rollups witness_usage_db) = None"
  by (simp add: witness_usage_db_def)

theorem rollup_exact_witness:
  "(\<exists>n db'. llm_aggregate_minute witness_usage_env 30000000 witness_usage_db = Inr (n, db') \<and>
      stored (7, 0) (ug_llm_rollups db') = Some (1, witness_metrics) \<and> stored (8, 0) (ug_llm_rollups db') = None) \<and>
   (\<exists>e. llm_aggregate_minute witness_usage_env 0 overflow_usage_db = Inl e)"
proof (intro conjI)
  have one: "length (llm_usage_of witness_usage_db 7 0) = 1" "sum_metrics (llm_usage_of witness_usage_db 7 0) = witness_metrics"
    using sum_metrics_one [of "llm_usage_of witness_usage_db 7 0"] by (simp_all add: witness_usage_of witness_fits)
  have none: "c \<noteq> 7 \<Longrightarrow> llm_usage_of witness_usage_db c m = []" for c m
    using witness_usage_of(1) [of c m] by simp
  have fits: "\<not> (let mine = llm_usage_of witness_usage_db c (minute_start 30000000) in
      mine \<noteq> [] \<and> \<not> (bigint (int (length mine)) \<and> metrics_fit (sum_metrics mine)))" for c
    by (cases "c = 7") (simp_all add: none one witness_fits bigint_def)
  obtain n db' where r: "llm_aggregate_minute witness_usage_env 30000000 witness_usage_db = Inr (n, db')"
    using rollup_exact [OF witness_rollups(1,2), where env = witness_usage_env and minute = 30000000] fits
    by (cases "llm_aggregate_minute witness_usage_env 30000000 witness_usage_db") auto
  have "stored (c, 0) (ug_llm_rollups db') =
      (let mine = llm_usage_of witness_usage_db c 0 in if mine \<noteq> [] then Some (length mine, sum_metrics mine) else None)" for c
    using rollup_exact [OF witness_rollups(1,2), where env = witness_usage_env and minute = 30000000] witness_empty
    by (simp add: r witness_fits Let_def)
  from this [of 7] this [of 8] show "\<exists>n db'. llm_aggregate_minute witness_usage_env 30000000 witness_usage_db = Inr (n, db') \<and>
      stored (7, 0) (ug_llm_rollups db') = Some (1, witness_metrics) \<and> stored (8, 0) (ug_llm_rollups db') = None"
    using r one by (auto simp: none Let_def)
  have two: "llm_usage_of overflow_usage_db 7 0 \<noteq> []" "\<not> metrics_fit (sum_metrics (llm_usage_of overflow_usage_db 7 0))"
    using sum_metrics_two [of "llm_usage_of overflow_usage_db 7 0"] by (simp_all add: witness_usage_of witness_fits metrics_fit_def bigint_def)
  show "\<exists>e. llm_aggregate_minute witness_usage_env 0 overflow_usage_db = Inl e"
  proof (cases "llm_aggregate_minute witness_usage_env 0 overflow_usage_db")
    case (Inr p)
    then have "let mine = llm_usage_of overflow_usage_db 7 0 in mine = [] \<or> bigint (int (length mine)) \<and> metrics_fit (sum_metrics mine)"
      using rollup_exact [OF witness_rollups(3,4), where env = witness_usage_env and minute = 0] by (auto simp: witness_fits split: prod.splits)
    then show ?thesis using two by (simp add: Let_def)
  qed blast
qed

text \<open>C27. Which minutes the aggregator reaches. If its sweeps start at most a minute apart, every minute from that
  of the first sweep to that of the last is rolled up exactly, but for the minutes in which some user's sums do not fit the columns:
  those keep what was stored before, for every user, since a failed minute is not tried again. But the background loop sleeps for
  its interval after each sweep, so with the default interval of a minute the sweeps drift: once
  they have taken three minutes altogether, some whole minute of the span has been skipped, and
  whatever was used in it is in no roll-up.\<close>

theorem rollup_coverage:
  assumes "ticks \<noteq> []"
  shows "(sorted_wrt (\<lambda>a b. a \<le> b) (map snd ticks) \<longrightarrow>
      (\<forall>i. Suc i < length ticks \<longrightarrow> snd (ticks ! Suc i) - snd (ticks ! i) \<le> MINUTE) \<longrightarrow>
      (\<forall>c m. m mod MINUTE = 0 \<and> minute_start (lagged 1 (snd (hd ticks))) \<le> m \<and> m \<le> minute_start (lagged 1 (snd (last ticks))) \<longrightarrow>
        stored (c, m) (ug_llm_rollups (llm_ticks ticks db)) =
          (if llm_usage_of db c m \<noteq> [] \<and>
              (\<forall>u. let mine = llm_usage_of db u m in mine = [] \<or> bigint (int (length mine)) \<and> metrics_fit (sum_metrics mine))
           then Some (length (llm_usage_of db c m), sum_metrics (llm_usage_of db c m)) else stored (c, m) (ug_llm_rollups db)))) \<and>
    (\<forall>start interval durations. map snd ticks = sweep_times start interval durations \<and> MINUTE \<le> interval \<and>
        3 * MINUTE \<le> sum_list (butlast durations) \<longrightarrow>
      (\<exists>m. m mod MINUTE = 0 \<and> minute_start (lagged 1 (snd (hd ticks))) < m \<and> m < minute_start (lagged 1 (snd (last ticks))) \<and>
        (\<forall>c. stored (c, m) (ug_llm_rollups (llm_ticks ticks db)) = stored (c, m) (ug_llm_rollups db))))"
proof (intro conjI impI allI)
  define ts where "ts = map (lagged 1) (map snd ticks)"
  have ends: "hd ts = lagged 1 (snd (hd ticks))" "last ts = lagged 1 (snd (last ticks))" "ts \<noteq> []" "length ts = length ticks"
    using assms by (simp_all add: ts_def hd_map last_map)
  have ms: "(\<exists>t \<in> snd ` set ticks. m = minute_start (lagged 1 t)) \<longleftrightarrow> (\<exists>t \<in> set ts. minute_start t = m)" for m
    by (auto simp: ts_def)
  have swept: "stored (c, m) (ug_llm_rollups (llm_ticks ticks db)) =
      (if (\<exists>t \<in> set ts. minute_start t = m) \<and> llm_minute_fits db m \<and> llm_usage_of db c m \<noteq> []
       then Some (length (llm_usage_of db c m), sum_metrics (llm_usage_of db c m)) else stored (c, m) (ug_llm_rollups db))" for c m
    using llm_ticks_stored [of ticks db c m] unfolding ms by (simp add: Let_def)
  {
    fix c m
    assume srt: "sorted_wrt (\<lambda>a b. a \<le> b) (map snd ticks)"
      and step: "\<forall>i. Suc i < length ticks \<longrightarrow> snd (ticks ! Suc i) - snd (ticks ! i) \<le> MINUTE"
      and m: "m mod MINUTE = 0 \<and> minute_start (lagged 1 (snd (hd ticks))) \<le> m \<and> m \<le> minute_start (lagged 1 (snd (last ticks)))"
    have "sorted_wrt (\<lambda>a b. a \<le> b) ts" using srt unfolding ts_def sorted_wrt_map [of _ "lagged 1"] by (simp add: lagged_def)
    moreover have "ts ! Suc i - ts ! i \<le> MINUTE" if "Suc i < length ts" for i
      using step that by (simp add: ts_def lagged_def)
    ultimately have "\<exists>t \<in> set ts. minute_start t = m" using m ends by (intro dense_ticks) simp_all
    then show "stored (c, m) (ug_llm_rollups (llm_ticks ticks db)) =
          (if llm_usage_of db c m \<noteq> [] \<and>
              (\<forall>u. let mine = llm_usage_of db u m in mine = [] \<or> bigint (int (length mine)) \<and> metrics_fit (sum_metrics mine))
           then Some (length (llm_usage_of db c m), sum_metrics (llm_usage_of db c m)) else stored (c, m) (ug_llm_rollups db))"
      unfolding swept llm_minute_fits_def minute_fits_def llm_usage_of_def by (simp cong: conj_cong)
  next
    fix start interval durations
    assume loop: "map snd ticks = sweep_times start interval durations \<and> MINUTE \<le> interval \<and> 3 * MINUTE \<le> sum_list (butlast durations)"
    have ne: "durations \<noteq> []" using loop assms by auto
    have len: "length durations = length ticks" using arg_cong [of _ _ length, OF loop [THEN conjunct1]] by simp
    have "last ts - hd ts = snd (last ticks) - snd (hd ticks)" by (simp add: ends lagged_def)
    also have "\<dots> = last (map snd ticks) - hd (map snd ticks)" using assms by (simp add: hd_map last_map)
    also have "\<dots> = interval * int (length durations - 1) + sum_list (butlast durations)"
      using sweep_times_span [OF ne] loop by simp
    also have "\<dots> \<ge> MINUTE * int (length durations - 1) + 3 * MINUTE"
      using loop by (intro add_mono mult_right_mono) simp_all
    finally have "MINUTE * int (length ts + 2) \<le> last ts - hd ts"
      using ne by (cases durations) (simp_all add: ends(4) len [symmetric] algebra_simps)
    from sparse_ticks [OF ends(3) this]
    obtain m where m: "m mod MINUTE = 0" "minute_start (hd ts) < m" "m < minute_start (last ts)" "m \<notin> minute_start ` set ts"
      by (elim exE conjE) (rule that, assumption+)
    have "stored (c, m) (ug_llm_rollups (llm_ticks ticks db)) = stored (c, m) (ug_llm_rollups db)" for c
      unfolding swept using m(4) by auto
    then show "\<exists>m. m mod MINUTE = 0 \<and> minute_start (lagged 1 (snd (hd ticks))) < m \<and> m < minute_start (lagged 1 (snd (last ticks))) \<and>
        (\<forall>c. stored (c, m) (ug_llm_rollups (llm_ticks ticks db)) = stored (c, m) (ug_llm_rollups db))"
      using m(1-3) unfolding ends by (intro exI [of _ m] conjI allI)
  }
qed

definition ticks_at :: "int list \<Rightarrow> (usage_env \<times> datetime) list" where
  "ticks_at = map (Pair witness_usage_env)"

theorem rollup_coverage_witness:
  "stored (7, 0) (ug_llm_rollups (llm_ticks (ticks_at [30 * 1000000, 90 * 1000000]) witness_usage_db)) = Some (1, witness_metrics) \<and>
   stored (7, 0) (ug_llm_rollups (llm_ticks (ticks_at [30 * 1000000, 90 * 1000000]) overflow_usage_db)) = None \<and>
   (\<exists>m. 0 < m \<and> m < 4 * MINUTE \<and> (\<forall>c. stored (c, m) (ug_llm_rollups (llm_ticks (ticks_at [MINUTE, 5 * MINUTE]) witness_usage_db)) =
      stored (c, m) (ug_llm_rollups witness_usage_db)))"
proof (intro conjI)
  let ?ticks = "ticks_at [30 * 1000000, 90 * 1000000]"
  have spaced: "?ticks \<noteq> []" "sorted_wrt (\<lambda>a b. a \<le> b) (map snd ?ticks)"
      "\<forall>i. Suc i < length ?ticks \<longrightarrow> snd (?ticks ! Suc i) - snd (?ticks ! i) \<le> MINUTE"
      "(0::int) mod MINUTE = 0 \<and> minute_start (lagged 1 (snd (hd ?ticks))) \<le> 0 \<and> 0 \<le> minute_start (lagged 1 (snd (last ?ticks)))"
    by (simp_all add: ticks_at_def MINUTE_def lagged_def minute_start_def nth_Cons')
  note covered = rollup_coverage [OF spaced(1), THEN conjunct1, rule_format, OF spaced(2) spaced(3) [rule_format] spaced(4)]
  have one: "length (llm_usage_of witness_usage_db 7 0) = 1" "sum_metrics (llm_usage_of witness_usage_db 7 0) = witness_metrics"
    using sum_metrics_one [of "llm_usage_of witness_usage_db 7 0"] by (simp_all add: witness_usage_of witness_fits)
  have none: "c \<noteq> 7 \<Longrightarrow> llm_usage_of witness_usage_db c m = []" for c m
    using witness_usage_of(1) [of c m] by simp
  have "\<forall>u. let mine = llm_usage_of witness_usage_db u 0 in mine = [] \<or> bigint (int (length mine)) \<and> metrics_fit (sum_metrics mine)"
  proof
    fix u
    show "let mine = llm_usage_of witness_usage_db u 0 in mine = [] \<or> bigint (int (length mine)) \<and> metrics_fit (sum_metrics mine)"
      by (cases "u = 7") (simp_all add: none one witness_fits bigint_def)
  qed
  then show "stored (7, 0) (ug_llm_rollups (llm_ticks ?ticks witness_usage_db)) = Some (1, witness_metrics)"
    using covered [of 7 witness_usage_db] one by auto
  have "\<not> (\<forall>u. let mine = llm_usage_of overflow_usage_db u 0 in mine = [] \<or> bigint (int (length mine)) \<and> metrics_fit (sum_metrics mine))"
    using sum_metrics_two [of "llm_usage_of overflow_usage_db 7 0"]
    by (auto intro!: exI [of _ 7] simp: witness_usage_of witness_fits metrics_fit_def bigint_def Let_def)
  then show "stored (7, 0) (ug_llm_rollups (llm_ticks ?ticks overflow_usage_db)) = None"
    using covered [of 7 overflow_usage_db] by (simp add: overflow_usage_db_def witness_usage_db_def)
  let ?slow = "ticks_at [MINUTE, 5 * MINUTE]"
  have slow: "?slow \<noteq> []" "map snd ?slow = sweep_times 0 MINUTE [3 * MINUTE, 0] \<and> MINUTE \<le> MINUTE \<and> 3 * MINUTE \<le> sum_list (butlast [3 * MINUTE, 0])"
    by (simp_all add: ticks_at_def)
  show "\<exists>m. 0 < m \<and> m < 4 * MINUTE \<and> (\<forall>c. stored (c, m) (ug_llm_rollups (llm_ticks ?slow witness_usage_db)) =
      stored (c, m) (ug_llm_rollups witness_usage_db))"
    using rollup_coverage [OF slow(1), THEN conjunct2, rule_format, OF slow(2), of witness_usage_db]
    by (simp add: ticks_at_def lagged_def minute_start_def MINUTE_def) blast
qed

end
