(* ===== verification/IsoTime.thy ===== *)
theory IsoTime
  imports Calendar
begin

text \<open>
  \<open>date.isoformat()\<close>, \<open>datetime.isoformat()\<close> of an aware UTC time, and \<open>datetime.fromisoformat\<close> for
  times with a UTC offset in the extended format. Other texts \<open>fromisoformat\<close> accepts (basic
  format, week dates, naive times) are outside the model: the parser answers \<open>None\<close> for them as
  for malformed text.
\<close>

definition DAY_MICROS :: int where
  "DAY_MICROS = 86400000000"

definition iso_date :: "int \<Rightarrow> string" where
  "iso_date ordinal =
     (case ord2ymd ordinal of (year, month, day) \<Rightarrow>
        two_digits (year div 100) @ two_digits (year mod 100) @ CHR ''-'' # two_digits month @ CHR ''-'' # two_digits day)"

text \<open>The time of the day; microseconds are written when they are not zero.\<close>

definition iso_time :: "int \<Rightarrow> string" where
  "iso_time micros =
     (let s = micros div 1000000; us = micros mod 1000000 in
      two_digits (s div 3600) @ CHR '':'' # two_digits (s div 60 mod 60) @ CHR '':'' # two_digits (s mod 60) @
      (if us = 0 then []
       else CHR ''.'' # two_digits (us div 10000) @ two_digits (us div 100 mod 100) @ two_digits (us mod 100)))"

definition isoformat :: "datetime \<Rightarrow> string" where
  "isoformat t = iso_date (day_of t) @ CHR ''T'' # iso_time (t mod DAY_MICROS) @ ''+00:00''"

section \<open>Parsing\<close>

fun parse2 :: "string \<Rightarrow> (int \<times> string) option" where
  "parse2 (a # b # rest) =
     (case (digit_value a, digit_value b) of (Some p, Some q) \<Rightarrow> Some (10 * p + q, rest) | _ \<Rightarrow> None)"
| "parse2 _ = None"

definition expect :: "char \<Rightarrow> string \<Rightarrow> string option" where
  "expect c s = (case s of d # rest \<Rightarrow> if d = c then Some rest else None | [] \<Rightarrow> None)"

definition parse_date :: "string \<Rightarrow> (int \<times> string) option" where
  "parse_date s =
     Option.bind (parse2 s) (\<lambda>(century, s). Option.bind (parse2 s) (\<lambda>(year, s). Option.bind (expect (CHR ''-'') s) (\<lambda>s.
     Option.bind (parse2 s) (\<lambda>(month, s). Option.bind (expect (CHR ''-'') s) (\<lambda>s. Option.bind (parse2 s) (\<lambda>(day, s).
       let y = 100 * century + year
       in if valid_date y month day then Some (ymd2ord y month day, s) else None))))))"

definition parse_micros :: "string \<Rightarrow> (int \<times> string) option" where
  "parse_micros s =
     (case expect (CHR ''.'') s of
        None \<Rightarrow> Some (0, s)
      | Some s \<Rightarrow>
          Option.bind (parse2 s) (\<lambda>(a, s). Option.bind (parse2 s) (\<lambda>(b, s). Option.bind (parse2 s) (\<lambda>(c, s).
            Some (10000 * a + 100 * b + c, s)))))"

definition parse_time :: "string \<Rightarrow> (int \<times> string) option" where
  "parse_time s =
     Option.bind (parse2 s) (\<lambda>(h, s). Option.bind (expect (CHR '':'') s) (\<lambda>s. Option.bind (parse2 s) (\<lambda>(m, s).
     Option.bind (expect (CHR '':'') s) (\<lambda>s. Option.bind (parse2 s) (\<lambda>(sec, s). Option.bind (parse_micros s) (\<lambda>(us, s).
       if h < 24 \<and> m < 60 \<and> sec < 60 then Some ((h * 3600 + m * 60 + sec) * 1000000 + us, s) else None))))))"

definition parse_offset :: "string \<Rightarrow> int option" where
  "parse_offset s =
     (case s of
        [] \<Rightarrow> None
      | c # s \<Rightarrow>
          if c = CHR ''Z'' \<and> s = [] then Some 0
          else if c = CHR ''+'' \<or> c = CHR ''-'' then
            Option.bind (parse2 s) (\<lambda>(h, s). Option.bind (expect (CHR '':'') s) (\<lambda>s. Option.bind (parse2 s) (\<lambda>(m, s).
              if s = [] \<and> h < 24 \<and> m < 60
              then Some ((if c = CHR ''-'' then -1 else 1) * ((h * 60 + m) * 60000000)) else None)))
          else None)"

text \<open>The instant; any character may separate date and time.\<close>

definition fromisoformat :: "string \<Rightarrow> datetime option" where
  "fromisoformat s =
     Option.bind (parse_date s) (\<lambda>(day, s).
       case s of
         [] \<Rightarrow> None
       | _ # s \<Rightarrow>
           Option.bind (parse_time s) (\<lambda>(micros, s). Option.bind (parse_offset s) (\<lambda>offset.
             Some ((day - 719163) * DAY_MICROS + micros - offset))))"

section \<open>Round trip\<close>

lemma parse2_digits [simp]: "0 \<le> i \<Longrightarrow> i < 100 \<Longrightarrow> parse2 (two_digits i @ s) = Some (i, s)"
proof -
  assume "0 \<le> i" "i < 100"
  then have "nat (i div 10) < 10" "nat (i mod 10) < 10" "0 \<le> i div 10" by auto
  then show ?thesis by (simp add: two_digits_def)
qed

lemma expect_Cons [simp]: "expect c (c # s) = Some s" "d \<noteq> c \<Longrightarrow> expect c (d # s) = None"
  by (simp_all add: expect_def)

text \<open>The ordinals \<open>datetime\<close> represents.\<close>

definition valid_day :: "int \<Rightarrow> bool" where
  "valid_day n = (1 \<le> n \<and> n \<le> 3652059)"

lemma valid_day_parts:
  assumes "valid_day n" "ord2ymd n = (y, m, d)"
  shows "ymd2ord y m d = n" "valid_date y m d" "m < 100" "d < 100"
proof -
  note o = ord2ymd_correct [OF _ assms(2)]
  have n: "1 \<le> n" "n \<le> 3652059" using assms(1) by (simp_all add: valid_day_def)
  have "days_before_year y + 1 \<le> n"
    using o [OF n(1)] by (auto simp: ymd2ord_def days_before_month_def DAYS_BEFORE_MONTH_def nth_Cons' split: if_splits)
  then have "\<not> 10000 \<le> y" using n days_before_year_mono [of 10000 y] by (auto simp: days_before_year_def Let_def)
  then show "ymd2ord y m d = n" "valid_date y m d" "m < 100" "d < 100"
    using o [OF n(1)] by (auto simp: valid_date_def days_in_month_def DAYS_IN_MONTH_def nth_Cons' split: if_splits)
qed

lemma parse_iso_date: "valid_day n \<Longrightarrow> parse_date (iso_date n @ s) = Some (n, s)"
proof -
  assume n: "valid_day n"
  obtain y m d where e: "ord2ymd n = (y, m, d)" by (cases "ord2ymd n")
  note v = valid_day_parts [OF n e]
  then have y: "0 \<le> y" "y < 10000" "0 \<le> m" "0 \<le> d" by (auto simp: valid_date_def)
  then have "0 \<le> y div 100" "y div 100 < 100" by auto
  moreover have "100 * (y div 100) + y mod 100 = y" by simp
  ultimately show ?thesis using v y by (simp add: parse_date_def iso_date_def e Let_def)
qed

lemma iso_date_inj: "valid_day m \<Longrightarrow> valid_day n \<Longrightarrow> iso_date m = iso_date n \<longleftrightarrow> m = n"
  by (metis Pair_inject option.inject parse_iso_date)

lemma parse_iso_time:
  assumes "0 \<le> micros" "micros < DAY_MICROS" "s = [] \<or> hd s \<noteq> CHR ''.''"
  shows "parse_time (iso_time micros @ s) = Some (micros, s)"
proof -
  define t us where "t = micros div 1000000" and "us = micros mod 1000000"
  have t: "0 \<le> t" "t < 86400" "0 \<le> us" "us < 1000000" "micros = 1000000 * t + us"
    using assms(1,2) by (auto simp: t_def us_def DAY_MICROS_def)
  define h m sec where "h = t div 3600" and "m = t div 60 mod 60" and "sec = t mod 60"
  have "t div 60 = 60 * (t div 60 div 60) + m" "t = 60 * (t div 60) + sec" by (simp_all add: m_def sec_def)
  moreover have "t div 60 div 60 = h" by (simp add: h_def zdiv_zmult2_eq [symmetric])
  ultimately have th: "t = h * 3600 + m * 60 + sec" by simp
  have b: "0 \<le> h" "h < 24" "0 \<le> m" "m < 60" "0 \<le> sec" "sec < 60" using t by (auto simp: h_def m_def sec_def)
  define a b' c where "a = us div 10000" and "b' = us div 100 mod 100" and "c = us mod 100"
  have "us div 100 = 100 * (us div 100 div 100) + b'" "us = 100 * (us div 100) + c" by (simp_all add: b'_def c_def)
  moreover have "us div 100 div 100 = a" by (simp add: a_def zdiv_zmult2_eq [symmetric])
  ultimately have u: "us = 10000 * a + 100 * b' + c" by simp
  have ub: "0 \<le> a" "a < 100" "0 \<le> b'" "b' < 100" "0 \<le> c" "c < 100" using t by (auto simp: a_def b'_def c_def)
  have none: "expect (CHR ''.'') s = None" using assms(3) by (cases s) (auto simp: expect_def)
  have "iso_time micros = two_digits h @ CHR '':'' # two_digits m @ CHR '':'' # two_digits sec @
      (if us = 0 then [] else CHR ''.'' # two_digits a @ two_digits b' @ two_digits c)"
    by (simp add: iso_time_def Let_def t_def us_def h_def m_def sec_def a_def b'_def c_def)
  moreover have "parse_micros ((if us = 0 then [] else CHR ''.'' # two_digits a @ two_digits b' @ two_digits c) @ s) = Some (us, s)"
    using ub u none by (simp add: parse_micros_def)
  ultimately show ?thesis using b t th by (simp add: parse_time_def)
qed

lemma fromiso_iso:
  assumes "valid_day (day_of t)"
  shows "fromisoformat (isoformat t) = Some t"
proof -
  have m: "0 \<le> t mod DAY_MICROS" "t mod DAY_MICROS < DAY_MICROS" by (simp_all add: DAY_MICROS_def)
  have z: "parse_offset ''+00:00'' = Some 0" by (simp add: parse_offset_def digit_value_def expect_def)
  have "parse_time (iso_time (t mod DAY_MICROS) @ ''+00:00'') = Some (t mod DAY_MICROS, ''+00:00'')"
    by (rule parse_iso_time [OF m]) simp
  moreover have "(day_of t - 719163) * DAY_MICROS + t mod DAY_MICROS = t" by (simp add: day_of_def DAY_MICROS_def)
  ultimately show ?thesis using parse_iso_date [OF assms] by (simp add: fromisoformat_def isoformat_def z)
qed

end
