(* ===== verification/EventService.thy ===== *)
theory EventService
  imports GovernedLaws Partitions Json IsoTime
begin

text \<open>
  \<open>event/event_service.py\<close>, \<open>event/event_store.py\<close> and the handlers of \<open>event/event_router.py\<close> that
  write: events with a capped body in PostgreSQL, the full body in an object store, and the
  reconciliation that restores rows from the store. What was written to the store stays there when
  the database transaction is rolled back, so every operation returns the store beside its result.
\<close>

section \<open>State\<close>

type_synonym json_dict = "(string \<times> json) list"

record event =
  ev_id :: uuid
  ev_timestamp :: datetime
  ev_conversation_record_id :: uuid
  ev_kind :: string
  ev_body :: json_dict
  ev_size_bytes :: int

record event_db =
  ed_events :: "event parted"
  ed_conversations :: "uuid list"

definition event_day :: "event \<Rightarrow> int" where
  "event_day e = day_of (ev_timestamp e)"

definition event_attrs :: "event \<Rightarrow> row" where
  "event_attrs e a =
     (if a = ''id'' then VUuid (ev_id e)
      else if a = ''timestamp'' then VTime (ev_timestamp e) (Some 0)
      else if a = ''conversation_record_id'' then VUuid (ev_conversation_record_id e)
      else if a = ''kind'' then VStr (ev_kind e)
      else if a = ''body'' then VList []
      else if a = ''size_bytes'' then VInt (ev_size_bytes e)
      else VNone)"

datatype event_error =
    ConversationRecordNotFound
  | EventBodyNotFound
  | EventErr svc_error

definition ev_svc :: "svc_error + 'a \<Rightarrow> event_error + 'a" where
  "ev_svc r = (case r of Inl e \<Rightarrow> Inl (EventErr e) | Inr x \<Rightarrow> Inr x)"

lemma ev_svc_simps [simp]: "ev_svc (Inr x) = Inr x" "ev_svc (Inl e) = Inl (EventErr e)"
  by (simp_all add: ev_svc_def)

section \<open>The body store\<close>

text \<open>
  The filesystem store: disabled without a base directory, otherwise the objects it holds, by the
  date and the event id their path is made of. The store only ever writes paths of that form.
\<close>

type_synonym body_store = "((int \<times> uuid) \<times> string) list option"

definition object_key :: "uuid \<Rightarrow> int \<Rightarrow> string" where
  "object_key event_id event_date =
     iso_date event_date @ ''/'' @ take 2 (uuid_str event_id) @ ''/'' @ uuid_str event_id @ ''.json''"

definition store_body :: "uuid \<Rightarrow> int \<Rightarrow> string \<Rightarrow> body_store \<Rightarrow> body_store" where
  "store_body event_id event_date payload store = map_option (AList.update (event_date, event_id) payload) store"

definition load_body :: "uuid \<Rightarrow> int \<Rightarrow> body_store \<Rightarrow> string option" where
  "load_body event_id event_date store =
     (case store of None \<Rightarrow> None | Some files \<Rightarrow> map_of files (event_date, event_id))"

definition delete_day :: "int \<Rightarrow> body_store \<Rightarrow> nat \<times> body_store" where
  "delete_day event_date store =
     (case store of
        None \<Rightarrow> (0, None)
      | Some files \<Rightarrow>
          (length (filter (\<lambda>f. fst (fst f) = event_date) files), Some (filter (\<lambda>f. fst (fst f) \<noteq> event_date) files)))"

text \<open>The objects in the order of their paths: by date, then by id.\<close>

definition iter_envelopes :: "body_store \<Rightarrow> (uuid \<times> int \<times> string) list" where
  "iter_envelopes store =
     (case store of
        None \<Rightarrow> []
      | Some files \<Rightarrow> map (\<lambda>((d, k), payload). (k, d, payload)) (sort_key (\<lambda>f. fst (fst f)) (sort_key (\<lambda>f. snd (fst f)) files)))"

section \<open>Payloads and envelopes\<close>

definition PREVIEW_BYTES :: nat where
  "PREVIEW_BYTES = 4096"

definition serialize :: "json_dict \<Rightarrow> string" where
  "serialize payload = dumps (JObj payload)"

text \<open>The output of \<open>json.dumps\<close> is ASCII, so the preview decodes byte by byte.\<close>

definition stub_or_payload :: "string \<Rightarrow> json_dict \<Rightarrow> nat \<Rightarrow> json_dict" where
  "stub_or_payload serialized payload cap =
     (if length serialized \<le> cap then payload
      else [(''_truncated'', JBool True), (''original_size_bytes'', JInt (int (length serialized))),
            (''preview'', JStr (take PREVIEW_BYTES serialized))])"

definition envelope_payload :: "event \<Rightarrow> json_dict \<Rightarrow> string" where
  "envelope_payload e full_body =
     dumps (JObj [(''id'', JStr (uuid_str (ev_id e))),
       (''conversation_record_id'', JStr (uuid_str (ev_conversation_record_id e))),
       (''kind'', JStr (ev_kind e)), (''timestamp'', JStr (isoformat (ev_timestamp e))),
       (''size_bytes'', JInt (ev_size_bytes e)), (''body'', JObj full_body)])"

text \<open>Python's \<open>str(value)\<close>, and the truth value of a JSON value.\<close>

fun json_str :: "json option \<Rightarrow> pyerr + string" where
  "json_str None = Inr ''None''"
| "json_str (Some JNull) = Inr ''None''"
| "json_str (Some (JStr s)) = Inr s"
| "json_str (Some (JInt i)) = Inr (dec_of_int i)"
| "json_str (Some (JBool b)) = Inr (if b then ''True'' else ''False'')"
| "json_str (Some _) = Inl NotModelled"

fun truthy :: "json option \<Rightarrow> bool" where
  "truthy None = False"
| "truthy (Some JNull) = False"
| "truthy (Some (JBool b)) = b"
| "truthy (Some (JInt i)) = (i \<noteq> 0)"
| "truthy (Some (JFloat token)) = (token \<notin> {''0.0'', ''-0.0''})"
| "truthy (Some (JStr s)) = (s \<noteq> [])"
| "truthy (Some (JArr xs)) = (xs \<noteq> [])"
| "truthy (Some (JObj ms)) = (ms \<noteq> [])"

definition event_from_envelope :: "json_dict \<Rightarrow> uuid \<Rightarrow> int \<Rightarrow> nat \<Rightarrow> pyerr + event" where
  "event_from_envelope envelope event_id event_date body_cap_bytes =
     (let body = (case map_of envelope ''body'' of Some (JObj b) \<Rightarrow> b | _ \<Rightarrow> []);
          serialized = serialize body
      in bindR (case map_of envelope ''timestamp'' of
                  Some (JStr raw) \<Rightarrow> (case fromisoformat raw of None \<Rightarrow> Inl ValueErr | Some t \<Rightarrow> Inr t)
                | _ \<Rightarrow> Inr ((event_date - 719163) * DAY_MICROS)) (\<lambda>timestamp.
         bindR (json_str (map_of envelope ''conversation_record_id'')) (\<lambda>raw.
         bindR (case uuid_parse raw of None \<Rightarrow> Inl ValueErr | Some k \<Rightarrow> Inr k) (\<lambda>conversation.
         bindR (case map_of envelope ''kind'' of None \<Rightarrow> Inr ''backfill'' | Some v \<Rightarrow> json_str (Some v)) (\<lambda>kind.
           Inr \<lparr>ev_id = event_id, ev_timestamp = timestamp, ev_conversation_record_id = conversation, ev_kind = kind,
                ev_body = stub_or_payload serialized body body_cap_bytes,
                ev_size_bytes = int (length serialized)\<rparr>)))))"

section \<open>Operations\<close>

text \<open>
  The service: its filter, its store, if any, and its cap; the database's answers to a request: the
  clock, the generated id, the engine, and whether writing to the store works. \<open>ee_jsonb\<close> is what a \<open>JSONB\<close> column
  gives back for the object it was sent, with PostgreSQL's order of the keys and form of the numbers, or \<open>None\<close> where
  PostgreSQL refuses it, as it does a NaN or a NUL character.
\<close>

record event_env =
  ee_engine :: engine
  ee_tables :: db
  ee_clock :: datetime
  ee_uuid :: uuid
  ee_store_ok :: bool
  ee_cap :: nat
  ee_jsonb :: "json_dict \<Rightarrow> json_dict option"

record event_create =
  ec_kind :: string
  ec_body :: json_dict

text \<open>
  A row outside the range of \<open>size_bytes\<close>, an \<open>integer\<close>, is refused by the driver, a body that \<open>JSONB\<close> cannot hold by
  the server. The answer is the row as a refresh reads it back, with the body in the form of the column.
\<close>

definition insert_event :: "(json_dict \<Rightarrow> json_dict option) \<Rightarrow> event \<Rightarrow> event_db \<Rightarrow> svc_error + event \<times> event_db" where
  "insert_event jsonb e db =
     (if 2 ^ 31 \<le> ev_size_bytes e then Inl (Raised500 ValueErr)
      else case jsonb (ev_body e) of
        None \<Rightarrow> Inl (Raised500 ValueErr)
      | Some body \<Rightarrow>
          if (\<exists>x \<in> set (pt_rows (ed_events db)). ev_id x = ev_id e \<and> ev_timestamp x = ev_timestamp e)
          then Inl (IntegrityErr ''unique'')
          else if ev_conversation_record_id e \<notin> set (ed_conversations db) then Inl (IntegrityErr ''foreign key'')
          else
            (case insert_row event_day (e\<lparr>ev_body := body\<rparr>) (ed_events db) of
               Inl _ \<Rightarrow> Inl (IntegrityErr ''no partition'')
             | Inr table \<Rightarrow> Inr (e\<lparr>ev_body := body\<rparr>, db\<lparr>ed_events := table\<rparr>)))"

definition new_event :: "event_env \<Rightarrow> uuid \<Rightarrow> event_create \<Rightarrow> datetime option \<Rightarrow> event" where
  "new_event env conversation payload timestamp =
     (let serialized = serialize (ec_body payload) in
      \<lparr>ev_id = ee_uuid env, ev_timestamp = (case timestamp of None \<Rightarrow> ee_clock env | Some t \<Rightarrow> t),
       ev_conversation_record_id = conversation, ev_kind = ec_kind payload,
       ev_body = stub_or_payload serialized (ec_body payload) (ee_cap env), ev_size_bytes = int (length serialized)\<rparr>)"

text \<open>
  The id and the time are not set yet when the scope is checked. The envelope in the store carries the body as it was
  sent.
\<close>

definition create_event ::
    "event_env \<Rightarrow> sfilter \<Rightarrow> uuid \<Rightarrow> event_create \<Rightarrow> datetime option \<Rightarrow> event_db \<Rightarrow> body_store option \<Rightarrow>
     (event_error + event \<times> event_db) \<times> body_store option" where
  "create_event env perm_filter conversation payload timestamp db store =
     (if conversation \<notin> set (ed_conversations db) then (Inl ConversationRecordNotFound, store)
      else
        (let e = new_event env conversation payload timestamp in
         case bindR (check_scope perm_filter ((event_attrs e)(''timestamp'' := VNone))) (\<lambda>_. insert_event (ee_jsonb env) e db) of
           Inl err \<Rightarrow> (Inl (EventErr err), store)
         | Inr (r, db1) \<Rightarrow>
             (Inr (r, db1),
              if ee_store_ok env
              then map_option (store_body (ev_id r) (event_day r) (envelope_payload r (ec_body payload))) store
              else store)))"

definition get_event :: "event_env \<Rightarrow> sfilter \<Rightarrow> uuid \<Rightarrow> uuid \<Rightarrow> event_db \<Rightarrow> event_error + event" where
  "get_event env perm_filter conversation event_id db =
     ev_svc (scoped_get (ee_engine env) (ee_tables env) perm_filter event_attrs ev_id
       (filter (\<lambda>e. ev_conversation_record_id e = conversation) (pt_rows (ed_events db))) event_id)"

text \<open>A page ordered by time and id; a cursor of a full page is its last row's.\<close>

definition after_event :: "(datetime \<times> uuid) option \<Rightarrow> event \<Rightarrow> bool" where
  "after_event cursor e =
     (case cursor of None \<Rightarrow> True | Some (t, k) \<Rightarrow> t < ev_timestamp e \<or> ev_timestamp e = t \<and> k < ev_id e)"

definition search_events ::
    "event_env \<Rightarrow> sfilter \<Rightarrow> uuid \<Rightarrow> (datetime \<times> uuid) option \<Rightarrow> nat \<Rightarrow> sfilter option \<Rightarrow> event_db \<Rightarrow>
     event_error + event list \<times> (datetime \<times> uuid) option" where
  "search_events env perm_filter conversation cursor limit search_filter db =
     ev_svc
       (bindR (svc_py (filter_sql perm_filter)) (\<lambda>cond.
        bindR (search_cond search_filter) (\<lambda>extra.
          let page = take limit (filter (\<lambda>e. ev_conversation_record_id e = conversation \<and>
                where_holds (ee_engine env) (ee_tables env) cond (event_attrs e) \<and>
                where_holds (ee_engine env) (ee_tables env) extra (event_attrs e) \<and> after_event cursor e)
              (sort_key ev_timestamp (sort_key ev_id (pt_rows (ed_events db)))))
          in if length page = limit
             then (if page = [] then Inl (Raised500 IndexErr)
                   else Inr (page, Some (ev_timestamp (last page), ev_id (last page))))
             else Inr (page, None))))"

definition get_body ::
    "event_env \<Rightarrow> sfilter \<Rightarrow> uuid \<Rightarrow> uuid \<Rightarrow> event_db \<Rightarrow> body_store option \<Rightarrow> event_error + string" where
  "get_body env perm_filter conversation event_id db store =
     bindR (get_event env perm_filter conversation event_id db) (\<lambda>e.
       if \<not> truthy (map_of (ev_body e) ''_truncated'') then Inr (serialize (ev_body e))
       else
         (case store of
            None \<Rightarrow> Inl EventBodyNotFound
          | Some s \<Rightarrow>
              (case load_body event_id (event_day e) s of
                 None \<Rightarrow> Inl EventBodyNotFound
               | Some stored \<Rightarrow>
                   (case loads stored of
                      None \<Rightarrow> Inl EventBodyNotFound
                    | Some (JObj envelope) \<Rightarrow>
                        (case map_of envelope ''body'' of
                           Some (JObj body) \<Rightarrow> Inr (serialize body)
                         | _ \<Rightarrow> Inl EventBodyNotFound)
                    | Some _ \<Rightarrow> Inl (EventErr (Raised500 (AttributeErr ''get''))))))) "

section \<open>Batches\<close>

text \<open>The handler of the batch write: the creates in order, then one commit; an error rolls back.\<close>

fun create_all ::
    "(nat \<Rightarrow> event_env) \<Rightarrow> sfilter \<Rightarrow> uuid \<Rightarrow> nat \<Rightarrow> event_create list \<Rightarrow> event_db \<Rightarrow> body_store option \<Rightarrow>
     (event_error + event list \<times> event_db) \<times> body_store option" where
  "create_all envs perm_filter conversation i [] db store = (Inr ([], db), store)"
| "create_all envs perm_filter conversation i (p # ps) db store =
     (case create_event (envs i) perm_filter conversation p None db store of
        (Inl err, store1) \<Rightarrow> (Inl err, store1)
      | (Inr (e, db1), store1) \<Rightarrow>
          (case create_all envs perm_filter conversation (Suc i) ps db1 store1 of
             (Inl err, store2) \<Rightarrow> (Inl err, store2)
           | (Inr (es, db2), store2) \<Rightarrow> (Inr (e # es, db2), store2)))"

definition write_events_batch ::
    "(nat \<Rightarrow> event_env) \<Rightarrow> sfilter \<Rightarrow> uuid \<Rightarrow> event_create list \<Rightarrow> event_db \<Rightarrow> body_store option \<Rightarrow>
     (event_error + event list) \<times> event_db \<times> body_store option" where
  "write_events_batch envs perm_filter conversation payloads db store =
     (case create_all envs perm_filter conversation 0 payloads db store of
        (Inl err, store1) \<Rightarrow> (Inl err, db, store1)
      | (Inr (es, db1), store1) \<Rightarrow> (Inr es, db1, store1))"

section \<open>Partitions\<close>

text \<open>The store's days are deleted after the commit; a failure of the store is logged.\<close>

fun delete_store_prefixes :: "bool \<Rightarrow> string list \<Rightarrow> body_store \<Rightarrow> event_error + body_store" where
  "delete_store_prefixes ok [] store = Inr store"
| "delete_store_prefixes ok (name # names) store =
     (case strptime_ymd (name_suffix name) of
        None \<Rightarrow> Inl (EventErr (Raised500 ValueErr))
      | Some day \<Rightarrow> delete_store_prefixes ok names (if ok then snd (delete_day day store) else store))"

definition event_ensure_partitions ::
    "bool \<Rightarrow> nat \<Rightarrow> int \<Rightarrow> datetime \<Rightarrow> event_db \<Rightarrow> body_store option \<Rightarrow>
     (ddl_error + (event_error + string list \<times> string list) \<times> body_store option) \<times> event_db" where
  "event_ensure_partitions store_ok preallocate_days retention_days now db store =
     (case ensure_partitions event_day ''events'' preallocate_days retention_days now (ed_events db) of
        Inl e \<Rightarrow> (Inl e, db)
      | Inr (created, dropped, table) \<Rightarrow>
          (Inr (case store of
                  None \<Rightarrow> (Inr (created, dropped), None)
                | Some s \<Rightarrow>
                    (case delete_store_prefixes store_ok dropped s of
                       Inl e \<Rightarrow> (Inl e, store)
                     | Inr s1 \<Rightarrow> (Inr (created, dropped), Some s1))),
           db\<lparr>ed_events := table\<rparr>))"

section \<open>Reconciliation\<close>

fun restore_all ::
    "(json_dict \<Rightarrow> json_dict option) \<Rightarrow> nat \<Rightarrow> (uuid \<times> int \<times> string) list \<Rightarrow> event_db \<Rightarrow> event_error + nat \<times> event_db" where
  "restore_all jsonb cap [] db = Inr (0, db)"
| "restore_all jsonb cap ((event_id, event_date, payload) # objects) db =
     (case filter (\<lambda>e. ev_id e = event_id) (pt_rows (ed_events db)) of
        [] \<Rightarrow>
          (case loads payload of
             Some (JObj envelope) \<Rightarrow>
               (case event_from_envelope envelope event_id event_date cap of
                  Inl e \<Rightarrow> Inl (EventErr (Raised500 e))
                | Inr e \<Rightarrow>
                    bindR (ev_svc (insert_event jsonb e db)) (\<lambda>(_, db1).
                    bindR (restore_all jsonb cap objects db1) (\<lambda>(n, db2). Inr (Suc n, db2))))
           | _ \<Rightarrow> restore_all jsonb cap objects db)
      | [_] \<Rightarrow> restore_all jsonb cap objects db
      | _ \<Rightarrow> Inl (EventErr MultipleRows))"

text \<open>One commit at the end; an exception leaves the database as it was.\<close>

definition backfill ::
    "(json_dict \<Rightarrow> json_dict option) \<Rightarrow> nat \<Rightarrow> body_store option \<Rightarrow> event_db \<Rightarrow> (event_error + nat) \<times> event_db" where
  "backfill jsonb cap store db =
     (case store of
        None \<Rightarrow> (Inr 0, db)
      | Some s \<Rightarrow>
          (case restore_all jsonb cap (iter_envelopes s) db of
             Inl e \<Rightarrow> (Inl e, db)
           | Inr (n, db1) \<Rightarrow> (Inr n, db1)))"

section \<open>Cursors\<close>

text \<open>\<open>_encode_cursor\<close> and \<open>_cursor\<close>: \<open>partition("|")\<close> and both parts parsed; \<open>None\<close> is the 400.\<close>

definition encode_cursor :: "datetime \<times> uuid \<Rightarrow> string" where
  "encode_cursor cursor = isoformat (fst cursor) @ ''|'' @ uuid_str (snd cursor)"

definition parse_cursor :: "string \<Rightarrow> (datetime \<times> uuid) option" where
  "parse_cursor raw =
     (let ts = takeWhile (\<lambda>c. c \<noteq> CHR ''|'') raw; rest = dropWhile (\<lambda>c. c \<noteq> CHR ''|'') raw in
      if rest = [] then None
      else
        (case (fromisoformat ts, uuid_parse (tl rest)) of
           (Some t, Some k) \<Rightarrow> Some (t, k)
         | _ \<Rightarrow> None))"

end
