(* ===== verification/EventLaws.thy ===== *)
theory EventLaws
  imports EventService "HOL-Library.Multiset"
begin

text \<open>
  The body store beside the table: what a read of a body answers after a create, that the store
  mirrors the rows as long as it works, and what the reconciliation restores from it.
\<close>

section \<open>Envelopes\<close>

text \<open>The stored object of an event row: its envelope, with a body the row shows inline or as a stub.\<close>

definition archives :: "(json_dict \<Rightarrow> json_dict option) \<Rightarrow> nat \<Rightarrow> event \<Rightarrow> string \<Rightarrow> bool" where
  "archives jsonb cap e payload =
     (\<exists>body. json_ok (JObj body) \<and> payload = envelope_payload e body \<and>
        jsonb (stub_or_payload (serialize body) body cap) = Some (ev_body e) \<and> ev_size_bytes e = int (length (serialize body)))"

lemma loads_envelope:
  assumes "json_ok (JObj body)"
  shows "loads (envelope_payload e body) = Some (JObj [(''id'', JStr (uuid_str (ev_id e))),
    (''conversation_record_id'', JStr (uuid_str (ev_conversation_record_id e))), (''kind'', JStr (ev_kind e)),
    (''timestamp'', JStr (isoformat (ev_timestamp e))), (''size_bytes'', JInt (ev_size_bytes e)), (''body'', JObj body)])"
  unfolding envelope_payload_def by (rule loads_dumps) (use assms in simp)

lemma event_from_archive:
  assumes "archives jsonb cap e payload" "valid_day (event_day e)"
  obtains envelope body where "loads payload = Some (JObj envelope)"
    "event_from_envelope envelope (ev_id e) (event_day e) cap = Inr (e\<lparr>ev_body := body\<rparr>)" "jsonb body = Some (ev_body e)"
proof -
  obtain body where b: "json_ok (JObj body)" "payload = envelope_payload e body"
    "jsonb (stub_or_payload (serialize body) body cap) = Some (ev_body e)" "ev_size_bytes e = int (length (serialize body))"
    using assms(1) unfolding archives_def by (elim exE conjE) (rule that, assumption+)
  have t: "fromisoformat (isoformat (ev_timestamp e)) = Some (ev_timestamp e)"
    using assms(2) by (intro fromiso_iso) (simp add: event_day_def)
  show thesis
  proof (rule that)
    show "loads payload = Some (JObj [(''id'', JStr (uuid_str (ev_id e))),
      (''conversation_record_id'', JStr (uuid_str (ev_conversation_record_id e))), (''kind'', JStr (ev_kind e)),
      (''timestamp'', JStr (isoformat (ev_timestamp e))), (''size_bytes'', JInt (ev_size_bytes e)), (''body'', JObj body)])"
      unfolding b(2) by (rule loads_envelope [OF b(1)])
  next
    show "event_from_envelope [(''id'', JStr (uuid_str (ev_id e))),
      (''conversation_record_id'', JStr (uuid_str (ev_conversation_record_id e))), (''kind'', JStr (ev_kind e)),
      (''timestamp'', JStr (isoformat (ev_timestamp e))), (''size_bytes'', JInt (ev_size_bytes e)), (''body'', JObj body)]
      (ev_id e) (event_day e) cap = Inr (e\<lparr>ev_body := stub_or_payload (serialize body) body cap\<rparr>)"
      by (simp add: event_from_envelope_def Let_def t b(4) [symmetric])
  qed (rule b(3))
qed

text \<open>The objects are visited in a permutation of the files.\<close>

lemma iter_envelopes_mset:
  "mset (iter_envelopes (Some files)) = image_mset (\<lambda>((d, k), payload). (k, d, payload)) (mset files)"
  by (simp add: iter_envelopes_def)

lemma iter_envelopes_set:
  "(k, d, payload) \<in> set (iter_envelopes (Some files)) \<longleftrightarrow> ((d, k), payload) \<in> set files"
  by (auto simp: iter_envelopes_def) force

section \<open>The store mirrors the rows\<close>

definition event_key :: "event \<Rightarrow> int \<times> uuid" where
  "event_key e = (event_day e, ev_id e)"

text \<open>Every row has its object and every object its row, of a conversation that exists.\<close>

definition mirrored :: "(json_dict \<Rightarrow> json_dict option) \<Rightarrow> nat \<Rightarrow> uuid list \<Rightarrow> event list \<Rightarrow> ((int \<times> uuid) \<times> string) list \<Rightarrow> bool" where
  "mirrored jsonb cap conversations rows files =
     (distinct (map ev_id rows) \<and> distinct (map fst files) \<and> fst ` set files = event_key ` set rows \<and>
      (\<forall>e \<in> set rows. valid_day (event_day e) \<and> ev_size_bytes e < 2 ^ 31 \<and> ev_conversation_record_id e \<in> set conversations \<and>
         (\<exists>payload. map_of files (event_key e) = Some payload \<and> archives jsonb cap e payload)))"

lemma mirrored_object:
  assumes "mirrored jsonb cap conversations rows files" "(k, payload) \<in> set files"
  obtains e where "e \<in> set rows" "event_key e = k" "archives jsonb cap e payload" "valid_day (event_day e)"
    "ev_size_bytes e < 2 ^ 31" "ev_conversation_record_id e \<in> set conversations"
proof -
  have "k \<in> fst ` set files" using assms(2) by force
  then obtain e where e: "e \<in> set rows" "event_key e = k"
    using assms(1) unfolding mirrored_def by (elim conjE) auto
  then obtain p where p: "map_of files k = Some p" "archives jsonb cap e p" "valid_day (event_day e)"
      "ev_size_bytes e < 2 ^ 31" "ev_conversation_record_id e \<in> set conversations" using assms(1) unfolding mirrored_def by blast
  have "map_of files k = Some payload"
    using assms unfolding mirrored_def by (intro map_of_is_SomeI) simp_all
  then show thesis using e p by (intro that [of e]) simp_all
qed

lemma mirrored_ids:
  assumes "mirrored jsonb cap conversations rows files" "e \<in> set rows"
  shows "ev_id e \<in> fst ` set (iter_envelopes (Some files))"
proof -
  have "event_key e \<in> fst ` set files" using assms by (simp add: mirrored_def)
  then obtain payload where "((event_day e, ev_id e), payload) \<in> set files" by (auto simp: event_key_def)
  then have "(ev_id e, event_day e, payload) \<in> set (iter_envelopes (Some files))" by (simp add: iter_envelopes_set)
  then show ?thesis by force
qed

lemma mirrored_snoc:
  assumes m: "mirrored jsonb cap conversations rows files"
    and e: "archives jsonb cap e payload" "ev_id e \<notin> ev_id ` set rows" "valid_day (event_day e)"
      "ev_size_bytes e < 2 ^ 31" "ev_conversation_record_id e \<in> set conversations"
  shows "mirrored jsonb cap conversations (rows @ [e]) (AList.update (event_key e) payload files)"
proof -
  have "event_key x \<noteq> event_key e" if "x \<in> set rows" for x
    by (metis e(2) event_key_def imageI prod.inject that)
  moreover have "fst ` set (AList.update (event_key e) payload files) = insert (event_key e) (fst ` set files)"
    by (simp add: dom_update)
  ultimately show ?thesis using m e unfolding mirrored_def
    by (auto simp: distinct_update update_conv')
qed

section \<open>Creates\<close>

text \<open>What a successful create did.\<close>

lemma create_event_InrE:
  assumes "create_event env f conversation p ts db store = (Inr (e, db1), store1)"
  obtains body where "conversation \<in> set (ed_conversations db)" "ee_jsonb env (ev_body (new_event env conversation p ts)) = Some body"
    "e = (new_event env conversation p ts)\<lparr>ev_body := body\<rparr>" "ev_size_bytes e < 2 ^ 31" "\<not> (\<exists>x \<in> set (pt_rows (ed_events db)). ev_id x = ev_id e \<and> ev_timestamp x = ev_timestamp e)"
    "db1 = db\<lparr>ed_events := (ed_events db)\<lparr>pt_rows := pt_rows (ed_events db) @ [e]\<rparr>\<rparr>"
    "store1 = (if ee_store_ok env then map_option (store_body (ev_id e) (event_day e) (envelope_payload e (ec_body p))) store
       else store)"
proof -
  let ?n = "new_event env conversation p ts"
  obtain body where "conversation \<in> set (ed_conversations db)" "ee_jsonb env (ev_body ?n) = Some body" "e = ?n\<lparr>ev_body := body\<rparr>"
      "ev_size_bytes e < 2 ^ 31" "\<not> (\<exists>x \<in> set (pt_rows (ed_events db)). ev_id x = ev_id e \<and> ev_timestamp x = ev_timestamp e)"
      "db1 = db\<lparr>ed_events := (ed_events db)\<lparr>pt_rows := pt_rows (ed_events db) @ [e]\<rparr>\<rparr>"
      "store1 = (if ee_store_ok env then map_option (store_body (ev_id e) (event_day e) (envelope_payload e (ec_body p))) store
         else store)"
    using assms by (auto simp: create_event_def Let_def insert_event_def insert_row_def bindR_Inr_iff not_le
        split: if_splits sum.splits option.splits)
  then show thesis by (rule that)
qed

lemma create_event_InlE:
  assumes "create_event env f conversation p ts db store = (Inl err, store1)"
  shows "store1 = store"
  using assms by (auto simp: create_event_def Let_def split: if_splits sum.splits)

lemma new_event_archives:
  assumes "json_ok (JObj (ec_body p))" "ee_jsonb env (ev_body (new_event env conversation p ts)) = Some body"
    and "e = (new_event env conversation p ts)\<lparr>ev_body := body\<rparr>"
  shows "archives (ee_jsonb env) (ee_cap env) e (envelope_payload e (ec_body p))"
  unfolding archives_def using assms(2)
  by (intro exI [of _ "ec_body p"] conjI assms(1) refl) (simp_all add: assms(3) new_event_def Let_def)

lemma new_event_fields [simp]:
  "ev_id (new_event env conversation p ts) = ee_uuid env"
  "ev_kind (new_event env conversation p ts) = ec_kind p"
  "ev_conversation_record_id (new_event env conversation p ts) = conversation"
  "event_day (new_event env conversation p ts) = day_of (case ts of None \<Rightarrow> ee_clock env | Some t \<Rightarrow> t)"
  "ev_size_bytes (new_event env conversation p ts) = int (length (serialize (ec_body p)))"
  "ev_body (new_event env conversation p ts) = stub_or_payload (serialize (ec_body p)) (ec_body p) (ee_cap env)"
  by (simp_all add: new_event_def Let_def event_day_def)

lemma event_day_body [simp]: "event_day (e\<lparr>ev_body := body\<rparr>) = event_day e"
  by (simp add: event_day_def)

text \<open>Creates keep the mirror, whether or not the batch they belong to is committed.\<close>

lemma create_event_mirrored:
  assumes "mirrored (ee_jsonb env) (ee_cap env) (ed_conversations db) (pt_rows (ed_events db)) files"
    and "create_event env f conversation p ts db (Some (Some files)) = (Inr (e, db1), store1)"
    and "ee_store_ok env" "json_ok (JObj (ec_body p))" "ee_uuid env \<notin> ev_id ` set (pt_rows (ed_events db))"
    and "valid_day (day_of (case ts of None \<Rightarrow> ee_clock env | Some t \<Rightarrow> t))"
  obtains files1 where "store1 = Some (Some files1)"
    "mirrored (ee_jsonb env) (ee_cap env) (ed_conversations db) (pt_rows (ed_events db) @ [e]) files1"
proof -
  obtain body where c: "conversation \<in> set (ed_conversations db)" "ee_jsonb env (ev_body (new_event env conversation p ts)) = Some body"
      "e = (new_event env conversation p ts)\<lparr>ev_body := body\<rparr>" "ev_size_bytes e < 2 ^ 31"
      "store1 = (if ee_store_ok env then map_option (store_body (ev_id e) (event_day e) (envelope_payload e (ec_body p)))
         (Some (Some files)) else Some (Some files))" by (rule create_event_InrE [OF assms(2)])
  have "store1 = Some (Some (AList.update (event_key e) (envelope_payload e (ec_body p)) files))"
    using c(5) by (simp add: store_body_def event_key_def assms(3))
  moreover have "mirrored (ee_jsonb env) (ee_cap env) (ed_conversations db) (pt_rows (ed_events db) @ [e])
      (AList.update (event_key e) (envelope_payload e (ec_body p)) files)"
    using new_event_archives [OF assms(4) c(2,3)] c(1,4) assms(5,6)
    by (intro mirrored_snoc [OF assms(1)]) (simp_all add: c(3))
  ultimately show thesis by (rule that)
qed

lemma create_all_mirrored:
  assumes "mirrored jsonb cap (ed_conversations db) (pt_rows (ed_events db)) files"
    and "create_all envs f conversation i ps db (Some (Some files)) = (Inr (es, db1), store1)"
    and "\<And>j. ee_cap (envs j) = cap \<and> ee_jsonb (envs j) = jsonb \<and> ee_store_ok (envs j) \<and> valid_day (day_of (ee_clock (envs j)))"
    and "\<And>p. p \<in> set ps \<Longrightarrow> json_ok (JObj (ec_body p))"
    and "inj_on (\<lambda>j. ee_uuid (envs j)) {i ..< i + length ps}"
    and "\<And>j. i \<le> j \<Longrightarrow> j < i + length ps \<Longrightarrow> ee_uuid (envs j) \<notin> ev_id ` set (pt_rows (ed_events db))"
  shows "\<exists>files1. store1 = Some (Some files1) \<and>
    mirrored jsonb cap (ed_conversations db) (pt_rows (ed_events db) @ es) files1 \<and>
    map ev_kind es = map ec_kind ps \<and> (\<forall>e \<in> set es. ev_conversation_record_id e = conversation) \<and>
    db1 = db\<lparr>ed_events := (ed_events db)\<lparr>pt_rows := pt_rows (ed_events db) @ es\<rparr>\<rparr>"
  using assms(1,2,4-6)
proof (induction ps arbitrary: i db files es)
  case (Cons p ps)
  obtain e db0 store0 where c: "create_event (envs i) f conversation p None db (Some (Some files)) = (Inr (e, db0), store0)"
    and "\<exists>es0. es = e # es0 \<and> create_all envs f conversation (Suc i) ps db0 store0 = (Inr (es0, db1), store1)"
    using Cons.prems(2) by (fastforce split: prod.splits sum.splits)
  then obtain es0 where es: "es = e # es0"
    and a: "create_all envs f conversation (Suc i) ps db0 store0 = (Inr (es0, db1), store1)" by blast
  obtain files0 where f0: "store0 = Some (Some files0)"
    and m0: "mirrored jsonb cap (ed_conversations db) (pt_rows (ed_events db) @ [e]) files0"
    using create_event_mirrored [OF _ c] Cons.prems(1,3) Cons.prems(5) [of i] assms(3) [of i] by auto
  obtain body where e: "e = (new_event (envs i) conversation p None)\<lparr>ev_body := body\<rparr>"
    and db0: "db0 = db\<lparr>ed_events := (ed_events db)\<lparr>pt_rows := pt_rows (ed_events db) @ [e]\<rparr>\<rparr>"
    by (rule create_event_InrE [OF c])
  have "ee_uuid (envs j) \<notin> ev_id ` set (pt_rows (ed_events db0))" if "Suc i \<le> j" "j < Suc i + length ps" for j
    using Cons.prems(5) [of j] that inj_onD [OF Cons.prems(4), of i j] by (auto simp: db0 e)
  moreover have "inj_on (\<lambda>j. ee_uuid (envs j)) {Suc i ..< Suc i + length ps}"
    by (rule inj_on_subset [OF Cons.prems(4)]) auto
  ultimately show ?case using Cons.IH [OF _ a [unfolded f0]]
    using m0 Cons.prems(3) by (auto simp: db0 es e)
qed auto

text \<open>A failing batch: the creates before the failing one succeeded, and it left the store to them.\<close>

lemma create_all_fails:
  assumes "create_all envs f conversation i ps db store = (Inl err, store1)"
  shows "\<exists>n es db1. n < length ps \<and> create_all envs f conversation i (take n ps) db store = (Inr (es, db1), store1) \<and>
    fst (create_event (envs (i + n)) f conversation (ps ! n) None db1 store1) = Inl err"
  using assms
proof (induction ps arbitrary: i db store)
  case (Cons p ps)
  obtain r store0 where c: "create_event (envs i) f conversation p None db store = (r, store0)" by (rule prod.exhaust)
  show ?case
  proof (cases r)
    case (Inl err0)
    then show ?thesis using Cons.prems c create_event_InlE [OF c [unfolded Inl]]
      by (intro exI [of _ 0] exI [of _ "[]"] exI [of _ db]) auto
  next
    case (Inr ed)
    obtain e db0 where r: "r = Inr (e, db0)" using Inr by (cases ed) simp
    have "create_all envs f conversation (Suc i) ps db0 store0 = (Inl err, store1)"
      using Cons.prems by (auto simp: c r split: prod.splits sum.splits)
    from Cons.IH [OF this] obtain n es db1 where "n < length ps"
      "create_all envs f conversation (Suc i) (take n ps) db0 store0 = (Inr (es, db1), store1)"
      "fst (create_event (envs (Suc i + n)) f conversation (ps ! n) None db1 store1) = Inl err" by blast
    then show ?thesis by (intro exI [of _ "Suc n"] exI [of _ "e # es"] exI [of _ db1]) (simp add: c r)
  qed
qed simp

section \<open>Reconciliation\<close>

lemma insert_event_Inr:
  assumes "ev_conversation_record_id e \<in> set (ed_conversations db)" "has_default (ed_events db)" "ev_size_bytes e < 2 ^ 31"
    "ev_id e \<notin> ev_id ` set (pt_rows (ed_events db))" "jsonb body = Some (ev_body e)"
  shows "insert_event jsonb (e\<lparr>ev_body := body\<rparr>) db = Inr (e, db\<lparr>ed_events := (ed_events db)\<lparr>pt_rows := pt_rows (ed_events db) @ [e]\<rparr>\<rparr>)"
proof -
  have "\<not> (\<exists>x \<in> set (pt_rows (ed_events db)). ev_id x = ev_id e \<and> ev_timestamp x = ev_timestamp e)"
    using assms(4) by (metis imageI)
  then show ?thesis using assms(1-3,5) by (simp add: insert_event_def insert_row_def)
qed

lemma filter_key_absent: "k \<notin> f ` set xs \<Longrightarrow> filter (\<lambda>x. f x = k) xs = []"
  by (auto simp: filter_empty_conv)

lemma filter_key_present: "distinct (map f xs) \<Longrightarrow> x \<in> set xs \<Longrightarrow> filter (\<lambda>y. f y = f x) xs = [x]"
  by (induction xs) (auto simp: filter_key_absent)

lemma key_insert: "inj_on f S \<Longrightarrow> e \<in> S \<Longrightarrow> {x \<in> S. f x \<in> insert (f e) K} = insert e {x \<in> S. f x \<in> K}"
  by (auto dest: inj_onD)

text \<open>Objects of a mirror restore exactly the rows that are missing.\<close>

lemma restore_all_mirrored:
  assumes m: "\<And>k d payload. (k, d, payload) \<in> set objects \<Longrightarrow> \<exists>e \<in> set es. ev_id e = k \<and> event_day e = d \<and>
      archives jsonb cap e payload \<and> valid_day d \<and> ev_size_bytes e < 2 ^ 31 \<and> ev_conversation_record_id e \<in> set (ed_conversations db)"
    and "distinct (map ev_id es)" "has_default (ed_events db)"
    and "set (pt_rows (ed_events db)) \<subseteq> set es" "distinct (map ev_id (pt_rows (ed_events db)))"
  shows "\<exists>lost. restore_all jsonb cap objects db =
      Inr (length lost, db\<lparr>ed_events := (ed_events db)\<lparr>pt_rows := pt_rows (ed_events db) @ lost\<rparr>\<rparr>) \<and>
    set (pt_rows (ed_events db) @ lost) = set (pt_rows (ed_events db)) \<union> {e \<in> set es. ev_id e \<in> fst ` set objects} \<and>
    distinct (map ev_id (pt_rows (ed_events db) @ lost))"
  using assms(1,3-5)
proof (induction objects arbitrary: db)
  case Nil
  then show ?case by (intro exI [of _ "[]"]) simp
next
  case (Cons obj objects)
  obtain k d payload where obj: "obj = (k, d, payload)" by (rule prod_cases3)
  obtain e where e: "e \<in> set es" "ev_id e = k" "event_day e = d" "archives jsonb cap e payload" "valid_day d"
    "ev_size_bytes e < 2 ^ 31" "ev_conversation_record_id e \<in> set (ed_conversations db)" using Cons.prems(1) [of k d payload] obj by auto
  have inj: "inj_on ev_id (set es)" using assms(2) by (simp add: distinct_map)
  have grown: "{x \<in> set es. ev_id x \<in> fst ` set (obj # objects)} = insert e {x \<in> set es. ev_id x \<in> fst ` set objects}"
    using key_insert [OF inj e(1), of "fst ` set objects"] by (simp add: obj e(2))
  have IHm: "\<exists>e \<in> set es. ev_id e = k \<and> event_day e = d \<and>
      archives jsonb cap e payload \<and> valid_day d \<and> ev_size_bytes e < 2 ^ 31 \<and> ev_conversation_record_id e \<in> set (ed_conversations db)"
    if "(k, d, payload) \<in> set objects" for k d payload
    using Cons.prems(1) [of k d payload] that by simp
  show ?case
  proof (cases "k \<in> ev_id ` set (pt_rows (ed_events db))")
    case True
    then obtain x where x: "x \<in> set (pt_rows (ed_events db))" "ev_id x = k" by (elim imageE) simp
    have "x = e" using inj_onD [OF inj _ _ e(1), of x] x(2) e(2) subsetD [OF Cons.prems(3) x(1)] by simp
    then have here: "e \<in> set (pt_rows (ed_events db))" using x(1) by simp
    have "filter (\<lambda>x. ev_id x = k) (pt_rows (ed_events db)) = [e]"
      using filter_key_present [OF Cons.prems(4) here] e(2) by simp
    then have "restore_all jsonb cap (obj # objects) db = restore_all jsonb cap objects db" by (simp add: obj)
    then show ?thesis using Cons.IH [OF IHm Cons.prems(2-4)] here
      by (simp only: grown Un_insert_right insert_absorb [of e] UnI1)
  next
    case False
    let ?db = "db\<lparr>ed_events := (ed_events db)\<lparr>pt_rows := pt_rows (ed_events db) @ [e]\<rparr>\<rparr>"
    obtain envelope body where env: "loads payload = Some (JObj envelope)"
        "event_from_envelope envelope k d cap = Inr (e\<lparr>ev_body := body\<rparr>)" "jsonb body = Some (ev_body e)"
      using event_from_archive [OF e(4)] e(2,3,5) by auto
    have ins: "insert_event jsonb (e\<lparr>ev_body := body\<rparr>) db = Inr (e, ?db)"
      using False e(2,6,7) Cons.prems(2) env(3) by (intro insert_event_Inr) simp_all
    have step: "restore_all jsonb cap (obj # objects) db =
        bindR (restore_all jsonb cap objects ?db) (\<lambda>(n, db2). Inr (Suc n, db2))"
      by (simp add: obj filter_key_absent [OF False] env ins)
    have "\<exists>lost. restore_all jsonb cap objects ?db =
        Inr (length lost, ?db\<lparr>ed_events := (ed_events ?db)\<lparr>pt_rows := pt_rows (ed_events ?db) @ lost\<rparr>\<rparr>) \<and>
      set (pt_rows (ed_events ?db) @ lost) = set (pt_rows (ed_events ?db)) \<union> {e \<in> set es. ev_id e \<in> fst ` set objects} \<and>
      distinct (map ev_id (pt_rows (ed_events ?db) @ lost))"
    proof (rule Cons.IH)
      show "\<exists>e \<in> set es. ev_id e = k \<and> event_day e = d \<and> archives jsonb cap e payload \<and> valid_day d \<and> ev_size_bytes e < 2 ^ 31 \<and>
          ev_conversation_record_id e \<in> set (ed_conversations ?db)"
        if "(k, d, payload) \<in> set objects" for k d payload using IHm [OF that] by simp
    qed (use False e(1,2) Cons.prems(2-4) in \<open>auto simp: has_default_def\<close>)
    then obtain lost where lost: "restore_all jsonb cap objects ?db =
        Inr (length lost, ?db\<lparr>ed_events := (ed_events ?db)\<lparr>pt_rows := pt_rows (ed_events ?db) @ lost\<rparr>\<rparr>)"
      "set (pt_rows (ed_events ?db) @ lost) = set (pt_rows (ed_events ?db)) \<union> {e \<in> set es. ev_id e \<in> fst ` set objects}"
      "distinct (map ev_id (pt_rows (ed_events ?db) @ lost))" by blast
    show ?thesis
    proof (intro exI [of _ "e # lost"] conjI)
      show "restore_all jsonb cap (obj # objects) db = Inr (length (e # lost),
          db\<lparr>ed_events := (ed_events db)\<lparr>pt_rows := pt_rows (ed_events db) @ e # lost\<rparr>\<rparr>)"
        unfolding step lost(1) by simp
      show "set (pt_rows (ed_events db) @ e # lost) =
          set (pt_rows (ed_events db)) \<union> {e \<in> set es. ev_id e \<in> fst ` set (obj # objects)}"
        unfolding grown using lost(2) by simp
    qed (use lost(3) in simp)
  qed
qed

text \<open>A conversation that is gone: its missing event stops the whole run.\<close>

lemma restore_all_orphan:
  assumes "(ev_id e, event_day e, payload) \<in> set objects" "archives jsonb cap e payload" "valid_day (event_day e)"
    and "ev_conversation_record_id e \<notin> set (ed_conversations db)" "distinct (map fst objects)"
    and "ev_id e \<notin> ev_id ` set (pt_rows (ed_events db))"
  shows "\<exists>err. restore_all jsonb cap objects db = Inl err"
  using assms(1,4-6)
proof (induction objects arbitrary: db)
  case (Cons obj objects)
  obtain k d p where obj: "obj = (k, d, p)" by (rule prod_cases3)
  show ?case
  proof (cases "obj = (ev_id e, event_day e, payload)")
    case True
    obtain envelope body where env: "loads payload = Some (JObj envelope)"
      "event_from_envelope envelope (ev_id e) (event_day e) cap = Inr (e\<lparr>ev_body := body\<rparr>)" "jsonb body = Some (ev_body e)"
      by (rule event_from_archive [OF assms(2,3)])
    have "\<exists>err. insert_event jsonb (e\<lparr>ev_body := body\<rparr>) db = Inl err" using Cons.prems(2) env(3) by (simp add: insert_event_def)
    then show ?thesis using True env by (auto simp: filter_key_absent [OF Cons.prems(4)])
  next
    case False
    have rest: "(ev_id e, event_day e, payload) \<in> set objects" "distinct (map fst objects)"
      using False Cons.prems(1,3) by auto
    have k: "k \<noteq> ev_id e" using rest(1) Cons.prems(3) obj by force
    have IH: "\<exists>err. restore_all jsonb cap objects db1 = Inl err"
      if "insert_event jsonb x db = Inr (x', db1)" "ev_id x = k" for x x' db1
      using that Cons.prems(2,4) k rest
      by (intro Cons.IH) (auto simp: insert_event_def insert_row_def split: if_splits option.splits)
    have "\<exists>err. restore_all jsonb cap objects db = Inl err" using Cons.prems(2,4) rest by (intro Cons.IH)
    moreover have "ev_id x = k" if "event_from_envelope v k d cap = Inr x" for v x
      using that by (auto simp: event_from_envelope_def Let_def bindR_Inr_iff)
    ultimately show ?thesis using IH
      by (auto simp: obj ev_svc_def split: list.split option.split json.split sum.split) (metis bindR.simps(1))+
  qed
qed simp

section \<open>Cursors\<close>

lemma two_digits_no_bar: "0 \<le> i \<Longrightarrow> i < 100 \<Longrightarrow> CHR ''|'' \<notin> set (two_digits i)"
proof -
  have "CHR ''|'' \<noteq> digit_char n" if "n < 10" for n
    using digit_value_char [OF that] by (auto simp: digit_value_def dest: sym)
  then show "0 \<le> i \<Longrightarrow> i < 100 \<Longrightarrow> CHR ''|'' \<notin> set (two_digits i)" by (simp add: two_digits_def nat_less_iff)
qed

lemma iso_time_no_bar:
  assumes "0 \<le> micros" "micros < DAY_MICROS"
  shows "CHR ''|'' \<notin> set (iso_time micros)"
proof -
  define s us where "s = micros div 1000000" and "us = micros mod 1000000"
  have s: "0 \<le> s" "s < 86400" "0 \<le> us" "us < 1000000" using assms by (auto simp: s_def us_def DAY_MICROS_def)
  have r: "0 \<le> x mod 60 \<and> x mod 60 < 100" "0 \<le> x mod 100 \<and> x mod 100 < 100" for x :: int
    using pos_mod_bound [of 60 x] pos_mod_sign [of 60 x] pos_mod_bound [of 100 x] pos_mod_sign [of 100 x] by auto
  have b: "0 \<le> s div 3600" "s div 3600 < 100" "0 \<le> us div 10000" "us div 10000 < 100" using s by auto
  show ?thesis unfolding iso_time_def Let_def s_def [symmetric] us_def [symmetric] using b r
    by (simp add: two_digits_no_bar)
qed

lemma isoformat_no_bar:
  assumes "valid_day (day_of t)"
  shows "CHR ''|'' \<notin> set (isoformat t)"
proof -
  obtain y m d where e: "ord2ymd (day_of t) = (y, m, d)" by (rule prod_cases3)
  note v = valid_day_parts [OF assms e]
  have "0 \<le> y" "y < 10000" "0 \<le> m" "0 \<le> d" using v(2) by (auto simp: valid_date_def)
  then have "0 \<le> y div 100" "y div 100 < 100" by simp_all
  then have "CHR ''|'' \<notin> set (iso_date (day_of t))"
    using v(3,4) \<open>0 \<le> m\<close> \<open>0 \<le> d\<close> by (simp add: iso_date_def e two_digits_no_bar)
  moreover have "CHR ''|'' \<notin> set (iso_time (t mod DAY_MICROS))" by (rule iso_time_no_bar) (simp_all add: DAY_MICROS_def)
  ultimately show ?thesis by (simp add: isoformat_def)
qed

text \<open>A cursor sent to a client reads back as itself.\<close>

lemma parse_encode_cursor:
  assumes "valid_day (day_of t)"
  shows "parse_cursor (encode_cursor (t, k)) = Some (t, k)"
proof -
  have "CHR ''|'' \<notin> set (isoformat t)" by (rule isoformat_no_bar [OF assms])
  then have "takeWhile (\<lambda>c. c \<noteq> CHR ''|'') (isoformat t @ CHR ''|'' # uuid_str k) = isoformat t"
    "dropWhile (\<lambda>c. c \<noteq> CHR ''|'') (isoformat t @ CHR ''|'' # uuid_str k) = CHR ''|'' # uuid_str k"
    by (auto simp: takeWhile_append dropWhile_append)
  then show ?thesis by (simp add: parse_cursor_def encode_cursor_def Let_def fromiso_iso [OF assms])
qed

section \<open>Reading a body\<close>

lemma get_new_event:
  assumes "filter_sql g = Inr cond" "where_holds (ee_engine env) (ee_tables env) cond (event_attrs e)"
    and "ev_id e \<notin> ev_id ` set (pt_rows (ed_events db))" "ev_conversation_record_id e = conversation"
    and "db1 = db\<lparr>ed_events := (ed_events db)\<lparr>pt_rows := pt_rows (ed_events db) @ [e]\<rparr>\<rparr>"
  shows "get_event env g conversation (ev_id e) db1 = Inr e"
proof -
  have "filter (\<lambda>r. ev_id r = ev_id e \<and> where_holds (ee_engine env) (ee_tables env) cond (event_attrs r))
      (filter (\<lambda>x. ev_conversation_record_id x = conversation) (pt_rows (ed_events db) @ [e])) = [e]"
    using assms(2-4) by (auto simp: filter_empty_conv image_iff)
  then show ?thesis by (simp add: get_event_def scoped_get_def assms(1,5) svc_py_def)
qed

lemma get_stored_body:
  assumes "get_event env g conversation k db = Inr e" "ev_id e = k"
    and "json_ok (JObj body)" "store = Some (Some files)" "map_of files (event_key e) = Some (envelope_payload e body)"
    and "truthy (map_of (ev_body e) ''_truncated'')"
  shows "get_body env g conversation k db store = Inr (serialize body)"
  using assms(2,5,6) by (simp add: get_body_def assms(1,4) load_body_def event_key_def loads_envelope [OF assms(3)])

lemma truthy_stub:
  "truthy (map_of (stub_or_payload s body cap) ''_truncated'') \<longleftrightarrow> cap < length s \<or> truthy (map_of body ''_truncated'')"
  by (simp add: stub_or_payload_def)

section \<open>Properties\<close>

text \<open>What is documented of a \<open>JSONB\<close> column and used below: the value of a key keeps its truth value.\<close>

definition jsonb_keeps :: "(json_dict \<Rightarrow> json_dict option) \<Rightarrow> bool" where
  "jsonb_keeps jsonb = (\<forall>b b'. jsonb b = Some b' \<longrightarrow> truthy (map_of b' ''_truncated'') = truthy (map_of b ''_truncated''))"

text \<open>A column that orders the keys by their length, as PostgreSQL does.\<close>

definition witness_jsonb :: "json_dict \<Rightarrow> json_dict option" where
  "witness_jsonb b = Some (sort_key (\<lambda>m. length (fst m)) b)"

lemma map_of_filter_key: "(\<And>v. P (k, v)) \<Longrightarrow> map_of (filter P xs) k = map_of xs k"
  by (induction xs) auto

lemma witness_jsonb_keeps: "jsonb_keeps witness_jsonb"
proof -
  have "map_of (sort_key (\<lambda>m. length (fst m)) b) k = map_of b k" for b :: json_dict and k
  proof -
    have "filter (\<lambda>m. length (fst m) = length k) (sort_key (\<lambda>m. length (fst m)) b) = filter (\<lambda>m. length (fst m) = length k) b"
      by (rule sort_key_stable)
    then have "map_of (filter (\<lambda>m. length (fst m) = length k) (sort_key (\<lambda>m. length (fst m)) b)) k =
        map_of (filter (\<lambda>m. length (fst m) = length k) b) k" by simp
    then show ?thesis by (simp only: map_of_filter_key fst_conv)
  qed
  then show ?thesis by (simp add: jsonb_keeps_def witness_jsonb_def)
qed

definition witness_event_env :: "uuid \<Rightarrow> event_env" where
  "witness_event_env k = \<lparr>ee_engine = (\<lambda>D c r. Some True), ee_tables = (\<lambda>_. []), ee_clock = 0, ee_uuid = k,
     ee_store_ok = True, ee_cap = 3, ee_jsonb = witness_jsonb\<rparr>"

definition witness_event_db :: event_db where
  "witness_event_db = \<lparr>ed_events = \<lparr>pt_rows = [], pt_children = [(''events_default'', None)], pt_relations = []\<rparr>,
     ed_conversations = [5]\<rparr>"

definition witness_create :: "string \<Rightarrow> event_create" where
  "witness_create kind = \<lparr>ec_kind = kind, ec_body = [(''a'', JInt 1)]\<rparr>"

lemma witness_kind: "ec_kind (witness_create kind) = kind"
  by (simp add: witness_create_def)

lemma witness_body_ok: "json_ok (JObj (ec_body (witness_create kind)))"
  by (simp add: witness_create_def)

lemma witness_size: "length (serialize [(''a'', JInt 1)]) = 7"
  by (simp add: serialize_def json_string_def json_escape_def dec_of_int_def dec_of_nat_def digits_of.simps digit_char_def)

lemma witness_new_size: "length (serialize (ec_body (witness_create kind))) = 7"
  by (simp add: witness_create_def witness_size)

lemma witness_env_jsonb: "ee_jsonb (witness_event_env k) = witness_jsonb"
  by (simp add: witness_event_env_def)

lemma witness_jsonb_Some: "witness_jsonb b = Some (sort_key (\<lambda>m. length (fst m)) b)"
  by (simp add: witness_jsonb_def)

lemma witness_created:
  obtains e db1 store1 where "create_event (witness_event_env 7) AllSearchFilter 5 (witness_create ''a'') None witness_event_db
    (Some (Some [])) = (Inr (e, db1), store1)"
  using that
  by (simp add: create_event_def witness_event_db_def insert_event_def insert_row_def has_default_def Let_def check_scope_def
      svc_py_def witness_new_size witness_env_jsonb witness_jsonb_Some)

lemma witness_mirrored: "mirrored witness_jsonb 3 [5] [] []"
  by (simp add: mirrored_def)

lemma witness_day: "valid_day (day_of 0)"
  by (simp add: valid_day_def day_of_def)

text \<open>C23. Reading a body after a create, by anyone who may see the event. A body within the cap is read from the row: the
  answer is the serialization of the object as the \<open>JSONB\<close> column gives it back, which need not be the posted text. A body
  over the cap, or with a \<open>_truncated\<close> key of its own that is true, is read from the store and is the serialization of what was
  posted, exactly; when nothing was stored it is not found. The size of the row is always that of the posted body.\<close>

theorem event_body_roundtrip:
  assumes "json_ok (JObj (ec_body p))" "jsonb_keeps (ee_jsonb env)"
    and "create_event env f conversation p ts db store = (Inr (e, db1), store1)"
    and "ev_id e \<notin> ev_id ` set (pt_rows (ed_events db))" "\<forall>s. store = Some s \<longrightarrow> load_body (ev_id e) (event_day e) s = None"
    and "filter_sql g = Inr cond" "where_holds (ee_engine env') (ee_tables env') cond (event_attrs e)"
  shows "get_body env' g conversation (ev_id e) db1 store1 =
    (if length (serialize (ec_body p)) \<le> ee_cap env \<and> \<not> truthy (map_of (ec_body p) ''_truncated'')
     then Inr (serialize (ev_body e))
     else if (\<exists>files. store = Some (Some files)) \<and> ee_store_ok env then Inr (serialize (ec_body p))
     else Inl EventBodyNotFound) \<and>
    ee_jsonb env (if length (serialize (ec_body p)) \<le> ee_cap env then ec_body p
      else [(''_truncated'', JBool True), (''original_size_bytes'', JInt (int (length (serialize (ec_body p))))),
            (''preview'', JStr (take PREVIEW_BYTES (serialize (ec_body p))))]) = Some (ev_body e) \<and>
    ev_size_bytes e = int (length (serialize (ec_body p)))"
proof (intro conjI)
  obtain body where j: "ee_jsonb env (ev_body (new_event env conversation p ts)) = Some body"
    and e: "e = (new_event env conversation p ts)\<lparr>ev_body := body\<rparr>"
    and db1: "db1 = db\<lparr>ed_events := (ed_events db)\<lparr>pt_rows := pt_rows (ed_events db) @ [e]\<rparr>\<rparr>"
    and store1: "store1 = (if ee_store_ok env then map_option (store_body (ev_id e) (event_day e) (envelope_payload e (ec_body p))) store
       else store)" by (rule create_event_InrE [OF assms(3)])
  have body: "ee_jsonb env (stub_or_payload (serialize (ec_body p)) (ec_body p) (ee_cap env)) = Some (ev_body e)"
    using j by (simp add: e)
  then have stub: "truthy (map_of (ev_body e) ''_truncated'') \<longleftrightarrow>
      \<not> (length (serialize (ec_body p)) \<le> ee_cap env \<and> \<not> truthy (map_of (ec_body p) ''_truncated''))"
    using assms(2) truthy_stub [of "serialize (ec_body p)" "ec_body p" "ee_cap env"] by (auto simp: jsonb_keeps_def not_le)
  show "ee_jsonb env (if length (serialize (ec_body p)) \<le> ee_cap env then ec_body p
      else [(''_truncated'', JBool True), (''original_size_bytes'', JInt (int (length (serialize (ec_body p))))),
            (''preview'', JStr (take PREVIEW_BYTES (serialize (ec_body p))))]) = Some (ev_body e)"
    using body by (simp add: stub_or_payload_def)
  show "ev_size_bytes e = int (length (serialize (ec_body p)))" by (simp add: e)
  have get: "get_event env' g conversation (ev_id e) db1 = Inr e"
    using assms(4,6,7) by (intro get_new_event [OF _ _ _ _ db1]) (simp_all add: e)
  show "get_body env' g conversation (ev_id e) db1 store1 =
    (if length (serialize (ec_body p)) \<le> ee_cap env \<and> \<not> truthy (map_of (ec_body p) ''_truncated'')
     then Inr (serialize (ev_body e))
     else if (\<exists>files. store = Some (Some files)) \<and> ee_store_ok env then Inr (serialize (ec_body p))
     else Inl EventBodyNotFound)"
  proof (cases "truthy (map_of (ev_body e) ''_truncated'')")
    case False
    then show ?thesis using False [unfolded stub] by (simp add: get_body_def get)
  next
    case True
    note absent = True [unfolded stub]
    show ?thesis
    proof (cases "(\<exists>files. store = Some (Some files)) \<and> ee_store_ok env")
      case stored: True
      then obtain files where "store = Some (Some files)" "ee_store_ok env" by blast
      then have "get_body env' g conversation (ev_id e) db1 store1 = Inr (serialize (ec_body p))"
        using True
        by (intro get_stored_body [OF get refl assms(1), of _ "AList.update (event_key e) (envelope_payload e (ec_body p)) files"])
          (simp_all add: store1 store_body_def event_key_def update_conv)
      then show ?thesis unfolding if_not_P [OF absent] if_P [OF stored] .
    next
      case False
      have "load_body (ev_id e) (event_day e) s = None" if "store1 = Some s" for s
        using that False assms(5) by (cases store; cases "the store") (auto simp: store1 store_body_def load_body_def split: if_splits)
      then show ?thesis using True
        unfolding if_not_P [OF absent] if_not_P [OF False] get_body_def get bindR.simps by (auto split: option.split)
    qed
  qed
qed

definition witness_inline :: event_create where
  "witness_inline = \<lparr>ec_kind = ''a'', ec_body = [(''bb'', JInt 2), (''a'', JInt 1)]\<rparr>"

lemma witness_inline_size: "length (serialize [(''bb'', JInt 2), (''a'', JInt 1)]) = 14"
  by (simp add: serialize_def json_string_def json_escape_def dec_of_int_def dec_of_nat_def digits_of.simps digit_char_def)

lemma witness_inline_created:
  obtains e db1 where "create_event ((witness_event_env 7)\<lparr>ee_cap := 100\<rparr>) AllSearchFilter 5 witness_inline None witness_event_db
    None = (Inr (e, db1), None)" "ev_body e = [(''a'', JInt 1), (''bb'', JInt 2)]" "ev_id e = 7"
proof -
  have "length (serialize (ec_body witness_inline)) = 14" by (simp add: witness_inline_def witness_inline_size)
  then show thesis using that
    by (simp add: create_event_def witness_event_db_def insert_event_def insert_row_def has_default_def Let_def check_scope_def
        svc_py_def witness_env_jsonb witness_jsonb_Some stub_or_payload_def)
      (simp add: witness_inline_def witness_event_env_def)
qed

theorem event_body_roundtrip_witness:
  "(\<exists>e db1 store1. create_event (witness_event_env 7) AllSearchFilter 5 (witness_create ''a'') None witness_event_db (Some (Some [])) =
       (Inr (e, db1), store1) \<and>
     get_body (witness_event_env 0) AllSearchFilter 5 7 db1 store1 = Inr (serialize (ec_body (witness_create ''a'')))) \<and>
   (\<exists>e db1. create_event ((witness_event_env 7)\<lparr>ee_cap := 100\<rparr>) AllSearchFilter 5 witness_inline None witness_event_db None =
       (Inr (e, db1), None) \<and>
     get_body (witness_event_env 0) AllSearchFilter 5 7 db1 None = Inr (serialize [(''a'', JInt 1), (''bb'', JInt 2)]))"
proof (intro conjI)
  obtain e db1 store1 where c: "create_event (witness_event_env 7) AllSearchFilter 5 (witness_create ''a'') None witness_event_db
      (Some (Some [])) = (Inr (e, db1), store1)" by (rule witness_created)
  have e: "ev_id e = 7" by (rule create_event_InrE [OF c]) (simp add: witness_event_env_def)
  have "get_body (witness_event_env 0) AllSearchFilter 5 (ev_id e) db1 store1 = Inr (serialize (ec_body (witness_create ''a'')))"
    using event_body_roundtrip [OF witness_body_ok _ c, of AllSearchFilter None "witness_event_env 0"] witness_jsonb_keeps
    by (simp add: witness_env_jsonb) (simp add: witness_event_db_def load_body_def filter_sql_def where_holds_def witness_event_env_def
        witness_new_size)
  then show "\<exists>e db1 store1. create_event (witness_event_env 7) AllSearchFilter 5 (witness_create ''a'') None witness_event_db (Some (Some [])) =
       (Inr (e, db1), store1) \<and>
     get_body (witness_event_env 0) AllSearchFilter 5 7 db1 store1 = Inr (serialize (ec_body (witness_create ''a'')))"
    using c e by auto
next
  obtain e db1 where c: "create_event ((witness_event_env 7)\<lparr>ee_cap := 100\<rparr>) AllSearchFilter 5 witness_inline None witness_event_db
    None = (Inr (e, db1), None)" "ev_body e = [(''a'', JInt 1), (''bb'', JInt 2)]" "ev_id e = 7" by (rule witness_inline_created)
  have ok: "json_ok (JObj (ec_body witness_inline))" by (simp add: witness_inline_def)
  have "get_body (witness_event_env 0) AllSearchFilter 5 (ev_id e) db1 None = Inr (serialize (ev_body e))"
    using event_body_roundtrip [OF ok _ c(1), of AllSearchFilter None "witness_event_env 0"] witness_jsonb_keeps
    by (simp add: witness_env_jsonb) (simp add: witness_event_db_def filter_sql_def where_holds_def witness_event_env_def
        witness_inline_def witness_inline_size)
  then show "\<exists>e db1. create_event ((witness_event_env 7)\<lparr>ee_cap := 100\<rparr>) AllSearchFilter 5 witness_inline None witness_event_db None =
       (Inr (e, db1), None) \<and>
     get_body (witness_event_env 0) AllSearchFilter 5 7 db1 None = Inr (serialize [(''a'', JInt 1), (''bb'', JInt 2)])"
    using c by (intro exI [of _ e] exI [of _ db1]) simp
qed

text \<open>C24. The table can be rebuilt from the store. If the store mirrors the table, which every create keeps as long
  as the store works, then after any loss of rows the reconciliation restores exactly the lost ones:
  the rows are those of before, with their ids, times, conversations, kinds, bodies (inline or
  stub) and sizes, in some order; it answers their number; and running it again restores nothing.\<close>

theorem backfill_restores:
  assumes "mirrored jsonb cap (ed_conversations db) (pt_rows (ed_events db)) files" "has_default (ed_events db)"
    and "lossy = db\<lparr>ed_events := (ed_events db)\<lparr>pt_rows := filter keep (pt_rows (ed_events db))\<rparr>\<rparr>"
  shows "\<exists>db1. backfill jsonb cap (Some (Some files)) lossy =
      (Inr (length (filter (\<lambda>e. \<not> keep e) (pt_rows (ed_events db)))), db1) \<and>
    mset (pt_rows (ed_events db1)) = mset (pt_rows (ed_events db)) \<and> ed_conversations db1 = ed_conversations db \<and>
    backfill jsonb cap (Some (Some files)) db1 = (Inr 0, db1)"
proof -
  let ?rows = "pt_rows (ed_events db)" and ?lossy = "filter keep (pt_rows (ed_events db))"
  have ids: "distinct (map ev_id ?rows)" using assms(1) by (simp add: mirrored_def)
  have m: "\<exists>e \<in> set ?rows. ev_id e = k \<and> event_day e = d \<and> archives jsonb cap e payload \<and> valid_day d \<and> ev_size_bytes e < 2 ^ 31 \<and>
      ev_conversation_record_id e \<in> set (ed_conversations db)"
    if "(k, d, payload) \<in> set (iter_envelopes (Some files))" for k d payload
    using mirrored_object [OF assms(1), of "(d, k)" payload] that
    by (auto simp: iter_envelopes_set event_key_def)
  have all: "{e \<in> set ?rows. ev_id e \<in> fst ` set (iter_envelopes (Some files))} = set ?rows"
    using mirrored_ids [OF assms(1)] by auto
  have run: "\<exists>lost. restore_all jsonb cap (iter_envelopes (Some files)) db' =
        Inr (length lost, db'\<lparr>ed_events := (ed_events db')\<lparr>pt_rows := pt_rows (ed_events db') @ lost\<rparr>\<rparr>) \<and>
      mset (pt_rows (ed_events db') @ lost) = mset ?rows"
    if h: "set (pt_rows (ed_events db')) \<subseteq> set ?rows" "distinct (map ev_id (pt_rows (ed_events db')))"
      "has_default (ed_events db')" "ed_conversations db' = ed_conversations db" for db'
  proof -
    obtain lost where l: "restore_all jsonb cap (iter_envelopes (Some files)) db' =
        Inr (length lost, db'\<lparr>ed_events := (ed_events db')\<lparr>pt_rows := pt_rows (ed_events db') @ lost\<rparr>\<rparr>)"
      "set (pt_rows (ed_events db') @ lost) = set (pt_rows (ed_events db')) \<union> set ?rows"
      "distinct (map ev_id (pt_rows (ed_events db') @ lost))"
      using restore_all_mirrored [OF _ ids h(3,1,2), of "iter_envelopes (Some files)" jsonb cap] m
      unfolding all h(4) by blast
    have "mset (pt_rows (ed_events db') @ lost) = mset ?rows"
      using l(2,3) ids h(1) by (intro iffD1 [OF set_eq_iff_mset_eq_distinct]) (auto simp: distinct_map)
    then show ?thesis using l(1) by blast
  qed
  obtain lost where lost: "restore_all jsonb cap (iter_envelopes (Some files)) lossy =
        Inr (length lost, lossy\<lparr>ed_events := (ed_events lossy)\<lparr>pt_rows := pt_rows (ed_events lossy) @ lost\<rparr>\<rparr>)"
      "mset (?lossy @ lost) = mset ?rows"
    using run [of lossy] ids assms(2) by (auto simp: assms(3) has_default_def distinct_map_filter)
  let ?db1 = "lossy\<lparr>ed_events := (ed_events lossy)\<lparr>pt_rows := ?lossy @ lost\<rparr>\<rparr>"
  have rows1: "set (?lossy @ lost) = set ?rows" "distinct (map ev_id (?lossy @ lost))"
    using lost(2) ids by (metis mset_eq_setD, metis mset_map mset_eq_imp_distinct_iff)
  obtain again where "restore_all jsonb cap (iter_envelopes (Some files)) ?db1 =
        Inr (length again, ?db1\<lparr>ed_events := (ed_events ?db1)\<lparr>pt_rows := pt_rows (ed_events ?db1) @ again\<rparr>\<rparr>)"
      "mset (pt_rows (ed_events ?db1) @ again) = mset ?rows"
    using run [of ?db1] rows1 assms(2) by (auto simp: assms(3) has_default_def)
  moreover from arg_cong [of _ _ size, OF this(2)] arg_cong [of _ _ size, OF lost(2)] have "again = []"
    by (subst length_0_conv [symmetric]) (simp del: length_0_conv add: assms(3))
  moreover have "length lost = length (filter (\<lambda>e. \<not> keep e) ?rows)"
    using arg_cong [of _ _ size, OF lost(2)] sum_length_filter_compl [of keep ?rows]
    by (simp del: mset_filter)
  ultimately show ?thesis using lost
    by (intro exI [of _ ?db1]) (simp add: backfill_def assms(3))
qed

theorem backfill_restores_witness:
  "\<exists>db files e db1. pt_rows (ed_events db) = [e] \<and>
     backfill witness_jsonb 3 (Some (Some files)) (db\<lparr>ed_events := (ed_events db)\<lparr>pt_rows := []\<rparr>\<rparr>) = (Inr 1, db1) \<and>
     pt_rows (ed_events db1) = [e]"
proof -
  obtain e db1 store1 where c: "create_event (witness_event_env 7) AllSearchFilter 5 (witness_create ''a'') None witness_event_db
      (Some (Some [])) = (Inr (e, db1), store1)" by (rule witness_created)
  have db1: "db1 = witness_event_db\<lparr>ed_events := (ed_events witness_event_db)\<lparr>pt_rows := pt_rows (ed_events witness_event_db) @ [e]\<rparr>\<rparr>"
    by (rule create_event_InrE [OF c])
  then have rows: "pt_rows (ed_events db1) = [e]" "ed_conversations db1 = [5]" "has_default (ed_events db1)"
    by (simp_all add: witness_event_db_def has_default_def)
  obtain files where "mirrored witness_jsonb 3 (ed_conversations db1) (pt_rows (ed_events db1)) files"
    using create_event_mirrored [OF _ c _ witness_body_ok] witness_mirrored witness_day
    by (auto simp: rows witness_event_env_def witness_event_db_def)
  from backfill_restores [OF this rows(3) refl, of "\<lambda>_. False"] obtain db2 where
    "backfill witness_jsonb 3 (Some (Some files)) (db1\<lparr>ed_events := (ed_events db1)\<lparr>pt_rows := []\<rparr>\<rparr>) = (Inr 1, db2)"
    "mset (pt_rows (ed_events db2)) = mset [e]" unfolding rows by auto
  then show ?thesis using rows(1) by (intro exI [of _ db1] exI [of _ files] exI [of _ e] exI [of _ db2]) simp
qed

text \<open>C25. A batch is not atomic with respect to the store. When the create at position \<open>n\<close> of a batch fails, the
  database is as before, but the envelopes of the \<open>n\<close> events before it stay in the store, and the next
  reconciliation inserts exactly these \<open>n\<close> events, which the client was told do not exist.\<close>

theorem aborted_batch_resurrected:
  assumes "mirrored jsonb cap (ed_conversations db) (pt_rows (ed_events db)) files" "has_default (ed_events db)"
    and "\<forall>j. ee_cap (envs j) = cap \<and> ee_jsonb (envs j) = jsonb \<and> ee_store_ok (envs j) \<and> valid_day (day_of (ee_clock (envs j)))"
    and "inj_on (\<lambda>j. ee_uuid (envs j)) {..< length ps}" "\<forall>j < length ps. ee_uuid (envs j) \<notin> ev_id ` set (pt_rows (ed_events db))"
    and "\<forall>p \<in> set ps. json_ok (JObj (ec_body p))"
    and "write_events_batch envs f conversation ps db (Some (Some files)) = (Inl err, db1, store1)"
  shows "db1 = db \<and> (\<exists>n es db2 db3. n < length ps \<and>
    create_all envs f conversation 0 (take n ps) db (Some (Some files)) = (Inr (es, db2), store1) \<and>
    fst (create_event (envs n) f conversation (ps ! n) None db2 store1) = Inl err \<and>
    map ev_kind es = map ec_kind (take n ps) \<and>
    backfill jsonb cap store1 db1 = (Inr n, db3) \<and> mset (pt_rows (ed_events db3)) = mset (pt_rows (ed_events db) @ es))"
proof -
  have all: "create_all envs f conversation 0 ps db (Some (Some files)) = (Inl err, store1)" and db1: "db1 = db"
    using assms(7) by (auto simp: write_events_batch_def split: prod.splits sum.splits)
  obtain n es db2 where n: "n < length ps"
      "create_all envs f conversation 0 (take n ps) db (Some (Some files)) = (Inr (es, db2), store1)"
      "fst (create_event (envs n) f conversation (ps ! n) None db2 store1) = Inl err"
    using create_all_fails [OF all] by auto
  have "json_ok (JObj (ec_body p))" if "p \<in> set (take n ps)" for p
    using in_set_takeD [OF that] assms(6) by blast
  moreover have "inj_on (\<lambda>j. ee_uuid (envs j)) {0 ..< 0 + length (take n ps)}"
    by (rule inj_on_subset [OF assms(4)]) auto
  ultimately obtain files1 where m: "store1 = Some (Some files1)"
      "mirrored jsonb cap (ed_conversations db) (pt_rows (ed_events db) @ es) files1" "map ev_kind es = map ec_kind (take n ps)"
      "db2 = db\<lparr>ed_events := (ed_events db)\<lparr>pt_rows := pt_rows (ed_events db) @ es\<rparr>\<rparr>"
    using create_all_mirrored [OF assms(1) n(2)] assms(3,5) n(1) by auto
  have ids: "distinct (map ev_id (pt_rows (ed_events db) @ es))" using m(2) unfolding mirrored_def by (rule conjunct1)
  have objs: "\<exists>e \<in> set (pt_rows (ed_events db) @ es). ev_id e = k \<and> event_day e = d \<and> archives jsonb cap e payload \<and> valid_day d \<and> ev_size_bytes e < 2 ^ 31 \<and>
      ev_conversation_record_id e \<in> set (ed_conversations db)"
    if "(k, d, payload) \<in> set (iter_envelopes (Some files1))" for k d payload
    using mirrored_object [OF m(2), of "(d, k)" payload] that unfolding iter_envelopes_set event_key_def by blast
  have every: "{e \<in> set (pt_rows (ed_events db) @ es). ev_id e \<in> fst ` set (iter_envelopes (Some files1))} =
      set (pt_rows (ed_events db) @ es)" using mirrored_ids [OF m(2)] by blast
  have "distinct (map ev_id (pt_rows (ed_events db)))" using ids by simp
  from restore_all_mirrored [OF objs ids assms(2) _ this, of "iter_envelopes (Some files1)"]
  obtain lost where l: "restore_all jsonb cap (iter_envelopes (Some files1)) db =
      Inr (length lost, db\<lparr>ed_events := (ed_events db)\<lparr>pt_rows := pt_rows (ed_events db) @ lost\<rparr>\<rparr>)"
    "set (pt_rows (ed_events db) @ lost) = set (pt_rows (ed_events db)) \<union> set (pt_rows (ed_events db) @ es)"
    "distinct (map ev_id (pt_rows (ed_events db) @ lost))" unfolding every by auto
  have same: "mset (pt_rows (ed_events db) @ lost) = mset (pt_rows (ed_events db) @ es)"
    using l(2,3) ids by (intro iffD1 [OF set_eq_iff_mset_eq_distinct]) (auto simp: distinct_map)
  have "length lost = n"
    using arg_cong [of _ _ size, OF same] arg_cong [of _ _ length, OF m(3)] n(1) by simp
  then show ?thesis using n m(3) l(1) same
    by (intro conjI db1 exI [of _ n] exI [of _ es] exI [of _ db2]
        exI [of _ "db\<lparr>ed_events := (ed_events db)\<lparr>pt_rows := pt_rows (ed_events db) @ lost\<rparr>\<rparr>"])
      (simp_all add: backfill_def m(1) db1)
qed

lemma witness_scope:
  "check_scope (AttributeFilter (Some [''kind'']) ''kind'' (VStr ''a'') EQ) ((event_attrs e)(''timestamp'' := VNone)) =
     (if ev_kind e = ''a'' then Inr () else Inl PermissionScopeError)"
  by (simp add: check_scope_def attribute_matches_def unsaved_def event_attrs_def svc_py_def)

theorem aborted_batch_resurrected_witness:
  "\<exists>err store1 db3 e. write_events_batch (\<lambda>j. witness_event_env (of_nat j))
       (AttributeFilter (Some [''kind'']) ''kind'' (VStr ''a'') EQ) 5 [witness_create ''a'', witness_create ''b'']
       witness_event_db (Some (Some [])) = (Inl err, witness_event_db, store1) \<and>
     backfill witness_jsonb 3 store1 witness_event_db = (Inr 1, db3) \<and> pt_rows (ed_events db3) = [e] \<and> ev_kind e = ''a''"
proof -
  let ?envs = "\<lambda>j. witness_event_env (of_nat j)" and ?f = "AttributeFilter (Some [''kind'']) ''kind'' (VStr ''a'') EQ"
  let ?ps = "[witness_create ''a'', witness_create ''b'']"
  have run: "\<exists>store1. write_events_batch ?envs ?f 5 ?ps witness_event_db (Some (Some [])) =
      (Inl (EventErr PermissionScopeError), witness_event_db, store1)"
    by (simp add: write_events_batch_def create_event_def witness_event_db_def insert_event_def insert_row_def
        has_default_def Let_def witness_scope
        witness_kind witness_env_jsonb witness_jsonb_Some witness_new_size)
  then obtain store1 where r: "write_events_batch ?envs ?f 5 ?ps witness_event_db (Some (Some [])) =
      (Inl (EventErr PermissionScopeError), witness_event_db, store1)" by blast
  have envs: "\<forall>j. ee_cap (?envs j) = 3 \<and> ee_jsonb (?envs j) = witness_jsonb \<and> ee_store_ok (?envs j) \<and> valid_day (day_of (ee_clock (?envs j)))"
    using witness_day by (simp add: witness_event_env_def)
  have inj: "inj_on (\<lambda>j. ee_uuid (?envs j)) {..< length ?ps}"
    by (auto simp: inj_on_def witness_event_env_def numeral_2_eq_2 less_Suc_eq)
  have db: "mirrored witness_jsonb 3 (ed_conversations witness_event_db) (pt_rows (ed_events witness_event_db)) []"
    "has_default (ed_events witness_event_db)" "pt_rows (ed_events witness_event_db) = []"
    using witness_mirrored by (simp_all add: witness_event_db_def has_default_def)
  have ps: "\<forall>p \<in> set ?ps. json_ok (JObj (ec_body p))" using witness_body_ok by simp
  have scope: "fst (create_event (?envs 0) ?f 5 (?ps ! 0) None witness_event_db (Some (Some []))) \<noteq> Inl err" for err
    by (simp add: create_event_def witness_event_db_def insert_event_def insert_row_def
        has_default_def Let_def witness_scope
        witness_kind witness_env_jsonb witness_jsonb_Some witness_new_size)
  obtain n es db2 db3 where n: "n < 2" "create_all ?envs ?f 5 0 (take n ?ps) witness_event_db (Some (Some [])) = (Inr (es, db2), store1)"
      "fst (create_event (?envs n) ?f 5 (?ps ! n) None db2 store1) = Inl (EventErr PermissionScopeError)"
      "map ev_kind es = map ec_kind (take n ?ps)"
      "backfill witness_jsonb 3 store1 witness_event_db = (Inr n, db3)" "mset (pt_rows (ed_events db3)) = mset es"
    using aborted_batch_resurrected [OF db(1,2) envs inj _ ps r] by (auto simp: db(3))
  have "n \<noteq> 0" using n(2,3) scope by (intro notI) auto
  then have "n = 1" using n(1) by simp
  then obtain e where "es = [e]" "ev_kind e = ''a''" using n(4) by (auto simp: witness_create_def)
  then show ?thesis using r n(5,6) \<open>n = 1\<close> by (intro exI [of _ "EventErr PermissionScopeError"] exI [of _ store1] exI [of _ db3] exI [of _ e]) simp
qed

end
