(* ===== verification/UserRouter.thy ===== *)
theory UserRouter
  imports Routes
begin

text \<open>
  \<open>user/user_router.py\<close> and the constraints of \<open>user/user_schemas.py\<close>. \<open>EmailStr\<close> is the third-party
  email-validator: a parameter that normalizes an address or refuses it. The response
  schema has the same type, so the address of a stored user is validated again on the way out.
\<close>

section \<open>Requests and responses\<close>

text \<open>\<open>UserRead\<close> leaves the password hash out.\<close>

record user_read =
  ud_id :: uuid
  ud_email :: string
  ud_username :: string
  ud_enabled :: bool
  ud_created_at :: datetime
  ud_updated_at :: datetime

definition email_str :: "(string \<Rightarrow> string option) \<Rightarrow> nat \<Rightarrow> string \<Rightarrow> nat + string" where
  "email_str valid_email status s = (case valid_email s of None \<Rightarrow> Inl status | Some e \<Rightarrow> Inr e)"

definition read_user :: "(string \<Rightarrow> string option) \<Rightarrow> user \<Rightarrow> nat + user_read" where
  "read_user valid_email u =
     bindR (email_str valid_email 500 (u_email u)) (\<lambda>e.
       Inr \<lparr>ud_id = u_id u, ud_email = e, ud_username = u_username u, ud_enabled = u_enabled u,
            ud_created_at = u_created_at u, ud_updated_at = u_updated_at u\<rparr>)"

text \<open>\<open>Field(default=None, min_length=1)\<close>.\<close>

definition min_chars :: "string \<Rightarrow> nat + string" where
  "min_chars s = (if s = [] then Inl 422 else Inr s)"

definition valid_user_create :: "(string \<Rightarrow> string option) \<Rightarrow> user_create \<Rightarrow> nat + user_create" where
  "valid_user_create valid_email payload =
     bindR (email_str valid_email 422 (uc_email payload)) (\<lambda>e.
     bindR (strip_required 64 (uc_username payload)) (\<lambda>n.
     bindR (on_opt min_chars (uc_password payload)) (\<lambda>p.
       Inr (payload\<lparr>uc_email := e, uc_username := n, uc_password := p\<rparr>))))"

definition valid_user_update :: "(string \<Rightarrow> string option) \<Rightarrow> user_update \<Rightarrow> nat + user_update" where
  "valid_user_update valid_email payload =
     bindR (on_opt (email_str valid_email 422) (uu_email payload)) (\<lambda>e.
     bindR (on_opt (strip_required 64) (uu_username payload)) (\<lambda>n.
     bindR (on_opt min_chars (uu_password payload)) (\<lambda>p.
       Inr (payload\<lparr>uu_email := e, uu_username := n, uu_password := p\<rparr>))))"

text \<open>The \<open>except\<close> clauses.\<close>

fun on_user_create :: "svc_error \<Rightarrow> nat option" where
  "on_user_create PermissionScopeError = Some 403"
| "on_user_create (EmailConflictError s) = Some 409"
| "on_user_create (UsernameConflictError s) = Some 409"
| "on_user_create _ = None"

fun on_user_update :: "svc_error \<Rightarrow> nat option" where
  "on_user_update NotFoundError = Some 404"
| "on_user_update (EmailConflictError s) = Some 409"
| "on_user_update (UsernameConflictError s) = Some 409"
| "on_user_update _ = None"

fun on_user_batch :: "svc_error \<Rightarrow> nat option" where
  "on_user_batch (BatchPermissionDeniedError s) = Some 403"
| "on_user_batch PermissionScopeError = Some 403"
| "on_user_batch NotFoundError = Some 404"
| "on_user_batch (EmailConflictError s) = Some 409"
| "on_user_batch (UsernameConflictError s) = Some 409"
| "on_user_batch _ = None"

section \<open>Routes\<close>

definition search_users_route ::
    "'y svc_env_scheme \<Rightarrow> (string \<Rightarrow> string option) \<Rightarrow> registry \<Rightarrow> auth_token option \<Rightarrow> sfilter \<Rightarrow> string option \<Rightarrow> nat \<Rightarrow>
     'z svc_db_scheme \<Rightarrow> nat + user_read list \<times> string option \<times> nat" where
  "search_users_route env valid_email reg token search_filter cursor limit db =
     search_route reg (auth_view db) ''User'' token uuid_cursor uuid_str (read_user valid_email)
       (\<lambda>f. search_users env f db) search_filter cursor limit"

definition count_users_route ::
    "'y svc_env_scheme \<Rightarrow> registry \<Rightarrow> auth_token option \<Rightarrow> sfilter \<Rightarrow> 'z svc_db_scheme \<Rightarrow> nat + nat" where
  "count_users_route env reg token search_filter db =
     count_route reg (auth_view db) ''User'' token (\<lambda>f. count_users env f db) search_filter"

definition create_user_route ::
    "'y svc_env_scheme \<Rightarrow> (string \<Rightarrow> string option) \<Rightarrow> registry \<Rightarrow> auth_token option \<Rightarrow> user_create \<Rightarrow> 'z svc_db_scheme \<Rightarrow>
     (nat + user_read) \<times> 'z svc_db_scheme" where
  "create_user_route env valid_email reg token payload db =
     write_route reg (auth_view db) ''User'' CREATE token (valid_user_create valid_email) (read_user valid_email)
       (\<lambda>f body. http_errors on_user_create (create_user env 0 f body db)) payload db"

definition get_users_batch_route ::
    "'y svc_env_scheme \<Rightarrow> (string \<Rightarrow> string option) \<Rightarrow> registry \<Rightarrow> auth_token option \<Rightarrow> uuid list \<Rightarrow> 'z svc_db_scheme \<Rightarrow>
     nat + user_read option list" where
  "get_users_batch_route env valid_email reg token ids db =
     batch_read_route reg (auth_view db) ''User'' token (read_user valid_email) (\<lambda>f ks. get_many_users env f ks db) ids"

definition write_users_batch_route ::
    "'y svc_env_scheme \<Rightarrow> (string \<Rightarrow> string option) \<Rightarrow> registry \<Rightarrow> auth_token option \<Rightarrow>
     (uuid, user_create, user_update) batch_op list \<Rightarrow> 'z svc_db_scheme \<Rightarrow>
     (nat + user_read option list) \<times> 'z svc_db_scheme" where
  "write_users_batch_route env valid_email reg token operations db =
     batch_write_route reg (auth_view db) ''User'' [CREATE, UPDATE, DELETE] token
       (valid_user_create valid_email) (valid_user_update valid_email) (read_user valid_email)
       (\<lambda>perm_filters ops. http_errors on_user_batch (apply_user_batch env ops perm_filters db)) operations db"

definition get_user_route ::
    "'y svc_env_scheme \<Rightarrow> (string \<Rightarrow> string option) \<Rightarrow> registry \<Rightarrow> auth_token option \<Rightarrow> uuid \<Rightarrow> 'z svc_db_scheme \<Rightarrow> nat + user_read" where
  "get_user_route env valid_email reg token user_id db =
     get_route reg (auth_view db) ''User'' token (read_user valid_email) (\<lambda>f. get_user env f user_id db)"

definition update_user_route ::
    "'y svc_env_scheme \<Rightarrow> (string \<Rightarrow> string option) \<Rightarrow> registry \<Rightarrow> auth_token option \<Rightarrow> uuid \<Rightarrow> user_update \<Rightarrow> 'z svc_db_scheme \<Rightarrow>
     (nat + user_read) \<times> 'z svc_db_scheme" where
  "update_user_route env valid_email reg token user_id payload db =
     write_route reg (auth_view db) ''User'' UPDATE token (valid_user_update valid_email) (read_user valid_email)
       (\<lambda>f body. http_errors on_user_update (update_user env f user_id body db)) payload db"

definition delete_user_route ::
    "'y svc_env_scheme \<Rightarrow> registry \<Rightarrow> auth_token option \<Rightarrow> uuid \<Rightarrow> 'z svc_db_scheme \<Rightarrow> (nat + unit) \<times> 'z svc_db_scheme" where
  "delete_user_route env reg token user_id db =
     delete_route reg (auth_view db) ''User'' token (\<lambda>f. delete_user env f user_id db) db"

end
