(* ===== verification/RoleRouter.thy ===== *)
theory RoleRouter
  imports Routes
begin

text \<open>
  \<open>role/role_router.py\<close> and \<open>role/user_role_router.py\<close> with their schemas. Roles are a resource
  with all operations; an assignment of a role to a user is created and deleted, never updated.
\<close>

section \<open>Roles\<close>

text \<open>\<open>RoleRead\<close> carries every policy column; the payloads carry one field per column, so no others.\<close>

definition valid_role_create :: "role_create \<Rightarrow> nat + role_create" where
  "valid_role_create payload = bindR (strip_required 255 (rc_name payload)) (\<lambda>n. Inr (payload\<lparr>rc_name := n\<rparr>))"

definition valid_role_update :: "role_update \<Rightarrow> nat + role_update" where
  "valid_role_update payload = bindR (on_opt (strip_required 255) (rup_name payload)) (\<lambda>n. Inr (payload\<lparr>rup_name := n\<rparr>))"

fun on_role_create :: "svc_error \<Rightarrow> nat option" where
  "on_role_create PermissionScopeError = Some 403"
| "on_role_create (ConflictError s) = Some 409"
| "on_role_create _ = None"

fun on_role_update :: "svc_error \<Rightarrow> nat option" where
  "on_role_update NotFoundError = Some 404"
| "on_role_update (ConflictError s) = Some 409"
| "on_role_update _ = None"

fun on_role_batch :: "svc_error \<Rightarrow> nat option" where
  "on_role_batch (BatchPermissionDeniedError s) = Some 403"
| "on_role_batch PermissionScopeError = Some 403"
| "on_role_batch NotFoundError = Some 404"
| "on_role_batch (ConflictError s) = Some 409"
| "on_role_batch _ = None"

definition search_roles_route ::
    "'y svc_env_scheme \<Rightarrow> registry \<Rightarrow> auth_token option \<Rightarrow> sfilter \<Rightarrow> string option \<Rightarrow> nat \<Rightarrow>
     'z svc_db_scheme \<Rightarrow> nat + role list \<times> string option \<times> nat" where
  "search_roles_route env reg token search_filter cursor limit db =
     search_route reg (auth_view db) ''Role'' token uuid_cursor uuid_str Inr
       (\<lambda>f. search_roles env f db) search_filter cursor limit"

definition count_roles_route ::
    "'y svc_env_scheme \<Rightarrow> registry \<Rightarrow> auth_token option \<Rightarrow> sfilter \<Rightarrow> 'z svc_db_scheme \<Rightarrow> nat + nat" where
  "count_roles_route env reg token search_filter db =
     count_route reg (auth_view db) ''Role'' token (\<lambda>f. count_roles env f db) search_filter"

definition create_role_route ::
    "'y svc_env_scheme \<Rightarrow> registry \<Rightarrow> auth_token option \<Rightarrow> role_create \<Rightarrow> 'z svc_db_scheme \<Rightarrow>
     (nat + role) \<times> 'z svc_db_scheme" where
  "create_role_route env reg token payload db =
     write_route reg (auth_view db) ''Role'' CREATE token valid_role_create Inr
       (\<lambda>f body. http_errors on_role_create (create_role env 0 f body db)) payload db"

definition get_roles_batch_route ::
    "'y svc_env_scheme \<Rightarrow> registry \<Rightarrow> auth_token option \<Rightarrow> uuid list \<Rightarrow> 'z svc_db_scheme \<Rightarrow> nat + role option list" where
  "get_roles_batch_route env reg token ids db =
     batch_read_route reg (auth_view db) ''Role'' token Inr (\<lambda>f ks. get_many_roles env f ks db) ids"

definition write_roles_batch_route ::
    "'y svc_env_scheme \<Rightarrow> registry \<Rightarrow> auth_token option \<Rightarrow> (uuid, role_create, role_update) batch_op list \<Rightarrow>
     'z svc_db_scheme \<Rightarrow> (nat + role option list) \<times> 'z svc_db_scheme" where
  "write_roles_batch_route env reg token operations db =
     batch_write_route reg (auth_view db) ''Role'' [CREATE, UPDATE, DELETE] token valid_role_create valid_role_update Inr
       (\<lambda>perm_filters ops. http_errors on_role_batch (apply_role_batch env ops perm_filters db)) operations db"

definition get_role_route ::
    "'y svc_env_scheme \<Rightarrow> registry \<Rightarrow> auth_token option \<Rightarrow> uuid \<Rightarrow> 'z svc_db_scheme \<Rightarrow> nat + role" where
  "get_role_route env reg token role_id db =
     get_route reg (auth_view db) ''Role'' token Inr (\<lambda>f. get_role env f role_id db)"

definition update_role_route ::
    "'y svc_env_scheme \<Rightarrow> registry \<Rightarrow> auth_token option \<Rightarrow> uuid \<Rightarrow> role_update \<Rightarrow> 'z svc_db_scheme \<Rightarrow>
     (nat + role) \<times> 'z svc_db_scheme" where
  "update_role_route env reg token role_id payload db =
     write_route reg (auth_view db) ''Role'' UPDATE token valid_role_update Inr
       (\<lambda>f body. http_errors on_role_update (update_role env f role_id body db)) payload db"

definition delete_role_route ::
    "'y svc_env_scheme \<Rightarrow> registry \<Rightarrow> auth_token option \<Rightarrow> uuid \<Rightarrow> 'z svc_db_scheme \<Rightarrow> (nat + unit) \<times> 'z svc_db_scheme" where
  "delete_role_route env reg token role_id db =
     delete_route reg (auth_view db) ''Role'' token (\<lambda>f. delete_role env f role_id db) db"

section \<open>Role assignments\<close>

text \<open>The link tables share their clauses; \<open>UserRoleRead\<close> and \<open>GroupUserRead\<close> carry every column of the row.\<close>

fun on_link_create :: "svc_error \<Rightarrow> nat option" where
  "on_link_create PermissionScopeError = Some 403"
| "on_link_create (ConflictError s) = Some 409"
| "on_link_create (OrphanError s) = Some 404"
| "on_link_create _ = None"

fun on_link_batch :: "svc_error \<Rightarrow> nat option" where
  "on_link_batch (BatchPermissionDeniedError s) = Some 403"
| "on_link_batch PermissionScopeError = Some 403"
| "on_link_batch (ConflictError s) = Some 409"
| "on_link_batch (OrphanError s) = Some 404"
| "on_link_batch NotFoundError = Some 404"
| "on_link_batch _ = None"

text \<open>An update is no operation of the batch schema of a link table.\<close>

definition refuse :: "'u \<Rightarrow> nat + 'u" where
  "refuse u = Inl 422"

definition search_user_roles_route ::
    "'y svc_env_scheme \<Rightarrow> registry \<Rightarrow> auth_token option \<Rightarrow> sfilter \<Rightarrow> string option \<Rightarrow> nat \<Rightarrow>
     'z svc_db_scheme \<Rightarrow> nat + user_role list \<times> string option \<times> nat" where
  "search_user_roles_route env reg token search_filter cursor limit db =
     search_route reg (auth_view db) ''UserRole'' token uuid_cursor uuid_str Inr
       (\<lambda>f. search_user_roles env f db) search_filter cursor limit"

definition count_user_roles_route ::
    "'y svc_env_scheme \<Rightarrow> registry \<Rightarrow> auth_token option \<Rightarrow> sfilter \<Rightarrow> 'z svc_db_scheme \<Rightarrow> nat + nat" where
  "count_user_roles_route env reg token search_filter db =
     count_route reg (auth_view db) ''UserRole'' token (\<lambda>f. count_user_roles env f db) search_filter"

definition create_user_role_route ::
    "'y svc_env_scheme \<Rightarrow> registry \<Rightarrow> auth_token option \<Rightarrow> uuid \<times> uuid \<Rightarrow> 'z svc_db_scheme \<Rightarrow>
     (nat + user_role) \<times> 'z svc_db_scheme" where
  "create_user_role_route env reg token payload db =
     write_route reg (auth_view db) ''UserRole'' CREATE token Inr Inr
       (\<lambda>f body. http_errors on_link_create (create_user_role env 0 f body db)) payload db"

definition get_user_roles_batch_route ::
    "'y svc_env_scheme \<Rightarrow> registry \<Rightarrow> auth_token option \<Rightarrow> uuid list \<Rightarrow> 'z svc_db_scheme \<Rightarrow> nat + user_role option list" where
  "get_user_roles_batch_route env reg token ids db =
     batch_read_route reg (auth_view db) ''UserRole'' token Inr (\<lambda>f ks. get_many_user_roles env f ks db) ids"

definition write_user_roles_batch_route ::
    "'y svc_env_scheme \<Rightarrow> registry \<Rightarrow> auth_token option \<Rightarrow> (uuid, uuid \<times> uuid, unit) batch_op list \<Rightarrow>
     'z svc_db_scheme \<Rightarrow> (nat + user_role option list) \<times> 'z svc_db_scheme" where
  "write_user_roles_batch_route env reg token operations db =
     batch_write_route reg (auth_view db) ''UserRole'' [CREATE, DELETE] token Inr refuse Inr
       (\<lambda>perm_filters ops. http_errors on_link_batch (apply_user_role_batch env ops perm_filters db)) operations db"

definition get_user_role_route ::
    "'y svc_env_scheme \<Rightarrow> registry \<Rightarrow> auth_token option \<Rightarrow> uuid \<Rightarrow> 'z svc_db_scheme \<Rightarrow> nat + user_role" where
  "get_user_role_route env reg token user_role_id db =
     get_route reg (auth_view db) ''UserRole'' token Inr (\<lambda>f. get_user_role env f user_role_id db)"

definition delete_user_role_route ::
    "'y svc_env_scheme \<Rightarrow> registry \<Rightarrow> auth_token option \<Rightarrow> uuid \<Rightarrow> 'z svc_db_scheme \<Rightarrow> (nat + unit) \<times> 'z svc_db_scheme" where
  "delete_user_role_route env reg token user_role_id db =
     delete_route reg (auth_view db) ''UserRole'' token (\<lambda>f. delete_user_role env f user_role_id db) db"

end
