(* ===== verification/GroupRouter.thy ===== *)
theory GroupRouter
  imports RoleRouter
begin

text \<open>
  \<open>group/group_router.py\<close> and \<open>group/group_schemas.py\<close>: the groups and the memberships. What a
  principal creates carries its id, so creating needs a principal besides the grant.
\<close>

section \<open>Groups\<close>

definition valid_group_create :: "group_create \<Rightarrow> nat + group_create" where
  "valid_group_create payload =
     bindR (strip_required 255 (gc_name payload)) (\<lambda>n.
     bindR (on_opt (max_chars 2048) (gc_description payload)) (\<lambda>d.
       Inr (payload\<lparr>gc_name := n, gc_description := d\<rparr>)))"

definition valid_group_update :: "group_update \<Rightarrow> nat + group_update" where
  "valid_group_update payload =
     bindR (on_opt (strip_required 255) (gup_name payload)) (\<lambda>n.
     bindR (on_opt (max_chars 2048) (gup_description payload)) (\<lambda>d.
       Inr (payload\<lparr>gup_name := n, gup_description := d\<rparr>)))"

fun on_group_create :: "svc_error \<Rightarrow> nat option" where
  "on_group_create PermissionScopeError = Some 403"
| "on_group_create _ = None"

fun on_group_update :: "svc_error \<Rightarrow> nat option" where
  "on_group_update NotFoundError = Some 404"
| "on_group_update PermissionScopeError = Some 403"
| "on_group_update _ = None"

fun on_group_batch :: "svc_error \<Rightarrow> nat option" where
  "on_group_batch (BatchPermissionDeniedError s) = Some 403"
| "on_group_batch PermissionScopeError = Some 403"
| "on_group_batch NotFoundError = Some 404"
| "on_group_batch _ = None"

definition search_groups_route ::
    "'y svc_env_scheme \<Rightarrow> registry \<Rightarrow> auth_token option \<Rightarrow> sfilter \<Rightarrow> string option \<Rightarrow> nat \<Rightarrow>
     'z svc_db_scheme \<Rightarrow> nat + group list \<times> string option \<times> nat" where
  "search_groups_route env reg token search_filter cursor limit db =
     search_route reg (auth_view db) ''Group'' token uuid_cursor uuid_str Inr
       (\<lambda>f. search_groups env f db) search_filter cursor limit"

definition count_groups_route ::
    "'y svc_env_scheme \<Rightarrow> registry \<Rightarrow> auth_token option \<Rightarrow> sfilter \<Rightarrow> 'z svc_db_scheme \<Rightarrow> nat + nat" where
  "count_groups_route env reg token search_filter db =
     count_route reg (auth_view db) ''Group'' token (\<lambda>f. count_groups env f db) search_filter"

definition create_group_route ::
    "'y svc_env_scheme \<Rightarrow> registry \<Rightarrow> auth_token option \<Rightarrow> group_create \<Rightarrow> 'z svc_db_scheme \<Rightarrow>
     (nat + group) \<times> 'z svc_db_scheme" where
  "create_group_route env reg token payload db =
     write_route reg (auth_view db) ''Group'' CREATE token valid_group_create Inr
       (\<lambda>f body. require_user 403 token (\<lambda>creator_id. http_errors on_group_create (create_group env creator_id 0 f body db)))
       payload db"

definition get_groups_batch_route ::
    "'y svc_env_scheme \<Rightarrow> registry \<Rightarrow> auth_token option \<Rightarrow> uuid list \<Rightarrow> 'z svc_db_scheme \<Rightarrow> nat + group option list" where
  "get_groups_batch_route env reg token ids db =
     batch_read_route reg (auth_view db) ''Group'' token Inr (\<lambda>f ks. get_many_groups env f ks db) ids"

definition write_groups_batch_route ::
    "'y svc_env_scheme \<Rightarrow> registry \<Rightarrow> auth_token option \<Rightarrow> (uuid, group_create, group_update) batch_op list \<Rightarrow>
     'z svc_db_scheme \<Rightarrow> (nat + group option list) \<times> 'z svc_db_scheme" where
  "write_groups_batch_route env reg token operations db =
     batch_write_route reg (auth_view db) ''Group'' [CREATE, UPDATE, DELETE] token valid_group_create valid_group_update Inr
       (\<lambda>perm_filters ops. require_user 403 token (\<lambda>creator_id.
          http_errors on_group_batch (apply_group_batch env creator_id ops perm_filters db)))
       operations db"

definition get_group_route ::
    "'y svc_env_scheme \<Rightarrow> registry \<Rightarrow> auth_token option \<Rightarrow> uuid \<Rightarrow> 'z svc_db_scheme \<Rightarrow> nat + group" where
  "get_group_route env reg token group_id db =
     get_route reg (auth_view db) ''Group'' token Inr (\<lambda>f. get_group env f group_id db)"

definition update_group_route ::
    "'y svc_env_scheme \<Rightarrow> registry \<Rightarrow> auth_token option \<Rightarrow> uuid \<Rightarrow> group_update \<Rightarrow> 'z svc_db_scheme \<Rightarrow>
     (nat + group) \<times> 'z svc_db_scheme" where
  "update_group_route env reg token group_id payload db =
     write_route reg (auth_view db) ''Group'' UPDATE token valid_group_update Inr
       (\<lambda>f body. http_errors on_group_update (update_group env f group_id body db)) payload db"

definition delete_group_route ::
    "'y svc_env_scheme \<Rightarrow> registry \<Rightarrow> auth_token option \<Rightarrow> uuid \<Rightarrow> 'z svc_db_scheme \<Rightarrow> (nat + unit) \<times> 'z svc_db_scheme" where
  "delete_group_route env reg token group_id db =
     delete_route reg (auth_view db) ''Group'' token (\<lambda>f. delete_group env f group_id db) db"

section \<open>Memberships\<close>

definition search_group_users_route ::
    "'y svc_env_scheme \<Rightarrow> registry \<Rightarrow> auth_token option \<Rightarrow> sfilter \<Rightarrow> string option \<Rightarrow> nat \<Rightarrow>
     'z svc_db_scheme \<Rightarrow> nat + group_user list \<times> string option \<times> nat" where
  "search_group_users_route env reg token search_filter cursor limit db =
     search_route reg (auth_view db) ''GroupUser'' token uuid_cursor uuid_str Inr
       (\<lambda>f. search_group_users env f db) search_filter cursor limit"

definition count_group_users_route ::
    "'y svc_env_scheme \<Rightarrow> registry \<Rightarrow> auth_token option \<Rightarrow> sfilter \<Rightarrow> 'z svc_db_scheme \<Rightarrow> nat + nat" where
  "count_group_users_route env reg token search_filter db =
     count_route reg (auth_view db) ''GroupUser'' token (\<lambda>f. count_group_users env f db) search_filter"

definition create_group_user_route ::
    "'y svc_env_scheme \<Rightarrow> registry \<Rightarrow> auth_token option \<Rightarrow> uuid \<times> uuid \<Rightarrow> 'z svc_db_scheme \<Rightarrow>
     (nat + group_user) \<times> 'z svc_db_scheme" where
  "create_group_user_route env reg token payload db =
     write_route reg (auth_view db) ''GroupUser'' CREATE token Inr Inr
       (\<lambda>f body. require_user 403 token (\<lambda>creator_id. http_errors on_link_create (create_group_user env creator_id 0 f body db)))
       payload db"

definition get_group_users_batch_route ::
    "'y svc_env_scheme \<Rightarrow> registry \<Rightarrow> auth_token option \<Rightarrow> uuid list \<Rightarrow> 'z svc_db_scheme \<Rightarrow> nat + group_user option list" where
  "get_group_users_batch_route env reg token ids db =
     batch_read_route reg (auth_view db) ''GroupUser'' token Inr (\<lambda>f ks. get_many_group_users env f ks db) ids"

definition write_group_users_batch_route ::
    "'y svc_env_scheme \<Rightarrow> registry \<Rightarrow> auth_token option \<Rightarrow> (uuid, uuid \<times> uuid, unit) batch_op list \<Rightarrow>
     'z svc_db_scheme \<Rightarrow> (nat + group_user option list) \<times> 'z svc_db_scheme" where
  "write_group_users_batch_route env reg token operations db =
     batch_write_route reg (auth_view db) ''GroupUser'' [CREATE, DELETE] token Inr refuse Inr
       (\<lambda>perm_filters ops. require_user 403 token (\<lambda>creator_id.
          http_errors on_link_batch (apply_group_user_batch env creator_id ops perm_filters db)))
       operations db"

definition get_group_user_route ::
    "'y svc_env_scheme \<Rightarrow> registry \<Rightarrow> auth_token option \<Rightarrow> uuid \<Rightarrow> 'z svc_db_scheme \<Rightarrow> nat + group_user" where
  "get_group_user_route env reg token group_user_id db =
     get_route reg (auth_view db) ''GroupUser'' token Inr (\<lambda>f. get_group_user env f group_user_id db)"

definition delete_group_user_route ::
    "'y svc_env_scheme \<Rightarrow> registry \<Rightarrow> auth_token option \<Rightarrow> uuid \<Rightarrow> 'z svc_db_scheme \<Rightarrow> (nat + unit) \<times> 'z svc_db_scheme" where
  "delete_group_user_route env reg token group_user_id db =
     delete_route reg (auth_view db) ''GroupUser'' token (\<lambda>f. delete_group_user env f group_user_id db) db"

end
