(* ===== verification/IdentityRouteLaws.thy ===== *)
theory IdentityRouteLaws
  imports UserRouter GroupRouter RouteLaws OAuthLaws
begin

text \<open>
  The routers of users, roles, role assignments, groups, memberships and API keys over the laws of
  the shared handlers: batches are runs of allowed operations, a single write is a batch
  of one, and the pages of users end at the first address the response schema refuses.
\<close>

section \<open>Batches\<close>

lemma readable_identity:
  "local_policies reg ''User'' db \<Longrightarrow> readable user_attrs reg (auth_view db) ''User'' D"
  "local_policies reg ''Role'' db \<Longrightarrow> readable role_attrs reg (auth_view db) ''Role'' D"
  "local_policies reg ''UserRole'' db \<Longrightarrow> readable user_role_attrs reg (auth_view db) ''UserRole'' D"
  "local_policies reg ''Group'' db \<Longrightarrow> readable group_attrs reg (auth_view db) ''Group'' D"
  "local_policies reg ''GroupUser'' db \<Longrightarrow> readable group_user_attrs reg (auth_view db) ''GroupUser'' D"
  "local_policies reg ''ApiKey'' db \<Longrightarrow> readable api_key_attrs reg (auth_view db) ''ApiKey'' D"
  by (rule local_policies_read [where key = u_id] local_policies_read [where key = r_id]
      local_policies_read [where key = ur_id] local_policies_read [where key = g_id]
      local_policies_read [where key = gu_id] local_policies_read [where key = ak_id];
      simp add: id_or_null_def role_attrs_def user_role_attrs_def group_attrs_def group_user_attrs_def ROLE_ENTITY_COLUMNS_def)+

lemma require_user_Inr: "require_user status token h = Inr x \<Longrightarrow> \<exists>u. depends_user_id token = Some u \<and> h u = Inr x"
  by (auto simp: require_user_def split: option.splits)

text \<open>What a batch of a resource may answer.\<close>

abbreviation batch_answer where
  "batch_answer view draft key rows reg model token valid read operations db answer \<equiv>
     answers_batch (\<lambda>a. row_allowed view reg (auth_view db) model a token)
       (row_allowed draft reg (auth_view db) model CREATE token) key rows integrity valid read operations db answer"

lemma users_batch:
  assumes "integrity db" "sql_engine (se_ev env)" "local_policies reg ''User'' db"
  shows "batch_answer user_attrs (\<lambda>r. unsaved (user_attrs r)) u_id td_users reg ''User'' token
    (valid_batch (valid_user_create ve) (valid_user_update ve)) (read_user ve) operations db
    (write_users_batch_route env ve reg token operations db)"
  unfolding write_users_batch_route_def
proof (rule batch_route_answers [OF assms(2) readable_identity(1) [OF assms(3)]])
  fix filters ops xs db'
  assume "http_errors on_user_batch (apply_user_batch env ops filters db) = Inr (xs, db')"
  then show "integrity db' \<and> authorized_run (\<lambda>r. unsaved (user_attrs r)) u_id
      (\<lambda>db f r. in_scope (se_ev env) (sql_tables db) f (user_attrs r)) td_users filters ops xs db db'"
    using user_service.batch_run [OF assms(1), of env filters 0 ops xs db'] by (simp add: apply_user_batch_def)
qed

lemma roles_batch:
  assumes "integrity db" "sql_engine (se_ev env)" "local_policies reg ''Role'' db"
  shows "batch_answer role_attrs (\<lambda>r. unsaved (role_attrs r)) r_id sv_roles reg ''Role'' token
    (valid_batch valid_role_create valid_role_update) Inr operations db (write_roles_batch_route env reg token operations db)"
  unfolding write_roles_batch_route_def
proof (rule batch_route_answers [OF assms(2) readable_identity(2) [OF assms(3)]])
  fix filters ops xs db'
  assume "http_errors on_role_batch (apply_role_batch env ops filters db) = Inr (xs, db')"
  then show "integrity db' \<and> authorized_run (\<lambda>r. unsaved (role_attrs r)) r_id
      (\<lambda>db f r. in_scope (se_ev env) (sql_tables db) f (role_attrs r)) sv_roles filters ops xs db db'"
    using role_service.batch_run [OF assms(1), of env filters 0 ops xs db'] by (simp add: apply_role_batch_def)
qed

lemma user_roles_batch:
  assumes "integrity db" "sql_engine (se_ev env)" "local_policies reg ''UserRole'' db"
  shows "batch_answer user_role_attrs (\<lambda>r. unsaved (user_role_attrs r)) ur_id sv_user_roles reg ''UserRole'' token
    (valid_batch Inr refuse) Inr operations db (write_user_roles_batch_route env reg token operations db)"
  unfolding write_user_roles_batch_route_def
proof (rule batch_route_answers [OF assms(2) readable_identity(3) [OF assms(3)]])
  fix filters ops xs db'
  assume "http_errors on_link_batch (apply_user_role_batch env ops filters db) = Inr (xs, db')"
  then show "integrity db' \<and> authorized_run (\<lambda>r. unsaved (user_role_attrs r)) ur_id
      (\<lambda>db f r. in_scope (se_ev env) (sql_tables db) f (user_role_attrs r)) sv_user_roles filters ops xs db db'"
    using user_role_service.batch_run [OF assms(1), of env filters 0 ops xs db'] by (simp add: apply_user_role_batch_def)
qed

lemma groups_batch:
  assumes "integrity db" "sql_engine (se_ev env)" "local_policies reg ''Group'' db"
  shows "batch_answer group_attrs (\<lambda>r. unsaved (group_attrs r)) g_id sv_groups reg ''Group'' token
    (valid_batch valid_group_create valid_group_update) Inr operations db (write_groups_batch_route env reg token operations db)"
  unfolding write_groups_batch_route_def
proof (rule batch_route_answers [OF assms(2) readable_identity(4) [OF assms(3)]])
  fix filters ops xs db'
  assume "require_user 403 token (\<lambda>creator_id.
      http_errors on_group_batch (apply_group_batch env creator_id ops filters db)) = Inr (xs, db')"
  then obtain c where "apply_group_batch env c ops filters db = Inr (xs, db')" by (auto dest: require_user_Inr)
  then show "integrity db' \<and> authorized_run (\<lambda>r. unsaved (group_attrs r)) g_id
      (\<lambda>db f r. in_scope (se_ev env) (sql_tables db) f (group_attrs r)) sv_groups filters ops xs db db'"
    using group_service.batch_run [OF assms(1), of env c filters 0 ops xs db'] by (simp add: apply_group_batch_def)
qed

lemma group_users_batch:
  assumes "integrity db" "sql_engine (se_ev env)" "local_policies reg ''GroupUser'' db"
  shows "batch_answer group_user_attrs (\<lambda>r. unsaved (group_user_attrs r)) gu_id sv_group_users reg ''GroupUser'' token
    (valid_batch Inr refuse) Inr operations db (write_group_users_batch_route env reg token operations db)"
  unfolding write_group_users_batch_route_def
proof (rule batch_route_answers [OF assms(2) readable_identity(5) [OF assms(3)]])
  fix filters ops xs db'
  assume "require_user 403 token (\<lambda>creator_id.
      http_errors on_link_batch (apply_group_user_batch env creator_id ops filters db)) = Inr (xs, db')"
  then obtain c where "apply_group_user_batch env c ops filters db = Inr (xs, db')" by (auto dest: require_user_Inr)
  then show "integrity db' \<and> authorized_run (\<lambda>r. unsaved (group_user_attrs r)) gu_id
      (\<lambda>db f r. in_scope (se_ev env) (sql_tables db) f (group_user_attrs r)) sv_group_users filters ops xs db db'"
    using group_user_service.batch_run [OF assms(1), of env c filters 0 ops xs db'] by (simp add: apply_group_user_batch_def)
qed

lemma keys_batch:
  assumes "integrity db" "sql_engine (se_ev env)" "local_policies reg ''ApiKey'' db"
  shows "batch_answer api_key_attrs key_draft ak_id td_api_keys reg ''ApiKey'' token
    (valid_batch valid_create valid_update) (\<lambda>k. Inr (key_read k)) operations db
    (write_api_keys_batch_route env reg token operations db)"
  unfolding write_api_keys_batch_route_def
proof (rule batch_route_answers [OF assms(2) readable_identity(6) [OF assms(3)]])
  fix filters ops xs db'
  assume "require_user 403 token (\<lambda>user_id.
      http_errors on_batch (apply_key_batch env user_id ops filters db)) = Inr (xs, db')"
  then obtain c where "apply_key_batch env c ops filters db = Inr (xs, db')" by (auto dest: require_user_Inr)
  then show "integrity db' \<and> authorized_run key_draft ak_id
      (\<lambda>db f r. in_scope (se_ev env) (sql_tables db) f (api_key_attrs r)) td_api_keys filters ops xs db db'"
    using key_service.batch_run [OF assms(1), of env c filters 0 ops xs db'] by (simp add: apply_key_batch_def)
qed

section \<open>A single write is a batch of one\<close>

lemma http_errors_mono:
  "(\<And>e. r = Inl e \<Longrightarrow> c1 e = c2 e) \<Longrightarrow>
     http_errors c2 (bindR r (\<lambda>x. Inr (g x))) = bindR (http_errors c1 r) (\<lambda>x. Inr (g x))"
  by (cases r) (simp_all add: http_errors_def)

lemma batch_single:
  "filters CREATE = Some f \<Longrightarrow> batch_loop create update delete filters 0 [BatchCreate p] db =
     bindR (create 0 f p db) (\<lambda>x. Inr ([Some (fst x)], snd x))"
  "filters UPDATE = Some f \<Longrightarrow> batch_loop create update delete filters 0 [BatchUpdate k u] db =
     bindR (update f k u db) (\<lambda>x. Inr ([Some (fst x)], snd x))"
  "filters DELETE = Some f \<Longrightarrow> batch_loop create update delete filters 0 [BatchDelete k] db =
     bindR (delete f k db) (\<lambda>x. Inr ([None], x))"
  by (simp_all add: case_prod_unfold)

text \<open>The errors of the statements and the checks that come before the flush.\<close>

definition check_errors :: "svc_error set" where
  "check_errors = insert PermissionScopeError (range Raised500)"

definition get_errors :: "svc_error set" where
  "get_errors = {NotFoundError, MultipleRows} \<union> range Raised500"

lemma check_scope_Inl: "check_scope f r = Inl e \<Longrightarrow> e \<in> check_errors"
  by (cases "svc_py (matches f (plain_item (unsaved r)))")
    (auto simp: check_scope_def svc_py_def check_errors_def split: sum.splits if_splits)

lemma scoped_get_Inl: "scoped_get ev D f view key rows k = Inl e \<Longrightarrow> e \<in> get_errors"
  by (auto simp: scoped_get_def svc_py_def get_errors_def bindR_Inl_iff split: sum.splits list.splits)

lemma catch_integrity_Inl: "catch_integrity cl (flush_rows env vs x) = Inl e \<Longrightarrow> e \<in> range cl"
  by (auto simp: catch_integrity_def flush_rows_def split: if_splits)

lemma create_Inl:
  "create_user env i f pu db = Inl e \<Longrightarrow> on_user_create e = on_user_batch e"
  "create_role env i f pr db = Inl e \<Longrightarrow> on_role_create e = on_role_batch e"
  "create_group env c i f pg db = Inl e \<Longrightarrow> on_group_create e = on_group_batch e"
proof -
  assume "create_user env i f pu db = Inl e"
  then have "e \<in> check_errors \<or> e \<in> range (classify_user_error (Some (uc_email pu)) (Some (uc_username pu)))"
    by (auto simp: create_user_def Let_def bindR_Inl_iff dest: check_scope_Inl catch_integrity_Inl)
  then show "on_user_create e = on_user_batch e" by (auto simp: check_errors_def classify_user_error_def)
next
  assume "create_role env i f pr db = Inl e"
  then have "e \<in> check_errors \<or> e \<in> range (classify_role_error (Some (rc_name pr)))"
    by (auto simp: create_role_def Let_def bindR_Inl_iff dest: check_scope_Inl catch_integrity_Inl)
  then show "on_role_create e = on_role_batch e" by (auto simp: check_errors_def classify_role_error_def)
next
  assume "create_group env c i f pg db = Inl e"
  then have "e \<in> check_errors \<or> e \<in> range classify_group_error"
    by (auto simp: create_group_def Let_def bindR_Inl_iff dest: check_scope_Inl catch_integrity_Inl)
  then show "on_group_create e = on_group_batch e" by (auto simp: check_errors_def classify_group_error_def)
qed

lemma update_Inl:
  "update_user env f k pu db = Inl e \<Longrightarrow> on_user_update e = on_user_batch e"
  "update_role env f k pr db = Inl e \<Longrightarrow> on_role_update e = on_role_batch e"
  "update_group env f k pg db = Inl e \<Longrightarrow> on_group_update e = on_group_batch e"
proof -
  assume "update_user env f k pu db = Inl e"
  then have "e \<in> get_errors \<or> e \<in> range (classify_user_error (uu_email pu) (uu_username pu))"
    by (auto simp: update_user_def get_user_def Let_def bindR_Inl_iff dest: scoped_get_Inl catch_integrity_Inl split: if_splits)
  then show "on_user_update e = on_user_batch e" by (auto simp: get_errors_def classify_user_error_def)
next
  assume "update_role env f k pr db = Inl e"
  then have "e \<in> get_errors \<or> e \<in> range (classify_role_error (rup_name pr))"
    by (auto simp: update_role_def get_role_def Let_def bindR_Inl_iff dest: scoped_get_Inl catch_integrity_Inl split: if_splits)
  then show "on_role_update e = on_role_batch e" by (auto simp: get_errors_def classify_role_error_def)
next
  assume "update_group env f k pg db = Inl e"
  then have "e \<in> get_errors \<or> e \<in> range classify_group_error"
    by (auto simp: update_group_def get_group_def Let_def bindR_Inl_iff dest: scoped_get_Inl catch_integrity_Inl split: if_splits)
  then show "on_group_update e = on_group_batch e" by (auto simp: get_errors_def classify_group_error_def)
qed

lemma delete_Inl:
  "delete_user env f k db = Inl e \<Longrightarrow> on_not_found e = on_user_batch e"
  "delete_role env f k db = Inl e \<Longrightarrow> on_not_found e = on_role_batch e"
  "delete_group env f k db = Inl e \<Longrightarrow> on_not_found e = on_group_batch e"
proof -
  have "e \<in> insert (IntegrityErr ''restrict'') get_errors" if "delete_user env f k db = Inl e"
    using that by (auto simp: delete_user_def get_user_def bindR_Inl_iff dest: scoped_get_Inl split: if_splits)
  then show "delete_user env f k db = Inl e \<Longrightarrow> on_not_found e = on_user_batch e" by (auto simp: get_errors_def)
next
  have "e \<in> get_errors" if "delete_role env f k db = Inl e"
    using that by (auto simp: delete_role_def get_role_def bindR_Inl_iff dest: scoped_get_Inl)
  then show "delete_role env f k db = Inl e \<Longrightarrow> on_not_found e = on_role_batch e" by (auto simp: get_errors_def)
next
  have "e \<in> get_errors" if "delete_group env f k db = Inl e"
    using that by (auto simp: delete_group_def get_group_def bindR_Inl_iff dest: scoped_get_Inl)
  then show "delete_group env f k db = Inl e \<Longrightarrow> on_not_found e = on_group_batch e" by (auto simp: get_errors_def)
qed

lemma create_is_batch:
  assumes "CREATE \<in> set actions" "resolved reg adb model CREATE token = Some f"
    and "\<And>f b e. create 0 f b db = Inl e \<Longrightarrow> c1 e = c2 e"
  shows "batch_write_route reg adb model actions token vc vu read
      (\<lambda>filters ops. http_errors c2 (batch_loop create update delete filters 0 ops db)) [BatchCreate p] db =
    map_prod alone id (write_route reg adb model CREATE token vc read (\<lambda>f b. http_errors c1 (create 0 f b db)) p db)"
  unfolding write_route_granted [OF assms(2)]
proof (rule batch_of_one [OF assms(1,2), where g = BatchCreate])
  show "valid_batch vc vu [BatchCreate p] = bindR (vc p) (\<lambda>b. Inr [BatchCreate b])" by simp
next
  fix b and filters :: "action \<Rightarrow> sfilter option"
  assume f: "filters CREATE = Some f"
  show "http_errors c2 (batch_loop create update delete filters 0 [BatchCreate b] db) =
      bindR (http_errors c1 (create 0 f b db)) (\<lambda>(r, db'). Inr ([Some r], db'))"
    unfolding batch_single(1) [where filters = filters, OF f] case_prod_unfold by (rule http_errors_mono) (rule assms(3))
qed

lemma update_is_batch:
  assumes "UPDATE \<in> set actions" "resolved reg adb model UPDATE token = Some f"
    and "\<And>f b e. update f k b db = Inl e \<Longrightarrow> c1 e = c2 e"
  shows "batch_write_route reg adb model actions token vc vu read
      (\<lambda>filters ops. http_errors c2 (batch_loop create update delete filters 0 ops db)) [BatchUpdate k u] db =
    map_prod alone id (write_route reg adb model UPDATE token vu read (\<lambda>f b. http_errors c1 (update f k b db)) u db)"
  unfolding write_route_granted [OF assms(2)]
proof (rule batch_of_one [OF assms(1,2), where g = "BatchUpdate k"])
  show "valid_batch vc vu [BatchUpdate k u] = bindR (vu u) (\<lambda>b. Inr [BatchUpdate k b])" by simp
next
  fix b and filters :: "action \<Rightarrow> sfilter option"
  assume f: "filters UPDATE = Some f"
  show "http_errors c2 (batch_loop create update delete filters 0 [BatchUpdate k b] db) =
      bindR (http_errors c1 (update f k b db)) (\<lambda>(r, db'). Inr ([Some r], db'))"
    unfolding batch_single(2) [where filters = filters, OF f] case_prod_unfold by (rule http_errors_mono) (rule assms(3))
qed

lemma delete_is_batch:
  assumes "DELETE \<in> set actions" "resolved reg adb model DELETE token = Some f"
    and "\<And>f e. delete f k db = Inl e \<Longrightarrow> on_not_found e = c2 e"
  shows "batch_write_route reg adb model actions token vc vu read
      (\<lambda>filters ops. http_errors c2 (batch_loop create update delete filters 0 ops db)) [BatchDelete k] db =
    map_prod (\<lambda>res. bindR res (\<lambda>_. Inr [None])) id (delete_route reg adb model token (\<lambda>f. delete f k db) db)"
proof -
  let ?filters = "batch_filters reg adb model token actions new_request"
  have f: "?filters DELETE = Some f"
    by (simp add: batch_filters_resolved [OF cache_ok_new assms(1)] assms(2))
  have "http_errors c2 (batch_loop create update delete ?filters 0 [BatchDelete k] db) =
      bindR (http_errors on_not_found (delete f k db)) (\<lambda>db'. Inr ([None], db'))"
    unfolding batch_single(3) [where filters = "?filters", OF f] by (rule http_errors_mono) (rule assms(3))
  then show ?thesis
    by (cases "http_errors on_not_found (delete f k db)")
      (simp_all add: batch_write_route_def delete_route_def guard_simps(2) [OF assms(2)] commit_read_def read_opt_def)
qed

text \<open>Who has a grant is somebody.\<close>

lemma granted_user: "resolved reg adb model a token = Some f \<Longrightarrow> \<exists>u. depends_user_id token = Some u"
  by (cases token) (auto simp: resolved_def depends_user_id_def split: option.splits)

lemma require_granted: "depends_user_id token = Some u \<Longrightarrow> require_user s token h = h u"
  by (simp add: require_user_def)

section \<open>Reading users\<close>

text \<open>A representation exists when the address of the row passes the validator of the response.\<close>

lemma read_user_Inl: "read_user ve u = Inl s \<longleftrightarrow> s = 500 \<and> ve (u_email u) = None"
  by (auto simp: read_user_def email_str_def split: option.splits)

definition shown :: "(string \<Rightarrow> string option) \<Rightarrow> user \<Rightarrow> user_read" where
  "shown ve u = \<lparr>ud_id = u_id u, ud_email = the (ve (u_email u)), ud_username = u_username u, ud_enabled = u_enabled u,
     ud_created_at = u_created_at u, ud_updated_at = u_updated_at u\<rparr>"

lemma read_user_shown: "read_user ve u = (if ve (u_email u) = None then Inl 500 else Inr (shown ve u))"
  by (auto simp: read_user_def email_str_def shown_def split: option.splits)

lemma read_users: "read_all (read_user ve) us =
    (if \<forall>u \<in> set us. ve (u_email u) \<noteq> None then Inr (map (shown ve) us) else Inl 500)"
  by (induction us) (auto simp: read_user_shown)

text \<open>The users a principal may find with a filter.\<close>

definition found_users where
  "found_users env reg token sf db =
     filter (\<lambda>u. row_allowed user_attrs reg (auth_view db) ''User'' SEARCH token u \<and>
         (\<exists>extra. filter_sql sf = Inr extra \<and> where_holds (se_ev env) (sql_tables db) extra (user_attrs u)))
       (sort_key u_id (td_users db))"

lemma found_users_reachable:
  "filter_sql sf = Inr extra \<Longrightarrow>
     user_table.reachable (se_ev env) (sql_tables db) reg (auth_view db) ''User'' token extra (td_users db) = found_users env reg token sf db"
  by (simp add: user_table.reachable_def found_users_def)

lemma uuid_cursor_str: "uuid_cursor (uuid_str u) = Inr u"
  by (simp add: uuid_cursor_def)

lemma reached_length: "length (filter P (sort_key u_id us)) \<le> length us"
  by (metis length_filter_le length_sort)

section \<open>Provisioned users\<close>

text \<open>A login whose claims have a subject the program does not know and no address.\<close>

lemma provision_without_email:
  assumes "provision_user oenv db tokens = Inr (u, db')"
    and "text_field tokens ''id_token'' = Inr (Some t)"
    and "claim (decode_id_token (oe_libs oenv) t) (user_id_field (oe_idp oenv)) ''sub'' = Some i"
    and "claim (decode_id_token (oe_libs oenv) t) (email_field (oe_idp oenv)) ''email'' = None"
    and "find_user_by_idp_id db i = Inr None"
  shows "create_provisioned oenv db (Some i) None = Inr (u, db') \<and> u_email u = i @ ''@idp.local''"
proof -
  have c: "create_provisioned oenv db (Some i) None = Inr (u, db')"
    using assms by (simp add: provision_user_def Let_def)
  then have "u_email u = i @ ''@idp.local''"
    by (auto simp: create_provisioned_def Let_def insert_user_def bindR_Inr_iff split: option.splits if_splits)
  with c show ?thesis by simp
qed

lemma provisioned_integrity:
  assumes "integrity db" "create_provisioned oenv db i e = Inr (u, db')"
  shows "integrity db' \<and> u \<in> set (td_users db') \<and> auth_view db' = auth_view db \<and>
    (local_policies reg m db' \<longleftrightarrow> local_policies reg m db)"
proof -
  note c = create_provisioned_shape [OF assms(2)]
  then have "integrity (db\<lparr>td_users := td_users db @ [u]\<rparr>)"
    by (intro integrity_add_user [OF assms(1)]) (simp add: user_violations_Nil)
  then show ?thesis using c by (simp add: auth_view_def local_policies_def)
qed

text \<open>The commit of an update comes before the response.\<close>

definition enable :: "bool \<Rightarrow> user_update" where
  "enable b = \<lparr>uu_email = None, uu_username = None, uu_enabled = Some b, uu_password = None\<rparr>"

lemma update_enabled:
  assumes "integrity db" "u \<in> set (td_users db)" "u_enabled u" "in_scope (se_ev env) (sql_tables db) f (user_attrs u)"
  shows "update_user env f (u_id u) (enable False) db =
    (let u' = u\<lparr>u_enabled := False, u_updated_at := se_now env\<rparr> in Inr (u', set_user db u'))"
proof -
  have d: "distinct (map u_id (td_users db))" using assms(1) by (simp add: integrity_def)
  have g: "get_user env f (u_id u) db = Inr u"
    using assms(2,4) by (simp add: get_user_def user_table.get_Inr_iff [OF d])
  have ch: "u\<lparr>u_enabled := False\<rparr> \<noteq> u" using assms(3) by (cases u) simp
  have inj: "inj_on u_email (set (td_users db))" "inj_on u_username (set (td_users db))"
    using assms(1) by (simp_all add: integrity_def distinct_map)
  have "u_email u \<noteq> u_email v \<and> u_username u \<noteq> u_username v" if "v \<in> set (td_users db)" "u_id v \<noteq> u_id u" for v
    using inj_onD [OF inj(1) _ assms(2) that(1)] inj_onD [OF inj(2) _ assms(2) that(1)] that(2) by blast
  then have "user_violations (filter (\<lambda>v. u_id v \<noteq> u_id u) (td_users db)) (u\<lparr>u_enabled := False, u_updated_at := se_now env\<rparr>) = []"
    by (auto simp: user_violations_Nil)
  then show ?thesis
    using ch by (simp add: update_user_def g enable_def Let_def catch_integrity_def flush_rows_def)
qed

lemma update_user_route_shape:
  assumes "resolved reg (auth_view db) ''User'' UPDATE token = Some f" "update_user env f k (enable b) db = Inr (u, db')"
  shows "update_user_route env ve reg token k (enable b) db = (read_user ve u, db')"
  using assms(2)
  by (simp add: update_user_route_def write_route_granted [OF assms(1)] valid_user_update_def on_opt_def enable_def commit_read_def)

section \<open>A concrete request\<close>

text \<open>The user 7 of \<open>keyed_db\<close> has a role that permits everything.\<close>

definition seven :: "auth_token option" where
  "seven = Some (witness_token None)"

lemma seven_allowed:
  "m \<in> set (map fst registrations) \<Longrightarrow> row_allowed view registrations (auth_view keyed_db) m a seven r"
  by (auto simp: row_allowed_def allowed_def user_grants_def key_grants_def assigned_def auth_view_def keyed_db_def
      witness_token_def seven_def registrations_def)

lemma seven_granted: "m \<in> set (map fst registrations) \<Longrightarrow> \<exists>f. resolved registrations (auth_view keyed_db) m a seven = Some f"
  using seven_allowed [of m "\<lambda>_ _. VNone" a "()"] denied_row [of registrations "auth_view keyed_db" m a seven "\<lambda>_ _. VNone" "()"]
  by blast

lemma seven_resolved:
  "map_of registrations m = Some c \<Longrightarrow> resolved registrations (auth_view keyed_db) m a seven = Some AllSearchFilter"
  by (simp add: resolved_def seven_def witness_token_def narrowed_def Let_def keyed_db_def auth_view_def load_roles_def role_filters_def
      combine_def permitted_filter_def)

lemma keyed_local: "local_policies registrations m keyed_db"
  by (simp add: local_policies_def keyed_db_def)

lemma witness_engine: "sql_engine (se_ev witness_svc_env)"
  using ref.sql_engine_axioms by (simp add: witness_svc_env_def)

lemma identity_models:
  "''User'' \<in> set (map fst registrations)" "''Role'' \<in> set (map fst registrations)"
  by (simp_all add: registrations_def)

section \<open>Properties\<close>

text \<open>C28. A batch request to the users, roles, role assignments, groups, memberships or API keys either answers an error and
  leaves the database as it was, or its validated operations, at most a hundred, were applied in order, each allowed by the access rule on
  the row it concerns, and the constraints of the database hold afterwards.\<close>

theorem identity_batches_allowed:
  assumes "integrity db" "sql_engine (se_ev env)" "\<And>m. local_policies reg m db"
  shows "batch_answer user_attrs (\<lambda>r. unsaved (user_attrs r)) u_id td_users reg ''User'' token
      (valid_batch (valid_user_create ve) (valid_user_update ve)) (read_user ve) uops db
      (write_users_batch_route env ve reg token uops db) \<and>
    batch_answer role_attrs (\<lambda>r. unsaved (role_attrs r)) r_id sv_roles reg ''Role'' token
      (valid_batch valid_role_create valid_role_update) Inr rops db (write_roles_batch_route env reg token rops db) \<and>
    batch_answer user_role_attrs (\<lambda>r. unsaved (user_role_attrs r)) ur_id sv_user_roles reg ''UserRole'' token
      (valid_batch Inr refuse) Inr lops db (write_user_roles_batch_route env reg token lops db) \<and>
    batch_answer group_attrs (\<lambda>r. unsaved (group_attrs r)) g_id sv_groups reg ''Group'' token
      (valid_batch valid_group_create valid_group_update) Inr gops db (write_groups_batch_route env reg token gops db) \<and>
    batch_answer group_user_attrs (\<lambda>r. unsaved (group_user_attrs r)) gu_id sv_group_users reg ''GroupUser'' token
      (valid_batch Inr refuse) Inr mops db (write_group_users_batch_route env reg token mops db) \<and>
    batch_answer api_key_attrs key_draft ak_id td_api_keys reg ''ApiKey'' token
      (valid_batch valid_create valid_update) (\<lambda>k. Inr (key_read k)) kops db (write_api_keys_batch_route env reg token kops db)"
  using users_batch [OF assms] roles_batch [OF assms] user_roles_batch [OF assms] groups_batch [OF assms]
    group_users_batch [OF assms] keys_batch [OF assms] by blast

theorem identity_batches_allowed_witness:
  "batch_answer role_attrs (\<lambda>r. unsaved (role_attrs r)) r_id sv_roles registrations ''Role'' seven
     (valid_batch valid_role_create valid_role_update) Inr [BatchDelete 1, BatchDelete 1] keyed_db
     (write_roles_batch_route witness_svc_env registrations seven [BatchDelete 1, BatchDelete 1] keyed_db)"
  using identity_batches_allowed [OF keyed_integrity witness_engine keyed_local, where token = seven
      and rops = "[BatchDelete 1, BatchDelete 1]"]
  by blast

text \<open>C29. For a principal the action is granted to, creating, updating or deleting a user, a role or a group through its own route does
  what the batch of this one operation does: it fails with the same status and changes nothing, or it leaves the same
  database and answers the same row (none for a delete). The status of a success is fixed by the route, 201 for a create, 204 for a delete
  and 200 for an update or a batch, and is not part of the answers compared.\<close>

theorem single_writes_are_batches:
  "(resolved reg (auth_view db) ''User'' CREATE token \<noteq> None \<longrightarrow>
      write_users_batch_route env ve reg token [BatchCreate pu] db = map_prod alone id (create_user_route env ve reg token pu db)) \<and>
   (resolved reg (auth_view db) ''User'' UPDATE token \<noteq> None \<longrightarrow>
      write_users_batch_route env ve reg token [BatchUpdate k uu] db = map_prod alone id (update_user_route env ve reg token k uu db)) \<and>
   (resolved reg (auth_view db) ''User'' DELETE token \<noteq> None \<longrightarrow>
      write_users_batch_route env ve reg token [BatchDelete k] db =
        map_prod (\<lambda>res. bindR res (\<lambda>_. Inr [None])) id (delete_user_route env reg token k db)) \<and>
   (resolved reg (auth_view db) ''Role'' CREATE token \<noteq> None \<longrightarrow>
      write_roles_batch_route env reg token [BatchCreate pr] db = map_prod alone id (create_role_route env reg token pr db)) \<and>
   (resolved reg (auth_view db) ''Role'' UPDATE token \<noteq> None \<longrightarrow>
      write_roles_batch_route env reg token [BatchUpdate k ur] db = map_prod alone id (update_role_route env reg token k ur db)) \<and>
   (resolved reg (auth_view db) ''Role'' DELETE token \<noteq> None \<longrightarrow>
      write_roles_batch_route env reg token [BatchDelete k] db =
        map_prod (\<lambda>res. bindR res (\<lambda>_. Inr [None])) id (delete_role_route env reg token k db)) \<and>
   (resolved reg (auth_view db) ''Group'' CREATE token \<noteq> None \<longrightarrow>
      write_groups_batch_route env reg token [BatchCreate pg] db = map_prod alone id (create_group_route env reg token pg db)) \<and>
   (resolved reg (auth_view db) ''Group'' UPDATE token \<noteq> None \<longrightarrow>
      write_groups_batch_route env reg token [BatchUpdate k ug] db = map_prod alone id (update_group_route env reg token k ug db)) \<and>
   (resolved reg (auth_view db) ''Group'' DELETE token \<noteq> None \<longrightarrow>
      write_groups_batch_route env reg token [BatchDelete k] db =
        map_prod (\<lambda>res. bindR res (\<lambda>_. Inr [None])) id (delete_group_route env reg token k db))"
proof (intro conjI impI; elim not_None_eq [THEN iffD1, elim_format] exE)
  fix f assume f: "resolved reg (auth_view db) ''User'' CREATE token = Some f"
  show "write_users_batch_route env ve reg token [BatchCreate pu] db = map_prod alone id (create_user_route env ve reg token pu db)"
    unfolding write_users_batch_route_def create_user_route_def apply_user_batch_def
    by (rule create_is_batch [OF _ f]) (auto simp: create_Inl)
next
  fix f assume f: "resolved reg (auth_view db) ''User'' UPDATE token = Some f"
  show "write_users_batch_route env ve reg token [BatchUpdate k uu] db = map_prod alone id (update_user_route env ve reg token k uu db)"
    unfolding write_users_batch_route_def update_user_route_def apply_user_batch_def
    by (rule update_is_batch [OF _ f]) (auto simp: update_Inl)
next
  fix f assume f: "resolved reg (auth_view db) ''User'' DELETE token = Some f"
  show "write_users_batch_route env ve reg token [BatchDelete k] db =
        map_prod (\<lambda>res. bindR res (\<lambda>_. Inr [None])) id (delete_user_route env reg token k db)"
    unfolding write_users_batch_route_def delete_user_route_def apply_user_batch_def
    by (rule delete_is_batch [OF _ f]) (auto simp: delete_Inl)
next
  fix f assume f: "resolved reg (auth_view db) ''Role'' CREATE token = Some f"
  show "write_roles_batch_route env reg token [BatchCreate pr] db = map_prod alone id (create_role_route env reg token pr db)"
    unfolding write_roles_batch_route_def create_role_route_def apply_role_batch_def
    by (rule create_is_batch [OF _ f]) (auto simp: create_Inl)
next
  fix f assume f: "resolved reg (auth_view db) ''Role'' UPDATE token = Some f"
  show "write_roles_batch_route env reg token [BatchUpdate k ur] db = map_prod alone id (update_role_route env reg token k ur db)"
    unfolding write_roles_batch_route_def update_role_route_def apply_role_batch_def
    by (rule update_is_batch [OF _ f]) (auto simp: update_Inl)
next
  fix f assume f: "resolved reg (auth_view db) ''Role'' DELETE token = Some f"
  show "write_roles_batch_route env reg token [BatchDelete k] db =
        map_prod (\<lambda>res. bindR res (\<lambda>_. Inr [None])) id (delete_role_route env reg token k db)"
    unfolding write_roles_batch_route_def delete_role_route_def apply_role_batch_def
    by (rule delete_is_batch [OF _ f]) (auto simp: delete_Inl)
next
  fix f assume f: "resolved reg (auth_view db) ''Group'' CREATE token = Some f"
  obtain c where c: "depends_user_id token = Some c" using granted_user [OF f] by blast
  show "write_groups_batch_route env reg token [BatchCreate pg] db = map_prod alone id (create_group_route env reg token pg db)"
    unfolding write_groups_batch_route_def create_group_route_def apply_group_batch_def require_granted [OF c]
    by (rule create_is_batch [OF _ f]) (auto simp: create_Inl)
next
  fix f assume f: "resolved reg (auth_view db) ''Group'' UPDATE token = Some f"
  obtain c where c: "depends_user_id token = Some c" using granted_user [OF f] by blast
  show "write_groups_batch_route env reg token [BatchUpdate k ug] db = map_prod alone id (update_group_route env reg token k ug db)"
    unfolding write_groups_batch_route_def update_group_route_def apply_group_batch_def require_granted [OF c]
    by (rule update_is_batch [OF _ f]) (auto simp: update_Inl)
next
  fix f assume f: "resolved reg (auth_view db) ''Group'' DELETE token = Some f"
  obtain c where c: "depends_user_id token = Some c" using granted_user [OF f] by blast
  show "write_groups_batch_route env reg token [BatchDelete k] db =
        map_prod (\<lambda>res. bindR res (\<lambda>_. Inr [None])) id (delete_group_route env reg token k db)"
    unfolding write_groups_batch_route_def delete_group_route_def apply_group_batch_def require_granted [OF c]
    by (rule delete_is_batch [OF _ f]) (auto simp: delete_Inl)
qed

theorem single_writes_are_batches_witness:
  "write_roles_batch_route witness_svc_env registrations seven [BatchDelete 1] keyed_db =
     map_prod (\<lambda>res. bindR res (\<lambda>_. Inr [None])) id (delete_role_route witness_svc_env registrations seven 1 keyed_db)"
proof -
  have "resolved registrations (auth_view keyed_db) ''Role'' DELETE seven \<noteq> None"
    using seven_granted [OF identity_models(2), of DELETE] by blast
  with single_writes_are_batches [of registrations keyed_db seven witness_svc_env Some undefined 1 undefined undefined undefined undefined undefined]
  show ?thesis by blast
qed

text \<open>Following the cursors of the user collection.\<close>

lemma listing_walk:
  assumes "integrity db" "sql_engine (se_ev env)" "local_policies reg ''User'' db"
    and "resolved reg (auth_view db) ''User'' SEARCH token = Some f" "filter_sql sf = Inr extra"
    and "0 < limit" "limit \<le> 100" "length (td_users db) < n"
  shows "walk_pages (\<lambda>c. bindR (search_users_route env ve reg token sf c limit db)
       (\<lambda>(items, next_cursor, l). Inr (items, next_cursor))) n None =
    (if \<forall>u \<in> set (found_users env reg token sf db). ve (u_email u) \<noteq> None
     then Inr (Some (map (shown ve) (found_users env reg token sf db))) else Inl 500)"
proof -
  have d: "distinct (map u_id (td_users db))" using assms(1) by (simp add: integrity_def)
  have "length (after u_id None (found_users env reg token sf db)) < n"
    unfolding after_None found_users_def by (rule le_less_trans [OF reached_length assms(8)])
  note w = user_table.search_route_walk [OF d assms(2) readable_identity(1) [OF assms(3)] assms(4-7) uuid_cursor_str
      this [folded found_users_reachable [OF assms(5)]], of "read_user ve"]
  have s: "search_users env f db = scoped_search (se_ev env) (sql_tables db) f user_attrs u_id (td_users db)" for f
    by (intro ext) (simp add: search_users_def)
  show ?thesis using w unfolding search_users_route_def s found_users_reachable [OF assms(5)] after_None read_users
    by (simp split: if_splits)
qed

text \<open>C31. Following the cursors of the user collection answers every user the principal may find, once
  and in the order of the ids, or fails with a 500 when the address of one of them is not one the response schema accepts.\<close>

theorem user_listing:
  assumes "integrity db" "sql_engine (se_ev env)" "local_policies reg ''User'' db"
    and "resolved reg (auth_view db) ''User'' SEARCH token = Some f" "filter_sql sf = Inr extra"
    and "0 < limit" "limit \<le> 100" "length (td_users db) < n"
  shows "walk_pages (\<lambda>c. bindR (search_users_route env ve reg token sf c limit db)
       (\<lambda>(items, next_cursor, l). Inr (items, next_cursor))) n None =
    (if \<forall>u \<in> set (found_users env reg token sf db). ve (u_email u) \<noteq> None
     then Inr (Some (map (shown ve) (found_users env reg token sf db))) else Inl 500)"
  by (rule listing_walk [OF assms])

theorem user_listing_witness:
  "walk_pages (\<lambda>c. bindR (search_users_route witness_svc_env Some registrations seven (BaseSearchFilter (Some []) []) c 1 keyed_db)
       (\<lambda>(items, next_cursor, l). Inr (items, next_cursor))) 2 None =
     Inr (Some (map (shown Some) (found_users witness_svc_env registrations seven (BaseSearchFilter (Some []) []) keyed_db)))"
proof -
  obtain f where f: "resolved registrations (auth_view keyed_db) ''User'' SEARCH seven = Some f"
    using seven_granted [OF identity_models(1)] by blast
  have sf: "filter_sql (BaseSearchFilter (Some []) []) = Inr None"
    by (simp add: filter_sql_def base_sql_condition_def active_clauses_def List.map_filter_simps)
  have n: "length (td_users keyed_db) < 2" by (simp add: keyed_db_def witness_svc_db_def)
  show ?thesis
    using user_listing [OF keyed_integrity witness_engine keyed_local f sf _ _ n, of 1 Some] by simp
qed

text \<open>What a client may see of a user that the response schema refuses.\<close>

lemma read_opts: "read_all (read_opt (read_user ve)) xs =
    (if \<forall>u. Some u \<in> set xs \<longrightarrow> ve (u_email u) \<noteq> None then Inr (map (map_option (shown ve)) xs) else Inl 500)"
proof (induction xs)
  case (Cons x xs)
  then show ?case by (cases x) (auto simp: read_opt_def read_user_shown)
qed simp


lemma unreadable_in_batch:
  assumes "distinct (map u_id (td_users db))" "sql_engine (se_ev env)" "readable user_attrs reg (auth_view db) ''User'' (sql_tables db)"
    and "u \<in> set (td_users db)" "row_allowed user_attrs reg (auth_view db) ''User'' READ token u" "ve (u_email u) = None"
    and "u_id u \<in> set ids" "length ids \<le> 100"
  shows "get_users_batch_route env ve reg token ids db = Inl 500"
proof -
  obtain f where f: "resolved reg (auth_view db) ''User'' READ token = Some f"
    using denied_row [of reg "auth_view db" "''User''" READ token user_attrs u] assms(5) by blast
  have scope: "in_scope (se_ev env) (sql_tables db) f (user_attrs u)"
    using granted_where [OF assms(2,3) f] assms(5) unfolding in_scope_def by metis
  show ?thesis
  proof (cases "get_many_users env f ids db")
    case (Inl e)
    then show ?thesis using assms(8) by (simp add: get_users_batch_route_def batch_read_route_def guard_simps(2) [OF f] http_errors_def)
  next
    case (Inr found)
    obtain i where i: "i < length ids" "ids ! i = u_id u" using assms(7) by (auto simp: in_set_conv_nth)
    have "found ! i = Some u \<and> i < length found"
      using user_table.get_many_Inr [OF assms(1) Inr [unfolded get_many_users_def]] i assms(4) scope by simp
    then have "Some u \<in> set found" by (metis nth_mem)
    then have "\<not> (\<forall>u. Some u \<in> set found \<longrightarrow> ve (u_email u) \<noteq> None)" using assms(6) by blast
    then show ?thesis using assms(8) Inr
      by (simp add: get_users_batch_route_def batch_read_route_def guard_simps(2) [OF f] http_errors_def read_opts)
  qed
qed

lemma unreadable_not_listed:
  assumes "search_users_route env ve reg token sf cursor limit db = Inr (items, next_cursor, l)"
    and "distinct (map u_id (td_users db))" "u \<in> set (td_users db)" "ve (u_email u) = None"
  shows "u_id u \<notin> ud_id ` set items"
proof
  assume "u_id u \<in> ud_id ` set items"
  then obtain v where v: "v \<in> set items" "ud_id v = u_id u" by auto
  obtain f cur rows nc where "search_users env f db cur limit (Some sf) = Inr (rows, nc)" "read_all (read_user ve) rows = Inr items"
    using assms(1) unfolding search_users_route_def search_route_def guard_def
    by (elim bindR_InrE) (auto elim!: bindR_InrE simp: http_errors_Inr split: if_splits)
  moreover from this(1) have "set rows \<subseteq> set (td_users db)"
    by (auto simp: search_users_def scoped_search_def bindR_Inr_iff Let_def split: if_splits dest!: in_set_takeD)
  ultimately obtain x where x: "x \<in> set (td_users db)" "v = shown ve x" "ve (u_email x) \<noteq> None"
    using v(1) by (fastforce simp: read_users split: if_splits)
  then have "u_id x = u_id u" using v(2) by (simp add: shown_def)
  then have "x = u" using assms(2,3) x(1) by (auto simp: distinct_map dest: inj_onD)
  then show False using x(3) assms(4) by simp
qed

lemma update_keeps_email:
  assumes "update_user env f k payload db = Inr (x, db2)" "uu_email payload = None" "get_user env f k db = Inr u"
  shows "u_email x = u_email u"
  using assms by (auto simp: update_user_def bindR_Inr_iff Let_def set_if_def catch_integrity_def flush_rows_def
      split: if_splits option.splits sum.splits list.splits svc_error.splits)

definition new_email :: "string \<Rightarrow> user_update" where
  "new_email e = \<lparr>uu_email = Some e, uu_username = None, uu_enabled = None, uu_password = None\<rparr>"

lemma update_email:
  assumes "integrity db" "u \<in> set (td_users db)" "in_scope (se_ev env) (sql_tables db) f (user_attrs u)"
    and "e \<notin> u_email ` set (td_users db)"
  shows "update_user env f (u_id u) (new_email e) db =
    (let u' = u\<lparr>u_email := e, u_updated_at := se_now env\<rparr> in Inr (u', set_user db u'))"
proof -
  have d: "distinct (map u_id (td_users db))" using assms(1) by (simp add: integrity_def)
  have g: "get_user env f (u_id u) db = Inr u"
    using assms(2,3) by (simp add: get_user_def user_table.get_Inr_iff [OF d])
  have "u_email u \<noteq> e" using assms(2,4) by blast
  then have ch: "u\<lparr>u_email := e\<rparr> \<noteq> u" by (cases u) simp
  have inj: "inj_on u_username (set (td_users db))"
    using assms(1) by (simp add: integrity_def distinct_map)
  have "e \<noteq> u_email v \<and> u_username u \<noteq> u_username v" if "v \<in> set (td_users db)" "u_id v \<noteq> u_id u" for v
    using inj_onD [OF inj _ assms(2) that(1)] that assms(4) by auto
  then have "user_violations (filter (\<lambda>v. u_id v \<noteq> u_id u) (td_users db)) (u\<lparr>u_email := e, u_updated_at := se_now env\<rparr>) = []"
    by (auto simp: user_violations_Nil)
  then show ?thesis
    using ch by (simp add: update_user_def g new_email_def Let_def catch_integrity_def flush_rows_def)
qed

text \<open>C32. A user provisioned for a login without an address gets the address
  \<open>subject@idp.local\<close>. When the validator of addresses refuses that domain, the user cannot be shown: reading it alone or in a
  batch is a 500, no page of a listing shows it and a listing that reaches it is a 500, and an update that leaves
  the address as it is never succeeds, although disabling it, for one, is a 500 that has been committed. Only an update with a
  valid address that nobody else has repairs it.\<close>

theorem provisioned_user_unreadable:
  assumes "provision_user oenv db tokens = Inr (u, db')"
    and "text_field tokens ''id_token'' = Inr (Some t)"
    and "claim (decode_id_token (oe_libs oenv) t) (user_id_field (oe_idp oenv)) ''sub'' = Some i"
    and "claim (decode_id_token (oe_libs oenv) t) (email_field (oe_idp oenv)) ''email'' = None"
    and "find_user_by_idp_id db i = Inr None"
    and "\<And>s. ve (s @ ''@idp.local'') = None"
    and "integrity db" "sql_engine (se_ev env)" "local_policies reg ''User'' db"
    and "resolved reg (auth_view db) ''User'' UPDATE token = Some f"
    and "row_allowed user_attrs reg (auth_view db) ''User'' READ token u"
    and "row_allowed user_attrs reg (auth_view db) ''User'' UPDATE token u"
  shows "get_user_route env ve reg token (u_id u) db' = Inl 500 \<and>
    (\<forall>ids. u_id u \<in> set ids \<and> length ids \<le> 100 \<longrightarrow> get_users_batch_route env ve reg token ids db' = Inl 500) \<and>
    (\<forall>sf cursor limit items next_cursor l.
       search_users_route env ve reg token sf cursor limit db' = Inr (items, next_cursor, l) \<longrightarrow> u_id u \<notin> ud_id ` set items) \<and>
    (\<forall>sf extra limit n. filter_sql sf = Inr extra \<and> u \<in> set (found_users env reg token sf db') \<and> 0 < limit \<and> limit \<le> 100 \<and>
         length (td_users db') < n \<longrightarrow>
       walk_pages (\<lambda>c. bindR (search_users_route env ve reg token sf c limit db') (\<lambda>(items, next_cursor, l). Inr (items, next_cursor))) n None =
         Inl 500) \<and>
    (\<forall>payload v db2. uu_email payload = None \<longrightarrow> update_user_route env ve reg token (u_id u) payload db' \<noteq> (Inr v, db2)) \<and>
    update_user_route env ve reg token (u_id u) (enable False) db' =
      (Inl 500, set_user db' (u\<lparr>u_enabled := False, u_updated_at := se_now env\<rparr>)) \<and>
    (\<forall>a e e'. ve a = Some e \<and> ve e = Some e' \<and> e \<notin> u_email ` set (td_users db') \<longrightarrow>
       (\<exists>v. update_user_route env ve reg token (u_id u) (new_email a) db' =
          (Inr v, set_user db' (u\<lparr>u_email := e, u_updated_at := se_now env\<rparr>)) \<and> ud_id v = u_id u \<and> ud_email v = e'))"
proof -
  note c = provision_without_email [OF assms(1-5)]
  note db' = provisioned_integrity [OF assms(7) c [THEN conjunct1], of reg "''User''"]
  have ve: "ve (u_email u) = None" using c assms(6) by simp
  have d: "distinct (map u_id (td_users db'))" using db' by (simp add: integrity_def)
  have l: "local_policies reg ''User'' db'" using db' assms(9) by simp
  have u: "u \<in> set (td_users db')" using db' by blast
  note view = db' [THEN conjunct2, THEN conjunct2, THEN conjunct1]
  have get: "get_user_route env ve reg token (u_id u) db' = Inl 500"
    using user_table.get_route_found [OF d assms(8) readable_identity(1) [OF l] u assms(11) [folded view],
      of "read_user ve" "sql_tables db'"] ve
    by (simp add: get_user_route_def get_user_def read_user_shown)
  have f: "resolved reg (auth_view db') ''User'' UPDATE token = Some f" using assms(10) by (simp add: view)
  have scope: "in_scope (se_ev env) (sql_tables db') f (user_attrs u)"
    using granted_where [OF assms(8) readable_identity(1) [OF l], of UPDATE token f "sql_tables db'"] assms(10,12)
    unfolding view in_scope_def by metis
  have "update_user env f (u_id u) (enable False) db' =
      (let u' = u\<lparr>u_enabled := False, u_updated_at := se_now env\<rparr> in Inr (u', set_user db' u'))"
    using db' create_provisioned_shape [OF c [THEN conjunct1]] scope by (intro update_enabled) auto
  then have disable: "update_user_route env ve reg token (u_id u) (enable False) db' =
      (Inl 500, set_user db' (u\<lparr>u_enabled := False, u_updated_at := se_now env\<rparr>))"
    using update_user_route_shape [OF f, of env "u_id u" False] ve by (simp add: Let_def read_user_shown)
  have patch: "update_user_route env ve reg token (u_id u) payload db' \<noteq> (Inr v, db2)" if "uu_email payload = None" for payload v db2
  proof
    assume "update_user_route env ve reg token (u_id u) payload db' = (Inr v, db2)"
    then obtain body x where b: "valid_user_update ve payload = Inr body" "update_user env f (u_id u) body db' = Inr (x, db2)"
        "read_user ve x = Inr v"
      by (auto simp: update_user_route_def write_route_granted [OF f] commit_read_def bindR_Inr_iff http_errors_Inr
          split: sum.split_asm)
    have "uu_email body = None" using b(1) that by (auto simp: valid_user_update_def on_opt_def bindR_Inr_iff)
    moreover have "get_user env f (u_id u) db' = Inr u" using u scope by (simp add: get_user_def user_table.get_Inr_iff [OF d])
    ultimately have "u_email x = u_email u" using update_keeps_email [OF b(2)] by blast
    then show False using b(3) ve by (simp add: read_user_shown)
  qed
  have batch: "get_users_batch_route env ve reg token ids db' = Inl 500" if "u_id u \<in> set ids \<and> length ids \<le> 100" for ids
    using unreadable_in_batch [where u = u and ve = ve, OF d assms(8) readable_identity(1) [OF l] u assms(11) [folded view] ve] that by blast
  have listing: "walk_pages (\<lambda>c. bindR (search_users_route env ve reg token sf c limit db') (\<lambda>(items, next_cursor, l). Inr (items, next_cursor)))
      n None = Inl 500"
    if h: "filter_sql sf = Inr extra \<and> u \<in> set (found_users env reg token sf db') \<and> 0 < limit \<and> limit \<le> 100 \<and> length (td_users db') < n"
    for sf extra limit n
  proof -
    have "row_allowed user_attrs reg (auth_view db') ''User'' SEARCH token u" using h by (simp add: found_users_def)
    then obtain g where g: "resolved reg (auth_view db') ''User'' SEARCH token = Some g"
      using denied_row [of reg "auth_view db'" "''User''" SEARCH token user_attrs u] by blast
    show ?thesis using listing_walk [OF db' [THEN conjunct1] assms(8) l g, of sf extra limit n ve] h ve by auto
  qed
  have repair: "\<exists>v. update_user_route env ve reg token (u_id u) (new_email a) db' =
          (Inr v, set_user db' (u\<lparr>u_email := e, u_updated_at := se_now env\<rparr>)) \<and> ud_id v = u_id u \<and> ud_email v = e'"
    if "ve a = Some e \<and> ve e = Some e' \<and> e \<notin> u_email ` set (td_users db')" for a e e'
  proof -
    have "valid_user_update ve (new_email a) = Inr (new_email e)"
      using that by (simp add: valid_user_update_def new_email_def on_opt_def email_str_def)
    then show ?thesis using update_email [OF db' [THEN conjunct1] u scope, of e] that
      by (simp add: update_user_route_def write_route_granted [OF f] commit_read_def Let_def read_user_shown shown_def)
  qed
  show ?thesis using get batch unreadable_not_listed [where u = u and ve = ve, OF _ d u ve] listing patch disable repair by (intro conjI allI impI) blast+
qed

definition silent_env :: oauth_env where
  "silent_env = (witness_env 0)\<lparr>oe_libs := \<lparr>sha256_b64url = (\<lambda>v. ''h'' @ v),
     b64url_json = (\<lambda>s. Some [(''sub'', VStr ''s1'')])\<rparr>\<rparr>"

definition no_local :: "string \<Rightarrow> string option" where
  "no_local e = (if drop (length e - 10) e = ''@idp.local'' then None else Some e)"

theorem provisioned_user_unreadable_witness:
  "\<exists>u db'. provision_user silent_env keyed_db [(''id_token'', VStr ''h.p.s'')] = Inr (u, db') \<and>
     get_user_route witness_svc_env no_local registrations seven (u_id u) db' = Inl 500 \<and>
     get_users_batch_route witness_svc_env no_local registrations seven [u_id u] db' = Inl 500"
proof -
  obtain name k where n: "unique_username [witness_user] ''idp-s1'' = Some name" "name = candidate (username_base ''idp-s1'') k"
    "k \<le> length [witness_user]" "\<not> (\<exists>u \<in> set [witness_user]. u_username u = name)"
    using unique_username_least [of "[witness_user]" "''idp-s1''"] by auto
  have l: "length name \<le> 64" using candidate_length [of k] n(2,3) by simp
  note simps = silent_env_def keyed_db_def witness_svc_db_def witness_user_def witness_env_def witness_idp_def
    text_field_def falsy_def decode_id_token_def claim_def find_user_by_idp_id_def one_or_none_def
  obtain u db' where p: "provision_user silent_env keyed_db [(''id_token'', VStr ''h.p.s'')] = Inr (u, db')"
    using n l by (simp add: simps provision_user_def find_user_by_email_def create_provisioned_def insert_user_def Let_def)
  have t: "text_field [(''id_token'', VStr ''h.p.s'')] ''id_token'' = Inr (Some ''h.p.s'')" by (simp add: text_field_def falsy_def)
  have i: "claim (decode_id_token (oe_libs silent_env) ''h.p.s'') (user_id_field (oe_idp silent_env)) ''sub'' = Some ''s1''"
    "claim (decode_id_token (oe_libs silent_env) ''h.p.s'') (email_field (oe_idp silent_env)) ''email'' = None"
    "find_user_by_idp_id keyed_db ''s1'' = Inr None"
    by (simp_all add: simps)
  obtain f where f: "resolved registrations (auth_view keyed_db) ''User'' UPDATE seven = Some f"
    using seven_granted [OF identity_models(1)] by blast
  have v: "no_local (s @ ''@idp.local'') = None" for s by (simp add: no_local_def)
  show ?thesis
    using provisioned_user_unreadable [where ve = no_local, OF p t i v keyed_integrity witness_engine keyed_local f
        seven_allowed [OF identity_models(1)] seven_allowed [OF identity_models(1)]] p
    by (intro exI [of _ u] exI [of _ db']) simp
qed

end
