(* ===== verification/CommitLaws.thy ===== *)
theory CommitLaws
  imports RoutesLaws
begin

text \<open>
  What the handlers of \<open>Routes\<close> commit keeps every invariant that the operations they call keep: the step from
  the operations of a service to the histories of requests.
\<close>

section \<open>What a handler commits\<close>

lemma write_route_keeps:
  assumes "ok db" "\<And>f body x db'. validate payload = Inr body \<Longrightarrow> handler f body = Inr (x, db') \<Longrightarrow> ok db'"
  shows "ok (snd (write_route reg adb m a t validate read handler payload db))"
proof (cases "guard reg adb m a t (\<lambda>f. bindR (validate payload) (handler f))")
  case (Inr r)
  then obtain f where "bindR (validate payload) (handler f) = Inr r"
    by (auto simp: guard_def elim!: bindR_InrE)
  then show ?thesis using Inr assms(2) by (cases r) (auto simp: write_route_def commit_read_def elim!: bindR_InrE)
qed (simp add: write_route_def commit_read_def assms(1))

lemma delete_route_keeps:
  assumes "ok db" "\<And>f db'. delete f = Inr db' \<Longrightarrow> ok db'"
  shows "ok (snd (delete_route reg adb m t delete db))"
proof (cases "guard reg adb m DELETE t (\<lambda>f. bindR (http_errors on_not_found (delete f)) (\<lambda>db'. Inr ((), db')))")
  case (Inr r)
  then obtain f where "delete f = Inr (snd r)" by (auto simp: guard_def bindR_Inr_iff)
  then show ?thesis using Inr assms(2) by (cases r) (simp add: delete_route_def commit_read_def)
qed (simp add: delete_route_def commit_read_def assms(1))

text \<open>The operations of a validated batch.\<close>

fun op_ok :: "('p \<Rightarrow> bool) \<Rightarrow> ('u \<Rightarrow> bool) \<Rightarrow> ('k, 'p, 'u) batch_op \<Rightarrow> bool" where
  "op_ok P U (BatchCreate p) = P p"
| "op_ok P U (BatchUpdate k u) = U u"
| "op_ok P U (BatchDelete k) = True"

lemma valid_batch_ok:
  "valid_batch vc vu ops = Inr ops' \<Longrightarrow> (\<And>p q. vc p = Inr q \<Longrightarrow> P q) \<Longrightarrow> (\<And>u q. vu u = Inr q \<Longrightarrow> U q) \<Longrightarrow>
     \<forall>op1 \<in> set ops'. op_ok P U op1"
  by (induction vc vu ops arbitrary: ops' rule: valid_batch.induct) (auto simp: bindR_Inr_iff)

lemma batch_loop_keeps:
  assumes "\<And>i f p db r db'. P p \<Longrightarrow> ok db \<Longrightarrow> create i f p db = Inr (r, db') \<Longrightarrow> ok db'"
    and "\<And>f k u db r db'. U u \<Longrightarrow> ok db \<Longrightarrow> update f k u db = Inr (r, db') \<Longrightarrow> ok db'"
    and "\<And>f k db db'. ok db \<Longrightarrow> delete f k db = Inr db' \<Longrightarrow> ok db'"
  shows "\<forall>op1 \<in> set ops. op_ok P U op1 \<Longrightarrow> ok db \<Longrightarrow> batch_loop create update delete filters i ops db = Inr (rs, db') \<Longrightarrow> ok db'"
proof (induction ops arbitrary: i db rs)
  case (Cons op1 ops)
  obtain db1 rs1 where "ok db1" "batch_loop create update delete filters (Suc i) ops db1 = Inr (rs1, db')"
  proof (cases op1)
    case (BatchCreate p)
    then obtain f r db1 rs1 where s: "create i f p db = Inr (r, db1)" "P p"
      "batch_loop create update delete filters (Suc i) ops db1 = Inr (rs1, db')"
      using Cons.prems(1,3) by (auto simp: bindR_Inr_iff split: option.split_asm prod.split_asm)
    show ?thesis using that assms(1) [OF s(2) Cons.prems(2) s(1)] s(3) .
  next
    case (BatchUpdate k u)
    then obtain f r db1 rs1 where s: "update f k u db = Inr (r, db1)" "U u"
      "batch_loop create update delete filters (Suc i) ops db1 = Inr (rs1, db')"
      using Cons.prems(1,3) by (auto simp: bindR_Inr_iff split: option.split_asm prod.split_asm)
    show ?thesis using that assms(2) [OF s(2) Cons.prems(2) s(1)] s(3) .
  next
    case (BatchDelete k)
    then obtain f db1 rs1 where "delete f k db = Inr db1" "batch_loop create update delete filters (Suc i) ops db1 = Inr (rs1, db')"
      using Cons.prems(3) by (auto simp: bindR_Inr_iff split: option.split_asm)
    then show ?thesis using assms(3) Cons.prems(2) that by blast
  qed
  then show ?case using Cons.IH Cons.prems(1) by simp
qed simp

lemma batch_route_keeps:
  assumes "ok db" "\<And>fs ops' xs db'. valid_batch vc vu ops = Inr ops' \<Longrightarrow> handler fs ops' = Inr (xs, db') \<Longrightarrow> ok db'"
  shows "ok (snd (batch_write_route reg adb m as t vc vu read handler ops db))"
  using assms by (auto simp: batch_write_route_def commit_read_def Let_def bindR_Inr_iff split: sum.split)

end
