(* ===== verification/IdentityTypes.thy ===== *)
theory IdentityTypes
  imports IdentityRouteLaws CommitLaws
begin

text \<open>
  What the request schemas guarantee of the stored rows: along every history of requests to the
  identity routers the names are stripped and within their column, the descriptions within theirs, every address is one the
  validator returned, and the constraints of the database hold.
\<close>

section \<open>Stripped names\<close>

lemma strip_split: "\<exists>v. dropWhile is_space s = strip s @ v"
proof -
  let ?t = "dropWhile is_space s"
  have "?t = rev (dropWhile is_space (rev ?t)) @ rev (takeWhile is_space (rev ?t))"
    by (metis rev_append rev_rev_ident takeWhile_dropWhile_id)
  then show ?thesis unfolding strip_def by blast
qed

lemma strip_length: "length (strip s) \<le> length s"
proof -
  obtain v where "dropWhile is_space s = strip s @ v" using strip_split by blast
  then have "length (strip s) \<le> length (dropWhile is_space s)" by simp
  then show ?thesis using length_dropWhile_le [of is_space s] by linarith
qed

lemma strip_idem: "strip (strip s) = strip s"
proof (cases "strip s = []")
  case False
  obtain v where v: "dropWhile is_space s = strip s @ v" using strip_split by blast
  have "\<not> is_space (hd (dropWhile is_space s))" using v False by (intro hd_dropWhile) auto
  then have "\<not> is_space (hd (strip s))" using v False by simp
  then have "dropWhile is_space (strip s) = strip s" by (simp add: dropWhile_eq_self_iff)
  moreover have "dropWhile is_space (rev (strip s)) = rev (strip s)" by (simp add: strip_def dropWhile_idem)
  ultimately show ?thesis by (simp add: strip_def [of "strip s"])
next
  case True
  show ?thesis unfolding True by (simp add: strip_def)
qed

definition name_ok :: "nat \<Rightarrow> string \<Rightarrow> bool" where
  "name_ok n s = (s \<noteq> [] \<and> length s \<le> n \<and> strip s = s)"

lemma strip_required_ok: "strip_required n s = Inr t \<Longrightarrow> name_ok n t"
  using strip_length [of s] by (auto simp: strip_required_def name_ok_def strip_idem split: if_splits)

lemma on_opt_Inr: "on_opt f v = Inr w \<Longrightarrow> (\<And>x y. f x = Inr y \<Longrightarrow> P y) \<Longrightarrow> w = Some z \<Longrightarrow> P z"
  by (auto simp: on_opt_def bindR_Inr_iff split: option.splits)

section \<open>Stored rows and accepted payloads\<close>

definition user_ok :: "(string \<Rightarrow> string option) \<Rightarrow> user \<Rightarrow> bool" where
  "user_ok ve u = (name_ok 64 (u_username u) \<and> u_email u \<in> {e. \<exists>s. ve s = Some e})"

definition group_ok :: "group \<Rightarrow> bool" where
  "group_ok g = (name_ok 255 (g_name g) \<and> (\<forall>d. g_description g = Some d \<longrightarrow> length d \<le> 2048))"

definition typed :: "(string \<Rightarrow> string option) \<Rightarrow> 'z svc_db_scheme \<Rightarrow> bool" where
  "typed ve db = ((\<forall>u \<in> set (td_users db). user_ok ve u) \<and> (\<forall>r \<in> set (sv_roles db). name_ok 255 (r_name r)) \<and>
     (\<forall>g \<in> set (sv_groups db). group_ok g))"

definition user_payload :: "(string \<Rightarrow> string option) \<Rightarrow> user_create \<Rightarrow> bool" where
  "user_payload ve p = (name_ok 64 (uc_username p) \<and> uc_email p \<in> {e. \<exists>s. ve s = Some e})"

definition user_changes :: "(string \<Rightarrow> string option) \<Rightarrow> user_update \<Rightarrow> bool" where
  "user_changes ve q = ((\<forall>n. uu_username q = Some n \<longrightarrow> name_ok 64 n) \<and> (\<forall>e. uu_email q = Some e \<longrightarrow> (\<exists>s. ve s = Some e)))"

definition role_payload :: "role_create \<Rightarrow> bool" where
  "role_payload p = name_ok 255 (rc_name p)"

definition role_changes :: "role_update \<Rightarrow> bool" where
  "role_changes q = (\<forall>n. rup_name q = Some n \<longrightarrow> name_ok 255 n)"

definition group_payload :: "group_create \<Rightarrow> bool" where
  "group_payload p = (name_ok 255 (gc_name p) \<and> (\<forall>d. gc_description p = Some d \<longrightarrow> length d \<le> 2048))"

definition group_changes :: "group_update \<Rightarrow> bool" where
  "group_changes q = ((\<forall>n. gup_name q = Some n \<longrightarrow> name_ok 255 n) \<and> (\<forall>d. gup_description q = Some d \<longrightarrow> length d \<le> 2048))"

lemmas payload_defs = user_payload_def user_changes_def role_payload_def role_changes_def group_payload_def group_changes_def

lemma valid_user_create_ok:
  "valid_user_create ve p = Inr q \<Longrightarrow> user_payload ve q"
  by (auto simp: payload_defs valid_user_create_def email_str_def bindR_Inr_iff intro: strip_required_ok split: option.splits)

lemma valid_user_update_ok:
  "valid_user_update ve p = Inr q \<Longrightarrow> user_changes ve q"
  by (auto simp: payload_defs valid_user_update_def email_str_def on_opt_def bindR_Inr_iff intro: strip_required_ok split: option.splits)

lemma valid_role_ok:
  "valid_role_create p = Inr q \<Longrightarrow> role_payload q"
  "valid_role_update p' = Inr q' \<Longrightarrow> role_changes q'"
  by (auto simp: payload_defs valid_role_create_def valid_role_update_def on_opt_def bindR_Inr_iff intro: strip_required_ok split: option.splits)

lemma valid_group_ok:
  "valid_group_create p = Inr q \<Longrightarrow> group_payload q"
  "valid_group_update p' = Inr q' \<Longrightarrow> group_changes q'"
  by (auto simp: payload_defs valid_group_create_def valid_group_update_def on_opt_def max_chars_def bindR_Inr_iff
      intro: strip_required_ok split: option.splits if_splits)

section \<open>The services keep the types\<close>

lemma create_typed:
  assumes "typed ve db"
  shows "create_user env i f pu db = Inr (u, db1) \<Longrightarrow> user_payload ve pu \<Longrightarrow> typed ve db1"
    "create_role env i f pr db = Inr (r, db2) \<Longrightarrow> role_payload pr \<Longrightarrow> typed ve db2"
    "create_group env c i f pg db = Inr (g, db3) \<Longrightarrow>
       group_payload pg \<Longrightarrow> typed ve db3"
  using assms create_user_Inr [of env i f pu db u db1] create_group_Inr [of env c i f pg db g db3]
  by (auto simp: payload_defs typed_def user_ok_def group_ok_def new_user_def new_group_def create_role_def new_role_def
      Let_def bindR_Inr_iff flush_Inr_iff)

lemma typed_update:
  assumes "typed ve db"
  shows "user_ok ve u \<Longrightarrow> typed ve (set_user db u)" "name_ok 255 (r_name r) \<Longrightarrow> typed ve (set_role db r)"
    "group_ok g \<Longrightarrow> typed ve (set_group db g)"
  using assms by (auto simp: typed_def set_user_def set_role_def set_group_def)

lemma scoped_get_mem: "scoped_get ev D f view key rows k = Inr r \<Longrightarrow> r \<in> set rows"
proof -
  have only: "(case xs of [] \<Rightarrow> Inl a | [x] \<Rightarrow> Inr x | _ \<Rightarrow> Inl b) = Inr r \<Longrightarrow> r \<in> set xs" for xs and a b :: svc_error
    by (auto split: list.splits)
  assume "scoped_get ev D f view key rows k = Inr r"
  then obtain c where "r \<in> set (filter (\<lambda>r. key r = k \<and> where_holds ev D c (view r)) rows)"
    unfolding scoped_get_def bindR_Inr_iff using only by blast
  then show ?thesis by simp
qed

lemma typed_get:
  "typed ve db \<Longrightarrow> get_user env f k db = Inr u \<Longrightarrow> user_ok ve u"
  "typed ve db \<Longrightarrow> get_role env f k db = Inr r \<Longrightarrow> name_ok 255 (r_name r)"
  "typed ve db \<Longrightarrow> get_group env f k db = Inr g \<Longrightarrow> group_ok g"
  by (auto simp: typed_def get_user_def get_role_def get_group_def dest!: scoped_get_mem)

lemma update_user_typed:
  assumes "typed ve db" "update_user env f k p db = Inr (u, db')"
    and "user_changes ve p"
  shows "typed ve db'"
proof -
  obtain u0 where g: "get_user env f k db = Inr u0" using assms(2) by (auto simp: update_user_def elim!: bindR_InrE)
  define v where "v = set_if (uu_password p) (\<lambda>p r. r\<lparr>u_password := hash_optional env 0 (Some p)\<rparr>)
              (set_if (uu_enabled p) (\<lambda>b r. r\<lparr>u_enabled := b\<rparr>)
              (set_if (uu_username p) (\<lambda>n r. r\<lparr>u_username := n\<rparr>)
              (set_if (uu_email p) (\<lambda>e r. r\<lparr>u_email := e\<rparr>) u0)))"
  have v: "user_ok ve v"
    using typed_get(1) [OF assms(1) g] assms(3) by (auto simp: payload_defs v_def set_if_def user_ok_def split: option.split)
  have "db' = db \<or> db' = set_user db u \<and> u = v\<lparr>u_updated_at := se_now env\<rparr>"
    using assms(2) unfolding update_user_def g bindR.simps Let_def v_def [symmetric]
    by (auto simp: flush_Inr_iff split: if_splits)
  moreover have "user_ok ve (v\<lparr>u_updated_at := se_now env\<rparr>)" using v by (simp add: user_ok_def)
  ultimately show ?thesis using assms(1) typed_update(1) [OF assms(1)] by auto
qed

lemma update_role_typed:
  assumes "typed ve db" "update_role env f k p db = Inr (r, db')" "role_changes p"
  shows "typed ve db'"
proof -
  obtain r0 where g: "get_role env f k db = Inr r0" using assms(2) by (auto simp: update_role_def elim!: bindR_InrE)
  define r1 where "r1 = set_if (rup_name p) (\<lambda>n x. x\<lparr>r_name := n\<rparr>) r0"
  have n: "name_ok 255 (r_name r1)"
    using typed_get(2) [OF assms(1) g] assms(3) by (auto simp: payload_defs r1_def set_if_def split: option.split)
  have "db' = db \<or> db' = set_role db r \<and> r_name r = r_name r1"
    using assms(2) unfolding update_role_def g bindR.simps Let_def r1_def [symmetric]
    by (auto simp: flush_Inr_iff split: if_splits)
  then show ?thesis using assms(1) n typed_update(2) [OF assms(1), of r] by auto
qed

lemma update_group_typed:
  assumes "typed ve db" "update_group env f k p db = Inr (g', db')"
    and "group_changes p"
  shows "typed ve db'"
proof -
  obtain g0 where g: "get_group env f k db = Inr g0" using assms(2) by (auto simp: update_group_def elim!: bindR_InrE)
  define g1 where "g1 = set_if (gup_description p) (\<lambda>d x. x\<lparr>g_description := Some d\<rparr>)
      (set_if (gup_name p) (\<lambda>n x. x\<lparr>g_name := n\<rparr>) g0)"
  have n: "group_ok g1"
    using typed_get(3) [OF assms(1) g] assms(3) by (auto simp: payload_defs g1_def set_if_def group_ok_def split: option.split)
  have "db' = db \<or> db' = set_group db g' \<and> g' = g1\<lparr>g_updated_at := se_now env\<rparr>"
    using assms(2) unfolding update_group_def g bindR.simps Let_def g1_def [symmetric]
    by (auto simp: flush_Inr_iff split: if_splits)
  then show ?thesis using assms(1) n typed_update(3) [OF assms(1), of g'] by (auto simp: group_ok_def)
qed

text \<open>The other statements only drop rows of these tables or leave them alone.\<close>

lemma typed_subset:
  "typed ve db \<Longrightarrow> set (td_users db') \<subseteq> set (td_users db) \<Longrightarrow> set (sv_roles db') \<subseteq> set (sv_roles db) \<Longrightarrow>
     set (sv_groups db') \<subseteq> set (sv_groups db) \<Longrightarrow> typed ve db'"
  unfolding typed_def by blast

lemma delete_typed:
  assumes "typed ve db"
  shows "delete_user env f k db = Inr db1 \<Longrightarrow> typed ve db1" "delete_role env f k db = Inr db2 \<Longrightarrow> typed ve db2"
    "delete_group env f k db = Inr db3 \<Longrightarrow> typed ve db3"
  by (rule typed_subset [OF assms];
      auto simp: delete_user_def delete_role_def delete_group_def bindR_Inr_iff cascade_user_def cascade_role_def
        cascade_group_def Let_def split: if_splits)+

lemma links_typed:
  assumes "typed ve db"
  shows "create_user_role env i f l db = Inr (x, db1) \<Longrightarrow> typed ve db1" "delete_user_role env f k db = Inr db2 \<Longrightarrow> typed ve db2"
    "create_group_user env c i f l db = Inr (y, db3) \<Longrightarrow> typed ve db3" "delete_group_user env f k db = Inr db4 \<Longrightarrow> typed ve db4"
  using create_user_role_Inr [of env i f l db x db1] create_group_user_Inr [of env c i f l db y db3]
  by (rule_tac [!] typed_subset [OF assms]) (auto simp: delete_user_role_def delete_group_user_def bindR_Inr_iff)

lemma keys_typed:
  assumes "typed ve db"
  shows "create_key env c i f p db = Inr (raw, k, db1) \<Longrightarrow> typed ve db1"
    "update_key env f kid u db = Inr (k', db2) \<Longrightarrow> typed ve db2"
    "delete_key env f kid db = Inr db3 \<Longrightarrow> typed ve db3"
  by (rule typed_subset [OF assms];
      auto simp: create_key_def create_api_key_def update_key_def delete_key_def set_key_def Let_def bindR_Inr_iff
        split: if_splits)+

section \<open>Requests\<close>

text \<open>The mutating requests of the identity routers.\<close>

datatype identity_request =
    PostUser user_create | PatchUser uuid user_update | DeleteUser uuid
  | PostUsers "(uuid, user_create, user_update) batch_op list"
  | PostRole role_create | PatchRole uuid role_update | DeleteRole uuid
  | PostRoles "(uuid, role_create, role_update) batch_op list"
  | PostUserRole "uuid \<times> uuid" | DeleteUserRole uuid | PostUserRoles "(uuid, uuid \<times> uuid, unit) batch_op list"
  | PostGroup group_create | PatchGroup uuid group_update | DeleteGroup uuid
  | PostGroups "(uuid, group_create, group_update) batch_op list"
  | PostGroupUser "uuid \<times> uuid" | DeleteGroupUser uuid | PostGroupUsers "(uuid, uuid \<times> uuid, unit) batch_op list"
  | PostApiKey api_key_create | PatchApiKey uuid api_key_update | DeleteApiKey uuid
  | PostApiKeys "(uuid, api_key_create, api_key_update) batch_op list"

text \<open>The database a request leaves.\<close>

fun serve ::
    "'y svc_env_scheme \<Rightarrow> (string \<Rightarrow> string option) \<Rightarrow> registry \<Rightarrow> auth_token option \<Rightarrow> identity_request \<Rightarrow>
     'z svc_db_scheme \<Rightarrow> 'z svc_db_scheme" where
  "serve env ve reg t (PostUser p) db = snd (create_user_route env ve reg t p db)"
| "serve env ve reg t (PatchUser k u) db = snd (update_user_route env ve reg t k u db)"
| "serve env ve reg t (DeleteUser k) db = snd (delete_user_route env reg t k db)"
| "serve env ve reg t (PostUsers ops) db = snd (write_users_batch_route env ve reg t ops db)"
| "serve env ve reg t (PostRole p) db = snd (create_role_route env reg t p db)"
| "serve env ve reg t (PatchRole k u) db = snd (update_role_route env reg t k u db)"
| "serve env ve reg t (DeleteRole k) db = snd (delete_role_route env reg t k db)"
| "serve env ve reg t (PostRoles ops) db = snd (write_roles_batch_route env reg t ops db)"
| "serve env ve reg t (PostUserRole p) db = snd (create_user_role_route env reg t p db)"
| "serve env ve reg t (DeleteUserRole k) db = snd (delete_user_role_route env reg t k db)"
| "serve env ve reg t (PostUserRoles ops) db = snd (write_user_roles_batch_route env reg t ops db)"
| "serve env ve reg t (PostGroup p) db = snd (create_group_route env reg t p db)"
| "serve env ve reg t (PatchGroup k u) db = snd (update_group_route env reg t k u db)"
| "serve env ve reg t (DeleteGroup k) db = snd (delete_group_route env reg t k db)"
| "serve env ve reg t (PostGroups ops) db = snd (write_groups_batch_route env reg t ops db)"
| "serve env ve reg t (PostGroupUser p) db = snd (create_group_user_route env reg t p db)"
| "serve env ve reg t (DeleteGroupUser k) db = snd (delete_group_user_route env reg t k db)"
| "serve env ve reg t (PostGroupUsers ops) db = snd (write_group_users_batch_route env reg t ops db)"
| "serve env ve reg t (PostApiKey p) db = snd (create_api_key_route env reg t p db)"
| "serve env ve reg t (PatchApiKey k u) db = snd (update_api_key_route env reg t k u db)"
| "serve env ve reg t (DeleteApiKey k) db = snd (delete_api_key_route env reg t k db)"
| "serve env ve reg t (PostApiKeys ops) db = snd (write_api_keys_batch_route env reg t ops db)"

text \<open>Histories: every request has its own clock, identifiers and principal.\<close>

inductive served :: "(string \<Rightarrow> string option) \<Rightarrow> registry \<Rightarrow> svc_db \<Rightarrow> svc_db \<Rightarrow> bool" for ve reg db where
  start: "served ve reg db db"
| request: "served ve reg db db1 \<Longrightarrow> served ve reg db (serve (env :: svc_env) ve reg t req db1)"

section \<open>Every operation keeps the constraints and the types\<close>

definition sound :: "(string \<Rightarrow> string option) \<Rightarrow> 'z svc_db_scheme \<Rightarrow> bool" where
  "sound ve db = (integrity db \<and> typed ve db)"

lemma soundI: "integrity db \<Longrightarrow> typed ve db \<Longrightarrow> sound ve db"
  by (simp add: sound_def)

lemma soundD: "sound ve db \<Longrightarrow> integrity db" "sound ve db \<Longrightarrow> typed ve db"
  by (simp_all add: sound_def)

lemma user_steps:
  assumes "sound ve db"
  shows "create_user env i f p db = Inr (u, db1) \<Longrightarrow> user_payload ve p \<Longrightarrow> sound ve db1"
    "update_user env f k q db = Inr (u, db2) \<Longrightarrow>
       user_changes ve q \<Longrightarrow> sound ve db2"
    "delete_user env f k db = Inr db3 \<Longrightarrow> sound ve db3"
  subgoal by (rule soundI [OF user_service.create_step [OF soundD(1) [OF assms], THEN conjunct1] create_typed(1) [OF soundD(2) [OF assms]]]; assumption)
  subgoal by (rule soundI [OF user_service.update_step [OF soundD(1) [OF assms], THEN conjunct1] update_user_typed [OF soundD(2) [OF assms]]]; assumption)
  subgoal by (rule soundI [OF user_service.delete_step [OF soundD(1) [OF assms], THEN conjunct1] delete_typed(1) [OF soundD(2) [OF assms]]]; assumption)
  done

lemma role_steps:
  assumes "sound ve db"
  shows "create_role env i f p db = Inr (r, db1) \<Longrightarrow> role_payload p \<Longrightarrow> sound ve db1"
    "update_role env f k q db = Inr (r, db2) \<Longrightarrow> role_changes q \<Longrightarrow> sound ve db2"
    "delete_role env f k db = Inr db3 \<Longrightarrow> sound ve db3"
  subgoal by (rule soundI [OF role_service.create_step [OF soundD(1) [OF assms], THEN conjunct1] create_typed(2) [OF soundD(2) [OF assms]]]; assumption)
  subgoal by (rule soundI [OF role_service.update_step [OF soundD(1) [OF assms], THEN conjunct1] update_role_typed [OF soundD(2) [OF assms]]]; assumption)
  subgoal by (rule soundI [OF role_service.delete_step [OF soundD(1) [OF assms], THEN conjunct1] delete_typed(2) [OF soundD(2) [OF assms]]]; assumption)
  done

lemma group_steps:
  assumes "sound ve db"
  shows "create_group env c i f p db = Inr (g, db1) \<Longrightarrow>
      group_payload p \<Longrightarrow> sound ve db1"
    "update_group env f k q db = Inr (g, db2) \<Longrightarrow>
      group_changes q \<Longrightarrow> sound ve db2"
    "delete_group env f k db = Inr db3 \<Longrightarrow> sound ve db3"
  subgoal by (rule soundI [OF group_service.create_step [OF soundD(1) [OF assms], THEN conjunct1] create_typed(3) [OF soundD(2) [OF assms]]]; assumption)
  subgoal by (rule soundI [OF group_service.update_step [OF soundD(1) [OF assms], THEN conjunct1] update_group_typed [OF soundD(2) [OF assms]]]; assumption)
  subgoal by (rule soundI [OF group_service.delete_step [OF soundD(1) [OF assms], THEN conjunct1] delete_typed(3) [OF soundD(2) [OF assms]]]; assumption)
  done

lemma link_steps:
  assumes "sound ve db"
  shows "create_user_role env i f l db = Inr (x, db1) \<Longrightarrow> sound ve db1" "delete_user_role env f k db = Inr db2 \<Longrightarrow> sound ve db2"
    "create_group_user env c i f l db = Inr (y, db3) \<Longrightarrow> sound ve db3" "delete_group_user env f k db = Inr db4 \<Longrightarrow> sound ve db4"
  subgoal by (rule soundI [OF user_role_service.create_step [OF soundD(1) [OF assms], THEN conjunct1] links_typed(1) [OF soundD(2) [OF assms]]]; assumption)
  subgoal by (rule soundI [OF user_role_service.delete_step [OF soundD(1) [OF assms], THEN conjunct1] links_typed(2) [OF soundD(2) [OF assms]]]; assumption)
  subgoal by (rule soundI [OF group_user_service.create_step [OF soundD(1) [OF assms], THEN conjunct1] links_typed(3) [OF soundD(2) [OF assms]]]; assumption)
  subgoal by (rule soundI [OF group_user_service.delete_step [OF soundD(1) [OF assms], THEN conjunct1] links_typed(4) [OF soundD(2) [OF assms]]]; assumption)
  done

lemma key_steps:
  assumes "sound ve db"
  shows "create_key env c i f p db = Inr (raw, k', db0) \<Longrightarrow> sound ve db0"
    "update_key env f kid u db = Inr (k, db2) \<Longrightarrow> sound ve db2" "delete_key env f kid db = Inr db3 \<Longrightarrow> sound ve db3"
proof -
  assume c: "create_key env c i f p db = Inr (raw, k', db0)"
  then have "batch_create_key env c i f p db = Inr (k', db0)" by (simp add: batch_create_key_def)
  from key_service.create_step [OF soundD(1) [OF assms] this] keys_typed(1) [OF soundD(2) [OF assms] c]
  show "sound ve db0" by (simp add: sound_def)
next
  show "update_key env f kid u db = Inr (k, db2) \<Longrightarrow> sound ve db2"
    by (rule soundI [OF key_service.update_step [OF soundD(1) [OF assms], THEN conjunct1] keys_typed(2) [OF soundD(2) [OF assms]]]; assumption)
  show "delete_key env f kid db = Inr db3 \<Longrightarrow> sound ve db3"
    by (rule soundI [OF key_service.delete_step [OF soundD(1) [OF assms], THEN conjunct1] keys_typed(3) [OF soundD(2) [OF assms]]]; assumption)
qed

lemma batch_key_step: "sound ve db \<Longrightarrow> batch_create_key env c i f p db = Inr (k, db1) \<Longrightarrow> sound ve db1"
  by (auto simp: batch_create_key_def bindR_Inr_iff dest: key_steps(1))

section \<open>Every request keeps them\<close>

lemma require_Inr: "require_user st t h = Inr x \<Longrightarrow> (\<And>u. h u = Inr x \<Longrightarrow> Q) \<Longrightarrow> Q"
  by (auto simp: require_user_def split: option.splits)

lemma batch_served:
  assumes "sound ve db" "\<And>p q. vc p = Inr q \<Longrightarrow> P q" "\<And>u q. vu u = Inr q \<Longrightarrow> U q"
    and "\<And>c i f p db r db'. P p \<Longrightarrow> sound ve db \<Longrightarrow> create c i f p db = Inr (r, db') \<Longrightarrow> sound ve db'"
    and "\<And>f k u db r db'. U u \<Longrightarrow> sound ve db \<Longrightarrow> update f k u db = Inr (r, db') \<Longrightarrow> sound ve db'"
    and "\<And>f k db db'. sound ve db \<Longrightarrow> delete f k db = Inr db' \<Longrightarrow> sound ve db'"
    and "\<And>fs ops' xs db'. handler fs ops' = Inr (xs, db') \<Longrightarrow>
      \<exists>c. batch_loop (create c) update delete fs 0 ops' db = Inr (xs, db')"
  shows "sound ve (snd (batch_write_route reg adb m as t vc vu read handler ops db))"
proof (rule batch_route_keeps [where ok = "sound ve", OF assms(1)])
  fix fs ops' xs db'
  assume v: "valid_batch vc vu ops = Inr ops'" and "handler fs ops' = Inr (xs, db')"
  then obtain c where b: "batch_loop (create c) update delete fs 0 ops' db = Inr (xs, db')" using assms(7) by blast
  have "\<forall>op1 \<in> set ops'. op_ok P U op1" by (rule valid_batch_ok [OF v assms(2,3)])
  from batch_loop_keeps [where ok = "sound ve", OF assms(4-6) this assms(1) b] show "sound ve db'" .
qed

lemma users_served:
  assumes "sound ve db"
  shows "sound ve (serve env ve reg t (PostUser p) db)" "sound ve (serve env ve reg t (PatchUser k u) db)"
    "sound ve (serve env ve reg t (DeleteUser k) db)" "sound ve (serve env ve reg t (PostUsers ops) db)"
proof -
  show "sound ve (serve env ve reg t (PostUser p) db)"
    unfolding serve.simps create_user_route_def
    by (rule write_route_keeps [where ok = "sound ve", OF assms], unfold http_errors_Inr)
      (rule user_steps(1) [OF assms _ valid_user_create_ok])
  show "sound ve (serve env ve reg t (PatchUser k u) db)"
    unfolding serve.simps update_user_route_def
    by (rule write_route_keeps [where ok = "sound ve", OF assms], unfold http_errors_Inr)
      (rule user_steps(2) [OF assms _ valid_user_update_ok])
  show "sound ve (serve env ve reg t (DeleteUser k) db)"
    unfolding serve.simps delete_user_route_def
    by (rule delete_route_keeps [where ok = "sound ve", OF assms user_steps(3) [OF assms]])
  show "sound ve (serve env ve reg t (PostUsers ops) db)"
    unfolding serve.simps write_users_batch_route_def
    by (rule batch_served [where P = "user_payload ve" and U = "user_changes ve", OF assms valid_user_create_ok valid_user_update_ok, where create = "\<lambda>_. create_user env" and
          update = "update_user env" and delete = "delete_user env"])
      ((assumption | (rule user_steps; assumption))+, simp add: apply_user_batch_def)
qed

lemma roles_served:
  assumes "sound ve db"
  shows "sound ve (serve env ve reg t (PostRole p) db)" "sound ve (serve env ve reg t (PatchRole k u) db)"
    "sound ve (serve env ve reg t (DeleteRole k) db)" "sound ve (serve env ve reg t (PostRoles ops) db)"
proof -
  show "sound ve (serve env ve reg t (PostRole p) db)"
    unfolding serve.simps create_role_route_def
    by (rule write_route_keeps [where ok = "sound ve", OF assms], unfold http_errors_Inr)
      (rule role_steps(1) [OF assms _ valid_role_ok(1)])
  show "sound ve (serve env ve reg t (PatchRole k u) db)"
    unfolding serve.simps update_role_route_def
    by (rule write_route_keeps [where ok = "sound ve", OF assms], unfold http_errors_Inr)
      (rule role_steps(2) [OF assms _ valid_role_ok(2)])
  show "sound ve (serve env ve reg t (DeleteRole k) db)"
    unfolding serve.simps delete_role_route_def
    by (rule delete_route_keeps [where ok = "sound ve", OF assms role_steps(3) [OF assms]])
  show "sound ve (serve env ve reg t (PostRoles ops) db)"
    unfolding serve.simps write_roles_batch_route_def
    by (rule batch_served [where P = role_payload and U = role_changes, OF assms valid_role_ok, where create = "\<lambda>_. create_role env" and
          update = "update_role env" and delete = "delete_role env"])
      ((assumption | (rule role_steps; assumption))+, simp add: apply_role_batch_def)
qed

lemma groups_served:
  assumes "sound ve db"
  shows "sound ve (serve env ve reg t (PostGroup p) db)" "sound ve (serve env ve reg t (PatchGroup k u) db)"
    "sound ve (serve env ve reg t (DeleteGroup k) db)" "sound ve (serve env ve reg t (PostGroups ops) db)"
proof -
  show "sound ve (serve env ve reg t (PostGroup p) db)"
    unfolding serve.simps create_group_route_def
    by (rule write_route_keeps [where ok = "sound ve", OF assms], erule require_Inr, unfold http_errors_Inr)
      (rule group_steps(1) [OF assms _ valid_group_ok(1)])
  show "sound ve (serve env ve reg t (PatchGroup k u) db)"
    unfolding serve.simps update_group_route_def
    by (rule write_route_keeps [where ok = "sound ve", OF assms], unfold http_errors_Inr)
      (rule group_steps(2) [OF assms _ valid_group_ok(2)])
  show "sound ve (serve env ve reg t (DeleteGroup k) db)"
    unfolding serve.simps delete_group_route_def
    by (rule delete_route_keeps [where ok = "sound ve", OF assms group_steps(3) [OF assms]])
  show "sound ve (serve env ve reg t (PostGroups ops) db)"
    unfolding serve.simps write_groups_batch_route_def
    by (rule batch_served [where P = group_payload and U = group_changes, OF assms valid_group_ok, where create = "create_group env" and
          update = "update_group env" and delete = "delete_group env"])
      ((assumption | (rule group_steps; assumption))+, auto simp: apply_group_batch_def elim!: require_Inr)
qed

lemma refuse_Inr: "refuse u = Inr q \<Longrightarrow> False"
  by (simp add: refuse_def)

lemma links_served:
  assumes "sound ve db"
  shows "sound ve (serve env ve reg t (PostUserRole l) db)" "sound ve (serve env ve reg t (DeleteUserRole k) db)"
    "sound ve (serve env ve reg t (PostUserRoles ops) db)"
    "sound ve (serve env ve reg t (PostGroupUser l) db)" "sound ve (serve env ve reg t (DeleteGroupUser k) db)"
    "sound ve (serve env ve reg t (PostGroupUsers ops) db)"
proof -
  show "sound ve (serve env ve reg t (PostUserRole l) db)"
    unfolding serve.simps create_user_role_route_def
    by (rule write_route_keeps [where ok = "sound ve", OF assms], unfold http_errors_Inr) (rule link_steps(1) [OF assms])
  show "sound ve (serve env ve reg t (DeleteUserRole k) db)"
    unfolding serve.simps delete_user_role_route_def
    by (rule delete_route_keeps [where ok = "sound ve", OF assms link_steps(2) [OF assms]])
  show "sound ve (serve env ve reg t (PostUserRoles ops) db)"
    unfolding serve.simps write_user_roles_batch_route_def
    by (rule batch_served [where P = "\<lambda>_. True" and U = "\<lambda>_. False", OF assms TrueI refuse_Inr, where create = "\<lambda>_. create_user_role env" and update = no_update and
          delete = "delete_user_role env"])
      (assumption | erule FalseE | erule (1) link_steps | simp add: apply_user_role_batch_def)+
  show "sound ve (serve env ve reg t (PostGroupUser l) db)"
    unfolding serve.simps create_group_user_route_def
    by (rule write_route_keeps [where ok = "sound ve", OF assms], erule require_Inr, unfold http_errors_Inr)
      (rule link_steps(3) [OF assms])
  show "sound ve (serve env ve reg t (DeleteGroupUser k) db)"
    unfolding serve.simps delete_group_user_route_def
    by (rule delete_route_keeps [where ok = "sound ve", OF assms link_steps(4) [OF assms]])
  show "sound ve (serve env ve reg t (PostGroupUsers ops) db)"
    unfolding serve.simps write_group_users_batch_route_def
    by (rule batch_served [where P = "\<lambda>_. True" and U = "\<lambda>_. False", OF assms TrueI refuse_Inr, where create = "create_group_user env" and update = no_update and
          delete = "delete_group_user env"])
      (assumption | erule FalseE | erule (1) link_steps | erule require_Inr, force simp: apply_group_user_batch_def)+
qed

lemma keys_served:
  assumes "sound ve db"
  shows "sound ve (serve env ve reg t (PostApiKey p) db)" "sound ve (serve env ve reg t (PatchApiKey k u) db)"
    "sound ve (serve env ve reg t (DeleteApiKey k) db)" "sound ve (serve env ve reg t (PostApiKeys ops) db)"
proof -
  show "sound ve (serve env ve reg t (PostApiKey p) db)"
    unfolding serve.simps create_api_key_route_def
    by (rule write_route_keeps [where ok = "sound ve", OF assms], erule require_Inr)
      (auto simp: bindR_Inr_iff dest: key_steps(1) [OF assms])
  show "sound ve (serve env ve reg t (PatchApiKey k u) db)"
    unfolding serve.simps update_api_key_route_def
    by (rule write_route_keeps [where ok = "sound ve", OF assms], unfold http_errors_Inr) (rule key_steps(2) [OF assms])
  show "sound ve (serve env ve reg t (DeleteApiKey k) db)"
    unfolding serve.simps delete_api_key_route_def
    by (rule delete_route_keeps [where ok = "sound ve", OF assms key_steps(3) [OF assms]])
  show "sound ve (serve env ve reg t (PostApiKeys ops) db)"
    unfolding serve.simps write_api_keys_batch_route_def
    by (rule batch_served [where P = "\<lambda>_. True" and U = "\<lambda>_. True", OF assms TrueI TrueI, where create = "batch_create_key env" and
          update = "update_key env" and delete = "delete_key env"])
      ((assumption | (rule batch_key_step key_steps; assumption))+, auto simp: apply_key_batch_def elim!: require_Inr)
qed

lemma request_sound: "sound ve db \<Longrightarrow> sound ve (serve env ve reg t req db)"
  by (cases req) (simp_all only: users_served roles_served groups_served links_served keys_served)

section \<open>Properties\<close>

text \<open>C30. Starting from an empty or a well-formed database, whatever requests the identity routers serve, with
  whatever clocks, identifiers and principals: every stored user name is stripped and has 1 to 64
  characters, every address is one the validator returned, role and group names are stripped and have 1 to 255
  characters, group descriptions at most 2048, and the unique and foreign keys hold.\<close>

theorem stored_rows_typed:
  assumes "served ve reg db db'" "integrity db" "typed ve db"
  shows "integrity db' \<and>
    (\<forall>u \<in> set (td_users db'). name_ok 64 (u_username u) \<and> (\<exists>s. ve s = Some (u_email u))) \<and>
    (\<forall>r \<in> set (sv_roles db'). name_ok 255 (r_name r)) \<and>
    (\<forall>g \<in> set (sv_groups db'). name_ok 255 (g_name g) \<and> (\<forall>d. g_description g = Some d \<longrightarrow> length d \<le> 2048))"
proof -
  from assms(1) have "sound ve db'"
    by induction (simp_all add: sound_def assms(2,3) request_sound [unfolded sound_def])
  then show ?thesis by (simp add: sound_def typed_def user_ok_def group_ok_def)
qed

theorem stored_rows_typed_witness:
  "set (td_users (serve witness_svc_env Some registrations seven
       (PostUser \<lparr>uc_email = ''ann@b.c'', uc_username = '' ann '', uc_enabled = True, uc_password = None\<rparr>) keyed_db)) \<subseteq>
     {u. name_ok 64 (u_username u)}"
proof -
  have "typed Some keyed_db"
    by (simp add: typed_def user_ok_def name_ok_def strip_def is_space_def keyed_db_def witness_svc_db_def witness_user_def)
  from stored_rows_typed [OF served.request [OF served.start] keyed_integrity this] show ?thesis by blast
qed

end
