(* ===== verification/JobRouter.thy ===== *)
theory JobRouter
  imports Routes JobService
begin

text \<open>
  \<open>job/job_router.py\<close> and the bounds of \<open>job/job_schemas.py\<close>. The partition key of a job is not
  in the response: clients know a job by its id alone.
\<close>

record job_read =
  jd_id :: uuid
  jd_creator_id :: uuid
  jd_runner_id :: "uuid option"
  jd_status :: string
  jd_detail :: "string option"
  jd_max_seconds :: int
  jd_started_at :: "datetime option"
  jd_details_kind :: string
  jd_details :: job_details
  jd_updated_at :: datetime

definition read_job :: "job \<Rightarrow> nat + job_read" where
  "read_job j = Inr \<lparr>jd_id = j_id j, jd_creator_id = j_creator_id j, jd_runner_id = j_runner_id j, jd_status = j_status j,
     jd_detail = j_detail j, jd_max_seconds = j_max_seconds j, jd_started_at = j_started_at j,
     jd_details_kind = j_details_kind j, jd_details = j_details j, jd_updated_at = j_updated_at j\<rparr>"

text \<open>\<open>Field(ge=lo, le=hi)\<close>.\<close>

definition in_range :: "int \<Rightarrow> int \<Rightarrow> int \<Rightarrow> nat + int" where
  "in_range lo hi n = (if n < lo \<or> hi < n then Inl 422 else Inr n)"

definition valid_job_create :: "job_create \<Rightarrow> nat + job_create" where
  "valid_job_create payload =
     bindR (on_opt (max_chars 65536) (jc_detail payload)) (\<lambda>d.
     bindR (in_range 1 86400 (jc_max_seconds payload)) (\<lambda>n.
       Inr (payload\<lparr>jc_detail := d, jc_max_seconds := n\<rparr>)))"

definition valid_job_update :: "job_update \<Rightarrow> nat + job_update" where
  "valid_job_update payload =
     bindR (on_opt (on_opt (max_chars 65536)) (jup_detail payload)) (\<lambda>d.
     bindR (on_opt (on_opt (in_range 1 86400)) (jup_max_seconds payload)) (\<lambda>n.
       Inr (payload\<lparr>jup_detail := d, jup_max_seconds := n\<rparr>)))"

fun on_job_create :: "svc_error \<Rightarrow> nat option" where
  "on_job_create PermissionScopeError = Some 403"
| "on_job_create _ = None"

fun on_job_batch :: "svc_error \<Rightarrow> nat option" where
  "on_job_batch (BatchPermissionDeniedError s) = Some 403"
| "on_job_batch PermissionScopeError = Some 403"
| "on_job_batch NotFoundError = Some 404"
| "on_job_batch _ = None"

section \<open>Routes\<close>

definition search_jobs_route ::
    "'y svc_env_scheme \<Rightarrow> registry \<Rightarrow> auth_token option \<Rightarrow> sfilter \<Rightarrow> string option \<Rightarrow> nat \<Rightarrow>
     'z job_db_scheme \<Rightarrow> nat + job_read list \<times> string option \<times> nat" where
  "search_jobs_route env reg token search_filter cursor limit db =
     search_route reg (auth_view db) ''Job'' token uuid_cursor uuid_str read_job
       (\<lambda>f. search_jobs env f db) search_filter cursor limit"

definition count_jobs_route ::
    "'y svc_env_scheme \<Rightarrow> registry \<Rightarrow> auth_token option \<Rightarrow> sfilter \<Rightarrow> 'z job_db_scheme \<Rightarrow> nat + nat" where
  "count_jobs_route env reg token search_filter db =
     count_route reg (auth_view db) ''Job'' token (\<lambda>f. count_jobs env f db) search_filter"

definition create_job_route ::
    "'y svc_env_scheme \<Rightarrow> registry \<Rightarrow> auth_token option \<Rightarrow> job_create \<Rightarrow> 'z job_db_scheme \<Rightarrow>
     (nat + job_read) \<times> 'z job_db_scheme" where
  "create_job_route env reg token payload db =
     write_route reg (auth_view db) ''Job'' CREATE token valid_job_create read_job
       (\<lambda>f body. require_user 401 token (\<lambda>user_id. http_errors on_job_create (create_job env user_id 0 f body db)))
       payload db"

definition get_jobs_batch_route ::
    "'y svc_env_scheme \<Rightarrow> registry \<Rightarrow> auth_token option \<Rightarrow> uuid list \<Rightarrow> 'z job_db_scheme \<Rightarrow> nat + job_read option list" where
  "get_jobs_batch_route env reg token ids db =
     batch_read_route reg (auth_view db) ''Job'' token read_job (\<lambda>f ks. get_many_jobs env f ks db) ids"

definition write_jobs_batch_route ::
    "'y svc_env_scheme \<Rightarrow> registry \<Rightarrow> auth_token option \<Rightarrow> (uuid, job_create, job_update) batch_op list \<Rightarrow>
     'z job_db_scheme \<Rightarrow> (nat + job_read option list) \<times> 'z job_db_scheme" where
  "write_jobs_batch_route env reg token operations db =
     batch_write_route reg (auth_view db) ''Job'' [CREATE, UPDATE, DELETE] token valid_job_create valid_job_update read_job
       (\<lambda>perm_filters ops. require_user 401 token (\<lambda>user_id.
          http_errors on_job_batch (apply_job_batch env user_id ops perm_filters db)))
       operations db"

definition get_job_route ::
    "'y svc_env_scheme \<Rightarrow> registry \<Rightarrow> auth_token option \<Rightarrow> uuid \<Rightarrow> 'z job_db_scheme \<Rightarrow> nat + job_read" where
  "get_job_route env reg token job_id db =
     get_route reg (auth_view db) ''Job'' token read_job (\<lambda>f. get_job env f job_id db)"

definition update_job_route ::
    "'y svc_env_scheme \<Rightarrow> registry \<Rightarrow> auth_token option \<Rightarrow> uuid \<Rightarrow> job_update \<Rightarrow> 'z job_db_scheme \<Rightarrow>
     (nat + job_read) \<times> 'z job_db_scheme" where
  "update_job_route env reg token job_id payload db =
     write_route reg (auth_view db) ''Job'' UPDATE token valid_job_update read_job
       (\<lambda>f body. http_errors on_not_found (update_job env f job_id body db)) payload db"

definition delete_job_route ::
    "'y svc_env_scheme \<Rightarrow> registry \<Rightarrow> auth_token option \<Rightarrow> uuid \<Rightarrow> 'z job_db_scheme \<Rightarrow> (nat + unit) \<times> 'z job_db_scheme" where
  "delete_job_route env reg token job_id db =
     delete_route reg (auth_view db) ''Job'' token (\<lambda>f. delete_job env f job_id db) db"

end
