(* ===== verification/JobRouteLaws.thy ===== *)
theory JobRouteLaws
  imports JobRouter RoutesLaws JobLaws
begin

text \<open>
  The routes of jobs over the laws of the shared handlers: what a client can create, read, change and
  remove, and the one update the schema accepts and the table refuses.
\<close>

lemma readable_jobs:
  "local_policies reg ''Job'' db \<Longrightarrow> readable job_attrs reg (auth_view db) ''Job'' D"
  by (rule local_policies_read [where key = j_id]) (simp_all add: id_or_null_def job_attrs_def)

abbreviation job_allowed where
  "job_allowed reg db a token \<equiv> row_allowed job_attrs reg (auth_view db) ''Job'' a token"

text \<open>A job as a client may create it.\<close>

definition client_job :: "auth_token option \<Rightarrow> job \<Rightarrow> bool" where
  "client_job token j =
     (depends_user_id token = Some (j_creator_id j) \<and> j_status j \<in> set JOB_CLIENT_STATUSES \<and> j_runner_id j = None \<and>
      j_started_at j = None \<and> 1 \<le> j_max_seconds j \<and> j_max_seconds j \<le> 86400 \<and>
      (\<forall>d. j_detail j = Some d \<longrightarrow> length d \<le> 65536))"

lemma create_job_Inr:
  assumes "create_job env c i f p db = Inr (j, db')"
  shows "matches f (plain_item (unsaved (job_attrs j))) = Inr True \<and> j = new_job env i c p \<and>
    job_rows db' = job_rows db @ [j] \<and> td_users db' = td_users db"
  using assms
  by (auto simp: create_job_def insert_job_def insert_row_def Let_def bindR_Inr_iff split: if_splits sum.split_asm option.split_asm)

lemma valid_job_create_shape:
  "valid_job_create p = Inr q \<Longrightarrow> q = p \<and> 1 \<le> jc_max_seconds p \<and> jc_max_seconds p \<le> 86400 \<and>
     (\<forall>d. jc_detail p = Some d \<longrightarrow> length d \<le> 65536)"
  by (auto simp: valid_job_create_def on_opt_def max_chars_def in_range_def bindR_Inr_iff split: option.splits if_splits)

lemma create_job_route_sound:
  assumes "create_job_route env reg token payload db = (res, db')" "db' \<noteq> db \<or> (\<exists>v. res = Inr v)"
  shows "\<exists>j. res = read_job j \<and> client_job token j \<and> row_allowed (\<lambda>r. unsaved (job_attrs r)) reg (auth_view db) ''Job'' CREATE token j \<and>
    job_rows db' = job_rows db @ [j]"
proof -
  have "\<exists>body j. valid_job_create payload = Inr body \<and> res = read_job j \<and>
      row_allowed (\<lambda>r. unsaved (job_attrs r)) reg (auth_view db) ''Job'' CREATE token j \<and>
      (\<exists>c. depends_user_id token = Some c \<and> j = new_job env 0 c body \<and> job_rows db' = job_rows db @ [j])"
  proof (rule create_route_sound [OF _ assms(1) [unfolded create_job_route_def] assms(2)])
    fix f body x db'
    assume "require_user 401 token (\<lambda>user_id. http_errors on_job_create (create_job env user_id 0 f body db)) = Inr (x, db')"
    then obtain c where c: "depends_user_id token = Some c" "create_job env c 0 f body db = Inr (x, db')"
      by (auto simp: require_user_def split: option.splits)
    from create_job_Inr [OF c(2)] c(1)
    show "matches f (plain_item (unsaved (job_attrs x))) = Inr True \<and>
        (\<exists>c. depends_user_id token = Some c \<and> x = new_job env 0 c body \<and> job_rows db' = job_rows db @ [x])" by blast
  qed
  then obtain body j c where j: "valid_job_create payload = Inr body" "res = read_job j"
    "row_allowed (\<lambda>r. unsaved (job_attrs r)) reg (auth_view db) ''Job'' CREATE token j"
    "depends_user_id token = Some c" "j = new_job env 0 c body" "job_rows db' = job_rows db @ [j]" by blast
  have "client_job token j"
    using valid_job_create_shape [OF j(1)] j(4) unfolding client_job_def j(5) new_job_def
    by (cases "jc_status body") (auto simp: JOB_CLIENT_STATUSES_def)
  then show ?thesis using j by blast
qed

text \<open>An update with a null status, or a null time limit, of a job the client may update.\<close>

definition nulls :: "job_update \<Rightarrow> bool" where
  "nulls p = (jup_status p = Some None \<or> jup_max_seconds p = Some None)"

lemma null_update_500:
  assumes "distinct (map j_id (job_rows db))" "sql_engine (se_ev env)" "local_policies reg ''Job'' db"
    and "j \<in> set (job_rows db)" "job_allowed reg db UPDATE token j"
    and "nulls payload" "valid_job_update payload = Inr payload"
  shows "update_job_route env reg token (j_id j) payload db = (Inl 500, db)"
proof -
  obtain f where f: "resolved reg (auth_view db) ''Job'' UPDATE token = Some f"
    using denied_row [of reg "auth_view db" "''Job''" UPDATE token job_attrs j] assms(5) by blast
  have "in_scope (se_ev env) (sql_tables db) f (job_attrs j)"
    using granted_where [OF assms(2) readable_jobs [OF assms(3)] f] assms(5) unfolding in_scope_def by metis
  then have "get_job env f (j_id j) db = Inr j"
    using assms(4) by (simp add: get_job_def job_table.get_Inr_iff [OF assms(1)])
  then have "update_job env f (j_id j) payload db = Inl (IntegrityErr ''not null'')"
    using assms(6) by (simp add: update_job_def nulls_def)
  then show ?thesis
    by (simp add: update_job_route_def write_route_granted [OF f] assms(7) http_errors_def commit_read_def)
qed

text \<open>A create answers a job exactly when the body is valid, the rule allows the job as it will be stored, and the table takes it.\<close>

abbreviation job_draft_allowed where
  "job_draft_allowed reg db token \<equiv> row_allowed (\<lambda>r. unsaved (job_attrs r)) reg (auth_view db) ''Job'' CREATE token"

lemma valid_job_create_iff:
  "valid_job_create p = Inr q \<longleftrightarrow> q = p \<and> 1 \<le> jc_max_seconds p \<and> jc_max_seconds p \<le> 86400 \<and>
     (\<forall>d. jc_detail p = Some d \<longrightarrow> length d \<le> 65536)"
  by (cases "jc_detail p")
    (auto simp: valid_job_create_def on_opt_def max_chars_def in_range_def bindR_Inr_iff split: if_splits)

lemma insert_job_same: "insert_job j db = Inr (x, db') \<Longrightarrow> x = j"
  by (auto simp: insert_job_def split: if_splits sum.splits)

lemma create_job_route_cases:
  assumes "depends_user_id token = Some c"
  shows "create_job_route env reg token payload db =
    (if resolved reg (auth_view db) ''Job'' CREATE token = None then (Inl 403, db)
     else case valid_job_create payload of Inl s \<Rightarrow> (Inl s, db)
     | Inr body \<Rightarrow>
         let j = new_job env 0 c body in
         if \<not> job_draft_allowed reg db token j then (Inl 403, db)
         else case insert_job j db of Inl e \<Rightarrow> (Inl (case on_job_create e of None \<Rightarrow> 500 | Some s \<Rightarrow> s), db)
         | Inr (x, db') \<Rightarrow> (read_job x, db'))"
proof (cases "resolved reg (auth_view db) ''Job'' CREATE token")
  case None
  then show ?thesis by (simp add: create_job_route_def write_route_def guard_simps commit_read_def)
next
  case (Some f)
  note granted = granted_matches [OF Some, of "unsaved (job_attrs j)" for j, folded row_allowed_def]
  have scope: "check_scope f (job_attrs j) = (if job_draft_allowed reg db token j then Inr () else Inl PermissionScopeError)" for j
    using granted_matches [OF Some, of "unsaved (job_attrs j)"] by (simp add: check_scope_def row_allowed_def)
  show ?thesis
    by (simp add: create_job_route_def write_route_granted [OF Some] Some require_user_def assms create_job_def Let_def scope
        http_errors_def commit_read_def split: sum.split option.split)
qed

lemma create_job_route_iff:
  "create_job_route env reg token payload db = (Inr v, db') \<longleftrightarrow>
    (\<exists>c j. depends_user_id token = Some c \<and> j = new_job env 0 c payload \<and> client_job token j \<and> job_draft_allowed reg db token j \<and>
       insert_job j db = Inr (j, db') \<and> read_job j = Inr v)"
proof (cases "depends_user_id token")
  case None
  then show ?thesis
    using create_job_route_sound [of env reg token payload db "Inr v" db'] by (auto simp: client_job_def)
next
  case (Some c)
  have client: "client_job token (new_job env 0 c payload) \<longleftrightarrow> valid_job_create payload = Inr payload"
    by (cases "jc_status payload") (auto simp: valid_job_create_iff client_job_def new_job_def Some JOB_CLIENT_STATUSES_def)
  note route = create_job_route_cases [OF Some, of env reg payload db]
  show ?thesis
  proof (cases "valid_job_create payload")
    case (Inl e)
    then have "\<not> client_job token (new_job env 0 c payload)" using client by simp
    moreover have "fst (create_job_route env reg token payload db) \<noteq> Inr v" using Inl by (simp add: route)
    ultimately show ?thesis using Some by auto
  next
    case (Inr body)
    then have body: "body = payload" using valid_job_create_iff by blast
    let ?j = "new_job env 0 c payload"
    have ok: "client_job token ?j" using client Inr body by simp
    show ?thesis
    proof (cases "job_draft_allowed reg db token ?j")
      case False
      then show ?thesis using Some Inr body by (simp add: route Let_def)
    next
      case True
      then have granted: "resolved reg (auth_view db) ''Job'' CREATE token \<noteq> None" using denied_row by metis
      have "create_job_route env reg token payload db =
          (case insert_job ?j db of Inl e \<Rightarrow> (Inl (case on_job_create e of None \<Rightarrow> 500 | Some s \<Rightarrow> s), db)
           | Inr (x, db') \<Rightarrow> (read_job x, db'))"
        unfolding route if_not_P [OF granted] Inr sum.case using True by (simp add: body Let_def)
      then show ?thesis
        using Some ok True insert_job_same [of ?j db] by (cases "insert_job ?j db") auto
    qed
  qed
qed

text \<open>An update is the update of the service without a filter, on the jobs the rule allows it on.\<close>

lemma update_job_route_iff:
  assumes "distinct (map j_id (job_rows db))" "sql_engine (se_ev env)" "local_policies reg ''Job'' db"
  shows "update_job_route env reg token k payload db = (Inr v, db') \<longleftrightarrow>
    (\<exists>j \<in> set (job_rows db). j_id j = k \<and> job_allowed reg db UPDATE token j \<and>
       (\<exists>body x. valid_job_update payload = Inr body \<and> update_job env AllSearchFilter k body db = Inr (x, db') \<and> read_job x = Inr v))"
proof (cases "resolved reg (auth_view db) ''Job'' UPDATE token")
  case None
  then show ?thesis by (simp add: update_job_route_def write_route_def guard_simps commit_read_def denied_row)
next
  case (Some f)
  obtain c where c: "filter_sql f = Inr c"
      "\<And>j. where_holds (se_ev env) (sql_tables db) c (job_attrs j) \<longleftrightarrow> job_allowed reg db UPDATE token j"
    by (rule granted_where [OF assms(2) readable_jobs [OF assms(3)] Some]) blast
  have scope: "in_scope (se_ev env) (sql_tables db) f (job_attrs j) \<longleftrightarrow> job_allowed reg db UPDATE token j" for j
    by (simp add: in_scope_def c)
  have all: "in_scope (se_ev env) (sql_tables db) AllSearchFilter (job_attrs j)" for j
    by (simp add: in_scope_def filter_sql_def where_holds_def)
  have found: "get_job env AllSearchFilter k db = Inr j \<longleftrightarrow> j \<in> set (job_rows db) \<and> j_id j = k" for j
    by (auto simp: get_job_def job_table.get_Inr_iff [OF assms(1)] all)
  have get: "get_job env f k db = Inr j \<longleftrightarrow> get_job env AllSearchFilter k db = Inr j \<and> job_allowed reg db UPDATE token j" for j
    unfolding found by (auto simp: get_job_def job_table.get_Inr_iff [OF assms(1)] scope)
  have upd: "update_job env f k body db = Inr r \<longleftrightarrow>
      (\<exists>j \<in> set (job_rows db). j_id j = k \<and> job_allowed reg db UPDATE token j \<and> update_job env AllSearchFilter k body db = Inr r)"
    (is "?l \<longleftrightarrow> ?r") for body r
  proof
    assume ?l
    then obtain j where j: "get_job env f k db = Inr j"
      unfolding update_job_def bindR_Inr_iff by blast
    then have all: "get_job env AllSearchFilter k db = Inr j" using get by blast
    have "update_job env AllSearchFilter k body db = Inr r" using \<open>?l\<close> unfolding update_job_def j all .
    then show ?r using j all get found by blast
  next
    assume ?r
    then obtain j where j: "j \<in> set (job_rows db)" "j_id j = k" "job_allowed reg db UPDATE token j"
      "update_job env AllSearchFilter k body db = Inr r" by blast
    then have all: "get_job env AllSearchFilter k db = Inr j" "get_job env f k db = Inr j" using get found by blast+
    show ?l using j(4) unfolding update_job_def all .
  qed
  have "update_job_route env reg token k payload db = (Inr v, db') \<longleftrightarrow>
      (\<exists>body x. valid_job_update payload = Inr body \<and> update_job env f k body db = Inr (x, db') \<and> read_job x = Inr v)"
  proof (cases "valid_job_update payload")
    case (Inr body)
    then show ?thesis
      by (cases "update_job env f k body db") (auto simp: update_job_route_def write_route_granted [OF Some] commit_read_def http_errors_def)
  qed (simp add: update_job_route_def write_route_granted [OF Some] commit_read_def)
  then show ?thesis unfolding upd by blast
qed

section \<open>Properties\<close>

text \<open>C33. The job routes do exactly what the access rule allows. A read answers a job if and only if the principal may read it. A create
  succeeds if and only if there is a principal, the body asks for a client status, a time limit between a second and a day and a detail of bounded length, the rule
  allows the job that would be stored, which is the principal's and has no runner, and the table takes it; it adds this one job, and
  without the rule's consent it is a 403 that changes nothing. An update succeeds if and only if the principal may update the job and the body is valid, and does what the
  service does without a filter; a delete if and only if the principal may delete the job, and removes this one job. A null status or time limit
  passes the schema of the update and is refused by the table: the request is a 500 and changes nothing.\<close>

theorem job_routes_checked:
  assumes "distinct (map j_id (job_rows db))" "sql_engine (se_ev env)" "local_policies reg ''Job'' db"
  shows "(\<forall>v. get_job_route env reg token k db = Inr v \<longleftrightarrow>
      (\<exists>j \<in> set (job_rows db). j_id j = k \<and> job_allowed reg db READ token j \<and> read_job j = Inr v)) \<and>
    (\<forall>v db'. create_job_route env reg token payload db = (Inr v, db') \<longleftrightarrow>
      (\<exists>c j. depends_user_id token = Some c \<and> j = new_job env 0 c payload \<and> client_job token j \<and> job_draft_allowed reg db token j \<and>
         insert_job j db = Inr (j, db') \<and> read_job j = Inr v)) \<and>
    (\<forall>v db'. create_job_route env reg token payload db = (Inr v, db') \<longrightarrow>
      (\<exists>j. read_job j = Inr v \<and> job_rows db' = job_rows db @ [j])) \<and>
    (\<forall>c. depends_user_id token = Some c \<and> client_job token (new_job env 0 c payload) \<and>
         \<not> job_draft_allowed reg db token (new_job env 0 c payload) \<longrightarrow>
      create_job_route env reg token payload db = (Inl 403, db)) \<and>
    (\<forall>v db'. update_job_route env reg token k update db = (Inr v, db') \<longleftrightarrow>
      (\<exists>j \<in> set (job_rows db). j_id j = k \<and> job_allowed reg db UPDATE token j \<and>
         (\<exists>body x. valid_job_update update = Inr body \<and> update_job env AllSearchFilter k body db = Inr (x, db') \<and> read_job x = Inr v))) \<and>
    (\<forall>db'. delete_job_route env reg token k db = (Inr (), db') \<longleftrightarrow>
      (\<exists>j \<in> set (job_rows db). j_id j = k \<and> job_allowed reg db DELETE token j \<and>
         db' = set_jobs (filter (\<lambda>x. \<not> (j_id x = j_id j \<and> j_created_at x = j_created_at j)) (job_rows db)) db)) \<and>
    (\<forall>j \<in> set (job_rows db). job_allowed reg db UPDATE token j \<longrightarrow> nulls update \<longrightarrow> valid_job_update update = Inr update \<longrightarrow>
      update_job_route env reg token (j_id j) update db = (Inl 500, db))"
proof (intro conjI allI impI ballI)
  fix v
  show "get_job_route env reg token k db = Inr v \<longleftrightarrow>
      (\<exists>j \<in> set (job_rows db). j_id j = k \<and> job_allowed reg db READ token j \<and> read_job j = Inr v)"
    using job_table.get_route_exact [OF assms(1,2) readable_jobs [OF assms(3)], of token read_job "sql_tables db" k]
    unfolding get_job_route_def get_job_def by blast
  fix db'
  show "create_job_route env reg token payload db = (Inr v, db') \<longleftrightarrow>
      (\<exists>c j. depends_user_id token = Some c \<and> j = new_job env 0 c payload \<and> client_job token j \<and> job_draft_allowed reg db token j \<and>
         insert_job j db = Inr (j, db') \<and> read_job j = Inr v)"
    by (rule create_job_route_iff)
  show "\<exists>j. read_job j = Inr v \<and> job_rows db' = job_rows db @ [j]"
    if "create_job_route env reg token payload db = (Inr v, db')"
    using create_job_route_sound [OF that] by metis
  show "update_job_route env reg token k update db = (Inr v, db') \<longleftrightarrow>
      (\<exists>j \<in> set (job_rows db). j_id j = k \<and> job_allowed reg db UPDATE token j \<and>
         (\<exists>body x. valid_job_update update = Inr body \<and> update_job env AllSearchFilter k body db = Inr (x, db') \<and> read_job x = Inr v))"
    by (rule update_job_route_iff [OF assms])
  have "delete_job env f k db = bindR (scoped_get (se_ev env) (sql_tables db) f job_attrs j_id (job_rows db) k)
      (\<lambda>j. Inr (set_jobs (filter (\<lambda>x. \<not> (j_id x = j_id j \<and> j_created_at x = j_created_at j)) (job_rows db)) db))" for f
    by (simp add: delete_job_def get_job_def)
  note delete = job_table.delete_route_exact [OF assms(1,2) readable_jobs [OF assms(3)], OF this, of token db, folded delete_job_route_def]
  then show "delete_job_route env reg token k db = (Inr (), db') \<longleftrightarrow>
      (\<exists>j \<in> set (job_rows db). j_id j = k \<and> job_allowed reg db DELETE token j \<and>
         db' = set_jobs (filter (\<lambda>x. \<not> (j_id x = j_id j \<and> j_created_at x = j_created_at j)) (job_rows db)) db)"
    by auto
next
  fix c
  assume a: "depends_user_id token = Some c \<and> client_job token (new_job env 0 c payload) \<and>
    \<not> job_draft_allowed reg db token (new_job env 0 c payload)"
  then have "valid_job_create payload = Inr payload"
    by (auto simp: valid_job_create_iff client_job_def new_job_def)
  then show "create_job_route env reg token payload db = (Inl 403, db)"
    using a by (simp add: create_job_route_cases)
next
  fix j assume "j \<in> set (job_rows db)" "job_allowed reg db UPDATE token j" "nulls update" "valid_job_update update = Inr update"
  then show "update_job_route env reg token (j_id j) update db = (Inl 500, db)"
    by (rule null_update_500 [OF assms])
qed

definition blank_update :: job_update where
  "blank_update = \<lparr>jup_details = None, jup_status = Some None, jup_detail = None, jup_max_seconds = None\<rparr>"

theorem job_routes_checked_witness:
  "update_job_route witness_svc_env registrations (Some (witness_token None)) 2 blank_update (witness_jobs_db\<lparr>sv_roles := sv_roles keyed_db,
     sv_user_roles := sv_user_roles keyed_db\<rparr>) =
   (Inl 500, witness_jobs_db\<lparr>sv_roles := sv_roles keyed_db, sv_user_roles := sv_user_roles keyed_db\<rparr>)"
proof -
  let ?db = "witness_jobs_db\<lparr>sv_roles := sv_roles keyed_db, sv_user_roles := sv_user_roles keyed_db\<rparr>"
  have rows: "job_rows ?db = [witness_job 2, witness_job 1]" using witness_job_rows by simp
  have d: "distinct (map j_id (job_rows ?db))" unfolding rows by (simp add: witness_job_def)
  have e: "sql_engine (se_ev witness_svc_env)" using ref.sql_engine_axioms by (simp add: witness_svc_env_def)
  have l: "local_policies registrations ''Job'' ?db" by (simp add: local_policies_def keyed_db_def)
  have a: "job_allowed registrations ?db UPDATE (Some (witness_token None)) (witness_job 2)"
    by (simp add: row_allowed_def allowed_def user_grants_def key_grants_def assigned_def auth_view_def keyed_db_def
        witness_token_def registrations_def)
  have "witness_job 2 \<in> set (job_rows ?db)" "nulls blank_update" "valid_job_update blank_update = Inr blank_update"
    by (simp_all add: rows nulls_def valid_job_update_def on_opt_def blank_update_def)
  with job_routes_checked [OF d e l, where token = "Some (witness_token None)" and update = blank_update] a
  have "update_job_route witness_svc_env registrations (Some (witness_token None)) (j_id (witness_job 2)) blank_update ?db = (Inl 500, ?db)" by blast
  then show ?thesis by (simp add: witness_job_def)
qed

end
