(* ===== verification/FeatureFlagService.thy ===== *)
theory FeatureFlagService
  imports RoutesLaws
begin

text \<open>
  \<open>feature_flag/feature_flag_service.py\<close> over the rows of \<open>feature_flag/feature_flag_models.py\<close>: flags under ids the
  client chooses, their assignments to roles and to users, and the flags that are on for a principal. Flags are the one
  resource with a textual key.
\<close>

section \<open>Rows\<close>

record feature_flag =
  ff_id :: string
  ff_enabled :: bool
  ff_description :: "string option"
  ff_created_at :: datetime
  ff_updated_at :: datetime

record feature_flag_role_assignment =
  fr_id :: uuid
  fr_flag_id :: string
  fr_role_id :: uuid
  fr_created_at :: datetime

record feature_flag_user_assignment =
  fu_id :: uuid
  fu_flag_id :: string
  fu_user_id :: uuid
  fu_created_at :: datetime

record flag_db = svc_db +
  fd_flags :: "feature_flag list"
  fd_roles :: "feature_flag_role_assignment list"
  fd_users :: "feature_flag_user_assignment list"

text \<open>
  PostgreSQL orders texts by the collation of the column: it compares their sort keys, which are different for
  different texts.
\<close>

record flag_env = svc_env +
  fe_sort_key :: "string \<Rightarrow> string"

definition flag_attrs :: "feature_flag \<Rightarrow> row" where
  "flag_attrs r a =
     (if a = ''id'' then VStr (ff_id r)
      else if a = ''enabled'' then VBool (ff_enabled r)
      else if a = ''description'' then opt_val VStr (ff_description r)
      else if a = ''created_at'' then time_val (ff_created_at r)
      else if a = ''updated_at'' then time_val (ff_updated_at r)
      else VNone)"

definition flag_role_attrs :: "feature_flag_role_assignment \<Rightarrow> row" where
  "flag_role_attrs l a =
     (if a = ''id'' then VUuid (fr_id l)
      else if a = ''feature_flag_id'' then VStr (fr_flag_id l)
      else if a = ''role_id'' then VUuid (fr_role_id l)
      else if a = ''created_at'' then time_val (fr_created_at l)
      else VNone)"

definition flag_user_attrs :: "feature_flag_user_assignment \<Rightarrow> row" where
  "flag_user_attrs l a =
     (if a = ''id'' then VUuid (fu_id l)
      else if a = ''feature_flag_id'' then VStr (fu_flag_id l)
      else if a = ''user_id'' then VUuid (fu_user_id l)
      else if a = ''created_at'' then time_val (fu_created_at l)
      else VNone)"

text \<open>A flag that has not been flushed has its id already.\<close>

definition flag_draft :: "feature_flag \<Rightarrow> row" where
  "flag_draft r a = (if a \<in> {''created_at'', ''updated_at''} then VNone else flag_attrs r a)"

lemma flag_ids [simp]:
  "flag_attrs r ''id'' = VStr (ff_id r)" "flag_role_attrs l ''id'' = VUuid (fr_id l)" "flag_user_attrs m ''id'' = VUuid (fu_id m)"
  by (simp_all add: flag_attrs_def flag_role_attrs_def flag_user_attrs_def)

section \<open>Flags\<close>

record feature_flag_create =
  fc_id :: string
  fc_enabled :: bool
  fc_description :: "string option"

record feature_flag_update =
  fup_enabled :: "bool option"
  fup_description :: "string option"

definition new_flag :: "'y flag_env_scheme \<Rightarrow> feature_flag_create \<Rightarrow> feature_flag" where
  "new_flag env payload =
     \<lparr>ff_id = fc_id payload, ff_enabled = fc_enabled payload, ff_description = fc_description payload,
      ff_created_at = se_now env, ff_updated_at = se_now env\<rparr>"

definition flag_violations :: "feature_flag list \<Rightarrow> feature_flag \<Rightarrow> violation list" where
  "flag_violations others r =
     (if ff_id r \<in> ff_id ` set others then [UniqueViolation ''feature_flags'' ''feature_flags_pkey'' (ff_id r)] else [])"

text \<open>\<open>_classify_flag_integrity_error\<close>.\<close>

definition classify_flag_error :: "string \<Rightarrow> string \<Rightarrow> svc_error" where
  "classify_flag_error flag_id message = ConflictError flag_id"

definition create_flag ::
    "'y flag_env_scheme \<Rightarrow> sfilter \<Rightarrow> feature_flag_create \<Rightarrow> 'z flag_db_scheme \<Rightarrow>
     svc_error + feature_flag \<times> 'z flag_db_scheme" where
  "create_flag env perm_filter payload db =
     (let flag = new_flag env payload
      in bindR (svc_py (matches perm_filter (plain_item (flag_draft flag)))) (\<lambda>ok.
         if \<not> ok then Inl PermissionScopeError
         else catch_integrity (classify_flag_error (fc_id payload))
           (flush_rows env (flag_violations (fd_flags db) flag) (flag, db\<lparr>fd_flags := fd_flags db @ [flag]\<rparr>))))"

definition get_flag :: "'y flag_env_scheme \<Rightarrow> sfilter \<Rightarrow> string \<Rightarrow> 'z flag_db_scheme \<Rightarrow> svc_error + feature_flag" where
  "get_flag env perm_filter flag_id db =
     scoped_get (se_ev env) (sql_tables db) perm_filter flag_attrs ff_id (fd_flags db) flag_id"

definition get_many_flags ::
    "'y flag_env_scheme \<Rightarrow> sfilter \<Rightarrow> string list \<Rightarrow> 'z flag_db_scheme \<Rightarrow> svc_error + feature_flag option list" where
  "get_many_flags env perm_filter flag_ids db =
     scoped_get_many (se_ev env) (sql_tables db) perm_filter flag_attrs ff_id (fd_flags db) flag_ids"

text \<open>Pages are in the order of the collation; the cursor is the id itself.\<close>

definition search_flags ::
    "'y flag_env_scheme \<Rightarrow> sfilter \<Rightarrow> 'z flag_db_scheme \<Rightarrow> string option \<Rightarrow> nat \<Rightarrow> sfilter option \<Rightarrow>
     svc_error + feature_flag list \<times> string option" where
  "search_flags env perm_filter db cursor limit search_filter =
     bindR (scoped_search (se_ev env) (sql_tables db) perm_filter flag_attrs (\<lambda>r. fe_sort_key env (ff_id r)) (fd_flags db)
              (map_option (fe_sort_key env) cursor) limit search_filter)
       (\<lambda>(flags, full). Inr (flags, map_option (\<lambda>_. ff_id (last flags)) full))"

definition count_flags ::
    "'y flag_env_scheme \<Rightarrow> sfilter \<Rightarrow> 'z flag_db_scheme \<Rightarrow> sfilter option \<Rightarrow> svc_error + nat" where
  "count_flags env perm_filter db search_filter =
     scoped_count (se_ev env) (sql_tables db) perm_filter flag_attrs (fd_flags db) search_filter"

definition set_flag :: "'z flag_db_scheme \<Rightarrow> feature_flag \<Rightarrow> 'z flag_db_scheme" where
  "set_flag db r = db\<lparr>fd_flags := map (\<lambda>x. if ff_id x = ff_id r then r else x) (fd_flags db)\<rparr>"

definition update_flag ::
    "'y flag_env_scheme \<Rightarrow> sfilter \<Rightarrow> string \<Rightarrow> feature_flag_update \<Rightarrow> 'z flag_db_scheme \<Rightarrow>
     svc_error + feature_flag \<times> 'z flag_db_scheme" where
  "update_flag env perm_filter flag_id payload db =
     bindR (get_flag env perm_filter flag_id db) (\<lambda>flag.
       let r = set_if (fup_description payload) (\<lambda>d x. x\<lparr>ff_description := Some d\<rparr>)
              (set_if (fup_enabled payload) (\<lambda>b x. x\<lparr>ff_enabled := b\<rparr>) flag)
       in if r = flag then Inr (flag, db)
          else let r' = r\<lparr>ff_updated_at := se_now env\<rparr> in Inr (r', set_flag db r'))"

text \<open>The foreign keys of the two link tables cascade.\<close>

definition cascade_flag :: "'z flag_db_scheme \<Rightarrow> string \<Rightarrow> 'z flag_db_scheme" where
  "cascade_flag db flag_id =
     db\<lparr>fd_flags := filter (\<lambda>r. ff_id r \<noteq> flag_id) (fd_flags db),
        fd_roles := filter (\<lambda>l. fr_flag_id l \<noteq> flag_id) (fd_roles db),
        fd_users := filter (\<lambda>l. fu_flag_id l \<noteq> flag_id) (fd_users db)\<rparr>"

text \<open>What the other foreign keys leave of the links when roles and users are deleted.\<close>

definition cascade_links :: "'z flag_db_scheme \<Rightarrow> 'z flag_db_scheme" where
  "cascade_links db =
     db\<lparr>fd_roles := filter (\<lambda>l. fr_role_id l \<in> r_id ` set (sv_roles db)) (fd_roles db),
        fd_users := filter (\<lambda>l. fu_user_id l \<in> u_id ` set (td_users db)) (fd_users db)\<rparr>"

definition delete_flag ::
    "'y flag_env_scheme \<Rightarrow> sfilter \<Rightarrow> string \<Rightarrow> 'z flag_db_scheme \<Rightarrow> svc_error + 'z flag_db_scheme" where
  "delete_flag env perm_filter flag_id db =
     bindR (get_flag env perm_filter flag_id db) (\<lambda>flag. Inr (cascade_flag db flag_id))"

definition apply_flag_batch ::
    "'y flag_env_scheme \<Rightarrow> (string, feature_flag_create, feature_flag_update) batch_op list \<Rightarrow> (action \<Rightarrow> sfilter option) \<Rightarrow>
     'z flag_db_scheme \<Rightarrow> svc_error + feature_flag option list \<times> 'z flag_db_scheme" where
  "apply_flag_batch env operations perm_filters db =
     batch_loop (\<lambda>_. create_flag env) (update_flag env) (delete_flag env) perm_filters 0 operations db"

text \<open>The flags that are on for a principal: three queries whose answers are collected in a set.\<close>

definition enabled_for_roles ::
    "'y flag_env_scheme \<Rightarrow> sfilter \<Rightarrow> uuid list \<Rightarrow> uuid option \<Rightarrow> 'z flag_db_scheme \<Rightarrow> svc_error + string list" where
  "enabled_for_roles env perm_filter role_ids user_id db =
     bindR (svc_py (filter_sql perm_filter)) (\<lambda>cond.
       let flag_ids = map ff_id (filter (\<lambda>r. ff_enabled r \<and> where_holds (se_ev env) (sql_tables db) cond (flag_attrs r)) (fd_flags db));
           by_role = (if role_ids = [] then []
              else map fr_flag_id (filter (\<lambda>l. fr_role_id l \<in> set role_ids) (fd_roles db)));
           by_user = (case user_id of None \<Rightarrow> []
              | Some u \<Rightarrow> map fu_flag_id (filter (\<lambda>l. fu_user_id l = u) (fd_users db)))
       in Inr (sort (remdups (flag_ids @ by_role @ by_user))))"

section \<open>Assignments\<close>

text \<open>The checks before a link is created; no filter means that the caller does not check.\<close>

definition orphan_if_missing :: "string \<Rightarrow> svc_error + 'r \<Rightarrow> svc_error + unit" where
  "orphan_if_missing text r =
     (case r of Inl NotFoundError \<Rightarrow> Inl (OrphanError text) | Inl e \<Rightarrow> Inl e | Inr _ \<Rightarrow> Inr ())"

definition ensure_feature_flag_readable ::
    "'y flag_env_scheme \<Rightarrow> string \<Rightarrow> sfilter option \<Rightarrow> 'z flag_db_scheme \<Rightarrow> svc_error + unit" where
  "ensure_feature_flag_readable env flag_id read_filter db =
     (case read_filter of None \<Rightarrow> Inr ()
      | Some f \<Rightarrow> orphan_if_missing (''feature flag '' @ flag_id @ '' does not exist'') (get_flag env f flag_id db))"

definition ensure_role_readable ::
    "'y flag_env_scheme \<Rightarrow> uuid \<Rightarrow> sfilter option \<Rightarrow> 'z flag_db_scheme \<Rightarrow> svc_error + unit" where
  "ensure_role_readable env role_id read_filter db =
     (case read_filter of None \<Rightarrow> Inr ()
      | Some f \<Rightarrow> orphan_if_missing (''role '' @ uuid_str role_id @ '' does not exist'') (get_role env f role_id db))"

definition ensure_user_readable ::
    "'y flag_env_scheme \<Rightarrow> uuid \<Rightarrow> sfilter option \<Rightarrow> 'z flag_db_scheme \<Rightarrow> svc_error + unit" where
  "ensure_user_readable env user_id read_filter db =
     (case read_filter of None \<Rightarrow> Inr ()
      | Some f \<Rightarrow> orphan_if_missing (''user '' @ uuid_str user_id @ '' does not exist'') (get_user env f user_id db))"

lemma orphan_if_missing_Inr [simp]: "orphan_if_missing t r = Inr x \<longleftrightarrow> (\<exists>y. r = Inr y)"
  by (auto simp: orphan_if_missing_def split: sum.splits svc_error.splits)

text \<open>A link outside the create scope is reported as a missing flag.\<close>

definition check_link_scope :: "sfilter \<Rightarrow> row \<Rightarrow> string \<Rightarrow> svc_error + unit" where
  "check_link_scope perm_filter r flag_id =
     bindR (svc_py (matches perm_filter (plain_item (unsaved r)))) (\<lambda>ok.
       if ok then Inr () else Inl (OrphanError flag_id))"

lemma check_link_scope_Inr [simp]:
  "check_link_scope f r flag_id = Inr x \<longleftrightarrow> matches f (plain_item (unsaved r)) = Inr True"
  by (auto simp: check_link_scope_def bindR_Inr_iff svc_py_Inr_iff)

subsection \<open>To roles\<close>

definition new_flag_role :: "'y flag_env_scheme \<Rightarrow> nat \<Rightarrow> string \<Rightarrow> uuid \<Rightarrow> feature_flag_role_assignment" where
  "new_flag_role env i flag_id role_id =
     \<lparr>fr_id = se_uuid env i, fr_flag_id = flag_id, fr_role_id = role_id, fr_created_at = se_now env\<rparr>"

definition flag_role_violations :: "'z flag_db_scheme \<Rightarrow> feature_flag_role_assignment \<Rightarrow> violation list" where
  "flag_role_violations db l =
     (if fr_id l \<in> fr_id ` set (fd_roles db)
      then [UniqueViolation ''feature_flag_role_assignments'' ''feature_flag_role_assignments_pkey'' (uuid_str (fr_id l))] else []) @
     (if (fr_flag_id l, fr_role_id l) \<in> (\<lambda>x. (fr_flag_id x, fr_role_id x)) ` set (fd_roles db)
      then [UniqueViolation ''feature_flag_role_assignments'' ''uq_feature_flag_role_assignments_flag_id_role_id''
              (fr_flag_id l @ '', '' @ uuid_str (fr_role_id l))] else []) @
     (if fr_flag_id l \<notin> ff_id ` set (fd_flags db)
      then [ForeignKeyViolation ''feature_flag_role_assignments''
              ''fk_feature_flag_role_assignments_feature_flag_id_feature_flags'' (fr_flag_id l)] else []) @
     (if fr_role_id l \<notin> r_id ` set (sv_roles db)
      then [ForeignKeyViolation ''feature_flag_role_assignments'' ''fk_feature_flag_role_assignments_role_id_roles''
              (uuid_str (fr_role_id l))] else [])"

text \<open>\<open>_classify_override_integrity_error\<close>.\<close>

definition classify_flag_role_error :: "string \<Rightarrow> uuid \<Rightarrow> string \<Rightarrow> svc_error" where
  "classify_flag_role_error flag_id role_id message0 =
     (let message = lower message0 in
      if sublist ''uq_feature_flag_role_assignments_flag_id_role_id'' message \<or>
         sublist ''unique constraint'' message \<and> sublist ''feature_flag_role_assignments'' message
      then ConflictError (flag_id @ ''/'' @ uuid_str role_id)
      else if sublist ''foreign key'' message \<or> sublist ''fk_'' message
      then (if sublist ''role_id'' message \<and> \<not> sublist ''feature_flag_id'' message
            then OrphanError (''role '' @ uuid_str role_id @ '' does not exist'')
            else OrphanError (''feature flag '' @ flag_id @ '' does not exist''))
      else ConflictError (flag_id @ ''/'' @ uuid_str role_id))"

definition create_flag_role ::
    "'y flag_env_scheme \<Rightarrow> sfilter option \<Rightarrow> sfilter option \<Rightarrow> nat \<Rightarrow> sfilter \<Rightarrow> string \<times> uuid \<Rightarrow> 'z flag_db_scheme \<Rightarrow>
     svc_error + feature_flag_role_assignment \<times> 'z flag_db_scheme" where
  "create_flag_role env feature_flag_read_filter role_read_filter i perm_filter ids db =
     (case ids of (flag_id, role_id) \<Rightarrow>
        bindR (ensure_feature_flag_readable env flag_id feature_flag_read_filter db) (\<lambda>_.
        bindR (ensure_role_readable env role_id role_read_filter db) (\<lambda>_.
        let l = new_flag_role env i flag_id role_id
        in bindR (check_link_scope perm_filter (flag_role_attrs l) flag_id) (\<lambda>_.
           catch_integrity (classify_flag_role_error flag_id role_id)
             (flush_rows env (flag_role_violations db l) (l, db\<lparr>fd_roles := fd_roles db @ [l]\<rparr>))))))"

definition get_flag_role ::
    "'y flag_env_scheme \<Rightarrow> sfilter \<Rightarrow> uuid \<Rightarrow> 'z flag_db_scheme \<Rightarrow> svc_error + feature_flag_role_assignment" where
  "get_flag_role env perm_filter k db =
     scoped_get (se_ev env) (sql_tables db) perm_filter flag_role_attrs fr_id (fd_roles db) k"

definition get_many_flag_roles ::
    "'y flag_env_scheme \<Rightarrow> sfilter \<Rightarrow> uuid list \<Rightarrow> 'z flag_db_scheme \<Rightarrow> svc_error + feature_flag_role_assignment option list" where
  "get_many_flag_roles env perm_filter ids db =
     scoped_get_many (se_ev env) (sql_tables db) perm_filter flag_role_attrs fr_id (fd_roles db) ids"

definition search_flag_roles ::
    "'y flag_env_scheme \<Rightarrow> sfilter \<Rightarrow> 'z flag_db_scheme \<Rightarrow> uuid option \<Rightarrow> nat \<Rightarrow> sfilter option \<Rightarrow>
     svc_error + feature_flag_role_assignment list \<times> uuid option" where
  "search_flag_roles env perm_filter db cursor limit search_filter =
     scoped_search (se_ev env) (sql_tables db) perm_filter flag_role_attrs fr_id (fd_roles db) cursor limit search_filter"

definition count_flag_roles ::
    "'y flag_env_scheme \<Rightarrow> sfilter \<Rightarrow> 'z flag_db_scheme \<Rightarrow> sfilter option \<Rightarrow> svc_error + nat" where
  "count_flag_roles env perm_filter db search_filter =
     scoped_count (se_ev env) (sql_tables db) perm_filter flag_role_attrs (fd_roles db) search_filter"

definition delete_flag_role ::
    "'y flag_env_scheme \<Rightarrow> sfilter \<Rightarrow> uuid \<Rightarrow> 'z flag_db_scheme \<Rightarrow> svc_error + 'z flag_db_scheme" where
  "delete_flag_role env perm_filter k db =
     bindR (get_flag_role env perm_filter k db) (\<lambda>l.
       Inr (db\<lparr>fd_roles := filter (\<lambda>x. fr_id x \<noteq> k) (fd_roles db)\<rparr>))"

text \<open>In a batch a missing read grant denies the creation.\<close>

definition batch_create_flag_role ::
    "'y flag_env_scheme \<Rightarrow> sfilter option \<Rightarrow> sfilter option \<Rightarrow> nat \<Rightarrow> sfilter \<Rightarrow> string \<times> uuid \<Rightarrow> 'z flag_db_scheme \<Rightarrow>
     svc_error + feature_flag_role_assignment \<times> 'z flag_db_scheme" where
  "batch_create_flag_role env feature_flag_read_filter role_read_filter i perm_filter ids db =
     (if feature_flag_read_filter = None then Inl (BatchPermissionDeniedError ''read feature_flag'')
      else if role_read_filter = None then Inl (BatchPermissionDeniedError ''read role'')
      else create_flag_role env feature_flag_read_filter role_read_filter i perm_filter ids db)"

definition apply_flag_role_batch ::
    "'y flag_env_scheme \<Rightarrow> sfilter option \<Rightarrow> sfilter option \<Rightarrow> (uuid, string \<times> uuid, unit) batch_op list \<Rightarrow>
     (action \<Rightarrow> sfilter option) \<Rightarrow> 'z flag_db_scheme \<Rightarrow>
     svc_error + feature_flag_role_assignment option list \<times> 'z flag_db_scheme" where
  "apply_flag_role_batch env feature_flag_read_filter role_read_filter operations perm_filters db =
     batch_loop (batch_create_flag_role env feature_flag_read_filter role_read_filter) no_update (delete_flag_role env)
       perm_filters 0 operations db"

subsection \<open>To users\<close>

definition new_flag_user :: "'y flag_env_scheme \<Rightarrow> nat \<Rightarrow> string \<Rightarrow> uuid \<Rightarrow> feature_flag_user_assignment" where
  "new_flag_user env i flag_id user_id =
     \<lparr>fu_id = se_uuid env i, fu_flag_id = flag_id, fu_user_id = user_id, fu_created_at = se_now env\<rparr>"

definition flag_user_violations :: "'z flag_db_scheme \<Rightarrow> feature_flag_user_assignment \<Rightarrow> violation list" where
  "flag_user_violations db l =
     (if fu_id l \<in> fu_id ` set (fd_users db)
      then [UniqueViolation ''feature_flag_user_assignments'' ''feature_flag_user_assignments_pkey'' (uuid_str (fu_id l))] else []) @
     (if (fu_flag_id l, fu_user_id l) \<in> (\<lambda>x. (fu_flag_id x, fu_user_id x)) ` set (fd_users db)
      then [UniqueViolation ''feature_flag_user_assignments'' ''uq_feature_flag_user_assignments_flag_id_user_id''
              (fu_flag_id l @ '', '' @ uuid_str (fu_user_id l))] else []) @
     (if fu_flag_id l \<notin> ff_id ` set (fd_flags db)
      then [ForeignKeyViolation ''feature_flag_user_assignments''
              ''fk_feature_flag_user_assignments_feature_flag_id_feature_flags'' (fu_flag_id l)] else []) @
     (if fu_user_id l \<notin> u_id ` set (td_users db)
      then [ForeignKeyViolation ''feature_flag_user_assignments'' ''fk_feature_flag_user_assignments_user_id_users''
              (uuid_str (fu_user_id l))] else [])"

definition classify_flag_user_error :: "string \<Rightarrow> uuid \<Rightarrow> string \<Rightarrow> svc_error" where
  "classify_flag_user_error flag_id user_id message0 =
     (let message = lower message0 in
      if sublist ''uq_feature_flag_user_assignments_flag_id_user_id'' message \<or>
         sublist ''unique constraint'' message \<and> sublist ''feature_flag_user_assignments'' message
      then ConflictError (flag_id @ ''/'' @ uuid_str user_id)
      else if sublist ''foreign key'' message \<or> sublist ''fk_'' message
      then (if sublist ''user_id'' message \<and> \<not> sublist ''feature_flag_id'' message
            then OrphanError (''user '' @ uuid_str user_id @ '' does not exist'')
            else OrphanError (''feature flag '' @ flag_id @ '' does not exist''))
      else ConflictError (flag_id @ ''/'' @ uuid_str user_id))"

definition create_flag_user ::
    "'y flag_env_scheme \<Rightarrow> sfilter option \<Rightarrow> sfilter option \<Rightarrow> nat \<Rightarrow> sfilter \<Rightarrow> string \<times> uuid \<Rightarrow> 'z flag_db_scheme \<Rightarrow>
     svc_error + feature_flag_user_assignment \<times> 'z flag_db_scheme" where
  "create_flag_user env feature_flag_read_filter user_read_filter i perm_filter ids db =
     (case ids of (flag_id, user_id) \<Rightarrow>
        bindR (ensure_feature_flag_readable env flag_id feature_flag_read_filter db) (\<lambda>_.
        bindR (ensure_user_readable env user_id user_read_filter db) (\<lambda>_.
        let l = new_flag_user env i flag_id user_id
        in bindR (check_link_scope perm_filter (flag_user_attrs l) flag_id) (\<lambda>_.
           catch_integrity (classify_flag_user_error flag_id user_id)
             (flush_rows env (flag_user_violations db l) (l, db\<lparr>fd_users := fd_users db @ [l]\<rparr>))))))"

definition get_flag_user ::
    "'y flag_env_scheme \<Rightarrow> sfilter \<Rightarrow> uuid \<Rightarrow> 'z flag_db_scheme \<Rightarrow> svc_error + feature_flag_user_assignment" where
  "get_flag_user env perm_filter k db =
     scoped_get (se_ev env) (sql_tables db) perm_filter flag_user_attrs fu_id (fd_users db) k"

definition get_many_flag_users ::
    "'y flag_env_scheme \<Rightarrow> sfilter \<Rightarrow> uuid list \<Rightarrow> 'z flag_db_scheme \<Rightarrow> svc_error + feature_flag_user_assignment option list" where
  "get_many_flag_users env perm_filter ids db =
     scoped_get_many (se_ev env) (sql_tables db) perm_filter flag_user_attrs fu_id (fd_users db) ids"

definition search_flag_users ::
    "'y flag_env_scheme \<Rightarrow> sfilter \<Rightarrow> 'z flag_db_scheme \<Rightarrow> uuid option \<Rightarrow> nat \<Rightarrow> sfilter option \<Rightarrow>
     svc_error + feature_flag_user_assignment list \<times> uuid option" where
  "search_flag_users env perm_filter db cursor limit search_filter =
     scoped_search (se_ev env) (sql_tables db) perm_filter flag_user_attrs fu_id (fd_users db) cursor limit search_filter"

definition count_flag_users ::
    "'y flag_env_scheme \<Rightarrow> sfilter \<Rightarrow> 'z flag_db_scheme \<Rightarrow> sfilter option \<Rightarrow> svc_error + nat" where
  "count_flag_users env perm_filter db search_filter =
     scoped_count (se_ev env) (sql_tables db) perm_filter flag_user_attrs (fd_users db) search_filter"

definition delete_flag_user ::
    "'y flag_env_scheme \<Rightarrow> sfilter \<Rightarrow> uuid \<Rightarrow> 'z flag_db_scheme \<Rightarrow> svc_error + 'z flag_db_scheme" where
  "delete_flag_user env perm_filter k db =
     bindR (get_flag_user env perm_filter k db) (\<lambda>l.
       Inr (db\<lparr>fd_users := filter (\<lambda>x. fu_id x \<noteq> k) (fd_users db)\<rparr>))"

definition batch_create_flag_user ::
    "'y flag_env_scheme \<Rightarrow> sfilter option \<Rightarrow> sfilter option \<Rightarrow> nat \<Rightarrow> sfilter \<Rightarrow> string \<times> uuid \<Rightarrow> 'z flag_db_scheme \<Rightarrow>
     svc_error + feature_flag_user_assignment \<times> 'z flag_db_scheme" where
  "batch_create_flag_user env feature_flag_read_filter user_read_filter i perm_filter ids db =
     (if feature_flag_read_filter = None then Inl (BatchPermissionDeniedError ''read feature_flag'')
      else if user_read_filter = None then Inl (BatchPermissionDeniedError ''read user'')
      else create_flag_user env feature_flag_read_filter user_read_filter i perm_filter ids db)"

definition apply_flag_user_batch ::
    "'y flag_env_scheme \<Rightarrow> sfilter option \<Rightarrow> sfilter option \<Rightarrow> (uuid, string \<times> uuid, unit) batch_op list \<Rightarrow>
     (action \<Rightarrow> sfilter option) \<Rightarrow> 'z flag_db_scheme \<Rightarrow>
     svc_error + feature_flag_user_assignment option list \<times> 'z flag_db_scheme" where
  "apply_flag_user_batch env feature_flag_read_filter user_read_filter operations perm_filters db =
     batch_loop (batch_create_flag_user env feature_flag_read_filter user_read_filter) no_update (delete_flag_user env)
       perm_filters 0 operations db"

section \<open>Laws\<close>

definition flag_integrity :: "'z flag_db_scheme \<Rightarrow> bool" where
  "flag_integrity db =
     (distinct (map ff_id (fd_flags db)) \<and>
      distinct (map fr_id (fd_roles db)) \<and> distinct (map (\<lambda>l. (fr_flag_id l, fr_role_id l)) (fd_roles db)) \<and>
      distinct (map fu_id (fd_users db)) \<and> distinct (map (\<lambda>l. (fu_flag_id l, fu_user_id l)) (fd_users db)) \<and>
      (\<forall>l \<in> set (fd_roles db). fr_flag_id l \<in> ff_id ` set (fd_flags db) \<and> fr_role_id l \<in> r_id ` set (sv_roles db)) \<and>
      (\<forall>l \<in> set (fd_users db). fu_flag_id l \<in> ff_id ` set (fd_flags db) \<and> fu_user_id l \<in> u_id ` set (td_users db)))"

interpretation flag_table: governed_table flag_attrs ff_id VStr
  by unfold_locales simp

interpretation flag_role_table: governed_table flag_role_attrs fr_id VUuid
  by unfold_locales simp

interpretation flag_user_table: governed_table flag_user_attrs fu_id VUuid
  by unfold_locales simp

lemma flag_violations_Nil: "flag_violations others r = [] \<longleftrightarrow> ff_id r \<notin> ff_id ` set others"
  by (simp add: flag_violations_def)

lemma flag_role_violations_Nil:
  "flag_role_violations db l = [] \<longleftrightarrow> fr_id l \<notin> fr_id ` set (fd_roles db) \<and>
     (fr_flag_id l, fr_role_id l) \<notin> (\<lambda>x. (fr_flag_id x, fr_role_id x)) ` set (fd_roles db) \<and>
     fr_flag_id l \<in> ff_id ` set (fd_flags db) \<and> fr_role_id l \<in> r_id ` set (sv_roles db)"
  by (simp add: flag_role_violations_def)

lemma flag_user_violations_Nil:
  "flag_user_violations db l = [] \<longleftrightarrow> fu_id l \<notin> fu_id ` set (fd_users db) \<and>
     (fu_flag_id l, fu_user_id l) \<notin> (\<lambda>x. (fu_flag_id x, fu_user_id x)) ` set (fd_users db) \<and>
     fu_flag_id l \<in> ff_id ` set (fd_flags db) \<and> fu_user_id l \<in> u_id ` set (td_users db)"
  by (simp add: flag_user_violations_def)

lemma create_flag_Inr:
  assumes "create_flag env f p db = Inr (r, db')"
  shows "db' = db\<lparr>fd_flags := fd_flags db @ [r]\<rparr> \<and> ff_id r \<notin> ff_id ` set (fd_flags db) \<and>
    matches f (plain_item (flag_draft r)) = Inr True \<and> r = new_flag env p"
  using assms
  by (auto simp: create_flag_def Let_def bindR_Inr_iff svc_py_Inr_iff flush_Inr_iff flag_violations_Nil split: if_splits)

lemma update_flag_Inr:
  assumes "distinct (map ff_id (fd_flags db))" "update_flag env f k p db = Inr (r, db')"
  shows "\<exists>r0 \<in> set (fd_flags db). ff_id r0 = k \<and> ff_id r = k \<and> in_scope (se_ev env) (sql_tables db) f (flag_attrs r0) \<and>
    db' = set_flag db r \<and> ff_enabled r = (case fup_enabled p of None \<Rightarrow> ff_enabled r0 | Some b \<Rightarrow> b)"
proof -
  obtain r0 where g: "get_flag env f k db = Inr r0"
    using assms(2) by (auto simp: update_flag_def elim!: bindR_InrE)
  then have r0: "r0 \<in> set (fd_flags db)" "ff_id r0 = k" "in_scope (se_ev env) (sql_tables db) f (flag_attrs r0)"
    by (simp_all add: get_flag_def flag_table.get_Inr_iff [OF assms(1)])
  have same: "set_flag db r0 = db" using replace_self [OF assms(1) r0(1)] by (simp add: set_flag_def)
  define r1 where "r1 = set_if (fup_description p) (\<lambda>d x. x\<lparr>ff_description := Some d\<rparr>)
    (set_if (fup_enabled p) (\<lambda>b x. x\<lparr>ff_enabled := b\<rparr>) r0)"
  have r1: "ff_id r1 = k" "ff_enabled r1 = (case fup_enabled p of None \<Rightarrow> ff_enabled r0 | Some b \<Rightarrow> b)"
    by (simp_all add: r1_def set_if_def r0(2) split: option.splits)
  have "r = r1 \<and> db' = db \<and> r1 = r0 \<or> r = r1\<lparr>ff_updated_at := se_now env\<rparr> \<and> db' = set_flag db r"
    using assms(2) by (auto simp: update_flag_def g Let_def simp flip: r1_def split: if_split_asm)
  then show ?thesis using same r0 r1 by (intro bexI [of _ r0]) auto
qed

lemma delete_flag_Inr:
  assumes "distinct (map ff_id (fd_flags db))" "delete_flag env f k db = Inr db'"
  shows "db' = cascade_flag db k \<and>
    (\<exists>r0 \<in> set (fd_flags db). ff_id r0 = k \<and> in_scope (se_ev env) (sql_tables db) f (flag_attrs r0))"
  using assms(2) by (auto simp: delete_flag_def get_flag_def flag_table.get_Inr_iff [OF assms(1)] elim!: bindR_InrE)

lemma create_flag_role_Inr:
  assumes "create_flag_role env rf rr i f ids db = Inr (l, db')"
  shows "db' = db\<lparr>fd_roles := fd_roles db @ [l]\<rparr> \<and> flag_role_violations db l = [] \<and>
    matches f (plain_item (unsaved (flag_role_attrs l))) = Inr True \<and> l = new_flag_role env i (fst ids) (snd ids) \<and>
    ensure_feature_flag_readable env (fst ids) rf db = Inr () \<and> ensure_role_readable env (snd ids) rr db = Inr ()"
  using assms by (auto simp: create_flag_role_def Let_def bindR_Inr_iff flush_Inr_iff split: prod.split_asm)

lemma create_flag_user_Inr:
  assumes "create_flag_user env rf ru i f ids db = Inr (l, db')"
  shows "db' = db\<lparr>fd_users := fd_users db @ [l]\<rparr> \<and> flag_user_violations db l = [] \<and>
    matches f (plain_item (unsaved (flag_user_attrs l))) = Inr True \<and> l = new_flag_user env i (fst ids) (snd ids) \<and>
    ensure_feature_flag_readable env (fst ids) rf db = Inr () \<and> ensure_user_readable env (snd ids) ru db = Inr ()"
  using assms by (auto simp: create_flag_user_def Let_def bindR_Inr_iff flush_Inr_iff split: prod.split_asm)

lemma delete_flag_role_Inr:
  assumes "distinct (map fr_id (fd_roles db))" "delete_flag_role env f k db = Inr db'"
  shows "db' = db\<lparr>fd_roles := filter (\<lambda>x. fr_id x \<noteq> k) (fd_roles db)\<rparr> \<and>
    (\<exists>l \<in> set (fd_roles db). fr_id l = k \<and> in_scope (se_ev env) (sql_tables db) f (flag_role_attrs l))"
  using assms(2) by (auto simp: delete_flag_role_def get_flag_role_def flag_role_table.get_Inr_iff [OF assms(1)] elim!: bindR_InrE)

lemma delete_flag_user_Inr:
  assumes "distinct (map fu_id (fd_users db))" "delete_flag_user env f k db = Inr db'"
  shows "db' = db\<lparr>fd_users := filter (\<lambda>x. fu_id x \<noteq> k) (fd_users db)\<rparr> \<and>
    (\<exists>l \<in> set (fd_users db). fu_id l = k \<and> in_scope (se_ev env) (sql_tables db) f (flag_user_attrs l))"
  using assms(2) by (auto simp: delete_flag_user_def get_flag_user_def flag_user_table.get_Inr_iff [OF assms(1)] elim!: bindR_InrE)

lemma flag_integrity_cascade: "flag_integrity db \<Longrightarrow> flag_integrity (cascade_flag db k)"
  by (auto simp: flag_integrity_def cascade_flag_def distinct_map_filter)

lemma flag_integrity_filter:
  "flag_integrity db \<Longrightarrow> flag_integrity (db\<lparr>fd_roles := filter P (fd_roles db)\<rparr>)"
  "flag_integrity db \<Longrightarrow> flag_integrity (db\<lparr>fd_users := filter Q (fd_users db)\<rparr>)"
  by (auto simp: flag_integrity_def distinct_map_filter)

lemma set_flag_ids: "map ff_id (fd_flags (set_flag db r)) = map ff_id (fd_flags db)"
  by (simp add: set_flag_def)

lemma flag_integrity_set: "flag_integrity db \<Longrightarrow> flag_integrity (set_flag db r)"
proof -
  assume i: "flag_integrity db"
  have "ff_id ` set (fd_flags (set_flag db r)) = ff_id ` set (fd_flags db)"
    using arg_cong [OF set_flag_ids, of set db r] by (simp only: set_map)
  moreover have "fd_roles (set_flag db r) = fd_roles db" "fd_users (set_flag db r) = fd_users db"
    "sv_roles (set_flag db r) = sv_roles db" "td_users (set_flag db r) = td_users db" by (simp_all add: set_flag_def)
  ultimately show ?thesis using i unfolding flag_integrity_def set_flag_ids by (simp only:) simp
qed

interpretation flag_service: governed_service flag_attrs ff_id VStr flag_draft fd_flags
    "\<lambda>db f r. in_scope (se_ev env) (sql_tables db) f (flag_attrs r)" flag_integrity
    "\<lambda>_. create_flag env" "update_flag env" "delete_flag env" for env
proof (unfold_locales, goal_cases)
  case (1 db)
  then show ?case by (simp add: flag_integrity_def)
next
  case (2 db i f p r db')
  then show ?case using create_flag_Inr [OF 2(2)] by (auto simp: flag_integrity_def)
next
  case (3 db f k u r db')
  then have "distinct (map ff_id (fd_flags db))" by (simp add: flag_integrity_def)
  from update_flag_Inr [OF this 3(2)] flag_integrity_set [OF 3(1), of r] show ?case by (auto simp: set_flag_def)
next
  case (4 db f k db')
  then have "distinct (map ff_id (fd_flags db))" by (simp add: flag_integrity_def)
  from delete_flag_Inr [OF this 4(2)] flag_integrity_cascade [OF 4(1), of k] show ?case by (auto simp: cascade_flag_def)
qed

interpretation flag_role_service: governed_service flag_role_attrs fr_id VUuid "\<lambda>l. unsaved (flag_role_attrs l)" fd_roles
    "\<lambda>db f l. in_scope (se_ev env) (sql_tables db) f (flag_role_attrs l)" flag_integrity
    "batch_create_flag_role env rf rr" no_update "delete_flag_role env" for env rf rr
proof (unfold_locales, goal_cases)
  case (1 db)
  then show ?case by (simp add: flag_integrity_def)
next
  case (2 db i f p r db')
  then have "create_flag_role env rf rr i f p db = Inr (r, db')" by (simp add: batch_create_flag_role_def split: if_splits)
  from create_flag_role_Inr [OF this] 2(1) show ?case by (auto simp: flag_integrity_def flag_role_violations_Nil)
next
  case (3 db f k u r db')
  then show ?case by (simp add: no_update_def)
next
  case (4 db f k db')
  then have "distinct (map fr_id (fd_roles db))" by (simp add: flag_integrity_def)
  from delete_flag_role_Inr [OF this 4(2)] flag_integrity_filter(1) [OF 4(1)] show ?case by auto
qed

interpretation flag_user_service: governed_service flag_user_attrs fu_id VUuid "\<lambda>l. unsaved (flag_user_attrs l)" fd_users
    "\<lambda>db f l. in_scope (se_ev env) (sql_tables db) f (flag_user_attrs l)" flag_integrity
    "batch_create_flag_user env rf ru" no_update "delete_flag_user env" for env rf ru
proof (unfold_locales, goal_cases)
  case (1 db)
  then show ?case by (simp add: flag_integrity_def)
next
  case (2 db i f p r db')
  then have "create_flag_user env rf ru i f p db = Inr (r, db')" by (simp add: batch_create_flag_user_def split: if_splits)
  from create_flag_user_Inr [OF this] 2(1) show ?case by (auto simp: flag_integrity_def flag_user_violations_Nil)
next
  case (3 db f k u r db')
  then show ?case by (simp add: no_update_def)
next
  case (4 db f k db')
  then have "distinct (map fu_id (fd_users db))" by (simp add: flag_integrity_def)
  from delete_flag_user_Inr [OF this 4(2)] flag_integrity_filter(2) [OF 4(1)] show ?case by auto
qed

end
