(* ===== verification/FeatureFlagRouter.thy ===== *)
theory FeatureFlagRouter
  imports FeatureFlagService RoleRouter
begin

text \<open>
  \<open>feature_flag/feature_flag_router.py\<close> and \<open>feature_flag/feature_flag_schemas.py\<close>: the three
  collections of feature flags, and the list of the flags that are on for the caller. The read models carry every
  column of their rows.
\<close>

section \<open>Schemas\<close>

text \<open>\<open>re.compile(r"^[A-Z0-9_]+$")\<close> on a stripped text.\<close>

definition flag_id_char :: "char \<Rightarrow> bool" where
  "flag_id_char c =
     (let n = (of_char c :: nat) in 65 \<le> n \<and> n \<le> 90 \<or> 48 \<le> n \<and> n \<le> 57 \<or> c = CHR ''_'')"

definition validate_feature_flag_id :: "string \<Rightarrow> nat + string" where
  "validate_feature_flag_id v =
     (let v = strip v in
      if v = [] then Inl 422
      else if 128 < length v then Inl 422
      else if \<not> list_all flag_id_char v then Inl 422
      else Inr v)"

definition strip_description :: "string option \<Rightarrow> string option" where
  "strip_description v =
     (case v of None \<Rightarrow> None | Some s \<Rightarrow> (let t = strip s in if t = [] then None else Some t))"

definition valid_flag_create :: "feature_flag_create \<Rightarrow> nat + feature_flag_create" where
  "valid_flag_create payload =
     bindR (validate_feature_flag_id (fc_id payload)) (\<lambda>i.
     bindR (on_opt (max_chars 2048) (fc_description payload)) (\<lambda>d.
       Inr (payload\<lparr>fc_id := i, fc_description := strip_description d\<rparr>)))"

definition valid_flag_update :: "feature_flag_update \<Rightarrow> nat + feature_flag_update" where
  "valid_flag_update payload =
     bindR (on_opt (max_chars 2048) (fup_description payload)) (\<lambda>d.
       Inr (payload\<lparr>fup_description := strip_description d\<rparr>))"

definition valid_flag_role_create :: "string \<times> uuid \<Rightarrow> nat + string \<times> uuid" where
  "valid_flag_role_create payload = bindR (validate_feature_flag_id (fst payload)) (\<lambda>i. Inr (i, snd payload))"

definition valid_flag_user_create :: "string \<times> uuid \<Rightarrow> nat + string \<times> uuid" where
  "valid_flag_user_create payload = bindR (validate_feature_flag_id (fst payload)) (\<lambda>i. Inr (i, snd payload))"

section \<open>Errors\<close>

text \<open>\<open>_cursor\<close>: any non-empty text.\<close>

definition flag_cursor :: "string \<Rightarrow> nat + string" where
  "flag_cursor s = (if s = [] then Inl 400 else Inr s)"

fun on_flag_create :: "svc_error \<Rightarrow> nat option" where
  "on_flag_create PermissionScopeError = Some 403"
| "on_flag_create (ConflictError s) = Some 409"
| "on_flag_create _ = None"

fun on_flag_batch :: "svc_error \<Rightarrow> nat option" where
  "on_flag_batch (BatchPermissionDeniedError s) = Some 403"
| "on_flag_batch PermissionScopeError = Some 403"
| "on_flag_batch (ConflictError s) = Some 409"
| "on_flag_batch NotFoundError = Some 404"
| "on_flag_batch _ = None"

fun on_assignment_create :: "svc_error \<Rightarrow> nat option" where
  "on_assignment_create (ConflictError s) = Some 409"
| "on_assignment_create (OrphanError s) = Some 404"
| "on_assignment_create _ = None"

fun on_assignment_batch :: "svc_error \<Rightarrow> nat option" where
  "on_assignment_batch (BatchPermissionDeniedError s) = Some 403"
| "on_assignment_batch (ConflictError s) = Some 409"
| "on_assignment_batch (OrphanError s) = Some 404"
| "on_assignment_batch NotFoundError = Some 404"
| "on_assignment_batch _ = None"

section \<open>Flags\<close>

definition search_feature_flags_route ::
    "'y flag_env_scheme \<Rightarrow> registry \<Rightarrow> auth_token option \<Rightarrow> sfilter \<Rightarrow> string option \<Rightarrow> nat \<Rightarrow>
     'z flag_db_scheme \<Rightarrow> nat + feature_flag list \<times> string option \<times> nat" where
  "search_feature_flags_route env reg token search_filter cursor limit db =
     search_route reg (auth_view db) ''FeatureFlag'' token flag_cursor id Inr
       (\<lambda>f. search_flags env f db) search_filter cursor limit"

definition count_feature_flags_route ::
    "'y flag_env_scheme \<Rightarrow> registry \<Rightarrow> auth_token option \<Rightarrow> sfilter \<Rightarrow> 'z flag_db_scheme \<Rightarrow> nat + nat" where
  "count_feature_flags_route env reg token search_filter db =
     count_route reg (auth_view db) ''FeatureFlag'' token (\<lambda>f. count_flags env f db) search_filter"

text \<open>No permission is needed, only a principal; the service has no filter.\<close>

definition enabled_feature_flags_route ::
    "'y flag_env_scheme \<Rightarrow> auth_token option \<Rightarrow> 'z flag_db_scheme \<Rightarrow> nat + string list" where
  "enabled_feature_flags_route env token db =
     (let (role_ids, req) = depends_role_ids (auth_view db) token new_request in
      require_user 401 token (\<lambda>user_id.
        http_errors (\<lambda>_. None) (enabled_for_roles env AllSearchFilter role_ids (Some user_id) db)))"

definition create_feature_flag_route ::
    "'y flag_env_scheme \<Rightarrow> registry \<Rightarrow> auth_token option \<Rightarrow> feature_flag_create \<Rightarrow> 'z flag_db_scheme \<Rightarrow>
     (nat + feature_flag) \<times> 'z flag_db_scheme" where
  "create_feature_flag_route env reg token payload db =
     write_route reg (auth_view db) ''FeatureFlag'' CREATE token valid_flag_create Inr
       (\<lambda>f body. http_errors on_flag_create (create_flag env f body db)) payload db"

definition get_feature_flags_batch_route ::
    "'y flag_env_scheme \<Rightarrow> registry \<Rightarrow> auth_token option \<Rightarrow> string list \<Rightarrow> 'z flag_db_scheme \<Rightarrow>
     nat + feature_flag option list" where
  "get_feature_flags_batch_route env reg token ids db =
     batch_read_route reg (auth_view db) ''FeatureFlag'' token Inr (\<lambda>f ks. get_many_flags env f ks db) ids"

definition write_feature_flags_batch_route ::
    "'y flag_env_scheme \<Rightarrow> registry \<Rightarrow> auth_token option \<Rightarrow> (string, feature_flag_create, feature_flag_update) batch_op list \<Rightarrow>
     'z flag_db_scheme \<Rightarrow> (nat + feature_flag option list) \<times> 'z flag_db_scheme" where
  "write_feature_flags_batch_route env reg token operations db =
     batch_write_route reg (auth_view db) ''FeatureFlag'' [CREATE, UPDATE, DELETE] token valid_flag_create valid_flag_update Inr
       (\<lambda>perm_filters ops. http_errors on_flag_batch (apply_flag_batch env ops perm_filters db)) operations db"

definition get_feature_flag_route ::
    "'y flag_env_scheme \<Rightarrow> registry \<Rightarrow> auth_token option \<Rightarrow> string \<Rightarrow> 'z flag_db_scheme \<Rightarrow> nat + feature_flag" where
  "get_feature_flag_route env reg token flag_id db =
     get_route reg (auth_view db) ''FeatureFlag'' token Inr (\<lambda>f. get_flag env f flag_id db)"

definition update_feature_flag_route ::
    "'y flag_env_scheme \<Rightarrow> registry \<Rightarrow> auth_token option \<Rightarrow> string \<Rightarrow> feature_flag_update \<Rightarrow> 'z flag_db_scheme \<Rightarrow>
     (nat + feature_flag) \<times> 'z flag_db_scheme" where
  "update_feature_flag_route env reg token flag_id payload db =
     write_route reg (auth_view db) ''FeatureFlag'' UPDATE token valid_flag_update Inr
       (\<lambda>f body. http_errors on_not_found (update_flag env f flag_id body db)) payload db"

definition delete_feature_flag_route ::
    "'y flag_env_scheme \<Rightarrow> registry \<Rightarrow> auth_token option \<Rightarrow> string \<Rightarrow> 'z flag_db_scheme \<Rightarrow> (nat + unit) \<times> 'z flag_db_scheme" where
  "delete_feature_flag_route env reg token flag_id db =
     delete_route reg (auth_view db) ''FeatureFlag'' token (\<lambda>f. delete_flag env f flag_id db) db"

section \<open>Assignments to roles\<close>

definition search_feature_flag_role_assignments_route ::
    "'y flag_env_scheme \<Rightarrow> registry \<Rightarrow> auth_token option \<Rightarrow> sfilter \<Rightarrow> string option \<Rightarrow> nat \<Rightarrow>
     'z flag_db_scheme \<Rightarrow> nat + feature_flag_role_assignment list \<times> string option \<times> nat" where
  "search_feature_flag_role_assignments_route env reg token search_filter cursor limit db =
     search_route reg (auth_view db) ''FeatureFlagRoleAssignment'' token uuid_cursor uuid_str Inr
       (\<lambda>f. search_flag_roles env f db) search_filter cursor limit"

definition count_feature_flag_role_assignments_route ::
    "'y flag_env_scheme \<Rightarrow> registry \<Rightarrow> auth_token option \<Rightarrow> sfilter \<Rightarrow> 'z flag_db_scheme \<Rightarrow> nat + nat" where
  "count_feature_flag_role_assignments_route env reg token search_filter db =
     count_route reg (auth_view db) ''FeatureFlagRoleAssignment'' token (\<lambda>f. count_flag_roles env f db) search_filter"

definition create_feature_flag_role_assignment_route ::
    "'y flag_env_scheme \<Rightarrow> registry \<Rightarrow> auth_token option \<Rightarrow> string \<times> uuid \<Rightarrow> 'z flag_db_scheme \<Rightarrow>
     (nat + feature_flag_role_assignment) \<times> 'z flag_db_scheme" where
  "create_feature_flag_role_assignment_route env reg token payload db =
     commit_read db Inr
       (guards reg (auth_view db) token
         [(''FeatureFlagRoleAssignment'', CREATE), (''FeatureFlag'', READ), (''Role'', READ)] new_request (\<lambda>fs.
         bindR (valid_flag_role_create payload) (\<lambda>body.
           http_errors on_assignment_create (create_flag_role env (Some (fs ! 1)) (Some (fs ! 2)) 0 (fs ! 0) body db))))"

definition get_feature_flag_role_assignments_batch_route ::
    "'y flag_env_scheme \<Rightarrow> registry \<Rightarrow> auth_token option \<Rightarrow> uuid list \<Rightarrow> 'z flag_db_scheme \<Rightarrow>
     nat + feature_flag_role_assignment option list" where
  "get_feature_flag_role_assignments_batch_route env reg token ids db =
     batch_read_route reg (auth_view db) ''FeatureFlagRoleAssignment'' token Inr (\<lambda>f ks. get_many_flag_roles env f ks db) ids"

text \<open>The filters of a batch of assignments: creation, deletion, and the two reads.\<close>

definition link_filters :: "sfilter option list \<Rightarrow> action \<Rightarrow> sfilter option" where
  "link_filters fs a = (if a = CREATE then fs ! 0 else if a = DELETE then fs ! 1 else None)"

definition write_links_batch ::
    "('p \<Rightarrow> nat + 'p) \<Rightarrow> (('k, 'p, unit) batch_op list \<Rightarrow> svc_error + 'r option list \<times> 's) \<Rightarrow>
     ('k, 'p, unit) batch_op list \<Rightarrow> 's \<Rightarrow> (nat + 'r option list) \<times> 's" where
  "write_links_batch valid apply_batch operations db =
     commit_read db Inr
       (if operations = [] \<or> 100 < length operations then Inl 422
        else bindR (valid_batch valid refuse operations) (\<lambda>ops. http_errors on_assignment_batch (apply_batch ops)))"

definition write_feature_flag_role_assignments_batch_route ::
    "'y flag_env_scheme \<Rightarrow> registry \<Rightarrow> auth_token option \<Rightarrow> (uuid, string \<times> uuid, unit) batch_op list \<Rightarrow>
     'z flag_db_scheme \<Rightarrow> (nat + feature_flag_role_assignment option list) \<times> 'z flag_db_scheme" where
  "write_feature_flag_role_assignments_batch_route env reg token operations db =
     (let fs = or_none_filters reg (auth_view db) token
            [(''FeatureFlagRoleAssignment'', CREATE), (''FeatureFlagRoleAssignment'', DELETE), (''FeatureFlag'', READ),
             (''Role'', READ)] new_request
      in write_links_batch valid_flag_role_create
           (\<lambda>ops. apply_flag_role_batch env (fs ! 2) (fs ! 3) ops (link_filters fs) db) operations db)"

definition get_feature_flag_role_assignment_route ::
    "'y flag_env_scheme \<Rightarrow> registry \<Rightarrow> auth_token option \<Rightarrow> uuid \<Rightarrow> 'z flag_db_scheme \<Rightarrow> nat + feature_flag_role_assignment" where
  "get_feature_flag_role_assignment_route env reg token override_id db =
     get_route reg (auth_view db) ''FeatureFlagRoleAssignment'' token Inr (\<lambda>f. get_flag_role env f override_id db)"

definition delete_feature_flag_role_assignment_route ::
    "'y flag_env_scheme \<Rightarrow> registry \<Rightarrow> auth_token option \<Rightarrow> uuid \<Rightarrow> 'z flag_db_scheme \<Rightarrow> (nat + unit) \<times> 'z flag_db_scheme" where
  "delete_feature_flag_role_assignment_route env reg token override_id db =
     delete_route reg (auth_view db) ''FeatureFlagRoleAssignment'' token (\<lambda>f. delete_flag_role env f override_id db) db"

section \<open>Assignments to users\<close>

definition search_feature_flag_user_assignments_route ::
    "'y flag_env_scheme \<Rightarrow> registry \<Rightarrow> auth_token option \<Rightarrow> sfilter \<Rightarrow> string option \<Rightarrow> nat \<Rightarrow>
     'z flag_db_scheme \<Rightarrow> nat + feature_flag_user_assignment list \<times> string option \<times> nat" where
  "search_feature_flag_user_assignments_route env reg token search_filter cursor limit db =
     search_route reg (auth_view db) ''FeatureFlagUserAssignment'' token uuid_cursor uuid_str Inr
       (\<lambda>f. search_flag_users env f db) search_filter cursor limit"

definition count_feature_flag_user_assignments_route ::
    "'y flag_env_scheme \<Rightarrow> registry \<Rightarrow> auth_token option \<Rightarrow> sfilter \<Rightarrow> 'z flag_db_scheme \<Rightarrow> nat + nat" where
  "count_feature_flag_user_assignments_route env reg token search_filter db =
     count_route reg (auth_view db) ''FeatureFlagUserAssignment'' token (\<lambda>f. count_flag_users env f db) search_filter"

definition create_feature_flag_user_assignment_route ::
    "'y flag_env_scheme \<Rightarrow> registry \<Rightarrow> auth_token option \<Rightarrow> string \<times> uuid \<Rightarrow> 'z flag_db_scheme \<Rightarrow>
     (nat + feature_flag_user_assignment) \<times> 'z flag_db_scheme" where
  "create_feature_flag_user_assignment_route env reg token payload db =
     commit_read db Inr
       (guards reg (auth_view db) token
         [(''FeatureFlagUserAssignment'', CREATE), (''FeatureFlag'', READ), (''User'', READ)] new_request (\<lambda>fs.
         bindR (valid_flag_user_create payload) (\<lambda>body.
           http_errors on_assignment_create (create_flag_user env (Some (fs ! 1)) (Some (fs ! 2)) 0 (fs ! 0) body db))))"

definition get_feature_flag_user_assignments_batch_route ::
    "'y flag_env_scheme \<Rightarrow> registry \<Rightarrow> auth_token option \<Rightarrow> uuid list \<Rightarrow> 'z flag_db_scheme \<Rightarrow>
     nat + feature_flag_user_assignment option list" where
  "get_feature_flag_user_assignments_batch_route env reg token ids db =
     batch_read_route reg (auth_view db) ''FeatureFlagUserAssignment'' token Inr (\<lambda>f ks. get_many_flag_users env f ks db) ids"

definition write_feature_flag_user_assignments_batch_route ::
    "'y flag_env_scheme \<Rightarrow> registry \<Rightarrow> auth_token option \<Rightarrow> (uuid, string \<times> uuid, unit) batch_op list \<Rightarrow>
     'z flag_db_scheme \<Rightarrow> (nat + feature_flag_user_assignment option list) \<times> 'z flag_db_scheme" where
  "write_feature_flag_user_assignments_batch_route env reg token operations db =
     (let fs = or_none_filters reg (auth_view db) token
            [(''FeatureFlagUserAssignment'', CREATE), (''FeatureFlagUserAssignment'', DELETE), (''FeatureFlag'', READ),
             (''User'', READ)] new_request
      in write_links_batch valid_flag_user_create
           (\<lambda>ops. apply_flag_user_batch env (fs ! 2) (fs ! 3) ops (link_filters fs) db) operations db)"

definition get_feature_flag_user_assignment_route ::
    "'y flag_env_scheme \<Rightarrow> registry \<Rightarrow> auth_token option \<Rightarrow> uuid \<Rightarrow> 'z flag_db_scheme \<Rightarrow> nat + feature_flag_user_assignment" where
  "get_feature_flag_user_assignment_route env reg token override_id db =
     get_route reg (auth_view db) ''FeatureFlagUserAssignment'' token Inr (\<lambda>f. get_flag_user env f override_id db)"

definition delete_feature_flag_user_assignment_route ::
    "'y flag_env_scheme \<Rightarrow> registry \<Rightarrow> auth_token option \<Rightarrow> uuid \<Rightarrow> 'z flag_db_scheme \<Rightarrow> (nat + unit) \<times> 'z flag_db_scheme" where
  "delete_feature_flag_user_assignment_route env reg token override_id db =
     delete_route reg (auth_view db) ''FeatureFlagUserAssignment'' token (\<lambda>f. delete_flag_user env f override_id db) db"

end
