(* ===== verification/FeatureFlagLaws.thy ===== *)
theory FeatureFlagLaws
  imports FeatureFlagRouter IdentityTypes ServiceLaws
begin

text \<open>
  What feature flags promise: which flags are on for whom, who may assign them and to what, and what every stored flag and
  assignment satisfies over histories of requests.
\<close>

section \<open>Flags that are on\<close>

definition holds_role :: "'z svc_db_scheme \<Rightarrow> uuid \<Rightarrow> uuid \<Rightarrow> bool" where
  "holds_role db user_id role_id = (role_id \<in> r_id ` {r. assigned (auth_view db) user_id r})"

definition flag_on :: "'z flag_db_scheme \<Rightarrow> uuid \<Rightarrow> string \<Rightarrow> bool" where
  "flag_on db user_id i =
     ((\<exists>r \<in> set (fd_flags db). ff_id r = i \<and> ff_enabled r) \<or>
      (\<exists>l \<in> set (fd_roles db). fr_flag_id l = i \<and> holds_role db user_id (fr_role_id l)) \<or>
      (\<exists>l \<in> set (fd_users db). fu_flag_id l = i \<and> fu_user_id l = user_id))"

lemma held_ids: "r \<in> set (map r_id (load_roles (auth_view db) u)) \<longleftrightarrow> holds_role db u r"
  by (simp add: holds_role_def set_load_roles)

lemma fresh_role_ids: "fst (depends_role_ids adb (Some t) new_request) = map r_id (load_roles adb (tok_user_id t))"
  by (simp add: depends_role_ids_def materialized_roles_def new_request_def Let_def)

lemma enabled_route_lists:
  "enabled_feature_flags_route env (Some t) db =
     Inr (sort (remdups (map ff_id (filter ff_enabled (fd_flags db)) @
        map fr_flag_id (filter (\<lambda>l. fr_role_id l \<in> set (map r_id (load_roles (auth_view db) (tok_user_id t)))) (fd_roles db)) @
        map fu_flag_id (filter (\<lambda>l. fu_user_id l = tok_user_id t) (fd_users db)))))"
proof -
  obtain ids req where d: "depends_role_ids (auth_view db) (Some t) new_request = (ids, req)" by (rule prod.exhaust)
  then have ids: "ids = map r_id (load_roles (auth_view db) (tok_user_id t))"
    using fresh_role_ids [of "auth_view db" t] by simp
  have "(if ids = [] then [] else map fr_flag_id (filter (\<lambda>l. fr_role_id l \<in> set ids) (fd_roles db))) =
      map fr_flag_id (filter (\<lambda>l. fr_role_id l \<in> set ids) (fd_roles db))" by simp
  then show ?thesis
    by (simp add: enabled_feature_flags_route_def d require_user_def depends_user_id_def enabled_for_roles_def
        filter_sql_def Let_def ids del: set_map)
qed

lemma enabled_ids:
  "set (map ff_id (filter ff_enabled (fd_flags db)) @
      map fr_flag_id (filter (\<lambda>l. fr_role_id l \<in> set (map r_id (load_roles (auth_view db) u))) (fd_roles db)) @
      map fu_flag_id (filter (\<lambda>l. fu_user_id l = u) (fd_users db))) = {i. flag_on db u i}"
  unfolding held_ids by (auto simp: flag_on_def)

lemma enabled_route_answers:
  "\<exists>flags. enabled_feature_flags_route env (Some t) db = Inr flags \<and> sorted_wrt (<) flags \<and>
     set flags = {i. flag_on db (tok_user_id t) i}"
  unfolding enabled_route_lists by (intro exI conjI, rule refl) (simp_all add: strict_sorted_iff enabled_ids del: set_append set_map)

text \<open>C34. A request without a principal is refused with 401; any other request is answered, without a permission,
  by the sorted list of exactly the flags that are on for its user: enabled for everyone, assigned to a role the user
  has, or assigned to the user.\<close>

theorem enabled_flags_exact:
  "enabled_feature_flags_route env None db = Inl 401 \<and>
   (\<exists>flags. enabled_feature_flags_route env (Some t) db = Inr flags \<and> sorted_wrt (<) flags \<and>
      set flags = {i. flag_on db (tok_user_id t) i})"
  by (intro conjI enabled_route_answers)
    (simp add: enabled_feature_flags_route_def depends_role_ids_def require_user_def depends_user_id_def)

section \<open>Creating assignments\<close>

lemma readable_flags:
  "local_policies reg ''FeatureFlag'' db \<Longrightarrow> readable flag_attrs reg (auth_view db) ''FeatureFlag'' D"
  by (rule local_policies_read [where key = "\<lambda>_. 0"]) (simp_all add: id_or_null_def flag_attrs_def text_keyed_models_def)

abbreviation flag_allowed where
  "flag_allowed reg db a token \<equiv> row_allowed flag_attrs reg (auth_view db) ''FeatureFlag'' a token"

lemma sees_flag:
  assumes "flag_integrity db" "sql_engine (se_ev env)" "local_policies reg ''FeatureFlag'' db"
    and "resolved reg (auth_view db) ''FeatureFlag'' READ token = Some f"
    and "ensure_feature_flag_readable env i (Some f) db = Inr ()"
  shows "\<exists>r \<in> set (fd_flags db). ff_id r = i \<and> flag_allowed reg db READ token r"
proof -
  have d: "distinct (map ff_id (fd_flags db))" using assms(1) by (simp add: flag_integrity_def)
  obtain r where "get_flag env f i db = Inr r" using assms(5) by (auto simp: ensure_feature_flag_readable_def)
  from flag_table.sees_row [OF d assms(2) readable_flags [OF assms(3)] assms(4), of "sql_tables db" i r] this
  show ?thesis by (auto simp: get_flag_def)
qed

lemma sees_role:
  assumes "integrity db" "sql_engine (se_ev env)" "local_policies reg ''Role'' db"
    and "resolved reg (auth_view db) ''Role'' READ token = Some f"
    and "ensure_role_readable env i (Some f) db = Inr ()"
  shows "\<exists>r \<in> set (sv_roles db). r_id r = i \<and> row_allowed role_attrs reg (auth_view db) ''Role'' READ token r"
proof -
  have d: "distinct (map r_id (sv_roles db))" using assms(1) by (simp add: integrity_def)
  obtain r where "get_role env f i db = Inr r" using assms(5) by (auto simp: ensure_role_readable_def)
  from role_table.sees_row [OF d assms(2) readable_identity(2) [OF assms(3)] assms(4), of "sql_tables db" i r] this
  show ?thesis by (auto simp: get_role_def)
qed

lemma sees_user:
  assumes "integrity db" "sql_engine (se_ev env)" "local_policies reg ''User'' db"
    and "resolved reg (auth_view db) ''User'' READ token = Some f"
    and "ensure_user_readable env i (Some f) db = Inr ()"
  shows "\<exists>r \<in> set (td_users db). u_id r = i \<and> row_allowed user_attrs reg (auth_view db) ''User'' READ token r"
proof -
  have d: "distinct (map u_id (td_users db))" using assms(1) by (simp add: integrity_def)
  obtain r where "get_user env f i db = Inr r" using assms(5) by (auto simp: ensure_user_readable_def)
  from user_table.sees_row [OF d assms(2) readable_identity(1) [OF assms(3)] assms(4), of "sql_tables db" i r] this
  show ?thesis by (auto simp: get_user_def)
qed

lemma validate_feature_flag_id_Inr:
  "validate_feature_flag_id v = Inr i \<Longrightarrow> i = strip v \<and> i \<noteq> [] \<and> length i \<le> 128 \<and> list_all flag_id_char i"
  by (auto simp: validate_feature_flag_id_def Let_def split: if_splits)

text \<open>The two creations differ in the table of the link and in what it links to.\<close>

lemma link_route_cases:
  assumes "commit_read db Inr (guards reg adb token [(m1, a1), (m2, a2), (m3, a3)] new_request (\<lambda>fs.
      bindR v (\<lambda>body. http_errors clauses (mk (fs ! 1) (fs ! 2) (fs ! 0) body)))) = (res, db')"
  obtains (failed) e where "res = Inl e" "db' = db"
    | (made) f1 f2 f3 body l where "resolved reg adb m1 a1 token = Some f1" "resolved reg adb m2 a2 token = Some f2"
        "resolved reg adb m3 a3 token = Some f3" "v = Inr body" "mk f2 f3 f1 body = Inr (l, db')" "res = Inr l"
proof (cases res)
  case (Inl e)
  then have "db' = db"
    using assms by (auto simp: commit_read_def split: sum.splits)
  then show ?thesis using Inl failed by blast
next
  case (Inr l)
  then have "guards reg adb token [(m1, a1), (m2, a2), (m3, a3)] new_request (\<lambda>fs.
      bindR v (\<lambda>body. http_errors clauses (mk (fs ! 1) (fs ! 2) (fs ! 0) body))) = Inr (l, db')"
    using assms by (auto simp: commit_read_def split: sum.splits)
  then show ?thesis
    using made Inr by (auto simp: guards_resolved [OF cache_ok_new] bindR_Inr_iff split: if_splits)
qed

definition role_assigned ::
    "registry \<Rightarrow> auth_token option \<Rightarrow> string \<Rightarrow> uuid \<Rightarrow> 'z flag_db_scheme \<Rightarrow> feature_flag_role_assignment \<Rightarrow>
     'z flag_db_scheme \<Rightarrow> bool" where
  "role_assigned reg token i rid db l db' =
    (db' = db\<lparr>fd_roles := fd_roles db @ [l]\<rparr> \<and> fr_flag_id l = i \<and> fr_role_id l = rid \<and>
     row_allowed (\<lambda>l. unsaved (flag_role_attrs l)) reg (auth_view db) ''FeatureFlagRoleAssignment'' CREATE token l \<and>
     (\<exists>r \<in> set (fd_flags db). ff_id r = i \<and> flag_allowed reg db READ token r) \<and>
     (\<exists>r \<in> set (sv_roles db). r_id r = rid \<and> row_allowed role_attrs reg (auth_view db) ''Role'' READ token r) \<and>
     flag_integrity db' \<and> (\<forall>u k. flag_on db' u k \<longleftrightarrow> flag_on db u k \<or> k = i \<and> holds_role db u rid))"

definition user_assigned ::
    "registry \<Rightarrow> auth_token option \<Rightarrow> string \<Rightarrow> uuid \<Rightarrow> 'z flag_db_scheme \<Rightarrow> feature_flag_user_assignment \<Rightarrow>
     'z flag_db_scheme \<Rightarrow> bool" where
  "user_assigned reg token i uid db l db' =
    (db' = db\<lparr>fd_users := fd_users db @ [l]\<rparr> \<and> fu_flag_id l = i \<and> fu_user_id l = uid \<and>
     row_allowed (\<lambda>l. unsaved (flag_user_attrs l)) reg (auth_view db) ''FeatureFlagUserAssignment'' CREATE token l \<and>
     (\<exists>r \<in> set (fd_flags db). ff_id r = i \<and> flag_allowed reg db READ token r) \<and>
     (\<exists>r \<in> set (td_users db). u_id r = uid \<and> row_allowed user_attrs reg (auth_view db) ''User'' READ token r) \<and>
     flag_integrity db' \<and> (\<forall>u k. flag_on db' u k \<longleftrightarrow> flag_on db u k \<or> k = i \<and> u = uid))"

text \<open>C35. Assigning a flag to a role or to a user takes the permission to create the assignment and to see the flag
  and the role or user; the id is stripped before it is looked up. A request that fails leaves the database as it was; a
  request that succeeds adds one row, keeps the constraints, and turns the flag on for the holders of that
  role, or for that user, and for nobody else.\<close>

theorem assignments_checked:
  assumes "integrity db" "flag_integrity db" "sql_engine (se_ev env)"
    and "local_policies reg ''FeatureFlag'' db" "local_policies reg ''Role'' db" "local_policies reg ''User'' db"
  shows "(case create_feature_flag_role_assignment_route env reg token (flag_id, rid) db of
      (Inl s, db') \<Rightarrow> db' = db
    | (Inr l, db') \<Rightarrow> role_assigned reg token (strip flag_id) rid db l db') \<and>
    (case create_feature_flag_user_assignment_route env reg token (flag_id, uid) db of
      (Inl s, db') \<Rightarrow> db' = db
    | (Inr l, db') \<Rightarrow> user_assigned reg token (strip flag_id) uid db l db')"
proof
  obtain res db' where route: "create_feature_flag_role_assignment_route env reg token (flag_id, rid) db = (res, db')"
    by (rule prod.exhaust)
  from route [unfolded create_feature_flag_role_assignment_route_def]
  show "case create_feature_flag_role_assignment_route env reg token (flag_id, rid) db of
      (Inl s, db') \<Rightarrow> db' = db
    | (Inr l, db') \<Rightarrow> role_assigned reg token (strip flag_id) rid db l db'"
  proof (cases rule: link_route_cases)
    case (failed e)
    then show ?thesis by (simp add: route)
  next
    case (made f1 f2 f3 body l)
    then have body: "body = (strip flag_id, rid)"
      by (auto simp: valid_flag_role_create_def bindR_Inr_iff dest: validate_feature_flag_id_Inr)
    note c = create_flag_role_Inr [OF made(5) [unfolded body], simplified]
    then have m: "matches f1 (plain_item (unsaved (flag_role_attrs l))) = Inr True" by blast
    have "flag_integrity db'"
      using flag_role_service.create_step [OF assms(2), of env "Some f2" "Some f3" 0 f1 body l db'] made(5)
      by (simp add: batch_create_flag_role_def)
    moreover have "row_allowed (\<lambda>l. unsaved (flag_role_attrs l)) reg (auth_view db) ''FeatureFlagRoleAssignment'' CREATE token l"
      using granted_matches [OF made(1), of "unsaved (flag_role_attrs l)"] m by (simp add: row_allowed_def)
    moreover have "flag_on db' u i \<longleftrightarrow> flag_on db u i \<or> i = strip flag_id \<and> holds_role db u rid" for u i
      using c by (auto simp: flag_on_def new_flag_role_def holds_role_def auth_view_def)
    ultimately show ?thesis
      using sees_flag [OF assms(2,3,4) made(2)] sees_role [OF assms(1,3,5) made(3)] c
      by (simp add: route made(6) new_flag_role_def role_assigned_def)
  qed
next
  obtain res db' where route: "create_feature_flag_user_assignment_route env reg token (flag_id, uid) db = (res, db')"
    by (rule prod.exhaust)
  from route [unfolded create_feature_flag_user_assignment_route_def]
  show "case create_feature_flag_user_assignment_route env reg token (flag_id, uid) db of
      (Inl s, db') \<Rightarrow> db' = db
    | (Inr l, db') \<Rightarrow> user_assigned reg token (strip flag_id) uid db l db'"
  proof (cases rule: link_route_cases)
    case (failed e)
    then show ?thesis by (simp add: route)
  next
    case (made f1 f2 f3 body l)
    then have body: "body = (strip flag_id, uid)"
      by (auto simp: valid_flag_user_create_def bindR_Inr_iff dest: validate_feature_flag_id_Inr)
    note c = create_flag_user_Inr [OF made(5) [unfolded body], simplified]
    then have m: "matches f1 (plain_item (unsaved (flag_user_attrs l))) = Inr True" by blast
    have "flag_integrity db'"
      using flag_user_service.create_step [OF assms(2), of env "Some f2" "Some f3" 0 f1 body l db'] made(5)
      by (simp add: batch_create_flag_user_def)
    moreover have "row_allowed (\<lambda>l. unsaved (flag_user_attrs l)) reg (auth_view db) ''FeatureFlagUserAssignment'' CREATE token l"
      using granted_matches [OF made(1), of "unsaved (flag_user_attrs l)"] m by (simp add: row_allowed_def)
    moreover have "flag_on db' u i \<longleftrightarrow> flag_on db u i \<or> i = strip flag_id \<and> u = uid" for u i
      using c by (auto simp: flag_on_def new_flag_user_def holds_role_def auth_view_def)
    ultimately show ?thesis
      using sees_flag [OF assms(2,3,4) made(2)] sees_user [OF assms(1,3,6) made(3)] c
      by (simp add: route made(6) new_flag_user_def user_assigned_def)
  qed
qed

section \<open>Histories\<close>

definition flag_ok :: "feature_flag \<Rightarrow> bool" where
  "flag_ok r =
     (ff_id r \<noteq> [] \<and> length (ff_id r) \<le> 128 \<and> list_all flag_id_char (ff_id r) \<and>
      (\<forall>d. ff_description r = Some d \<longrightarrow> name_ok 2048 d))"

definition flags_sound :: "'z flag_db_scheme \<Rightarrow> bool" where
  "flags_sound db = (flag_integrity db \<and> (\<forall>r \<in> set (fd_flags db). flag_ok r))"

text \<open>The mutating requests of the three collections, and the database they leave.\<close>

datatype flag_request =
    PostFlag feature_flag_create | PatchFlag string feature_flag_update | DeleteFlag string
  | PostFlags "(string, feature_flag_create, feature_flag_update) batch_op list"
  | PostFlagRole "string \<times> uuid" | DeleteFlagRole uuid | PostFlagRoles "(uuid, string \<times> uuid, unit) batch_op list"
  | PostFlagUser "string \<times> uuid" | DeleteFlagUser uuid | PostFlagUsers "(uuid, string \<times> uuid, unit) batch_op list"

fun serve_flags ::
    "'y flag_env_scheme \<Rightarrow> registry \<Rightarrow> auth_token option \<Rightarrow> flag_request \<Rightarrow> 'z flag_db_scheme \<Rightarrow> 'z flag_db_scheme" where
  "serve_flags env reg t (PostFlag p) db = snd (create_feature_flag_route env reg t p db)"
| "serve_flags env reg t (PatchFlag k u) db = snd (update_feature_flag_route env reg t k u db)"
| "serve_flags env reg t (DeleteFlag k) db = snd (delete_feature_flag_route env reg t k db)"
| "serve_flags env reg t (PostFlags ops) db = snd (write_feature_flags_batch_route env reg t ops db)"
| "serve_flags env reg t (PostFlagRole p) db = snd (create_feature_flag_role_assignment_route env reg t p db)"
| "serve_flags env reg t (DeleteFlagRole k) db = snd (delete_feature_flag_role_assignment_route env reg t k db)"
| "serve_flags env reg t (PostFlagRoles ops) db = snd (write_feature_flag_role_assignments_batch_route env reg t ops db)"
| "serve_flags env reg t (PostFlagUser p) db = snd (create_feature_flag_user_assignment_route env reg t p db)"
| "serve_flags env reg t (DeleteFlagUser k) db = snd (delete_feature_flag_user_assignment_route env reg t k db)"
| "serve_flags env reg t (PostFlagUsers ops) db = snd (write_feature_flag_user_assignments_batch_route env reg t ops db)"

text \<open>
  A history interleaves these requests, each with its own clock, identifiers and principal, with calls of the identity services,
  whose deletions of roles and users cascade to the links.
\<close>

inductive flag_history :: "registry \<Rightarrow> flag_db \<Rightarrow> flag_db \<Rightarrow> bool" for reg db where
  start: "flag_history reg db db"
| request: "flag_history reg db db1 \<Longrightarrow> flag_history reg db (serve_flags (env :: flag_env) reg t req db1)"
| identity: "flag_history reg db db1 \<Longrightarrow> svc_step db1 db2 \<Longrightarrow> flag_history reg db (cascade_links db2)"

subsection \<open>Every operation keeps the rows well-formed\<close>

lemma flags_soundI: "flag_integrity db \<Longrightarrow> (\<And>r. r \<in> set (fd_flags db) \<Longrightarrow> flag_ok r) \<Longrightarrow> flags_sound db"
  by (simp add: flags_sound_def)

lemma flags_soundD: "flags_sound db \<Longrightarrow> flag_integrity db" "flags_sound db \<Longrightarrow> r \<in> set (fd_flags db) \<Longrightarrow> flag_ok r"
  by (simp_all add: flags_sound_def)

definition flag_payload :: "feature_flag_create \<Rightarrow> bool" where
  "flag_payload p = (fc_id p \<noteq> [] \<and> length (fc_id p) \<le> 128 \<and> list_all flag_id_char (fc_id p) \<and>
     (\<forall>d. fc_description p = Some d \<longrightarrow> name_ok 2048 d))"

definition flag_changes :: "feature_flag_update \<Rightarrow> bool" where
  "flag_changes q = (\<forall>d. fup_description q = Some d \<longrightarrow> name_ok 2048 d)"

lemma strip_description_ok: "on_opt (max_chars n) v = Inr d \<Longrightarrow> strip_description d = Some t \<Longrightarrow> name_ok n t"
  by (auto simp: on_opt_def max_chars_def bindR_Inr_iff strip_description_def name_ok_def Let_def strip_idem
      intro: order_trans [OF strip_length] split: option.splits if_splits)

lemma valid_flag_ok:
  "valid_flag_create p = Inr q \<Longrightarrow> flag_payload q" "valid_flag_update p' = Inr q' \<Longrightarrow> flag_changes q'"
  by (auto simp: valid_flag_create_def valid_flag_update_def flag_payload_def flag_changes_def bindR_Inr_iff
      dest: validate_feature_flag_id_Inr strip_description_ok)

lemma flag_steps:
  assumes "flags_sound db"
  shows "create_flag env f p db = Inr (r, db1) \<Longrightarrow> flag_payload p \<Longrightarrow> flags_sound db1"
    "update_flag env f k q db = Inr (r, db2) \<Longrightarrow> flag_changes q \<Longrightarrow> flags_sound db2"
    "delete_flag env f k db = Inr db3 \<Longrightarrow> flags_sound db3"
proof -
  note i = flags_soundD(1) [OF assms] and ok = flags_soundD(2) [OF assms]
  show "flags_sound db1" if c: "create_flag env f p db = Inr (r, db1)" "flag_payload p"
    using flag_service.create_step [OF i c(1)] create_flag_Inr [OF c(1)] c(2) ok
    by (intro flags_soundI) (auto simp: new_flag_def flag_payload_def flag_ok_def)
  show "flags_sound db2" if u: "update_flag env f k q db = Inr (r, db2)" "flag_changes q"
  proof -
    have "flag_ok r"
      using u ok by (auto simp: update_flag_def get_flag_def Let_def set_if_def flag_changes_def flag_ok_def bindR_Inr_iff
          split: if_splits option.splits dest!: scoped_get_mem)
    then show ?thesis using flag_service.update_step [OF i u(1)] ok by (intro flags_soundI) auto
  qed
  show "flags_sound db3" if d: "delete_flag env f k db = Inr db3"
    using flag_service.delete_step [OF i d] ok by (intro flags_soundI) auto
qed

lemma flag_link_steps:
  assumes "flags_sound db"
  shows "create_flag_role env rf rr i f ids db = Inr (l, db1) \<Longrightarrow> flags_sound db1" "delete_flag_role env f k db = Inr db2 \<Longrightarrow> flags_sound db2"
    "create_flag_user env rf ru i f ids db = Inr (m, db3) \<Longrightarrow> flags_sound db3" "delete_flag_user env f k db = Inr db4 \<Longrightarrow> flags_sound db4"
proof -
  note i = flags_soundD(1) [OF assms] and ok = flags_soundD(2) [OF assms]
  have "distinct (map fr_id (fd_roles db))" "distinct (map fu_id (fd_users db))" using i by (simp_all add: flag_integrity_def)
  note d = this
  show "flags_sound db1" if c: "create_flag_role env rf rr i f ids db = Inr (l, db1)"
    using create_flag_role_Inr [OF c] i ok by (intro flags_soundI) (auto simp: flag_integrity_def flag_role_violations_Nil)
  show "flags_sound db3" if c: "create_flag_user env rf ru i f ids db = Inr (m, db3)"
    using create_flag_user_Inr [OF c] i ok by (intro flags_soundI) (auto simp: flag_integrity_def flag_user_violations_Nil)
  show "flags_sound db2" if c: "delete_flag_role env f k db = Inr db2"
    using delete_flag_role_Inr [OF d(1) c] flag_integrity_filter(1) [OF i] ok by (intro flags_soundI) auto
  show "flags_sound db4" if c: "delete_flag_user env f k db = Inr db4"
    using delete_flag_user_Inr [OF d(2) c] flag_integrity_filter(2) [OF i] ok by (intro flags_soundI) auto
qed

lemma write_links_batch_keeps:
  assumes "ok db" "\<And>ops xs db'. apply_batch ops = Inr (xs, db') \<Longrightarrow> ok db'"
  shows "ok (snd (write_links_batch valid apply_batch operations db))"
  using assms by (auto simp: write_links_batch_def commit_read_def bindR_Inr_iff split: sum.split)

lemma batch_link_steps:
  "flags_sound db \<Longrightarrow> batch_create_flag_role env rf rr i f ids db = Inr (l, db') \<Longrightarrow> flags_sound db'"
  "flags_sound db \<Longrightarrow> batch_create_flag_user env rf ru i f ids db = Inr (m, db') \<Longrightarrow> flags_sound db'"
  "no_update f k u db = Inr (x, db') \<Longrightarrow> flags_sound db'"
  by (auto simp: batch_create_flag_role_def batch_create_flag_user_def no_update_def split: if_splits
      intro: flag_link_steps(1,3))

lemma link_batch_keeps:
  assumes "flags_sound db"
  shows "apply_flag_role_batch env rf rr ops fs db = Inr (xs, db1) \<Longrightarrow> flags_sound db1"
    "apply_flag_user_batch env rf ru ops fs db = Inr (ys, db2) \<Longrightarrow> flags_sound db2"
proof -
  have "op_ok (\<lambda>_. True) (\<lambda>_. True) op1" for op1 :: "(uuid, string \<times> uuid, unit) batch_op" by (cases op1) simp_all
  then have ops: "\<forall>op1 \<in> set ops. op_ok (\<lambda>_. True) (\<lambda>_. True) op1" by simp
  show "flags_sound db1" if "apply_flag_role_batch env rf rr ops fs db = Inr (xs, db1)"
  proof (rule batch_loop_keeps [where ok = flags_sound, OF _ _ _ ops assms that [unfolded apply_flag_role_batch_def]])
  qed (erule (1) batch_link_steps | erule (1) flag_link_steps | erule batch_link_steps)+
  show "flags_sound db2" if "apply_flag_user_batch env rf ru ops fs db = Inr (ys, db2)"
  proof (rule batch_loop_keeps [where ok = flags_sound, OF _ _ _ ops assms that [unfolded apply_flag_user_batch_def]])
  qed (erule (1) batch_link_steps | erule (1) flag_link_steps | erule batch_link_steps)+
qed

lemma link_route_keeps:
  assumes "ok db" "\<And>f1 f2 f3 body l db'. mk f2 f3 f1 body = Inr (l, db') \<Longrightarrow> ok db'"
  shows "ok (snd (commit_read db Inr (guards reg adb token [(m1, a1), (m2, a2), (m3, a3)] new_request (\<lambda>fs.
      bindR v (\<lambda>body. http_errors clauses (mk (fs ! 1) (fs ! 2) (fs ! 0) body))))))"
proof -
  obtain res db' where r: "commit_read db Inr (guards reg adb token [(m1, a1), (m2, a2), (m3, a3)] new_request (\<lambda>fs.
      bindR v (\<lambda>body. http_errors clauses (mk (fs ! 1) (fs ! 2) (fs ! 0) body)))) = (res, db')" by (rule prod.exhaust)
  from r show ?thesis by (cases rule: link_route_cases) (use r assms in auto)
qed

lemma serve_flags_sound:
  assumes "flags_sound db"
  shows "flags_sound (serve_flags env reg t req db)"
proof (cases req)
  case (PostFlag p)
  show ?thesis unfolding PostFlag serve_flags.simps create_feature_flag_route_def
    by (rule write_route_keeps [where ok = flags_sound, OF assms]) (auto dest: valid_flag_ok(1) intro: flag_steps(1) [OF assms])
next
  case (PatchFlag k u)
  show ?thesis unfolding PatchFlag serve_flags.simps update_feature_flag_route_def
    by (rule write_route_keeps [where ok = flags_sound, OF assms]) (auto dest: valid_flag_ok(2) intro: flag_steps(2) [OF assms])
next
  case (DeleteFlag k)
  show ?thesis unfolding DeleteFlag serve_flags.simps delete_feature_flag_route_def
    by (rule delete_route_keeps [where ok = flags_sound, OF assms]) (rule flag_steps(3) [OF assms])
next
  case (PostFlags ops)
  show ?thesis unfolding PostFlags serve_flags.simps write_feature_flags_batch_route_def
  proof (rule batch_route_keeps [where ok = flags_sound, OF assms])
    fix fs ops' xs db'
    assume v: "valid_batch valid_flag_create valid_flag_update ops = Inr ops'"
      and h: "http_errors on_flag_batch (apply_flag_batch env ops' fs db) = Inr (xs, db')"
    have ops': "\<forall>op1 \<in> set ops'. op_ok flag_payload flag_changes op1"
      by (rule valid_batch_ok [OF v]) (auto dest: valid_flag_ok)
    have "batch_loop (\<lambda>_. create_flag env) (update_flag env) (delete_flag env) fs 0 ops' db = Inr (xs, db')"
      using h by (simp add: apply_flag_batch_def)
    then show "flags_sound db'"
      by (rule batch_loop_keeps [where ok = flags_sound and P = flag_payload and U = flag_changes, rotated 5])
        (use ops' assms in \<open>auto intro: flag_steps\<close>)
  qed
next
  case (PostFlagRole p)
  show ?thesis unfolding PostFlagRole serve_flags.simps create_feature_flag_role_assignment_route_def
    by (rule link_route_keeps [where ok = flags_sound, OF assms]) (rule flag_link_steps(1) [OF assms])
next
  case (DeleteFlagRole k)
  show ?thesis unfolding DeleteFlagRole serve_flags.simps delete_feature_flag_role_assignment_route_def
    by (rule delete_route_keeps [where ok = flags_sound, OF assms]) (rule flag_link_steps(2) [OF assms])
next
  case (PostFlagRoles ops)
  show ?thesis unfolding PostFlagRoles serve_flags.simps write_feature_flag_role_assignments_batch_route_def Let_def
    by (rule write_links_batch_keeps [where ok = flags_sound, OF assms]) (rule link_batch_keeps(1) [OF assms])
next
  case (PostFlagUser p)
  show ?thesis unfolding PostFlagUser serve_flags.simps create_feature_flag_user_assignment_route_def
    by (rule link_route_keeps [where ok = flags_sound, OF assms]) (rule flag_link_steps(3) [OF assms])
next
  case (DeleteFlagUser k)
  show ?thesis unfolding DeleteFlagUser serve_flags.simps delete_feature_flag_user_assignment_route_def
    by (rule delete_route_keeps [where ok = flags_sound, OF assms]) (rule flag_link_steps(4) [OF assms])
next
  case (PostFlagUsers ops)
  show ?thesis unfolding PostFlagUsers serve_flags.simps write_feature_flag_user_assignments_batch_route_def Let_def
    by (rule write_links_batch_keeps [where ok = flags_sound, OF assms]) (rule link_batch_keeps(2) [OF assms])
qed

text \<open>The identity services do not touch the tables of the flags, and the cascade restores the foreign keys.\<close>

lemma same_more:
  assumes "svc_db.more db' = svc_db.more db"
  shows "fd_flags db' = fd_flags db" "fd_roles db' = fd_roles db" "fd_users db' = fd_users db"
  using assms by (cases db; cases db'; simp)+

lemma identity_keeps:
  assumes "flags_sound db" "svc_step db db'"
  shows "flags_sound (cascade_links db')"
  using assms(1) unfolding flags_sound_def flag_integrity_def
  by (simp add: cascade_links_def same_more [OF svc_step_more [OF assms(2)]] distinct_map_filter)

text \<open>Along every history of flag requests and identity changes, failed requests included, the constraints of the flag tables
  hold, every flag has an id of 1 to 128 upper-case letters, digits and underscores and a description that is
  absent or stripped, not empty and at most 2048 long; so whatever list of enabled flags a user
  is answered names stored flags only.\<close>

theorem flags_well_formed:
  assumes "flag_history reg db db'" "flags_sound db"
  shows "flags_sound db' \<and>
    (\<exists>flags. enabled_feature_flags_route env (Some t) db' = Inr flags \<and> set flags \<subseteq> ff_id ` set (filter flag_ok (fd_flags db')))"
proof
  show s: "flags_sound db'"
    using assms by (induction rule: flag_history.induct) (auto intro: serve_flags_sound identity_keeps)
  have "i \<in> ff_id ` set (filter flag_ok (fd_flags db'))" if "flag_on db' u i" for u i
    using that s by (auto simp: flag_on_def flags_sound_def flag_integrity_def)
  then show "\<exists>flags. enabled_feature_flags_route env (Some t) db' = Inr flags \<and> set flags \<subseteq> ff_id ` set (filter flag_ok (fd_flags db'))"
    using enabled_route_answers [of env t db'] by blast
qed

section \<open>Concrete instances\<close>

definition witness_flag_env :: flag_env where
  "witness_flag_env = svc_env.extend witness_svc_env (flag_env.fields (\<lambda>s. s))"

definition witness_flag_db :: flag_db where
  "witness_flag_db = svc_db.extend keyed_db (flag_db.fields
     [\<lparr>ff_id = ''BETA'', ff_enabled = False, ff_description = None, ff_created_at = 0, ff_updated_at = 0\<rparr>] [] [])"

lemma witness_flag_parts:
  "se_ev witness_flag_env = sql_eval" "auth_view witness_flag_db = auth_view keyed_db"
  "sv_roles witness_flag_db = sv_roles keyed_db" "integrity witness_flag_db = integrity keyed_db"
  by (simp_all add: witness_flag_env_def witness_svc_env_def svc_env.defs flag_env.defs witness_flag_db_def svc_db.defs
      flag_db.defs auth_view_def integrity_def)

lemma witness_flags_sound: "flags_sound witness_flag_db"
  by (simp add: flags_sound_def flag_integrity_def flag_ok_def flag_id_char_def witness_flag_db_def svc_db.defs flag_db.defs)

lemma witness_flag_policies: "local_policies registrations m witness_flag_db"
  using keyed_local [of m] by (simp add: local_policies_def witness_flag_parts)

lemma flag_models:
  "map_of registrations ''FeatureFlagRoleAssignment'' = Some ''feature_flag_role_assignment_permission''"
  "map_of registrations ''FeatureFlag'' = Some ''feature_flag_permission''"
  "map_of registrations ''Role'' = Some ''role_permission''"
  by (simp_all add: registrations_def)

lemma witness_assignment:
  "\<exists>l db'. create_feature_flag_role_assignment_route witness_flag_env registrations seven ('' BETA '', 1) witness_flag_db = (Inr l, db')"
proof -
  note f = flag_models [THEN seven_resolved, folded witness_flag_parts(2)]
  have v: "valid_flag_role_create ('' BETA '', 1) = Inr (''BETA'', 1)"
    by (simp add: valid_flag_role_create_def validate_feature_flag_id_def strip_def is_space_def flag_id_char_def)
  have "ensure_feature_flag_readable witness_flag_env ''BETA'' (Some AllSearchFilter) witness_flag_db = Inr ()"
    "ensure_role_readable witness_flag_env 1 (Some AllSearchFilter) witness_flag_db = Inr ()"
    by (simp_all add: ensure_feature_flag_readable_def ensure_role_readable_def get_flag_def get_role_def scoped_get_def
        witness_flag_db_def keyed_db_def svc_db.defs flag_db.defs filter_sql_def)
  moreover have "flag_role_violations witness_flag_db (new_flag_role witness_flag_env 0 ''BETA'' 1) = []"
    by (simp add: flag_role_violations_Nil new_flag_role_def witness_flag_db_def keyed_db_def svc_db.defs flag_db.defs)
  ultimately show ?thesis
    unfolding create_feature_flag_role_assignment_route_def guards_resolved [OF cache_ok_new]
    by (simp add: f v create_flag_role_def check_link_scope_def Let_def flush_rows_def catch_integrity_def commit_read_def)
qed

theorem assignments_checked_witness:
  "\<exists>l db'. create_feature_flag_role_assignment_route witness_flag_env registrations seven ('' BETA '', 1) witness_flag_db = (Inr l, db') \<and>
     \<not> flag_on witness_flag_db 7 ''BETA'' \<and> flag_on db' 7 ''BETA''"
proof -
  obtain l db' where r: "create_feature_flag_role_assignment_route witness_flag_env registrations seven ('' BETA '', 1) witness_flag_db = (Inr l, db')"
    using witness_assignment by blast
  have e: "sql_engine (se_ev witness_flag_env)" using ref.sql_engine_axioms by (simp add: witness_flag_parts)
  have i: "integrity witness_flag_db" using keyed_integrity by (simp add: witness_flag_parts)
  have "role_assigned registrations seven (strip '' BETA '') 1 witness_flag_db l db'"
    using assignments_checked [OF i flags_soundD(1) [OF witness_flags_sound] e witness_flag_policies witness_flag_policies
        witness_flag_policies, of seven "'' BETA ''" 1 0, THEN conjunct1] r by simp
  moreover have "strip '' BETA '' = ''BETA''" by (simp add: strip_def is_space_def)
  moreover have "holds_role witness_flag_db 7 1"
    unfolding holds_role_def witness_flag_parts
    by (rule image_eqI [of _ _ "hd (sv_roles keyed_db)"]) (simp_all add: assigned_def auth_view_def keyed_db_def)
  ultimately have "flag_on db' 7 ''BETA''" unfolding role_assigned_def by metis
  moreover have "\<not> flag_on witness_flag_db 7 ''BETA''"
    by (simp add: flag_on_def witness_flag_db_def svc_db.defs flag_db.defs)
  ultimately show ?thesis using r by blast
qed

theorem flags_well_formed_witness:
  "flags_sound (serve_flags witness_flag_env registrations seven (DeleteFlag ''BETA'') witness_flag_db)"
  using flags_well_formed [OF flag_history.request [OF flag_history.start] witness_flags_sound, THEN conjunct1] by blast

end
