(* ===== verification/CorsService.thy ===== *)
theory CorsService
  imports RoutesLaws
begin

text \<open>
  \<open>cors/cors_service.py\<close> and \<open>cors/cors_middleware.py\<close>: the allow-list of browser origins, the cache of it that
  all requests of a process share, and the middleware that reads the cache. The list is global: permissions
  gate the operations and scope nothing.
\<close>

section \<open>The allow-list\<close>

record allowed_origin =
  ao_id :: uuid
  ao_origin :: string
  ao_created_at :: datetime

record cors_db = svc_db +
  cd_origins :: "allowed_origin list"

definition origin_attrs :: "allowed_origin \<Rightarrow> row" where
  "origin_attrs r a =
     (if a = ''id'' then VUuid (ao_id r)
      else if a = ''origin'' then VStr (ao_origin r)
      else if a = ''created_at'' then time_val (ao_created_at r)
      else VNone)"

definition list_allowed_origins ::
    "'z cors_db_scheme \<Rightarrow> uuid option \<Rightarrow> nat \<Rightarrow> allowed_origin list \<times> uuid option" where
  "list_allowed_origins db cursor limit =
     (let rows = take (Suc limit) (filter (\<lambda>r. case cursor of None \<Rightarrow> True | Some u \<Rightarrow> u < ao_id r)
            (sort_key ao_id (cd_origins db)));
          next_cursor = (if limit < length rows then Some (ao_id (rows ! (limit - 1))) else None)
      in (take limit rows, next_cursor))"

text \<open>A text that does not fit its column is a \<open>DataError\<close>, which nobody catches.\<close>

definition create_allowed_origin ::
    "'y svc_env_scheme \<Rightarrow> nat \<Rightarrow> string \<Rightarrow> 'z cors_db_scheme \<Rightarrow> svc_error + allowed_origin \<times> 'z cors_db_scheme" where
  "create_allowed_origin env i origin db =
     (let r = \<lparr>ao_id = se_uuid env i, ao_origin = origin, ao_created_at = se_now env\<rparr> in
      if 2048 < length origin then Inl (Raised500 ValueErr)
      else if ao_id r \<in> ao_id ` set (cd_origins db) \<or> origin \<in> ao_origin ` set (cd_origins db)
      then Inl (ConflictError origin)
      else Inr (r, db\<lparr>cd_origins := cd_origins db @ [r]\<rparr>))"

definition get_allowed_origin :: "uuid \<Rightarrow> 'z cors_db_scheme \<Rightarrow> svc_error + allowed_origin" where
  "get_allowed_origin origin_id db =
     (case List.find (\<lambda>r. ao_id r = origin_id) (cd_origins db) of None \<Rightarrow> Inl NotFoundError | Some r \<Rightarrow> Inr r)"

definition get_many_origins :: "uuid list \<Rightarrow> 'z cors_db_scheme \<Rightarrow> allowed_origin option list" where
  "get_many_origins origin_ids db =
     (if origin_ids = [] then []
      else map (dict_by ao_id (filter (\<lambda>r. ao_id r \<in> set origin_ids) (cd_origins db))) origin_ids)"

definition delete_allowed_origin :: "uuid \<Rightarrow> 'z cors_db_scheme \<Rightarrow> svc_error + 'z cors_db_scheme" where
  "delete_allowed_origin origin_id db =
     bindR (get_allowed_origin origin_id db) (\<lambda>r.
       Inr (db\<lparr>cd_origins := filter (\<lambda>x. ao_id x \<noteq> origin_id) (cd_origins db)\<rparr>))"

definition apply_origin_batch ::
    "'y svc_env_scheme \<Rightarrow> (uuid, string, unit) batch_op list \<Rightarrow> (action \<Rightarrow> sfilter option) \<Rightarrow>
     'z cors_db_scheme \<Rightarrow> svc_error + allowed_origin option list \<times> 'z cors_db_scheme" where
  "apply_origin_batch env operations perm_filters db =
     batch_loop (\<lambda>i f. create_allowed_origin env i) no_update (\<lambda>f. delete_allowed_origin) perm_filters 0 operations db"

section \<open>The cache\<close>

text \<open>The set and the monotonic time at which the call that read it began.\<close>

type_synonym origin_cache = "(string set \<times> datetime) option"

definition CACHE_TTL :: int where
  "CACHE_TTL = seconds 30"

definition reset_cors_cache :: "origin_cache \<Rightarrow> origin_cache" where
  "reset_cors_cache cache = None"

text \<open>The first part of \<open>get_allowed_origins_cached\<close>: a fresh cache answers, otherwise the table is read.\<close>

definition cached_origins :: "origin_cache \<Rightarrow> datetime \<Rightarrow> string set option" where
  "cached_origins cache now =
     (case cache of None \<Rightarrow> None | Some (origins, read_at) \<Rightarrow> if now - read_at < CACHE_TTL then Some origins else None)"

text \<open>The query, and what the call stores when it has the rows.\<close>

definition origin_set :: "'z cors_db_scheme \<Rightarrow> string set" where
  "origin_set db = ao_origin ` set (cd_origins db)"

definition store_origins :: "string set \<Rightarrow> datetime \<Rightarrow> origin_cache" where
  "store_origins origins now = Some (origins, now)"

section \<open>The middleware\<close>

text \<open>An HTTP request as the middleware reads it, and a response.\<close>

record http_request =
  hr_origin :: "string option"
  hr_method :: string
  hr_request_method :: bool   \<comment> \<open>it has an \<open>access-control-request-method\<close> header\<close>

type_synonym http_response = "nat \<times> (string \<times> string) list"

definition DEFAULT_ALLOWED_HEADERS :: "string list" where
  "DEFAULT_ALLOWED_HEADERS =
     [''accept'', ''authorization'', ''content-disposition'', ''content-type'', ''content-length'', ''origin'', ''range'',
      ''user-agent'', ''x-requested-with'']"

definition ALLOW_METHODS :: "string list" where
  "ALLOW_METHODS = [''GET'', ''POST'', ''PATCH'', ''DELETE'', ''OPTIONS'']"

definition preflight :: "string \<Rightarrow> http_response" where
  "preflight origin =
     (204, [(''access-control-allow-origin'', origin), (''access-control-allow-credentials'', ''true''),
       (''access-control-allow-methods'', join_with '', '' (sort ALLOW_METHODS)),
       (''access-control-allow-headers'', join_with '', '' (sort DEFAULT_ALLOWED_HEADERS)),
       (''access-control-max-age'', ''600''), (''vary'', ''origin'')])"

definition add_header :: "(string \<times> string) list \<Rightarrow> string \<Rightarrow> string \<Rightarrow> (string \<times> string) list \<Rightarrow> (string \<times> string) list" where
  "add_header raw name value out =
     (if name \<in> (\<lambda>h. lower (fst h)) ` set raw then out else out @ [(name, value)])"

definition simple_response :: "string \<Rightarrow> http_response \<Rightarrow> http_response" where
  "simple_response origin response =
     (let raw = snd response in
      (fst response,
       add_header raw ''vary'' ''origin'' (add_header raw ''access-control-allow-credentials'' ''true''
         (add_header raw ''access-control-allow-origin'' origin raw))))"

definition cors_middleware :: "string set \<Rightarrow> http_request \<Rightarrow> http_response \<Rightarrow> http_response" where
  "cors_middleware permitted request app =
     (case hr_origin request of
        None \<Rightarrow> app
      | Some origin \<Rightarrow>
          if origin \<notin> permitted then app
          else if hr_method request = ''OPTIONS'' \<and> hr_request_method request then preflight origin
          else simple_response origin app)"

section \<open>Laws\<close>

lemma origin_attrs_id [simp]: "origin_attrs r ''id'' = VUuid (ao_id r)"
  by (simp add: origin_attrs_def)

definition origins_ok :: "'z cors_db_scheme \<Rightarrow> bool" where
  "origins_ok db = (distinct (map ao_id (cd_origins db)) \<and> distinct (map ao_origin (cd_origins db)))"

lemma get_allowed_origin_Inr:
  assumes "get_allowed_origin k db = Inr r"
  shows "r \<in> set (cd_origins db) \<and> ao_id r = k"
  using assms by (auto simp: get_allowed_origin_def find_Some_iff in_set_conv_nth split: option.splits)

lemma get_many_origins_nth:
  assumes "origins_ok db" "i < length ks"
  shows "get_many_origins ks db ! i = Some r \<longleftrightarrow> r \<in> set (cd_origins db) \<and> ao_id r = ks ! i"
proof -
  have "distinct (map ao_id (filter (\<lambda>r. ao_id r \<in> set ks) (cd_origins db)))"
    using assms(1) by (simp add: origins_ok_def distinct_map_filter)
  then show ?thesis using assms(2) by (auto simp: get_many_origins_def dict_by_Some_iff)
qed

lemma create_allowed_origin_ok:
  assumes "origins_ok db" "create_allowed_origin env i origin db = Inr (r, db')"
  shows "origins_ok db' \<and> origin_set db' = insert origin (origin_set db) \<and> origin \<notin> origin_set db \<and>
    cd_origins db' = cd_origins db @ [r]"
  using assms by (auto simp: create_allowed_origin_def origins_ok_def origin_set_def Let_def split: if_splits)

lemma delete_allowed_origin_ok:
  assumes "origins_ok db" "delete_allowed_origin k db = Inr db'"
  shows "origins_ok db' \<and> (\<exists>r \<in> set (cd_origins db). ao_id r = k \<and> origin_set db' = origin_set db - {ao_origin r})"
proof -
  obtain r where r: "get_allowed_origin k db = Inr r" "db' = db\<lparr>cd_origins := filter (\<lambda>x. ao_id x \<noteq> k) (cd_origins db)\<rparr>"
    using assms(2) by (auto simp: delete_allowed_origin_def bindR_Inr_iff)
  from get_allowed_origin_Inr [OF r(1)] have m: "r \<in> set (cd_origins db)" "ao_id r = k" by simp_all
  have "ao_origin ` {x \<in> set (cd_origins db). ao_id x \<noteq> k} = origin_set db - {ao_origin r}"
  proof -
    have "ao_id x \<noteq> k \<longleftrightarrow> ao_origin x \<noteq> ao_origin r" if "x \<in> set (cd_origins db)" for x
      using that assms(1) m unfolding origins_ok_def distinct_map by (auto dest: inj_onD)
    then show ?thesis by (auto simp: origin_set_def)
  qed
  then show ?thesis using assms(1) m r(2)
    by (auto simp: origins_ok_def distinct_map_filter origin_set_def intro!: bexI [of _ r])
qed

end
