(* ===== verification/CorsRouter.thy ===== *)
theory CorsRouter
  imports CorsService RoleRouter
begin

text \<open>
  \<open>cors/cors_router.py\<close>. The filter a guard resolves is not used: holding any grant for the action opens the
  whole list.
\<close>

definition valid_origin_create :: "string \<Rightarrow> nat + string" where
  "valid_origin_create origin = Inr origin"

fun on_origin_create :: "svc_error \<Rightarrow> nat option" where
  "on_origin_create (ConflictError s) = Some 409"
| "on_origin_create _ = None"

fun on_origin_batch :: "svc_error \<Rightarrow> nat option" where
  "on_origin_batch (BatchPermissionDeniedError s) = Some 403"
| "on_origin_batch (ConflictError s) = Some 409"
| "on_origin_batch NotFoundError = Some 404"
| "on_origin_batch _ = None"

definition search_cors_origins_route ::
    "registry \<Rightarrow> auth_token option \<Rightarrow> string option \<Rightarrow> nat \<Rightarrow> 'z cors_db_scheme \<Rightarrow>
     nat + allowed_origin list \<times> string option \<times> nat" where
  "search_cors_origins_route reg token cursor limit db =
     guard reg (auth_view db) ''AllowedOrigin'' SEARCH token (\<lambda>_.
       if limit < 1 \<or> 100 < limit then Inl 422
       else
         bindR (opt_cursor uuid_cursor cursor) (\<lambda>cur.
           let (origins, next_cursor) = list_allowed_origins db cur limit
           in Inr (origins, map_option uuid_str next_cursor, limit)))"

definition create_cors_origin_route ::
    "'y svc_env_scheme \<Rightarrow> registry \<Rightarrow> auth_token option \<Rightarrow> string \<Rightarrow> 'z cors_db_scheme \<Rightarrow>
     (nat + allowed_origin) \<times> 'z cors_db_scheme" where
  "create_cors_origin_route env reg token payload db =
     write_route reg (auth_view db) ''AllowedOrigin'' CREATE token valid_origin_create Inr
       (\<lambda>_ origin. http_errors on_origin_create (create_allowed_origin env 0 origin db)) payload db"

definition get_cors_origins_batch_route ::
    "registry \<Rightarrow> auth_token option \<Rightarrow> uuid list \<Rightarrow> 'z cors_db_scheme \<Rightarrow> nat + allowed_origin option list" where
  "get_cors_origins_batch_route reg token ids db =
     batch_read_route reg (auth_view db) ''AllowedOrigin'' token Inr (\<lambda>_ ks. Inr (get_many_origins ks db)) ids"

definition write_cors_origins_batch_route ::
    "'y svc_env_scheme \<Rightarrow> registry \<Rightarrow> auth_token option \<Rightarrow> (uuid, string, unit) batch_op list \<Rightarrow> 'z cors_db_scheme \<Rightarrow>
     (nat + allowed_origin option list) \<times> 'z cors_db_scheme" where
  "write_cors_origins_batch_route env reg token operations db =
     batch_write_route reg (auth_view db) ''AllowedOrigin'' [CREATE, DELETE] token valid_origin_create refuse Inr
       (\<lambda>perm_filters ops. http_errors on_origin_batch (apply_origin_batch env ops perm_filters db)) operations db"

definition delete_cors_origin_route ::
    "registry \<Rightarrow> auth_token option \<Rightarrow> uuid \<Rightarrow> 'z cors_db_scheme \<Rightarrow> (nat + unit) \<times> 'z cors_db_scheme" where
  "delete_cors_origin_route reg token origin_id db =
     delete_route reg (auth_view db) ''AllowedOrigin'' token (\<lambda>_. delete_allowed_origin origin_id db) db"

end
