(* ===== verification/CorsLaws.thy ===== *)
theory CorsLaws
  imports CorsRouter
begin

text \<open>
  How far the answer of the CORS middleware may lag behind the allow-list. Requests of a process interleave at
  their awaits: the cache is looked up, the table is read, and the cache is stored in three steps, and a
  write resets the cache when it flushes, which is before it commits.
\<close>

section \<open>Interleaved requests\<close>

text \<open>
  Beside the clock, the committed table and the cache, a state holds the calls of \<open>get_allowed_origins_cached\<close> that
  have missed the cache (when they began, and what they have read), the answers given (when the call began and ended), and, for the
  statements only, which set was the committed one at which time.
\<close>

record cors_world =
  cw_now :: datetime
  cw_db :: cors_db
  cw_cache :: origin_cache
  cw_readers :: "(datetime \<times> string set option) list"
  cw_answers :: "(datetime \<times> datetime \<times> string set) list"
  cw_seen :: "(datetime \<times> string set) set"

inductive cors_step :: "cors_world \<Rightarrow> cors_world \<Rightarrow> bool" where
  tick: "cw_now w \<le> t \<Longrightarrow> cors_step w (w\<lparr>cw_now := t, cw_seen := insert (t, origin_set (cw_db w)) (cw_seen w)\<rparr>)"
| flush_create: "create_allowed_origin (env :: svc_env) i origin (cw_db w) = Inr (r, db') \<Longrightarrow>
    cors_step w (w\<lparr>cw_cache := reset_cors_cache (cw_cache w)\<rparr>)"
| flush_delete: "delete_allowed_origin k (cw_db w) = Inr db' \<Longrightarrow> cors_step w (w\<lparr>cw_cache := reset_cors_cache (cw_cache w)\<rparr>)"
| commit: "cors_step w (w\<lparr>cw_db := db', cw_seen := insert (cw_now w, origin_set db') (cw_seen w)\<rparr>)"
| hit: "cached_origins (cw_cache w) (cw_now w) = Some S \<Longrightarrow> cors_step w (w\<lparr>cw_answers := (cw_now w, cw_now w, S) # cw_answers w\<rparr>)"
| miss: "cached_origins (cw_cache w) (cw_now w) = None \<Longrightarrow> cors_step w (w\<lparr>cw_readers := (cw_now w, None) # cw_readers w\<rparr>)"
| fetch: "(s, None) \<in> set (cw_readers w) \<Longrightarrow>
    cors_step w (w\<lparr>cw_readers := (s, Some (origin_set (cw_db w))) # remove1 (s, None) (cw_readers w)\<rparr>)"
| finish: "(s, Some S) \<in> set (cw_readers w) \<Longrightarrow>
    cors_step w (w\<lparr>cw_cache := store_origins S s, cw_answers := (s, cw_now w, S) # cw_answers w,
      cw_readers := remove1 (s, Some S) (cw_readers w)\<rparr>)"

definition cors_start :: "datetime \<Rightarrow> cors_db \<Rightarrow> cors_world" where
  "cors_start t db = \<lparr>cw_now = t, cw_db = db, cw_cache = None, cw_readers = [], cw_answers = [], cw_seen = {(t, origin_set db)}\<rparr>"

text \<open>The set was the committed one at a time between two bounds.\<close>

definition committed_within :: "cors_world \<Rightarrow> string set \<Rightarrow> datetime \<Rightarrow> datetime \<Rightarrow> bool" where
  "committed_within w S lo hi = (\<exists>t. (t, S) \<in> cw_seen w \<and> lo \<le> t \<and> t \<le> hi)"

definition cors_inv :: "cors_world \<Rightarrow> bool" where
  "cors_inv w =
     ((cw_now w, origin_set (cw_db w)) \<in> cw_seen w \<and>
      (\<forall>S s. cw_cache w = Some (S, s) \<longrightarrow> committed_within w S s (cw_now w)) \<and>
      (\<forall>s got. (s, got) \<in> set (cw_readers w) \<longrightarrow> s \<le> cw_now w) \<and>
      (\<forall>s S. (s, Some S) \<in> set (cw_readers w) \<longrightarrow> committed_within w S s (cw_now w)) \<and>
      (\<forall>s f S. (s, f, S) \<in> set (cw_answers w) \<longrightarrow> committed_within w S (s - CACHE_TTL + 1) f))"

lemma committed_within_mono:
  "committed_within w S lo hi \<Longrightarrow> lo' \<le> lo \<Longrightarrow> hi \<le> hi' \<Longrightarrow> cw_seen w \<subseteq> cw_seen w' \<Longrightarrow> committed_within w' S lo' hi'"
  unfolding committed_within_def by (meson order_trans subsetD)

lemma cors_inv_start: "cors_inv (cors_start t db)"
  by (simp add: cors_inv_def cors_start_def)

lemma cors_inv_grow:
  assumes "cors_inv w" "cw_now w \<le> cw_now v" "cw_seen w \<subseteq> cw_seen v" "(cw_now v, origin_set (cw_db v)) \<in> cw_seen v"
    and "cw_cache v = cw_cache w" "cw_readers v = cw_readers w" "cw_answers v = cw_answers w"
  shows "cors_inv v"
proof -
  have mono: "committed_within w S lo hi \<Longrightarrow> hi \<le> hi' \<Longrightarrow> committed_within v S lo hi'" for S lo hi hi'
    by (rule committed_within_mono [OF _ order_refl _ assms(3)])
  show ?thesis unfolding cors_inv_def assms(5-7)
  proof (intro conjI allI impI)
    show "(cw_now v, origin_set (cw_db v)) \<in> cw_seen v" by (rule assms(4))
    show "committed_within v S s (cw_now v)" if "cw_cache w = Some (S, s)" for S s
      using that assms(1) by (intro mono [OF _ assms(2)]) (simp add: cors_inv_def)
    show "s \<le> cw_now v" if "(s, got) \<in> set (cw_readers w)" for s got
    proof -
      have "s \<le> cw_now w" using that assms(1) unfolding cors_inv_def by blast
      then show ?thesis using assms(2) by simp
    qed
    show "committed_within v S s (cw_now v)" if "(s, Some S) \<in> set (cw_readers w)" for s S
      using that assms(1) by (intro mono [OF _ assms(2)]) (auto simp: cors_inv_def)
    show "committed_within v S (s - CACHE_TTL + 1) f" if "(s, f, S) \<in> set (cw_answers w)" for s f S
      using that assms(1) by (intro mono [OF _ order_refl]) (simp add: cors_inv_def)
  qed
qed

lemma cors_inv_step: "cors_step w w' \<Longrightarrow> cors_inv w \<Longrightarrow> cors_inv w'"
proof (induction rule: cors_step.induct)
  case (tick w t)
  show ?case by (rule cors_inv_grow [OF tick(2)]) (use tick(1) in auto)
next
  case (flush_create env i origin w r db')
  then show ?case by (auto simp: cors_inv_def reset_cors_cache_def committed_within_def)
next
  case (flush_delete k w db')
  then show ?case by (auto simp: cors_inv_def reset_cors_cache_def committed_within_def)
next
  case (commit w db')
  show ?case by (rule cors_inv_grow [OF commit]) auto
next
  case (hit w S)
  then obtain s where "cw_cache w = Some (S, s)" "cw_now w - s < CACHE_TTL"
    by (auto simp: cached_origins_def split: option.splits if_splits)
  then show ?case using hit(2) by (auto simp: cors_inv_def committed_within_def)
next
  case (miss w)
  then show ?case by (auto simp: cors_inv_def committed_within_def)
next
  case (fetch s w)
  then have "s \<le> cw_now w" unfolding cors_inv_def by blast
  then show ?case using fetch unfolding cors_inv_def committed_within_def
    by simp (meson notin_set_remove1 order_refl)
next
  case (finish s S w)
  then have "committed_within w S s (cw_now w)" unfolding cors_inv_def by blast
  moreover from this have "committed_within w S (s - CACHE_TTL + 1) (cw_now w)"
    by (rule committed_within_mono) (simp_all add: CACHE_TTL_def)
  ultimately show ?case using finish unfolding cors_inv_def committed_within_def
    by (simp add: store_origins_def) (meson notin_set_remove1)
qed

lemma cors_inv_reach: "cors_step\<^sup>*\<^sup>* (cors_start t db) w \<Longrightarrow> cors_inv w"
  by (induction rule: rtranclp_induct) (auto intro: cors_inv_start cors_inv_step)

text \<open>What the middleware adds.\<close>

lemma add_header_in: "h \<in> set (add_header raw name value out) \<Longrightarrow> h \<in> set out \<or> h = (name, value)"
  by (auto simp: add_header_def split: if_splits)

lemma simple_response_adds:
  "(''access-control-allow-origin'', v) \<in> set (snd (simple_response origin app)) \<Longrightarrow>
     (''access-control-allow-origin'', v) \<in> set (snd app) \<or> v = origin"
  by (auto simp: simple_response_def Let_def dest!: add_header_in)

lemma preflight_allows: "(''access-control-allow-origin'', v) \<in> set (snd (preflight origin)) \<longleftrightarrow> v = origin"
  by (auto simp: preflight_def)

text \<open>C36. However requests interleave, the set the middleware is answered was the committed allow-list at some time later than 30
  seconds before its call began, and not after it ended. So a response differs from what the application sent, or allows an origin the application
  did not, only for the exact origin of the request, and only if that origin was on the allow-list within this window; a
  preflight of any other origin reaches the application.\<close>

theorem cors_window:
  assumes "cors_step\<^sup>*\<^sup>* (cors_start t db) w" "(s, f, S) \<in> set (cw_answers w)"
  shows "committed_within w S (s - CACHE_TTL + 1) f \<and>
    (let answer = cors_middleware S request app in
      (answer \<noteq> app \<longrightarrow> (\<exists>origin. hr_origin request = Some origin \<and> origin \<in> S)) \<and>
      (\<forall>v. (''access-control-allow-origin'', v) \<in> set (snd answer) \<longrightarrow>
         (''access-control-allow-origin'', v) \<in> set (snd app) \<or> hr_origin request = Some v \<and> v \<in> S))"
proof -
  have "committed_within w S (s - CACHE_TTL + 1) f"
    using cors_inv_reach [OF assms(1)] assms(2) by (simp add: cors_inv_def)
  moreover have "(''access-control-allow-origin'', v) \<in> set (snd app) \<or> hr_origin request = Some v \<and> v \<in> S"
    if "(''access-control-allow-origin'', v) \<in> set (snd (cors_middleware S request app))" for v
    using that by (auto simp: cors_middleware_def preflight_allows split: option.splits if_splits dest!: simple_response_adds)
  ultimately show ?thesis by (auto simp: cors_middleware_def Let_def split: option.splits if_splits)
qed

text \<open>
  The allow-list forgets an origin and the middleware still answers it 29 seconds later: a request that missed
  the cache between the flush of the deletion and its commit stored the old list again.
\<close>

definition stale_db :: cors_db where
  "stale_db = svc_db.extend witness_svc_db (cors_db.fields [\<lparr>ao_id = 1, ao_origin = ''https://app'', ao_created_at = 0\<rparr>])"

definition stale_world :: cors_world where
  "stale_world =
     \<lparr>cw_now = seconds 29, cw_db = stale_db\<lparr>cd_origins := []\<rparr>, cw_cache = Some ({''https://app''}, 0), cw_readers = [],
      cw_answers = [(seconds 29, seconds 29, {''https://app''}), (0, 0, {''https://app''})],
      cw_seen = {(seconds 29, {}), (0, {}), (0, {''https://app''})}\<rparr>"

lemma stale_reachable: "cors_step\<^sup>*\<^sup>* (cors_start 0 stale_db) stale_world"
proof -
  have rows: "origin_set stale_db = {''https://app''}" "origin_set (stale_db\<lparr>cd_origins := []\<rparr>) = {}"
    by (simp_all add: origin_set_def stale_db_def svc_db.defs cors_db.defs)
  have d: "delete_allowed_origin 1 stale_db = Inr (stale_db\<lparr>cd_origins := []\<rparr>)"
    by (simp add: delete_allowed_origin_def get_allowed_origin_def stale_db_def svc_db.defs cors_db.defs)
  let ?w0 = "cors_start 0 stale_db"
  let ?w2 = "?w0\<lparr>cw_readers := [(0, None)]\<rparr>"
  let ?w3 = "?w0\<lparr>cw_readers := [(0, Some {''https://app''})]\<rparr>"
  let ?w4 = "?w0\<lparr>cw_cache := Some ({''https://app''}, 0), cw_answers := [(0, 0, {''https://app''})]\<rparr>"
  let ?w5 = "?w4\<lparr>cw_db := stale_db\<lparr>cd_origins := []\<rparr>, cw_seen := {(0, {}), (0, {''https://app''})}\<rparr>"
  let ?w6 = "?w5\<lparr>cw_now := seconds 29, cw_seen := {(seconds 29, {}), (0, {}), (0, {''https://app''})}\<rparr>"
  have 1: "cors_step ?w0 ?w0"
    using cors_step.flush_delete [where w = ?w0, of 1 "stale_db\<lparr>cd_origins := []\<rparr>"] d
    by (simp add: cors_start_def reset_cors_cache_def)
  have 2: "cors_step ?w0 ?w2" using cors_step.miss [of ?w0] by (simp add: cors_start_def cached_origins_def)
  have 3: "cors_step ?w2 ?w3" using cors_step.fetch [of 0 ?w2] by (simp add: cors_start_def rows)
  have 4: "cors_step ?w3 ?w4" using cors_step.finish [of 0 "{''https://app''}" ?w3] by (simp add: cors_start_def store_origins_def)
  have 5: "cors_step ?w4 ?w5" using cors_step.commit [of ?w4 "stale_db\<lparr>cd_origins := []\<rparr>"] by (simp add: cors_start_def rows)
  have 6: "cors_step ?w5 ?w6" using cors_step.tick [of ?w5 "seconds 29"] by (simp add: cors_start_def rows)
  have 7: "cors_step ?w6 stale_world"
    using cors_step.hit [of ?w6 "{''https://app''}"] by (simp add: cors_start_def cached_origins_def CACHE_TTL_def stale_world_def)
  show ?thesis using 1 2 3 4 5 6 7 by (meson converse_rtranclp_into_rtranclp rtranclp.rtrancl_refl)
qed

theorem cors_window_witness:
  "committed_within stale_world {''https://app''} (seconds 29 - CACHE_TTL + 1) (seconds 29) \<and>
   origin_set (cw_db stale_world) = {}"
  using cors_window [OF stale_reachable, of "seconds 29" "seconds 29" "{''https://app''}"]
  by (simp add: stale_world_def origin_set_def)

end
