(* ===== verification/OAuthProviderService.thy ===== *)
theory OAuthProviderService
  imports RoutesLaws
begin

text \<open>
  \<open>oauth/oauth_provider_service.py\<close> over the rows of \<open>oauth/oauth_provider_models.py\<close> and
  \<open>oauth/oauth_session_models.py\<close>: the external OAuth providers whose tokens users obtain for later use. The client
  secret is stored encrypted and shown as a mask.
\<close>

section \<open>Rows\<close>

record oauth_provider =
  pv_id :: uuid
  pv_name :: string
  pv_creator_id :: uuid
  pv_url :: string
  pv_client_id :: string
  pv_client_secret :: string
  pv_scopes :: "string list"
  pv_expire_drift_tolerance :: int
  pv_authorize_path :: string
  pv_token_path :: string
  pv_refresh_path :: string
  pv_revocation_path :: "string option"
  pv_access_token_expires_in :: int
  pv_refresh_token_expires_in :: int
  pv_enabled :: bool
  pv_created_at :: datetime
  pv_updated_at :: datetime

record oauth_session =
  ss_id :: uuid
  ss_oauth_provider_id :: uuid
  ss_creator_id :: uuid
  ss_refresh_token :: string
  ss_access_token :: string
  ss_access_token_expires_at :: datetime
  ss_refresh_token_expires_at :: "datetime option"
  ss_tolerate_invalid :: bool
  ss_enabled :: bool
  ss_created_at :: datetime
  ss_updated_at :: datetime

record outgoing_db = svc_db +
  xd_providers :: "oauth_provider list"
  xd_sessions :: "oauth_session list"

text \<open>The provider's token endpoint is \<open>xe_post\<close>; \<open>xe_verifier\<close> is \<open>secrets.token_urlsafe(64)\<close>.\<close>

record outgoing_env = svc_env +
  xe_enc :: enc_service
  xe_nonce :: "nat \<Rightarrow> nat"
  xe_libs :: oauth_libs
  xe_verifier :: string
  xe_base_url :: string
  xe_post :: "string \<Rightarrow> (string \<times> string) list \<Rightarrow> idp_reply"

definition provider_attrs :: "oauth_provider \<Rightarrow> row" where
  "provider_attrs r a =
     (if a = ''id'' then VUuid (pv_id r)
      else if a = ''name'' then VStr (pv_name r)
      else if a = ''creator_id'' then VUuid (pv_creator_id r)
      else if a = ''url'' then VStr (pv_url r)
      else if a = ''client_id'' then VStr (pv_client_id r)
      else if a = ''client_secret'' then VStr (pv_client_secret r)
      else if a = ''scopes'' then VList (map VStr (pv_scopes r))
      else if a = ''expire_drift_tolerance'' then VInt (pv_expire_drift_tolerance r)
      else if a = ''authorize_path'' then VStr (pv_authorize_path r)
      else if a = ''token_path'' then VStr (pv_token_path r)
      else if a = ''refresh_path'' then VStr (pv_refresh_path r)
      else if a = ''revocation_path'' then opt_val VStr (pv_revocation_path r)
      else if a = ''access_token_expires_in'' then VInt (pv_access_token_expires_in r)
      else if a = ''refresh_token_expires_in'' then VInt (pv_refresh_token_expires_in r)
      else if a = ''enabled'' then VBool (pv_enabled r)
      else if a = ''created_at'' then time_val (pv_created_at r)
      else if a = ''updated_at'' then time_val (pv_updated_at r)
      else VNone)"

definition session_attrs :: "oauth_session \<Rightarrow> row" where
  "session_attrs r a =
     (if a = ''id'' then VUuid (ss_id r)
      else if a = ''oauth_provider_id'' then VUuid (ss_oauth_provider_id r)
      else if a = ''creator_id'' then VUuid (ss_creator_id r)
      else if a = ''refresh_token'' then VStr (ss_refresh_token r)
      else if a = ''access_token'' then VStr (ss_access_token r)
      else if a = ''access_token_expires_at'' then time_val (ss_access_token_expires_at r)
      else if a = ''refresh_token_expires_at'' then opt_val time_val (ss_refresh_token_expires_at r)
      else if a = ''tolerate_invalid'' then VBool (ss_tolerate_invalid r)
      else if a = ''enabled'' then VBool (ss_enabled r)
      else if a = ''created_at'' then time_val (ss_created_at r)
      else if a = ''updated_at'' then time_val (ss_updated_at r)
      else VNone)"

lemma outgoing_ids [simp]:
  "provider_attrs r ''id'' = VUuid (pv_id r)" "session_attrs s ''id'' = VUuid (ss_id s)"
  "provider_attrs r ''creator_id'' = VUuid (pv_creator_id r)" "session_attrs s ''creator_id'' = VUuid (ss_creator_id s)"
  by (simp_all add: provider_attrs_def session_attrs_def)

section \<open>Operations\<close>

record oauth_provider_create =
  pc_name :: string
  pc_url :: string
  pc_client_id :: string
  pc_client_secret :: string
  pc_scopes :: "string list"
  pc_expire_drift_tolerance :: int
  pc_authorize_path :: string
  pc_token_path :: string
  pc_refresh_path :: string
  pc_revocation_path :: "string option"
  pc_access_token_expires_in :: int
  pc_refresh_token_expires_in :: int
  pc_enabled :: bool

text \<open>A field that is unset or null is \<open>None\<close>: the service skips both.\<close>

record oauth_provider_update =
  pup_name :: "string option"
  pup_url :: "string option"
  pup_client_id :: "string option"
  pup_client_secret :: "string option"
  pup_scopes :: "string list option"
  pup_expire_drift_tolerance :: "int option"
  pup_authorize_path :: "string option"
  pup_token_path :: "string option"
  pup_refresh_path :: "string option"
  pup_revocation_path :: "string option"
  pup_access_token_expires_in :: "int option"
  pup_refresh_token_expires_in :: "int option"
  pup_enabled :: "bool option"

text \<open>An encryption error that nobody catches.\<close>

definition enc_py :: "enc_error + 'a \<Rightarrow> svc_error + 'a" where
  "enc_py r =
     (case r of Inr x \<Rightarrow> Inr x | Inl (EncPyErr e) \<Rightarrow> Inl (Raised500 e) | Inl JwtInvalidTokenError \<Rightarrow> Inl (Raised500 NotModelled))"

lemma enc_py_Inr [simp]: "enc_py r = Inr x \<longleftrightarrow> r = Inr x"
  by (auto simp: enc_py_def split: sum.splits enc_error.splits)

definition encrypt_secret :: "'y outgoing_env_scheme \<Rightarrow> nat \<Rightarrow> string \<Rightarrow> svc_error + string" where
  "encrypt_secret env i value = enc_py (encrypt_value (se_crypto env) (xe_enc env) (se_now env) (xe_nonce env i) value)"

definition new_provider :: "'y outgoing_env_scheme \<Rightarrow> nat \<Rightarrow> uuid \<Rightarrow> oauth_provider_create \<Rightarrow> string \<Rightarrow> oauth_provider" where
  "new_provider env i creator_id payload client_secret =
     \<lparr>pv_id = se_uuid env i, pv_name = pc_name payload, pv_creator_id = creator_id, pv_url = pc_url payload,
      pv_client_id = pc_client_id payload, pv_client_secret = client_secret, pv_scopes = pc_scopes payload,
      pv_expire_drift_tolerance = pc_expire_drift_tolerance payload, pv_authorize_path = pc_authorize_path payload,
      pv_token_path = pc_token_path payload, pv_refresh_path = pc_refresh_path payload,
      pv_revocation_path = pc_revocation_path payload, pv_access_token_expires_in = pc_access_token_expires_in payload,
      pv_refresh_token_expires_in = pc_refresh_token_expires_in payload, pv_enabled = pc_enabled payload,
      pv_created_at = se_now env, pv_updated_at = se_now env\<rparr>"

text \<open>The integer columns have 32 bits; a number outside is a \<open>DataError\<close>, which nobody catches.\<close>

definition provider_fits :: "oauth_provider \<Rightarrow> bool" where
  "provider_fits r =
     (\<bar>pv_expire_drift_tolerance r\<bar> < 2 ^ 31 \<and> \<bar>pv_access_token_expires_in r\<bar> < 2 ^ 31 \<and>
      \<bar>pv_refresh_token_expires_in r\<bar> < 2 ^ 31)"

definition provider_violations :: "'z outgoing_db_scheme \<Rightarrow> oauth_provider list \<Rightarrow> oauth_provider \<Rightarrow> violation list" where
  "provider_violations db others r =
     (if pv_id r \<in> pv_id ` set others
      then [UniqueViolation ''oauth_providers'' ''oauth_providers_pkey'' (uuid_str (pv_id r))] else []) @
     (if pv_name r \<in> pv_name ` set others
      then [UniqueViolation ''oauth_providers'' ''ix_oauth_providers_name'' (pv_name r)] else []) @
     (if pv_creator_id r \<notin> u_id ` set (td_users db)
      then [ForeignKeyViolation ''oauth_providers'' ''fk_oauth_providers_creator_id_users'' (uuid_str (pv_creator_id r))]
      else [])"

text \<open>A flush that a \<open>DataError\<close> ends before the constraints are looked at.\<close>

definition flush_provider ::
    "'y outgoing_env_scheme \<Rightarrow> string \<Rightarrow> oauth_provider \<Rightarrow> violation list \<Rightarrow> 'z outgoing_db_scheme \<Rightarrow>
     svc_error + oauth_provider \<times> 'z outgoing_db_scheme" where
  "flush_provider env name r violations db' =
     (if \<not> provider_fits r then Inl (Raised500 ValueErr)
      else catch_integrity (\<lambda>_. ConflictError name) (flush_rows env violations (r, db')))"

definition create_provider ::
    "'y outgoing_env_scheme \<Rightarrow> uuid \<Rightarrow> nat \<Rightarrow> sfilter \<Rightarrow> oauth_provider_create \<Rightarrow> 'z outgoing_db_scheme \<Rightarrow>
     svc_error + oauth_provider \<times> 'z outgoing_db_scheme" where
  "create_provider env creator_id i perm_filter payload db =
     bindR (encrypt_secret env i (pc_client_secret payload)) (\<lambda>client_secret.
       let r = new_provider env i creator_id payload client_secret in
       bindR (check_scope perm_filter (provider_attrs r)) (\<lambda>_.
         flush_provider env (pc_name payload) r (provider_violations db (xd_providers db) r)
           (db\<lparr>xd_providers := xd_providers db @ [r]\<rparr>)))"

definition get_provider ::
    "'y outgoing_env_scheme \<Rightarrow> sfilter \<Rightarrow> uuid \<Rightarrow> 'z outgoing_db_scheme \<Rightarrow> svc_error + oauth_provider" where
  "get_provider env perm_filter provider_id db =
     scoped_get (se_ev env) (sql_tables db) perm_filter provider_attrs pv_id (xd_providers db) provider_id"

definition get_many_providers ::
    "'y outgoing_env_scheme \<Rightarrow> sfilter \<Rightarrow> uuid list \<Rightarrow> 'z outgoing_db_scheme \<Rightarrow> svc_error + oauth_provider option list" where
  "get_many_providers env perm_filter provider_ids db =
     scoped_get_many (se_ev env) (sql_tables db) perm_filter provider_attrs pv_id (xd_providers db) provider_ids"

definition search_providers ::
    "'y outgoing_env_scheme \<Rightarrow> sfilter \<Rightarrow> 'z outgoing_db_scheme \<Rightarrow> uuid option \<Rightarrow> nat \<Rightarrow> sfilter option \<Rightarrow>
     svc_error + oauth_provider list \<times> uuid option" where
  "search_providers env perm_filter db cursor limit search_filter =
     scoped_search (se_ev env) (sql_tables db) perm_filter provider_attrs pv_id (xd_providers db) cursor limit search_filter"

definition count_providers ::
    "'y outgoing_env_scheme \<Rightarrow> sfilter \<Rightarrow> 'z outgoing_db_scheme \<Rightarrow> sfilter option \<Rightarrow> svc_error + nat" where
  "count_providers env perm_filter db search_filter =
     scoped_count (se_ev env) (sql_tables db) perm_filter provider_attrs (xd_providers db) search_filter"

definition set_provider :: "'z outgoing_db_scheme \<Rightarrow> oauth_provider \<Rightarrow> 'z outgoing_db_scheme" where
  "set_provider db r = db\<lparr>xd_providers := map (\<lambda>x. if pv_id x = pv_id r then r else x) (xd_providers db)\<rparr>"

definition apply_provider_update :: "oauth_provider_update \<Rightarrow> string option \<Rightarrow> oauth_provider \<Rightarrow> oauth_provider" where
  "apply_provider_update payload client_secret r =
     set_if (pup_enabled payload) (\<lambda>b x. x\<lparr>pv_enabled := b\<rparr>)
    (set_if (pup_refresh_token_expires_in payload) (\<lambda>n x. x\<lparr>pv_refresh_token_expires_in := n\<rparr>)
    (set_if (pup_access_token_expires_in payload) (\<lambda>n x. x\<lparr>pv_access_token_expires_in := n\<rparr>)
    (set_if (pup_revocation_path payload) (\<lambda>p x. x\<lparr>pv_revocation_path := Some p\<rparr>)
    (set_if (pup_refresh_path payload) (\<lambda>p x. x\<lparr>pv_refresh_path := p\<rparr>)
    (set_if (pup_token_path payload) (\<lambda>p x. x\<lparr>pv_token_path := p\<rparr>)
    (set_if (pup_authorize_path payload) (\<lambda>p x. x\<lparr>pv_authorize_path := p\<rparr>)
    (set_if (pup_expire_drift_tolerance payload) (\<lambda>n x. x\<lparr>pv_expire_drift_tolerance := n\<rparr>)
    (set_if (pup_scopes payload) (\<lambda>l x. x\<lparr>pv_scopes := l\<rparr>)
    (set_if client_secret (\<lambda>s x. x\<lparr>pv_client_secret := s\<rparr>)
    (set_if (pup_client_id payload) (\<lambda>s x. x\<lparr>pv_client_id := s\<rparr>)
    (set_if (pup_url payload) (\<lambda>s x. x\<lparr>pv_url := s\<rparr>)
    (set_if (pup_name payload) (\<lambda>s x. x\<lparr>pv_name := s\<rparr>) r))))))))))))"

text \<open>
  An update that changes no column sends nothing. \<open>_flush_update\<close> names the conflict by the new name, or by
  the id when there is none.
\<close>

definition update_provider ::
    "'y outgoing_env_scheme \<Rightarrow> sfilter \<Rightarrow> uuid \<Rightarrow> oauth_provider_update \<Rightarrow> 'z outgoing_db_scheme \<Rightarrow>
     svc_error + oauth_provider \<times> 'z outgoing_db_scheme" where
  "update_provider env perm_filter provider_id payload db =
     bindR (get_provider env perm_filter provider_id db) (\<lambda>provider.
     bindR (case pup_client_secret payload of None \<Rightarrow> Inr None
            | Some s \<Rightarrow> bindR (encrypt_secret env 0 s) (\<lambda>c. Inr (Some c))) (\<lambda>client_secret.
       let r = apply_provider_update payload client_secret provider
       in if r = provider then Inr (provider, db)
          else
            let r' = r\<lparr>pv_updated_at := se_now env\<rparr>;
                name = (case pup_name payload of Some n \<Rightarrow> if n = [] then uuid_str provider_id else n | None \<Rightarrow> uuid_str provider_id)
            in flush_provider env name r'
                 (provider_violations db (filter (\<lambda>x. pv_id x \<noteq> provider_id) (xd_providers db)) r') (set_provider db r')))"

text \<open>A provider with sessions cannot be deleted: their foreign key is \<open>RESTRICT\<close>.\<close>

definition delete_provider ::
    "'y outgoing_env_scheme \<Rightarrow> sfilter \<Rightarrow> uuid \<Rightarrow> 'z outgoing_db_scheme \<Rightarrow> svc_error + 'z outgoing_db_scheme" where
  "delete_provider env perm_filter provider_id db =
     bindR (get_provider env perm_filter provider_id db) (\<lambda>provider.
       catch_integrity (\<lambda>_. PermissionScopeError)
         (flush_rows env
           (if provider_id \<in> ss_oauth_provider_id ` set (xd_sessions db)
            then [ForeignKeyViolation ''oauth_sessions'' ''fk_oauth_sessions_oauth_provider_id_oauth_providers'' (uuid_str provider_id)]
            else [])
           (db\<lparr>xd_providers := filter (\<lambda>x. pv_id x \<noteq> provider_id) (xd_providers db)\<rparr>)))"

definition apply_provider_batch ::
    "'y outgoing_env_scheme \<Rightarrow> uuid \<Rightarrow> (uuid, oauth_provider_create, oauth_provider_update) batch_op list \<Rightarrow>
     (action \<Rightarrow> sfilter option) \<Rightarrow> 'z outgoing_db_scheme \<Rightarrow>
     svc_error + oauth_provider option list \<times> 'z outgoing_db_scheme" where
  "apply_provider_batch env creator_id operations perm_filters db =
     batch_loop (create_provider env creator_id) (update_provider env) (delete_provider env) perm_filters 0 operations db"

text \<open>\<open>to_read\<close>: the client secret is never shown.\<close>

definition MASKED_SECRET :: string where
  "MASKED_SECRET = ''**********''"

definition provider_to_read :: "oauth_provider \<Rightarrow> oauth_provider" where
  "provider_to_read r = r\<lparr>pv_client_secret := MASKED_SECRET\<rparr>"

section \<open>Laws\<close>

text \<open>The constraints of the two tables.\<close>

definition outgoing_integrity :: "'z outgoing_db_scheme \<Rightarrow> bool" where
  "outgoing_integrity db =
     (distinct (map pv_id (xd_providers db)) \<and> distinct (map pv_name (xd_providers db)) \<and> distinct (map ss_id (xd_sessions db)) \<and>
      (\<forall>r \<in> set (xd_providers db). pv_creator_id r \<in> u_id ` set (td_users db) \<and> provider_fits r) \<and>
      (\<forall>s \<in> set (xd_sessions db). ss_creator_id s \<in> u_id ` set (td_users db) \<and>
         ss_oauth_provider_id s \<in> pv_id ` set (xd_providers db)))"

interpretation provider_table: governed_table provider_attrs pv_id VUuid
  by unfold_locales simp

interpretation session_table: governed_table session_attrs ss_id VUuid
  by unfold_locales simp

lemma provider_violations_Nil:
  "provider_violations db others r = [] \<longleftrightarrow> pv_id r \<notin> pv_id ` set others \<and> pv_name r \<notin> pv_name ` set others \<and>
     pv_creator_id r \<in> u_id ` set (td_users db)"
  by (simp add: provider_violations_def)

lemma flush_provider_Inr:
  "flush_provider env name r vs db' = Inr x \<longleftrightarrow> provider_fits r \<and> vs = [] \<and> x = (r, db')"
  by (auto simp: flush_provider_def flush_Inr_iff)

lemma apply_provider_update_keeps [simp]:
  "pv_id (apply_provider_update p c r) = pv_id r" "pv_creator_id (apply_provider_update p c r) = pv_creator_id r"
  by (simp_all add: apply_provider_update_def set_if_def split: option.splits)

lemma create_provider_Inr:
  assumes "create_provider env u i f p db = Inr (r, db')"
  shows "db' = db\<lparr>xd_providers := xd_providers db @ [r]\<rparr> \<and> provider_violations db (xd_providers db) r = [] \<and> provider_fits r \<and>
    matches f (plain_item (unsaved (provider_attrs r))) = Inr True \<and>
    (\<exists>c. encrypt_secret env i (pc_client_secret p) = Inr c \<and> r = new_provider env i u p c)"
  using assms by (auto simp: create_provider_def Let_def bindR_Inr_iff flush_provider_Inr)

lemma update_provider_Inr:
  assumes "distinct (map pv_id (xd_providers db))" "update_provider env f k p db = Inr (r, db')"
  shows "\<exists>r0 \<in> set (xd_providers db). pv_id r0 = k \<and> pv_id r = k \<and> in_scope (se_ev env) (sql_tables db) f (provider_attrs r0) \<and>
    db' = set_provider db r \<and> pv_creator_id r = pv_creator_id r0 \<and>
    (r = r0 \<or> provider_fits r \<and> provider_violations db (filter (\<lambda>x. pv_id x \<noteq> k) (xd_providers db)) r = [])"
proof -
  obtain r0 c where g: "get_provider env f k db = Inr r0"
    and u: "(let r = apply_provider_update p c r0 in if r = r0 then Inr (r0, db)
       else let r' = r\<lparr>pv_updated_at := se_now env\<rparr>;
                name = (case pup_name p of Some n \<Rightarrow> if n = [] then uuid_str k else n | None \<Rightarrow> uuid_str k)
            in flush_provider env name r'
                 (provider_violations db (filter (\<lambda>x. pv_id x \<noteq> k) (xd_providers db)) r') (set_provider db r')) = Inr (r, db')"
    using assms(2) unfolding update_provider_def by (elim bindR_InrE)
  have r0: "r0 \<in> set (xd_providers db)" "pv_id r0 = k" "in_scope (se_ev env) (sql_tables db) f (provider_attrs r0)"
    using g by (simp_all add: get_provider_def provider_table.get_Inr_iff [OF assms(1)])
  have same: "set_provider db r0 = db" using replace_self [OF assms(1) r0(1)] by (simp add: set_provider_def)
  from u have "r = r0 \<and> db' = db \<or> provider_fits r \<and> db' = set_provider db r \<and>
      provider_violations db (filter (\<lambda>x. pv_id x \<noteq> k) (xd_providers db)) r = [] \<and> pv_id r = k \<and> pv_creator_id r = pv_creator_id r0"
    by (auto simp: Let_def flush_provider_Inr r0(2) split: if_split_asm)
  then show ?thesis using same r0 by (intro bexI [of _ r0]) auto
qed

lemma delete_provider_Inr:
  assumes "distinct (map pv_id (xd_providers db))" "delete_provider env f k db = Inr db'"
  shows "db' = db\<lparr>xd_providers := filter (\<lambda>x. pv_id x \<noteq> k) (xd_providers db)\<rparr> \<and>
    k \<notin> ss_oauth_provider_id ` set (xd_sessions db) \<and>
    (\<exists>r0 \<in> set (xd_providers db). pv_id r0 = k \<and> in_scope (se_ev env) (sql_tables db) f (provider_attrs r0))"
  using assms(2)
  by (auto simp: delete_provider_def get_provider_def provider_table.get_Inr_iff [OF assms(1)] flush_Inr_iff bindR_Inr_iff split: if_splits)

lemma outgoing_integrity_delete:
  "outgoing_integrity db \<Longrightarrow> k \<notin> ss_oauth_provider_id ` set (xd_sessions db) \<Longrightarrow>
     outgoing_integrity (db\<lparr>xd_providers := filter (\<lambda>x. pv_id x \<noteq> k) (xd_providers db)\<rparr>)"
proof -
  assume i: "outgoing_integrity db" and k: "k \<notin> ss_oauth_provider_id ` set (xd_sessions db)"
  have "ss_oauth_provider_id s \<in> pv_id ` {x \<in> set (xd_providers db). pv_id x \<noteq> k}" if s: "s \<in> set (xd_sessions db)" for s
  proof -
    obtain x where "x \<in> set (xd_providers db)" "pv_id x = ss_oauth_provider_id s"
      using i s by (auto simp: outgoing_integrity_def)
    moreover from this(2) have "pv_id x \<noteq> k" using k s by auto
    ultimately show ?thesis by force
  qed
  then show ?thesis using i by (simp add: outgoing_integrity_def distinct_map_filter)
qed

lemma outgoing_integrity_set:
  assumes "outgoing_integrity db" "provider_fits r" "r0 \<in> set (xd_providers db)" "pv_id r0 = pv_id r"
    and "provider_violations db (filter (\<lambda>x. pv_id x \<noteq> pv_id r) (xd_providers db)) r = []"
  shows "outgoing_integrity (set_provider db r)"
proof -
  let ?new = "map (\<lambda>x. if pv_id x = pv_id r then r else x) (xd_providers db)"
  have d: "distinct (map pv_id (xd_providers db))" "distinct (map pv_name (xd_providers db))"
    using assms(1) by (simp_all add: outgoing_integrity_def)
  have v: "pv_name r \<notin> pv_name ` {x \<in> set (xd_providers db). pv_id x \<noteq> pv_id r}" "pv_creator_id r \<in> u_id ` set (td_users db)"
    using assms(5) by (simp_all add: provider_violations_Nil)
  have ids: "map pv_id ?new = map pv_id (xd_providers db)" by simp
  have names: "distinct (map pv_name ?new)" by (rule distinct_replace_fresh [OF d v(1)])
  have "pv_id ` set ?new = pv_id ` set (xd_providers db)" using arg_cong [OF ids, of set] by (simp only: set_map)
  moreover have "\<forall>x \<in> set ?new. pv_creator_id x \<in> u_id ` set (td_users db) \<and> provider_fits x"
    using assms(1,2) v(2) by (auto simp: outgoing_integrity_def)
  moreover have "distinct (map pv_id ?new)" unfolding ids by (rule d(1))
  ultimately show ?thesis using assms(1) names unfolding outgoing_integrity_def set_provider_def by simp
qed

interpretation provider_service: governed_service provider_attrs pv_id VUuid "\<lambda>r. unsaved (provider_attrs r)" xd_providers
    "\<lambda>db f r. in_scope (se_ev env) (sql_tables db) f (provider_attrs r)" outgoing_integrity
    "create_provider env u" "update_provider env" "delete_provider env" for env u
proof (unfold_locales, goal_cases)
  case (1 db)
  then show ?case by (simp add: outgoing_integrity_def)
next
  case (2 db i f p r db')
  then show ?case using create_provider_Inr [OF 2(2)] by (auto simp: outgoing_integrity_def provider_violations_Nil)
next
  case (3 db f k x r db')
  then have d: "distinct (map pv_id (xd_providers db))" by (simp add: outgoing_integrity_def)
  obtain r0 where r0: "r0 \<in> set (xd_providers db)" "pv_id r0 = k" "pv_id r = k"
      "in_scope (se_ev env) (sql_tables db) f (provider_attrs r0)" "db' = set_provider db r"
      "r = r0 \<or> provider_fits r \<and> provider_violations db (filter (\<lambda>x. pv_id x \<noteq> k) (xd_providers db)) r = []"
    using update_provider_Inr [OF d 3(2)] by blast
  have "outgoing_integrity db'"
  proof (cases "r = r0")
    case True
    then show ?thesis using 3(1) replace_self [OF d r0(1)] by (simp add: r0(5) set_provider_def)
  next
    case False
    then show ?thesis unfolding r0(5) using r0 by (intro outgoing_integrity_set [OF 3(1)]) auto
  qed
  then show ?case using r0 by (auto simp: set_provider_def)
next
  case (4 db f k db')
  then have "distinct (map pv_id (xd_providers db))" by (simp add: outgoing_integrity_def)
  from delete_provider_Inr [OF this 4(2)] outgoing_integrity_delete [OF 4(1), of k] show ?case by auto
qed

end
