(* ===== verification/OAuthSessionService.thy ===== *)
theory OAuthSessionService
  imports OAuthProviderService
begin

text \<open>
  \<open>oauth/oauth_session_service.py\<close>: the login flow that stores a user's tokens at an external provider, the lazy and
  the explicit refresh, and the operations on the stored sessions. A refresh works on an object that was loaded before
  it waited for the row lock: the session's identity map returns that object unchanged for the row it locks, so the
  object (\<open>seen\<close>) and the rows at the time of the lock are two arguments.
\<close>

section \<open>Errors and the token endpoint\<close>

text \<open>\<open>SessionRaised\<close> and \<open>SessionDbApiError\<close> are exceptions that no handler names.\<close>

datatype session_error =
    SessionNotFound
  | SessionUnrecoverable uuid
  | ProviderDisabled
  | ProviderError string
  | SessionLockTimeout
  | SessionDbApiError
  | SessionRaised svc_error

definition uncaught :: "svc_error + 'a \<Rightarrow> session_error + 'a" where
  "uncaught r = (case r of Inl e \<Rightarrow> Inl (SessionRaised e) | Inr x \<Rightarrow> Inr x)"

lemma uncaught_Inr [simp]: "uncaught r = Inr x \<longleftrightarrow> r = Inr x"
  by (auto simp: uncaught_def split: sum.splits)

lemma uncaught_simp [simp]: "uncaught (Inr x) = Inr x"
  by (simp add: uncaught_def)

definition encrypt_token :: "'y outgoing_env_scheme \<Rightarrow> nat \<Rightarrow> string \<Rightarrow> session_error + string" where
  "encrypt_token env i value = uncaught (encrypt_secret env i value)"

definition decrypt_token :: "'y outgoing_env_scheme \<Rightarrow> string \<Rightarrow> session_error + string" where
  "decrypt_token env ciphertext = uncaught (enc_py (decrypt_value (se_crypto env) (xe_enc env) ciphertext))"

text \<open>A token that is truthy but no string is outside the model.\<close>

definition token_field :: "payload \<Rightarrow> string \<Rightarrow> session_error + string option" where
  "token_field p key =
     (case text_field p key of Inr x \<Rightarrow> Inr x | Inl _ \<Rightarrow> Inl (SessionRaised (Raised500 NotModelled)))"

text \<open>\<open>_access_expiry\<close> and \<open>_refresh_expiry\<close>; the second never uses its fallback.\<close>

definition session_access_expiry :: "datetime \<Rightarrow> payload \<Rightarrow> int \<Rightarrow> int \<Rightarrow> datetime" where
  "session_access_expiry now token_response drift_seconds fallback_expires_in =
     (case positive_claim ''expires_in'' token_response of
        Some expires_in \<Rightarrow> now + seconds (max 0 (expires_in - drift_seconds))
      | None \<Rightarrow>
          (case positive_claim ''expires_at'' token_response of
             Some expires_at \<Rightarrow> from_epoch (max 0 (expires_at - drift_seconds))
           | None \<Rightarrow> now + seconds (max 1 (fallback_expires_in - drift_seconds))))"

definition session_refresh_expiry :: "datetime \<Rightarrow> payload \<Rightarrow> int \<Rightarrow> int \<Rightarrow> datetime option" where
  "session_refresh_expiry now token_response drift_seconds fallback_expires_in =
     (case positive_claim ''refresh_expires_in'' token_response of
        Some expires_in \<Rightarrow> Some (now + seconds (max 0 (expires_in - drift_seconds)))
      | None \<Rightarrow>
          (case positive_claim ''refresh_expires_at'' token_response of
             Some expires_at \<Rightarrow> Some (from_epoch (max 0 (expires_at - drift_seconds)))
           | None \<Rightarrow> None))"

definition provider_token_post ::
    "'y outgoing_env_scheme \<Rightarrow> oauth_provider \<Rightarrow> (string \<times> string) list \<Rightarrow> session_error + payload" where
  "provider_token_post env provider data =
     (case xe_post env (join_url (pv_url provider) (pv_token_path provider) []) data of
        Unreachable \<Rightarrow> Inl (ProviderError ''unreachable'')
      | Unreadable status e \<Rightarrow>
          if status \<noteq> 200 then Inl (ProviderError ''status'') else Inl (SessionRaised (Raised500 e))
      | Reply status body \<Rightarrow>
          if status \<noteq> 200 then Inl (ProviderError ''status'')
          else if map_of body ''access_token'' = None then Inl (ProviderError ''missing access_token'')
          else Inr body)"

definition exchange_code_data :: "oauth_provider \<Rightarrow> string \<Rightarrow> string \<Rightarrow> string \<Rightarrow> string \<Rightarrow> (string \<times> string) list" where
  "exchange_code_data provider client_secret code verifier callback_url =
     [(''grant_type'', ''authorization_code''), (''code'', code), (''redirect_uri'', callback_url),
      (''client_id'', pv_client_id provider), (''client_secret'', client_secret), (''code_verifier'', verifier)]"

definition exchange_code ::
    "'y outgoing_env_scheme \<Rightarrow> oauth_provider \<Rightarrow> string \<Rightarrow> string \<Rightarrow> string \<Rightarrow> session_error + payload" where
  "exchange_code env provider code verifier callback_url =
     bindR (decrypt_token env (pv_client_secret provider)) (\<lambda>client_secret.
       provider_token_post env provider (exchange_code_data provider client_secret code verifier callback_url))"

definition refresh_data :: "oauth_provider \<Rightarrow> string \<Rightarrow> string \<Rightarrow> (string \<times> string) list" where
  "refresh_data provider client_secret refresh_token =
     [(''grant_type'', ''refresh_token''), (''refresh_token'', refresh_token), (''client_id'', pv_client_id provider),
      (''client_secret'', client_secret)]"

definition refresh_with_provider :: "'y outgoing_env_scheme \<Rightarrow> oauth_provider \<Rightarrow> string \<Rightarrow> session_error + payload" where
  "refresh_with_provider env provider refresh_token =
     bindR (decrypt_token env (pv_client_secret provider)) (\<lambda>client_secret.
       provider_token_post env provider (refresh_data provider client_secret refresh_token))"

section \<open>The login flow\<close>

definition PENDING_AUTH_TTL :: int where
  "PENDING_AUTH_TTL = seconds 600"

definition pending_claims ::
    "uuid \<Rightarrow> uuid \<Rightarrow> string \<Rightarrow> string option \<Rightarrow> string list \<Rightarrow> string \<Rightarrow> string option \<Rightarrow> string option \<Rightarrow> payload" where
  "pending_claims user_id provider_id redirect_uri client_state scopes idp_verifier client_code_challenge client_code_method =
     [(''sub'', VStr (uuid_str user_id)), (''pid'', VStr (uuid_str provider_id)), (''ruri'', VStr redirect_uri),
      (''ivf'', VStr idp_verifier)] @
     (case client_state of None \<Rightarrow> [] | Some s \<Rightarrow> [(''cst'', VStr s)]) @
     (if scopes = [] then [] else [(''scp'', VStr (join_with '' '' (sort (remdups scopes))))]) @
     (case client_code_challenge of None \<Rightarrow> []
      | Some c \<Rightarrow> [(''cc'', VStr c), (''cm'', VStr (case client_code_method of None \<Rightarrow> ''plain''
           | Some m \<Rightarrow> if m = [] then ''plain'' else m))])"

definition mint_session_state :: "'y outgoing_env_scheme \<Rightarrow> payload \<Rightarrow> session_error + string" where
  "mint_session_state env payload =
     uncaught (enc_py (create_jwe_token (se_crypto env) (xe_enc env) (se_now env) (xe_nonce env 0) payload (Some PENDING_AUTH_TTL)))"

text \<open>Any failure to decrypt is an invalid state; the expiry of the token is not looked at.\<close>

definition decode_session_state :: "'y outgoing_env_scheme \<Rightarrow> string \<Rightarrow> session_error + payload" where
  "decode_session_state env state =
     (case decrypt_jwe_token (se_crypto env) (xe_enc env) state of
        Inl _ \<Rightarrow> Inl (ProviderError ''invalid state'')
      | Inr payload \<Rightarrow>
          if or_none (map_of payload ''ivf'') = VNone \<or> or_none (map_of payload ''sub'') = VNone \<or>
             or_none (map_of payload ''pid'') = VNone
          then Inl (ProviderError ''invalid state'')
          else Inr payload)"

text \<open>The scopes asked for: those of the request, or else those of the provider.\<close>

definition requested_scopes :: "oauth_provider \<Rightarrow> string option \<Rightarrow> string list" where
  "requested_scopes provider scope =
     (case scope of None \<Rightarrow> pv_scopes provider | Some s \<Rightarrow> if s = [] then pv_scopes provider else split_space [] s)"

definition build_authorize_url ::
    "'y outgoing_env_scheme \<Rightarrow> oauth_provider \<Rightarrow> uuid \<Rightarrow> string \<Rightarrow> string option \<Rightarrow> string option \<Rightarrow> string option \<Rightarrow>
     string option \<Rightarrow> string \<Rightarrow> session_error + string" where
  "build_authorize_url env provider user_id redirect_uri client_state scope code_challenge code_challenge_method callback_url =
     (if \<not> pv_enabled provider then Inl ProviderDisabled
      else
        let verifier = xe_verifier env;
            scopes = requested_scopes provider scope
        in bindR (uncaught (svc_py (derive_code_challenge (xe_libs env) verifier ''S256''))) (\<lambda>idp_challenge.
           bindR (mint_session_state env (pending_claims user_id (pv_id provider) redirect_uri client_state scopes verifier
                    code_challenge code_challenge_method)) (\<lambda>state.
             Inr (join_url (pv_url provider) (pv_authorize_path provider)
               [(''response_type'', ''code''), (''client_id'', pv_client_id provider), (''redirect_uri'', callback_url),
                (''state'', state), (''scope'', join_with '' '' scopes), (''code_challenge'', idp_challenge),
                (''code_challenge_method'', ''S256'')]))))"

definition session_violations :: "'z outgoing_db_scheme \<Rightarrow> oauth_session \<Rightarrow> violation list" where
  "session_violations db s =
     (if ss_id s \<in> ss_id ` set (xd_sessions db)
      then [UniqueViolation ''oauth_sessions'' ''oauth_sessions_pkey'' (uuid_str (ss_id s))] else []) @
     (if ss_oauth_provider_id s \<notin> pv_id ` set (xd_providers db)
      then [ForeignKeyViolation ''oauth_sessions'' ''fk_oauth_sessions_oauth_provider_id_oauth_providers''
              (uuid_str (ss_oauth_provider_id s))] else []) @
     (if ss_creator_id s \<notin> u_id ` set (td_users db)
      then [ForeignKeyViolation ''oauth_sessions'' ''fk_oauth_sessions_creator_id_users'' (uuid_str (ss_creator_id s))] else [])"

definition new_session ::
    "'y outgoing_env_scheme \<Rightarrow> oauth_provider \<Rightarrow> uuid \<Rightarrow> string \<Rightarrow> string \<Rightarrow> payload \<Rightarrow> oauth_session" where
  "new_session env provider creator_id access_token refresh_token token_response =
     \<lparr>ss_id = se_uuid env 0, ss_oauth_provider_id = pv_id provider, ss_creator_id = creator_id, ss_refresh_token = refresh_token,
      ss_access_token = access_token,
      ss_access_token_expires_at = session_access_expiry (se_now env) token_response (pv_expire_drift_tolerance provider)
        (pv_access_token_expires_in provider),
      ss_refresh_token_expires_at = session_refresh_expiry (se_now env) token_response (pv_expire_drift_tolerance provider)
        (pv_refresh_token_expires_in provider),
      ss_tolerate_invalid = False, ss_enabled = True, ss_created_at = se_now env, ss_updated_at = se_now env\<rparr>"

text \<open>\<open>uuid.UUID\<close> of a claim.\<close>

definition claim_uuid :: "pyval option \<Rightarrow> session_error + uuid" where
  "claim_uuid v =
     (case v of
        Some (VStr s) \<Rightarrow> (case uuid_parse s of None \<Rightarrow> Inl (SessionRaised (Raised500 ValueErr)) | Some u \<Rightarrow> Inr u)
      | _ \<Rightarrow> Inl (SessionRaised (Raised500 (AttributeErr ''replace''))))"

definition claim_text :: "pyval option \<Rightarrow> session_error + string" where
  "claim_text v = (case v of Some (VStr s) \<Rightarrow> Inr s | _ \<Rightarrow> Inl (SessionRaised (Raised500 NotModelled)))"

definition handle_session_callback ::
    "'y outgoing_env_scheme \<Rightarrow> oauth_provider \<Rightarrow> string \<Rightarrow> string \<Rightarrow> string \<Rightarrow> 'z outgoing_db_scheme \<Rightarrow>
     session_error + oauth_session \<times> 'z outgoing_db_scheme" where
  "handle_session_callback env provider code state callback_url db =
     bindR (decode_session_state env state) (\<lambda>pending.
       if map_of pending ''pid'' \<noteq> Some (VStr (uuid_str (pv_id provider))) then Inl (ProviderError ''state does not match provider'')
       else
         bindR (claim_text (map_of pending ''ivf'')) (\<lambda>verifier.
         bindR (exchange_code env provider code verifier callback_url) (\<lambda>token_response.
         bindR (token_field token_response ''access_token'') (\<lambda>access.
         case access of None \<Rightarrow> Inl (ProviderError ''provider token response missing access_token'')
         | Some access_plain \<Rightarrow>
         bindR (token_field token_response ''refresh_token'') (\<lambda>refresh.
         case refresh of None \<Rightarrow> Inl (ProviderError ''provider token response missing refresh_token'')
         | Some refresh_plain \<Rightarrow>
         bindR (claim_uuid (map_of pending ''sub'')) (\<lambda>creator_id.
         bindR (encrypt_token env 0 access_plain) (\<lambda>access_token.
         bindR (encrypt_token env 1 refresh_plain) (\<lambda>refresh_token.
           let s = new_session env provider creator_id access_token refresh_token token_response
           in uncaught (catch_integrity IntegrityErr
                (flush_rows env (session_violations db s) (s, db\<lparr>xd_sessions := xd_sessions db @ [s]\<rparr>)))))))))))"

section \<open>Refresh\<close>

text \<open>
  \<open>SELECT ... FOR UPDATE\<close> by id. The row's presence is read from the table; the object is the one the session holds.
  The timeout of the lock is no \<open>OperationalError\<close> under asyncpg, so \<open>SessionLockTimeout\<close> is never raised.
\<close>

definition lock_for_refresh :: "bool \<Rightarrow> oauth_session \<Rightarrow> 'z outgoing_db_scheme \<Rightarrow> session_error + oauth_session option" where
  "lock_for_refresh granted seen db =
     (if \<not> granted then Inl SessionDbApiError
      else Inr (if ss_id seen \<in> ss_id ` set (xd_sessions db) then Some seen else None))"

definition is_refresh_expired :: "datetime \<Rightarrow> oauth_session \<Rightarrow> session_error + bool" where
  "is_refresh_expired now s =
     (case ss_refresh_token_expires_at s of
        None \<Rightarrow> Inr False
      | Some t \<Rightarrow> if now < t then Inr False
          else if \<not> ss_tolerate_invalid s then Inl (SessionUnrecoverable (ss_id s)) else Inr True)"

text \<open>A flush writes the columns whose value on the object differs from the value it was loaded with.\<close>

definition net_change :: "'a \<Rightarrow> 'a \<Rightarrow> 'a \<Rightarrow> 'a" where
  "net_change loaded new stored = (if new = loaded then stored else new)"

definition flush_session :: "datetime \<Rightarrow> oauth_session \<Rightarrow> oauth_session \<Rightarrow> oauth_session \<Rightarrow> oauth_session" where
  "flush_session now seen s stored =
     (if s = seen then stored
      else stored\<lparr>ss_access_token := net_change (ss_access_token seen) (ss_access_token s) (ss_access_token stored),
        ss_access_token_expires_at := net_change (ss_access_token_expires_at seen) (ss_access_token_expires_at s)
          (ss_access_token_expires_at stored),
        ss_refresh_token := net_change (ss_refresh_token seen) (ss_refresh_token s) (ss_refresh_token stored),
        ss_refresh_token_expires_at := net_change (ss_refresh_token_expires_at seen) (ss_refresh_token_expires_at s)
          (ss_refresh_token_expires_at stored),
        ss_updated_at := now\<rparr>)"

definition do_refresh ::
    "'y outgoing_env_scheme \<Rightarrow> oauth_session \<Rightarrow> oauth_provider \<Rightarrow> 'z outgoing_db_scheme \<Rightarrow>
     session_error + oauth_session \<times> 'z outgoing_db_scheme" where
  "do_refresh env seen provider db =
     bindR (decrypt_token env (ss_refresh_token seen)) (\<lambda>refresh_plain.
     bindR (refresh_with_provider env provider refresh_plain) (\<lambda>token_response.
     bindR (token_field token_response ''access_token'') (\<lambda>access.
     case access of None \<Rightarrow> Inl (ProviderError ''provider refresh response missing access_token'')
     | Some new_access \<Rightarrow>
     bindR (token_field token_response ''refresh_token'') (\<lambda>refresh.
     let new_refresh = (case refresh of None \<Rightarrow> refresh_plain | Some r \<Rightarrow> r);
         drift = pv_expire_drift_tolerance provider in
     bindR (encrypt_token env 0 new_access) (\<lambda>access_token.
     bindR (encrypt_token env 1 new_refresh) (\<lambda>refresh_token.
       let s = seen\<lparr>ss_access_token := access_token,
             ss_access_token_expires_at := session_access_expiry (se_now env) token_response drift (pv_access_token_expires_in provider),
             ss_refresh_token := refresh_token,
             ss_refresh_token_expires_at := (case session_refresh_expiry (se_now env) token_response drift
                 (pv_refresh_token_expires_in provider) of None \<Rightarrow> ss_refresh_token_expires_at seen | Some t \<Rightarrow> Some t)\<rparr>
       in Inr (s, db\<lparr>xd_sessions := map (\<lambda>x. if ss_id x = ss_id seen then flush_session (se_now env) seen s x else x)
            (xd_sessions db)\<rparr>)))))))"

definition refresh_if_needed ::
    "'y outgoing_env_scheme \<Rightarrow> bool \<Rightarrow> oauth_session \<Rightarrow> oauth_provider \<Rightarrow> 'z outgoing_db_scheme \<Rightarrow>
     session_error + string option \<times> 'z outgoing_db_scheme" where
  "refresh_if_needed env granted seen provider db =
     bindR (lock_for_refresh granted seen db) (\<lambda>locked.
       case locked of None \<Rightarrow> Inr (None, db)
       | Some s \<Rightarrow>
           if se_now env + seconds (pv_expire_drift_tolerance provider) < ss_access_token_expires_at s
           then bindR (decrypt_token env (ss_access_token s)) (\<lambda>t. Inr (Some t, db))
           else
             bindR (is_refresh_expired (se_now env) s) (\<lambda>expired.
               if expired then Inr (None, db)
               else bindR (do_refresh env s provider db) (\<lambda>(s', db').
                 bindR (decrypt_token env (ss_access_token s')) (\<lambda>t. Inr (Some t, db')))))"

text \<open>The clock is read before (\<open>t0\<close>) and after (\<open>se_now\<close>) the wait for the lock.\<close>

definition get_valid_access_token ::
    "'y outgoing_env_scheme \<Rightarrow> bool \<Rightarrow> datetime \<Rightarrow> oauth_session \<Rightarrow> oauth_provider \<Rightarrow> 'z outgoing_db_scheme \<Rightarrow>
     session_error + string option \<times> 'z outgoing_db_scheme" where
  "get_valid_access_token env granted t0 seen provider db =
     (if \<not> ss_enabled seen then Inr (None, db)
      else if t0 + seconds (pv_expire_drift_tolerance provider) < ss_access_token_expires_at seen
      then bindR (decrypt_token env (ss_access_token seen)) (\<lambda>t. Inr (Some t, db))
      else refresh_if_needed env granted seen provider db)"

definition explicit_refresh ::
    "'y outgoing_env_scheme \<Rightarrow> bool \<Rightarrow> oauth_session \<Rightarrow> oauth_provider \<Rightarrow> 'z outgoing_db_scheme \<Rightarrow>
     session_error + oauth_session \<times> 'z outgoing_db_scheme" where
  "explicit_refresh env granted seen provider db =
     bindR (lock_for_refresh granted seen db) (\<lambda>locked.
       case locked of None \<Rightarrow> Inl SessionNotFound
       | Some s \<Rightarrow>
           if \<exists>t. ss_refresh_token_expires_at s = Some t \<and> t \<le> se_now env then Inl (SessionUnrecoverable (ss_id s))
           else
             bindR (do_refresh env s provider db) (\<lambda>(s', db').
               case List.find (\<lambda>x. ss_id x = ss_id s) (xd_sessions db') of
                 None \<Rightarrow> Inl (SessionRaised (Raised500 NotModelled))
               | Some stored \<Rightarrow> Inr (stored, db')))"

section \<open>Operations on stored sessions\<close>

definition get_session ::
    "'y outgoing_env_scheme \<Rightarrow> sfilter \<Rightarrow> uuid \<Rightarrow> 'z outgoing_db_scheme \<Rightarrow> svc_error + oauth_session" where
  "get_session env perm_filter session_id db =
     scoped_get (se_ev env) (sql_tables db) perm_filter session_attrs ss_id (xd_sessions db) session_id"

definition get_many_sessions ::
    "'y outgoing_env_scheme \<Rightarrow> sfilter \<Rightarrow> uuid list \<Rightarrow> 'z outgoing_db_scheme \<Rightarrow> svc_error + oauth_session option list" where
  "get_many_sessions env perm_filter session_ids db =
     scoped_get_many (se_ev env) (sql_tables db) perm_filter session_attrs ss_id (xd_sessions db) session_ids"

definition search_sessions ::
    "'y outgoing_env_scheme \<Rightarrow> sfilter \<Rightarrow> 'z outgoing_db_scheme \<Rightarrow> uuid option \<Rightarrow> nat \<Rightarrow> sfilter option \<Rightarrow>
     svc_error + oauth_session list \<times> uuid option" where
  "search_sessions env perm_filter db cursor limit search_filter =
     scoped_search (se_ev env) (sql_tables db) perm_filter session_attrs ss_id (xd_sessions db) cursor limit search_filter"

definition count_sessions ::
    "'y outgoing_env_scheme \<Rightarrow> sfilter \<Rightarrow> 'z outgoing_db_scheme \<Rightarrow> sfilter option \<Rightarrow> svc_error + nat" where
  "count_sessions env perm_filter db search_filter =
     scoped_count (se_ev env) (sql_tables db) perm_filter session_attrs (xd_sessions db) search_filter"

record oauth_session_update =
  sup_tolerate_invalid :: "bool option"
  sup_enabled :: "bool option"

definition set_session :: "'z outgoing_db_scheme \<Rightarrow> oauth_session \<Rightarrow> 'z outgoing_db_scheme" where
  "set_session db r = db\<lparr>xd_sessions := map (\<lambda>x. if ss_id x = ss_id r then r else x) (xd_sessions db)\<rparr>"

definition update_session ::
    "'y outgoing_env_scheme \<Rightarrow> sfilter \<Rightarrow> uuid \<Rightarrow> oauth_session_update \<Rightarrow> 'z outgoing_db_scheme \<Rightarrow>
     svc_error + oauth_session \<times> 'z outgoing_db_scheme" where
  "update_session env perm_filter session_id payload db =
     bindR (get_session env perm_filter session_id db) (\<lambda>s.
       let r = set_if (sup_enabled payload) (\<lambda>b x. x\<lparr>ss_enabled := b\<rparr>)
              (set_if (sup_tolerate_invalid payload) (\<lambda>b x. x\<lparr>ss_tolerate_invalid := b\<rparr>) s)
       in if r = s then Inr (s, db)
          else let r' = r\<lparr>ss_updated_at := se_now env\<rparr> in Inr (r', set_session db r'))"

definition delete_session ::
    "'y outgoing_env_scheme \<Rightarrow> sfilter \<Rightarrow> uuid \<Rightarrow> 'z outgoing_db_scheme \<Rightarrow> svc_error + 'z outgoing_db_scheme" where
  "delete_session env perm_filter session_id db =
     bindR (get_session env perm_filter session_id db) (\<lambda>s.
       Inr (db\<lparr>xd_sessions := filter (\<lambda>x. ss_id x \<noteq> session_id) (xd_sessions db)\<rparr>))"

text \<open>The batch schema has no create: sessions come from the login flow only.\<close>

definition no_create :: "nat \<Rightarrow> sfilter \<Rightarrow> unit \<Rightarrow> 's \<Rightarrow> svc_error + 'r \<times> 's" where
  "no_create i f p db = Inl (Raised500 NotModelled)"

definition apply_session_batch ::
    "'y outgoing_env_scheme \<Rightarrow> (uuid, unit, oauth_session_update) batch_op list \<Rightarrow> (action \<Rightarrow> sfilter option) \<Rightarrow>
     'z outgoing_db_scheme \<Rightarrow> svc_error + oauth_session option list \<times> 'z outgoing_db_scheme" where
  "apply_session_batch env operations perm_filters db =
     batch_loop no_create (update_session env) (delete_session env) perm_filters 0 operations db"

section \<open>Laws\<close>

lemma session_violations_Nil:
  "session_violations db s = [] \<longleftrightarrow> ss_id s \<notin> ss_id ` set (xd_sessions db) \<and>
     ss_oauth_provider_id s \<in> pv_id ` set (xd_providers db) \<and> ss_creator_id s \<in> u_id ` set (td_users db)"
  by (simp add: session_violations_def)

lemma outgoing_integrity_add:
  "outgoing_integrity db \<Longrightarrow> session_violations db s = [] \<Longrightarrow> outgoing_integrity (db\<lparr>xd_sessions := xd_sessions db @ [s]\<rparr>)"
  by (simp add: outgoing_integrity_def session_violations_Nil)

lemma outgoing_integrity_map:
  assumes "outgoing_integrity db"
    and "\<And>x. ss_id (g x) = ss_id x \<and> ss_oauth_provider_id (g x) = ss_oauth_provider_id x \<and> ss_creator_id (g x) = ss_creator_id x"
  shows "outgoing_integrity (db\<lparr>xd_sessions := map g (xd_sessions db)\<rparr>)"
  using assms by (simp add: outgoing_integrity_def comp_def)

lemma outgoing_integrity_filter:
  "outgoing_integrity db \<Longrightarrow> outgoing_integrity (db\<lparr>xd_sessions := filter P (xd_sessions db)\<rparr>)"
  by (auto simp: outgoing_integrity_def distinct_map_filter)

lemma flush_session_keeps [simp]:
  "ss_id (flush_session now seen s x) = ss_id x" "ss_oauth_provider_id (flush_session now seen s x) = ss_oauth_provider_id x"
  "ss_creator_id (flush_session now seen s x) = ss_creator_id x" "ss_enabled (flush_session now seen s x) = ss_enabled x"
  "ss_tolerate_invalid (flush_session now seen s x) = ss_tolerate_invalid x"
  by (simp_all add: flush_session_def)

lemma update_session_Inr:
  assumes "distinct (map ss_id (xd_sessions db))" "update_session env f k p db = Inr (r, db')"
  shows "\<exists>s \<in> set (xd_sessions db). ss_id s = k \<and> ss_id r = k \<and> in_scope (se_ev env) (sql_tables db) f (session_attrs s) \<and>
    db' = set_session db r \<and> ss_oauth_provider_id r = ss_oauth_provider_id s \<and> ss_creator_id r = ss_creator_id s \<and>
    ss_access_token r = ss_access_token s \<and> ss_refresh_token r = ss_refresh_token s"
proof -
  obtain s where g: "get_session env f k db = Inr s"
    using assms(2) by (auto simp: update_session_def elim!: bindR_InrE)
  then have s: "s \<in> set (xd_sessions db)" "ss_id s = k" "in_scope (se_ev env) (sql_tables db) f (session_attrs s)"
    by (simp_all add: get_session_def session_table.get_Inr_iff [OF assms(1)])
  have same: "set_session db s = db" using replace_self [OF assms(1) s(1)] by (simp add: set_session_def)
  from assms(2) have "r = s \<and> db' = db \<or> db' = set_session db r \<and> ss_id r = k \<and>
      ss_oauth_provider_id r = ss_oauth_provider_id s \<and> ss_creator_id r = ss_creator_id s \<and>
      ss_access_token r = ss_access_token s \<and> ss_refresh_token r = ss_refresh_token s"
    by (auto simp: update_session_def g Let_def set_if_def s(2) split: if_split_asm option.splits)
  then show ?thesis using same s by (intro bexI [of _ s]) auto
qed

lemma delete_session_Inr:
  assumes "distinct (map ss_id (xd_sessions db))" "delete_session env f k db = Inr db'"
  shows "db' = db\<lparr>xd_sessions := filter (\<lambda>x. ss_id x \<noteq> k) (xd_sessions db)\<rparr> \<and>
    (\<exists>s \<in> set (xd_sessions db). ss_id s = k \<and> in_scope (se_ev env) (sql_tables db) f (session_attrs s))"
  using assms(2) by (auto simp: delete_session_def get_session_def session_table.get_Inr_iff [OF assms(1)] elim!: bindR_InrE)

lemma outgoing_integrity_set_session:
  assumes "outgoing_integrity db" "s \<in> set (xd_sessions db)" "ss_id r = ss_id s"
    and "ss_oauth_provider_id r = ss_oauth_provider_id s" "ss_creator_id r = ss_creator_id s"
  shows "outgoing_integrity (set_session db r)"
proof -
  have "distinct (map ss_id (xd_sessions db))" using assms(1) by (simp add: outgoing_integrity_def)
  then have one: "x = s" if "x \<in> set (xd_sessions db)" "ss_id x = ss_id s" for x
    using that assms(2) by (auto simp: distinct_map dest: inj_onD)
  let ?new = "map (\<lambda>x. if ss_id x = ss_id r then r else x) (xd_sessions db)"
  have ids: "map ss_id ?new = map ss_id (xd_sessions db)" by simp
  have "distinct (map ss_id ?new)" unfolding ids using assms(1) by (simp add: outgoing_integrity_def)
  moreover have "\<forall>x \<in> set ?new. ss_creator_id x \<in> u_id ` set (td_users db) \<and> ss_oauth_provider_id x \<in> pv_id ` set (xd_providers db)"
    using assms one by (auto simp: outgoing_integrity_def)
  ultimately show ?thesis using assms(1) unfolding outgoing_integrity_def set_session_def by simp
qed

interpretation session_service: governed_service session_attrs ss_id VUuid "\<lambda>r. unsaved (session_attrs r)" xd_sessions
    "\<lambda>db f r. in_scope (se_ev env) (sql_tables db) f (session_attrs r)" outgoing_integrity
    no_create "update_session env" "delete_session env" for env
proof (unfold_locales, goal_cases)
  case (1 db)
  then show ?case by (simp add: outgoing_integrity_def)
next
  case (2 db i f p r db')
  then show ?case by (simp add: no_create_def)
next
  case (3 db f k u r db')
  then have d: "distinct (map ss_id (xd_sessions db))" by (simp add: outgoing_integrity_def)
  obtain s where s: "s \<in> set (xd_sessions db)" "ss_id s = k" "ss_id r = k"
      "in_scope (se_ev env) (sql_tables db) f (session_attrs s)" "db' = set_session db r"
      "ss_oauth_provider_id r = ss_oauth_provider_id s" "ss_creator_id r = ss_creator_id s"
    using update_session_Inr [OF d 3(2)] by blast
  then have "outgoing_integrity db'" using outgoing_integrity_set_session [OF 3(1) s(1), of r] by simp
  then show ?case using s by (auto simp: set_session_def)
next
  case (4 db f k db')
  then have "distinct (map ss_id (xd_sessions db))" by (simp add: outgoing_integrity_def)
  from delete_session_Inr [OF this 4(2)] outgoing_integrity_filter [OF 4(1)] show ?case by auto
qed

end
