(* ===== verification/OAuthProviderRouter.thy ===== *)
theory OAuthProviderRouter
  imports OAuthProviderService Routes
begin

text \<open>\<open>oauth/oauth_provider_router.py\<close> and \<open>oauth/oauth_provider_schemas.py\<close>.\<close>

section \<open>Schemas\<close>

text \<open>\<open>min_length\<close> and \<open>max_length\<close>, and \<open>ge\<close> of an integer field.\<close>

definition sized :: "nat \<Rightarrow> nat \<Rightarrow> string \<Rightarrow> nat + string" where
  "sized lo hi s = (if length s < lo \<or> hi < length s then Inl 422 else Inr s)"

definition at_least :: "int \<Rightarrow> int \<Rightarrow> nat + int" where
  "at_least lo n = (if n < lo then Inl 422 else Inr n)"

definition non_empty :: "string \<Rightarrow> nat + string" where
  "non_empty s = (if s = [] then Inl 422 else Inr s)"

definition valid_provider_create :: "oauth_provider_create \<Rightarrow> nat + oauth_provider_create" where
  "valid_provider_create payload =
     bindR (strip_required 255 (pc_name payload)) (\<lambda>name.
     bindR (sized 1 2048 (pc_url payload)) (\<lambda>_.
     bindR (sized 1 255 (pc_client_id payload)) (\<lambda>_.
     bindR (non_empty (pc_client_secret payload)) (\<lambda>_.
     bindR (at_least 0 (pc_expire_drift_tolerance payload)) (\<lambda>_.
     bindR (max_chars 255 (pc_authorize_path payload)) (\<lambda>_.
     bindR (max_chars 255 (pc_token_path payload)) (\<lambda>_.
     bindR (max_chars 255 (pc_refresh_path payload)) (\<lambda>_.
     bindR (on_opt (max_chars 255) (pc_revocation_path payload)) (\<lambda>_.
     bindR (at_least 1 (pc_access_token_expires_in payload)) (\<lambda>_.
     bindR (at_least 1 (pc_refresh_token_expires_in payload)) (\<lambda>_.
       Inr (payload\<lparr>pc_name := name\<rparr>))))))))))))"

definition valid_provider_update :: "oauth_provider_update \<Rightarrow> nat + oauth_provider_update" where
  "valid_provider_update payload =
     bindR (on_opt (strip_required 255) (pup_name payload)) (\<lambda>name.
     bindR (on_opt (sized 1 2048) (pup_url payload)) (\<lambda>_.
     bindR (on_opt (sized 1 255) (pup_client_id payload)) (\<lambda>_.
     bindR (on_opt non_empty (pup_client_secret payload)) (\<lambda>_.
     bindR (on_opt (at_least 0) (pup_expire_drift_tolerance payload)) (\<lambda>_.
     bindR (on_opt (max_chars 255) (pup_authorize_path payload)) (\<lambda>_.
     bindR (on_opt (max_chars 255) (pup_token_path payload)) (\<lambda>_.
     bindR (on_opt (max_chars 255) (pup_refresh_path payload)) (\<lambda>_.
     bindR (on_opt (max_chars 255) (pup_revocation_path payload)) (\<lambda>_.
     bindR (on_opt (at_least 1) (pup_access_token_expires_in payload)) (\<lambda>_.
     bindR (on_opt (at_least 1) (pup_refresh_token_expires_in payload)) (\<lambda>_.
       Inr (payload\<lparr>pup_name := name\<rparr>))))))))))))"

section \<open>Handlers\<close>

fun on_provider_create :: "svc_error \<Rightarrow> nat option" where
  "on_provider_create PermissionScopeError = Some 403"
| "on_provider_create (ConflictError s) = Some 409"
| "on_provider_create _ = None"

fun on_provider_update :: "svc_error \<Rightarrow> nat option" where
  "on_provider_update NotFoundError = Some 404"
| "on_provider_update (ConflictError s) = Some 409"
| "on_provider_update _ = None"

fun on_provider_delete :: "svc_error \<Rightarrow> nat option" where
  "on_provider_delete NotFoundError = Some 404"
| "on_provider_delete PermissionScopeError = Some 403"
| "on_provider_delete _ = None"

text \<open>\<open>_apply_batch\<close>.\<close>

fun on_provider_batch :: "svc_error \<Rightarrow> nat option" where
  "on_provider_batch (BatchPermissionDeniedError s) = Some 403"
| "on_provider_batch PermissionScopeError = Some 403"
| "on_provider_batch NotFoundError = Some 404"
| "on_provider_batch (ConflictError s) = Some 409"
| "on_provider_batch _ = None"

definition read_provider :: "oauth_provider \<Rightarrow> nat + oauth_provider" where
  "read_provider r = Inr (provider_to_read r)"

definition search_oauth_providers_route ::
    "'y outgoing_env_scheme \<Rightarrow> registry \<Rightarrow> auth_token option \<Rightarrow> sfilter \<Rightarrow> string option \<Rightarrow> nat \<Rightarrow>
     'z outgoing_db_scheme \<Rightarrow> nat + oauth_provider list \<times> string option \<times> nat" where
  "search_oauth_providers_route env reg token search_filter cursor limit db =
     search_route reg (auth_view db) ''OAuthProvider'' token uuid_cursor uuid_str read_provider
       (\<lambda>f. search_providers env f db) search_filter cursor limit"

text \<open>The count of this resource asks for READ, where the other resources ask for SEARCH.\<close>

definition count_oauth_providers_route ::
    "'y outgoing_env_scheme \<Rightarrow> registry \<Rightarrow> auth_token option \<Rightarrow> sfilter \<Rightarrow> 'z outgoing_db_scheme \<Rightarrow> nat + nat" where
  "count_oauth_providers_route env reg token search_filter db =
     guard reg (auth_view db) ''OAuthProvider'' READ token (\<lambda>f.
       http_errors (\<lambda>_. None) (count_providers env f db (Some search_filter)))"

definition create_oauth_provider_route ::
    "'y outgoing_env_scheme \<Rightarrow> registry \<Rightarrow> auth_token option \<Rightarrow> oauth_provider_create \<Rightarrow> 'z outgoing_db_scheme \<Rightarrow>
     (nat + oauth_provider) \<times> 'z outgoing_db_scheme" where
  "create_oauth_provider_route env reg token payload db =
     write_route reg (auth_view db) ''OAuthProvider'' CREATE token valid_provider_create read_provider
       (\<lambda>f body. require_user 401 token (\<lambda>user_id. http_errors on_provider_create (create_provider env user_id 0 f body db)))
       payload db"

definition get_oauth_providers_batch_route ::
    "'y outgoing_env_scheme \<Rightarrow> registry \<Rightarrow> auth_token option \<Rightarrow> uuid list \<Rightarrow> 'z outgoing_db_scheme \<Rightarrow>
     nat + oauth_provider option list" where
  "get_oauth_providers_batch_route env reg token ids db =
     batch_read_route reg (auth_view db) ''OAuthProvider'' token read_provider (\<lambda>f ks. get_many_providers env f ks db) ids"

definition write_oauth_providers_batch_route ::
    "'y outgoing_env_scheme \<Rightarrow> registry \<Rightarrow> auth_token option \<Rightarrow>
     (uuid, oauth_provider_create, oauth_provider_update) batch_op list \<Rightarrow> 'z outgoing_db_scheme \<Rightarrow>
     (nat + oauth_provider option list) \<times> 'z outgoing_db_scheme" where
  "write_oauth_providers_batch_route env reg token operations db =
     batch_write_route reg (auth_view db) ''OAuthProvider'' [CREATE, UPDATE, DELETE] token valid_provider_create
       valid_provider_update read_provider
       (\<lambda>perm_filters ops. require_user 401 token (\<lambda>user_id.
          http_errors on_provider_batch (apply_provider_batch env user_id ops perm_filters db)))
       operations db"

definition get_oauth_provider_route ::
    "'y outgoing_env_scheme \<Rightarrow> registry \<Rightarrow> auth_token option \<Rightarrow> uuid \<Rightarrow> 'z outgoing_db_scheme \<Rightarrow> nat + oauth_provider" where
  "get_oauth_provider_route env reg token provider_id db =
     get_route reg (auth_view db) ''OAuthProvider'' token read_provider (\<lambda>f. get_provider env f provider_id db)"

definition update_oauth_provider_route ::
    "'y outgoing_env_scheme \<Rightarrow> registry \<Rightarrow> auth_token option \<Rightarrow> uuid \<Rightarrow> oauth_provider_update \<Rightarrow> 'z outgoing_db_scheme \<Rightarrow>
     (nat + oauth_provider) \<times> 'z outgoing_db_scheme" where
  "update_oauth_provider_route env reg token provider_id payload db =
     write_route reg (auth_view db) ''OAuthProvider'' UPDATE token valid_provider_update read_provider
       (\<lambda>f body. http_errors on_provider_update (update_provider env f provider_id body db)) payload db"

definition delete_oauth_provider_route ::
    "'y outgoing_env_scheme \<Rightarrow> registry \<Rightarrow> auth_token option \<Rightarrow> uuid \<Rightarrow> 'z outgoing_db_scheme \<Rightarrow>
     (nat + unit) \<times> 'z outgoing_db_scheme" where
  "delete_oauth_provider_route env reg token provider_id db =
     commit_read db Inr (guard reg (auth_view db) ''OAuthProvider'' DELETE token (\<lambda>f.
       bindR (http_errors on_provider_delete (delete_provider env f provider_id db)) (\<lambda>db'. Inr ((), db'))))"

end
