(* ===== verification/OAuthSessionRouter.thy ===== *)
theory OAuthSessionRouter
  imports OAuthSessionService OAuthProviderRouter RoleRouter
begin

text \<open>
  \<open>oauth/oauth_session_router.py\<close> and \<open>oauth/oauth_session_schemas.py\<close>: the login flow, the explicit refresh and the
  operations on sessions. Tokens are in no response.
\<close>

section \<open>Schemas\<close>

record oauth_session_read =
  sr_id :: uuid
  sr_oauth_provider_id :: uuid
  sr_creator_id :: uuid
  sr_access_token_expires_at :: datetime
  sr_refresh_token_expires_at :: "datetime option"
  sr_tolerate_invalid :: bool
  sr_enabled :: bool
  sr_created_at :: datetime
  sr_updated_at :: datetime

definition session_to_read :: "oauth_session \<Rightarrow> oauth_session_read" where
  "session_to_read s =
     \<lparr>sr_id = ss_id s, sr_oauth_provider_id = ss_oauth_provider_id s, sr_creator_id = ss_creator_id s,
      sr_access_token_expires_at = ss_access_token_expires_at s, sr_refresh_token_expires_at = ss_refresh_token_expires_at s,
      sr_tolerate_invalid = ss_tolerate_invalid s, sr_enabled = ss_enabled s, sr_created_at = ss_created_at s,
      sr_updated_at = ss_updated_at s\<rparr>"

definition read_session :: "oauth_session \<Rightarrow> nat + oauth_session_read" where
  "read_session s = Inr (session_to_read s)"

record authorize_request =
  az_redirect_uri :: string
  az_state :: "string option"
  az_scope :: "string option"
  az_code_challenge :: "string option"
  az_code_challenge_method :: "string option"

definition valid_authorize :: "authorize_request \<Rightarrow> nat + authorize_request" where
  "valid_authorize payload =
     bindR (sized 1 2048 (az_redirect_uri payload)) (\<lambda>_.
     bindR (on_opt (max_chars 2048) (az_state payload)) (\<lambda>_.
     bindR (on_opt (max_chars 512) (az_code_challenge payload)) (\<lambda>_.
     bindR (on_opt (max_chars 16) (az_code_challenge_method payload)) (\<lambda>_. Inr payload))))"

section \<open>The login flow\<close>

definition callback_url :: "string \<Rightarrow> uuid \<Rightarrow> string" where
  "callback_url base_url provider_id = rstrip_slash base_url @ ''/oauth/providers/'' @ uuid_str provider_id @ ''/callback''"

definition session_http :: "(session_error \<Rightarrow> nat option) \<Rightarrow> session_error + 'a \<Rightarrow> nat + 'a" where
  "session_http clauses r =
     (case r of Inr x \<Rightarrow> Inr x | Inl e \<Rightarrow> Inl (case clauses e of None \<Rightarrow> 500 | Some s \<Rightarrow> s))"

lemma session_http_Inr [simp]: "session_http clauses r = Inr x \<longleftrightarrow> r = Inr x"
  by (auto simp: session_http_def split: sum.splits)

text \<open>The provider is loaded without a filter.\<close>

definition load_provider :: "'y outgoing_env_scheme \<Rightarrow> uuid \<Rightarrow> 'z outgoing_db_scheme \<Rightarrow> nat + oauth_provider" where
  "load_provider env provider_id db = http_errors on_not_found (get_provider env AllSearchFilter provider_id db)"

fun on_authorize :: "session_error \<Rightarrow> nat option" where
  "on_authorize ProviderDisabled = Some 403"
| "on_authorize _ = None"

fun on_callback :: "session_error \<Rightarrow> nat option" where
  "on_callback (ProviderError s) = Some 400"
| "on_callback _ = None"

fun on_refresh :: "session_error \<Rightarrow> nat option" where
  "on_refresh SessionNotFound = Some 404"
| "on_refresh (SessionUnrecoverable i) = Some 409"
| "on_refresh SessionLockTimeout = Some 409"
| "on_refresh (ProviderError s) = Some 502"
| "on_refresh _ = None"

text \<open>Both grants are needed, and neither filter is applied. The response has an empty state.\<close>

definition authorize_oauth_session_route ::
    "'y outgoing_env_scheme \<Rightarrow> registry \<Rightarrow> auth_token option \<Rightarrow> uuid \<Rightarrow> authorize_request \<Rightarrow> 'z outgoing_db_scheme \<Rightarrow>
     nat + string \<times> string" where
  "authorize_oauth_session_route env reg token provider_id payload db =
     guards reg (auth_view db) token [(''OAuthSession'', CREATE), (''OAuthProvider'', USE)] new_request (\<lambda>_.
     bindR (valid_authorize payload) (\<lambda>body.
     require_user 401 token (\<lambda>user_id.
     bindR (load_provider env provider_id db) (\<lambda>provider.
     bindR (session_http on_authorize
             (build_authorize_url env provider user_id (az_redirect_uri body) (az_state body) (az_scope body)
                (az_code_challenge body) (az_code_challenge_method body) (callback_url (xe_base_url env) provider_id))) (\<lambda>url.
       Inr (url, ''''))))))"

text \<open>
  The public target of the provider's redirect: the answer is the location of a redirect, with the values of the state
  as they were minted.
\<close>

definition str_of :: "pyval \<Rightarrow> string" where
  "str_of v = (case py_str v of Inr s \<Rightarrow> s | Inl _ \<Rightarrow> '''')"

definition callback_location :: "string \<Rightarrow> oauth_session \<Rightarrow> payload \<Rightarrow> string" where
  "callback_location base_url s payload =
     (let redirect_uri = (case map_of payload ''ruri'' of None \<Rightarrow> '''' | Some v \<Rightarrow> str_of v);
          client_state = or_none (map_of payload ''cst'');
          params = (''session_id'', uuid_str (ss_id s)) # (if client_state = VNone then [] else [(''state'', str_of client_state)])
      in if redirect_uri = [] then base_url else redirect_uri @ ''?'' @ urlencode params)"

definition oauth_callback_route ::
    "'y outgoing_env_scheme \<Rightarrow> uuid \<Rightarrow> string \<Rightarrow> string \<Rightarrow> 'z outgoing_db_scheme \<Rightarrow> (nat + string) \<times> 'z outgoing_db_scheme" where
  "oauth_callback_route env provider_id code state db =
     commit_read db
       (\<lambda>s. bindR (session_http on_callback (decode_session_state env state)) (\<lambda>payload.
          Inr (callback_location (xe_base_url env) s payload)))
       (bindR (load_provider env provider_id db) (\<lambda>provider.
          session_http on_callback (handle_session_callback env provider code state (callback_url (xe_base_url env) provider_id) db)))"

text \<open>The rows when the session is loaded (\<open>before\<close>) and when its lock is granted (\<open>db\<close>).\<close>

definition refresh_oauth_session_route ::
    "'y outgoing_env_scheme \<Rightarrow> registry \<Rightarrow> auth_token option \<Rightarrow> bool \<Rightarrow> uuid \<Rightarrow> 'z outgoing_db_scheme \<Rightarrow> 'z outgoing_db_scheme \<Rightarrow>
     (nat + oauth_session_read) \<times> 'z outgoing_db_scheme" where
  "refresh_oauth_session_route env reg token lock session_id before db =
     commit_read db read_session
       (guard reg (auth_view before) ''OAuthSession'' USE token (\<lambda>f.
          bindR (http_errors on_not_found (get_session env f session_id before)) (\<lambda>s.
          bindR (load_provider env (ss_oauth_provider_id s) before) (\<lambda>provider.
            session_http on_refresh (explicit_refresh env lock s provider db)))))"

section \<open>Sessions\<close>

fun on_session_batch :: "svc_error \<Rightarrow> nat option" where
  "on_session_batch (BatchPermissionDeniedError s) = Some 403"
| "on_session_batch NotFoundError = Some 404"
| "on_session_batch _ = None"

definition search_oauth_sessions_route ::
    "'y outgoing_env_scheme \<Rightarrow> registry \<Rightarrow> auth_token option \<Rightarrow> sfilter \<Rightarrow> string option \<Rightarrow> nat \<Rightarrow>
     'z outgoing_db_scheme \<Rightarrow> nat + oauth_session_read list \<times> string option \<times> nat" where
  "search_oauth_sessions_route env reg token search_filter cursor limit db =
     search_route reg (auth_view db) ''OAuthSession'' token uuid_cursor uuid_str read_session
       (\<lambda>f. search_sessions env f db) search_filter cursor limit"

definition count_oauth_sessions_route ::
    "'y outgoing_env_scheme \<Rightarrow> registry \<Rightarrow> auth_token option \<Rightarrow> sfilter \<Rightarrow> 'z outgoing_db_scheme \<Rightarrow> nat + nat" where
  "count_oauth_sessions_route env reg token search_filter db =
     guard reg (auth_view db) ''OAuthSession'' READ token (\<lambda>f.
       http_errors (\<lambda>_. None) (count_sessions env f db (Some search_filter)))"

definition get_oauth_sessions_batch_route ::
    "'y outgoing_env_scheme \<Rightarrow> registry \<Rightarrow> auth_token option \<Rightarrow> uuid list \<Rightarrow> 'z outgoing_db_scheme \<Rightarrow>
     nat + oauth_session_read option list" where
  "get_oauth_sessions_batch_route env reg token ids db =
     batch_read_route reg (auth_view db) ''OAuthSession'' token read_session (\<lambda>f ks. get_many_sessions env f ks db) ids"

definition write_oauth_sessions_batch_route ::
    "'y outgoing_env_scheme \<Rightarrow> registry \<Rightarrow> auth_token option \<Rightarrow> (uuid, unit, oauth_session_update) batch_op list \<Rightarrow>
     'z outgoing_db_scheme \<Rightarrow> (nat + oauth_session_read option list) \<times> 'z outgoing_db_scheme" where
  "write_oauth_sessions_batch_route env reg token operations db =
     batch_write_route reg (auth_view db) ''OAuthSession'' [UPDATE, DELETE] token refuse Inr read_session
       (\<lambda>perm_filters ops. http_errors on_session_batch (apply_session_batch env ops perm_filters db)) operations db"

definition get_oauth_session_route ::
    "'y outgoing_env_scheme \<Rightarrow> registry \<Rightarrow> auth_token option \<Rightarrow> uuid \<Rightarrow> 'z outgoing_db_scheme \<Rightarrow> nat + oauth_session_read" where
  "get_oauth_session_route env reg token session_id db =
     get_route reg (auth_view db) ''OAuthSession'' token read_session (\<lambda>f. get_session env f session_id db)"

definition update_oauth_session_route ::
    "'y outgoing_env_scheme \<Rightarrow> registry \<Rightarrow> auth_token option \<Rightarrow> uuid \<Rightarrow> oauth_session_update \<Rightarrow> 'z outgoing_db_scheme \<Rightarrow>
     (nat + oauth_session_read) \<times> 'z outgoing_db_scheme" where
  "update_oauth_session_route env reg token session_id payload db =
     write_route reg (auth_view db) ''OAuthSession'' UPDATE token Inr read_session
       (\<lambda>f body. http_errors on_not_found (update_session env f session_id body db)) payload db"

definition delete_oauth_session_route ::
    "'y outgoing_env_scheme \<Rightarrow> registry \<Rightarrow> auth_token option \<Rightarrow> uuid \<Rightarrow> 'z outgoing_db_scheme \<Rightarrow>
     (nat + unit) \<times> 'z outgoing_db_scheme" where
  "delete_oauth_session_route env reg token session_id db =
     delete_route reg (auth_view db) ''OAuthSession'' token (\<lambda>f. delete_session env f session_id db) db"

end
