(* ===== verification/OutgoingLaws.thy ===== *)
theory OutgoingLaws
  imports OAuthSessionRouter CommitLaws IdentityRouteLaws
begin

text \<open>
  The login flow at an external provider from the authorization request to the stored session, and what the
  refreshes of a session do when requests overlap.
\<close>

section \<open>Encrypted values\<close>

lemma encrypt_decrypt_value:
  assumes "crypto_ok C" "shares_key a b" "encrypt_value C a now n s = Inr c"
  shows "decrypt_value C b c = Inr s"
proof -
  have j: "json_ok [(''v'', VStr s)]" by (simp add: json_ok_def)
  show ?thesis
    using create_decrypt [OF assms(1,2) j, of now n None] assms(3)
    by (auto simp: encrypt_value_def decrypt_value_def minted_claims_def)
qed

text \<open>Two environments of one deployment: what the first encrypts, the second decrypts.\<close>

definition same_keys :: "'y outgoing_env_scheme \<Rightarrow> 'z outgoing_env_scheme \<Rightarrow> bool" where
  "same_keys env env' =
     (crypto_ok (se_crypto env) \<and> se_crypto env' = se_crypto env \<and> shares_key (xe_enc env) (xe_enc env'))"

lemma decrypt_encrypted:
  assumes "same_keys env env'" "encrypt_token env i s = Inr c"
  shows "decrypt_token env' c = Inr s"
proof -
  have "encrypt_value (se_crypto env) (xe_enc env) (se_now env) (xe_nonce env i) s = Inr c"
    using assms(2) by (simp add: encrypt_token_def encrypt_secret_def)
  from encrypt_decrypt_value [OF _ _ this, of "xe_enc env'"] assms(1) show ?thesis
    by (simp add: same_keys_def decrypt_token_def)
qed

section \<open>The state\<close>

lemma pending_claims_json: "json_ok (pending_claims u p r cst scopes v cc cm)"
  by (simp add: pending_claims_def json_ok_def split: option.splits)

lemma pending_claims_read:
  "map_of (pending_claims u p r cst scopes v cc cm) ''sub'' = Some (VStr (uuid_str u))"
  "map_of (pending_claims u p r cst scopes v cc cm) ''pid'' = Some (VStr (uuid_str p))"
  "map_of (pending_claims u p r cst scopes v cc cm) ''ruri'' = Some (VStr r)"
  "map_of (pending_claims u p r cst scopes v cc cm) ''ivf'' = Some (VStr v)"
  "map_of (pending_claims u p r cst scopes v cc cm) ''cst'' = map_option VStr cst"
  by (simp_all add: pending_claims_def map_add_def split: option.splits)

lemma state_decodes:
  assumes "same_keys env env'" "mint_session_state env (pending_claims u p r cst scopes v cc cm) = Inr state"
  shows "\<exists>claims. decode_session_state env' state = Inr claims \<and>
    map_of claims ''sub'' = Some (VStr (uuid_str u)) \<and> map_of claims ''pid'' = Some (VStr (uuid_str p)) \<and>
    map_of claims ''ruri'' = Some (VStr r) \<and> map_of claims ''ivf'' = Some (VStr v) \<and>
    map_of claims ''cst'' = map_option VStr cst"
proof -
  have "crypto_ok (se_crypto env)" "shares_key (xe_enc env) (xe_enc env')" "se_crypto env' = se_crypto env"
    using assms(1) by (simp_all add: same_keys_def)
  note k = this
  obtain claims where c: "decrypt_jwe_token (se_crypto env') (xe_enc env') state = Inr claims"
    "map_of claims = minted_claims (se_now env) (pending_claims u p r cst scopes v cc cm) (Some PENDING_AUTH_TTL)"
    using create_decrypt [where payload = "pending_claims u p r cst scopes v cc cm" and now = "se_now env" and
        nonce = "xe_nonce env 0" and expires_in = "Some PENDING_AUTH_TTL", OF k(1,2) pending_claims_json] assms(2) by (auto simp: mint_session_state_def k(3))
  show ?thesis
    by (intro exI [of _ claims]) (simp add: decode_session_state_def c minted_claims_def pending_claims_read or_none_def)
qed

section \<open>The login flow\<close>

text \<open>What a callback stores when the provider answers the code: a session of the user and the provider of the state.\<close>

definition session_of ::
    "'y outgoing_env_scheme \<Rightarrow> oauth_provider \<Rightarrow> uuid \<Rightarrow> payload \<Rightarrow> oauth_session \<Rightarrow> bool" where
  "session_of env provider user_id reply s =
     (ss_oauth_provider_id s = pv_id provider \<and> ss_creator_id s = user_id \<and> ss_enabled s \<and> \<not> ss_tolerate_invalid s \<and>
      ss_access_token_expires_at s =
        session_access_expiry (se_now env) reply (pv_expire_drift_tolerance provider) (pv_access_token_expires_in provider) \<and>
      ss_refresh_token_expires_at s =
        session_refresh_expiry (se_now env) reply (pv_expire_drift_tolerance provider) (pv_refresh_token_expires_in provider) \<and>
      (\<exists>access refresh. token_field reply ''access_token'' = Inr (Some access) \<and>
         token_field reply ''refresh_token'' = Inr (Some refresh) \<and>
         decrypt_token env (ss_access_token s) = Inr access \<and> decrypt_token env (ss_refresh_token s) = Inr refresh))"

lemma callback_stores:
  assumes "same_keys env env" "decode_session_state env state = Inr claims"
    and "map_of claims ''sub'' = Some (VStr (uuid_str u))" "map_of claims ''ivf'' = Some (VStr v)"
    and "handle_session_callback env provider code state url db = Inr (s, db')"
  shows "map_of claims ''pid'' = Some (VStr (uuid_str (pv_id provider))) \<and>
    db' = db\<lparr>xd_sessions := xd_sessions db @ [s]\<rparr> \<and> session_violations db s = [] \<and> ss_id s = se_uuid env 0 \<and>
    (\<exists>secret reply. decrypt_token env (pv_client_secret provider) = Inr secret \<and>
       provider_token_post env provider (exchange_code_data provider secret code v url) = Inr reply \<and>
       session_of env provider u reply s)"
proof -
  obtain reply access refresh a r where p: "map_of claims ''pid'' = Some (VStr (uuid_str (pv_id provider)))"
    and reply: "exchange_code env provider code v url = Inr reply"
    and f: "token_field reply ''access_token'' = Inr (Some access)" "token_field reply ''refresh_token'' = Inr (Some refresh)"
    and e: "encrypt_token env 0 access = Inr a" "encrypt_token env 1 refresh = Inr r"
    and s: "s = new_session env provider u a r reply" "session_violations db s = []" "db' = db\<lparr>xd_sessions := xd_sessions db @ [s]\<rparr>"
    using assms(5)
    by (auto simp: handle_session_callback_def assms(2-4) claim_text_def claim_uuid_def bindR_Inr_iff flush_Inr_iff Let_def
        split: if_split_asm option.split_asm)
  show ?thesis
    using p s f reply decrypt_encrypted [OF assms(1) e(1)] decrypt_encrypted [OF assms(1) e(2)]
    by (auto simp: exchange_code_def bindR_Inr_iff session_of_def new_session_def)
qed

lemma load_provider_Inr:
  assumes "distinct (map pv_id (xd_providers db))" "sql_engine (se_ev env)"
  shows "load_provider env k db = Inr p \<longleftrightarrow> p \<in> set (xd_providers db) \<and> pv_id p = k"
proof -
  have "in_scope (se_ev env) (sql_tables db) AllSearchFilter (provider_attrs p)"
    by (simp add: in_scope_def filter_sql_def where_holds_def)
  then show ?thesis by (simp add: load_provider_def get_provider_def provider_table.get_Inr_iff [OF assms(1)])
qed

text \<open>The value of a parameter of an authorization URL.\<close>

definition authorize_url :: "oauth_provider \<Rightarrow> string \<Rightarrow> string \<Rightarrow> string list \<Rightarrow> string \<Rightarrow> string" where
  "authorize_url provider callback state scopes challenge =
     join_url (pv_url provider) (pv_authorize_path provider)
       [(''response_type'', ''code''), (''client_id'', pv_client_id provider), (''redirect_uri'', callback), (''state'', state),
        (''scope'', join_with '' '' scopes), (''code_challenge'', challenge), (''code_challenge_method'', ''S256'')]"

lemma authorize_route_Inr:
  assumes "authorize_oauth_session_route env reg token k payload db = Inr (url, st)"
  shows "\<exists>u provider challenge state. depends_user_id token = Some u \<and> load_provider env k db = Inr provider \<and>
    pv_enabled provider \<and> st = '''' \<and> az_redirect_uri payload \<noteq> [] \<and> derive_code_challenge (xe_libs env) (xe_verifier env) ''S256'' = Inr challenge \<and>
    resolved reg (auth_view db) ''OAuthSession'' CREATE token \<noteq> None \<and> resolved reg (auth_view db) ''OAuthProvider'' USE token \<noteq> None \<and>
    mint_session_state env (pending_claims u (pv_id provider) (az_redirect_uri payload) (az_state payload)
      (requested_scopes provider (az_scope payload)) (xe_verifier env) (az_code_challenge payload)
      (az_code_challenge_method payload)) = Inr state \<and>
    url = authorize_url provider (callback_url (xe_base_url env) k) state (requested_scopes provider (az_scope payload)) challenge"
proof -
  have v: "valid_authorize payload = Inr body \<Longrightarrow> body = payload \<and> az_redirect_uri payload \<noteq> []" for body
    by (auto simp: valid_authorize_def bindR_Inr_iff sized_def split: if_splits)
  from assms show ?thesis
    by (auto simp: authorize_oauth_session_route_def guards_resolved [OF cache_ok_new] bindR_Inr_iff require_user_def
        build_authorize_url_def Let_def authorize_url_def svc_py_Inr_iff dest!: v split: if_split_asm option.split_asm)
qed

text \<open>The callback succeeds when the provider answers both tokens and the user still exists.\<close>

lemma encrypt_token_total: "same_keys env env' \<Longrightarrow> \<exists>c. encrypt_token env i s = Inr c"
proof -
  assume k: "same_keys env env'"
  have j: "json_ok [(''v'', VStr s)]" by (simp add: json_ok_def)
  have "\<exists>c. encrypt_value (se_crypto env) (xe_enc env) (se_now env) (xe_nonce env i) s = Inr c"
    using create_decrypt [where payload = "[(''v'', VStr s)]" and now = "se_now env" and nonce = "xe_nonce env i" and
        expires_in = None, OF _ _ j] k unfolding same_keys_def encrypt_value_def by blast
  then show ?thesis by (auto simp: encrypt_token_def encrypt_secret_def enc_py_def)
qed

lemma callback_succeeds:
  assumes "same_keys env env" "decode_session_state env state = Inr claims"
    and "map_of claims ''sub'' = Some (VStr (uuid_str u))" "map_of claims ''ivf'' = Some (VStr v)"
    and "map_of claims ''pid'' = Some (VStr (uuid_str (pv_id provider)))"
    and "decrypt_token env (pv_client_secret provider) = Inr secret"
    and "provider_token_post env provider (exchange_code_data provider secret code v url) = Inr reply"
    and "token_field reply ''access_token'' = Inr (Some access)" "token_field reply ''refresh_token'' = Inr (Some refresh)"
    and "u \<in> u_id ` set (td_users db)" "pv_id provider \<in> pv_id ` set (xd_providers db)" "se_uuid env 0 \<notin> ss_id ` set (xd_sessions db)"
  shows "\<exists>r. handle_session_callback env provider code state url db = Inr r"
proof -
  obtain a r where e: "encrypt_token env 0 access = Inr a" "encrypt_token env 1 refresh = Inr r"
    using encrypt_token_total [OF assms(1)] by metis
  have "session_violations db (new_session env provider u a r reply) = []"
    using assms(10-12) by (simp add: session_violations_Nil new_session_def)
  then show ?thesis
    by (simp add: handle_session_callback_def assms(2-9) claim_text_def claim_uuid_def exchange_code_def e [unfolded One_nat_def]
        Let_def flush_rows_def catch_integrity_def)
qed

section \<open>Refreshes\<close>

text \<open>
  The expiry an answer gives a token: so many seconds from now, or at this time, the drift taken off but never below zero; a
  number that is not positive does not count.
\<close>

definition answered_expiry :: "string \<Rightarrow> string \<Rightarrow> datetime \<Rightarrow> payload \<Rightarrow> int \<Rightarrow> datetime option" where
  "answered_expiry in_field at_field now reply drift_seconds =
     (case positive_claim in_field reply of
        Some n \<Rightarrow> Some (now + seconds (max 0 (n - drift_seconds)))
      | None \<Rightarrow> map_option (\<lambda>n. from_epoch (max 0 (n - drift_seconds))) (positive_claim at_field reply))"

lemma session_expiries:
  "session_access_expiry now reply d fallback =
     (case answered_expiry ''expires_in'' ''expires_at'' now reply d of Some t \<Rightarrow> t | None \<Rightarrow> now + seconds (max 1 (fallback - d)))"
  "session_refresh_expiry now reply d fallback = answered_expiry ''refresh_expires_in'' ''refresh_expires_at'' now reply d"
  by (simp_all add: session_access_expiry_def session_refresh_expiry_def answered_expiry_def split: option.split)

text \<open>
  What a refresh does: the provider is asked with the refresh token of the object that was loaded (\<open>seen\<close>), and its
  answer is written to the row with this id, whatever the row holds by then. The object changes in its two tokens and their two
  expiries and in nothing else: an answer without a refresh token keeps the old one, one without its expiry keeps the old expiry.
\<close>

definition refreshed ::
    "'y outgoing_env_scheme \<Rightarrow> oauth_session \<Rightarrow> oauth_provider \<Rightarrow> string \<Rightarrow> oauth_session \<Rightarrow> 'z outgoing_db_scheme \<Rightarrow>
     'z outgoing_db_scheme \<Rightarrow> bool" where
  "refreshed env seen provider access s db db' =
     (\<exists>plain secret reply refresh. decrypt_token env (ss_refresh_token seen) = Inr plain \<and>
        decrypt_token env (pv_client_secret provider) = Inr secret \<and>
        provider_token_post env provider (refresh_data provider secret plain) = Inr reply \<and>
        token_field reply ''access_token'' = Inr (Some access) \<and> token_field reply ''refresh_token'' = Inr refresh \<and>
        decrypt_token env (ss_access_token s) = Inr access \<and>
        decrypt_token env (ss_refresh_token s) = Inr (case refresh of None \<Rightarrow> plain | Some r \<Rightarrow> r) \<and>
        s = seen\<lparr>ss_access_token := ss_access_token s,
          ss_access_token_expires_at :=
            (case answered_expiry ''expires_in'' ''expires_at'' (se_now env) reply (pv_expire_drift_tolerance provider) of
               Some t \<Rightarrow> t
             | None \<Rightarrow> se_now env + seconds (max 1 (pv_access_token_expires_in provider - pv_expire_drift_tolerance provider))),
          ss_refresh_token := ss_refresh_token s,
          ss_refresh_token_expires_at :=
            (case answered_expiry ''refresh_expires_in'' ''refresh_expires_at'' (se_now env) reply (pv_expire_drift_tolerance provider) of
               Some t \<Rightarrow> Some t
             | None \<Rightarrow> ss_refresh_token_expires_at seen)\<rparr> \<and>
        db' = db\<lparr>xd_sessions := map (\<lambda>x. if ss_id x = ss_id seen then flush_session (se_now env) seen s x else x) (xd_sessions db)\<rparr>)"

lemma do_refresh_Inr:
  assumes "same_keys env env" "do_refresh env seen provider db = Inr (s, db')"
  shows "\<exists>access. refreshed env seen provider access s db db' \<and> decrypt_token env (ss_access_token s) = Inr access"
proof -
  obtain plain reply access refresh a r where g: "decrypt_token env (ss_refresh_token seen) = Inr plain"
      "refresh_with_provider env provider plain = Inr reply"
      "token_field reply ''access_token'' = Inr (Some access)" "token_field reply ''refresh_token'' = Inr refresh"
      "encrypt_token env 0 access = Inr a" "encrypt_token env 1 (case refresh of None \<Rightarrow> plain | Some r \<Rightarrow> r) = Inr r"
    and s: "s = seen\<lparr>ss_access_token := a,
             ss_access_token_expires_at := session_access_expiry (se_now env) reply (pv_expire_drift_tolerance provider)
                 (pv_access_token_expires_in provider),
             ss_refresh_token := r,
             ss_refresh_token_expires_at := (case session_refresh_expiry (se_now env) reply (pv_expire_drift_tolerance provider)
                 (pv_refresh_token_expires_in provider) of None \<Rightarrow> ss_refresh_token_expires_at seen | Some t \<Rightarrow> Some t)\<rparr>"
      "db' = db\<lparr>xd_sessions := map (\<lambda>x. if ss_id x = ss_id seen then flush_session (se_now env) seen s x else x) (xd_sessions db)\<rparr>"
    using assms(2) unfolding do_refresh_def Let_def
    by (elim bindR_InrE) (auto elim!: bindR_InrE split: option.split_asm)
  note s = s [unfolded session_expiries]
  obtain secret where "decrypt_token env (pv_client_secret provider) = Inr secret"
      "provider_token_post env provider (refresh_data provider secret plain) = Inr reply"
    using g(2) by (auto simp: refresh_with_provider_def bindR_Inr_iff)
  then show ?thesis
    using g(1,3,4) s decrypt_encrypted [OF assms(1) g(5)] decrypt_encrypted [OF assms(1) g(6)]
    unfolding refreshed_def by (intro exI [of _ access] conjI exI [of _ plain] exI [of _ secret] exI [of _ reply] exI [of _ refresh]) simp_all
qed

lemma refreshed_keeps:
  assumes "refreshed env seen provider access s db db'" "outgoing_integrity db"
  shows "outgoing_integrity db' \<and> xd_providers db' = xd_providers db \<and>
    (\<forall>x \<in> set (xd_sessions db). ss_id x \<noteq> ss_id seen \<longrightarrow> x \<in> set (xd_sessions db'))"
proof -
  let ?g = "\<lambda>x. if ss_id x = ss_id seen then flush_session (se_now env) seen s x else x"
  have db': "db' = db\<lparr>xd_sessions := map ?g (xd_sessions db)\<rparr>" using assms(1) by (auto simp: refreshed_def)
  have "outgoing_integrity db'" unfolding db' by (rule outgoing_integrity_map [OF assms(2)]) simp
  then show ?thesis by (auto simp: db')
qed

text \<open>What is in the table afterwards, when the object that was loaded is what the table held.\<close>

definition refreshed_row :: "datetime \<Rightarrow> oauth_session \<Rightarrow> oauth_session \<Rightarrow> oauth_session" where
  "refreshed_row now seen s = (if s = seen then seen else s\<lparr>ss_updated_at := now\<rparr>)"

definition refresh_leaves ::
    "'y outgoing_env_scheme \<Rightarrow> oauth_session \<Rightarrow> oauth_provider \<Rightarrow> string \<Rightarrow> 'z outgoing_db_scheme \<Rightarrow> 'z outgoing_db_scheme \<Rightarrow> bool" where
  "refresh_leaves env seen provider access db db' =
     (\<exists>s. refreshed env seen provider access s db db' \<and>
        (seen \<in> set (xd_sessions db) \<longrightarrow>
           filter (\<lambda>x. ss_id x = ss_id seen) (xd_sessions db') = [refreshed_row (se_now env) seen s]))"

lemma distinct_filter_key: "distinct (map key xs) \<Longrightarrow> x \<in> set xs \<Longrightarrow> filter (\<lambda>y. key y = key x) xs = [x]"
  by (induction xs) (auto simp: filter_empty_conv image_iff)

lemma refreshed_leaves:
  assumes "refreshed env seen provider access s db db'" "outgoing_integrity db"
  shows "refresh_leaves env seen provider access db db'"
proof -
  obtain e r where s: "s = seen\<lparr>ss_access_token := ss_access_token s, ss_access_token_expires_at := e,
      ss_refresh_token := ss_refresh_token s, ss_refresh_token_expires_at := r\<rparr>"
    and db': "db' = db\<lparr>xd_sessions := map (\<lambda>x. if ss_id x = ss_id seen then flush_session (se_now env) seen s x else x) (xd_sessions db)\<rparr>"
    using assms(1) unfolding refreshed_def by blast
  have row: "flush_session (se_now env) seen s seen = refreshed_row (se_now env) seen s"
    by (subst (2) s, subst (1) s) (auto simp: flush_session_def net_change_def refreshed_row_def)
  have "filter (\<lambda>x. ss_id x = ss_id seen) (xd_sessions db') = [refreshed_row (se_now env) seen s]" if "seen \<in> set (xd_sessions db)"
    using distinct_filter_key [of ss_id "xd_sessions db" seen] that assms(2)
    by (simp add: db' filter_map o_def row outgoing_integrity_def cong: map_cong)
  then show ?thesis using assms(1) unfolding refresh_leaves_def by blast
qed

lemma lock_for_refresh_Inr:
  "lock_for_refresh granted seen db = Inr r \<longleftrightarrow> granted \<and>
     r = (if ss_id seen \<in> ss_id ` set (xd_sessions db) then Some seen else None)"
  by (auto simp: lock_for_refresh_def)

text \<open>The three ways of an answer: the stored token, nothing, a refresh.\<close>

lemma refresh_expired_Inr:
  "is_refresh_expired now s = Inr b \<longleftrightarrow>
     (if \<exists>t. ss_refresh_token_expires_at s = Some t \<and> t \<le> now then b \<and> ss_tolerate_invalid s else \<not> b)"
  by (auto simp: is_refresh_expired_def not_less split: option.split)

lemma refresh_if_needed_Inr:
  assumes "same_keys env env" "refresh_if_needed env granted seen provider db = Inr (token, db')"
  defines "late \<equiv> \<exists>t. ss_refresh_token_expires_at seen = Some t \<and> t \<le> se_now env"
    and "due \<equiv> ss_access_token_expires_at seen \<le> se_now env + seconds (pv_expire_drift_tolerance provider)"
  shows "granted \<and>
    (case token of
       None \<Rightarrow> db' = db \<and> (ss_id seen \<notin> ss_id ` set (xd_sessions db) \<or> ss_tolerate_invalid seen \<and> late)
     | Some t \<Rightarrow>
         if due then \<not> late \<and> (\<exists>s. refreshed env seen provider t s db db')
         else db' = db \<and> decrypt_token env (ss_access_token seen) = Inr t)"
proof (cases "ss_id seen \<in> ss_id ` set (xd_sessions db)")
  case False
  then show ?thesis using assms(2) by (auto simp: refresh_if_needed_def bindR_Inr_iff lock_for_refresh_Inr)
next
  case True
  then have lock: "granted" "lock_for_refresh granted seen db = Inr (Some seen)"
    using assms(2) by (auto simp: refresh_if_needed_def bindR_Inr_iff lock_for_refresh_Inr)
  show ?thesis
  proof (cases due)
    case False
    have "bindR (decrypt_token env (ss_access_token seen)) (\<lambda>t. Inr (Some t, db)) = Inr (token, db')"
      using assms(2) False unfolding refresh_if_needed_def lock(2) due_def by simp
    then show ?thesis using lock(1) False by (auto simp: bindR_Inr_iff)
  next
    case due: True
    then have "bindR (is_refresh_expired (se_now env) seen) (\<lambda>expired. if expired then Inr (None, db)
        else bindR (do_refresh env seen provider db) (\<lambda>(s', db').
          bindR (decrypt_token env (ss_access_token s')) (\<lambda>t. Inr (Some t, db')))) = Inr (token, db')"
      using assms(2) unfolding refresh_if_needed_def lock(2) due_def by simp
    then obtain expired where e: "is_refresh_expired (se_now env) seen = Inr expired"
      and r: "(if expired then Inr (None, db) else bindR (do_refresh env seen provider db) (\<lambda>(s', db').
          bindR (decrypt_token env (ss_access_token s')) (\<lambda>t. Inr (Some t, db')))) = Inr (token, db')"
      by (auto simp: bindR_Inr_iff)
    show ?thesis
    proof (cases expired)
      case True
      then show ?thesis using e r lock(1) by (auto simp: refresh_expired_Inr late_def split: if_splits)
    next
      case False
      then obtain s t where s: "do_refresh env seen provider db = Inr (s, db')" "decrypt_token env (ss_access_token s) = Inr t"
          "token = Some t" using r by (auto simp: bindR_Inr_iff)
      then obtain access where "refreshed env seen provider access s db db'" "decrypt_token env (ss_access_token s) = Inr access"
        using do_refresh_Inr [OF assms(1) s(1)] by blast
      then show ?thesis using False e s(2,3) lock(1) due by (auto simp: refresh_expired_Inr late_def split: if_splits)
    qed
  qed
qed

definition unrecoverable :: "session_error \<Rightarrow> bool" where
  "unrecoverable e = (\<exists>i. e = SessionUnrecoverable i)"

lemma not_unrecoverable:
  "decrypt_token env c = Inl e \<Longrightarrow> \<not> unrecoverable e" "encrypt_token env i p = Inl e \<Longrightarrow> \<not> unrecoverable e"
  "token_field reply key = Inl e \<Longrightarrow> \<not> unrecoverable e" "provider_token_post env provider data = Inl e \<Longrightarrow> \<not> unrecoverable e"
  by (auto simp: unrecoverable_def decrypt_token_def encrypt_token_def uncaught_def token_field_def provider_token_post_def
      split: sum.splits idp_reply.splits if_splits)

lemma do_refresh_unrecoverable: "do_refresh env seen provider db = Inl e \<Longrightarrow> \<not> unrecoverable e"
  unfolding do_refresh_def refresh_with_provider_def Let_def bindR_Inl_iff
  by (elim disjE exE conjE) (auto simp: bindR_Inl_iff unrecoverable_def dest: not_unrecoverable [unfolded unrecoverable_def] split: option.split_asm)

lemma refresh_unrecoverable_iff:
  "refresh_if_needed env granted seen provider db = Inl (SessionUnrecoverable i) \<longleftrightarrow>
     i = ss_id seen \<and> granted \<and> ss_id seen \<in> ss_id ` set (xd_sessions db) \<and>
     ss_access_token_expires_at seen \<le> se_now env + seconds (pv_expire_drift_tolerance provider) \<and>
     \<not> ss_tolerate_invalid seen \<and> (\<exists>t. ss_refresh_token_expires_at seen = Some t \<and> t \<le> se_now env)"
  by (auto simp: refresh_if_needed_def bindR_Inl_iff lock_for_refresh_def is_refresh_expired_def not_less
      unrecoverable_def split: if_splits option.splits
      dest: not_unrecoverable(1) [unfolded unrecoverable_def] do_refresh_unrecoverable [unfolded unrecoverable_def])

text \<open>C38. A session hands out an access token only while it is enabled. The token is the stored one, when the clock
  before or after the wait for the lock is more than the drift before the stored expiry, from which the drift is
  already taken; or the provider's answer to a refresh, when neither is. It hands out nothing, and changes nothing, only when it is
  disabled, deleted, or past its refresh expiry and tolerated. With the lock, a session that is there, enabled and due, and past its refresh
  expiry and not tolerated is an unrecoverable session, and no other is. A refresh writes the answered tokens and their expiries: that of
  the access token from the answer, or else from the provider's configuration, that of the refresh token from the answer, or else the
  one it had. When the loaded object is what the table held, the table holds the object with these four fields new; a refresh touches no other row.\<close>

theorem access_token_rules:
  assumes "same_keys env env" "outgoing_integrity db"
    and "get_valid_access_token env granted t0 seen provider db = result"
  defines "drift \<equiv> seconds (pv_expire_drift_tolerance provider)"
  shows "(\<forall>token db'. result = Inr (Some token, db') \<longrightarrow> ss_enabled seen \<and>
      (db' = db \<and> decrypt_token env (ss_access_token seen) = Inr token \<and>
         (t0 + drift < ss_access_token_expires_at seen \<or> granted \<and> se_now env + drift < ss_access_token_expires_at seen) \<or>
       granted \<and> ss_access_token_expires_at seen \<le> t0 + drift \<and> ss_access_token_expires_at seen \<le> se_now env + drift \<and>
         (\<forall>t. ss_refresh_token_expires_at seen = Some t \<longrightarrow> se_now env < t) \<and>
         refresh_leaves env seen provider token db db' \<and> outgoing_integrity db' \<and>
         (\<forall>x \<in> set (xd_sessions db). ss_id x \<noteq> ss_id seen \<longrightarrow> x \<in> set (xd_sessions db')))) \<and>
    (\<forall>db'. result = Inr (None, db') \<longrightarrow> db' = db \<and>
       (\<not> ss_enabled seen \<or> ss_id seen \<notin> ss_id ` set (xd_sessions db) \<or>
        ss_tolerate_invalid seen \<and> (\<exists>t. ss_refresh_token_expires_at seen = Some t \<and> t \<le> se_now env))) \<and>
    (\<forall>i. result = Inl (SessionUnrecoverable i) \<longleftrightarrow> i = ss_id seen \<and> granted \<and> ss_id seen \<in> ss_id ` set (xd_sessions db) \<and>
       ss_enabled seen \<and> ss_access_token_expires_at seen \<le> t0 + drift \<and> ss_access_token_expires_at seen \<le> se_now env + drift \<and>
       \<not> ss_tolerate_invalid seen \<and> (\<exists>t. ss_refresh_token_expires_at seen = Some t \<and> t \<le> se_now env))"
proof -
  note r = assms(3) [symmetric]
  show ?thesis
  proof (cases "ss_enabled seen \<and> ss_access_token_expires_at seen \<le> t0 + drift")
    case False
    then show ?thesis unfolding r
      by (auto simp: get_valid_access_token_def drift_def bindR_Inr_iff bindR_Inl_iff unrecoverable_def
          dest: not_unrecoverable(1) [unfolded unrecoverable_def])
  next
    case True
    then have go: "result = refresh_if_needed env granted seen provider db"
      using r by (simp add: get_valid_access_token_def drift_def not_less)
    have unrec: "refresh_if_needed env granted seen provider db = Inl (SessionUnrecoverable i) \<longleftrightarrow>
        i = ss_id seen \<and> granted \<and> ss_id seen \<in> ss_id ` set (xd_sessions db) \<and> ss_access_token_expires_at seen \<le> se_now env + drift \<and>
        \<not> ss_tolerate_invalid seen \<and> (\<exists>t. ss_refresh_token_expires_at seen = Some t \<and> t \<le> se_now env)" for i
      unfolding drift_def by (rule refresh_unrecoverable_iff)
    have tok: "granted \<and> (db' = db \<and> decrypt_token env (ss_access_token seen) = Inr t \<and> se_now env + drift < ss_access_token_expires_at seen \<or>
        ss_access_token_expires_at seen \<le> se_now env + drift \<and>
        (\<forall>u. ss_refresh_token_expires_at seen = Some u \<longrightarrow> se_now env < u) \<and>
        refresh_leaves env seen provider t db db' \<and> outgoing_integrity db' \<and>
        (\<forall>x \<in> set (xd_sessions db). ss_id x \<noteq> ss_id seen \<longrightarrow> x \<in> set (xd_sessions db')))"
      if i: "refresh_if_needed env granted seen provider db = Inr (Some t, db')" for t db'
      using refresh_if_needed_Inr [OF assms(1) i]
      by (auto simp: drift_def not_le split: if_splits dest: refreshed_keeps [OF _ assms(2)] refreshed_leaves [OF _ assms(2)])
    have empty: "db' = db \<and> (ss_id seen \<notin> ss_id ` set (xd_sessions db) \<or>
        ss_tolerate_invalid seen \<and> (\<exists>t. ss_refresh_token_expires_at seen = Some t \<and> t \<le> se_now env))"
      if i: "refresh_if_needed env granted seen provider db = Inr (None, db')" for db'
      using refresh_if_needed_Inr [OF assms(1) i] by simp
    show ?thesis
      unfolding go
    proof (rule conjI [OF _ conjI])
      show "\<forall>i. refresh_if_needed env granted seen provider db = Inl (SessionUnrecoverable i) \<longleftrightarrow> i = ss_id seen \<and> granted \<and>
         ss_id seen \<in> ss_id ` set (xd_sessions db) \<and> ss_enabled seen \<and> ss_access_token_expires_at seen \<le> t0 + drift \<and>
         ss_access_token_expires_at seen \<le> se_now env + drift \<and> \<not> ss_tolerate_invalid seen \<and>
         (\<exists>t. ss_refresh_token_expires_at seen = Some t \<and> t \<le> se_now env)"
        unfolding unrec using True by simp
      show "\<forall>db'. refresh_if_needed env granted seen provider db = Inr (None, db') \<longrightarrow> db' = db \<and>
         (\<not> ss_enabled seen \<or> ss_id seen \<notin> ss_id ` set (xd_sessions db) \<or>
          ss_tolerate_invalid seen \<and> (\<exists>t. ss_refresh_token_expires_at seen = Some t \<and> t \<le> se_now env))"
        using empty by blast
    qed (use True tok in blast)
  qed
qed

section \<open>Callbacks\<close>

text \<open>What one callback with the state of an authorization may do.\<close>

definition callback_outcome ::
    "'y outgoing_env_scheme \<Rightarrow> 'y outgoing_env_scheme \<Rightarrow> uuid \<Rightarrow> uuid \<Rightarrow> authorize_request \<Rightarrow> uuid \<Rightarrow> string \<Rightarrow>
     'z outgoing_db_scheme \<Rightarrow> (nat + string) \<times> 'z outgoing_db_scheme \<Rightarrow> bool" where
  "callback_outcome env env' u k payload k' code db answer =
     (case answer of
        (Inl e, db') \<Rightarrow> db' = db
      | (Inr location, db') \<Rightarrow> k' = k \<and>
          (\<exists>p s secret reply. p \<in> set (xd_providers db) \<and> pv_id p = k \<and> decrypt_token env' (pv_client_secret p) = Inr secret \<and>
             provider_token_post env' p (exchange_code_data p secret code (xe_verifier env) (callback_url (xe_base_url env') k)) = Inr reply \<and>
             session_of env' p u reply s \<and> db' = db\<lparr>xd_sessions := xd_sessions db @ [s]\<rparr> \<and> outgoing_integrity db' \<and>
             location = az_redirect_uri payload @ ''?'' @ urlencode ((''session_id'', uuid_str (ss_id s)) #
               (case az_state payload of None \<Rightarrow> [] | Some c \<Rightarrow> [(''state'', c)]))))"

lemma callback_outcome_state:
  assumes "same_keys env env'" "same_keys env' env'" "sql_engine (se_ev env')" "outgoing_integrity db"
    and "mint_session_state env (pending_claims u k (az_redirect_uri payload) (az_state payload) scopes (xe_verifier env) cc cm) = Inr state"
    and "az_redirect_uri payload \<noteq> []"
  shows "callback_outcome env env' u k payload k' code db (oauth_callback_route env' k' code state db)"
proof -
  let ?url = "callback_url (xe_base_url env') k'"
  obtain claims where c: "decode_session_state env' state = Inr claims" "map_of claims ''sub'' = Some (VStr (uuid_str u))"
      "map_of claims ''pid'' = Some (VStr (uuid_str k))" "map_of claims ''ruri'' = Some (VStr (az_redirect_uri payload))"
      "map_of claims ''ivf'' = Some (VStr (xe_verifier env))" "map_of claims ''cst'' = map_option VStr (az_state payload)"
    using state_decodes [OF assms(1,5)] by blast
  have d: "distinct (map pv_id (xd_providers db))" using assms(4) by (simp add: outgoing_integrity_def)
  show ?thesis
  proof (cases "bindR (load_provider env' k' db) (\<lambda>provider.
      session_http on_callback (handle_session_callback env' provider code state ?url db))")
    case (Inl e)
    then show ?thesis by (simp add: oauth_callback_route_def callback_outcome_def commit_read_def)
  next
    case (Inr r)
    then obtain p s db' where r: "r = (s, db')" "load_provider env' k' db = Inr p"
        "handle_session_callback env' p code state ?url db = Inr (s, db')"
      by (cases r) (auto simp: bindR_Inr_iff)
    have p: "p \<in> set (xd_providers db)" "pv_id p = k'" using r(2) load_provider_Inr [OF d assms(3)] by auto
    from callback_stores [OF assms(2) c(1,2,5) r(3)] obtain secret reply where
        st: "map_of claims ''pid'' = Some (VStr (uuid_str (pv_id p)))" "db' = db\<lparr>xd_sessions := xd_sessions db @ [s]\<rparr>"
        "session_violations db s = []" "decrypt_token env' (pv_client_secret p) = Inr secret"
        "provider_token_post env' p (exchange_code_data p secret code (xe_verifier env) ?url) = Inr reply"
        "session_of env' p u reply s" by blast
    have "uuid_str k = uuid_str k'" using st(1) c(3) p(2) by simp
    then have k: "k' = k" by (metis option.inject uuid_parse_str)
    have answer: "oauth_callback_route env' k' code state db = (Inr (az_redirect_uri payload @ ''?'' @
        urlencode ((''session_id'', uuid_str (ss_id s)) # (case az_state payload of None \<Rightarrow> [] | Some c \<Rightarrow> [(''state'', c)]))), db')"
      unfolding oauth_callback_route_def Inr r(1) commit_read_def
      using assms(6) by (simp add: c callback_location_def Let_def str_of_def session_http_def or_none_def split: option.split)
    have i: "outgoing_integrity db'" unfolding st(2) by (rule outgoing_integrity_add [OF assms(4) st(3)])
    show ?thesis
      unfolding answer callback_outcome_def prod.case sum.case
      by (intro conjI exI [of _ p] exI [of _ s] exI [of _ secret] exI [of _ reply] refl i k p(1) p(2) [unfolded k] st(2) st(4) st(6) st(5) [unfolded k])
  qed
qed

text \<open>C37. An authorization redirects an authenticated user with both grants to an enabled provider, with a PKCE challenge of the
  verifier hidden in the state. Whoever brings that state back, a callback either fails and changes nothing, or it is a callback of the same provider, and it has
  exchanged the code under this verifier and stored exactly one session, of the user who authorized, with the
  provider's two tokens encrypted, and leads to the redirect URI of the authorization. It succeeds whenever the provider answers both tokens
  while the user exists. The state carries no other check: it can be brought back any number of times, at any time, by any client.\<close>

theorem outgoing_login:
  assumes "authorize_oauth_session_route env reg token k payload db0 = Inr (url, st)" "outgoing_integrity db0"
    and "same_keys env env'" "same_keys env' env'" "sql_engine (se_ev env)" "sql_engine (se_ev env')"
  shows "\<exists>u provider challenge state. depends_user_id token = Some u \<and>
    provider \<in> set (xd_providers db0) \<and> pv_id provider = k \<and> pv_enabled provider \<and> st = '''' \<and>
    resolved reg (auth_view db0) ''OAuthSession'' CREATE token \<noteq> None \<and> resolved reg (auth_view db0) ''OAuthProvider'' USE token \<noteq> None \<and>
    derive_code_challenge (xe_libs env) (xe_verifier env) ''S256'' = Inr challenge \<and>
    url = authorize_url provider (callback_url (xe_base_url env) k) state (requested_scopes provider (az_scope payload)) challenge \<and>
    (\<forall>(db :: 'w outgoing_db_scheme) k' code. outgoing_integrity db \<longrightarrow>
       callback_outcome env env' u k payload k' code db (oauth_callback_route env' k' code state db)) \<and>
    (\<forall>(db :: 'w outgoing_db_scheme) code p secret reply access refresh. outgoing_integrity db \<and> p \<in> set (xd_providers db) \<and> pv_id p = k \<and>
       decrypt_token env' (pv_client_secret p) = Inr secret \<and>
       provider_token_post env' p (exchange_code_data p secret code (xe_verifier env) (callback_url (xe_base_url env') k)) = Inr reply \<and>
       token_field reply ''access_token'' = Inr (Some access) \<and> token_field reply ''refresh_token'' = Inr (Some refresh) \<and>
       u \<in> u_id ` set (td_users db) \<and> se_uuid env' 0 \<notin> ss_id ` set (xd_sessions db) \<longrightarrow>
       (\<exists>location. fst (oauth_callback_route env' k code state db) = Inr location))"
proof -
  obtain u provider challenge state where a: "depends_user_id token = Some u" "load_provider env k db0 = Inr provider"
      "pv_enabled provider" "st = ''''" "az_redirect_uri payload \<noteq> []"
      "derive_code_challenge (xe_libs env) (xe_verifier env) ''S256'' = Inr challenge"
      "resolved reg (auth_view db0) ''OAuthSession'' CREATE token \<noteq> None" "resolved reg (auth_view db0) ''OAuthProvider'' USE token \<noteq> None"
      "mint_session_state env (pending_claims u (pv_id provider) (az_redirect_uri payload) (az_state payload)
        (requested_scopes provider (az_scope payload)) (xe_verifier env) (az_code_challenge payload)
        (az_code_challenge_method payload)) = Inr state"
      "url = authorize_url provider (callback_url (xe_base_url env) k) state (requested_scopes provider (az_scope payload)) challenge"
    using authorize_route_Inr [OF assms(1)] by blast
  have "distinct (map pv_id (xd_providers db0))" using assms(2) by (simp add: outgoing_integrity_def)
  then have p: "provider \<in> set (xd_providers db0)" "pv_id provider = k" using a(2) load_provider_Inr [OF _ assms(5)] by auto
  note minted = a(9) [unfolded p(2)]
  have outcome: "callback_outcome env env' u k payload k' code db (oauth_callback_route env' k' code state db)"
    if "outgoing_integrity db" for db :: "'w outgoing_db_scheme" and k' code
    by (rule callback_outcome_state [OF assms(3,4,6) that minted a(5)])
  obtain claims where c: "decode_session_state env' state = Inr claims" "map_of claims ''sub'' = Some (VStr (uuid_str u))"
      "map_of claims ''pid'' = Some (VStr (uuid_str k))" "map_of claims ''ivf'' = Some (VStr (xe_verifier env))"
    using state_decodes [OF assms(3) minted] by blast
  have success: "\<exists>location. fst (oauth_callback_route env' k code state db) = Inr location"
    if i: "outgoing_integrity db" and q: "q \<in> set (xd_providers db)" "pv_id q = k" "decrypt_token env' (pv_client_secret q) = Inr secret"
       "provider_token_post env' q (exchange_code_data q secret code (xe_verifier env) (callback_url (xe_base_url env') k)) = Inr reply"
       "token_field reply ''access_token'' = Inr (Some access)" "token_field reply ''refresh_token'' = Inr (Some refresh)"
       "u \<in> u_id ` set (td_users db)" "se_uuid env' 0 \<notin> ss_id ` set (xd_sessions db)"
    for db :: "'w outgoing_db_scheme" and code q secret reply access refresh
  proof -
    have "distinct (map pv_id (xd_providers db))" using i by (simp add: outgoing_integrity_def)
    then have l: "load_provider env' k db = Inr q" using q(1,2) load_provider_Inr [OF _ assms(6)] by auto
    have "map_of claims ''pid'' = Some (VStr (uuid_str (pv_id q)))" "pv_id q \<in> pv_id ` set (xd_providers db)"
      using c(3) q(1,2) by auto
    then obtain r where "handle_session_callback env' q code state (callback_url (xe_base_url env') k) db = Inr r"
      using callback_succeeds [OF assms(4) c(1,2,4) _ q(3-7) _ q(8)] by blast
    then show ?thesis by (cases r) (simp add: oauth_callback_route_def l commit_read_def c(1) session_http_def)
  qed
  show ?thesis
    by (rule exI [of _ u], rule exI [of _ provider], rule exI [of _ challenge], rule exI [of _ state],
        intro conjI a(1,3,4,6,7,8,10) p allI impI outcome) (assumption | elim conjE, rule success, assumption+)+
qed

section \<open>Overlapping refreshes\<close>

lemma refresh_route_Inr:
  assumes "refresh_oauth_session_route env reg token lock k before db = (Inr r, db')"
  shows "\<exists>f s p x. resolved reg (auth_view before) ''OAuthSession'' USE token = Some f \<and> get_session env f k before = Inr s \<and>
    load_provider env (ss_oauth_provider_id s) before = Inr p \<and> explicit_refresh env lock s p db = Inr (x, db') \<and> r = session_to_read x"
proof -
  obtain f where f: "resolved reg (auth_view before) ''OAuthSession'' USE token = Some f"
    using assms by (cases "resolved reg (auth_view before) ''OAuthSession'' USE token")
      (auto simp: refresh_oauth_session_route_def guard_simps commit_read_def)
  show ?thesis
    using assms unfolding refresh_oauth_session_route_def guard_simps(2) [OF f]
    by (auto simp: commit_read_def bindR_Inr_iff read_session_def f split: sum.splits)
qed

lemma explicit_refresh_Inr:
  assumes "same_keys env env" "explicit_refresh env granted seen provider db = Inr (x, db')"
  shows "\<exists>s access. refreshed env seen provider access s db db' \<and> x \<in> set (xd_sessions db') \<and> ss_id x = ss_id seen \<and>
    ss_id seen \<in> ss_id ` set (xd_sessions db)"
proof -
  have lock: "granted" "ss_id seen \<in> ss_id ` set (xd_sessions db)"
    using assms(2) by (auto simp: explicit_refresh_def bindR_Inr_iff lock_for_refresh_Inr split: if_splits)
  then obtain s where s: "do_refresh env seen provider db = Inr (s, db')" "List.find (\<lambda>x. ss_id x = ss_id seen) (xd_sessions db') = Some x"
    using assms(2) by (auto simp: explicit_refresh_def lock_for_refresh_def bindR_Inr_iff split: if_splits option.split_asm)
  from do_refresh_Inr [OF assms(1) s(1)] s(2) lock(2) show ?thesis
    by (fastforce simp: find_Some_iff in_set_conv_nth)
qed

text \<open>C39. Two refreshes of one session that were both read before either had the lock. The first stores the tokens the provider
  answered it with. The second, with the lock, the same clock or a later one, does not see them: it sends the refresh token the first has used, so a
  provider that rotates its refresh tokens refuses it, and the request is a 502, or a 409 when the old expiry has passed, that changes
  nothing.\<close>

theorem overlapping_refresh:
  assumes "same_keys env env" "outgoing_integrity db" "sql_engine (se_ev env)"
    and "refresh_oauth_session_route env reg token True k db db = (Inr r, db1)"
    and rejects: "\<And>url data plain s. s \<in> set (xd_sessions db) \<Longrightarrow> ss_id s = k \<Longrightarrow>
      decrypt_token env (ss_refresh_token s) = Inr plain \<Longrightarrow> (''refresh_token'', plain) \<in> set data \<Longrightarrow> post url data = Reply 400 body"
  shows "\<exists>s x provider plain secret reply access. s \<in> set (xd_sessions db) \<and> ss_id s = k \<and>
    provider \<in> set (xd_providers db) \<and> pv_id provider = ss_oauth_provider_id s \<and>
    decrypt_token env (ss_refresh_token s) = Inr plain \<and> decrypt_token env (pv_client_secret provider) = Inr secret \<and>
    provider_token_post env provider (refresh_data provider secret plain) = Inr reply \<and>
    token_field reply ''access_token'' = Inr (Some access) \<and>
    x \<in> set (xd_sessions db1) \<and> ss_id x = k \<and> decrypt_token env (ss_access_token x) = Inr access \<and>
    (\<forall>r. token_field reply ''refresh_token'' = Inr (Some r) \<longrightarrow> decrypt_token env (ss_refresh_token x) = Inr r) \<and>
    outgoing_integrity db1 \<and>
    (\<forall>now. \<exists>status \<in> {409, 502}.
       refresh_oauth_session_route (env\<lparr>se_now := now, xe_post := post\<rparr>) reg token True k db db1 = (Inl status, db1))"
proof -
  let ?env2 = "\<lambda>now. env\<lparr>se_now := now, xe_post := post\<rparr>"
  have d: "distinct (map ss_id (xd_sessions db))" "distinct (map pv_id (xd_providers db))"
    using assms(2) by (simp_all add: outgoing_integrity_def)
  obtain f s p x where f: "resolved reg (auth_view db) ''OAuthSession'' USE token = Some f"
      and g: "get_session env f k db = Inr s" "load_provider env (ss_oauth_provider_id s) db = Inr p"
      and e: "explicit_refresh env True s p db = Inr (x, db1)"
    using refresh_route_Inr [OF assms(4)] by blast
  have s: "s \<in> set (xd_sessions db)" "ss_id s = k"
    using g(1) session_table.get_Inr_iff [OF d(1)] by (auto simp: get_session_def)
  have p: "p \<in> set (xd_providers db)" "pv_id p = ss_oauth_provider_id s"
    using g(2) load_provider_Inr [OF d(2) assms(3)] by auto
  obtain n access where r: "refreshed env s p access n db db1" "x \<in> set (xd_sessions db1)" "ss_id x = ss_id s"
    using explicit_refresh_Inr [OF assms(1) e] by blast
  then obtain plain secret reply refresh where t: "decrypt_token env (ss_refresh_token s) = Inr plain"
      "decrypt_token env (pv_client_secret p) = Inr secret"
      "provider_token_post env p (refresh_data p secret plain) = Inr reply"
      "token_field reply ''access_token'' = Inr (Some access)" "token_field reply ''refresh_token'' = Inr refresh"
      "decrypt_token env (ss_access_token n) = Inr access"
      "decrypt_token env (ss_refresh_token n) = Inr (case refresh of None \<Rightarrow> plain | Some r \<Rightarrow> r)"
      "db1 = db\<lparr>xd_sessions := map (\<lambda>x. if ss_id x = ss_id s then flush_session (se_now env) s n x else x) (xd_sessions db)\<rparr>"
    by (auto simp: refreshed_def)
  have only: "y = s" if "y \<in> set (xd_sessions db)" "ss_id y = ss_id s" for y
    using that s(1) d(1) by (auto simp: distinct_map dest: inj_onD)
  have x: "x = flush_session (se_now env) s n s" using r(2,3) only by (auto simp: t(8) split: if_splits)
  then have stored: "ss_access_token x = ss_access_token n" "ss_refresh_token x = ss_refresh_token n"
    by (auto simp: flush_session_def net_change_def)
  have ids: "ss_id s \<in> ss_id ` set (xd_sessions db1)" by (rule image_eqI [OF _ r(2)]) (simp add: r(3))
  have "\<exists>status \<in> {409, 502}. refresh_oauth_session_route (?env2 now) reg token True k db db1 = (Inl status, db1)" for now
  proof -
    have post: "post url (refresh_data p secret plain) = Reply 400 body" for url
      by (rule rejects [OF s t(1)]) (simp add: refresh_data_def)
    have dec: "decrypt_token (?env2 now) c = decrypt_token env c" for c by (simp add: decrypt_token_def)
    have "do_refresh (?env2 now) s p db1 = Inl (ProviderError ''status'')"
      by (simp add: do_refresh_def refresh_with_provider_def dec t(1,2) provider_token_post_def post)
    then have "\<exists>err. explicit_refresh (?env2 now) True s p db1 = Inl err \<and> on_refresh err \<in> {Some 409, Some 502}"
      using ids by (auto simp: explicit_refresh_def lock_for_refresh_def)
    then obtain err where "explicit_refresh (?env2 now) True s p db1 = Inl err" "on_refresh err \<in> {Some 409, Some 502}" by blast
    moreover have "get_session (?env2 now) f k db = Inr s" "load_provider (?env2 now) (ss_oauth_provider_id s) db = Inr p"
      using g by (simp_all add: get_session_def load_provider_def get_provider_def)
    ultimately show ?thesis
      by (auto simp: refresh_oauth_session_route_def guard_simps(2) [OF f] session_http_def commit_read_def)
  qed
  moreover have "outgoing_integrity db1" using refreshed_keeps [OF r(1) assms(2)] by blast
  ultimately show ?thesis
    using s p t(1-7) r(2,3) by (intro exI [of _ s] exI [of _ x] exI [of _ p] exI [of _ plain] exI [of _ secret] exI [of _ reply] exI [of _ access])
      (simp add: stored)
qed

section \<open>Concrete instances\<close>

definition witness_outgoing_env :: outgoing_env where
  "witness_outgoing_env = svc_env.extend witness_svc_env (outgoing_env.fields (encryption_service key_a [key_a]) (\<lambda>i. i) witness_libs
     ''ver'' ''https://x'' (\<lambda>url data. Reply 200 [(''access_token'', VStr ''AT''), (''refresh_token'', VStr ''RT'')]))"

definition witness_provider :: oauth_provider where
  "witness_provider = \<lparr>pv_id = 1, pv_name = ''forge'', pv_creator_id = 7, pv_url = ''https://f'', pv_client_id = ''c'',
     pv_client_secret = ref_token ''a'' ''secret-a'' [(''v'', VStr ''cs'')], pv_scopes = [''repo''], pv_expire_drift_tolerance = 60,
     pv_authorize_path = ''/authorize'', pv_token_path = ''/token'', pv_refresh_path = ''/token'', pv_revocation_path = None,
     pv_access_token_expires_in = 900, pv_refresh_token_expires_in = 2592000, pv_enabled = True, pv_created_at = 0, pv_updated_at = 0\<rparr>"

definition witness_session :: oauth_session where
  "witness_session = \<lparr>ss_id = 5, ss_oauth_provider_id = 1, ss_creator_id = 7,
     ss_refresh_token = ref_token ''a'' ''secret-a'' [(''v'', VStr ''RT0'')], ss_access_token = ref_token ''a'' ''secret-a'' [(''v'', VStr ''AT0'')],
     ss_access_token_expires_at = 0, ss_refresh_token_expires_at = None, ss_tolerate_invalid = False, ss_enabled = True,
     ss_created_at = 0, ss_updated_at = 0\<rparr>"

definition witness_outgoing_db :: outgoing_db where
  "witness_outgoing_db = svc_db.extend keyed_db (outgoing_db.fields [witness_provider] [witness_session])"

lemma witness_outgoing_parts:
  "se_ev witness_outgoing_env = sql_eval" "auth_view witness_outgoing_db = auth_view keyed_db" "xd_providers witness_outgoing_db = [witness_provider]"
  "xd_sessions witness_outgoing_db = [witness_session]" "td_users witness_outgoing_db = td_users keyed_db"
  "xe_libs witness_outgoing_env = witness_libs" "se_now witness_outgoing_env = 0"
  "xe_post witness_outgoing_env url data = Reply 200 [(''access_token'', VStr ''AT''), (''refresh_token'', VStr ''RT'')]"
  by (simp_all add: witness_outgoing_env_def witness_svc_env_def svc_env.defs outgoing_env.defs witness_outgoing_db_def svc_db.defs
      outgoing_db.defs auth_view_def)

lemma witness_keys: "same_keys witness_outgoing_env witness_outgoing_env"
  by (simp add: same_keys_def witness_outgoing_env_def svc_env.defs outgoing_env.defs witness_svc_env_def shares_key_def encryption_service_def
      key_a_def dict_by_def)

lemma witness_token_decrypt: "decrypt_token witness_outgoing_env (ref_token ''a'' ''secret-a'' [(''v'', VStr s)]) = Inr s"
  by (simp add: decrypt_token_def witness_outgoing_env_def svc_env.defs outgoing_env.defs witness_svc_env_def decrypt_value_def
      decrypt_jwe_token_def ref_crypto_def encryption_service_def key_a_def dict_by_def get_decryption_key_def derive_symmetric_key_def
      enc_py_def)

lemma witness_outgoing_integrity: "outgoing_integrity witness_outgoing_db"
  by (simp add: outgoing_integrity_def witness_outgoing_parts witness_provider_def witness_session_def provider_fits_def keyed_db_def
      witness_svc_db_def witness_user_def)

lemma witness_outgoing_engine: "sql_engine (se_ev witness_outgoing_env)"
  using ref.sql_engine_axioms by (simp add: witness_outgoing_parts)

lemma outgoing_models:
  "map_of registrations ''OAuthSession'' = Some ''oauth_session_permission''"
  "map_of registrations ''OAuthProvider'' = Some ''oauth_provider_permission''"
  by (simp_all add: registrations_def)

lemmas outgoing_resolved = outgoing_models [THEN seven_resolved, folded witness_outgoing_parts(2)]

lemma witness_load: "load_provider witness_outgoing_env 1 witness_outgoing_db = Inr witness_provider"
  using load_provider_Inr [OF _ witness_outgoing_engine, of witness_outgoing_db 1 witness_provider]
  by (simp add: witness_outgoing_parts witness_provider_def)

lemma witness_fields:
  "token_field [(''access_token'', VStr ''AT''), (''refresh_token'', VStr ''RT'')] ''access_token'' = Inr (Some ''AT'')"
  "token_field [(''access_token'', VStr ''AT''), (''refresh_token'', VStr ''RT'')] ''refresh_token'' = Inr (Some ''RT'')"
  by (simp_all add: token_field_def text_field_def falsy_def)

lemma witness_refresh:
  assumes "ss_refresh_token seen = ref_token ''a'' ''secret-a'' [(''v'', VStr p)]"
  shows "\<exists>s db'. do_refresh witness_outgoing_env seen witness_provider db = Inr (s, db')"
proof -
  obtain a r where e: "encrypt_token witness_outgoing_env 0 ''AT'' = Inr a" "encrypt_token witness_outgoing_env 1 ''RT'' = Inr r"
    using encrypt_token_total [OF witness_keys] by metis
  have "refresh_with_provider witness_outgoing_env witness_provider p = Inr [(''access_token'', VStr ''AT''), (''refresh_token'', VStr ''RT'')]"
    by (simp add: refresh_with_provider_def witness_provider_def witness_token_decrypt provider_token_post_def witness_outgoing_parts)
  then show ?thesis
    by (simp add: do_refresh_def assms witness_token_decrypt witness_fields e [unfolded One_nat_def] Let_def)
qed

lemma witness_session_token: "ss_refresh_token witness_session = ref_token ''a'' ''secret-a'' [(''v'', VStr ''RT0'')]"
  by (simp add: witness_session_def)

lemma witness_uuid: "se_uuid witness_outgoing_env 0 \<noteq> ss_id witness_session"
  by (simp add: witness_outgoing_env_def svc_env.defs outgoing_env.defs witness_svc_env_def witness_session_def)

lemma witness_secret: "decrypt_token witness_outgoing_env (pv_client_secret witness_provider) = Inr ''cs''"
  by (simp add: witness_provider_def witness_token_decrypt)

lemma witness_users: "7 \<in> u_id ` set (td_users keyed_db)"
  by (simp add: keyed_db_def witness_svc_db_def witness_user_def)

theorem outgoing_login_witness:
  "\<exists>url st state. authorize_oauth_session_route witness_outgoing_env registrations seven 1
       \<lparr>az_redirect_uri = ''https://app'', az_state = None, az_scope = None, az_code_challenge = None, az_code_challenge_method = None\<rparr>
       witness_outgoing_db = Inr (url, st) \<and>
     (\<exists>location. fst (oauth_callback_route witness_outgoing_env 1 ''code'' state witness_outgoing_db) = Inr location)"
proof -
  let ?p = "\<lparr>az_redirect_uri = ''https://app'', az_state = None, az_scope = None, az_code_challenge = None, az_code_challenge_method = None\<rparr>"
  let ?reply = "[(''access_token'', VStr ''AT''), (''refresh_token'', VStr ''RT'')]"
  have v: "valid_authorize ?p = Inr ?p" by (simp add: valid_authorize_def sized_def on_opt_def)
  have u: "depends_user_id seven = Some 7" by (simp add: depends_user_id_def seven_def witness_token_def)
  have c: "derive_code_challenge witness_libs (xe_verifier witness_outgoing_env) ''S256'' = Inr (''h'' @ ''ver'')"
    by (simp add: derive_code_challenge_def upper_char_def Let_def is_ascii_def witness_libs_def witness_outgoing_env_def
        svc_env.defs outgoing_env.defs)
  have mint: "\<exists>state. mint_session_state witness_outgoing_env (pending_claims u i ru cst sc ver cc cm) = Inr state" for u i ru cst sc ver cc cm
    using create_decrypt [where payload = "pending_claims u i ru cst sc ver cc cm", OF _ _ pending_claims_json] witness_keys
    unfolding same_keys_def mint_session_state_def by (metis enc_py_Inr uncaught_Inr)
  have pv: "pv_enabled witness_provider" "pv_id witness_provider = 1"
    by (simp_all add: witness_provider_def)
  obtain url where b: "build_authorize_url witness_outgoing_env witness_provider 7 ''https://app'' None None None None
      (callback_url (xe_base_url witness_outgoing_env) 1) = Inr url"
    using mint [of 7 "pv_id witness_provider" "''https://app''" None "requested_scopes witness_provider None" "xe_verifier witness_outgoing_env"
        None None]
    by (auto simp: build_authorize_url_def Let_def pv witness_outgoing_parts c svc_py_def)
  obtain st where r: "authorize_oauth_session_route witness_outgoing_env registrations seven 1 ?p witness_outgoing_db = Inr (url, st)"
    unfolding authorize_oauth_session_route_def guards_resolved [OF cache_ok_new]
    by (simp add: outgoing_resolved v require_user_def u witness_load b session_http_def)
  obtain u state where s: "depends_user_id seven = Some u" "\<forall>(db :: outgoing_db) code p secret reply access refresh. outgoing_integrity db \<and>
       p \<in> set (xd_providers db) \<and> pv_id p = 1 \<and> decrypt_token witness_outgoing_env (pv_client_secret p) = Inr secret \<and>
       provider_token_post witness_outgoing_env p (exchange_code_data p secret code (xe_verifier witness_outgoing_env)
         (callback_url (xe_base_url witness_outgoing_env) 1)) = Inr reply \<and>
       token_field reply ''access_token'' = Inr (Some access) \<and> token_field reply ''refresh_token'' = Inr (Some refresh) \<and>
       u \<in> u_id ` set (td_users db) \<and> se_uuid witness_outgoing_env 0 \<notin> ss_id ` set (xd_sessions db) \<longrightarrow>
       (\<exists>location. fst (oauth_callback_route witness_outgoing_env 1 code state db) = Inr location)"
    using outgoing_login [OF r witness_outgoing_integrity witness_keys witness_keys witness_outgoing_engine witness_outgoing_engine]
    by (elim exE conjE) (rule that; assumption)
  have "u = 7" using s(1) u by simp
  then have "\<exists>location. fst (oauth_callback_route witness_outgoing_env 1 ''code'' state witness_outgoing_db) = Inr location"
    using s(2) [rule_format, of witness_outgoing_db witness_provider "''cs''" "''code''" ?reply "''AT''" "''RT''"] witness_outgoing_integrity
    by (simp add: witness_outgoing_parts witness_fields provider_token_post_def pv witness_uuid witness_secret witness_users)
  with r show ?thesis by blast
qed

theorem access_token_rules_witness:
  "\<exists>db'. get_valid_access_token witness_outgoing_env True 0 witness_session witness_provider witness_outgoing_db = Inr (Some ''AT'', db') \<and>
     outgoing_integrity db'"
proof -
  obtain s db' where r: "do_refresh witness_outgoing_env witness_session witness_provider witness_outgoing_db = Inr (s, db')"
    using witness_refresh [OF witness_session_token] by blast
  obtain access where a: "refreshed witness_outgoing_env witness_session witness_provider access s witness_outgoing_db db'"
      "decrypt_token witness_outgoing_env (ss_access_token s) = Inr access"
    using do_refresh_Inr [OF witness_keys r] by blast
  then have "access = ''AT''"
    by (auto simp: refreshed_def provider_token_post_def witness_outgoing_parts witness_fields)
  then have g: "get_valid_access_token witness_outgoing_env True 0 witness_session witness_provider witness_outgoing_db = Inr (Some ''AT'', db')"
    using r a(2) by (simp add: get_valid_access_token_def refresh_if_needed_def lock_for_refresh_def witness_outgoing_parts)
      (simp add: is_refresh_expired_def witness_session_def witness_provider_def)
  from access_token_rules [OF witness_keys witness_outgoing_integrity g] have "outgoing_integrity db'"
    using witness_outgoing_integrity by (auto simp: witness_session_def witness_provider_def)
  with g show ?thesis by blast
qed

theorem overlapping_refresh_witness:
  "\<exists>r db1. refresh_oauth_session_route witness_outgoing_env registrations seven True 5 witness_outgoing_db witness_outgoing_db = (Inr r, db1) \<and>
     outgoing_integrity db1 \<and>
     (\<exists>status \<in> {409, 502}. refresh_oauth_session_route (witness_outgoing_env\<lparr>se_now := 1, xe_post := \<lambda>url data. Reply 400 []\<rparr>)
        registrations seven True 5 witness_outgoing_db db1 = (Inl status, db1))"
proof -
  obtain s db1 where r: "do_refresh witness_outgoing_env witness_session witness_provider witness_outgoing_db = Inr (s, db1)"
    using witness_refresh [OF witness_session_token] by blast
  obtain access where a: "refreshed witness_outgoing_env witness_session witness_provider access s witness_outgoing_db db1"
    using do_refresh_Inr [OF witness_keys r] by blast
  obtain x where x: "List.find (\<lambda>x. ss_id x = ss_id witness_session) (xd_sessions db1) = Some x"
    using a by (auto simp: refreshed_def witness_outgoing_parts)
  have g: "get_session witness_outgoing_env AllSearchFilter 5 witness_outgoing_db = Inr witness_session"
    using session_table.get_Inr_iff [of "[witness_session]"]
    by (simp add: get_session_def witness_outgoing_parts in_scope_def filter_sql_def where_holds_def) (simp add: witness_session_def)
  have route: "refresh_oauth_session_route witness_outgoing_env registrations seven True 5 witness_outgoing_db witness_outgoing_db =
      (Inr (session_to_read x), db1)"
    unfolding refresh_oauth_session_route_def guard_simps(2) [OF outgoing_resolved(1)]
    using r x by (simp add: g witness_session_def [THEN arg_cong, of ss_oauth_provider_id] witness_load explicit_refresh_def
        lock_for_refresh_def witness_outgoing_parts session_http_def commit_read_def read_session_def)
      (simp add: witness_session_def)
  from overlapping_refresh [where post = "\<lambda>url data. Reply 400 []" and body = "[]", OF witness_keys witness_outgoing_integrity
      witness_outgoing_engine route refl]
  show ?thesis using route by blast
qed

end
