(* ===== verification/OutgoingHistory.thy ===== *)
theory OutgoingHistory
  imports OutgoingLaws IdentityTypes ServiceLaws
begin

text \<open>
  What holds of the stored providers and sessions along every history of requests: the constraints, the bounds of the
  schemas, and that every secret column holds a ciphertext the configured keys can read.
\<close>

section \<open>Well-formed rows\<close>

definition sealed :: "'y outgoing_env_scheme \<Rightarrow> string \<Rightarrow> bool" where
  "sealed env c = (\<exists>plain. decrypt_token env c = Inr plain)"

definition provider_ok :: "oauth_provider \<Rightarrow> bool" where
  "provider_ok r =
     (name_ok 255 (pv_name r) \<and> pv_url r \<noteq> [] \<and> length (pv_url r) \<le> 2048 \<and> pv_client_id r \<noteq> [] \<and> length (pv_client_id r) \<le> 255 \<and>
      0 \<le> pv_expire_drift_tolerance r \<and> length (pv_authorize_path r) \<le> 255 \<and> length (pv_token_path r) \<le> 255 \<and>
      length (pv_refresh_path r) \<le> 255 \<and> (\<forall>p. pv_revocation_path r = Some p \<longrightarrow> length p \<le> 255) \<and>
      1 \<le> pv_access_token_expires_in r \<and> 1 \<le> pv_refresh_token_expires_in r)"

definition outgoing_sound :: "'y outgoing_env_scheme \<Rightarrow> 'z outgoing_db_scheme \<Rightarrow> bool" where
  "outgoing_sound env db =
     (outgoing_integrity db \<and> (\<forall>r \<in> set (xd_providers db). provider_ok r \<and> sealed env (pv_client_secret r)) \<and>
      (\<forall>s \<in> set (xd_sessions db). sealed env (ss_access_token s) \<and> sealed env (ss_refresh_token s)))"

text \<open>The mutating requests.\<close>

datatype outgoing_request =
    PostProvider oauth_provider_create | PatchProvider uuid oauth_provider_update | DeleteProvider uuid
  | PostProviders "(uuid, oauth_provider_create, oauth_provider_update) batch_op list"
  | Callback uuid string string
  | PatchSession uuid oauth_session_update | DeleteSession uuid | PostSessions "(uuid, unit, oauth_session_update) batch_op list"

fun serve_outgoing ::
    "'y outgoing_env_scheme \<Rightarrow> registry \<Rightarrow> auth_token option \<Rightarrow> outgoing_request \<Rightarrow> 'z outgoing_db_scheme \<Rightarrow> 'z outgoing_db_scheme" where
  "serve_outgoing env reg t (PostProvider p) db = snd (create_oauth_provider_route env reg t p db)"
| "serve_outgoing env reg t (PatchProvider k u) db = snd (update_oauth_provider_route env reg t k u db)"
| "serve_outgoing env reg t (DeleteProvider k) db = snd (delete_oauth_provider_route env reg t k db)"
| "serve_outgoing env reg t (PostProviders ops) db = snd (write_oauth_providers_batch_route env reg t ops db)"
| "serve_outgoing env reg t (Callback k code state) db = snd (oauth_callback_route env k code state db)"
| "serve_outgoing env reg t (PatchSession k u) db = snd (update_oauth_session_route env reg t k u db)"
| "serve_outgoing env reg t (DeleteSession k) db = snd (delete_oauth_session_route env reg t k db)"
| "serve_outgoing env reg t (PostSessions ops) db = snd (write_oauth_sessions_batch_route env reg t ops db)"

text \<open>
  What a change of the identity tables leaves: providers and sessions of deleted users go, and a user cannot be
  deleted while a session of another user refers to one of its providers.
\<close>

definition cascade_outgoing :: "'z outgoing_db_scheme \<Rightarrow> 'z outgoing_db_scheme" where
  "cascade_outgoing db =
     db\<lparr>xd_providers := filter (\<lambda>r. pv_creator_id r \<in> u_id ` set (td_users db)) (xd_providers db),
        xd_sessions := filter (\<lambda>s. ss_creator_id s \<in> u_id ` set (td_users db)) (xd_sessions db)\<rparr>"

definition providers_kept :: "'z outgoing_db_scheme \<Rightarrow> bool" where
  "providers_kept db =
     (\<forall>s \<in> set (xd_sessions (cascade_outgoing db)). ss_oauth_provider_id s \<in> pv_id ` set (xd_providers (cascade_outgoing db)))"

text \<open>
  A history interleaves these requests, by any principal, with explicit and lazy refreshes, whose session may have been read from an earlier state,
  and with calls of the identity services. All servers share their keys with the reader \<open>env0\<close>.
\<close>

inductive outgoing_history :: "outgoing_env \<Rightarrow> registry \<Rightarrow> outgoing_db \<Rightarrow> outgoing_db \<Rightarrow> bool" for env0 reg db where
  start: "outgoing_history env0 reg db db"
| request: "outgoing_history env0 reg db db1 \<Longrightarrow> same_keys env env0 \<Longrightarrow> same_keys env env \<Longrightarrow>
    outgoing_history env0 reg db (serve_outgoing (env :: outgoing_env) reg t req db1)"
| refresh: "outgoing_history env0 reg db before \<Longrightarrow> outgoing_history env0 reg db db1 \<Longrightarrow> same_keys env env0 \<Longrightarrow> same_keys env env \<Longrightarrow>
    outgoing_history env0 reg db (snd (refresh_oauth_session_route (env :: outgoing_env) reg t lock k before db1))"
| lazy: "outgoing_history env0 reg db db1 \<Longrightarrow> same_keys env env0 \<Longrightarrow> same_keys env env \<Longrightarrow>
    get_valid_access_token (env :: outgoing_env) lock t0 seen provider db1 = Inr (token, db2) \<Longrightarrow> outgoing_history env0 reg db db2"
| identity: "outgoing_history env0 reg db db1 \<Longrightarrow> svc_step db1 db2 \<Longrightarrow> providers_kept db2 \<Longrightarrow>
    outgoing_history env0 reg db (cascade_outgoing db2)"

section \<open>Payloads\<close>

definition provider_payload :: "oauth_provider_create \<Rightarrow> bool" where
  "provider_payload p =
     (name_ok 255 (pc_name p) \<and> pc_url p \<noteq> [] \<and> length (pc_url p) \<le> 2048 \<and> pc_client_id p \<noteq> [] \<and> length (pc_client_id p) \<le> 255 \<and>
      0 \<le> pc_expire_drift_tolerance p \<and> length (pc_authorize_path p) \<le> 255 \<and> length (pc_token_path p) \<le> 255 \<and>
      length (pc_refresh_path p) \<le> 255 \<and> (\<forall>q. pc_revocation_path p = Some q \<longrightarrow> length q \<le> 255) \<and>
      1 \<le> pc_access_token_expires_in p \<and> 1 \<le> pc_refresh_token_expires_in p)"

definition provider_changes :: "oauth_provider_update \<Rightarrow> bool" where
  "provider_changes p = (\<forall>r c. provider_ok r \<longrightarrow> provider_ok (apply_provider_update p c r))"

lemma new_provider_ok: "provider_payload p \<Longrightarrow> provider_ok (new_provider env i u p c)"
  by (simp add: provider_payload_def provider_ok_def new_provider_def)

lemma valid_provider_create_ok: "valid_provider_create p = Inr q \<Longrightarrow> provider_payload q"
  by (auto simp: valid_provider_create_def bindR_Inr_iff provider_payload_def sized_def at_least_def
      non_empty_def max_chars_def on_opt_def dest: strip_required_ok split: if_splits option.splits)

lemma provider_updated: "provider_ok (r\<lparr>pv_updated_at := t\<rparr>) = provider_ok r"
  by (simp add: provider_ok_def)

lemma set_if_keeps: "P r \<Longrightarrow> (\<And>v x. field = Some v \<Longrightarrow> P x \<Longrightarrow> P (g v x)) \<Longrightarrow> P (set_if field g r)"
  by (simp add: set_if_def split: option.split)

lemma on_opt_checks:
  "on_opt (sized lo hi) v = Inr w \<Longrightarrow> \<forall>s. v = Some s \<longrightarrow> lo \<le> length s \<and> length s \<le> hi"
  "on_opt (at_least m) u = Inr x \<Longrightarrow> \<forall>i. u = Some i \<longrightarrow> m \<le> i"
  "on_opt (max_chars hi) v = Inr w \<Longrightarrow> \<forall>s. v = Some s \<longrightarrow> length s \<le> hi"
  by (auto simp: on_opt_def sized_def at_least_def max_chars_def bindR_Inr_iff split: if_splits)

lemma valid_provider_update_ok:
  assumes "valid_provider_update p = Inr q"
  shows "provider_changes q"
proof -
  have "\<exists>a1 a2 a3 a4 a5 a6 a7 a8 a9 name. on_opt (sized 1 2048) (pup_url p) = Inr a1 \<and>
      on_opt (sized 1 255) (pup_client_id p) = Inr a2 \<and>
      on_opt (at_least 0) (pup_expire_drift_tolerance p) = Inr a3 \<and>
      on_opt (max_chars 255) (pup_authorize_path p) = Inr a4 \<and>
      on_opt (max_chars 255) (pup_token_path p) = Inr a5 \<and>
      on_opt (max_chars 255) (pup_refresh_path p) = Inr a6 \<and>
      on_opt (max_chars 255) (pup_revocation_path p) = Inr a7 \<and>
      on_opt (at_least 1) (pup_access_token_expires_in p) = Inr a8 \<and>
      on_opt (at_least 1) (pup_refresh_token_expires_in p) = Inr a9 \<and>
      q = p\<lparr>pup_name := name\<rparr> \<and>
      on_opt (strip_required 255) (pup_name p) = Inr name"
    using assms unfolding valid_provider_update_def by (elim bindR_InrE) auto
  then obtain a1 a2 a3 a4 a5 a6 a7 a8 a9 name where v: "on_opt (sized 1 2048) (pup_url p) = Inr a1" "on_opt (sized 1 255) (pup_client_id p) = Inr a2"
      "on_opt (at_least 0) (pup_expire_drift_tolerance p) = Inr a3" "on_opt (max_chars 255) (pup_authorize_path p) = Inr a4"
      "on_opt (max_chars 255) (pup_token_path p) = Inr a5" "on_opt (max_chars 255) (pup_refresh_path p) = Inr a6"
      "on_opt (max_chars 255) (pup_revocation_path p) = Inr a7" "on_opt (at_least 1) (pup_access_token_expires_in p) = Inr a8"
      "on_opt (at_least 1) (pup_refresh_token_expires_in p) = Inr a9" "q = p\<lparr>pup_name := name\<rparr>"
      "on_opt (strip_required 255) (pup_name p) = Inr name"
    by blast
  have n: "name_ok 255 s" if "pup_name q = Some s" for s
    by (rule on_opt_Inr [OF v(11) strip_required_ok]) (use that v(10) in simp_all)
  have b: "(\<forall>s. pup_url q = Some s \<longrightarrow> 1 \<le> length s \<and> length s \<le> 2048) \<and> (\<forall>s. pup_client_id q = Some s \<longrightarrow> 1 \<le> length s \<and> length s \<le> 255) \<and>
      (\<forall>i. pup_expire_drift_tolerance q = Some i \<longrightarrow> 0 \<le> i) \<and> (\<forall>s. pup_authorize_path q = Some s \<longrightarrow> length s \<le> 255) \<and>
      (\<forall>s. pup_token_path q = Some s \<longrightarrow> length s \<le> 255) \<and> (\<forall>s. pup_refresh_path q = Some s \<longrightarrow> length s \<le> 255) \<and>
      (\<forall>s. pup_revocation_path q = Some s \<longrightarrow> length s \<le> 255) \<and> (\<forall>i. pup_access_token_expires_in q = Some i \<longrightarrow> 1 \<le> i) \<and>
      (\<forall>i. pup_refresh_token_expires_in q = Some i \<longrightarrow> 1 \<le> i)"
    using on_opt_checks(1) [OF v(1)] on_opt_checks(1) [OF v(2)] on_opt_checks(2) [OF v(3)] on_opt_checks(3) [OF v(4)]
      on_opt_checks(3) [OF v(5)] on_opt_checks(3) [OF v(6)] on_opt_checks(3) [OF v(7)] on_opt_checks(2) [OF v(8)]
      on_opt_checks(2) [OF v(9)] by (simp add: v(10))
  show ?thesis
    unfolding provider_changes_def apply_provider_update_def
    by (intro allI impI set_if_keeps [where P = provider_ok], assumption) (use n b in \<open>auto simp: provider_ok_def\<close>)
qed

section \<open>Every operation keeps the rows well-formed\<close>

lemma sealed_encrypted: "same_keys env env0 \<Longrightarrow> encrypt_token env i s = Inr c \<Longrightarrow> sealed env0 c"
  using decrypt_encrypted [of env env0 i s c] by (auto simp: sealed_def)

lemma sealed_secret: "same_keys env env0 \<Longrightarrow> encrypt_secret env i s = Inr c \<Longrightarrow> sealed env0 c"
  by (rule sealed_encrypted) (simp_all add: encrypt_token_def)

lemma outgoing_soundI:
  assumes "outgoing_integrity db" "\<And>r. r \<in> set (xd_providers db) \<Longrightarrow> provider_ok r \<and> sealed env (pv_client_secret r)"
    and "\<And>s. s \<in> set (xd_sessions db) \<Longrightarrow> sealed env (ss_access_token s) \<and> sealed env (ss_refresh_token s)"
  shows "outgoing_sound env db"
  using assms by (simp add: outgoing_sound_def)

lemma outgoing_soundD:
  "outgoing_sound env db \<Longrightarrow> outgoing_integrity db"
  "outgoing_sound env db \<Longrightarrow> r \<in> set (xd_providers db) \<Longrightarrow> provider_ok r \<and> sealed env (pv_client_secret r)"
  "outgoing_sound env db \<Longrightarrow> s \<in> set (xd_sessions db) \<Longrightarrow> sealed env (ss_access_token s) \<and> sealed env (ss_refresh_token s)"
  by (simp_all add: outgoing_sound_def)

lemma provider_steps:
  assumes "outgoing_sound env0 db" "same_keys env env0"
  shows "create_provider env u i f p db = Inr (r, db1) \<Longrightarrow> provider_payload p \<Longrightarrow> outgoing_sound env0 db1"
    "update_provider env f k q db = Inr (r, db2) \<Longrightarrow> provider_changes q \<Longrightarrow> outgoing_sound env0 db2"
    "delete_provider env f k db = Inr db3 \<Longrightarrow> outgoing_sound env0 db3"
proof -
  note i = outgoing_soundD(1) [OF assms(1)] and ok = outgoing_soundD(2,3) [OF assms(1)]
  show "outgoing_sound env0 db1" if c: "create_provider env u i f p db = Inr (r, db1)" "provider_payload p"
  proof (rule outgoing_soundI)
    show "outgoing_integrity db1" using provider_service.create_step [OF i c(1)] by blast
    obtain s where "encrypt_secret env i (pc_client_secret p) = Inr s" "r = new_provider env i u p s"
        "db1 = db\<lparr>xd_providers := xd_providers db @ [r]\<rparr>" using create_provider_Inr [OF c(1)] by blast
    note r = this
    have "provider_ok r \<and> sealed env0 (pv_client_secret r)"
      using new_provider_ok [OF c(2)] sealed_secret [OF assms(2) r(1)] unfolding r(2) by (simp add: new_provider_def)
    then show "provider_ok x \<and> sealed env0 (pv_client_secret x)" if "x \<in> set (xd_providers db1)" for x
      using that ok(1) by (auto simp: r(3))
    show "sealed env0 (ss_access_token x) \<and> sealed env0 (ss_refresh_token x)" if "x \<in> set (xd_sessions db1)" for x
      using that ok(2) by (simp add: r(3))
  qed
  show "outgoing_sound env0 db2" if c: "update_provider env f k q db = Inr (r, db2)" "provider_changes q"
  proof (rule outgoing_soundI)
    show "outgoing_integrity db2" using provider_service.update_step [OF i c(1)] by blast
    obtain r0 where r0: "r0 \<in> set (xd_providers db)" "db2 = set_provider db r"
      using update_provider_Inr [OF _ c(1)] i by (auto simp: outgoing_integrity_def)
    obtain r1 c1 where g: "r1 \<in> set (xd_providers db)" "\<And>c. c1 = Some c \<Longrightarrow> sealed env0 c"
        "r = r1 \<or> (\<exists>t. r = (apply_provider_update q c1 r1)\<lparr>pv_updated_at := t\<rparr>)"
    proof -
      obtain r1 c1 where g: "get_provider env f k db = Inr r1"
          "(case pup_client_secret q of None \<Rightarrow> Inr None | Some s \<Rightarrow> bindR (encrypt_secret env 0 s) (\<lambda>c. Inr (Some c))) = Inr c1"
          "r = r1 \<or> (\<exists>t. r = (apply_provider_update q c1 r1)\<lparr>pv_updated_at := t\<rparr>)"
        using c(1) unfolding update_provider_def Let_def
        by (elim bindR_InrE) (auto simp: flush_provider_Inr split: if_split_asm)
      have "r1 \<in> set (xd_providers db)" using g(1) unfolding get_provider_def by (rule scoped_get_mem)
      moreover have "sealed env0 c" if "c1 = Some c" for c
        using g(2) that sealed_secret [OF assms(2)] by (auto simp: bindR_Inr_iff split: option.split_asm)
      ultimately show ?thesis by (rule that [OF _ _ g(3)])
    qed
    have s1: "provider_ok r1" "sealed env0 (pv_client_secret r1)" using ok(1) [OF g(1)] by simp_all
    have "pv_client_secret (apply_provider_update q c1 r1) = (case c1 of None \<Rightarrow> pv_client_secret r1 | Some c \<Rightarrow> c)"
      by (simp add: apply_provider_update_def set_if_def split: option.splits)
    then have "sealed env0 (pv_client_secret (apply_provider_update q c1 r1))"
      using s1(2) g(2) by (simp split: option.split)
    moreover have "provider_ok (apply_provider_update q c1 r1)" using c(2) s1(1) by (simp add: provider_changes_def)
    ultimately have "provider_ok r \<and> sealed env0 (pv_client_secret r)"
      using s1 g(3) by (auto simp: provider_updated)
    then show "provider_ok x \<and> sealed env0 (pv_client_secret x)" if "x \<in> set (xd_providers db2)" for x
      using that ok(1) by (auto simp: r0(2) set_provider_def)
    show "sealed env0 (ss_access_token x) \<and> sealed env0 (ss_refresh_token x)" if "x \<in> set (xd_sessions db2)" for x
      using that ok(2) by (simp add: r0(2) set_provider_def)
  qed
  show "outgoing_sound env0 db3" if c: "delete_provider env f k db = Inr db3"
  proof (rule outgoing_soundI)
    show "outgoing_integrity db3" using provider_service.delete_step [OF i c] by blast
    have db3: "db3 = db\<lparr>xd_providers := filter (\<lambda>x. pv_id x \<noteq> k) (xd_providers db)\<rparr>"
      using delete_provider_Inr [OF _ c] i by (simp add: outgoing_integrity_def)
    show "provider_ok x \<and> sealed env0 (pv_client_secret x)" if "x \<in> set (xd_providers db3)" for x
      using that ok(1) by (simp add: db3)
    show "sealed env0 (ss_access_token x) \<and> sealed env0 (ss_refresh_token x)" if "x \<in> set (xd_sessions db3)" for x
      using that ok(2) by (simp add: db3)
  qed
qed

lemma session_steps:
  assumes "outgoing_sound env0 db"
  shows "update_session env f k q db = Inr (s, db1) \<Longrightarrow> outgoing_sound env0 db1"
    "delete_session env f k db = Inr db2 \<Longrightarrow> outgoing_sound env0 db2"
proof -
  note i = outgoing_soundD(1) [OF assms] and ok = outgoing_soundD(2,3) [OF assms]
  show "outgoing_sound env0 db1" if c: "update_session env f k q db = Inr (s, db1)"
  proof (rule outgoing_soundI)
    show "outgoing_integrity db1" using session_service.update_step [OF i c] by blast
    obtain s0 where s0: "s0 \<in> set (xd_sessions db)" "db1 = set_session db s" "ss_access_token s = ss_access_token s0"
        "ss_refresh_token s = ss_refresh_token s0"
      using update_session_Inr [OF _ c] i by (auto simp: outgoing_integrity_def)
    show "provider_ok x \<and> sealed env0 (pv_client_secret x)" if "x \<in> set (xd_providers db1)" for x
      using that ok(1) by (simp add: s0(2) set_session_def)
    show "sealed env0 (ss_access_token x) \<and> sealed env0 (ss_refresh_token x)" if "x \<in> set (xd_sessions db1)" for x
      using that ok(2) ok(2) [OF s0(1)] by (auto simp: s0(2-4) set_session_def)
  qed
  show "outgoing_sound env0 db2" if c: "delete_session env f k db = Inr db2"
  proof (rule outgoing_soundI)
    show "outgoing_integrity db2" using session_service.delete_step [OF i c] by blast
    have db2: "db2 = db\<lparr>xd_sessions := filter (\<lambda>x. ss_id x \<noteq> k) (xd_sessions db)\<rparr>"
      using delete_session_Inr [OF _ c] i by (simp add: outgoing_integrity_def)
    show "provider_ok x \<and> sealed env0 (pv_client_secret x)" if "x \<in> set (xd_providers db2)" for x
      using that ok(1) by (simp add: db2)
    show "sealed env0 (ss_access_token x) \<and> sealed env0 (ss_refresh_token x)" if "x \<in> set (xd_sessions db2)" for x
      using that ok(2) by (simp add: db2)
  qed
qed

lemma callback_step:
  assumes "outgoing_sound env0 db" "same_keys env env0" "handle_session_callback env provider code state url db = Inr (s, db')"
  shows "outgoing_sound env0 db'"
proof -
  obtain access refresh a r u reply where e: "encrypt_token env 0 access = Inr a" "encrypt_token env 1 refresh = Inr r"
    and s: "s = new_session env provider u a r reply" "session_violations db s = []" "db' = db\<lparr>xd_sessions := xd_sessions db @ [s]\<rparr>"
    using assms(3)
    by (auto simp: handle_session_callback_def bindR_Inr_iff flush_Inr_iff Let_def split: if_split_asm option.split_asm)
  have t: "sealed env0 (ss_access_token s)" "sealed env0 (ss_refresh_token s)"
    using sealed_encrypted [OF assms(2) e(1)] sealed_encrypted [OF assms(2) e(2)] by (simp_all add: s(1) new_session_def)
  show ?thesis
  proof (rule outgoing_soundI)
    show "outgoing_integrity db'" unfolding s(3) by (rule outgoing_integrity_add [OF outgoing_soundD(1) [OF assms(1)] s(2)])
    show "provider_ok x \<and> sealed env0 (pv_client_secret x)" if "x \<in> set (xd_providers db')" for x
      using that outgoing_soundD(2) [OF assms(1)] by (simp add: s(3))
    show "sealed env0 (ss_access_token x) \<and> sealed env0 (ss_refresh_token x)" if "x \<in> set (xd_sessions db')" for x
      using that outgoing_soundD(3) [OF assms(1)] t by (auto simp: s(3))
  qed
qed

text \<open>A refresh writes ciphertexts of its own, whatever object it started from.\<close>

lemma do_refresh_step:
  assumes "outgoing_sound env0 db" "same_keys env env0" "do_refresh env seen provider db = Inr (s, db')"
  shows "outgoing_sound env0 db'"
proof -
  obtain access refresh a r where e: "encrypt_token env 0 access = Inr a" "encrypt_token env 1 refresh = Inr r"
    and s: "ss_access_token s = a" "ss_refresh_token s = r"
      "db' = db\<lparr>xd_sessions := map (\<lambda>x. if ss_id x = ss_id seen then flush_session (se_now env) seen s x else x) (xd_sessions db)\<rparr>"
    using assms(3) unfolding do_refresh_def Let_def
    by (elim bindR_InrE) (auto elim!: bindR_InrE split: option.split_asm)
  have t: "sealed env0 (ss_access_token s)" "sealed env0 (ss_refresh_token s)"
    using sealed_encrypted [OF assms(2) e(1)] sealed_encrypted [OF assms(2) e(2)] by (simp_all add: s(1,2))
  have f: "sealed env0 (ss_access_token x) \<Longrightarrow> sealed env0 (ss_access_token (flush_session (se_now env) seen s x))"
    "sealed env0 (ss_refresh_token x) \<Longrightarrow> sealed env0 (ss_refresh_token (flush_session (se_now env) seen s x))" for x
    using t by (simp_all add: flush_session_def net_change_def)
  show ?thesis
  proof (rule outgoing_soundI)
    show "outgoing_integrity db'" unfolding s(3) by (rule outgoing_integrity_map [OF outgoing_soundD(1) [OF assms(1)]]) simp
    show "provider_ok x \<and> sealed env0 (pv_client_secret x)" if "x \<in> set (xd_providers db')" for x
      using that outgoing_soundD(2) [OF assms(1)] by (simp add: s(3))
    show "sealed env0 (ss_access_token x) \<and> sealed env0 (ss_refresh_token x)" if "x \<in> set (xd_sessions db')" for x
      using that outgoing_soundD(3) [OF assms(1)] f by (auto simp: s(3))
  qed
qed

lemma refresh_steps:
  assumes "outgoing_sound env0 db" "same_keys env env0"
  shows "explicit_refresh env lock seen provider db = Inr (s, db1) \<Longrightarrow> outgoing_sound env0 db1"
    "get_valid_access_token env lock t0 seen provider db = Inr (token, db2) \<Longrightarrow> outgoing_sound env0 db2"
proof -
  show "outgoing_sound env0 db1" if "explicit_refresh env lock seen provider db = Inr (s, db1)"
    using that assms(1) do_refresh_step [OF assms]
    by (auto simp: explicit_refresh_def lock_for_refresh_Inr bindR_Inr_iff split: if_splits option.split_asm)
  show "outgoing_sound env0 db2" if "get_valid_access_token env lock t0 seen provider db = Inr (token, db2)"
    using that assms(1) do_refresh_step [OF assms]
    by (auto simp: get_valid_access_token_def refresh_if_needed_def lock_for_refresh_Inr bindR_Inr_iff split: if_splits option.split_asm)
qed

lemma commit_read_keeps: "ok db \<Longrightarrow> (\<And>x db'. r = Inr (x, db') \<Longrightarrow> ok db') \<Longrightarrow> ok (snd (commit_read db read r))"
  by (cases r) (auto simp: commit_read_def split: prod.split)

lemma refresh_route_step:
  assumes "outgoing_sound env0 db" "same_keys env env0"
  shows "outgoing_sound env0 (snd (refresh_oauth_session_route env reg t lock k before db))"
  unfolding refresh_oauth_session_route_def
  by (rule commit_read_keeps [where ok = "outgoing_sound env0", OF assms(1)])
    (auto simp: guard_def bindR_Inr_iff intro: refresh_steps(1) [OF assms])

lemma serve_outgoing_sound:
  assumes "outgoing_sound env0 db" "same_keys env env0"
  shows "outgoing_sound env0 (serve_outgoing env reg t req db)"
proof (cases req)
  case (PostProvider p)
  show ?thesis unfolding PostProvider serve_outgoing.simps create_oauth_provider_route_def
    by (rule write_route_keeps [where ok = "outgoing_sound env0", OF assms(1)])
      (auto simp: require_user_def dest: valid_provider_create_ok intro: provider_steps(1) [OF assms] split: option.split_asm)
next
  case (PatchProvider k u)
  show ?thesis unfolding PatchProvider serve_outgoing.simps update_oauth_provider_route_def
    by (rule write_route_keeps [where ok = "outgoing_sound env0", OF assms(1)])
      (auto dest: valid_provider_update_ok intro: provider_steps(2) [OF assms])
next
  case (DeleteProvider k)
  show ?thesis unfolding DeleteProvider serve_outgoing.simps delete_oauth_provider_route_def
    by (rule commit_read_keeps [where ok = "outgoing_sound env0", OF assms(1)])
      (auto simp: guard_def bindR_Inr_iff intro: provider_steps(3) [OF assms])
next
  case (PostProviders ops)
  show ?thesis unfolding PostProviders serve_outgoing.simps write_oauth_providers_batch_route_def
  proof (rule batch_route_keeps [where ok = "outgoing_sound env0", OF assms(1)])
    fix fs ops' xs db'
    assume v: "valid_batch valid_provider_create valid_provider_update ops = Inr ops'"
      and h: "require_user 401 t (\<lambda>user_id. http_errors on_provider_batch (apply_provider_batch env user_id ops' fs db)) = Inr (xs, db')"
    have ops': "\<forall>op1 \<in> set ops'. op_ok provider_payload provider_changes op1"
      by (rule valid_batch_ok [OF v]) (rule valid_provider_create_ok valid_provider_update_ok; assumption)+
    obtain u where "batch_loop (create_provider env u) (update_provider env) (delete_provider env) fs 0 ops' db = Inr (xs, db')"
      using h by (auto simp: require_user_def apply_provider_batch_def split: option.split_asm)
    then show "outgoing_sound env0 db'"
      by (rule batch_loop_keeps [where ok = "outgoing_sound env0" and P = provider_payload and U = provider_changes, rotated 5])
        (use ops' assms in \<open>auto intro: provider_steps\<close>)
  qed
next
  case (Callback k code state)
  show ?thesis unfolding Callback serve_outgoing.simps oauth_callback_route_def
    by (rule commit_read_keeps [where ok = "outgoing_sound env0", OF assms(1)])
      (auto simp: bindR_Inr_iff intro: callback_step [OF assms])
next
  case (PatchSession k u)
  show ?thesis unfolding PatchSession serve_outgoing.simps update_oauth_session_route_def
    by (rule write_route_keeps [where ok = "outgoing_sound env0", OF assms(1)]) (auto intro: session_steps(1) [OF assms(1)])
next
  case (DeleteSession k)
  show ?thesis unfolding DeleteSession serve_outgoing.simps delete_oauth_session_route_def
    by (rule delete_route_keeps [where ok = "outgoing_sound env0", OF assms(1)]) (rule session_steps(2) [OF assms(1)])
next
  case (PostSessions ops)
  show ?thesis unfolding PostSessions serve_outgoing.simps write_oauth_sessions_batch_route_def
  proof (rule batch_route_keeps [where ok = "outgoing_sound env0", OF assms(1)])
    fix fs ops' xs db'
    assume h: "http_errors on_session_batch (apply_session_batch env ops' fs db) = Inr (xs, db')"
    have "op_ok (\<lambda>_. True) (\<lambda>_. True) op1" for op1 :: "(uuid, unit, oauth_session_update) batch_op" by (cases op1) simp_all
    then have ops': "\<forall>op1 \<in> set ops'. op_ok (\<lambda>_. True) (\<lambda>_. True) op1" by simp
    from h have "batch_loop no_create (update_session env) (delete_session env) fs 0 ops' db = Inr (xs, db')"
      by (simp add: apply_session_batch_def)
    then show "outgoing_sound env0 db'"
      by (rule batch_loop_keeps [where ok = "outgoing_sound env0" and P = "\<lambda>_. True" and U = "\<lambda>_. True", rotated 5])
        (use ops' assms(1) in \<open>auto simp: no_create_def intro: session_steps\<close>)
  qed
qed

lemma outgoing_more:
  assumes "svc_db.more db' = svc_db.more db"
  shows "xd_providers db' = xd_providers db" "xd_sessions db' = xd_sessions db"
  using assms by (cases db; cases db'; simp)+

lemma identity_outgoing:
  assumes "outgoing_sound env0 db" "svc_step db db'" "providers_kept db'"
  shows "outgoing_sound env0 (cascade_outgoing db')"
  using assms(1,3) unfolding outgoing_sound_def outgoing_integrity_def providers_kept_def
  by (simp add: cascade_outgoing_def outgoing_more [OF svc_step_more [OF assms(2)]] distinct_map_filter)

section \<open>What the routes answer\<close>

text \<open>A stored provider as a client sees it: all its fields, with the mask in place of the secret.\<close>

definition masked_row :: "'y outgoing_env_scheme \<Rightarrow> 'z outgoing_db_scheme \<Rightarrow> oauth_provider \<Rightarrow> bool" where
  "masked_row env db r =
     (pv_client_secret r = MASKED_SECRET \<and>
      (\<exists>p \<in> set (xd_providers db). r = p\<lparr>pv_client_secret := MASKED_SECRET\<rparr> \<and> sealed env (pv_client_secret p)))"

lemma masked_rowI: "outgoing_sound env db \<Longrightarrow> p \<in> set (xd_providers db) \<Longrightarrow> masked_row env db (provider_to_read p)"
  by (auto simp: masked_row_def provider_to_read_def dest: outgoing_soundD(2))

lemma read_all_providers: "read_all read_provider rs = Inr vs \<Longrightarrow> vs = map provider_to_read rs"
  by (simp add: read_provider_def [abs_def] read_all_Inr)

lemma read_opt_provider: "read_opt read_provider r = Inr (map_option provider_to_read r)"
  by (simp add: read_opt_def read_provider_def split: option.split)

lemma read_opt_providers: "read_all (read_opt read_provider) rs = Inr vs \<Longrightarrow> vs = map (map_option provider_to_read) rs"
  by (simp add: read_opt_provider [abs_def] read_all_Inr)

lemma Some_in_map_option: "Some r \<in> set (map (map_option g) xs) \<longleftrightarrow> (\<exists>x. Some x \<in> set xs \<and> r = g x)"
proof -
  have "Some r = map_option g z \<longleftrightarrow> (\<exists>x. z = Some x \<and> r = g x)" for z by (cases z) auto
  then show ?thesis by (auto simp: image_iff)
qed

lemma provider_searched:
  "search_providers env f db cur limit extra = Inr (rows, nc) \<Longrightarrow> set rows \<subseteq> set (xd_providers db)"
  by (auto simp: search_providers_def scoped_search_def bindR_Inr_iff Let_def dest: in_set_takeD split: if_splits)

lemma provider_found:
  assumes "outgoing_integrity db" "get_many_providers env f ids db = Inr rows" "Some p \<in> set rows"
  shows "p \<in> set (xd_providers db)"
  using provider_table.get_many_Inr [OF _ assms(2) [unfolded get_many_providers_def]] assms(1,3)
  by (auto simp: outgoing_integrity_def in_set_conv_nth)

lemma provider_reads_masked:
  assumes "outgoing_sound env db"
  shows "get_oauth_provider_route env reg t k db = Inr r \<Longrightarrow> masked_row env db r \<and> pv_id r = k"
    and "search_oauth_providers_route env reg t sf cursor limit db = Inr (items, nc, n) \<Longrightarrow> \<forall>r \<in> set items. masked_row env db r"
    and "get_oauth_providers_batch_route env reg t ids db = Inr found \<Longrightarrow> \<forall>r. Some r \<in> set found \<longrightarrow> masked_row env db r"
proof -
  have i: "outgoing_integrity db" using assms by (simp add: outgoing_sound_def)
  show "masked_row env db r \<and> pv_id r = k" if g: "get_oauth_provider_route env reg t k db = Inr r"
  proof -
    from g obtain f p where "get_provider env f k db = Inr p" "r = provider_to_read p"
      by (auto simp: get_oauth_provider_route_def get_route_def guard_def bindR_Inr_iff read_provider_def)
    moreover from this(1) i have "p \<in> set (xd_providers db)" "pv_id p = k"
      by (auto simp: get_provider_def provider_table.get_Inr_iff outgoing_integrity_def)
    ultimately show ?thesis using masked_rowI [OF assms] by (simp add: provider_to_read_def)
  qed
  show "\<forall>r \<in> set items. masked_row env db r" if g: "search_oauth_providers_route env reg t sf cursor limit db = Inr (items, nc, n)"
  proof -
    from g obtain f cur rows nc' where "search_providers env f db cur limit (Some sf) = Inr (rows, nc')"
      "read_all read_provider rows = Inr items"
      by (auto simp: search_oauth_providers_route_def search_route_def guard_def bindR_Inr_iff split: if_splits)
    then show ?thesis using provider_searched masked_rowI [OF assms] by (fastforce dest: read_all_providers)
  qed
  show "\<forall>r. Some r \<in> set found \<longrightarrow> masked_row env db r" if g: "get_oauth_providers_batch_route env reg t ids db = Inr found"
  proof -
    from g obtain f rows where rows: "get_many_providers env f ids db = Inr rows" "read_all (read_opt read_provider) rows = Inr found"
      by (auto simp: get_oauth_providers_batch_route_def batch_read_route_def guard_def bindR_Inr_iff split: if_splits)
    show ?thesis
      unfolding read_opt_providers [OF rows(2)] Some_in_map_option
      using provider_found [OF i rows(1)] masked_rowI [OF assms] by blast
  qed
qed

lemma provider_writes_masked:
  "create_oauth_provider_route env reg t payload db = (Inr r, db') \<Longrightarrow> pv_client_secret r = MASKED_SECRET"
  "update_oauth_provider_route env reg t k change db = (Inr r, db') \<Longrightarrow> pv_client_secret r = MASKED_SECRET"
  "write_oauth_providers_batch_route env reg t ops db = (Inr rs, db') \<Longrightarrow> \<forall>r. Some r \<in> set rs \<longrightarrow> pv_client_secret r = MASKED_SECRET"
proof -
  show "pv_client_secret r = MASKED_SECRET" if "create_oauth_provider_route env reg t payload db = (Inr r, db')"
    using that by (auto simp: create_oauth_provider_route_def write_route_def commit_read_def read_provider_def provider_to_read_def
        split: sum.splits)
  show "pv_client_secret r = MASKED_SECRET" if "update_oauth_provider_route env reg t k change db = (Inr r, db')"
    using that by (auto simp: update_oauth_provider_route_def write_route_def commit_read_def read_provider_def provider_to_read_def
        split: sum.splits)
  show "\<forall>r. Some r \<in> set rs \<longrightarrow> pv_client_secret r = MASKED_SECRET" if w: "write_oauth_providers_batch_route env reg t ops db = (Inr rs, db')"
  proof -
    from w obtain xs where "read_all (read_opt read_provider) xs = Inr rs"
      by (auto simp: write_oauth_providers_batch_route_def batch_write_route_def commit_read_def Let_def split: sum.splits prod.splits)
    from read_opt_providers [OF this] show ?thesis by (auto simp: Some_in_map_option provider_to_read_def simp del: set_map)
  qed
qed

text \<open>C40. Along every history of requests, refreshes and identity changes, whatever they overlap with, the constraints hold: names are unique, every session has a provider and both have their
  creator, every provider is within the bounds of its schema; and the client secret of every provider and the two tokens of every session
  is a ciphertext that the configured keys decrypt. No provider a route answers shows its secret: the single read, the
  batch read and the search answer stored rows with the mask in place of the secret, and so does every create, update and batch of writes.\<close>

theorem outgoing_rows_sealed:
  assumes "outgoing_history env0 reg db db'" "outgoing_sound env0 db"
  shows "outgoing_sound env0 db' \<and>
    (\<forall>t k r. get_oauth_provider_route env0 reg t k db' = Inr r \<longrightarrow> masked_row env0 db' r \<and> pv_id r = k) \<and>
    (\<forall>t sf cursor limit items nc n. search_oauth_providers_route env0 reg t sf cursor limit db' = Inr (items, nc, n) \<longrightarrow>
       (\<forall>r \<in> set items. masked_row env0 db' r)) \<and>
    (\<forall>t ids found r. get_oauth_providers_batch_route env0 reg t ids db' = Inr found \<longrightarrow> Some r \<in> set found \<longrightarrow> masked_row env0 db' r) \<and>
    (\<forall>t payload r db2. create_oauth_provider_route env0 reg t payload db' = (Inr r, db2) \<longrightarrow> pv_client_secret r = MASKED_SECRET) \<and>
    (\<forall>t k change r db2. update_oauth_provider_route env0 reg t k change db' = (Inr r, db2) \<longrightarrow> pv_client_secret r = MASKED_SECRET) \<and>
    (\<forall>t ops rs db2 r. write_oauth_providers_batch_route env0 reg t ops db' = (Inr rs, db2) \<longrightarrow> Some r \<in> set rs \<longrightarrow>
       pv_client_secret r = MASKED_SECRET)"
proof -
  have s: "outgoing_sound env0 db'"
    using assms by (induction rule: outgoing_history.induct)
      (auto intro: serve_outgoing_sound refresh_route_step refresh_steps(2) identity_outgoing)
  show ?thesis
    by (intro conjI s allI impI) (auto dest: provider_reads_masked [OF s] provider_writes_masked)
qed

lemma witness_name: "strip ''forge'' = ''forge''"
  by code_simp

lemma witness_outgoing_sound: "outgoing_sound witness_outgoing_env witness_outgoing_db"
  by (simp add: outgoing_sound_def witness_outgoing_integrity witness_outgoing_parts sealed_def witness_secret)
    (simp add: witness_provider_def witness_session_def provider_ok_def name_ok_def witness_token_decrypt witness_name)

theorem outgoing_rows_sealed_witness:
  "outgoing_sound witness_outgoing_env
     (snd (refresh_oauth_session_route witness_outgoing_env registrations seven True 5 witness_outgoing_db witness_outgoing_db))"
  using outgoing_rows_sealed [OF outgoing_history.refresh [OF outgoing_history.start outgoing_history.start witness_keys witness_keys]
      witness_outgoing_sound, of registrations seven True 5] by blast

end
