(* ===== verification/Spec2Isabelle.thy ===== *)
theory Spec2Isabelle
  imports AclPrune JobRunnerService UsageLaws EventLaws IdentityTypes JobRouteLaws FeatureFlagLaws CorsLaws OutgoingHistory
begin

text \<open>
  Verification library of OpenHands Enterprise v2 (the Python package \<open>src/src/openhands/ev2\<close>), a
  FastAPI server over PostgreSQL that serves users, roles, API keys, feature flags, background jobs, usage records and
  conversation events, and that logs its users in through a federated identity provider. File
  names below are relative to that package.

  How the program works. A request carries a credential. \<open>auth/auth_tokens.py\<close> turns it into a user;
  \<open>auth/auth_dependencies.py\<close> collects the policies the user's roles hold for the resource and the action
  and reduces them (\<open>security/security_models.py\<close>) to one search filter (\<open>util/search_filter.py\<close>). A
  service is built with that filter: it tests the filter in memory on a row about to be created and
  adds its SQL form to every statement, so the two readings of a filter have to agree. Handlers
  commit at the end, an exception rolls back. Beside the requests run background loops (\<open>app.py\<close>):
  cleanup of expired tokens, pruning of orphaned ids from policies, partition managers, usage
  aggregators and the job runner.

  How the model is written. A pure function is a HOL function, a service operation a function from the
  rows it reads to the rows it leaves, with a sum for the exceptions (\<open>Inl\<close> the error, \<open>Inr\<close> the
  value); loops that are not structural have a termination proof. Clocks, generated ids and random
  bytes are arguments (the records named \<open>env\<close>). Identifiers are \<open>128 word\<close>, times are integers of
  microseconds since the epoch, strings are lists of one-byte characters. What is not in the
  repository is a parameter with its documented laws: the SQL engine (locale \<open>sql_engine\<close> in \<open>Sql\<close>,
  interpreted by the evaluator \<open>sql_eval\<close>), the cryptographic primitives of jose and bcrypt, and the
  identity provider's answers.

  The theories, in dependency order.

  Values and filters. \<open>Prelude\<close>: types, sums with \<open>bindR\<close>, generic lemmas. \<open>PyVal\<close>: Python values, comparisons and
  text. \<open>Sql\<close>: conditions as syntax and three-valued logic. \<open>SearchFilter\<close>: \<open>util/search_filter.py\<close> and the
  access filters of API keys, conversation records and events, each with its in-memory test
  \<open>matches\<close> and its condition \<open>sql_condition\<close>. \<open>FilterLaws\<close>: LIKE escaping is exact, both readings
  admit the same rows, the factories preserve meaning.

  Authorization. \<open>SecurityModels\<close>: the policies and their reduction. \<open>AuthModels\<close>: the rows of tokens, API keys, users and
  roles. \<open>Authz\<close>: from principal to filter, with the caches and the role stream of
  \<open>auth/auth_dependencies.py\<close>. \<open>AuthzLaws\<close>: the resolved filter is the access rule, an API key's role
  only narrows, caches are transparent. \<open>AclPrune\<close>: \<open>security/acl_prune_service.py\<close> when a
  run of it fails, and that pruning changes no decision on existing rows.

  Credentials. \<open>Encoding\<close>: digits, UUID text. \<open>Encryption\<close>: \<open>encryption/encryption_service.py\<close> with key rotation. \<open>Tokens\<close>:
  \<open>auth/auth_tokens.py\<close>; \<open>TokenLaws\<close>: what authenticates, and until when. \<open>OAuthHelpers\<close>,
  \<open>OAuthService\<close>: \<open>auth/auth_service.py\<close>; \<open>OAuthLaws\<close> (provisioning), \<open>OAuthFlow\<close> (callback, exchange,
  access), \<open>OAuthRevoke\<close> (checks of an exchange, revocation, logout, refresh, cleanup).

  Governed services. \<open>Governed\<close>: the statements every service runs and the specification of an authorized step. \<open>GovernedLaws\<close>: the
  locales \<open>governed_table\<close> (complete pages, exact counts) and \<open>governed_service\<close> (a batch is a run of
  authorized steps, all or nothing), interpreted for each service in its own theory. \<open>ServiceDb\<close>: the
  tables, constraints and cascades. \<open>UserService\<close>, \<open>RoleService\<close>, \<open>GroupService\<close>, \<open>ApiKeyService\<close>: the services of
  \<open>user\<close>, \<open>role\<close>, \<open>group\<close> and \<open>api_key\<close>. \<open>UserLaws\<close>, \<open>ServiceLaws\<close>: conflicts, passwords, and the
  invariants over histories of calls.

  Routes. \<open>Routes\<close>: the handlers every router repeats. \<open>RoutesLaws\<close>: what they answer, over the stored rows and the access rule, once in the
  context of \<open>governed_table\<close>. \<open>ApiKeyRouter\<close>, \<open>UserRouter\<close>, \<open>RoleRouter\<close>, \<open>GroupRouter\<close>, \<open>JobRouter\<close>: the routers with their schemas and
  status codes. \<open>RouteLaws\<close> (API keys), \<open>JobRouteLaws\<close> (jobs), \<open>IdentityRouteLaws\<close> (batches, single writes, listings):
  composition of authorization, service and route. \<open>CommitLaws\<close>: what a handler that commits at the end keeps of an invariant. \<open>IdentityTypes\<close>: histories of requests as a step relation, and
  what the schemas guarantee of every stored row.

  Feature flags and CORS. \<open>FeatureFlagService\<close>, \<open>FeatureFlagRouter\<close>: \<open>feature_flag\<close>, flags switched on globally, per role or per user;
  \<open>FeatureFlagLaws\<close>: who sees which flag, what an assignment takes, invariants over histories. \<open>CorsService\<close>,
  \<open>CorsRouter\<close>: \<open>cors\<close>, the allow-list, its cache and the middleware; \<open>CorsLaws\<close>: how far the middleware lags behind
  the list when requests interleave.

  Outgoing OAuth. A user may log in to third-party providers and let the server keep the tokens (\<open>oauth\<close>).
  \<open>OAuthProviderService\<close>, \<open>OAuthProviderRouter\<close>: the providers, with the client secret encrypted at rest.
  \<open>OAuthSessionService\<close>, \<open>OAuthSessionRouter\<close>: the login flow, the lazy and the explicit refresh under a row lock, and
  the stored sessions. A refresh has two arguments for the rows, those when the session was read and
  those when the lock was granted. \<open>OutgoingLaws\<close>: what a login leads to, when a token is renewed, what overlapping refreshes
  do. \<open>OutgoingHistory\<close>: the invariants over histories of all requests. The token endpoint of a provider
  is a function from the posted form to its answer.

  Background work. \<open>Calendar\<close>: the part of \<open>datetime\<close> the partitions use. \<open>Partitions\<close>: the partition manager, which
  five services repeat; \<open>PartitionLaws\<close>: its effect, once in the locale \<open>daily_table\<close> and interpreted for the
  five tables. \<open>JobService\<close>, \<open>JobLaws\<close>: \<open>job/job_service.py\<close>, with the life cycle of a job as a labelled
  step relation over interleaved clients and runners. \<open>JobRunnerService\<close>: \<open>job/job_runner_service.py\<close>.
  \<open>Json\<close>, \<open>IsoTime\<close>: \<open>json.dumps\<close>, \<open>json.loads\<close> and ISO times with their round trips.
  \<open>UsageServices\<close>, \<open>UsageLaws\<close>: recording and per-minute roll-up of usage (\<open>llm/llm_usage_service.py\<close>,
  \<open>mcp_server_config/mcp_usage_service.py\<close>, \<open>sandbox/sandbox_usage_service.py\<close>). \<open>EventService\<close>, \<open>EventLaws\<close>: events, their
  body store and the reconciliation (\<open>event\<close>).

  Bounds and fuel. The JSON parser runs with fuel twice the length of its input plus one, which the lemma
  \<open>loads_dumps\<close> shows to be enough for every printed value: each constructor consumes a character.
  The search for a free username is a \<open>partial_function\<close> in the option type; that it returns, with the least free
  candidate, is proved by counting the taken ones. Calendar facts hold for the years 1 to 9999, the range of \<open>datetime\<close>. The
  counters and the cost of a usage row are checked against the width of their columns where a row is recorded, and
  again as sums where a minute is rolled up: one sum out of range fails the roll-up of the whole minute. The form in which a JSONB column keeps
  an event's body (key order, numbers, what it refuses) is a parameter of the event theories; the configuration list of a sandbox usage row and the
  policies of a role are kept as they are sent.

  Not modelled. Text outside one-byte characters; numbers of JSON that are not integers, beyond their
  token; PostgreSQL's concurrency below the level of statements, except where a stale
  selection is an explicit argument (job claims); the streaming proxies and the Docker and
  Kubernetes drivers of sandboxes, which are input and output; database migrations and scripts;
  the services of sandboxes, secrets, MCP servers, LLM profiles, webhooks and conversation records, and
  the remaining routers.

  Idealisations. Times are unbounded, so the \<open>OverflowError\<close> of an expiry beyond the year 9999, which an absurd
  \<open>expires_in\<close> of a provider causes, is not a case. Where an operation reads the clock twice in a row, as the minting of a token
  does, the model reads it once. Lower-casing covers ASCII letters; PostgreSQL and Python also fold accented
  ones. Two updates of one row in a batch answer the row after each of them, where the program answers the same object twice, in its last
  state. The success status of a route (201, 204 or 200) is fixed by its decorator and not part of the answer; error statuses are.
  A lock that is not granted is the driver's plain \<open>DBAPIError\<close>, which the services do not catch.
\<close>

end
